(* ===== verification/Py_Prelude.thy ===== *)
theory Py_Prelude
  imports Main "HOL-Library.AList" "HOL-Library.Multiset"
begin

text \<open>
  Shared vocabulary of the development: Python exceptions as values, the result
  type that every fallible function returns, list indexing and slicing with the
  language's treatment of negative and out-of-range bounds, dictionaries as
  association lists with distinct keys, and the string operations the sources
  call.  A contract shared by every parsing loop (a fallible step that keeps an
  invariant, run over a list of inputs) is stated once, as the locale
  \<open>checked_loop\<close>, and interpreted by the components.
\<close>

named_theorems res_simps "rewriting of the result type"
named_theorems py_list_simps "Python list indexing and slicing on in-range arguments"

section \<open>Exceptions and results\<close>

datatype py_error =
    KeyError
  | IndexError
  | ValueError
  | TypeError
  | ZeroDivisionError
  | AssertionError
  | AttributeError
  | UnboundLocalError
  | PyException string

type_synonym 'a res = "py_error + 'a"

definition rbind :: "'e + 'a \<Rightarrow> ('a \<Rightarrow> 'e + 'b) \<Rightarrow> 'e + 'b" where
  "rbind m f = (case m of Inl e \<Rightarrow> Inl e | Inr x \<Rightarrow> f x)"

lemma rbind_simps [simp, res_simps]:
  "rbind (Inl e) f = Inl e"
  "rbind (Inr x) f = f x"
  by (simp_all add: rbind_def)

lemma rbind_Inr_iff [res_simps]:
  "rbind m f = Inr y \<longleftrightarrow> (\<exists>x. m = Inr x \<and> f x = Inr y)"
  by (cases m) auto

lemma rbind_Inl_iff [res_simps]:
  "rbind m f = Inl e \<longleftrightarrow> m = Inl e \<or> (\<exists>x. m = Inr x \<and> f x = Inl e)"
  by (cases m) auto

lemma rbind_cong [fundef_cong]:
  "m = m' \<Longrightarrow> (\<And>x. m' = Inr x \<Longrightarrow> f x = g x) \<Longrightarrow> rbind m f = rbind m' g"
  by (cases m') auto

lemma rbind_assoc: "rbind (rbind m f) g = rbind m (\<lambda>x. rbind (f x) g)"
  by (cases m) auto

text \<open>The statement sequence of a \<^verbatim>\<open>for\<close> loop whose body may raise.\<close>

fun foldM :: "('s \<Rightarrow> 'x \<Rightarrow> 'e + 's) \<Rightarrow> 's \<Rightarrow> 'x list \<Rightarrow> 'e + 's" where
  "foldM f s [] = Inr s"
| "foldM f s (x # xs) = rbind (f s x) (\<lambda>s'. foldM f s' xs)"

lemma foldM_append: "foldM f s (xs @ ys) = rbind (foldM f s xs) (\<lambda>s'. foldM f s' ys)"
  by (induction xs arbitrary: s) (auto simp: rbind_assoc)

lemma foldM_appendI: "foldM f s xs = Inr s' \<Longrightarrow> foldM f s' ys = r \<Longrightarrow> foldM f s (xs @ ys) = r"
  by (simp add: foldM_append)

lemma foldM_pure: "foldM (\<lambda>s x. Inr (g s x)) s xs = Inr (foldl g s xs)"
  by (induction xs arbitrary: s) auto

fun mapM :: "('x \<Rightarrow> 'e + 'y) \<Rightarrow> 'x list \<Rightarrow> 'e + 'y list" where
  "mapM f [] = Inr []"
| "mapM f (x # xs) = rbind (f x) (\<lambda>y. rbind (mapM f xs) (\<lambda>ys. Inr (y # ys)))"

lemma mapM_cong [fundef_cong]: "xs = ys \<Longrightarrow> (\<And>x. x \<in> set ys \<Longrightarrow> f x = g x) \<Longrightarrow> mapM f xs = mapM g ys"
  by (induction ys arbitrary: xs) auto

lemma mapM_Inr: "(\<And>x. x \<in> set xs \<Longrightarrow> f x = Inr (g x)) \<Longrightarrow> mapM f xs = Inr (map g xs)"
  by (induction xs) auto

lemma mapM_uniform:
  assumes "\<And>x. x \<in> set xs \<Longrightarrow> f x = (if P x then Inr (g x) else Inl e)"
  shows "mapM f xs = (if list_all P xs then Inr (map g xs) else Inl e)"
  using assms by (induction xs) auto

lemma mapM_Inr_length: "mapM f xs = Inr ys \<Longrightarrow> length ys = length xs"
  by (induction xs arbitrary: ys) (auto simp: res_simps)

section \<open>Loops that keep an invariant\<close>

text \<open>
  The contract of a loop body: started in a state that satisfies the invariant,
  on an input the loop accepts, it either raises or ends in such a state.
\<close>

locale checked_loop =
  fixes step :: "'s \<Rightarrow> 'x \<Rightarrow> 'e + 's"
    and inv :: "'s \<Rightarrow> bool"
    and ok :: "'x \<Rightarrow> bool"
  assumes step_inv: "inv s \<Longrightarrow> ok x \<Longrightarrow> step s x = Inr s' \<Longrightarrow> inv s'"
begin

lemma loop_inv: "inv s \<Longrightarrow> list_all ok xs \<Longrightarrow> foldM step s xs = Inr s' \<Longrightarrow> inv s'"
proof (induction xs arbitrary: s)
  case Nil
  then show ?case by simp
next
  case (Cons x xs)
  then obtain t where "step s x = Inr t" and "foldM step t xs = Inr s'"
    by (auto simp: res_simps)
  with Cons show ?case by (auto dest: step_inv)
qed

end

text \<open>A loop whose body never raises on accepted inputs.\<close>

locale total_loop = checked_loop step inv ok
  for step :: "'s \<Rightarrow> 'x \<Rightarrow> 'e + 's" and inv :: "'s \<Rightarrow> bool" and ok :: "'x \<Rightarrow> bool" +
  assumes step_total: "inv s \<Longrightarrow> ok x \<Longrightarrow> \<exists>s'. step s x = Inr s'"
begin

lemma loop_total: "inv s \<Longrightarrow> list_all ok xs \<Longrightarrow> \<exists>s'. foldM step s xs = Inr s' \<and> inv s'"
proof (induction xs arbitrary: s)
  case Nil
  then show ?case by simp
next
  case (Cons x xs)
  then obtain t where t: "step s x = Inr t"
    using step_total [of s x] by auto
  with Cons.prems have "inv t"
    by (auto intro: step_inv)
  with Cons t show ?case by auto
qed

end

lemma total_loopI:
  assumes "\<And>s x. P s \<Longrightarrow> ok x \<Longrightarrow> \<exists>s'. step s x = Inr s' \<and> P s'"
  shows "total_loop step P ok"
proof
  show "P s'" if "P s" "ok x" "step s x = Inr s'" for s x s' using assms [OF that(1,2)] that(3) by auto
  show "\<exists>s'. step s x = Inr s'" if "P s" "ok x" for s x using assms [OF that] by blast
qed

section \<open>Lists: indexing and slicing\<close>

text \<open>\<^verbatim>\<open>xs[i]\<close>: negative indices count from the end, out of range raises.\<close>

definition py_index :: "'a list \<Rightarrow> int \<Rightarrow> 'a res" where
  "py_index xs i =
     (if 0 \<le> i \<and> i < int (length xs) then Inr (xs ! nat i)
      else if i < 0 \<and> - int (length xs) \<le> i then Inr (xs ! nat (int (length xs) + i))
      else Inl IndexError)"

lemma py_index_nonneg [py_list_simps]:
  "0 \<le> i \<Longrightarrow> i < int (length xs) \<Longrightarrow> py_index xs i = Inr (xs ! nat i)"
  by (simp add: py_index_def)

lemma py_index_nat [simp, py_list_simps]:
  "i < length xs \<Longrightarrow> py_index xs (int i) = Inr (xs ! i)"
  by (simp add: py_index_def)

lemma py_index_last [py_list_simps]:
  "xs \<noteq> [] \<Longrightarrow> py_index xs (- 1) = Inr (last xs)"
  by (cases xs rule: rev_cases) (auto simp: py_index_def nat_diff_distrib nth_append)

lemma py_index_Nil [simp, py_list_simps]: "py_index [] i = Inl IndexError"
  by (simp add: py_index_def)

text \<open>
  \<^verbatim>\<open>xs[lo:hi]\<close>: an omitted bound is \<open>None\<close>; a negative bound is relative to the
  end; bounds are clamped to the list.
\<close>

definition slice_bound :: "nat \<Rightarrow> int \<Rightarrow> nat" where
  "slice_bound n i = (if i < 0 then nat (max 0 (int n + i)) else min n (nat i))"

definition py_slice :: "'a list \<Rightarrow> int option \<Rightarrow> int option \<Rightarrow> 'a list" where
  "py_slice xs lo hi =
     (let n = length xs;
          l = (case lo of None \<Rightarrow> 0 | Some i \<Rightarrow> slice_bound n i);
          h = (case hi of None \<Rightarrow> n | Some i \<Rightarrow> slice_bound n i)
      in take (h - l) (drop l xs))"

lemma slice_bound_le [simp]: "slice_bound n i \<le> n"
  by (auto simp: slice_bound_def)

lemma py_slice_prefix [py_list_simps]: "0 \<le> k \<Longrightarrow> py_slice xs None (Some k) = take (nat k) xs"
  by (auto simp: py_slice_def slice_bound_def min_def Let_def)

lemma py_slice_suffix [py_list_simps]: "0 \<le> k \<Longrightarrow> py_slice xs (Some k) None = drop (nat k) xs"
  by (auto simp: py_slice_def slice_bound_def min_def Let_def)

lemma py_slice_neg_suffix [py_list_simps]:
  "0 < k \<Longrightarrow> py_slice xs (Some (- k)) None = drop (length xs - nat k) xs"
  by (auto simp: py_slice_def slice_bound_def max_def nat_diff_distrib' Let_def)

lemma py_slice_neg_prefix [py_list_simps]:
  "0 < k \<Longrightarrow> py_slice xs None (Some (- k)) = take (length xs - nat k) xs"
  by (auto simp: py_slice_def slice_bound_def max_def nat_diff_distrib' Let_def)

lemma py_slice_between [py_list_simps]:
  "0 \<le> l \<Longrightarrow> 0 \<le> h \<Longrightarrow>
   py_slice xs (Some l) (Some h) = take (nat h - nat l) (drop (nat l) xs)"
  by (auto simp: py_slice_def slice_bound_def min_def Let_def)

lemma length_py_slice: "length (py_slice xs lo hi) \<le> length xs"
  by (simp add: py_slice_def Let_def)

lemma set_py_slice: "set (py_slice xs lo hi) \<subseteq> set xs"
  by (auto simp: py_slice_def Let_def dest: in_set_takeD in_set_dropD)

text \<open>\<^verbatim>\<open>c * n\<close> on a one-element string or list: empty for a non-positive count.\<close>

abbreviation py_repeat :: "int \<Rightarrow> 'a \<Rightarrow> 'a list" where
  "py_repeat n x \<equiv> replicate (nat n) x"

section \<open>Dictionaries\<close>

text \<open>
  A dictionary is an association list with distinct keys.  Assignment to an
  existing key keeps its place, a new key goes to the end; where the order in
  which a dictionary is iterated is up to the interpreter, the operation that
  iterates takes the order as an argument.
\<close>

type_synonym ('k, 'v) dict = "('k \<times> 'v) list"

abbreviation dict_get :: "('k, 'v) dict \<Rightarrow> 'k \<Rightarrow> 'v option" where
  "dict_get d k \<equiv> map_of d k"

abbreviation dict_set :: "('k, 'v) dict \<Rightarrow> 'k \<Rightarrow> 'v \<Rightarrow> ('k, 'v) dict" where
  "dict_set d k v \<equiv> AList.update k v d"

abbreviation dict_remove :: "('k, 'v) dict \<Rightarrow> 'k \<Rightarrow> ('k, 'v) dict" where
  "dict_remove d k \<equiv> AList.delete k d"

abbreviation dict_keys :: "('k, 'v) dict \<Rightarrow> 'k list" where
  "dict_keys d \<equiv> map fst d"

abbreviation is_dict :: "('k, 'v) dict \<Rightarrow> bool" where
  "is_dict d \<equiv> distinct (map fst d)"

text \<open>\<^verbatim>\<open>d[k]\<close> and \<^verbatim>\<open>del d[k]\<close> raise on a missing key.\<close>

definition dict_lookup :: "('k, 'v) dict \<Rightarrow> 'k \<Rightarrow> 'v res" where
  "dict_lookup d k = (case map_of d k of None \<Rightarrow> Inl KeyError | Some v \<Rightarrow> Inr v)"

definition dict_del :: "('k, 'v) dict \<Rightarrow> 'k \<Rightarrow> ('k, 'v) dict res" where
  "dict_del d k = (case map_of d k of None \<Rightarrow> Inl KeyError | Some _ \<Rightarrow> Inr (dict_remove d k))"

lemma dict_get_set [simp]: "dict_get (dict_set d k v) = (dict_get d)(k \<mapsto> v)"
  by (simp add: AList.update_conv' fun_eq_iff)

lemma dict_get_remove [simp]: "dict_get (dict_remove d k) = (dict_get d)(k := None)"
  by (simp add: AList.delete_conv' fun_eq_iff)

lemma is_dict_set [intro]: "is_dict d \<Longrightarrow> is_dict (dict_set d k v)"
  by (rule AList.distinct_update)

lemma is_dict_remove [intro]: "is_dict d \<Longrightarrow> is_dict (dict_remove d k)"
  by (rule AList.distinct_delete)

lemma dict_lookup_Inr [simp]: "dict_lookup d k = Inr v \<longleftrightarrow> dict_get d k = Some v"
  by (auto simp: dict_lookup_def split: option.splits)

lemma dict_lookup_Inl [simp]: "dict_lookup d k = Inl e \<longleftrightarrow> dict_get d k = None \<and> e = KeyError"
  by (auto simp: dict_lookup_def split: option.splits)

lemma dict_lookup_Some: "dict_get d k = Some v \<Longrightarrow> dict_lookup d k = Inr v"
  by simp

lemma dict_del_Inr [simp]:
  "dict_del d k = Inr d' \<longleftrightarrow> k \<in> dom (dict_get d) \<and> d' = dict_remove d k"
  by (auto simp: dict_del_def split: option.splits)

lemma dict_del_Inl [simp]: "dict_del d k = Inl e \<longleftrightarrow> k \<notin> dom (dict_get d) \<and> e = KeyError"
  by (auto simp: dict_del_def split: option.splits)

lemma length_dict_remove_less:
  "k \<in> dom (dict_get d) \<Longrightarrow> length (dict_remove d k) < length d"
  by (induction d) (auto simp: AList.length_delete_le le_imp_less_Suc split: if_splits)

lemma length_dict_set: "k \<in> dom (dict_get d) \<Longrightarrow> length (dict_set d k v) = length d"
  by (induction d) auto

lemma dom_dict_get: "dom (dict_get d) = set (dict_keys d)"
  by (simp add: dom_map_of_conv_image_fst)

text \<open>
  What the clients of a dictionary rely on, and the facts about loops that fill
  one: the last assignment to a key is the one that is read back.
\<close>

locale dict_ops =
  fixes empty :: 'd
    and get :: "'d \<Rightarrow> 'k \<Rightarrow> 'v option"
    and put :: "'d \<Rightarrow> 'k \<Rightarrow> 'v \<Rightarrow> 'd"
    and keys :: "'d \<Rightarrow> 'k list"
    and valid :: "'d \<Rightarrow> bool"
  assumes get_empty: "get empty k = None"
    and get_put: "get (put d k v) k' = (if k' = k then Some v else get d k')"
    and set_keys: "k \<in> set (keys d) \<longleftrightarrow> get d k \<noteq> None"
    and valid_empty: "valid empty"
    and valid_put: "valid d \<Longrightarrow> valid (put d k v)"
    and valid_keys: "valid d \<Longrightarrow> distinct (keys d)"
begin

lemma get_fill_other:
  "k \<notin> f ` set xs \<Longrightarrow> get (foldl (\<lambda>d x. put d (f x) (g x)) d xs) k = get d k"
  by (induction xs arbitrary: d) (auto simp: get_put)

lemma get_fill_last:
  assumes "f x = k" and "k \<notin> f ` set ys"
  shows "get (foldl (\<lambda>d x. put d (f x) (g x)) d (xs @ x # ys)) k = Some (g x)"
  using assms by (simp add: get_fill_other get_put)

lemma get_fill_inj:
  assumes "inj_on f (set xs)" and "x \<in> set xs"
  shows "get (foldl (\<lambda>d x. put d (f x) (g x)) d xs) (f x) = Some (g x)"
proof -
  obtain ys zs where xs: "xs = ys @ x # zs" and x: "x \<notin> set zs"
    using assms(2) by (metis split_list_last)
  then have "f x \<notin> f ` set zs"
    using assms(1) by (auto simp: inj_on_def)
  then show ?thesis
    unfolding xs by (intro get_fill_last) auto
qed

lemma valid_fill: "valid d \<Longrightarrow> valid (foldl (\<lambda>d x. put d (f x) (g x)) d xs)"
  by (induction xs arbitrary: d) (auto intro: valid_put)

lemma keys_fill:
  "set (keys (foldl (\<lambda>d x. put d (f x) (g x)) empty xs)) = f ` set xs"
proof -
  have "get (foldl (\<lambda>d x. put d (f x) (g x)) d xs) k \<noteq> None \<longleftrightarrow> get d k \<noteq> None \<or> k \<in> f ` set xs" for d k
    by (induction xs arbitrary: d) (auto simp: get_put)
  then show ?thesis
    by (auto simp: set_keys get_empty)
qed

end

interpretation pydict: dict_ops "[]" dict_get dict_set dict_keys is_dict
proof (unfold_locales, goal_cases)
  case (3 k d)
  show ?case by (metis map_of_eq_None_iff set_map)
qed (auto intro: is_dict_set)

text \<open>
  The order in which an interpreter enumerates the keys of a dictionary: some
  permutation of them.
\<close>

definition key_order :: "('k list \<Rightarrow> 'k list) \<Rightarrow> bool" where
  "key_order ko \<longleftrightarrow> (\<forall>ks. mset (ko ks) = mset ks)"

lemma key_orderD:
  assumes "key_order ko"
  shows "set (ko ks) = set ks" and "distinct (ko ks) = distinct ks" and "length (ko ks) = length ks"
proof -
  from assms have *: "mset (ko ks) = mset ks"
    by (simp add: key_order_def)
  then show "set (ko ks) = set ks" "length (ko ks) = length ks"
    by (auto dest: mset_eq_setD mset_eq_length)
  from * show "distinct (ko ks) = distinct ks"
    by (rule mset_eq_imp_distinct_iff)
qed

end
