(* ===== verification/Py_Strings.thy ===== *)
theory Py_Strings
  imports Py_Prelude "HOL-Library.Char_ord"
begin

text \<open>
  Strings as the sources use them: positional notation (\<^verbatim>\<open>str\<close>, \<^verbatim>\<open>hex\<close>,
  \<^verbatim>\<open>int(s, base)\<close>), \<^verbatim>\<open>split\<close> and \<^verbatim>\<open>join\<close>, prefixes and character
  classes of the regular expressions.  The round trips between a number and its
  digits, and between a string and its fields, are proved here once.
  Paths (\<^verbatim>\<open>os.path\<close>) and shell patterns (\<^verbatim>\<open>fnmatch\<close>) are at the end.
\<close>

section \<open>Positional notation\<close>

fun digits_of :: "nat \<Rightarrow> nat \<Rightarrow> nat list" where
  "digits_of b n = (if b < 2 \<or> n < b then [n] else digits_of b (n div b) @ [n mod b])"

declare digits_of.simps [simp del]

definition of_digits :: "nat \<Rightarrow> nat list \<Rightarrow> nat" where
  "of_digits b ds = foldl (\<lambda>a d. a * b + d) 0 ds"

lemma of_digits_snoc [simp]: "of_digits b (ds @ [d]) = of_digits b ds * b + d"
  by (simp add: of_digits_def)

lemma of_digits_Nil [simp]: "of_digits b [] = 0"
  by (simp add: of_digits_def)

lemma of_digits_single [simp]: "of_digits b [d] = d"
  by (simp add: of_digits_def)

lemma of_digits_append: "of_digits b (xs @ ys) = of_digits b xs * b ^ length ys + of_digits b ys"
  by (induction ys rule: rev_induct) (auto simp: algebra_simps simp flip: append_assoc)

lemma of_digits_zeros [simp]: "of_digits b (replicate k 0) = 0"
proof (induction k)
  case (Suc k)
  have "replicate (Suc k) (0::nat) = replicate k 0 @ [0]"
    by (simp add: replicate_append_same)
  with Suc show ?case by simp
qed simp

lemma of_digits_less: "\<forall>d \<in> set ds. d < b \<Longrightarrow> of_digits b ds < b ^ length ds"
proof (induction ds rule: rev_induct)
  case Nil
  then show ?case by simp
next
  case (snoc d ds)
  then have "of_digits b ds + 1 \<le> b ^ length ds" and d: "d < b" by auto
  then have "(of_digits b ds + 1) * b \<le> b ^ length ds * b"
    by (intro mult_le_mono1) simp
  with d show ?case by (simp add: algebra_simps)
qed

lemma of_digits_of [simp]: "of_digits b (digits_of b n) = n"
proof (induction b n rule: digits_of.induct)
  case (1 b n)
  then show ?case
    by (subst digits_of.simps) (auto simp: of_digits_def)
qed

lemma digits_of_less: "2 \<le> b \<Longrightarrow> d \<in> set (digits_of b n) \<Longrightarrow> d < b"
proof (induction b n rule: digits_of.induct)
  case (1 b n)
  then show ?case
    by (auto simp: digits_of.simps [of b n] split: if_splits)
qed

lemma digits_of_nonempty [simp]: "digits_of b n \<noteq> []"
  by (subst digits_of.simps) auto

lemma length_digits_of: "2 \<le> b \<Longrightarrow> 0 < k \<Longrightarrow> n < b ^ k \<Longrightarrow> length (digits_of b n) \<le> k"
proof (induction k arbitrary: n)
  case 0
  then show ?case by simp
next
  case (Suc k)
  show ?case
  proof (cases "n < b")
    case True
    then show ?thesis by (subst digits_of.simps) simp
  next
    case False
    with Suc.prems have "n div b < b ^ k"
      by (simp add: div_less_iff_less_mult mult.commute)
    moreover from False this Suc.prems have "0 < k"
      by (cases k) (auto simp: div_less_iff_less_mult)
    ultimately have "length (digits_of b (n div b)) \<le> k"
      using Suc.IH Suc.prems by blast
    with False Suc.prems show ?thesis
      by (subst digits_of.simps) auto
  qed
qed

text \<open>Characters of digits below sixteen, lower case as \<^verbatim>\<open>hex\<close> writes them.\<close>

definition digit_char :: "nat \<Rightarrow> char" where
  "digit_char d = char_of (if d < 10 then 48 + d else 87 + d)"

definition digit_val :: "char \<Rightarrow> nat option" where
  "digit_val c =
     (let k = (of_char c :: nat) in
      if 48 \<le> k \<and> k \<le> 57 then Some (k - 48)
      else if 97 \<le> k \<and> k \<le> 102 then Some (k - 87)
      else if 65 \<le> k \<and> k \<le> 70 then Some (k - 55)
      else None)"

lemma digit_val_char [simp]: "d < 16 \<Longrightarrow> digit_val (digit_char d) = Some d"
  by (auto simp: digit_val_def digit_char_def)

lemma digit_char_inj: "d < 16 \<Longrightarrow> e < 16 \<Longrightarrow> digit_char d = digit_char e \<longleftrightarrow> d = e"
  by (metis digit_val_char option.inject)

definition show_nat :: "nat \<Rightarrow> string" where
  "show_nat n = map digit_char (digits_of 10 n)"

text \<open>\<^verbatim>\<open>str(i)\<close> and \<^verbatim>\<open>'%d' % i\<close>.\<close>

definition show_int :: "int \<Rightarrow> string" where
  "show_int i = (if i < 0 then CHR ''-'' # show_nat (nat (- i)) else show_nat (nat i))"

text \<open>\<^verbatim>\<open>hex(i)\<close>, without the \<^verbatim>\<open>L\<close> that Python 2 appends to a long.\<close>

definition py_hex :: "int \<Rightarrow> string" where
  "py_hex i =
     (if i < 0 then ''-0x'' @ map digit_char (digits_of 16 (nat (- i)))
      else ''0x'' @ map digit_char (digits_of 16 (nat i)))"

fun parse_acc :: "nat \<Rightarrow> nat \<Rightarrow> string \<Rightarrow> nat option" where
  "parse_acc b acc [] = Some acc"
| "parse_acc b acc (c # cs) =
     (case digit_val c of
        None \<Rightarrow> None
      | Some d \<Rightarrow> if d < b then parse_acc b (acc * b + d) cs else None)"

definition parse_nat :: "nat \<Rightarrow> string \<Rightarrow> nat option" where
  "parse_nat b s = (if s = [] then None else parse_acc b 0 s)"

lemma parse_acc_digits:
  "b \<le> 16 \<Longrightarrow> \<forall>d \<in> set ds. d < b \<Longrightarrow>
   parse_acc b acc (map digit_char ds) = Some (foldl (\<lambda>a d. a * b + d) acc ds)"
  by (induction ds arbitrary: acc) auto

lemma parse_nat_digits:
  "b \<le> 16 \<Longrightarrow> ds \<noteq> [] \<Longrightarrow> \<forall>d \<in> set ds. d < b \<Longrightarrow>
   parse_nat b (map digit_char ds) = Some (of_digits b ds)"
  by (simp add: parse_nat_def parse_acc_digits of_digits_def)

lemma parse_show_nat: "parse_nat 10 (show_nat n) = Some n"
  by (simp add: show_nat_def parse_nat_digits digits_of_less)

lemma show_nat_nonempty [simp]: "show_nat n \<noteq> []"
  by (simp add: show_nat_def)

lemma show_nat_step: "10 \<le> n \<Longrightarrow> show_nat n = show_nat (n div 10) @ [digit_char (n mod 10)]"
  by (subst show_nat_def, subst digits_of.simps) (simp add: show_nat_def)

lemma show_nat_single: "n < 10 \<Longrightarrow> show_nat n = [digit_char n]"
  by (subst show_nat_def, subst digits_of.simps) simp

section \<open>Character classes\<close>

definition is_space :: "char \<Rightarrow> bool" where
  "is_space c \<longleftrightarrow> c = CHR '' '' \<or> (9 \<le> (of_char c :: nat) \<and> (of_char c :: nat) \<le> 13)"

definition is_digit :: "char \<Rightarrow> bool" where
  "is_digit c \<longleftrightarrow> 48 \<le> (of_char c :: nat) \<and> (of_char c :: nat) \<le> 57"

definition is_word :: "char \<Rightarrow> bool" where
  "is_word c \<longleftrightarrow>
     (let k = (of_char c :: nat) in
      (48 \<le> k \<and> k \<le> 57) \<or> (65 \<le> k \<and> k \<le> 90) \<or> (97 \<le> k \<and> k \<le> 122) \<or> k = 95)"

lemma is_digit_digit_char: "d < 10 \<Longrightarrow> is_digit (digit_char d)"
  by (auto simp: is_digit_def digit_char_def)

lemma show_nat_digits: "list_all is_digit (show_nat n)"
  by (auto simp: show_nat_def list_all_iff dest: digits_of_less [rotated] intro: is_digit_digit_char)

text \<open>\<^verbatim>\<open>s.strip()\<close> removes white space at both ends.\<close>

definition py_strip :: "string \<Rightarrow> string" where
  "py_strip s = rev (dropWhile is_space (rev (dropWhile is_space s)))"

text \<open>\<^verbatim>\<open>int(s, 2)\<close>: white space around, an optional sign, an optional \<^verbatim>\<open>0b\<close>, digits.\<close>

definition py_int2 :: "string \<Rightarrow> int res" where
  "py_int2 s =
     (let t = py_strip s;
          neg = (take 1 t = ''-'');
          u = (if take 1 t = ''-'' \<or> take 1 t = ''+'' then drop 1 t else t);
          v = (if take 2 u = ''0b'' \<or> take 2 u = ''0B'' then drop 2 u else u)
      in case parse_nat 2 v of
           None \<Rightarrow> Inl ValueError
         | Some n \<Rightarrow> Inr (if neg then - int n else int n))"

section \<open>Fields of a string\<close>

text \<open>\<^verbatim>\<open>s.split(c)\<close> on a one-character separator.\<close>

fun split_on :: "char \<Rightarrow> string \<Rightarrow> string list" where
  "split_on c [] = [[]]"
| "split_on c (x # xs) =
     (if x = c then [] # split_on c xs
      else (case split_on c xs of [] \<Rightarrow> [[x]] | w # ws \<Rightarrow> (x # w) # ws))"

fun join_with :: "string \<Rightarrow> string list \<Rightarrow> string" where
  "join_with sep [] = []"
| "join_with sep [w] = w"
| "join_with sep (w # v # ws) = w @ sep @ join_with sep (v # ws)"

lemma split_on_nonempty [simp]: "split_on c s \<noteq> []"
  by (induction s) (auto split: list.splits)

lemma join_split: "join_with [c] (split_on c s) = s"
proof (induction s)
  case Nil
  then show ?case by simp
next
  case (Cons x s)
  obtain w ws where "split_on c s = w # ws"
    by (meson neq_Nil_conv split_on_nonempty)
  with Cons show ?case by (cases ws) auto
qed

lemma split_on_no_sep: "c \<notin> set w \<Longrightarrow> split_on c w = [w]"
  by (induction w) auto

lemma split_on_append: "c \<notin> set w \<Longrightarrow> split_on c (w @ c # s) = w # split_on c s"
  by (induction w) auto

lemma split_join: "ws \<noteq> [] \<Longrightarrow> \<forall>w \<in> set ws. c \<notin> set w \<Longrightarrow> split_on c (join_with [c] ws) = ws"
  by (induction "[c]" ws rule: join_with.induct) (auto simp: split_on_no_sep split_on_append)

lemma length_split_on: "length (split_on c s) = Suc (count_list s c)"
  by (induction s) (auto split: list.splits)

text \<open>\<^verbatim>\<open>s.startswith(p)\<close> and \<^verbatim>\<open>s.endswith(p)\<close>.\<close>

definition starts_with :: "string \<Rightarrow> string \<Rightarrow> bool" where
  "starts_with s p \<longleftrightarrow> take (length p) s = p"

definition ends_with :: "string \<Rightarrow> string \<Rightarrow> bool" where
  "ends_with s p \<longleftrightarrow> length p \<le> length s \<and> drop (length s - length p) s = p"

text \<open>\<^verbatim>\<open>needle in s\<close>.\<close>

definition has_text :: "string \<Rightarrow> string \<Rightarrow> bool" where
  "has_text s needle = list_ex (\<lambda>k. starts_with (drop k s) needle) [0..<length s + 1]"

lemma starts_with_append [simp]: "starts_with (p @ s) p"
  by (simp add: starts_with_def)

lemma starts_with_Nil [simp]: "starts_with s []"
  by (simp add: starts_with_def)

lemma starts_with_Cons [simp]: "starts_with (c # s) (d # p) \<longleftrightarrow> c = d \<and> starts_with s p"
  by (auto simp: starts_with_def)

lemma starts_with_snoc: "c \<notin> set p \<Longrightarrow> starts_with (s @ [c]) p = starts_with s p"
  by (induction s arbitrary: p) (auto simp: starts_with_def take_Cons' split: if_splits)

lemma starts_with_iff: "starts_with s p \<longleftrightarrow> (\<exists>t. s = p @ t)"
  by (metis append_eq_conv_conj append_take_drop_id starts_with_def)

lemma ends_with_iff: "ends_with s p \<longleftrightarrow> (\<exists>t. s = t @ p)"
proof
  assume "ends_with s p"
  then show "\<exists>t. s = t @ p"
    by (metis append_take_drop_id ends_with_def)
next
  assume "\<exists>t. s = t @ p"
  then show "ends_with s p" by (auto simp: ends_with_def)
qed

text \<open>\<^verbatim>\<open>repr(s)\<close>.\<close>

definition repr_char :: "char \<Rightarrow> char \<Rightarrow> string" where
  "repr_char quote c =
     (let k = (of_char c :: nat) in
      if c = quote \<or> c = CHR 0x5C then [CHR 0x5C, c]
      else if k = 9 then [CHR 0x5C, CHR ''t''] else if k = 10 then [CHR 0x5C, CHR ''n''] else if k = 13 then [CHR 0x5C, CHR ''r'']
      else if k < 32 \<or> k = 127 then [CHR 0x5C, CHR ''x'', digit_char (k div 16), digit_char (k mod 16)]
      else [c])"

definition py_repr :: "string \<Rightarrow> string" where
  "py_repr s =
     (let quote = (if CHR 0x27 \<in> set s \<and> CHR 0x22 \<notin> set s then CHR 0x22 else CHR 0x27)
      in [quote] @ concat (map (repr_char quote) s) @ [quote])"

text \<open>\<^verbatim>\<open>c.upper()\<close> and \<^verbatim>\<open>c.lower()\<close> on ASCII.\<close>

definition upper_char :: "char \<Rightarrow> char" where
  "upper_char c = (let k = (of_char c :: nat) in if 97 \<le> k \<and> k \<le> 122 then char_of (k - 32) else c)"

definition lower_char :: "char \<Rightarrow> char" where
  "lower_char c = (let k = (of_char c :: nat) in if 65 \<le> k \<and> k \<le> 90 then char_of (k + 32) else c)"

section \<open>Paths\<close>

text \<open>\<^verbatim>\<open>os.path.join(a, b)\<close> on POSIX.\<close>

definition path_join :: "string \<Rightarrow> string \<Rightarrow> string" where
  "path_join a b =
     (if starts_with b ''/'' then b
      else if a = [] \<or> ends_with a ''/'' then a @ b
      else a @ ''/'' @ b)"

definition basename :: "string \<Rightarrow> string" where
  "basename p = rev (takeWhile (\<lambda>c. c \<noteq> CHR ''/'') (rev p))"

lemma basename_append: "CHR ''/'' \<notin> set c \<Longrightarrow> basename (p @ CHR ''/'' # c) = c"
proof -
  assume "CHR ''/'' \<notin> set c"
  then have "takeWhile (\<lambda>x. x \<noteq> CHR ''/'') (rev c @ CHR ''/'' # rev p) = rev c"
    by (subst takeWhile_append2) auto
  then show ?thesis by (simp add: basename_def)
qed

text \<open>\<^verbatim>\<open>os.path.split\<close> on POSIX.\<close>

definition path_split :: "string \<Rightarrow> string \<times> string" where
  "path_split p =
     (let tail = basename p;
          head = take (length p - length tail) p;
          bare = rev (dropWhile (\<lambda>c. c = CHR ''/'') (rev head))
      in (if bare = [] then head else bare, tail))"

lemma path_split_take: "\<exists>k. fst (path_split p) = take k p"
proof -
  have bare: "rev (dropWhile P (rev s)) = take (length s - length (takeWhile P (rev s))) s" for P and s :: string
    by (simp add: dropWhile_eq_drop rev_drop)
  show ?thesis
    unfolding path_split_def Let_def bare by (auto simp: min_def) (metis take_all order_refl)
qed

lemma path_split_shorter: "fst (path_split p) \<noteq> p \<Longrightarrow> length (fst (path_split p)) < length p"
  using path_split_take [of p] by (auto simp: not_less)

text \<open>\<^verbatim>\<open>os.path.normpath\<close>: the components that remain, and the path made of them.\<close>

definition norm_comp :: "bool \<Rightarrow> string list \<Rightarrow> string \<Rightarrow> string list" where
  "norm_comp rooted comps c =
     (if c = [] \<or> c = ''.'' then comps
      else if c \<noteq> ''..'' \<or> (\<not> rooted \<and> comps = []) \<or> (comps \<noteq> [] \<and> last comps = ''..'') then comps @ [c]
      else butlast comps)"

definition norm_comps :: "string \<Rightarrow> string list" where
  "norm_comps p = foldl (norm_comp (starts_with p ''/'')) [] (split_on (CHR ''/'') p)"

definition normpath :: "string \<Rightarrow> string" where
  "normpath p =
     (let slashes = (if starts_with p ''//'' \<and> \<not> starts_with p ''///'' then ''//''
                     else if starts_with p ''/'' then ''/'' else []);
          q = slashes @ join_with ''/'' (norm_comps p)
      in if q = [] then ''.'' else q)"

definition abspath :: "string \<Rightarrow> string \<Rightarrow> string" where
  "abspath cwd p = normpath (if starts_with p ''/'' then p else path_join cwd p)"

fun drop_common :: "'a list \<Rightarrow> 'a list \<Rightarrow> 'a list \<times> 'a list" where
  "drop_common (x # xs) (y # ys) = (if x = y then drop_common xs ys else (x # xs, y # ys))"
| "drop_common xs ys = (xs, ys)"

definition relpath :: "string \<Rightarrow> string \<Rightarrow> string \<Rightarrow> string" where
  "relpath cwd p start =
     (let (ss, ps) = drop_common (norm_comps (abspath cwd start)) (norm_comps (abspath cwd p));
          r = replicate (length ss) ''..'' @ ps
      in if r = [] then ''.'' else join_with ''/'' r)"

section \<open>File name patterns\<close>

text \<open>\<^verbatim>\<open>fnmatch\<close>: a pattern as a list of items; a set lists ranges and may be negated.\<close>

datatype glob = GStar | GAny | GLit char | GSet bool "(char \<times> char) list"

fun glob_ranges :: "string \<Rightarrow> (char \<times> char) list" where
  "glob_ranges (a # c # b # rest) = (if c = CHR ''-'' then (a, b) # glob_ranges rest else (a, a) # glob_ranges (c # b # rest))"
| "glob_ranges (a # rest) = (a, a) # glob_ranges rest"
| "glob_ranges [] = []"

text \<open>What follows \<^verbatim>\<open>[\<close>: whether the set is negated, its text, and the rest after \<^verbatim>\<open>]\<close>.\<close>

definition glob_set :: "string \<Rightarrow> (bool \<times> string \<times> string) option" where
  "glob_set s =
     (let neg = (take 1 s = ''!'');
          s = (if neg then drop 1 s else s);
          first = (if take 1 s = '']'' then '']'' else []);
          s = drop (length first) s;
          body = takeWhile (\<lambda>c. c \<noteq> CHR '']'') s
      in if length body < length s then Some (neg, first @ body, drop (Suc (length body)) s) else None)"

lemma glob_set_shorter: "glob_set s = Some (neg, body, rest) \<Longrightarrow> length rest < length s"
  by (auto simp: glob_set_def Let_def split: if_splits)

function (sequential) glob_parse :: "string \<Rightarrow> glob list" where
  "glob_parse [] = []"
| "glob_parse (c # s) =
     (if c = CHR ''*'' then GStar # glob_parse s
      else if c = CHR ''?'' then GAny # glob_parse s
      else if c = CHR ''['' then
        (case glob_set s of
           Some (neg, body, rest) \<Rightarrow> GSet neg (glob_ranges body) # glob_parse rest
         | None \<Rightarrow> GLit c # glob_parse s)
      else GLit c # glob_parse s)"
  by pat_completeness auto
termination
  by (relation "measure length") (auto dest: glob_set_shorter)

fun glob_match :: "glob list \<Rightarrow> string \<Rightarrow> bool" where
  "glob_match [] s = (s = [])"
| "glob_match (GStar # ps) [] = glob_match ps []"
| "glob_match (GStar # ps) (c # s) = (glob_match ps (c # s) \<or> glob_match (GStar # ps) s)"
| "glob_match (GAny # ps) s = (case s of [] \<Rightarrow> False | c # s \<Rightarrow> glob_match ps s)"
| "glob_match (GLit a # ps) s = (case s of [] \<Rightarrow> False | c # s \<Rightarrow> c = a \<and> glob_match ps s)"
| "glob_match (GSet neg rs # ps) s =
     (case s of
        [] \<Rightarrow> False
      | c # s \<Rightarrow> list_ex (\<lambda>(a, b). (of_char a :: nat) \<le> of_char c \<and> (of_char c :: nat) \<le> of_char b) rs \<noteq> neg \<and> glob_match ps s)"

definition fnmatch_filter :: "string list \<Rightarrow> string \<Rightarrow> string list" where
  "fnmatch_filter names pat = filter (glob_match (glob_parse pat)) names"

end
