(* ===== verification/Rad_Util.thy ===== *)
theory Rad_Util
  imports Complex_Main Py_Strings
begin

text \<open>
  The number, list and string helpers of
  \<^verbatim>\<open>src/source/ns-3-dev/bindings/python/rad_util.py\<close>, in the order of the file.
  The module is Python 2 code: integers are unbounded, \<^verbatim>\<open>/\<close> on integers is floor
  division (Isabelle's \<open>div\<close>), and \<^verbatim>\<open>%\<close> takes the sign of the divisor
  (Isabelle's \<open>mod\<close>).
\<close>

section \<open>Binary strings\<close>

definition hex2bin :: "(char, string) dict" where
  "hex2bin =
    [(CHR ''0'', ''0000''), (CHR ''1'', ''0001''), (CHR ''2'', ''0010''), (CHR ''3'', ''0011''),
     (CHR ''4'', ''0100''), (CHR ''5'', ''0101''), (CHR ''6'', ''0110''), (CHR ''7'', ''0111''),
     (CHR ''8'', ''1000''), (CHR ''9'', ''1001''), (CHR ''a'', ''1010''), (CHR ''b'', ''1011''),
     (CHR ''c'', ''1100''), (CHR ''d'', ''1101''), (CHR ''e'', ''1110''), (CHR ''f'', ''1111'')]"

definition int2bin :: "int \<Rightarrow> int \<Rightarrow> string res" where
  "int2bin i n =
     rbind (mapM (dict_lookup hex2bin) (py_slice (py_hex i) (Some 2) None)) (\<lambda>parts.
       let result = concat parts in
       if CHR ''1'' \<in> set (py_slice result None (Some (- n))) then Inl ValueError
       else let result = py_slice result (Some (- n)) None
            in Inr (py_repeat (n - int (length result)) (CHR ''0'') @ result))"

definition bin2int :: "string \<Rightarrow> int res" where
  "bin2int bin_string = py_int2 bin_string"

text \<open>\<^verbatim>\<open>reverse\<close> copies the string to a list, reverses it in place and joins it.\<close>

definition reverse_str :: "string \<Rightarrow> string" where
  "reverse_str input_string = (let str_list = rev input_string in join_with '''' (map (\<lambda>c. [c]) str_list))"

section \<open>Matrices and polygons\<close>

text \<open>\<^verbatim>\<open>zip(*matrix)\<close> stops at the shortest row; without rows it is empty.\<close>

function zip_rows :: "'a list list \<Rightarrow> 'a list list" where
  "zip_rows matrix =
     (if matrix = [] \<or> [] \<in> set matrix then []
      else map hd matrix # zip_rows (map tl matrix))"
  by pat_completeness auto
termination
proof (relation "measure (\<lambda>m. length (hd m))", goal_cases)
  case (2 matrix)
  then show ?case by (cases matrix) (auto simp: neq_Nil_conv)
qed simp

declare zip_rows.simps [simp del]

definition transpose_py :: "'a list list \<Rightarrow> 'a list list" where
  "transpose_py matrix = zip_rows matrix"

text \<open>
  \<^verbatim>\<open>polygon_area\<close> on integer coordinates.  It scales and closes the caller's
  list in place, so the model returns that list too; the area is the pair of the
  integer numerator and the divisor \<^verbatim>\<open>precision**2\<close> of the final float division.
\<close>

fun shoelace_loop :: "int \<Rightarrow> (int \<times> int) list \<Rightarrow> int" where
  "shoelace_loop area ((x_i, y_i) # (x_i_plus_1, y_i_plus_1) # pts) =
     shoelace_loop (area + x_i_plus_1 * y_i - y_i_plus_1 * x_i) ((x_i_plus_1, y_i_plus_1) # pts)"
| "shoelace_loop area pts = area"

definition polygon_area :: "(int \<times> int) list \<Rightarrow> int \<Rightarrow> ((int \<times> int) list \<times> int \<times> int) res" where
  "polygon_area points_list precision =
     (let scaled = map (\<lambda>(x, y). (x * precision, y * precision)) points_list in
      rbind (py_index scaled (- 1)) (\<lambda>final.
      rbind (py_index scaled 0) (\<lambda>first.
        let closed = (if final \<noteq> first then scaled @ [first] else scaled);
            area = \<bar>shoelace_loop 0 closed div 2\<bar>
        in if precision ^ 2 = 0 then Inl ZeroDivisionError
           else Inr (closed, area, precision ^ 2))))"

definition pt2str :: "int \<times> int \<Rightarrow> string" where
  "pt2str point = ''('' @ show_int (fst point) @ '', '' @ show_int (snd point) @ '')''"

section \<open>Factors and fractions\<close>

text \<open>
  On integers the loop condition \<^verbatim>\<open>remainder and abs(remainder) > epsilon\<close> with the
  default \<^verbatim>\<open>epsilon\<close> of \<^verbatim>\<open>1e-16\<close> is \<open>remainder \<noteq> 0\<close>.
\<close>

function gcf_loop :: "int \<Rightarrow> int \<Rightarrow> int" where
  "gcf_loop result remainder =
     (if remainder \<noteq> 0 then gcf_loop remainder (result mod remainder) else \<bar>result\<bar>)"
  by pat_completeness auto
termination
  by (relation "measure (\<lambda>(result, remainder). nat \<bar>remainder\<bar>)") (auto simp: abs_mod_less)

declare gcf_loop.simps [simp del]

definition gcf :: "int \<Rightarrow> int \<Rightarrow> int" where
  "gcf a b = gcf_loop (max a b) (min a b)"

definition lcm_py :: "int \<Rightarrow> int \<Rightarrow> int" where
  "lcm_py a b = (let denom = gcf a b in if denom = 0 then 0 else a * (b div denom))"

definition reduce_fraction :: "int \<times> int \<Rightarrow> (int \<times> int) res" where
  "reduce_fraction fraction =
     (let (numerator, denominator) = fraction;
          common_factor = \<bar>gcf numerator denominator\<bar>
      in if common_factor = 0 then Inl ZeroDivisionError
         else Inr (numerator div common_factor, denominator div common_factor))"

section \<open>Permutations\<close>

text \<open>\<^verbatim>\<open>l.insert(i, x)\<close> for an index within the list.\<close>

definition insert_at :: "nat \<Rightarrow> 'a \<Rightarrow> 'a list \<Rightarrow> 'a list" where
  "insert_at i x xs = take i xs @ x # drop i xs"

fun permutations :: "'a list \<Rightarrow> 'a list list" where
  "permutations (item # x # xs) =
     concat (map (\<lambda>sub_list. map (\<lambda>i. insert_at i item sub_list) [0..<length (item # x # xs)])
                 (permutations (x # xs)))"
| "permutations input_list = [input_list]"

section \<open>Duplicates and dictionaries\<close>

text \<open>
  \<^verbatim>\<open>uniquify\<close>: looking an item up in the dictionary raises \<^verbatim>\<open>TypeError\<close> when it
  is not hashable, and the handler then runs the quadratic loop.  \<open>ko\<close> is the
  order in which the interpreter enumerates \<^verbatim>\<open>d.keys()\<close>.
\<close>

fun uniq_ordered :: "('a \<Rightarrow> bool) \<Rightarrow> ('a, int) dict \<Rightarrow> 'a list \<Rightarrow> 'a list res" where
  "uniq_ordered hashable d [] = Inr []"
| "uniq_ordered hashable d (x # xs) =
     (if \<not> hashable x then Inl TypeError
      else if dict_get d x = None
      then rbind (uniq_ordered hashable (dict_set d x 0) xs) (\<lambda>ys. Inr (x # ys))
      else uniq_ordered hashable d xs)"

fun uniq_dict :: "('a \<Rightarrow> bool) \<Rightarrow> ('a, int) dict \<Rightarrow> 'a list \<Rightarrow> ('a, int) dict res" where
  "uniq_dict hashable d [] = Inr d"
| "uniq_dict hashable d (x # xs) =
     (if \<not> hashable x then Inl TypeError else uniq_dict hashable (dict_set d x 0) xs)"

fun uniq_slow :: "'a list \<Rightarrow> 'a list \<Rightarrow> 'a list" where
  "uniq_slow result [] = result"
| "uniq_slow result (x # xs) = uniq_slow (if x \<notin> set result then result @ [x] else result) xs"

definition uniquify :: "('a \<Rightarrow> bool) \<Rightarrow> ('a list \<Rightarrow> 'a list) \<Rightarrow> 'a list \<Rightarrow> bool \<Rightarrow> 'a list" where
  "uniquify hashable ko seq preserve_order =
     (case (if preserve_order then uniq_ordered hashable [] seq
            else rbind (uniq_dict hashable [] seq) (\<lambda>d. Inr (ko (dict_keys d)))) of
        Inr r \<Rightarrow> r
      | Inl _ \<Rightarrow> uniq_slow [] seq)"

definition reverse_dict :: "('k, 'v) dict \<Rightarrow> ('v, 'k) dict" where
  "reverse_dict d = foldl (\<lambda>result (key, val). dict_set result val key) [] d"

section \<open>Bits\<close>

unbundle bit_operations_syntax

text \<open>A negative \<open>n\<close> makes \<^verbatim>\<open>2 ** n\<close> a float, on which \<^verbatim>\<open>&\<close> is a \<^verbatim>\<open>TypeError\<close>.\<close>

definition lsb_py :: "int \<Rightarrow> int \<Rightarrow> int res" where
  "lsb_py x n = (if n < 0 then Inl TypeError else Inr (x AND (2 ^ nat n - 1)))"

definition gray_encode :: "int \<Rightarrow> int" where
  "gray_encode i = i XOR (drop_bit 1 i)"

text \<open>
  \<^verbatim>\<open>random_vec\<close>: the successive draws \<^verbatim>\<open>int((2**10) * random.random())\<close> are an
  argument.  Without a truthy \<^verbatim>\<open>max_value\<close> (the argument \<open>None\<close> or zero), or with
  one that is too large, the vector is the concatenation of the draws, cut to width.
\<close>

definition random_vec :: "(nat \<Rightarrow> int) \<Rightarrow> nat \<Rightarrow> int option \<Rightarrow> string res" where
  "random_vec draws bits max_value =
     rbind (mapM (\<lambda>k. int2bin (draws k) 10) [0..<bits div 10 + 1]) (\<lambda>parts.
       let vector = concat parts in
       rbind
         (case max_value of
            None \<Rightarrow> Inr vector
          | Some m \<Rightarrow>
              if m \<noteq> 0 \<and> m < 2 ^ bits - 1
              then rbind (py_int2 vector) (\<lambda>v.
                     if (2::int) ^ bits - 1 = 0 then Inl ZeroDivisionError
                     else int2bin ((v div (2 ^ bits - 1)) * m) (int bits))
              else Inr vector)
         (\<lambda>vector. Inr (py_slice vector (Some 0) (Some (int bits)))))"

text \<open>
  \<^verbatim>\<open>binary_range\<close>: the inner loop ripples a carry through \<open>v\<close>, least significant
  digit first; the carry out of position \<open>i\<close> is \<^verbatim>\<open>toggle[i+1]\<close>.
\<close>

fun toggle_loop :: "nat \<Rightarrow> nat \<Rightarrow> string \<Rightarrow> int list \<Rightarrow> string \<times> int list" where
  "toggle_loop 0 i v toggle = (v, toggle)"
| "toggle_loop (Suc k) i v toggle =
     (if toggle ! i = 1
      then if v ! i = CHR ''0''
           then toggle_loop k (i + 1) (v[i := CHR ''1'']) (toggle[i + 1 := 0])
           else toggle_loop k (i + 1) (v[i := CHR ''0'']) (toggle[i + 1 := 1])
      else (v, toggle))"

partial_function (option) binary_range_loop ::
  "nat \<Rightarrow> string \<Rightarrow> int list \<Rightarrow> string list \<Rightarrow> string list option" where
  "binary_range_loop bits v toggle l =
     (if toggle ! bits \<noteq> 1
      then let l = l @ [rev v];
               (v, toggle) = toggle_loop bits 0 v (1 # replicate bits 0)
           in binary_range_loop bits v toggle l
      else Some l)"

definition binary_range :: "nat \<Rightarrow> string list option" where
  "binary_range bits =
     binary_range_loop bits (replicate bits (CHR ''0'')) (1 # replicate bits 0) []"

section \<open>Order statistics\<close>

text \<open>
  \<^verbatim>\<open>quantile\<close> and \<^verbatim>\<open>trim\<close> on exact rationals (integers and fractions; the
  functions accept any numbers).  \<^verbatim>\<open>int(r)\<close> truncates towards zero.
\<close>

definition py_trunc :: "rat \<Rightarrow> int" where
  "py_trunc r = (if 0 \<le> r then \<lfloor>r\<rfloor> else \<lceil>r\<rceil>)"

definition quantile :: "rat list \<Rightarrow> rat \<Rightarrow> rat res" where
  "quantile l p =
     (let l_sort = sort l;
          n = int (length l);
          r = 1 + of_int (n - 1) * p;
          i = py_trunc r;
          f = r - of_int i
      in if i < n
         then rbind (py_index l_sort (i - 1)) (\<lambda>x.
              rbind (py_index l_sort i) (\<lambda>y. Inr ((1 - f) * x + f * y)))
         else py_index l_sort (i - 1))"

text \<open>The median that \<^verbatim>\<open>trim\<close> computes first is unused, but indexing an empty list raises.\<close>

definition trim_median :: "rat list \<Rightarrow> rat res" where
  "trim_median l_sort =
     (let index = int (length l_sort) div 2 in
      if length l_sort mod 2 = 0
      then rbind (py_index l_sort index) (\<lambda>x.
           rbind (py_index l_sort (index - 1)) (\<lambda>y. Inr ((x + y) / 2)))
      else py_index l_sort index)"

definition trim_py :: "rat list \<Rightarrow> rat list res" where
  "trim_py l =
     (let l_sort = sort l in
      rbind (trim_median l_sort) (\<lambda>median.
      rbind (quantile l_sort (1 / 4)) (\<lambda>q1.
      rbind (quantile l_sort (3 / 4)) (\<lambda>q3.
        let iqr = q3 - q1; iqr_extra = iqr * (3 / 2)
        in Inr (filter (\<lambda>x. q1 - iqr_extra \<le> x \<and> x \<le> q3 + iqr_extra) l_sort)))))"

section \<open>Ranges and grids\<close>

text \<open>
  \<^verbatim>\<open>float_range\<close>: the addition \<open>fadd\<close> of the number type is an argument, since
  float addition rounds.  The loop need not end (a step that does not move \<^verbatim>\<open>cur\<close>
  up), so the model is partial.
\<close>

partial_function (option) float_range_loop ::
  "('a::linorder \<Rightarrow> 'a \<Rightarrow> 'a) \<Rightarrow> 'a \<Rightarrow> 'a \<Rightarrow> 'a \<Rightarrow> 'a list \<Rightarrow> 'a list option" where
  "float_range_loop fadd cur stop step l =
     (if cur < stop then float_range_loop fadd (fadd cur step) stop step (l @ [cur]) else Some l)"

definition float_range ::
  "('a::{linorder, zero, one} \<Rightarrow> 'a \<Rightarrow> 'a) \<Rightarrow> 'a \<Rightarrow> 'a option \<Rightarrow> 'a option \<Rightarrow> 'a list option" where
  "float_range fadd start stop step =
     (let (start, stop) = (case stop of None \<Rightarrow> (0, start) | Some s \<Rightarrow> (start, s));
          step = (case step of None \<Rightarrow> 1 | Some s \<Rightarrow> s)
      in float_range_loop fadd start stop step [])"

text \<open>
  \<^verbatim>\<open>round_grid\<close> on integers.  No branch assigns \<^verbatim>\<open>add_one\<close> when the mode is up
  or down and the value is on the grid already, or for any other mode.
\<close>

definition round_grid :: "int \<Rightarrow> int \<Rightarrow> int \<Rightarrow> int res" where
  "round_grid val grid mode =
     (if grid = 0 then Inl ZeroDivisionError
      else let off_grid = val mod grid;
               add_one = (if mode = 0 then Inr (if 2 * off_grid \<ge> grid then 1 else 0)
                          else if mode = 1 \<and> off_grid \<noteq> 0 then Inr 1
                          else if mode = - 1 \<and> off_grid \<noteq> 0 then Inr 0
                          else Inl UnboundLocalError)
           in rbind add_one (\<lambda>a. Inr ((val div grid + a) * grid)))"

section \<open>Common affixes and rotations\<close>

text \<open>The two loops run over \<^verbatim>\<open>i\<close>; the first argument counts the iterations left.\<close>

fun prefix_loop :: "nat \<Rightarrow> nat \<Rightarrow> 'a list \<Rightarrow> 'a list \<Rightarrow> 'a list" where
  "prefix_loop 0 i s1 s2 = []"
| "prefix_loop (Suc k) i s1 s2 =
     (if s1 ! i \<noteq> s2 ! i then [] else s1 ! i # prefix_loop k (i + 1) s1 s2)"

fun suffix_loop :: "nat \<Rightarrow> nat \<Rightarrow> 'a list \<Rightarrow> 'a list \<Rightarrow> 'a list" where
  "suffix_loop 0 i s1 s2 = []"
| "suffix_loop (Suc k) i s1 s2 =
     (if s1 ! (length s1 - i) \<noteq> s2 ! (length s2 - i) then []
      else s1 ! (length s1 - i) # suffix_loop k (i + 1) s1 s2)"

definition find_common_fixes :: "string \<Rightarrow> string \<Rightarrow> string \<times> string" where
  "find_common_fixes s1 s2 =
     (let common_len = min (length s1) (length s2);
          pre = prefix_loop common_len 0 s1 s2;
          suf = suffix_loop common_len 1 s1 s2
      in (pre, rev suf))"

definition is_rotated :: "'a list \<Rightarrow> 'a list \<Rightarrow> bool res" where
  "is_rotated seq1 seq2 =
     (if length seq1 \<noteq> length seq2 then Inr False
      else rbind (py_index seq2 0) (\<lambda>head_item.
        let start_indexes = filter (\<lambda>index1. seq1 ! index1 = head_item) [0..<length seq1];
            double_seq1 = seq1 @ seq1
        in Inr (list_ex (\<lambda>index1.
             py_slice double_seq1 (Some (int index1)) (Some (int (index1 + length seq1))) = seq2)
             start_indexes)))"

section \<open>Command-line arguments\<close>

datatype arg_value = ArgNone | ArgStr string | ArgList "string list"

definition get_args_step ::
  "(string, arg_value) dict \<times> string list \<Rightarrow> string \<Rightarrow> (string, arg_value) dict \<times> string list" where
  "get_args_step st arg =
     (let (d, args) = st in
      if starts_with arg ''-''
      then let parts = split_on (CHR ''='') (dropWhile (\<lambda>c. c = CHR ''-'') arg)
           in (dict_set d (hd parts) (if length parts = 2 then ArgStr (parts ! 1) else ArgNone), args)
      else (d, args @ [arg]))"

definition get_args :: "string list \<Rightarrow> (string, arg_value) dict" where
  "get_args argv =
     (let (d, args) = foldl get_args_step ([], []) argv
      in dict_set d ''args'' (ArgList args))"

end
