(* ===== verification/Topsort.thy ===== *)
theory Topsort
  imports Rad_Util
begin

text \<open>
  \<^verbatim>\<open>src/source/ns-3-dev/bindings/python/topsort.py\<close>: dependency sorting of a list of
  (parent, child) pairs, its variant by levels, and the search for cycles, which
  uses \<^verbatim>\<open>is_rotated\<close> of \<^verbatim>\<open>rad_util.py\<close>.  The module is Python 2 code: the order in
  which the keys of a dictionary are enumerated is up to the interpreter and is the
  argument \<open>ko\<close>.
\<close>

type_synonym 'a counts = "('a, int) dict"
type_synonym 'a kids = "('a, 'a list) dict"

text \<open>
  \<^verbatim>\<open>CycleError\<close> carries the partial answer in \<^verbatim>\<open>topsort\<close> and only the two tables in
  \<^verbatim>\<open>topsort_levels_core\<close>; \<open>Raised\<close> is any other exception.
\<close>

datatype 'a ts_error =
    CycleError "'a list" "'a counts" "'a kids"
  | LevelsCycleError "'a counts" "'a kids"
  | Raised py_error

section \<open>The tables\<close>

definition count_pair :: "'a counts \<times> 'a kids \<Rightarrow> 'a \<times> 'a \<Rightarrow> ('a counts \<times> 'a kids) res" where
  "count_pair tables pair =
     (let (num_parents, children) = tables;
          (parent, child) = pair;
          num_parents = (if dict_get num_parents parent = None then dict_set num_parents parent 0 else num_parents);
          num_parents = (if dict_get num_parents child = None then dict_set num_parents child 0 else num_parents)
      in rbind (dict_lookup num_parents child) (\<lambda>n.
           let num_parents = dict_set num_parents child (n + 1);
               siblings = (case dict_get children parent of None \<Rightarrow> [] | Some cs \<Rightarrow> cs)
           in Inr (num_parents, dict_set children parent (siblings @ [child]))))"

definition count_pairs :: "('a \<times> 'a) list \<Rightarrow> ('a counts \<times> 'a kids) res" where
  "count_pairs pairlist = foldM count_pair ([], []) pairlist"

text \<open>The comprehension \<^verbatim>\<open>[x for x in num_parents.keys() if num_parents[x] == 0]\<close>.\<close>

definition parentless :: "('a list \<Rightarrow> 'a list) \<Rightarrow> 'a counts \<Rightarrow> 'a list" where
  "parentless ko num_parents = filter (\<lambda>x. dict_get num_parents x = Some 0) (ko (dict_keys num_parents))"

section \<open>\<^verbatim>\<open>topsort\<close>\<close>

text \<open>The loop over the children of one parent; \<open>grown\<close> is what it appends to \<^verbatim>\<open>answer\<close>.\<close>

fun knock_down :: "'a list \<Rightarrow> 'a counts \<Rightarrow> 'a list \<Rightarrow> ('a counts \<times> 'a list) res" where
  "knock_down [] num_parents grown = Inr (num_parents, grown)"
| "knock_down (child # cs) num_parents grown =
     rbind (dict_lookup num_parents child) (\<lambda>n.
       let num_parents = dict_set num_parents child (n - 1)
       in knock_down cs num_parents (if n - 1 = 0 then grown @ [child] else grown))"

lemma knock_down_length:
  "knock_down cs num_parents grown = Inr (num_parents', grown') \<Longrightarrow> length num_parents' = length num_parents"
  by (induction cs num_parents grown arbitrary: num_parents' grown' rule: knock_down.induct)
     (auto simp: res_simps Let_def length_dict_set domI)

text \<open>
  \<^verbatim>\<open>for parent in answer\<close>, where \<^verbatim>\<open>answer\<close> grows in the loop: it is \<open>ready\<close>, the items
  visited so far, followed by \<open>pending\<close>.
\<close>

function topsort_loop :: "'a list \<Rightarrow> 'a list \<Rightarrow> 'a counts \<Rightarrow> 'a kids \<Rightarrow> 'a ts_error + 'a list" where
  "topsort_loop ready [] num_parents children =
     (if num_parents \<noteq> [] then Inl (CycleError ready num_parents children) else Inr ready)"
| "topsort_loop ready (parent # pending) num_parents children =
     (case dict_del num_parents parent of
        Inl e \<Rightarrow> Inl (Raised e)
      | Inr num_parents \<Rightarrow>
         (case dict_get children parent of
            None \<Rightarrow> topsort_loop (ready @ [parent]) pending num_parents children
          | Some cs \<Rightarrow>
             (case knock_down cs num_parents [] of
                Inl e \<Rightarrow> Inl (Raised e)
              | Inr (num_parents, grown) \<Rightarrow>
                  topsort_loop (ready @ [parent]) (pending @ grown) num_parents (dict_remove children parent))))"
  by pat_completeness auto
termination
  by (relation "measure (\<lambda>(_, _, np, _). length np)")
     (auto simp: length_dict_remove_less domI dest!: knock_down_length)

definition topsort :: "('a list \<Rightarrow> 'a list) \<Rightarrow> ('a \<times> 'a) list \<Rightarrow> 'a ts_error + 'a list" where
  "topsort ko pairlist =
     (case count_pairs pairlist of
        Inl e \<Rightarrow> Inl (Raised e)
      | Inr (num_parents, children) \<Rightarrow>
          topsort_loop [] (parentless ko num_parents) num_parents children)"

section \<open>\<^verbatim>\<open>topsort_levels\<close>\<close>

definition decrement :: "'a counts \<Rightarrow> 'a \<Rightarrow> 'a counts res" where
  "decrement num_parents child =
     rbind (dict_lookup num_parents child) (\<lambda>n. Inr (dict_set num_parents child (n - 1)))"

definition level_parent_step :: "'a counts \<times> 'a kids \<Rightarrow> 'a \<Rightarrow> ('a counts \<times> 'a kids) res" where
  "level_parent_step tables level_parent =
     (let (num_parents, children) = tables in
      rbind (dict_del num_parents level_parent) (\<lambda>num_parents.
        case dict_get children level_parent of
          None \<Rightarrow> Inr (num_parents, children)
        | Some cs \<Rightarrow>
            rbind (foldM decrement num_parents cs) (\<lambda>num_parents.
              Inr (num_parents, dict_remove children level_parent))))"

lemma foldM_decrement_length: "foldM decrement np cs = Inr np' \<Longrightarrow> length np' = length np"
  by (induction cs arbitrary: np) (auto simp: res_simps decrement_def length_dict_set domI)

lemma level_parent_step_length:
  "level_parent_step (np, ch) x = Inr (np', ch') \<Longrightarrow> length np' < length np"
  by (auto simp: level_parent_step_def res_simps length_dict_remove_less domI
      dest!: foldM_decrement_length split: option.splits)

lemma foldM_level_length:
  "foldM level_parent_step (np, ch) xs = Inr (np', ch') \<Longrightarrow> length np' + length xs \<le> length np"
proof (induction xs arbitrary: np ch)
  case Nil
  then show ?case by simp
next
  case (Cons x xs)
  then obtain np1 ch1 where "level_parent_step (np, ch) x = Inr (np1, ch1)"
      "foldM level_parent_step (np1, ch1) xs = Inr (np', ch')"
    by (auto simp: res_simps)
  with Cons.IH show ?case by (fastforce dest: level_parent_step_length)
qed

text \<open>
  The generator: the levels it yields, and how it ends, normally (\<open>None\<close>, the
  \<^verbatim>\<open>StopIteration\<close>) or with an exception.
\<close>

function topsort_levels_core ::
  "('a list \<Rightarrow> 'a list) \<Rightarrow> 'a counts \<Rightarrow> 'a kids \<Rightarrow> 'a list list \<times> 'a ts_error option" where
  "topsort_levels_core ko num_parents children =
     (let level_parents = parentless ko num_parents in
      if level_parents = []
      then ([], if num_parents \<noteq> [] then Some (LevelsCycleError num_parents children) else None)
      else case foldM level_parent_step (num_parents, children) level_parents of
             Inl e \<Rightarrow> ([level_parents], Some (Raised e))
           | Inr (num_parents, children) \<Rightarrow>
               (case topsort_levels_core ko num_parents children of
                  (levels, outcome) \<Rightarrow> (level_parents # levels, outcome)))"
  by pat_completeness auto
termination
proof (relation "measure (\<lambda>(_, np, _). length np)", goal_cases)
  case (2 ko np ch lp x np' ch')
  then have "length np' + length lp \<le> length np" by (auto dest!: foldM_level_length)
  moreover have "0 < length lp" using 2 by auto
  ultimately have "length np' < length np" by linarith
  with 2 show ?case by auto
qed simp

declare topsort_levels_core.simps [simp del]

definition topsort_levels ::
  "('a list \<Rightarrow> 'a list) \<Rightarrow> ('a \<times> 'a) list \<Rightarrow> 'a list list \<times> 'a ts_error option" where
  "topsort_levels ko pairlist =
     (case count_pairs pairlist of
        Inl e \<Rightarrow> ([], Some (Raised e))
      | Inr (num_parents, children) \<Rightarrow> topsort_levels_core ko num_parents children)"

section \<open>\<^verbatim>\<open>find_cycles\<close>\<close>

text \<open>The loop over the cycles found so far that sets \<^verbatim>\<open>is_dup\<close> and breaks.\<close>

fun is_dup :: "'a list list \<Rightarrow> 'a list \<Rightarrow> bool res" where
  "is_dup [] cycle = Inr False"
| "is_dup (other_cycle # cycles) cycle =
     rbind (is_rotated other_cycle cycle) (\<lambda>b. if b then Inr True else is_dup cycles cycle)"

text \<open>
  State of the search: the cycles yielded so far, the nodes visited, and the stack of
  paths with its top (the end of the Python list) first.
\<close>

type_synonym 'a search = "'a list list \<times> 'a set \<times> 'a list list"

definition child_step :: "'a list \<Rightarrow> 'a search \<Rightarrow> 'a \<Rightarrow> 'a search res" where
  "child_step path st child =
     (let (cycles, visited_nodes, paths) = st in
      if child \<in> set path
      then let cycle = dropWhile (\<lambda>x. x \<noteq> child) path
           in rbind (is_dup cycles cycle) (\<lambda>dup.
                Inr (if dup then cycles else cycles @ [cycle], visited_nodes, paths))
      else Inr (cycles, insert child visited_nodes, (path @ [child]) # paths))"

partial_function (option) search_paths :: "'a kids \<Rightarrow> 'a search \<Rightarrow> 'a search res option" where
  "search_paths parent_children st =
     (case st of (cycles, visited_nodes, paths) \<Rightarrow>
       (case paths of
          [] \<Rightarrow> Some (Inr st)
        | path # paths \<Rightarrow>
           (case dict_get parent_children (last path) of
              None \<Rightarrow> search_paths parent_children (cycles, visited_nodes, paths)
            | Some children \<Rightarrow>
               (case foldM (child_step path) (cycles, visited_nodes, paths) children of
                  Inl e \<Rightarrow> Some (Inl e)
                | Inr st \<Rightarrow> search_paths parent_children st))))"

fun search_roots :: "'a kids \<Rightarrow> 'a list list \<times> 'a set \<Rightarrow> 'a list \<Rightarrow> ('a list list \<times> 'a set) res option" where
  "search_roots parent_children (cycles, visited_nodes) [] = Some (Inr (cycles, visited_nodes))"
| "search_roots parent_children (cycles, visited_nodes) (parent # parents) =
     (if parent \<in> visited_nodes then search_roots parent_children (cycles, visited_nodes) parents
      else case search_paths parent_children (cycles, visited_nodes, [[parent]]) of
             None \<Rightarrow> None
           | Some (Inl e) \<Rightarrow> Some (Inl e)
           | Some (Inr (cycles, visited_nodes, paths)) \<Rightarrow>
               search_roots parent_children (cycles, visited_nodes) parents)"

text \<open>The cycles in the order the generator yields them; \<open>None\<close> if it never ends.\<close>

definition find_cycles :: "'a kids \<Rightarrow> 'a list list res option" where
  "find_cycles parent_children =
     map_option (map_sum id fst) (search_roots parent_children ([], {}) (dict_keys parent_children))"

end
