(* ===== verification/Rad_Util_Correct.thy ===== *)
theory Rad_Util_Correct
  imports Rad_Util "HOL-Library.Sublist"
begin

text \<open>
  Correctness of the helpers of \<^verbatim>\<open>rad_util.py\<close>: the binary conversions are inverse
  to each other, the Euclidean loop computes the greatest common divisor, the
  enumerations are complete, the duplicate removals agree, the searches decide the
  predicate they are named after, and each error branch is reached exactly when
  stated.
\<close>

section \<open>Binary strings\<close>

definition nibble :: "nat \<Rightarrow> nat list" where
  "nibble d = [d div 8 mod 2, d div 4 mod 2, d div 2 mod 2, d mod 2]"

lemma nibble_bits: "b \<in> set (nibble d) \<Longrightarrow> b < 2"
  by (auto simp: nibble_def)

lemma of_digits_nibble: "d < 16 \<Longrightarrow> of_digits 2 (nibble d) = d"
proof -
  assume "d < 16"
  moreover have "\<forall>d \<in> set [0..<16]. of_digits 2 (nibble d) = d"
    by code_simp
  ultimately show ?thesis by simp
qed

lemma hex2bin_digit:
  assumes "d < 16"
  shows "dict_lookup hex2bin (digit_char d) = Inr (map digit_char (nibble d))"
proof -
  have "\<forall>d \<in> set [0..<16]. dict_lookup hex2bin (digit_char d) = Inr (map digit_char (nibble d))"
    by code_simp
  with assms show ?thesis by simp
qed

lemma of_digits_nibbles:
  "\<forall>d \<in> set ds. d < 16 \<Longrightarrow> of_digits 2 (concat (map nibble ds)) = of_digits 16 ds"
proof (induction ds rule: rev_induct)
  case Nil
  then show ?case by simp
next
  case (snoc d ds)
  then show ?case
    by (simp add: of_digits_append of_digits_nibble) (simp add: nibble_def)
qed

lemma of_digits_zero_iff: "of_digits 2 bs = 0 \<longleftrightarrow> (\<forall>b \<in> set bs. b = 0)"
  by (induction bs rule: rev_induct) auto

text \<open>The digits a non-negative integer expands to, before truncation and padding.\<close>

definition hex_bits :: "int \<Rightarrow> nat list" where
  "hex_bits i = concat (map nibble (digits_of 16 (nat i)))"

lemma hex_bits_less: "b \<in> set (hex_bits i) \<Longrightarrow> b < 2"
  by (auto simp: hex_bits_def dest: nibble_bits)

lemma of_digits_hex_bits: "of_digits 2 (hex_bits i) = nat i"
  by (simp add: hex_bits_def of_digits_nibbles digits_of_less)

lemma hex_expansion:
  assumes "0 \<le> i"
  shows "mapM (dict_lookup hex2bin) (py_slice (py_hex i) (Some 2) None)
         = Inr (map (\<lambda>d. map digit_char (nibble d)) (digits_of 16 (nat i)))"
proof -
  have *: "mapM (dict_lookup hex2bin) (map digit_char ds) = Inr (map (\<lambda>d. map digit_char (nibble d)) ds)"
    if "\<forall>d \<in> set ds. d < 16" for ds
    using that by (induction ds) (auto simp: hex2bin_digit)
  show ?thesis
    using assms * [of "digits_of 16 (nat i)"]
    by (simp add: py_hex_def py_list_simps digits_of_less)
qed

lemma int2bin_nonneg:
  assumes "0 \<le> i" and "0 < n"
  shows "int2bin i n =
    (let bs = hex_bits i; k = length bs - nat n in
     if 1 \<in> set (take k bs) then Inl ValueError
     else Inr (map digit_char (replicate (nat n - length (drop k bs)) 0 @ drop k bs)))"
proof -
  have one: "CHR ''1'' = digit_char 1" and zero: "CHR ''0'' = digit_char 0"
    by code_simp+
  have "digit_char 1 \<in> digit_char ` set bs \<longleftrightarrow> 1 \<in> set bs" if "\<forall>b \<in> set bs. b < 2" for bs
    using that digit_char_inj [of 1] by fastforce
  moreover have "\<forall>b \<in> set (take k (hex_bits i)). b < 2" for k
    by (auto dest: in_set_takeD hex_bits_less)
  ultimately have mem: "digit_char 1 \<in> digit_char ` set (take k (hex_bits i)) \<longleftrightarrow> 1 \<in> set (take k (hex_bits i))" for k
    by blast
  have cat: "concat (map (\<lambda>d. map digit_char (nibble d)) (digits_of 16 (nat i))) = map digit_char (hex_bits i)"
    by (simp add: hex_bits_def map_concat comp_def)
  show ?thesis
    unfolding int2bin_def hex_expansion [OF assms(1)] rbind_simps cat
    using assms(2) mem by (simp add: py_list_simps one zero take_map drop_map Let_def nat_diff_distrib')
qed

lemma int2bin_in_range:
  assumes "0 < n" and "0 \<le> i" and "i < 2 ^ nat n"
  shows "\<exists>bs. int2bin i n = Inr (map digit_char bs) \<and> length bs = nat n \<and>
              (\<forall>b \<in> set bs. b < 2) \<and> of_digits 2 bs = nat i"
proof -
  let ?bs = "hex_bits i"
  let ?k = "length ?bs - nat n"
  let ?lo = "drop ?k ?bs"
  let ?r = "replicate (nat n - length ?lo) 0 @ ?lo"
  have sum: "nat i = of_digits 2 (take ?k ?bs) * 2 ^ length ?lo + of_digits 2 ?lo"
    using of_digits_append [of 2 "take ?k ?bs" ?lo] by (simp add: of_digits_hex_bits)
  have lt: "nat i < 2 ^ nat n"
    using assms by (simp add: nat_less_iff)
  have zero: "of_digits 2 (take ?k ?bs) = 0"
  proof (cases "nat n \<le> length ?bs")
    case True
    then have "length ?lo = nat n" by simp
    with sum lt show ?thesis
      by (metis add_lessD1 less_one mult_less_cancel2 nat_mult_1 zero_less_power zero_less_numeral)
  next
    case False
    then show ?thesis by simp
  qed
  then have "1 \<notin> set (take ?k ?bs)"
    by (auto simp: of_digits_zero_iff)
  then have "int2bin i n = Inr (map digit_char ?r)"
    using int2bin_nonneg [OF assms(2,1)] by (simp add: Let_def)
  moreover have "of_digits 2 ?r = nat i"
    using sum zero by (simp add: of_digits_append)
  moreover have "\<forall>b \<in> set ?r. b < 2"
    by (auto dest: in_set_dropD hex_bits_less)
  moreover have "length ?r = nat n" by simp
  ultimately show ?thesis by blast
qed

lemma int2bin_too_large:
  assumes "0 < n" and "2 ^ nat n \<le> i"
  shows "int2bin i n = Inl ValueError"
proof -
  let ?bs = "hex_bits i"
  let ?k = "length ?bs - nat n"
  let ?lo = "drop ?k ?bs"
  have i: "0 \<le> i"
    using assms(2) by (rule order_trans [rotated]) simp
  have sum: "nat i = of_digits 2 (take ?k ?bs) * 2 ^ length ?lo + of_digits 2 ?lo"
    using of_digits_append [of 2 "take ?k ?bs" ?lo] by (simp add: of_digits_hex_bits)
  have "of_digits 2 ?lo < 2 ^ length ?lo"
    by (rule of_digits_less) (auto dest: in_set_dropD hex_bits_less)
  also have "\<dots> \<le> 2 ^ nat n"
    by (rule power_increasing) auto
  also have "\<dots> \<le> nat i"
    using assms(2) by (simp add: nat_le_eq_zle le_nat_iff i)
  finally have "of_digits 2 (take ?k ?bs) \<noteq> 0"
    using sum by (metis add_0 mult_0 less_irrefl)
  then obtain b where "b \<in> set (take ?k ?bs)" "b \<noteq> 0"
    by (auto simp: of_digits_zero_iff)
  moreover from this have "b < 2"
    by (auto dest: in_set_takeD hex_bits_less)
  ultimately have "1 \<in> set (take ?k ?bs)"
    by (metis One_nat_def less_2_cases)
  then show ?thesis
    using int2bin_nonneg [OF i assms(1)] by (simp add: Let_def)
qed

lemma int2bin_negative: "i < 0 \<Longrightarrow> int2bin i n = Inl KeyError"
proof -
  assume i: "i < 0"
  have "map_of hex2bin (CHR ''x'') = None" by code_simp
  with i show ?thesis
    by (simp add: int2bin_def py_hex_def py_list_simps dict_lookup_def)
qed

lemma digit_char_bits: "b < 2 \<Longrightarrow> digit_char b = CHR ''0'' \<longleftrightarrow> b = 0"
proof -
  have "digit_char 0 = CHR ''0''" by code_simp
  then show "b < 2 \<Longrightarrow> digit_char b = CHR ''0'' \<longleftrightarrow> b = 0"
    using digit_char_inj [of b 0] by simp
qed

lemma digit_char_01: "digit_char 0 = CHR ''0''" "digit_char 1 = CHR ''1''" "digit_char (Suc 0) = CHR ''1''"
  by code_simp+

lemma py_int2_bits:
  assumes "bs \<noteq> []" and "\<forall>b \<in> set bs. b < 2"
  shows "py_int2 (map digit_char bs) = Inr (int (of_digits 2 bs))"
proof -
  let ?s = "map digit_char bs"
  have ch: "c = CHR ''0'' \<or> c = CHR ''1''" if "c \<in> set ?s" for c
    using that assms(2) digit_char_01 by (auto simp: less_2_cases_iff)
  have sp: "\<not> is_space (CHR ''0'')" "\<not> is_space (CHR ''1'')" by code_simp+
  have dw: "dropWhile is_space t = t" if "set t \<subseteq> set ?s" for t
    using that ch sp by (cases t) fastforce+
  have strip: "py_strip ?s = ?s"
    by (simp only: py_strip_def dw set_rev order_refl) (simp only: dw set_rev order_refl rev_rev_ident)
  have t1: "take 1 ?s \<noteq> ''-'' \<and> take 1 ?s \<noteq> ''+''"
    using ch assms(1) by (cases bs) fastforce+
  have t2: "take 2 ?s \<noteq> ''0b'' \<and> take 2 ?s \<noteq> ''0B''"
  proof -
    have "CHR ''b'' \<notin> set (take 2 ?s) \<and> CHR ''B'' \<notin> set (take 2 ?s)"
      using ch by (auto dest!: in_set_takeD simp del: set_map)
    then show ?thesis by (metis list.set_intros(1) list.set_intros(2))
  qed
  show ?thesis
    using assms t1 t2 by (simp add: py_int2_def strip parse_nat_digits Let_def)
qed

text \<open>
  For a positive width \<open>n\<close> and a number below \<open>2 ^ n\<close>, \<^verbatim>\<open>int2bin\<close> returns a
  string of exactly \<open>n\<close> binary digits, and \<^verbatim>\<open>bin2int\<close> reads the number back.
\<close>

theorem int2bin_roundtrip:
  assumes "0 < n" and "0 \<le> i" and "i < 2 ^ nat n"
  shows "\<exists>s. int2bin i n = Inr s \<and> int (length s) = n \<and> set s \<subseteq> {CHR ''0'', CHR ''1''} \<and> bin2int s = Inr i"
proof -
  obtain bs where bs: "int2bin i n = Inr (map digit_char bs)" "length bs = nat n"
      "\<forall>b \<in> set bs. b < 2" "of_digits 2 bs = nat i"
    using int2bin_in_range [OF assms] by blast
  moreover have "bs \<noteq> []" using bs(2) assms(1) by auto
  moreover have "set (map digit_char bs) \<subseteq> {CHR ''0'', CHR ''1''}"
    using bs(3) digit_char_01 by (auto simp: less_2_cases_iff)
  ultimately show ?thesis
    using assms by (auto simp: bin2int_def py_int2_bits)
qed

theorem int2bin_roundtrip_witness:
  "\<exists>s. int2bin 123 8 = Inr s \<and> int (length s) = 8 \<and> set s \<subseteq> {CHR ''0'', CHR ''1''} \<and> bin2int s = Inr 123"
  using int2bin_roundtrip [of 8 123] by simp

text \<open>
  With a positive width, \<^verbatim>\<open>int2bin\<close> fails exactly on the numbers that do not
  fit: \<^verbatim>\<open>ValueError\<close> from \<open>2 ^ n\<close> on, and \<^verbatim>\<open>KeyError\<close> (the \<^verbatim>\<open>x\<close> of
  \<^verbatim>\<open>-0x\<close>) on the negative ones.
\<close>

theorem int2bin_errors:
  assumes "0 < n"
  shows "int2bin i n = Inl e \<longleftrightarrow> (i < 0 \<and> e = KeyError) \<or> (2 ^ nat n \<le> i \<and> e = ValueError)"
proof -
  have pos: "(0::int) \<le> 2 ^ nat n" by simp
  consider "i < 0" | "0 \<le> i" "i < 2 ^ nat n" | "2 ^ nat n \<le> i" by linarith
  then show ?thesis
  proof cases
    case 1
    with pos have "\<not> 2 ^ nat n \<le> i" by linarith
    with 1 show ?thesis by (auto simp: int2bin_negative)
  next
    case 2
    then show ?thesis using int2bin_in_range [OF assms] by fastforce
  next
    case 3
    moreover from 3 have "\<not> i < 0"
      using pos by linarith
    ultimately show ?thesis using int2bin_too_large [OF assms 3] by auto
  qed
qed

theorem int2bin_errors_witness: "int2bin 15 2 = Inl ValueError"
  using int2bin_errors [of 2 15 ValueError] by simp

text \<open>
  A width of zero is not an empty string: \<^verbatim>\<open>result[-0:]\<close> is the whole string, so
  nothing is truncated and nothing is checked.
\<close>

lemma int2bin_zero_width: "int2bin 5 0 = Inr ''0101''"
  by code_simp

section \<open>Enumeration of the binary strings\<close>

fun incr :: "nat list \<Rightarrow> nat list" where
  "incr [] = []"
| "incr (b # bs) = (if b = 0 then 1 # bs else 0 # incr bs)"

fun bits_of :: "nat \<Rightarrow> nat \<Rightarrow> nat list" where
  "bits_of 0 m = []"
| "bits_of (Suc n) m = bits_of n (m div 2) @ [m mod 2]"

lemma bits_unique: "\<forall>b \<in> set bs. b < 2 \<Longrightarrow> bits_of (length bs) (of_digits 2 bs) = bs"
  by (induction bs rule: rev_induct) auto

lemma incr_bits: "\<forall>b \<in> set bs. b < 2 \<Longrightarrow> \<forall>b \<in> set (incr bs). b < 2"
  by (induction bs) auto

lemma length_incr [simp]: "length (incr bs) = length bs"
  by (induction bs) auto

lemma of_digits_rev_Cons: "of_digits 2 (rev (b # bs)) = 2 * of_digits 2 (rev bs) + b"
  by simp

lemma incr_value:
  "\<forall>b \<in> set bs. b < 2 \<Longrightarrow> \<not> (\<forall>b \<in> set bs. b = 1) \<Longrightarrow>
   of_digits 2 (rev (incr bs)) = Suc (of_digits 2 (rev bs))"
proof (induction bs)
  case Nil
  then show ?case by simp
next
  case (Cons b bs)
  show ?case
  proof (cases "b = 0")
    case False
    then have "b = 1" using Cons.prems(1) by (auto simp: less_2_cases_iff)
    with Cons have "of_digits 2 (rev (incr bs)) = Suc (of_digits 2 (rev bs))" by auto
    with \<open>b = 1\<close> show ?thesis by simp
  qed simp
qed

lemma all_ones_iff:
  "\<forall>b \<in> set bs. b < 2 \<Longrightarrow> (\<forall>b \<in> set bs. b = 1) \<longleftrightarrow> Suc (of_digits 2 (rev bs)) = 2 ^ length bs"
proof (induction bs)
  case Nil
  then show ?case by simp
next
  case (Cons b bs)
  then have "b = 0 \<or> b = 1" by (auto simp: less_2_cases_iff)
  then show ?case
  proof
    assume "b = 0"
    then show ?thesis
      by (simp del: of_digits_snoc add: of_digits_rev_Cons [simplified]) presburger
  next
    assume "b = 1"
    with Cons show ?thesis by auto
  qed
qed

lemma toggle_loop_incr:
  assumes "length t = Suc (i + length bs)" and "t ! i = 1"
    and "\<forall>j. i < j \<and> j < length t \<longrightarrow> t ! j = 0"
    and "length xs = i" and "\<forall>b \<in> set bs. b < 2"
  shows "\<exists>t'. toggle_loop (length bs) i (map digit_char (xs @ bs)) t = (map digit_char (xs @ incr bs), t')
              \<and> length t' = length t
              \<and> t' ! (i + length bs) = (if \<forall>b \<in> set bs. b = 1 then 1 else 0)"
  using assms
proof (induction bs arbitrary: i t xs)
  case Nil
  then show ?case by simp
next
  case (Cons b bs)
  have v: "map digit_char (xs @ b # bs) ! i = digit_char b"
    using Cons.prems(4) by (simp add: nth_append)
  have upd: "(map digit_char (xs @ b # bs))[i := digit_char c] = map digit_char (xs @ c # bs)" for c
    using Cons.prems(4) by (simp add: list_update_append)
  show ?case
  proof (cases "b = 0")
    case True
    let ?t = "t[i + 1 := 0]"
    have stop: "toggle_loop (length bs) (i + 1) w ?t = (w, ?t)" for w
      using Cons.prems(1) by (cases "length bs") auto
    have "?t ! (i + length (b # bs)) = 0"
      using Cons.prems(1,3) by (auto simp: nth_list_update)
    then show ?thesis
      using True Cons.prems(2) v upd [of 1] stop digit_char_01
      by (intro exI [of _ ?t]) (auto simp: digit_char_01)
  next
    case False
    then have b: "b = 1" using Cons.prems(5) by (auto simp: less_2_cases_iff)
    let ?t = "t[i + 1 := 1]"
    have "\<exists>t'. toggle_loop (length bs) (i + 1) (map digit_char ((xs @ [0]) @ bs)) ?t
            = (map digit_char ((xs @ [0]) @ incr bs), t') \<and> length t' = length ?t
            \<and> t' ! (i + 1 + length bs) = (if \<forall>b \<in> set bs. b = 1 then 1 else 0)"
      by (rule Cons.IH) (use Cons.prems in \<open>auto simp: nth_list_update\<close>)
    then show ?thesis
      using b Cons.prems(2) v upd [of 0] by (auto simp: digit_char_01)
  qed
qed

lemma binary_range_loop_from:
  assumes "length bs = n" and "\<forall>b \<in> set bs. b < 2" and "toggle ! n \<noteq> 1"
  shows "binary_range_loop n (map digit_char bs) toggle l =
         Some (l @ map (\<lambda>m. map digit_char (bits_of n m)) [of_digits 2 (rev bs)..<2 ^ n])"
  using assms
proof (induction "2 ^ n - of_digits 2 (rev bs)" arbitrary: bs toggle l rule: less_induct)
  case less
  let ?m = "of_digits 2 (rev bs)"
  obtain t' where t': "toggle_loop n 0 (map digit_char bs) (1 # replicate n 0) = (map digit_char (incr bs), t')"
      "t' ! n = (if \<forall>b \<in> set bs. b = 1 then 1 else 0)"
  proof -
    have "\<forall>j. 0 < j \<and> j < length ((1::int) # replicate n 0) \<longrightarrow> (1 # replicate n 0) ! j = (0::int)"
      by (auto simp: nth_Cons')
    from toggle_loop_incr [OF _ _ this, of bs "[]"] less.prems that show ?thesis by auto
  qed
  have lt: "?m < 2 ^ n"
    using of_digits_less [of "rev bs" 2] less.prems by simp
  have str: "rev (map digit_char bs) = map digit_char (bits_of n ?m)"
    using bits_unique [of "rev bs"] less.prems by (simp add: rev_map)
  have step: "binary_range_loop n (map digit_char bs) toggle l =
      binary_range_loop n (map digit_char (incr bs)) t' (l @ [map digit_char (bits_of n ?m)])"
    using less.prems(3) by (subst binary_range_loop.simps) (simp add: t'(1) str)
  show ?case
  proof (cases "\<forall>b \<in> set bs. b = 1")
    case True
    then have "Suc ?m = 2 ^ n" using all_ones_iff less.prems by blast
    then have "[?m..<2 ^ n] = [?m]"
      by (metis append_Nil less_irrefl upt_Suc upt_conv_Nil order_refl)
    with True t'(2) show ?thesis
      unfolding step by (subst binary_range_loop.simps) simp
  next
    case False
    have v: "of_digits 2 (rev (incr bs)) = Suc ?m"
      by (rule incr_value) (use less.prems False in auto)
    have "[?m..<2 ^ n] = ?m # [Suc ?m..<2 ^ n]"
      using lt by (simp add: upt_conv_Cons)
    moreover have "binary_range_loop n (map digit_char (incr bs)) t' (l @ [map digit_char (bits_of n ?m)]) =
        Some ((l @ [map digit_char (bits_of n ?m)]) @ map (\<lambda>m. map digit_char (bits_of n m)) [of_digits 2 (rev (incr bs))..<2 ^ n])"
    proof (rule less.hyps)
      show "2 ^ n - of_digits 2 (rev (incr bs)) < 2 ^ n - of_digits 2 (rev bs)"
        using v lt by simp
    qed (use less.prems incr_bits t'(2) False in auto)
    ultimately show ?thesis
      unfolding step v by simp
  qed
qed

lemma int2bin_bits_of:
  assumes "0 < n" and "m < 2 ^ n"
  shows "int2bin (int m) (int n) = Inr (map digit_char (bits_of n m))"
proof -
  have "int m < 2 ^ n" using assms(2) by (metis of_nat_less_iff of_nat_numeral of_nat_power)
  then obtain bs where "int2bin (int m) (int n) = Inr (map digit_char bs)" "length bs = n"
      "\<forall>b \<in> set bs. b < 2" "of_digits 2 bs = m"
    using int2bin_in_range [of "int n" "int m"] assms by auto
  with bits_unique [of bs] show ?thesis by simp
qed

text \<open>
  The carry loop of \<^verbatim>\<open>binary_range\<close> terminates and lists all \<open>2 ^ bits\<close> binary
  strings of a positive width in increasing order: the entry at \<open>i\<close> is what
  \<^verbatim>\<open>int2bin\<close> makes of \<open>i\<close>.
\<close>

theorem binary_range_complete:
  assumes "0 < bits"
  shows "\<exists>l. binary_range bits = Some l \<and> length l = 2 ^ bits \<and>
             (\<forall>i < 2 ^ bits. int2bin (int i) (int bits) = Inr (l ! i))"
proof -
  let ?l = "map (\<lambda>m. map digit_char (bits_of bits m)) [0..<2 ^ bits]"
  have "of_digits 2 (rev (replicate bits 0)) = 0" by simp
  then have "binary_range bits = Some ?l"
    using binary_range_loop_from [of "replicate bits 0" bits "1 # replicate bits 0" "[]"] assms
    by (simp add: binary_range_def digit_char_01 nth_Cons')
  then show ?thesis
    using assms int2bin_bits_of by simp
qed

theorem binary_range_complete_witness:
  "\<exists>l. binary_range 3 = Some l \<and> length l = 2 ^ 3 \<and> (\<forall>i < 2 ^ 3. int2bin (int i) (int 3) = Inr (l ! i))"
  by (rule binary_range_complete) simp

lemma binary_range_zero: "binary_range 0 = Some []"
  by (simp add: binary_range_def binary_range_loop.simps)

section \<open>Factors and fractions\<close>

lemma gcf_loop_gcd: "gcf_loop a b = gcd a b"
proof (induction a b rule: gcf_loop.induct)
  case (1 a b)
  show ?case
  proof (cases "b = 0")
    case True
    then show ?thesis by (simp add: gcf_loop.simps)
  next
    case False
    with "1.IH" have "gcf_loop a b = gcd b (a mod b)"
      by (simp add: gcf_loop.simps [of a b])
    then show ?thesis
      by (metis gcd.commute gcd_red_int)
  qed
qed

lemma gcf_gcd: "gcf a b = gcd a b"
  by (auto simp: gcf_def gcf_loop_gcd max_def min_def gcd.commute)

lemma abs_lcm_py: "\<bar>lcm_py a b\<bar> = lcm a b"
  by (simp add: lcm_py_def gcf_gcd Let_def lcm_gcd div_mult_swap)

text \<open>
  On integers the Euclidean loop of \<^verbatim>\<open>gcf\<close> terminates with the greatest common
  divisor, whatever the signs and the order of the arguments, and \<^verbatim>\<open>lcm\<close> is the
  least common multiple up to sign (the sign of the product of its arguments).
\<close>

theorem gcf_lcm_correct:
  "gcf a b = gcd a b \<and> \<bar>lcm_py a b\<bar> = lcm a b \<and> (lcm_py a b < 0 \<longleftrightarrow> a * b < 0)"
proof -
  have "(a * (b div gcd a b) < 0) = (a * b < 0)" if "gcd a b \<noteq> 0"
  proof -
    have "a * b = a * (b div gcd a b) * gcd a b" by simp
    moreover have "0 < gcd a b" using that by (simp add: gcd_pos_int)
    ultimately show ?thesis by (metis mult_less_0_iff not_less_iff_gr_or_eq)
  qed
  then show ?thesis
    by (auto simp: gcf_gcd abs_lcm_py) (auto simp: lcm_py_def gcf_gcd Let_def split: if_splits)
qed

text \<open>
  \<^verbatim>\<open>reduce_fraction\<close> divides both terms by their greatest common divisor and
  returns coprime terms, unless both are zero, where the division raises.
\<close>

theorem reduce_fraction_lowest:
  assumes "(numerator, denominator) \<noteq> (0, 0)"
  shows "\<exists>p q. reduce_fraction (numerator, denominator) = Inr (p, q) \<and> coprime p q \<and>
               numerator = gcd numerator denominator * p \<and> denominator = gcd numerator denominator * q"
  using assms div_gcd_coprime [of numerator denominator]
  by (auto simp: reduce_fraction_def gcf_gcd Let_def)

theorem reduce_fraction_lowest_witness:
  "\<exists>p q. reduce_fraction (14, -4) = Inr (p, q) \<and> coprime p q \<and>
         14 = gcd 14 (-4) * p \<and> -4 = gcd 14 (-4) * q"
  using reduce_fraction_lowest [of 14 "-4"] by simp

lemma reduce_fraction_zero: "reduce_fraction (0, 0) = Inl ZeroDivisionError"
  by (simp add: reduce_fraction_def gcf_gcd)

section \<open>Permutations\<close>

lemma mset_insert_at: "mset (insert_at i x xs) = add_mset x (mset xs)"
  by (simp add: insert_at_def) (metis append_take_drop_id mset_append)

lemma insert_at_split: "insert_at (length ys) x (ys @ zs) = ys @ x # zs"
  by (simp add: insert_at_def)

lemma permutations_Cons:
  "xs \<noteq> [] \<Longrightarrow> permutations (x # xs) =
     concat (map (\<lambda>p. map (\<lambda>i. insert_at i x p) [0..<Suc (length xs)]) (permutations xs))"
  by (cases xs) auto

lemma set_permutations: "set (permutations xs) = {ys. mset ys = mset xs}"
proof (induction xs)
  case Nil
  then show ?case by simp
next
  case (Cons x xs)
  show ?case
  proof (cases "xs = []")
    case True
    then show ?thesis
      by (auto simp: mset_single_iff_right mset_single_iff)
  next
    case False
    have "ys \<in> set (permutations (x # xs)) \<longleftrightarrow> mset ys = mset (x # xs)" for ys
    proof
      assume "ys \<in> set (permutations (x # xs))"
      with False Cons.IH show "mset ys = mset (x # xs)"
        by (auto simp: permutations_Cons mset_insert_at)
    next
      assume ys: "mset ys = mset (x # xs)"
      then have "x \<in> set ys"
        by (metis list.set_intros(1) mset_eq_setD)
      then obtain us vs where uv: "ys = us @ x # vs"
        by (auto simp: in_set_conv_decomp)
      with ys have "us @ vs \<in> set (permutations xs)"
        using Cons.IH by simp
      moreover from this have "length us < Suc (length xs)"
        using Cons.IH by (metis (mono_tags, lifting) length_append less_Suc_eq_le le_add1 mem_Collect_eq mset_eq_length)
      moreover have "ys = insert_at (length us) x (us @ vs)"
        using uv by (simp add: insert_at_split)
      ultimately show "ys \<in> set (permutations (x # xs))"
        using False by (force simp: permutations_Cons simp del: upt_Suc)
    qed
    then show ?thesis by blast
  qed
qed

lemma length_concat_const:
  "\<forall>ys \<in> set yss. length ys = n \<Longrightarrow> length (concat yss) = n * length yss"
  by (induction yss) auto

lemma length_permutations: "length (permutations xs) = fact (length xs)"
proof (induction xs)
  case Nil
  then show ?case by simp
next
  case (Cons x xs)
  show ?case
  proof (cases "xs = []")
    case True
    then show ?thesis by simp
  next
    case False
    have "length (permutations (x # xs)) = Suc (length xs) * length (permutations xs)"
      unfolding permutations_Cons [OF False]
      by (subst length_concat_const [where n = "Suc (length xs)"]) auto
    with Cons.IH show ?thesis by simp
  qed
qed

text \<open>
  \<^verbatim>\<open>permutations\<close> returns exactly the rearrangements of its input, \<open>n!\<close> of them
  counted with repetitions, so each once when the items are distinct.
\<close>

theorem permutations_complete:
  "set (permutations input_list) = {ys. mset ys = mset input_list} \<and>
   length (permutations input_list) = fact (length input_list)"
  by (simp add: set_permutations length_permutations)

section \<open>Duplicates and dictionaries\<close>

lemma uniq_slow_filter:
  "uniq_slow r xs = r @ rev (remdups (rev (filter (\<lambda>x. x \<notin> set r) xs)))"
proof (induction xs arbitrary: r)
  case Nil
  then show ?case by simp
next
  case (Cons x xs)
  have *: "rev (remdups (rev ys @ [x])) = x # rev (remdups (rev (filter (\<lambda>y. y \<noteq> x) ys)))" for ys
    by (induction ys rule: rev_induct) auto
  show ?case
    using Cons.IH [of "r @ [x]"] Cons.IH [of r]
    by (auto simp: * conj_commute)
qed

lemma uniq_ordered_Inr:
  "list_all hashable xs \<Longrightarrow>
   uniq_ordered hashable d xs = Inr (rev (remdups (rev (filter (\<lambda>x. dict_get d x = None) xs))))"
proof (induction xs arbitrary: d)
  case Nil
  then show ?case by simp
next
  case (Cons x xs)
  have *: "rev (remdups (rev ys @ [x])) = x # rev (remdups (rev (filter (\<lambda>y. y \<noteq> x) ys)))" for ys
    by (induction ys rule: rev_induct) auto
  show ?case
    using Cons by (auto simp: * conj_commute cong: conj_cong)
qed

lemma uniq_dict_Inr:
  "list_all hashable xs \<Longrightarrow> uniq_dict hashable d xs = Inr (foldl (\<lambda>d x. dict_set d x 0) d xs)"
  by (induction xs arbitrary: d) auto

lemma uniq_fast_fails:
  "\<not> list_all hashable xs \<Longrightarrow>
   (\<exists>e. uniq_ordered hashable d xs = Inl e) \<and> (\<exists>e. uniq_dict hashable d xs = Inl e)"
  by (induction xs arbitrary: d) (auto simp: res_simps)

lemma uniquify_ordered_eq: "uniquify hashable ko seq True = rev (remdups (rev seq))"
proof (cases "list_all hashable seq")
  case True
  then show ?thesis by (simp add: uniquify_def uniq_ordered_Inr)
next
  case False
  then obtain e where "uniq_ordered hashable [] seq = Inl e"
    using uniq_fast_fails by blast
  then show ?thesis by (simp add: uniquify_def uniq_slow_filter)
qed

lemma uniquify_unordered:
  assumes "key_order ko"
  shows "distinct (uniquify hashable ko seq False) \<and> set (uniquify hashable ko seq False) = set seq"
proof (cases "list_all hashable seq")
  case True
  then have "uniquify hashable ko seq False = ko (dict_keys (foldl (\<lambda>d x. dict_set d x (0::int)) [] seq))"
    by (simp add: uniquify_def uniq_dict_Inr)
  moreover have "is_dict (foldl (\<lambda>d x. dict_set d x (0::int)) [] seq)"
    by (rule pydict.valid_fill) simp
  moreover have "set (dict_keys (foldl (\<lambda>d x. dict_set d x (0::int)) [] seq)) = set seq"
    using pydict.keys_fill [of "\<lambda>x. x" "\<lambda>x. 0::int" seq] by simp
  ultimately show ?thesis
    by (simp add: key_orderD [OF assms])
next
  case False
  then obtain e where "uniq_dict hashable [] seq = Inl e"
    using uniq_fast_fails by blast
  then show ?thesis by (simp add: uniquify_def uniq_slow_filter)
qed

text \<open>
  \<^verbatim>\<open>uniquify\<close> returns each item of the sequence once, whichever of its three
  algorithms runs (dictionary with or without order, or the quadratic loop when an
  item is not hashable) and however the interpreter orders dictionary keys; with
  \<^verbatim>\<open>preserve_order\<close> the result is the first occurrences in their order.
\<close>

theorem uniquify_correct:
  assumes "key_order ko"
  shows "distinct (uniquify hashable ko seq preserve) \<and> set (uniquify hashable ko seq preserve) = set seq \<and>
         (preserve \<longrightarrow> uniquify hashable ko seq preserve = rev (remdups (rev seq)))"
  using uniquify_unordered [OF assms, of hashable seq]
  by (cases preserve) (auto simp: uniquify_ordered_eq)

theorem uniquify_correct_witness:
  "key_order (rev :: int list \<Rightarrow> int list) \<and>
   distinct (uniquify (\<lambda>_. True) rev [3, 3, 1, 2 :: int] False) \<and>
   set (uniquify (\<lambda>_. True) rev [3, 3, 1, 2 :: int] False) = set [3, 3, 1, 2]"
proof -
  have k: "key_order (rev :: int list \<Rightarrow> int list)" by (simp add: key_order_def)
  show ?thesis using k uniquify_correct [OF k, of "\<lambda>_. True" "[3, 3, 1, 2]" False] by simp
qed

lemma reverse_dict_inverse:
  assumes "is_dict d" and "inj_on snd (set d)"
  shows "dict_get (reverse_dict d) v = Some k \<longleftrightarrow> dict_get d k = Some v"
proof -
  have rd: "reverse_dict d = foldl (\<lambda>r x. dict_set r (snd x) (fst x)) [] d"
    by (simp add: reverse_dict_def case_prod_unfold)
  have hit: "dict_get (reverse_dict d) (snd x) = Some (fst x)" if "x \<in> set d" for x
    unfolding rd by (rule pydict.get_fill_inj [OF assms(2) that])
  have miss: "dict_get (reverse_dict d) v = None" if "v \<notin> snd ` set d"
    unfolding rd by (simp add: pydict.get_fill_other [OF that])
  show ?thesis
  proof
    assume *: "dict_get (reverse_dict d) v = Some k"
    with miss obtain x where "x \<in> set d" "v = snd x" by fastforce
    with * hit have "(k, v) \<in> set d" by (metis option.inject prod.collapse)
    with assms(1) show "dict_get d k = Some v" by simp
  next
    assume "dict_get d k = Some v"
    then have "(k, v) \<in> set d" by (rule map_of_SomeD)
    with hit show "dict_get (reverse_dict d) v = Some k" by fastforce
  qed
qed

section \<open>Bits\<close>

unbundle bit_operations_syntax

lemma lsb_py_mod: "0 \<le> n \<Longrightarrow> lsb_py x n = Inr (x mod 2 ^ nat n)"
  by (simp add: lsb_py_def flip: mask_eq_exp_minus_1 take_bit_eq_mask take_bit_eq_mod)

lemma bit_gray: "bit (gray_encode i) k \<longleftrightarrow> bit i k \<noteq> bit i (Suc k)"
  by (simp add: gray_encode_def bit_xor_iff bit_drop_bit_eq)

lemma xor_succ: "\<exists>t. (int i) XOR (int i + 1) = mask (Suc t)"
proof (induction i rule: nat_less_induct)
  case (1 i)
  show ?case
  proof (cases "even i")
    case True
    then have "(int i) XOR (int i + 1) = mask (Suc 0)"
      by (elim evenE) (simp add: xor_int_rec [of "_ * _"])
    then show ?thesis by blast
  next
    case False
    then obtain j where j: "i = 2 * j + 1" by (elim oddE)
    obtain t where t: "(int j) XOR (int j + 1) = mask (Suc t)"
      using 1 [rule_format, of j] j by auto
    have "(int i) XOR (int i + 1) = 1 + 2 * ((int j) XOR (int j + 1))"
      unfolding j by (subst xor_int_rec) (simp add: algebra_simps)
    also have "\<dots> = mask (Suc (Suc t))"
      unfolding t by (simp add: mask_Suc_double [of "Suc t"] or_int_rec [of 1])
    finally show ?thesis by blast
  qed
qed

lemma gray_adjacent: "0 \<le> i \<Longrightarrow> \<exists>t. gray_encode i XOR gray_encode (i + 1) = 2 ^ t"
proof -
  assume "0 \<le> i"
  then obtain t where t: "i XOR (i + 1) = mask (Suc t)"
    using xor_succ [of "nat i"] by auto
  have "gray_encode i XOR gray_encode (i + 1) = 2 ^ t"
  proof (rule bit_eqI)
    fix k
    have "bit (i XOR (i + 1)) m \<longleftrightarrow> m < Suc t" for m
      unfolding t by (simp add: bit_mask_iff)
    then have "(bit i m \<noteq> bit (i + 1) m) \<longleftrightarrow> m < Suc t" for m
      by (simp add: bit_xor_iff)
    from this [of k] this [of "Suc k"]
    show "bit (gray_encode i XOR gray_encode (i + 1)) k \<longleftrightarrow> bit ((2::int) ^ t) k"
      by (auto simp: bit_xor_iff bit_gray bit_exp_iff)
  qed
  then show ?thesis ..
qed

lemma gray_inj:
  assumes "0 \<le> i" and "0 \<le> j" and "gray_encode i = gray_encode j"
  shows "i = j"
proof -
  obtain n where n: "i < 2 ^ n" "j < 2 ^ n"
  proof
    show "i < 2 ^ nat (max i j + 1)" "j < 2 ^ nat (max i j + 1)"
      using of_nat_less_two_power [of "nat (max i j + 1)", where 'a = int] assms by auto
  qed
  have high: "\<not> bit i k \<and> \<not> bit j k" if "n \<le> k" for k
    using that n assms by (auto simp: bit_iff_odd div_pos_pos_trivial order_less_le_trans [OF _ power_increasing])
  have "bit i (n - d) \<longleftrightarrow> bit j (n - d)" for d
  proof (induction d)
    case 0
    then show ?case using high by simp
  next
    case (Suc d)
    show ?case
    proof (cases "d < n")
      case True
      then have "n - d = Suc (n - Suc d)" by simp
      with Suc assms(3) show ?thesis by (metis bit_gray)
    next
      case False
      with Suc show ?thesis by simp
    qed
  qed
  then have "bit i k \<longleftrightarrow> bit j k" for k
    using high by (cases "k \<le> n") (metis diff_diff_cancel, simp)
  then show ?thesis by (rule bit_eqI)
qed

text \<open>
  Gray codes.  \<^verbatim>\<open>gray_encode\<close> is injective on the non-negative integers, and the
  codes of consecutive integers differ in exactly one bit.
\<close>

theorem gray_encode_correct:
  assumes "0 \<le> i" and "0 \<le> j"
  shows "(gray_encode i = gray_encode j \<longrightarrow> i = j) \<and> (\<exists>t. gray_encode i XOR gray_encode (i + 1) = 2 ^ t)"
  using gray_inj [OF assms] gray_adjacent [OF assms(1)] by blast

theorem gray_encode_correct_witness:
  "gray_encode 6 \<noteq> gray_encode 7 \<and> (\<exists>t. gray_encode 6 XOR gray_encode (6 + 1) = 2 ^ t)"
  using gray_encode_correct [of 6 7] by simp

text \<open>
  \<^verbatim>\<open>random_vec\<close> without a maximum is a binary string of the requested width; with one,
  the scaled value need not fit the width, and the conversion raises.
\<close>

lemma random_vec_width:
  assumes "\<forall>k. 0 \<le> draws k \<and> draws k < 2 ^ 10"
  shows "\<exists>s. random_vec draws bits None = Inr s \<and> length s = bits \<and> set s \<subseteq> {CHR ''0'', CHR ''1''}"
proof -
  have "\<forall>k. \<exists>s. int2bin (draws k) 10 = Inr s \<and> length s = 10 \<and> set s \<subseteq> {CHR ''0'', CHR ''1''}"
  proof
    fix k
    obtain bs where bs: "int2bin (draws k) 10 = Inr (map digit_char bs)" "length bs = 10" "\<forall>b \<in> set bs. b < 2"
      using int2bin_in_range [of 10 "draws k"] assms by auto
    then have "set (map digit_char bs) \<subseteq> {CHR ''0'', CHR ''1''}"
      using digit_char_01 by (auto simp: less_2_cases_iff)
    with bs show "\<exists>s. int2bin (draws k) 10 = Inr s \<and> length s = 10 \<and> set s \<subseteq> {CHR ''0'', CHR ''1''}"
      by (metis length_map)
  qed
  then obtain g where g: "\<And>k. int2bin (draws k) 10 = Inr (g k) \<and> length (g k) = 10 \<and> set (g k) \<subseteq> {CHR ''0'', CHR ''1''}"
    by metis
  let ?v = "concat (map g [0..<bits div 10 + 1])"
  have "mapM (\<lambda>k. int2bin (draws k) 10) [0..<bits div 10 + 1] = Inr (map g [0..<bits div 10 + 1])"
    by (rule mapM_Inr) (simp add: g)
  then have "random_vec draws bits None = Inr (take bits ?v)"
    by (simp add: random_vec_def py_slice_between Let_def del: upt_Suc)
  moreover have "length ?v = 10 * (bits div 10 + 1)"
    using length_concat_const [of "map g [0..<bits div 10 + 1]" 10] g by (simp del: upt_Suc)
  then have "length (take bits ?v) = bits" by simp
  moreover have "set (take bits ?v) \<subseteq> {CHR ''0'', CHR ''1''}"
    using g set_take_subset [of bits ?v] by (fastforce simp del: upt_Suc)
  ultimately show ?thesis by blast
qed

lemma random_vec_overflow: "random_vec (\<lambda>_. 1023) 4 (Some 5) = Inl ValueError"
  by code_simp

section \<open>Matrices and polygons\<close>

lemma zip_rows_nth:
  assumes "matrix \<noteq> []" and "\<forall>row \<in> set matrix. length row = c"
  shows "length (zip_rows matrix) = c \<and>
         (\<forall>j < c. zip_rows matrix ! j = map (\<lambda>row. row ! j) matrix)"
  using assms
proof (induction c arbitrary: matrix)
  case 0
  then have "[] \<in> set matrix" by (cases matrix) auto
  then show ?case by (simp add: zip_rows.simps [of matrix])
next
  case (Suc c)
  then have ne: "[] \<notin> set matrix" by auto
  have unf: "zip_rows matrix = map hd matrix # zip_rows (map tl matrix)"
    using Suc.prems(1) ne by (simp add: zip_rows.simps [of matrix])
  have IH: "length (zip_rows (map tl matrix)) = c \<and>
      (\<forall>j < c. zip_rows (map tl matrix) ! j = map (\<lambda>row. row ! j) (map tl matrix))"
    by (rule Suc.IH) (use Suc.prems in auto)
  have row: "hd row = row ! 0 \<and> tl row ! j = row ! Suc j" if "row \<in> set matrix" "j < c" for row j
    using that Suc.prems(2) by (cases "row = []") (auto simp: hd_conv_nth nth_tl)
  have hd: "map hd matrix = map (\<lambda>row. row ! 0) matrix"
    using ne by (auto intro!: hd_conv_nth)
  show ?case
    using IH unf hd row by (auto simp: nth_Cons split: nat.splits)
qed

text \<open>
  \<^verbatim>\<open>transpose\<close> of a rectangular matrix with at least one row exchanges the
  indices.
\<close>

theorem transpose_py_nth:
  assumes "matrix \<noteq> []" and "\<forall>row \<in> set matrix. length row = c"
  shows "length (transpose_py matrix) = c \<and>
         (\<forall>i < length matrix. \<forall>j < c. length (transpose_py matrix ! j) = length matrix
            \<and> transpose_py matrix ! j ! i = matrix ! i ! j)"
  using zip_rows_nth [OF assms] by (simp add: transpose_py_def)

lemma shoelace_acc: "shoelace_loop a pts = a + shoelace_loop 0 pts"
proof (induction pts arbitrary: a rule: induct_list012)
  case (3 p q pts)
  obtain x y x' y' where pq: "p = (x, y)" "q = (x', y')" by fastforce
  have "shoelace_loop (a + x' * y - y' * x) (q # pts) = a + x' * y - y' * x + shoelace_loop 0 (q # pts)"
    and "shoelace_loop (0 + x' * y - y' * x) (q # pts) = 0 + x' * y - y' * x + shoelace_loop 0 (q # pts)"
    by (rule "3.IH"(2))+
  then show ?case by (simp add: pq)
qed simp_all

lemma shoelace_Cons2:
  "shoelace_loop 0 ((x, y) # (x', y') # pts) = (x' * y - y' * x) + shoelace_loop 0 ((x', y') # pts)"
  by (simp add: shoelace_acc [of "x' * y - y' * x"])

lemma shoelace_scale:
  "shoelace_loop 0 (map (\<lambda>(x, y). (x * p, y * p)) pts) = p ^ 2 * shoelace_loop 0 pts"
proof (induction pts rule: induct_list012)
  case (3 a b pts)
  obtain x y x' y' where ab: "a = (x, y)" "b = (x', y')" by fastforce
  from "3.IH"(2) show ?case
    by (simp add: ab shoelace_Cons2 algebra_simps power2_eq_square del: shoelace_loop.simps)
qed simp_all

lemma shoelace_append:
  "shoelace_loop 0 (ps @ q # qs) = shoelace_loop 0 (ps @ [q]) + shoelace_loop 0 (q # qs)"
proof (induction ps rule: induct_list012)
  case (2 a)
  then show ?case
    by (cases a; cases q) (simp add: shoelace_Cons2 del: shoelace_loop.simps(1))
next
  case (3 a b pts)
  then show ?case
    by (cases a; cases b) (simp add: shoelace_Cons2 del: shoelace_loop.simps(1))
qed simp

lemma shoelace_rev: "shoelace_loop 0 (rev pts) = - shoelace_loop 0 pts"
proof (induction pts rule: induct_list012)
  case (3 a b pts)
  obtain x y x' y' where ab: "a = (x, y)" "b = (x', y')" by fastforce
  have "shoelace_loop 0 (rev (a # b # pts)) = shoelace_loop 0 (rev pts @ [b]) + shoelace_loop 0 [b, a]"
    using shoelace_append [of "rev pts" b "[a]"] by simp
  with "3.IH"(2) show ?case
    by (simp add: ab shoelace_Cons2 del: shoelace_loop.simps(1))
qed simp_all

text \<open>The polygon closed by repeating its first point where needed.\<close>

definition close_polygon :: "(int \<times> int) list \<Rightarrow> (int \<times> int) list" where
  "close_polygon pts = (if last pts \<noteq> hd pts then pts @ [hd pts] else pts)"

lemma close_scaled:
  assumes "pts \<noteq> []" and "p \<noteq> 0"
  shows "close_polygon (map (\<lambda>(x, y). (x * p, y * p)) pts) = map (\<lambda>(x, y). (x * p, y * p)) (close_polygon pts)"
proof -
  have "inj (\<lambda>(x, y). (x * p, y * p))"
    using assms(2) by (auto simp: inj_def)
  then have "(case last pts of (x, y) \<Rightarrow> (x * p, y * p)) = (case hd pts of (x, y) \<Rightarrow> (x * p, y * p))
             \<longleftrightarrow> last pts = hd pts"
    by (metis injD)
  with assms(1) show ?thesis
    by (simp add: close_polygon_def last_map hd_map)
qed

lemma polygon_area_eq:
  assumes "pts \<noteq> []" and "p \<noteq> 0"
  shows "polygon_area pts p = Inr (map (\<lambda>(x, y). (x * p, y * p)) (close_polygon pts),
           \<bar>(p ^ 2 * shoelace_loop 0 (close_polygon pts)) div 2\<bar>, p ^ 2)"
proof -
  let ?s = "map (\<lambda>(x, y). (x * p, y * p)) pts"
  have "py_index ?s 0 = Inr (hd ?s)"
    using assms(1) by (simp add: py_index_def hd_conv_nth)
  moreover have "py_index ?s (- 1) = Inr (last ?s)"
    using assms(1) by (simp add: py_index_last)
  ultimately have "polygon_area pts p = Inr (close_polygon ?s, \<bar>shoelace_loop 0 (close_polygon ?s) div 2\<bar>, p ^ 2)"
    using assms(2) by (simp add: polygon_area_def close_polygon_def Let_def)
  then show ?thesis
    by (simp only: close_scaled [OF assms] shoelace_scale)
qed

lemma even_square_half: "even (p::int) \<Longrightarrow> 2 * \<bar>(p ^ 2 * a) div 2\<bar> = p ^ 2 * \<bar>a\<bar>"
  by (elim evenE) (simp add: power2_eq_square abs_mult)

text \<open>
  With an even precision, \<^verbatim>\<open>polygon_area\<close> returns the shoelace area of the closed
  polygon without rounding: numerator over \<^verbatim>\<open>precision**2\<close> is half the absolute
  shoelace sum.
\<close>

theorem polygon_area_exact:
  assumes "points_list \<noteq> []" and "precision \<noteq> 0" and "even precision"
  shows "\<exists>pts area. polygon_area points_list precision = Inr (pts, area, precision ^ 2) \<and>
           2 * area = precision ^ 2 * \<bar>shoelace_loop 0 (close_polygon points_list)\<bar>"
  using polygon_area_eq [OF assms(1,2)] even_square_half [OF assms(3)] by blast

lemma shoelace_close_rev:
  assumes "pts \<noteq> []"
  shows "shoelace_loop 0 (close_polygon (rev pts)) = - shoelace_loop 0 (close_polygon pts)"
proof (cases "last pts = hd pts")
  case True
  then show ?thesis
    using assms by (simp add: close_polygon_def hd_rev last_rev shoelace_rev)
next
  case False
  obtain p rest where p: "pts = p # rest" using assms by (cases pts) auto
  with False obtain q qs where q: "rest = qs @ [q]" by (cases rest rule: rev_cases) auto
  have "shoelace_loop 0 (rev pts @ [q]) = shoelace_loop 0 (q # rev qs @ [p]) + shoelace_loop 0 [p, q]"
    using shoelace_append [of "q # rev qs" p "[q]"] by (simp add: p q)
  moreover have "shoelace_loop 0 (p # q # rev qs @ [p]) = shoelace_loop 0 [p, q] + shoelace_loop 0 (q # rev qs @ [p])"
    using shoelace_append [of "[p]" q "rev qs @ [p]"] by simp
  ultimately have "shoelace_loop 0 (rev pts @ [q]) = - shoelace_loop 0 (pts @ [p])"
    using shoelace_rev [of "pts @ [p]"] by (simp add: p q)
  with False show ?thesis
    by (simp add: close_polygon_def p q)
qed

text \<open>The area does not depend on the orientation in which the points are listed.\<close>

lemma polygon_area_orientation:
  assumes "points_list \<noteq> []" and "precision \<noteq> 0" and "even precision"
  shows "map_sum id snd (polygon_area (rev points_list) precision) = map_sum id snd (polygon_area points_list precision)"
proof -
  have "\<bar>(precision ^ 2 * - a) div 2\<bar> = \<bar>(precision ^ 2 * a) div 2\<bar>" for a
    using even_square_half [OF assms(3), of a] even_square_half [OF assms(3), of "- a"] by simp
  then show ?thesis
    using assms polygon_area_eq [of points_list precision] polygon_area_eq [of "rev points_list" precision]
    by (simp add: shoelace_close_rev)
qed

lemma close_close: "pts \<noteq> [] \<Longrightarrow> close_polygon (close_polygon pts) = close_polygon pts"
  by (simp add: close_polygon_def)

text \<open>
  \<^verbatim>\<open>polygon_area\<close> changes the list it is given.  A second call on the same list
  scales the scaled points again and returns \<^verbatim>\<open>precision**2\<close> times the area.
\<close>

theorem polygon_area_mutates:
  assumes "polygon_area points_list precision = Inr (pts, area, q)" and "precision \<noteq> 0" and "even precision"
  shows "\<exists>pts'. polygon_area pts precision = Inr (pts', area * precision ^ 2, q)"
proof -
  let ?c = "close_polygon points_list"
  have ne: "points_list \<noteq> []"
    using assms(1) by (auto simp: polygon_area_def)
  then have c: "?c \<noteq> []" by (simp add: close_polygon_def)
  have pts: "pts = map (\<lambda>(x, y). (x * precision, y * precision)) ?c"
    and area: "area = \<bar>(precision ^ 2 * shoelace_loop 0 ?c) div 2\<bar>" and q: "q = precision ^ 2"
    using polygon_area_eq [OF ne assms(2)] assms(1) by auto
  have "close_polygon pts = pts"
    using close_scaled [OF c assms(2)] close_close [OF ne] by (simp add: pts)
  moreover have "shoelace_loop 0 pts = precision ^ 2 * shoelace_loop 0 ?c"
    by (simp add: pts shoelace_scale)
  moreover have "\<bar>precision ^ 2 * (precision ^ 2 * a) div 2\<bar> = \<bar>(precision ^ 2 * a) div 2\<bar> * precision ^ 2" for a
  proof -
    have "2 * \<bar>precision ^ 2 * (precision ^ 2 * a) div 2\<bar> = precision ^ 2 * (precision ^ 2 * \<bar>a\<bar>)"
      using even_square_half [OF assms(3), of "precision ^ 2 * a"] by (simp add: abs_mult)
    also have "\<dots> = 2 * (\<bar>(precision ^ 2 * a) div 2\<bar> * precision ^ 2)"
      unfolding even_square_half [OF assms(3), of a, symmetric] by (simp only: mult.assoc mult.left_commute mult.commute)
    finally show ?thesis by simp
  qed
  moreover have "pts \<noteq> []" using c by (simp add: pts)
  ultimately show ?thesis
    using polygon_area_eq [of pts precision] assms(2) area q by simp
qed

theorem polygon_area_exact_witness:
  "\<exists>pts area. polygon_area [(0, 0), (0, 1), (1, 1), (1, 2), (2, 2), (2, 0)] 100 = Inr (pts, area, 100 ^ 2) \<and>
     2 * area = 100 ^ 2 * \<bar>shoelace_loop 0 (close_polygon [(0, 0), (0, 1), (1, 1), (1, 2), (2, 2), (2, 0)])\<bar>"
  by (rule polygon_area_exact) simp_all

theorem polygon_area_mutates_witness:
  "\<exists>pts'. polygon_area [(0, 0), (0, 2), (2, 0), (0, 0)] 2 = Inr (pts', 2 * 2 ^ 2, 2 ^ 2)"
  by (rule polygon_area_mutates [where points_list = "[(0, 0), (0, 1), (1, 0)]"])
     (simp_all add: polygon_area_def py_index_def)

theorem transpose_py_nth_witness:
  "length (transpose_py [[1, 2, 3], [4, 5, 6 :: int]]) = 3 \<and>
   (\<forall>i < length [[1, 2, 3], [4, 5, 6 :: int]]. \<forall>j < 3.
      length (transpose_py [[1, 2, 3], [4, 5, 6 :: int]] ! j) = length [[1, 2, 3], [4, 5, 6 :: int]]
      \<and> transpose_py [[1, 2, 3], [4, 5, 6 :: int]] ! j ! i = [[1, 2, 3], [4, 5, 6 :: int]] ! i ! j)"
  by (rule transpose_py_nth) simp_all

section \<open>Order statistics\<close>

lemma py_trunc_nonneg: "0 \<le> r \<Longrightarrow> py_trunc r = \<lfloor>r\<rfloor>"
  by (simp add: py_trunc_def)

lemma sort_nth_bounds:
  fixes l :: "rat list"
  assumes "k < length l"
  shows "Min (set l) \<le> sort l ! k" and "sort l ! k \<le> Max (set l)"
  using assms nth_mem [of k "sort l"] by auto

lemma convex_bounds:
  fixes f :: rat
  assumes "0 \<le> f" "f \<le> 1" "lo \<le> x" "x \<le> hi" "lo \<le> y" "y \<le> hi"
  shows "lo \<le> (1 - f) * x + f * y" and "(1 - f) * x + f * y \<le> hi"
proof -
  have "(1 - f) * lo + f * lo \<le> (1 - f) * x + f * y" and "(1 - f) * x + f * y \<le> (1 - f) * hi + f * hi"
    using assms by (auto intro!: add_mono mult_left_mono)
  then show "lo \<le> (1 - f) * x + f * y" and "(1 - f) * x + f * y \<le> hi"
    by (simp_all add: algebra_simps)
qed

lemma quantile_rank:
  fixes p :: rat
  assumes "0 < n" and "0 \<le> p" and "p \<le> 1"
  defines "r \<equiv> 1 + of_int (n - 1) * p"
  shows "1 \<le> r" and "r \<le> of_int n" and "1 \<le> \<lfloor>r\<rfloor>" and "\<lfloor>r\<rfloor> \<le> n"
proof -
  show 1: "1 \<le> r"
    using assms by (simp add: r_def)
  have "of_int (n - 1) * p \<le> of_int (n - 1) * 1"
    using assms by (intro mult_left_mono) auto
  then show 2: "r \<le> of_int n"
    by (simp add: r_def)
  from 1 show "1 \<le> \<lfloor>r\<rfloor>" by (simp add: le_floor_iff)
  from 2 show "\<lfloor>r\<rfloor> \<le> n" by (simp add: floor_le_iff)
qed

lemma quantile_between:
  assumes "l \<noteq> []" and "0 \<le> p" and "p \<le> 1"
  shows "\<exists>q. quantile l p = Inr q \<and> Min (set l) \<le> q \<and> q \<le> Max (set l)"
proof -
  define n where "n = int (length l)"
  define r where "r = 1 + of_int (n - 1) * p"
  have n: "0 < n" using assms(1) by (simp add: n_def)
  note r = quantile_rank [OF n assms(2,3), folded r_def]
  have tr: "py_trunc r = \<lfloor>r\<rfloor>" using r(1) by (simp add: py_trunc_nonneg)
  have k1: "nat (\<lfloor>r\<rfloor> - 1) < length l" using r(3,4) by (simp add: n_def nat_less_iff)
  have i1: "py_index (sort l) (\<lfloor>r\<rfloor> - 1) = Inr (sort l ! nat (\<lfloor>r\<rfloor> - 1))"
    using r(3,4) by (simp add: py_index_nonneg n_def)
  have unf: "quantile l p = (if \<lfloor>r\<rfloor> < n
         then rbind (py_index (sort l) (\<lfloor>r\<rfloor> - 1)) (\<lambda>x.
              rbind (py_index (sort l) \<lfloor>r\<rfloor>) (\<lambda>y. Inr ((1 - (r - of_int \<lfloor>r\<rfloor>)) * x + (r - of_int \<lfloor>r\<rfloor>) * y)))
         else py_index (sort l) (\<lfloor>r\<rfloor> - 1))"
    unfolding quantile_def Let_def n_def [symmetric] r_def [symmetric] tr ..
  show ?thesis
  proof (cases "\<lfloor>r\<rfloor> < n")
    case True
    have k2: "nat \<lfloor>r\<rfloor> < length l" using r(3) True by (simp add: n_def nat_less_iff)
    have "py_index (sort l) \<lfloor>r\<rfloor> = Inr (sort l ! nat \<lfloor>r\<rfloor>)"
      using r(3) True by (simp add: py_index_nonneg n_def)
    moreover have "0 \<le> r - of_int \<lfloor>r\<rfloor>" "r - of_int \<lfloor>r\<rfloor> \<le> 1"
      by (simp, linarith)
    ultimately show ?thesis
      using True i1 convex_bounds sort_nth_bounds [OF k1] sort_nth_bounds [OF k2] by (simp add: unf)
  next
    case False
    then show ?thesis using i1 sort_nth_bounds [OF k1] by (simp add: unf)
  qed
qed

lemma sort_hd_Min: "l \<noteq> [] \<Longrightarrow> sort l ! 0 = Min (set (l::rat list))"
proof -
  assume l: "l \<noteq> []"
  have "sort l ! 0 \<le> x" if x: "x \<in> set l" for x
  proof -
    obtain k where "k < length l" "x = sort l ! k"
      using x by (metis in_set_conv_nth length_sort set_sort)
    then show ?thesis by (simp add: sorted_nth_mono)
  qed
  moreover have "sort l ! 0 \<in> set l" using l nth_mem [of 0 "sort l"] by simp
  ultimately show ?thesis by (intro Min_eqI [symmetric]) auto
qed

lemma sort_last_Max: "l \<noteq> [] \<Longrightarrow> sort l ! (length l - 1) = Max (set (l::rat list))"
proof -
  assume l: "l \<noteq> []"
  have "x \<le> sort l ! (length l - 1)" if x: "x \<in> set l" for x
  proof -
    obtain k where "k < length l" "x = sort l ! k"
      using x by (metis in_set_conv_nth length_sort set_sort)
    then show ?thesis by (simp add: sorted_nth_mono)
  qed
  moreover have "sort l ! (length l - 1) \<in> set l" using l nth_mem [of "length l - 1" "sort l"] by simp
  ultimately show ?thesis by (intro Max_eqI [symmetric]) auto
qed

text \<open>The quantiles at 0 and 1 are the minimum and the maximum.\<close>

lemma quantile_ends:
  assumes "l \<noteq> []"
  shows "quantile l 0 = Inr (Min (set l)) \<and> quantile l 1 = Inr (Max (set l))"
proof
  let ?n = "int (length l)"
  have n: "0 < ?n" using assms by simp
  show "quantile l 0 = Inr (Min (set l))"
  proof (cases "length l = 1")
    case True
    moreover have "sort l \<noteq> []" using True by (metis length_0_conv length_sort zero_neq_one)
    ultimately show ?thesis using sort_hd_Min [OF assms] by (auto simp: quantile_def py_trunc_def py_index_def Let_def)
  next
    case False
    then show ?thesis
      using sort_hd_Min [OF assms] assms by (auto simp: quantile_def py_trunc_def py_index_def Let_def)
  qed
  show "quantile l 1 = Inr (Max (set l))"
  proof -
    have "nat (?n - 1) = length l - 1" by simp
    then show ?thesis
      using sort_last_Max [OF assms] n by (simp add: quantile_def py_trunc_def py_index_def Let_def)
  qed
qed

lemma quantile_empty: "quantile [] p = Inl IndexError"
  by (simp add: quantile_def Let_def)

text \<open>
  For a non-empty list and a proportion in \<open>[0, 1]\<close>, \<^verbatim>\<open>quantile\<close> indexes within the
  list and returns a value between its minimum and its maximum.
\<close>

theorem quantile_bounds:
  assumes "l \<noteq> []" and "0 \<le> p" and "p \<le> 1"
  shows "\<exists>q. quantile l p = Inr q \<and> Min (set l) \<le> q \<and> q \<le> Max (set l)"
  using quantile_between [OF assms] .

theorem quantile_bounds_witness:
  "\<exists>q. quantile [4, 1, 3] (1 / 4) = Inr q \<and> Min (set [4, 1, 3]) \<le> q \<and> q \<le> Max (set [4, 1, 3])"
  by (rule quantile_bounds) simp_all

lemma trim_py_sound:
  assumes "l \<noteq> []"
  shows "\<exists>t. trim_py l = Inr t \<and> sorted t \<and> set t \<subseteq> set l"
proof -
  have ne: "sort l \<noteq> []"
    using assms by (metis length_0_conv length_sort)
  obtain q1 q3 where "quantile (sort l) (1 / 4) = Inr q1" "quantile (sort l) (3 / 4) = Inr q3"
    using quantile_between [OF ne, of "1 / 4"] quantile_between [OF ne, of "3 / 4"] by auto
  moreover have "\<exists>m. trim_median (sort l) = Inr m"
  proof -
    have "1 \<le> length l" using assms by (simp add: Suc_leI)
    then have "0 \<le> int (length l) div 2" "int (length l) div 2 < int (length l)"
      and "even (length l) \<Longrightarrow> 1 \<le> int (length l) div 2" by presburger+
    then have "trim_median (sort l) =
        Inr (if even (length l)
             then (sort l ! nat (int (length l) div 2) + sort l ! nat (int (length l) div 2 - 1)) / 2
             else sort l ! nat (int (length l) div 2))"
      by (auto simp: trim_median_def py_index_nonneg Let_def)
    then show ?thesis ..
  qed
  ultimately show ?thesis
    by (auto simp: trim_py_def Let_def sorted_wrt_filter)
qed

section \<open>Common affixes and rotations\<close>

lemma lcp_Cons_drop:
  assumes "i < length s1" and "i < length s2"
  shows "longest_common_prefix (drop i s1) (drop i s2) =
    (if s1 ! i = s2 ! i then s1 ! i # longest_common_prefix (drop (Suc i) s1) (drop (Suc i) s2) else [])"
  using assms by (simp flip: Cons_nth_drop_Suc)

lemma lcp_Nil_right: "longest_common_prefix xs [] = []"
  by (cases xs) auto

lemma prefix_loop_lcp:
  "i + k = min (length s1) (length s2) \<Longrightarrow>
   prefix_loop k i s1 s2 = longest_common_prefix (drop i s1) (drop i s2)"
proof (induction k arbitrary: i)
  case 0
  then have "drop i s1 = [] \<or> drop i s2 = []" by auto
  then show ?case by (auto simp: lcp_Nil_right)
next
  case (Suc k)
  then show ?case by (simp add: lcp_Cons_drop)
qed

lemma suffix_loop_prefix_loop:
  "i + k = min (length s1) (length s2) \<Longrightarrow>
   suffix_loop k (Suc i) s1 s2 = prefix_loop k i (rev s1) (rev s2)"
  by (induction k arbitrary: i) (auto simp: rev_nth)

lemma find_common_fixes_lcp:
  "find_common_fixes s1 s2 =
     (longest_common_prefix s1 s2, rev (longest_common_prefix (rev s1) (rev s2)))"
  using suffix_loop_prefix_loop [of 0 "min (length s1) (length s2)" s1 s2]
  by (simp add: find_common_fixes_def prefix_loop_lcp Let_def)

text \<open>
  \<^verbatim>\<open>find_common_fixes\<close> returns the longest common prefix and the longest common
  suffix of the two strings.
\<close>

theorem find_common_fixes_longest:
  assumes "find_common_fixes s1 s2 = (pre, suf)"
  shows "prefix pre s1 \<and> prefix pre s2 \<and> (\<forall>p. prefix p s1 \<longrightarrow> prefix p s2 \<longrightarrow> prefix p pre) \<and>
         suffix suf s1 \<and> suffix suf s2 \<and> (\<forall>p. suffix p s1 \<longrightarrow> suffix p s2 \<longrightarrow> suffix p suf)"
proof -
  have eq: "pre = longest_common_prefix s1 s2" "suf = rev (longest_common_prefix (rev s1) (rev s2))"
    using assms by (auto simp: find_common_fixes_lcp)
  show ?thesis
    unfolding eq
    by (simp add: longest_common_prefix_prefix1 longest_common_prefix_prefix2
        longest_common_prefix_max_prefix suffix_to_prefix)
qed

theorem find_common_fixes_longest_witness:
  "find_common_fixes ''abcelephantdef'' ''abccowdef'' = (''abc'', ''def'') \<and>
   prefix ''abc'' ''abcelephantdef'' \<and> suffix ''def'' ''abccowdef''"
proof -
  have e: "find_common_fixes ''abcelephantdef'' ''abccowdef'' = (''abc'', ''def'')" by code_simp
  show ?thesis using e find_common_fixes_longest [OF e] by blast
qed

lemma double_slice:
  assumes "i < length xs"
  shows "py_slice (xs @ xs) (Some (int i)) (Some (int (i + length xs))) = rotate i xs"
proof -
  have "py_slice (xs @ xs) (Some (int i)) (Some (int (i + length xs))) =
      take (nat (int (i + length xs)) - nat (int i)) (drop (nat (int i)) (xs @ xs))"
    by (rule py_slice_between) simp_all
  also have "\<dots> = take (length xs) (drop i (xs @ xs))"
    by (simp only: nat_int diff_add_inverse)
  also have "\<dots> = rotate i xs"
    using assms by (simp add: rotate_drop_take)
  finally show ?thesis .
qed

lemma is_rotated_decides:
  "is_rotated seq1 seq2 =
     (if seq1 = [] \<and> seq2 = [] then Inl IndexError else Inr (\<exists>k. seq2 = rotate k seq1))"
proof (cases "length seq1 = length seq2 \<and> seq1 \<noteq> []")
  case False
  then show ?thesis by (auto simp: is_rotated_def)
next
  case True
  let ?n = "length seq1"
  have ne: "seq2 \<noteq> []" using True by auto
  have hd: "py_index seq2 0 = Inr (hd seq2)"
    using ne by (simp add: py_index_def hd_conv_nth)
  have "is_rotated seq1 seq2 =
      Inr (\<exists>i < ?n. seq1 ! i = hd seq2 \<and> rotate i seq1 = seq2)"
  proof -
    have "is_rotated seq1 seq2 = Inr (list_ex (\<lambda>i.
        py_slice (seq1 @ seq1) (Some (int i)) (Some (int (i + ?n))) = seq2)
        (filter (\<lambda>i. seq1 ! i = hd seq2) [0..<?n]))"
      using True by (simp only: is_rotated_def Let_def hd rbind_simps) simp
    also have "list_ex (\<lambda>i. py_slice (seq1 @ seq1) (Some (int i)) (Some (int (i + ?n))) = seq2)
        (filter (\<lambda>i. seq1 ! i = hd seq2) [0..<?n]) \<longleftrightarrow>
        (\<exists>i < ?n. seq1 ! i = hd seq2 \<and> rotate i seq1 = seq2)"
      by (auto simp: list_ex_iff double_slice simp del: of_nat_add)
    finally show ?thesis .
  qed
  also have "(\<exists>i < ?n. seq1 ! i = hd seq2 \<and> rotate i seq1 = seq2) \<longleftrightarrow> (\<exists>k. seq2 = rotate k seq1)"
  proof
    assume "\<exists>k. seq2 = rotate k seq1"
    then obtain k where k: "seq2 = rotate (k mod ?n) seq1" by (metis rotate_conv_mod)
    moreover have lt: "k mod ?n < ?n"
      using True by (metis length_greater_0_conv mod_less_divisor)
    moreover have "hd (rotate (k mod ?n) seq1) = seq1 ! (k mod ?n)"
      using True lt by (simp add: hd_rotate_conv_nth)
    ultimately show "\<exists>i < ?n. seq1 ! i = hd seq2 \<and> rotate i seq1 = seq2" by metis
  qed auto
  finally show ?thesis using True by simp
qed

text \<open>
  \<^verbatim>\<open>is_rotated\<close> decides whether one sequence is a rotation of the other, except on
  two empty sequences, where reading the head item raises \<^verbatim>\<open>IndexError\<close>.
\<close>

theorem is_rotated_iff:
  "is_rotated seq1 seq2 =
     (if seq1 = [] \<and> seq2 = [] then Inl IndexError else Inr (\<exists>k. seq2 = rotate k seq1))"
  by (rule is_rotated_decides)

section \<open>Grids\<close>

text \<open>Rounding to the nearest multiple is off by at most half the grid.\<close>

lemma round_grid_nearest:
  assumes "0 < grid"
  shows "\<exists>k. round_grid val grid 0 = Inr (k * grid) \<and> 2 * \<bar>k * grid - val\<bar> \<le> grid"
proof -
  let ?m = "val mod grid"
  have m: "0 \<le> ?m" "?m < grid" using assms by auto
  have v: "val = val div grid * grid + ?m" by simp
  show ?thesis
  proof (cases "2 * ?m \<ge> grid")
    case True
    then have "round_grid val grid 0 = Inr ((val div grid + 1) * grid)"
      using assms by (simp add: round_grid_def Let_def)
    moreover have "(val div grid + 1) * grid - val = grid - ?m"
      using v by (simp add: algebra_simps)
    ultimately show ?thesis using True m by (intro exI [of _ "val div grid + 1"]) auto
  next
    case False
    then have "round_grid val grid 0 = Inr (val div grid * grid)"
      using assms by (simp add: round_grid_def Let_def)
    moreover have "val div grid * grid - val = - ?m" using v by linarith
    ultimately show ?thesis using False m by (intro exI [of _ "val div grid"]) auto
  qed
qed

text \<open>
  Rounding down and up bracket a value that is off the grid by adjacent multiples;
  on a value that is on the grid already both directed modes raise, since no branch
  assigns \<^verbatim>\<open>add_one\<close>.
\<close>

theorem round_grid_directed:
  assumes "0 < grid"
  shows "(grid dvd val \<longrightarrow> round_grid val grid 1 = Inl UnboundLocalError \<and> round_grid val grid (- 1) = Inl UnboundLocalError) \<and>
         (\<not> grid dvd val \<longrightarrow>
            (\<exists>k. round_grid val grid (- 1) = Inr (k * grid) \<and> round_grid val grid 1 = Inr ((k + 1) * grid) \<and>
                 k * grid < val \<and> val < (k + 1) * grid))"
proof -
  have v: "val = val div grid * grid + val mod grid" by simp
  have m: "0 \<le> val mod grid" "val mod grid < grid" using assms by auto
  show ?thesis
  proof (cases "grid dvd val")
    case True
    then have "val mod grid = 0" by simp
    then show ?thesis using True assms by (simp add: round_grid_def Let_def)
  next
    case False
    then have "val mod grid \<noteq> 0" by (simp add: dvd_eq_mod_eq_0)
    moreover from this have "val div grid * grid < val" "val < (val div grid + 1) * grid"
      using v m distrib_right [of "val div grid" 1 grid] by linarith+
    ultimately show ?thesis
      using False assms by (auto simp: round_grid_def Let_def)
  qed
qed

theorem round_grid_directed_witness:
  "round_grid 10 5 1 = Inl UnboundLocalError \<and>
   (\<exists>k. round_grid 7 5 (- 1) = Inr (k * 5) \<and> round_grid 7 5 1 = Inr ((k + 1) * 5) \<and> k * 5 < 7 \<and> 7 < (k + 1) * 5)"
  using round_grid_directed [of 5 10] round_grid_directed [of 5 7] by simp

section \<open>Arguments\<close>

definition is_option :: "string \<Rightarrow> bool" where
  "is_option arg \<longleftrightarrow> starts_with arg ''-''"

definition option_parts :: "string \<Rightarrow> string list" where
  "option_parts arg = split_on (CHR ''='') (dropWhile (\<lambda>c. c = CHR ''-'') arg)"

definition option_value :: "string \<Rightarrow> arg_value" where
  "option_value arg = (if length (option_parts arg) = 2 then ArgStr (option_parts arg ! 1) else ArgNone)"

lemma get_args_loop:
  "foldl get_args_step (d, args) argv =
     (foldl (\<lambda>d a. dict_set d (hd (option_parts a)) (option_value a)) d (filter is_option argv),
      args @ filter (\<lambda>a. \<not> is_option a) argv)"
  by (induction argv arbitrary: d args)
     (auto simp: get_args_step_def is_option_def option_parts_def option_value_def Let_def)

text \<open>
  The entry \<^verbatim>\<open>args\<close> lists the arguments without a dash in order; any other option
  reads back the value of its last occurrence, which is \<^verbatim>\<open>None\<close> unless the argument
  has exactly one equals sign.
\<close>

lemma get_args_spec:
  "dict_get (get_args argv) ''args'' = Some (ArgList (filter (\<lambda>a. \<not> is_option a) argv)) \<and>
   (\<forall>pre a post. filter is_option argv = pre @ a # post \<longrightarrow> hd (option_parts a) \<noteq> ''args'' \<longrightarrow>
      hd (option_parts a) \<notin> hd ` option_parts ` set post \<longrightarrow>
      dict_get (get_args argv) (hd (option_parts a)) = Some (option_value a))"
  by (auto simp: get_args_def get_args_loop pydict.get_fill_last [where f = "\<lambda>a. hd (option_parts a)"] image_image
      simp del: foldl_append)

section \<open>Float ranges\<close>

lemma float_range_loop_returns:
  fixes stop :: "'a::linorder"
  assumes "\<not> ((\<lambda>x. fadd x step) ^^ m) cur < stop"
    and "\<forall>k < m. ((\<lambda>x. fadd x step) ^^ k) cur < stop"
  shows "float_range_loop fadd cur stop step l = Some (l @ map (\<lambda>k. ((\<lambda>x. fadd x step) ^^ k) cur) [0..<m])"
  using assms
proof (induction m arbitrary: cur l)
  case 0
  then show ?case by (subst float_range_loop.simps) simp
next
  case (Suc m)
  have sw: "((\<lambda>x. fadd x step) ^^ k) (fadd cur step) = ((\<lambda>x. fadd x step) ^^ Suc k) cur" for k
    using funpow_swap1 [of "\<lambda>x. fadd x step" k cur] by simp
  have "float_range_loop fadd (fadd cur step) stop step (l @ [cur])
        = Some ((l @ [cur]) @ map (\<lambda>k. ((\<lambda>x. fadd x step) ^^ k) (fadd cur step)) [0..<m])"
    by (rule Suc.IH) (use Suc.prems in \<open>auto simp only: sw Suc_less_eq\<close>)
  moreover have "cur < stop" using Suc.prems(2) by (auto dest: spec [of _ 0])
  moreover have "[0..<Suc m] = 0 # map Suc [0..<m]"
    by (simp add: map_Suc_upt upt_conv_Cons)
  ultimately show ?case
    by (subst float_range_loop.simps) (simp add: sw comp_def del: funpow.simps)
qed

end
