(* ===== verification/Topsort_Correct.thy ===== *)
theory Topsort_Correct
  imports Topsort Rad_Util_Correct
begin

text \<open>
  Correctness of \<^verbatim>\<open>topsort.py\<close>: both sorts list every item after its parents and
  report a cycle exactly when there is one; the levels are the tightest ones; the
  cycle search terminates and lists the simple cycles up to rotation.  The proofs
  relate the dictionaries to the pairs they were built from (\<open>counts_ok\<close>,
  \<open>kids_ok\<close>), given the set of items already sorted.
\<close>

section \<open>Vocabulary\<close>

definition nodes :: "('a \<times> 'a) list \<Rightarrow> 'a set" where
  "nodes ps = fst ` set ps \<union> snd ` set ps"

text \<open>The children of a node, with repetitions, in the order of the pairs.\<close>

definition kids_of :: "('a \<times> 'a) list \<Rightarrow> 'a \<Rightarrow> 'a list" where
  "kids_of ps x = map snd (filter (\<lambda>e. fst e = x) ps)"

text \<open>How many pairs lead to a node from parents outside of \<open>D\<close>.\<close>

definition indeg :: "('a \<times> 'a) list \<Rightarrow> 'a set \<Rightarrow> 'a \<Rightarrow> nat" where
  "indeg ps D x = length (filter (\<lambda>e. snd e = x \<and> fst e \<notin> D) ps)"

lemma edge_nodes: "(p, c) \<in> set ps \<Longrightarrow> p \<in> nodes ps \<and> c \<in> nodes ps"
  by (force simp: nodes_def)

lemma nodes_simps [simp]:
  "nodes [] = {}" "nodes (qs @ [(p, c)]) = nodes qs \<union> {p, c}"
  by (auto simp: nodes_def)

lemma kids_of_snoc [simp]: "kids_of (qs @ [(p, c)]) x = kids_of qs x @ (if p = x then [c] else [])"
  by (simp add: kids_of_def)

lemma indeg_snoc [simp]:
  "indeg (qs @ [(p, c)]) D x = indeg qs D x + (if c = x \<and> p \<notin> D then 1 else 0)"
  by (simp add: indeg_def)

lemma indeg_Nil [simp]: "indeg [] D x = 0"
  by (simp add: indeg_def)

lemma kids_of_Nil [simp]: "kids_of [] x = []"
  by (simp add: kids_of_def)

lemma indeg_zero_iff: "indeg ps D x = 0 \<longleftrightarrow> (\<forall>p. (p, x) \<in> set ps \<longrightarrow> p \<in> D)"
  by (auto simp: indeg_def filter_empty_conv)

lemma indeg_outside: "x \<notin> nodes ps \<Longrightarrow> indeg ps D x = 0"
  by (auto simp: indeg_zero_iff nodes_def image_iff)

lemma kids_of_set: "set (kids_of ps x) = {c. (x, c) \<in> set ps}"
  by (force simp: kids_of_def)

lemma kids_of_nodes: "c \<in> set (kids_of ps x) \<Longrightarrow> c \<in> nodes ps"
  by (force simp: kids_of_set nodes_def)

lemma indeg_insert:
  "p \<notin> D \<Longrightarrow> indeg ps D x = indeg ps (insert p D) x + count_list (kids_of ps p) x"
proof (induction ps rule: rev_induct)
  case Nil
  then show ?case by simp
next
  case (snoc e ps)
  then show ?case by (cases e) auto
qed

section \<open>The tables\<close>

lemma finite_nodes [simp]: "finite (nodes ps)"
  by (simp add: nodes_def)

definition counts_ok :: "('a \<times> 'a) list \<Rightarrow> 'a set \<Rightarrow> 'a counts \<Rightarrow> bool" where
  "counts_ok ps D np \<longleftrightarrow> is_dict np \<and>
     (\<forall>x. dict_get np x = (if x \<in> nodes ps - D then Some (int (indeg ps D x)) else None))"

definition kids_ok :: "('a \<times> 'a) list \<Rightarrow> 'a set \<Rightarrow> 'a kids \<Rightarrow> bool" where
  "kids_ok ps D ch \<longleftrightarrow> (\<forall>x. dict_get ch x = (if x \<in> D \<or> kids_of ps x = [] then None else Some (kids_of ps x)))"

lemma count_pairs_ok:
  "\<exists>np ch. count_pairs ps = Inr (np, ch) \<and> counts_ok ps {} np \<and> kids_ok ps {} ch"
proof (induction ps rule: rev_induct)
  case Nil
  then show ?case by (simp add: count_pairs_def counts_ok_def kids_ok_def)
next
  case (snoc e ps)
  obtain p c where e: "e = (p, c)" by fastforce
  from snoc obtain np ch where IH: "count_pairs ps = Inr (np, ch)" "counts_ok ps {} np" "kids_ok ps {} ch"
    by blast
  define np1 where "np1 = (if dict_get np p = None then dict_set np p 0 else np)"
  define np2 where "np2 = (if dict_get np1 c = None then dict_set np1 c 0 else np1)"
  have get: "dict_get np2 x = (if x \<in> nodes ps \<union> {p, c} then Some (int (indeg ps {} x)) else None)" for x
    using IH(2) by (auto simp: np1_def np2_def counts_ok_def indeg_outside)
  have d: "is_dict np2" using IH(2) by (auto simp: np1_def np2_def counts_ok_def)
  have kid: "(case dict_get ch p of None \<Rightarrow> [] | Some cs \<Rightarrow> cs) = kids_of ps p"
    using IH(3) by (auto simp: kids_ok_def)
  let ?np3 = "dict_set np2 c (int (indeg ps {} c) + 1)"
  let ?ch3 = "dict_set ch p (kids_of ps p @ [c])"
  have "count_pairs (ps @ [e]) = count_pair (np, ch) (p, c)"
    using IH(1) by (simp add: count_pairs_def foldM_append e split: sum.splits)
      (auto simp: rbind_def split: sum.splits)
  also have "\<dots> = Inr (?np3, ?ch3)"
    unfolding count_pair_def Let_def prod.case kid np1_def [symmetric] np2_def [symmetric]
    using get [of c] by (simp add: dict_lookup_Some)
  finally have "count_pairs (ps @ [e]) = Inr (?np3, ?ch3)" .
  moreover have "counts_ok (ps @ [e]) {} ?np3"
    using d get by (auto simp: counts_ok_def e)
  moreover have "kids_ok (ps @ [e]) {} ?ch3"
    using IH(3) by (auto simp: kids_ok_def e)
  ultimately show ?case by blast
qed

section \<open>\<^verbatim>\<open>topsort\<close>\<close>

text \<open>Every item is listed after all of its parents.\<close>

definition in_order :: "('a \<times> 'a) list \<Rightarrow> 'a list \<Rightarrow> bool" where
  "in_order ps xs \<longleftrightarrow> (\<forall>us c vs. xs = us @ c # vs \<longrightarrow> (\<forall>p. (p, c) \<in> set ps \<longrightarrow> p \<in> set us))"

lemma in_order_Nil [simp]: "in_order ps []"
  by (simp add: in_order_def)

lemma in_order_append:
  assumes "in_order ps xs" and "\<And>p c. c \<in> set ys \<Longrightarrow> (p, c) \<in> set ps \<Longrightarrow> p \<in> set xs"
  shows "in_order ps (xs @ ys)"
  unfolding in_order_def
proof (intro allI impI)
  fix us c vs p
  assume split: "xs @ ys = us @ c # vs" and pc: "(p, c) \<in> set ps"
  show "p \<in> set us"
  proof (cases "length us < length xs")
    case True
    then obtain ws where "xs = us @ ws" "ws \<noteq> []" "ws @ ys = c # vs"
      using split by (auto simp: append_eq_append_conv2)
    then have "\<exists>ws. xs = us @ c # ws" by (cases ws) auto
    with assms(1) pc show ?thesis by (auto simp: in_order_def)
  next
    case False
    then obtain ws where "us = xs @ ws" "ys = ws @ c # vs"
      using split by (auto simp: append_eq_append_conv2)
    with assms(2) pc show ?thesis by auto
  qed
qed

lemma knock_down_correct:
  assumes "\<forall>x \<in> set cs. \<exists>n. dict_get np x = Some n \<and> int (count_list cs x) \<le> n" and "is_dict np"
  shows "\<exists>np' added. knock_down cs np grown = Inr (np', grown @ added) \<and> is_dict np' \<and>
    (\<forall>x. dict_get np' x = map_option (\<lambda>n. n - int (count_list cs x)) (dict_get np x)) \<and>
    distinct added \<and> set added = {x \<in> set cs. dict_get np x = Some (int (count_list cs x))}"
  using assms
proof (induction cs arbitrary: np grown)
  case Nil
  then show ?case by (simp add: option.map_ident)
next
  case (Cons c cs)
  from Cons.prems(1) obtain n where n: "dict_get np c = Some n" "1 + int (count_list cs c) \<le> n" by auto
  let ?np = "dict_set np c (n - 1)"
  let ?g = "if n - 1 = 0 then grown @ [c] else grown"
  have pre: "\<forall>x \<in> set cs. \<exists>m. dict_get ?np x = Some m \<and> int (count_list cs x) \<le> m"
    using Cons.prems(1) n by (auto split: if_splits)
  obtain np' added where IH: "knock_down cs ?np ?g = Inr (np', ?g @ added)" "is_dict np'"
      "\<And>x. dict_get np' x = map_option (\<lambda>n. n - int (count_list cs x)) (dict_get ?np x)"
      "distinct added" "set added = {x \<in> set cs. dict_get ?np x = Some (int (count_list cs x))}"
    using Cons.IH [OF pre, of ?g] Cons.prems(2) by blast
  let ?added = "(if n = 1 then [c] else []) @ added"
  have eq: "knock_down (c # cs) np grown = Inr (np', grown @ ?added)"
    using IH(1) n(1) by (auto simp: dict_lookup_Some Let_def)
  have get: "dict_get np' x = map_option (\<lambda>n. n - int (count_list (c # cs) x)) (dict_get np x)" for x
    using IH(3) [of x] n by auto
  have fresh: "c \<notin> set cs" if "n = 1"
    using n(2) that by (metis add_le_same_cancel1 count_list_0_iff of_nat_0 of_nat_le_0_iff)
  have "distinct ?added"
    using IH(4,5) fresh by auto
  moreover have "set ?added = {x \<in> set (c # cs). dict_get np x = Some (int (count_list (c # cs) x))}"
    unfolding set_append IH(5) using n fresh by (auto split: if_splits simp: count_list_0_iff)
  ultimately show ?case using eq get IH(2) by blast
qed

definition ts_inv :: "('a \<times> 'a) list \<Rightarrow> 'a list \<Rightarrow> 'a list \<Rightarrow> 'a counts \<Rightarrow> 'a kids \<Rightarrow> bool" where
  "ts_inv ps ready pending np ch \<longleftrightarrow>
     distinct (ready @ pending) \<and> set (ready @ pending) \<subseteq> nodes ps \<and> in_order ps (ready @ pending) \<and>
     counts_ok ps (set ready) np \<and> kids_ok ps (set ready) ch \<and>
     (\<forall>x \<in> nodes ps - set ready. x \<in> set pending \<longleftrightarrow> indeg ps (set ready) x = 0)"

lemma ts_step:
  assumes inv: "ts_inv ps ready (parent # pending) np ch"
  shows "\<exists>np' ch' added. ts_inv ps (ready @ [parent]) (pending @ added) np' ch' \<and>
     topsort_loop ready (parent # pending) np ch = topsort_loop (ready @ [parent]) (pending @ added) np' ch'"
proof -
  let ?D = "set ready" and ?D' = "set (ready @ [parent])"
  let ?cs = "kids_of ps parent"
  have D': "?D' = insert parent ?D" by simp
  have par: "parent \<in> nodes ps" "parent \<notin> ?D" and zero: "indeg ps ?D parent = 0"
    using inv by (auto simp: ts_inv_def)
  have step: "indeg ps ?D x = indeg ps ?D' x + count_list ?cs x" for x
    unfolding D' by (rule indeg_insert [OF par(2)])
  have self: "parent \<notin> set ?cs"
    using step [of parent] zero by (simp add: count_list_0_iff)
  have np: "is_dict np" "\<And>x. dict_get np x = (if x \<in> nodes ps - ?D then Some (int (indeg ps ?D x)) else None)"
    and ch: "\<And>x. dict_get ch x = (if x \<in> ?D \<or> kids_of ps x = [] then None else Some (kids_of ps x))"
    using inv by (auto simp: ts_inv_def counts_ok_def kids_ok_def)
  have kids: "x \<notin> ?D" if "x \<in> set ?cs" for x
  proof
    assume "x \<in> ?D"
    then obtain us vs where "ready = us @ x # vs" by (auto simp: in_set_conv_decomp)
    moreover have "(parent, x) \<in> set ps" using that by (simp add: kids_of_set)
    ultimately have "parent \<in> set us"
      using inv by (auto simp: ts_inv_def in_order_def)
    with \<open>ready = us @ x # vs\<close> par(2) show False by simp
  qed
  let ?np = "dict_remove np parent"
  have del: "dict_del np parent = Inr ?np"
    using np(2) [of parent] par by (simp add: domI)
  have pre: "\<forall>x \<in> set ?cs. \<exists>n. dict_get ?np x = Some n \<and> int (count_list ?cs x) \<le> n"
    using np(2) kids kids_of_nodes [of _ ps parent] self step by fastforce
  obtain np' added where kd: "knock_down ?cs ?np [] = Inr (np', added)" "is_dict np'"
      "\<And>x. dict_get np' x = map_option (\<lambda>n. n - int (count_list ?cs x)) (dict_get ?np x)"
      "distinct added" "set added = {x \<in> set ?cs. dict_get ?np x = Some (int (count_list ?cs x))}"
    using knock_down_correct [OF pre, of "[]"] np(1) by (auto intro: is_dict_remove)
  have added: "x \<in> set added \<longleftrightarrow> x \<in> set ?cs \<and> indeg ps ?D' x = 0" for x
    using kd(5) np(2) [of x] kids [of x] kids_of_nodes [of x ps parent] self step [of x] by auto
  have counts: "counts_ok ps ?D' np'"
    unfolding counts_ok_def using kd(2,3) np(2) step by (auto simp: D')
  have pend: "x \<in> set (pending @ added) \<longleftrightarrow> indeg ps ?D' x = 0" if "x \<in> nodes ps - ?D'" for x
  proof -
    have "x \<in> set pending \<longleftrightarrow> indeg ps ?D x = 0"
      using inv that by (auto simp: ts_inv_def)
    then show ?thesis
      using added [of x] step [of x] by (auto simp: count_list_0_iff)
  qed
  have disj: "x \<notin> set (ready @ parent # pending)" if "x \<in> set added" for x
  proof -
    from that have k: "x \<in> set ?cs" by (simp add: added)
    then have "indeg ps ?D x \<noteq> 0" using step [of x] by (simp add: count_list_0_iff)
    with k kids self inv kids_of_nodes [OF k] show ?thesis by (auto simp: ts_inv_def)
  qed
  have resp: "in_order ps ((ready @ parent # pending) @ added)"
  proof (rule in_order_append)
    show "in_order ps (ready @ parent # pending)" using inv by (simp add: ts_inv_def)
    fix p c assume "c \<in> set added" "(p, c) \<in> set ps"
    then have "p \<in> ?D'" using added indeg_zero_iff by metis
    then show "p \<in> set (ready @ parent # pending)" by auto
  qed
  have sub: "set added \<subseteq> nodes ps"
  proof
    fix x assume "x \<in> set added"
    then have "x \<in> set ?cs" by (simp add: added)
    then show "x \<in> nodes ps" by (rule kids_of_nodes)
  qed
  have inv': "ts_inv ps (ready @ [parent]) (pending @ added) np' ch'" if "kids_ok ps ?D' ch'" for ch'
    using inv counts that pend disj resp sub kd(4) unfolding ts_inv_def by auto
  show ?thesis
  proof (cases "?cs = []")
    case True
    with ch [of parent] par have none: "dict_get ch parent = None" by simp
    have "kids_ok ps ?D' ch" using ch True by (auto simp: kids_ok_def)
    moreover have "np' = ?np" "added = []" using kd(1) True by auto
    ultimately show ?thesis
      using inv' [of ch]
      by (intro exI [of _ np'] exI [of _ ch] exI [of _ added])
         (simp only: topsort_loop.simps del none sum.case option.case append_Nil2 simp_thms)
  next
    case False
    with ch [of parent] par have some: "dict_get ch parent = Some ?cs" by simp
    have "kids_ok ps ?D' (dict_remove ch parent)" using ch by (auto simp: kids_ok_def)
    then show ?thesis
      using inv'
      by (intro exI [of _ np'] exI [of _ "dict_remove ch parent"] exI [of _ added])
         (simp only: topsort_loop.simps del some kd(1) sum.case option.case prod.case simp_thms)
  qed
qed

lemma counts_ok_dom: "counts_ok ps D np \<Longrightarrow> dom (dict_get np) = nodes ps - D"
  by (auto simp: counts_ok_def split: if_splits)

lemma counts_ok_empty: "counts_ok ps D np \<Longrightarrow> np = [] \<longleftrightarrow> nodes ps \<subseteq> D"
  unfolding Diff_eq_empty_iff [symmetric] counts_ok_dom [symmetric] dom_dict_get by simp

text \<open>When every remaining item has a remaining parent, an acyclic list is exhausted.\<close>

lemma stuck_parent:
  assumes "indeg ps D x \<noteq> 0"
  shows "\<exists>p \<in> nodes ps - D. (p, x) \<in> set ps"
  using assms edge_nodes by (metis DiffI indeg_zero_iff)

lemma acyclic_exhausts:
  assumes "acyclic (set ps)" and "\<forall>x \<in> nodes ps - D. indeg ps D x \<noteq> 0"
  shows "nodes ps \<subseteq> D"
proof (rule ccontr)
  assume "\<not> nodes ps \<subseteq> D"
  then obtain x where x: "x \<in> nodes ps - D" by blast
  have "wf (set ps)" using assms(1) by (simp add: finite_acyclic_wf)
  then obtain z where "z \<in> nodes ps - D" "\<And>y. (y, z) \<in> set ps \<Longrightarrow> y \<notin> nodes ps - D"
    using x by (rule wfE_min) blast
  with assms(2) stuck_parent show False by metis
qed

lemma in_order_acyclic:
  assumes "in_order ps xs" and "nodes ps \<subseteq> set xs"
  shows "acyclic (set ps)"
proof -
  let ?f = "\<lambda>x. length (takeWhile (\<lambda>y. y \<noteq> x) xs)"
  have "(p, c) \<in> measure ?f" if pc: "(p, c) \<in> set ps" for p c
  proof -
    have "c \<in> set xs" using edge_nodes [OF pc] assms(2) by blast
    then obtain us vs where us: "xs = us @ c # vs" "c \<notin> set us"
      by (meson split_list_first)
    moreover have "p \<in> set us" using assms(1) pc us by (auto simp: in_order_def)
    then obtain as bs where "us = as @ p # bs" "p \<notin> set as" by (meson split_list_first)
    ultimately show ?thesis by (auto simp: takeWhile_append takeWhile_tail)
  qed
  then have "set ps \<subseteq> measure ?f" by auto
  then show ?thesis using wf_measure wf_acyclic wf_subset by metis
qed

lemma ts_end:
  assumes "ts_inv ps ready [] np ch"
  shows "topsort_loop ready [] np ch = (if acyclic (set ps) then Inr ready else Inl (CycleError ready np ch))"
    and "acyclic (set ps) \<Longrightarrow> set ready = nodes ps"
    and "\<forall>x \<in> dom (dict_get np). \<exists>p \<in> dom (dict_get np). (p, x) \<in> set ps"
proof -
  have c: "counts_ok ps (set ready) np" and ord: "in_order ps ready" "set ready \<subseteq> nodes ps"
    and pos: "\<forall>x \<in> nodes ps - set ready. indeg ps (set ready) x \<noteq> 0"
    using assms by (auto simp: ts_inv_def)
  show "\<forall>x \<in> dom (dict_get np). \<exists>p \<in> dom (dict_get np). (p, x) \<in> set ps"
    unfolding counts_ok_dom [OF c] using pos stuck_parent by metis
  have iff: "np = [] \<longleftrightarrow> acyclic (set ps)"
    using counts_ok_empty [OF c] acyclic_exhausts [OF _ pos] in_order_acyclic [OF ord(1)] by blast
  then show "acyclic (set ps) \<Longrightarrow> set ready = nodes ps"
    using counts_ok_empty [OF c] ord(2) by blast
  show "topsort_loop ready [] np ch = (if acyclic (set ps) then Inr ready else Inl (CycleError ready np ch))"
    using iff by simp
qed

lemma ts_loop:
  assumes "ts_inv ps ready pending np ch"
  shows "\<exists>xs np' ch'. ts_inv ps xs [] np' ch' \<and>
           topsort_loop ready pending np ch = topsort_loop xs [] np' ch'"
  using assms
proof (induction "card (nodes ps - set ready)" arbitrary: ready pending np ch rule: less_induct)
  case less
  show ?case
  proof (cases pending)
    case Nil
    with less.prems show ?thesis by blast
  next
    case (Cons parent rest)
    obtain np' ch' added where
      s: "ts_inv ps (ready @ [parent]) (rest @ added) np' ch'"
         "topsort_loop ready pending np ch = topsort_loop (ready @ [parent]) (rest @ added) np' ch'"
      by (metis Cons less.prems ts_step)
    have "parent \<in> nodes ps - set ready" using less.prems Cons by (auto simp: ts_inv_def)
    then have "card (nodes ps - set (ready @ [parent])) < card (nodes ps - set ready)"
      by (intro psubset_card_mono) auto
    from less.hyps [OF this s(1)] s(2) show ?thesis by auto
  qed
qed

lemma parentless_set:
  assumes "key_order ko" and "counts_ok ps D np"
  shows "set (parentless ko np) = {x \<in> nodes ps - D. indeg ps D x = 0}" and "distinct (parentless ko np)"
proof -
  have k: "set (ko (dict_keys np)) = dom (dict_get np)"
    using key_orderD(1) [OF assms(1)] by (simp add: dom_dict_get)
  show "set (parentless ko np) = {x \<in> nodes ps - D. indeg ps D x = 0}"
    using assms(2) k by (auto simp: parentless_def counts_ok_def split: if_splits)
  show "distinct (parentless ko np)"
    using assms(2) key_orderD(2) [OF assms(1), of "dict_keys np"] by (simp add: parentless_def counts_ok_def)
qed

lemma ts_init:
  assumes "key_order ko"
  shows "\<exists>np ch. count_pairs ps = Inr (np, ch) \<and> ts_inv ps [] (parentless ko np) np ch"
proof -
  obtain np ch where t: "count_pairs ps = Inr (np, ch)" "counts_ok ps {} np" "kids_ok ps {} ch"
    using count_pairs_ok by blast
  note pl = parentless_set [OF assms t(2)]
  have "in_order ps ([] @ parentless ko np)"
    by (rule in_order_append) (use pl in \<open>auto simp: indeg_zero_iff\<close>)
  then have "ts_inv ps [] (parentless ko np) np ch"
    using t pl by (auto simp: ts_inv_def)
  with t(1) show ?thesis by blast
qed

lemma topsort_run:
  assumes "key_order ko"
  shows "\<exists>xs np ch. ts_inv ps xs [] np ch \<and>
     topsort ko ps = (if acyclic (set ps) then Inr xs else Inl (CycleError xs np ch))"
proof -
  obtain np ch where i: "count_pairs ps = Inr (np, ch)" "ts_inv ps [] (parentless ko np) np ch"
    using ts_init [OF assms] by blast
  then obtain xs np' ch' where "ts_inv ps xs [] np' ch'"
      "topsort_loop [] (parentless ko np) np ch = topsort_loop xs [] np' ch'"
    using ts_loop by blast
  moreover from this have "topsort_loop xs [] np' ch' = (if acyclic (set ps) then Inr xs else Inl (CycleError xs np' ch'))"
    by (intro ts_end(1))
  ultimately show ?thesis
    using i(1) by (intro exI [of _ xs] exI [of _ np'] exI [of _ ch']) (simp add: topsort_def)
qed

text \<open>
  C1: on acyclic pairs \<^verbatim>\<open>topsort\<close> returns every item exactly once, each after all of
  its parents, whatever the order in which dictionary keys are enumerated.
\<close>

theorem topsort_correct:
  assumes "key_order ko" and "acyclic (set pairlist)"
  shows "\<exists>answer. topsort ko pairlist = Inr answer \<and> distinct answer \<and> set answer = nodes pairlist \<and>
                  in_order pairlist answer"
proof -
  obtain xs np ch where "ts_inv pairlist xs [] np ch" "topsort ko pairlist = Inr xs"
    using topsort_run [OF assms(1), of pairlist] assms(2) by auto
  moreover from this have "set xs = nodes pairlist"
    using ts_end(2) assms(2) by blast
  ultimately show ?thesis by (simp add: ts_inv_def)
qed

theorem topsort_correct_witness:
  "key_order (rev :: int list \<Rightarrow> int list) \<and> acyclic (set [(1, 2), (3, 4), (1, 3 :: int)]) \<and>
   (\<exists>answer. topsort rev [(1, 2), (3, 4), (1, 3 :: int)] = Inr answer \<and> distinct answer \<and>
      set answer = nodes [(1, 2), (3, 4), (1, 3)] \<and> in_order [(1, 2), (3, 4), (1, 3)] answer)"
proof -
  have k: "key_order (rev :: int list \<Rightarrow> _)" by (simp add: key_order_def)
  have "set [(1, 2), (3, 4), (1, 3 :: int)] \<subseteq> measure nat" by auto
  then have a: "acyclic (set [(1, 2), (3, 4), (1, 3 :: int)])"
    using wf_measure wf_acyclic wf_subset by metis
  show ?thesis using k a topsort_correct [OF k a] by blast
qed

text \<open>
  C28: on pairs with a cycle \<^verbatim>\<open>topsort\<close> raises \<^verbatim>\<open>CycleError\<close> and nothing else.  The
  reported answer is the part that could be sorted, and the reported table holds
  exactly the other items, each with a parent among them.
\<close>

theorem topsort_cycle:
  assumes "key_order ko" and "\<not> acyclic (set pairlist)"
  shows "\<exists>answer num_parents children.
     topsort ko pairlist = Inl (CycleError answer num_parents children) \<and> num_parents \<noteq> [] \<and>
     distinct answer \<and> in_order pairlist answer \<and>
     set (dict_keys num_parents) = nodes pairlist - set answer \<and>
     (\<forall>x \<in> set (dict_keys num_parents). \<exists>p \<in> set (dict_keys num_parents). (p, x) \<in> set pairlist)"
proof -
  obtain xs np ch where r: "ts_inv pairlist xs [] np ch" "topsort ko pairlist = Inl (CycleError xs np ch)"
    using topsort_run [OF assms(1), of pairlist] assms(2) by auto
  have dom: "set (dict_keys np) = nodes pairlist - set xs"
    unfolding dom_dict_get [symmetric]
    using r(1) by (simp only: ts_inv_def counts_ok_dom)
  have "topsort_loop xs [] np ch = Inl (CycleError xs np ch)"
    using ts_end(1) [OF r(1)] assms(2) by simp
  then have "np \<noteq> []" by auto
  moreover have "\<forall>x \<in> set (dict_keys np). \<exists>p \<in> set (dict_keys np). (p, x) \<in> set pairlist"
    using ts_end(3) [OF r(1), unfolded dom_dict_get] .
  moreover have "distinct xs \<and> in_order pairlist xs"
    using r(1) by (simp add: ts_inv_def)
  ultimately show ?thesis
    using r(2) dom by blast
qed

theorem topsort_cycle_witness:
  "\<exists>answer num_parents children.
     topsort (\<lambda>ks. ks) [(1, 2), (2, 3), (3, 2 :: int)] = Inl (CycleError answer num_parents children) \<and> num_parents \<noteq> [] \<and>
     distinct answer \<and> in_order [(1, 2), (2, 3), (3, 2)] answer \<and>
     set (dict_keys num_parents) = nodes [(1, 2), (2, 3), (3, 2)] - set answer \<and>
     (\<forall>x \<in> set (dict_keys num_parents). \<exists>p \<in> set (dict_keys num_parents). (p, x) \<in> set [(1, 2), (2, 3), (3, 2)])"
proof (rule topsort_cycle)
  have "(2, 2) \<in> (set [(1, 2), (2, 3), (3, 2 :: int)])\<^sup>+"
    by (rule trancl_trans [of _ 3]) auto
  then show "\<not> acyclic (set [(1, 2), (2, 3), (3, 2 :: int)])" by (auto simp: acyclic_def)
qed (simp add: key_order_def)

section \<open>\<^verbatim>\<open>topsort_levels\<close>\<close>

lemma foldM_decrement:
  assumes "set cs \<subseteq> dom (dict_get np)" and "is_dict np"
  shows "\<exists>np'. foldM decrement np cs = Inr np' \<and> is_dict np' \<and>
           (\<forall>x. dict_get np' x = map_option (\<lambda>n. n - int (count_list cs x)) (dict_get np x))"
  using assms
proof (induction cs arbitrary: np)
  case Nil
  then show ?case by (simp add: option.map_ident)
next
  case (Cons c cs)
  then obtain n where n: "dict_get np c = Some n" by auto
  let ?np = "dict_set np c (n - 1)"
  have "set cs \<subseteq> dom (dict_get ?np)" using Cons.prems(1) by auto
  then obtain np' where "foldM decrement ?np cs = Inr np'" "is_dict np'"
      "\<forall>x. dict_get np' x = map_option (\<lambda>n. n - int (count_list cs x)) (dict_get ?np x)"
    using Cons.IH Cons.prems(2) by blast
  moreover have "decrement np c = Inr ?np"
    using n by (simp add: decrement_def dict_lookup_Some)
  ultimately show ?case using n by (auto intro!: exI [of _ np'])
qed

text \<open>A set of items that holds the parents of its members.\<close>

definition closed_under :: "('a \<times> 'a) list \<Rightarrow> 'a set \<Rightarrow> bool" where
  "closed_under ps D \<longleftrightarrow> (\<forall>p c. (p, c) \<in> set ps \<longrightarrow> c \<in> D \<longrightarrow> p \<in> D)"

lemma indeg_mono_zero: "indeg ps D x = 0 \<Longrightarrow> D \<subseteq> D' \<Longrightarrow> indeg ps D' x = 0"
  by (auto simp: indeg_zero_iff)

lemma level_parent_step_ok:
  assumes "counts_ok ps D np" and "kids_ok ps D ch" and "closed_under ps D"
    and "x \<in> nodes ps - D" and "indeg ps D x = 0"
  shows "\<exists>np' ch'. level_parent_step (np, ch) x = Inr (np', ch') \<and>
           counts_ok ps (insert x D) np' \<and> kids_ok ps (insert x D) ch' \<and> closed_under ps (insert x D)"
proof -
  let ?cs = "kids_of ps x"
  have x: "x \<notin> D" and step: "indeg ps D y = indeg ps (insert x D) y + count_list ?cs y" for y
    using assms(4) indeg_insert by auto
  have kid: "c \<in> nodes ps - insert x D" if "c \<in> set ?cs" for c
  proof -
    have "(x, c) \<in> set ps" using that by (simp add: kids_of_set)
    then have "c \<notin> D" and "c \<noteq> x"
      using assms(3,5) x by (auto simp: closed_under_def indeg_zero_iff)
    with kids_of_nodes [OF that] show ?thesis by blast
  qed
  have closed: "closed_under ps (insert x D)"
    using assms(3,5) by (auto simp: closed_under_def indeg_zero_iff)
  let ?np = "dict_remove np x"
  have del: "dict_del np x = Inr ?np"
    unfolding dict_del_Inr counts_ok_dom [OF assms(1)] using assms(4) by simp
  have "set ?cs \<subseteq> dom (dict_get ?np)" "is_dict ?np"
    using kid assms(1) by (auto simp: counts_ok_def)
  then obtain np' where np': "foldM decrement ?np ?cs = Inr np'" "is_dict np'"
      "\<And>y. dict_get np' y = map_option (\<lambda>n. n - int (count_list ?cs y)) (dict_get ?np y)"
    using foldM_decrement by blast
  have counts: "counts_ok ps (insert x D) np'"
    unfolding counts_ok_def using np'(2,3) assms(1) step by (auto simp: counts_ok_def)
  show ?thesis
  proof (cases "?cs = []")
    case True
    then have "dict_get ch x = None" "np' = ?np"
      using assms(2) np'(1) by (auto simp: kids_ok_def)
    moreover have "kids_ok ps (insert x D) ch"
      using True assms(2) by (auto simp: kids_ok_def)
    moreover from calculation have "level_parent_step (np, ch) x = Inr (np', ch)"
      by (simp only: level_parent_step_def Let_def prod.case del rbind_simps option.case)
    ultimately show ?thesis using counts closed by blast
  next
    case False
    then have "dict_get ch x = Some ?cs" using assms(2) x by (simp add: kids_ok_def)
    then have "level_parent_step (np, ch) x = Inr (np', dict_remove ch x)"
      by (simp only: level_parent_step_def Let_def prod.case del rbind_simps option.case np'(1))
    moreover have "kids_ok ps (insert x D) (dict_remove ch x)"
      using assms(2) by (auto simp: kids_ok_def)
    ultimately show ?thesis using counts closed by blast
  qed
qed

lemma level_ok:
  assumes "counts_ok ps D np" and "kids_ok ps D ch" and "closed_under ps D"
    and "distinct xs" and "\<forall>x \<in> set xs. x \<in> nodes ps - D \<and> indeg ps D x = 0"
  shows "\<exists>np' ch'. foldM level_parent_step (np, ch) xs = Inr (np', ch') \<and>
     counts_ok ps (D \<union> set xs) np' \<and> kids_ok ps (D \<union> set xs) ch' \<and> closed_under ps (D \<union> set xs)"
  using assms
proof (induction xs arbitrary: D np ch)
  case Nil
  then show ?case by simp
next
  case (Cons x xs)
  then obtain np1 ch1 where s: "level_parent_step (np, ch) x = Inr (np1, ch1)"
      "counts_ok ps (insert x D) np1" "kids_ok ps (insert x D) ch1" "closed_under ps (insert x D)"
    using level_parent_step_ok [of ps D np ch x] by auto
  have "\<forall>y \<in> set xs. y \<in> nodes ps - insert x D \<and> indeg ps (insert x D) y = 0"
    using Cons.prems(4,5) by (auto intro: indeg_mono_zero)
  from Cons.IH [OF s(2-4) _ this] Cons.prems(4) s(1) show ?case by simp
qed

text \<open>
  What the generator yields, by recursion on the levels: each is the non-empty list of
  the remaining items without remaining parents, and it stops when there is none.
\<close>

fun levels_from :: "('a \<times> 'a) list \<Rightarrow> 'a set \<Rightarrow> 'a list list \<Rightarrow> bool" where
  "levels_from ps D [] \<longleftrightarrow> (\<forall>x \<in> nodes ps - D. indeg ps D x \<noteq> 0)"
| "levels_from ps D (l # ls) \<longleftrightarrow>
     l \<noteq> [] \<and> distinct l \<and> set l = {x \<in> nodes ps - D. indeg ps D x = 0} \<and> levels_from ps (D \<union> set l) ls"

lemma levels_core_from:
  assumes "key_order ko" and "counts_ok ps D np" and "kids_ok ps D ch" and "closed_under ps D"
    and "topsort_levels_core ko np ch = (ls, out)"
  shows "levels_from ps D ls \<and>
     (nodes ps \<subseteq> D \<union> set (concat ls) \<longrightarrow> out = None) \<and>
     (\<not> nodes ps \<subseteq> D \<union> set (concat ls) \<longrightarrow> (\<exists>np' ch'. out = Some (LevelsCycleError np' ch')))"
  using assms
proof (induction "length np" arbitrary: np ch D ls out rule: less_induct)
  case less
  let ?l = "parentless ko np"
  note l = parentless_set [OF assms(1) less.prems(2)]
  show ?case
  proof (cases "?l = []")
    case True
    then have "ls = []" "out = (if np \<noteq> [] then Some (LevelsCycleError np ch) else None)"
      using less.prems(5) by (auto simp: topsort_levels_core.simps [of ko np ch] Let_def)
    moreover have "\<forall>x \<in> nodes ps - D. indeg ps D x \<noteq> 0" using l(1) True by auto
    ultimately show ?thesis using counts_ok_empty [OF less.prems(2)] by auto
  next
    case False
    obtain np' ch' where s: "foldM level_parent_step (np, ch) ?l = Inr (np', ch')"
        "counts_ok ps (D \<union> set ?l) np'" "kids_ok ps (D \<union> set ?l) ch'" "closed_under ps (D \<union> set ?l)"
      using level_ok [OF less.prems(2-4) l(2)] l(1) by auto
    obtain ls' where ls': "topsort_levels_core ko np' ch' = (ls', out)" "ls = ?l # ls'"
      using less.prems(5) False s(1)
      by (auto simp: topsort_levels_core.simps [of ko np ch] Let_def split: prod.splits)
    have "length np' < length np"
      using foldM_level_length [OF s(1)] False by (cases ?l) auto
    from less.hyps [OF this assms(1) s(2-4) ls'(1)] ls'(2) l False show ?thesis
      by (simp add: Un_assoc)
  qed
qed

lemma levels_from_concat:
  "levels_from ps D ls \<Longrightarrow> distinct (concat ls) \<and> set (concat ls) \<subseteq> nodes ps - D \<and>
     (\<forall>x \<in> nodes ps - (D \<union> set (concat ls)). indeg ps (D \<union> set (concat ls)) x \<noteq> 0)"
proof (induction ls arbitrary: D)
  case Nil
  then show ?case by simp
next
  case (Cons l ls)
  then have l: "distinct l" "set l = {x \<in> nodes ps - D. indeg ps D x = 0}" and ls: "levels_from ps (D \<union> set l) ls"
    by auto
  from Cons.IH [OF ls] l show ?case by (auto simp: Un_assoc)
qed

lemma levels_from_parents:
  assumes "levels_from ps D ls" and "j < length ls" and "c \<in> set (ls ! j)" and "(p, c) \<in> set ps"
  shows "p \<in> D \<or> (\<exists>i < j. p \<in> set (ls ! i))"
  using assms
proof (induction ls arbitrary: D j)
  case Nil
  then show ?case by simp
next
  case (Cons l ls)
  show ?case
  proof (cases j)
    case 0
    with Cons.prems show ?thesis by (auto simp: indeg_zero_iff)
  next
    case (Suc k)
    then have "p \<in> D \<union> set l \<or> (\<exists>i < k. p \<in> set (ls ! i))"
      using Cons by auto
    then show ?thesis unfolding Suc by (auto intro: exI [of _ 0])
  qed
qed

lemma levels_from_tight:
  assumes "levels_from ps D ls" and "Suc j < length ls" and "c \<in> set (ls ! Suc j)"
  shows "\<exists>p \<in> set (ls ! j). (p, c) \<in> set ps"
  using assms
proof (induction ls arbitrary: D j)
  case Nil
  then show ?case by simp
next
  case (Cons l ls)
  show ?case
  proof (cases j)
    case (Suc k)
    with Cons show ?thesis by auto
  next
    case 0
    then obtain l' ls' where ls: "ls = l' # ls'" using Cons.prems(2) by (cases ls) auto
    have c: "c \<in> nodes ps - (D \<union> set l)" "indeg ps (D \<union> set l) c = 0"
      using Cons.prems(1,3) 0 ls by auto
    then have "indeg ps D c \<noteq> 0" using Cons.prems(1) by auto
    then obtain p where "(p, c) \<in> set ps" "p \<notin> D" by (auto simp: indeg_zero_iff)
    with c(2) have "p \<in> set l" by (auto simp: indeg_zero_iff)
    with \<open>(p, c) \<in> set ps\<close> 0 show ?thesis by auto
  qed
qed

lemma levels_from_in_order:
  "levels_from ps (set xs) ls \<Longrightarrow> in_order ps xs \<Longrightarrow> in_order ps (xs @ concat ls)"
proof (induction ls arbitrary: xs)
  case Nil
  then show ?case by simp
next
  case (Cons l ls)
  have "in_order ps (xs @ l)"
    by (rule in_order_append) (use Cons.prems in \<open>auto simp: indeg_zero_iff\<close>)
  moreover have "levels_from ps (set (xs @ l)) ls"
    using Cons.prems(1) unfolding levels_from.simps set_append by blast
  ultimately show ?case using Cons.IH [of "xs @ l"] by (simp only: append_assoc concat.simps)
qed

lemma levels_run:
  assumes "key_order ko" and "topsort_levels ko ps = (ls, out)"
  shows "levels_from ps {} ls" and "set (concat ls) = nodes ps \<longleftrightarrow> acyclic (set ps)"
    and "acyclic (set ps) \<Longrightarrow> out = None"
    and "\<not> acyclic (set ps) \<Longrightarrow> \<exists>np ch. out = Some (LevelsCycleError np ch)"
proof -
  obtain np ch where t: "count_pairs ps = Inr (np, ch)" "counts_ok ps {} np" "kids_ok ps {} ch"
    using count_pairs_ok by blast
  have c: "closed_under ps {}" by (simp add: closed_under_def)
  have core: "topsort_levels_core ko np ch = (ls, out)"
    using assms(2) t(1) by (simp add: topsort_levels_def)
  note run = levels_core_from [OF assms(1) t(2,3) c core]
  then show lf: "levels_from ps {} ls" by blast
  note cat = levels_from_concat [OF lf, simplified]
  have "in_order ps (concat ls)" using levels_from_in_order [of ps "[]" ls] lf by simp
  then have "acyclic (set ps)" if "nodes ps \<subseteq> set (concat ls)"
    using in_order_acyclic that by blast
  moreover have "nodes ps \<subseteq> set (concat ls)" if "acyclic (set ps)"
    by (rule acyclic_exhausts [OF that]) (use cat in auto)
  ultimately have iff: "nodes ps \<subseteq> set (concat ls) \<longleftrightarrow> acyclic (set ps)" by blast
  then show "set (concat ls) = nodes ps \<longleftrightarrow> acyclic (set ps)" using cat by auto
  show "acyclic (set ps) \<Longrightarrow> out = None"
    and "\<not> acyclic (set ps) \<Longrightarrow> \<exists>np ch. out = Some (LevelsCycleError np ch)"
    using run iff by auto
qed



section \<open>\<^verbatim>\<open>find_cycles\<close>\<close>

definition edge :: "'a kids \<Rightarrow> 'a \<Rightarrow> 'a \<Rightarrow> bool" where
  "edge pc x y \<longleftrightarrow> (\<exists>cs. dict_get pc x = Some cs \<and> y \<in> set cs)"

definition simple_path :: "'a kids \<Rightarrow> 'a list \<Rightarrow> bool" where
  "simple_path pc xs \<longleftrightarrow> xs \<noteq> [] \<and> distinct xs \<and> successively (edge pc) xs"

definition is_cycle :: "'a kids \<Rightarrow> 'a list \<Rightarrow> bool" where
  "is_cycle pc xs \<longleftrightarrow> simple_path pc xs \<and> edge pc (last xs) (hd xs)"

definition found :: "'a list list \<Rightarrow> 'a list \<Rightarrow> bool" where
  "found cycles c \<longleftrightarrow> (\<exists>other \<in> set cycles. \<exists>k. c = rotate k other)"

text \<open>The cycles yielded are cycles of the graph, and no later one is a rotation of an earlier one.\<close>

definition cycles_ok :: "'a kids \<Rightarrow> 'a list list \<Rightarrow> bool" where
  "cycles_ok pc cycles \<longleftrightarrow> (\<forall>c \<in> set cycles. is_cycle pc c) \<and>
     (\<forall>us c vs. cycles = us @ c # vs \<longrightarrow> \<not> found us c)"

lemma is_cycle_nonempty: "is_cycle pc c \<Longrightarrow> c \<noteq> []"
  by (simp add: is_cycle_def simple_path_def)

lemma is_dup_found:
  "\<forall>c \<in> set cycles. c \<noteq> [] \<Longrightarrow> is_dup cycles cycle = Inr (found cycles cycle)"
  by (induction cycles) (auto simp: is_rotated_decides found_def)

lemma cycles_ok_snoc:
  assumes "cycles_ok pc cycles" and "is_cycle pc c" and "\<not> found cycles c"
  shows "cycles_ok pc (cycles @ [c])"
  using assms unfolding cycles_ok_def
  by (auto simp: append_eq_append_conv2 append_eq_Cons_conv Cons_eq_append_conv) 

lemma found_mono: "found cycles c \<Longrightarrow> set cycles \<subseteq> set cycles' \<Longrightarrow> found cycles' c"
  by (auto simp: found_def)

lemma found_self: "c \<in> set cycles \<Longrightarrow> found cycles c"
  unfolding found_def by (metis rotate0 id_apply)

lemma found_rotate: "found cycles (rotate j c) \<Longrightarrow> found cycles c"
proof -
  assume "found cycles (rotate j c)"
  then obtain other k where o: "other \<in> set cycles" "rotate j c = rotate k other"
    by (auto simp: found_def)
  have "c = rotate (length c - j mod length c) (rotate j c)"
  proof (cases "c = []")
    case False
    define m q where mq: "m = j mod length c" "q = length c * (j div length c)"
    have "m \<le> length c" "j = q + m" using False by (simp_all add: mq)
    then have "length c - m + j = length c + q" by linarith
    then have "(length c - j mod length c + j) mod length c = 0" by (simp add: mq)
    then show ?thesis by (metis rotate_conv_mod rotate_rotate rotate0 id_apply)
  qed simp
  then have "c = rotate (length c - j mod length c + k) other"
    by (metis o(2) rotate_rotate)
  with o(1) show ?thesis by (auto simp: found_def)
qed

text \<open>Closing a path at one of its nodes gives a cycle.\<close>

lemma closing_cycle:
  assumes "simple_path pc path" and "child \<in> set path" and "edge pc (last path) child"
  shows "is_cycle pc (dropWhile (\<lambda>x. x \<noteq> child) path)"
proof -
  obtain us vs where path: "path = us @ child # vs" "child \<notin> set us"
    using assms(2) by (meson split_list_first)
  then have "dropWhile (\<lambda>x. x \<noteq> child) path = child # vs"
    by (simp add: dropWhile_append)
  then show ?thesis
    using assms path by (auto simp: is_cycle_def simple_path_def successively_append_iff)
qed

lemma children_loop:
  assumes "simple_path pc path" and "\<forall>c \<in> set children. edge pc (last path) c" and "cycles_ok pc cycles"
  shows "\<exists>cycles'. foldM (child_step path) (cycles, vis, paths) children =
       Inr (cycles', vis \<union> (set children - set path),
            rev (map (\<lambda>c. path @ [c]) (filter (\<lambda>c. c \<notin> set path) children)) @ paths) \<and>
     cycles_ok pc cycles' \<and> set cycles \<subseteq> set cycles' \<and>
     (\<forall>c \<in> set children \<inter> set path. found cycles' (dropWhile (\<lambda>x. x \<noteq> c) path))"
  using assms(2,3)
proof (induction children arbitrary: cycles vis paths)
  case Nil
  then show ?case by auto
next
  case (Cons c cs)
  show ?case
  proof (cases "c \<in> set path")
    case True
    let ?cyc = "dropWhile (\<lambda>x. x \<noteq> c) path"
    have cyc: "is_cycle pc ?cyc"
      using closing_cycle [OF assms(1) True] Cons.prems(1) by simp
    have dup: "is_dup cycles ?cyc = Inr (found cycles ?cyc)"
      using Cons.prems(2) is_cycle_nonempty by (intro is_dup_found) (auto simp: cycles_ok_def)
    define cs1 where "cs1 = (if found cycles ?cyc then cycles else cycles @ [?cyc])"
    have ok: "cycles_ok pc cs1" "set cycles \<subseteq> set cs1" "found cs1 ?cyc"
      using Cons.prems(2) cyc cycles_ok_snoc found_self [of ?cyc "cycles @ [?cyc]"] by (auto simp: cs1_def)
    obtain cycles' where IH: "foldM (child_step path) (cs1, vis, paths) cs =
       Inr (cycles', vis \<union> (set cs - set path),
            rev (map (\<lambda>c. path @ [c]) (filter (\<lambda>c. c \<notin> set path) cs)) @ paths)"
       "cycles_ok pc cycles'" "set cs1 \<subseteq> set cycles'"
       "\<forall>c \<in> set cs \<inter> set path. found cycles' (dropWhile (\<lambda>x. x \<noteq> c) path)"
      using Cons.IH [OF _ ok(1)] Cons.prems(1) by (metis list.set_intros(2))
    have "child_step path (cycles, vis, paths) c = Inr (cs1, vis, paths)"
      using True by (simp add: child_step_def dup cs1_def)
    with IH ok True show ?thesis
      by (intro exI [of _ cycles']) (auto intro: found_mono)
  next
    case False
    obtain cycles' where IH: "foldM (child_step path) (cycles, insert c vis, (path @ [c]) # paths) cs =
       Inr (cycles', insert c vis \<union> (set cs - set path),
            rev (map (\<lambda>c. path @ [c]) (filter (\<lambda>c. c \<notin> set path) cs)) @ (path @ [c]) # paths)"
       "cycles_ok pc cycles'" "set cycles \<subseteq> set cycles'"
       "\<forall>c \<in> set cs \<inter> set path. found cycles' (dropWhile (\<lambda>x. x \<noteq> c) path)"
      using Cons.IH [OF _ Cons.prems(2)] Cons.prems(1) by (metis list.set_intros(2))
    have "child_step path (cycles, vis, paths) c = Inr (cycles, insert c vis, (path @ [c]) # paths)"
      using False by (simp add: child_step_def)
    with IH False show ?thesis
      by (intro exI [of _ cycles']) auto
  qed
qed

definition graph_nodes :: "'a kids \<Rightarrow> 'a set" where
  "graph_nodes pc = set (dict_keys pc) \<union> (\<Union>cs \<in> snd ` set pc. set cs)"

lemma finite_graph_nodes [simp]: "finite (graph_nodes pc)"
  by (simp add: graph_nodes_def)

lemma edge_graph_nodes: "edge pc x y \<Longrightarrow> x \<in> graph_nodes pc \<and> y \<in> graph_nodes pc"
  by (force simp: edge_def graph_nodes_def dest: map_of_SomeD)

text \<open>
  The search ends because each path popped is replaced by fewer than \<open>fanout\<close> paths that
  are one node longer, and a simple path is no longer than the number of nodes.
\<close>

definition fanout :: "'a kids \<Rightarrow> nat" where
  "fanout pc = Suc (sum_list (map (\<lambda>e. length (snd e)) pc))"

definition path_weight :: "'a kids \<Rightarrow> 'a list \<Rightarrow> nat" where
  "path_weight pc path = fanout pc ^ (Suc (card (graph_nodes pc)) - length path)"

lemma length_children: "dict_get pc x = Some cs \<Longrightarrow> length cs < fanout pc"
proof -
  assume "dict_get pc x = Some cs"
  then have "length cs \<in> set (map (\<lambda>e. length (snd e)) pc)"
    by (force dest: map_of_SomeD)
  then show ?thesis
    using member_le_sum_list [of "length cs"] by (auto simp: fanout_def less_Suc_eq_le simp del: set_map)
qed

lemma simple_path_length:
  "simple_path pc path \<Longrightarrow> set path \<subseteq> graph_nodes pc \<Longrightarrow> length path \<le> card (graph_nodes pc)"
  unfolding simple_path_def by (metis card_mono distinct_card finite_graph_nodes)

lemma extended_weight:
  assumes "simple_path pc path" and "set path \<subseteq> graph_nodes pc" and "length cs < fanout pc"
  shows "sum_list (map (path_weight pc) (rev (map (\<lambda>c. path @ [c]) (filter P cs)))) < path_weight pc path"
proof -
  let ?w = "fanout pc ^ (card (graph_nodes pc) - length path)"
  have "path_weight pc (path @ [c]) = ?w" for c
    by (simp add: path_weight_def)
  then have "map (path_weight pc) (map (\<lambda>c. path @ [c]) (filter P cs)) = map (\<lambda>c. ?w) (filter P cs)"
    by simp
  then have "sum_list (map (path_weight pc) (rev (map (\<lambda>c. path @ [c]) (filter P cs)))) = length (filter P cs) * ?w"
    by (simp only: rev_map [symmetric] sum_list_rev) (simp add: sum_list_triv)
  also have "\<dots> < fanout pc * ?w"
    by (rule mult_less_mono1 [OF le_less_trans [OF length_filter_le assms(3)]]) (simp add: fanout_def)
  also have "\<dots> = path_weight pc path"
    using simple_path_length [OF assms(1,2)] by (simp add: path_weight_def Suc_diff_le)
  finally show ?thesis .
qed

lemma path_weight_pos [simp]: "0 < path_weight pc path"
  by (simp add: path_weight_def fanout_def)

lemma simple_path_snoc:
  "simple_path pc path \<Longrightarrow> edge pc (last path) c \<Longrightarrow> c \<notin> set path \<Longrightarrow> simple_path pc (path @ [c])"
  by (auto simp: simple_path_def successively_append_iff)

lemma simple_path_extend:
  "simple_path pc (path @ c # zs) \<Longrightarrow> path \<noteq> [] \<Longrightarrow> edge pc (last path) c \<and> c \<notin> set path"
  by (auto simp: simple_path_def successively_append_iff)

text \<open>
  What a run of the search from a stack of paths establishes: wherever an extension of
  a path on the stack closes, a rotation of that cycle is listed; the nodes of the
  extensions are visited, and every newly visited node is reachable from the stack.
\<close>

definition search_post ::
  "'a kids \<Rightarrow> 'a search \<Rightarrow> 'a list list \<Rightarrow> 'a set \<Rightarrow> bool" where
  "search_post pc st cycles' vis' \<longleftrightarrow>
     (case st of (cycles, vis, paths) \<Rightarrow>
        cycles_ok pc cycles' \<and> set cycles \<subseteq> set cycles' \<and> vis \<subseteq> vis' \<and>
        (\<forall>y \<in> vis' - vis. \<exists>path \<in> set paths. (edge pc)\<^sup>*\<^sup>* (last path) y) \<and>
        (\<forall>path \<in> set paths. \<forall>ys. simple_path pc (path @ ys) \<longrightarrow>
           (\<forall>c \<in> set (path @ ys). edge pc (last (path @ ys)) c \<longrightarrow>
              found cycles' (dropWhile (\<lambda>x. x \<noteq> c) (path @ ys)))))"

lemma search_paths_Nil: "search_paths pc (cycles, vis, []) = Some (Inr (cycles, vis, []))"
  by (subst search_paths.simps) simp

lemma search_post_step:
  assumes ne: "path \<noteq> []" and ed: "\<And>c. edge pc (last path) c \<longleftrightarrow> c \<in> set children"
    and mono: "set cycles \<subseteq> set cycles1"
    and close: "\<forall>c \<in> set children \<inter> set path. found cycles1 (dropWhile (\<lambda>x. x \<noteq> c) path)"
    and post: "search_post pc (cycles1, vis \<union> (set children - set path),
       rev (map (\<lambda>c. path @ [c]) (filter (\<lambda>c. c \<notin> set path) children)) @ rest) cycles' vis'"
  shows "search_post pc (cycles, vis, path # rest) cycles' vis'"
proof -
  let ?new = "rev (map (\<lambda>c. path @ [c]) (filter (\<lambda>c. c \<notin> set path) children))"
  let ?vis = "vis \<union> (set children - set path)"
  have ok: "cycles_ok pc cycles'" "set cycles1 \<subseteq> set cycles'" "?vis \<subseteq> vis'"
    and reach: "\<And>y. y \<in> vis' - ?vis \<Longrightarrow> \<exists>q \<in> set (?new @ rest). (edge pc)\<^sup>*\<^sup>* (last q) y"
    and ext: "\<And>q ys c. q \<in> set (?new @ rest) \<Longrightarrow> simple_path pc (q @ ys) \<Longrightarrow> c \<in> set (q @ ys) \<Longrightarrow>
        edge pc (last (q @ ys)) c \<Longrightarrow> found cycles' (dropWhile (\<lambda>x. x \<noteq> c) (q @ ys))"
    using post unfolding search_post_def by auto
  have 1: "\<exists>q \<in> set (path # rest). (edge pc)\<^sup>*\<^sup>* (last q) y" if y: "y \<in> vis' - vis" for y
  proof (cases "y \<in> ?vis")
    case True
    with y ed have "edge pc (last path) y" by blast
    then show ?thesis by auto
  next
    case False
    with y reach obtain q where q: "q \<in> set (?new @ rest)" "(edge pc)\<^sup>*\<^sup>* (last q) y" by blast
    then consider c where "q = path @ [c]" "c \<in> set children" | "q \<in> set rest" by auto
    then show ?thesis
    proof cases
      case 1
      with q(2) ed have "(edge pc)\<^sup>*\<^sup>* (last path) y"
        by (auto intro: converse_rtranclp_into_rtranclp)
      then show ?thesis by auto
    qed (use q in auto)
  qed
  have 2: "found cycles' (dropWhile (\<lambda>x. x \<noteq> c) (path @ ys))"
    if s: "simple_path pc (path @ ys)" "c \<in> set (path @ ys)" "edge pc (last (path @ ys)) c" for ys c
  proof (cases ys)
    case Nil
    with s ed close ok(2) show ?thesis by (auto intro: found_mono)
  next
    case (Cons z zs)
    then have "z \<in> set children \<and> z \<notin> set path"
      using simple_path_extend [of pc path z zs] s(1) ne ed by simp
    then have "path @ [z] \<in> set (?new @ rest)" by auto
    from ext [OF this, of zs c] s Cons show ?thesis by simp
  qed
  have "set cycles \<subseteq> set cycles'" "vis \<subseteq> vis'" using mono ok by auto
  then show ?thesis
    using ok(1) 1 2 ext unfolding search_post_def by auto
qed

lemma search_paths_total:
  assumes "cycles_ok pc cycles" and "\<forall>path \<in> set paths. simple_path pc path \<and> set path \<subseteq> graph_nodes pc"
  shows "\<exists>cycles' vis'. search_paths pc (cycles, vis, paths) = Some (Inr (cycles', vis', [])) \<and>
           search_post pc (cycles, vis, paths) cycles' vis'"
  using assms
proof (induction "sum_list (map (path_weight pc) paths)" arbitrary: cycles vis paths rule: less_induct)
  case less
  show ?case
  proof (cases paths)
    case Nil
    with less.prems show ?thesis by (auto simp: search_paths_Nil search_post_def)
  next
    case (Cons path rest)
    have sp: "simple_path pc path" "set path \<subseteq> graph_nodes pc" "path \<noteq> []"
      using less.prems(2) Cons by (auto simp: simple_path_def)
    show ?thesis
    proof (cases "dict_get pc (last path)")
      case None
      have no: "\<not> edge pc (last path) c" for c using None by (simp add: edge_def)
      obtain cycles' vis' where IH: "search_paths pc (cycles, vis, rest) = Some (Inr (cycles', vis', []))"
          "search_post pc (cycles, vis, rest) cycles' vis'"
        using less.hyps [of rest cycles vis] less.prems Cons by auto
      have "search_paths pc (cycles, vis, paths) = search_paths pc (cycles, vis, rest)"
        unfolding Cons by (subst search_paths.simps) (simp add: None)
      moreover have "ys = []" if "simple_path pc (path @ ys)" for ys
        using that simple_path_extend [of pc path] sp(3) no by (cases ys) blast+
      ultimately show ?thesis
        using IH no unfolding Cons search_post_def by auto
    next
      case (Some children)
      have ed: "edge pc (last path) c \<longleftrightarrow> c \<in> set children" for c using Some by (simp add: edge_def)
      let ?new = "rev (map (\<lambda>c. path @ [c]) (filter (\<lambda>c. c \<notin> set path) children))"
      let ?vis = "vis \<union> (set children - set path)"
      obtain cycles1 where loop: "foldM (child_step path) (cycles, vis, rest) children = Inr (cycles1, ?vis, ?new @ rest)"
          "cycles_ok pc cycles1" "set cycles \<subseteq> set cycles1"
          "\<forall>c \<in> set children \<inter> set path. found cycles1 (dropWhile (\<lambda>x. x \<noteq> c) path)"
        using children_loop [OF sp(1) _ less.prems(1), of children] ed by metis
      have dec: "sum_list (map (path_weight pc) (?new @ rest)) < sum_list (map (path_weight pc) paths)"
        using extended_weight [OF sp(1,2) length_children [OF Some]] Cons by simp
      have stack: "\<forall>path \<in> set (?new @ rest). simple_path pc path \<and> set path \<subseteq> graph_nodes pc"
      proof
        fix q assume "q \<in> set (?new @ rest)"
        then consider c where "q = path @ [c]" "c \<in> set children" "c \<notin> set path" | "q \<in> set rest"
          by auto
        then show "simple_path pc q \<and> set q \<subseteq> graph_nodes pc"
        proof cases
          case 1
          then show ?thesis
            using simple_path_snoc [OF sp(1)] ed sp(2) edge_graph_nodes [of pc "last path" c] by simp
        next
          case 2
          then show ?thesis using less.prems(2) Cons by simp
        qed
      qed
      obtain cycles' vis' where IH:
          "search_paths pc (cycles1, ?vis, ?new @ rest) = Some (Inr (cycles', vis', []))"
          "search_post pc (cycles1, ?vis, ?new @ rest) cycles' vis'"
        using less.hyps [OF dec loop(2) stack, of ?vis] by blast
      have eq: "search_paths pc (cycles, vis, paths) = Some (Inr (cycles', vis', []))"
        unfolding Cons by (subst search_paths.simps) (simp add: Some loop(1) IH(1))
      have post: "search_post pc (cycles, vis, paths) cycles' vis'"
        unfolding Cons by (rule search_post_step [OF sp(3) ed loop(3,4) IH(2)])
      with eq show ?thesis by blast
    qed
  qed
qed

lemma is_cycle_rotate1: "is_cycle pc c \<Longrightarrow> is_cycle pc (rotate1 c)"
proof (cases c)
  case (Cons x xs)
  assume "is_cycle pc c"
  with Cons show ?thesis
    by (cases "xs = []") (auto simp: is_cycle_def simple_path_def successively_append_iff successively_Cons)
qed simp

lemma is_cycle_rotate: "is_cycle pc c \<Longrightarrow> is_cycle pc (rotate k c)"
  by (induction k) (auto simp: is_cycle_rotate1)

lemma rotate_to_front: "x \<in> set c \<Longrightarrow> \<exists>k. hd (rotate k c) = x"
  by (metis hd_rotate_conv_nth in_set_conv_nth length_pos_if_in_set list.size(3) mod_less not_less0)

text \<open>A shortest way into a set of nodes meets it only at its end.\<close>

lemma first_entry:
  assumes "(edge pc)\<^sup>*\<^sup>* r x" and "x \<in> C"
  shows "\<exists>xs. simple_path pc xs \<and> hd xs = r \<and> last xs \<in> C \<and> set (butlast xs) \<inter> C = {}"
  using assms
proof (induction rule: converse_rtranclp_induct)
  case base
  then show ?case by (intro exI [of _ "[x]"]) (simp add: simple_path_def)
next
  case (step r r')
  then obtain xs where xs: "simple_path pc xs" "hd xs = r'" "last xs \<in> C" "set (butlast xs) \<inter> C = {}"
    by blast
  show ?case
  proof (cases "r \<in> set xs")
    case True
    then obtain us vs where uv: "xs = us @ r # vs" by (meson split_list)
    with xs show ?thesis
      by (intro exI [of _ "r # vs"]) (auto simp: simple_path_def successively_append_iff butlast_append)
  next
    case False
    show ?thesis
    proof (cases "r \<in> C")
      case True
      then show ?thesis by (intro exI [of _ "[r]"]) (simp add: simple_path_def)
    next
      case out: False
      with False xs step(1) show ?thesis
        by (intro exI [of _ "r # xs"]) (auto simp: simple_path_def successively_Cons)
    qed
  qed
qed

text \<open>A root from which every closing simple path has been listed accounts for all cycles it reaches.\<close>

definition accounted :: "'a kids \<Rightarrow> 'a list list \<Rightarrow> 'a \<Rightarrow> bool" where
  "accounted pc cycles r \<longleftrightarrow>
     (\<forall>c. is_cycle pc c \<longrightarrow> (\<exists>x \<in> set c. (edge pc)\<^sup>*\<^sup>* r x) \<longrightarrow> found cycles c)"

lemma accounted_mono: "accounted pc cycles r \<Longrightarrow> set cycles \<subseteq> set cycles' \<Longrightarrow> accounted pc cycles' r"
  by (meson accounted_def found_mono)

lemma accounted_reach: "accounted pc cycles r \<Longrightarrow> (edge pc)\<^sup>*\<^sup>* r y \<Longrightarrow> accounted pc cycles y"
  unfolding accounted_def by (meson rtranclp_trans)

lemma accounted_root:
  assumes ext: "\<And>ys c. simple_path pc (r # ys) \<Longrightarrow> c \<in> set (r # ys) \<Longrightarrow> edge pc (last (r # ys)) c \<Longrightarrow>
      found cycles (dropWhile (\<lambda>x. x \<noteq> c) (r # ys))"
  shows "accounted pc cycles r"
  unfolding accounted_def
proof (intro allI impI)
  fix c assume c: "is_cycle pc c" and "\<exists>x \<in> set c. (edge pc)\<^sup>*\<^sup>* r x"
  then obtain xs where xs: "simple_path pc xs" "hd xs = r" "last xs \<in> set c" "set (butlast xs) \<inter> set c = {}"
    using first_entry [of pc r] by metis
  obtain k where k: "hd (rotate k c) = last xs" using rotate_to_front [OF xs(3)] by blast
  let ?c = "rotate k c"
  have cyc: "is_cycle pc ?c" by (rule is_cycle_rotate [OF c])
  then obtain cs where cs: "?c = last xs # cs"
    using k by (metis is_cycle_nonempty list.collapse)
  have xs': "xs = butlast xs @ [last xs]" using xs(1) by (simp add: simple_path_def)
  let ?p = "butlast xs @ ?c"
  have dist: "distinct ?p"
    using xs(1,4) cyc by (auto simp: simple_path_def is_cycle_def distinct_butlast)
  have succ: "successively (edge pc) ?p"
  proof -
    have "successively (edge pc) (butlast xs @ [last xs])" using xs(1) xs' by (simp add: simple_path_def)
    moreover have "successively (edge pc) (last xs # cs)" using cyc cs by (simp add: is_cycle_def simple_path_def)
    ultimately show ?thesis unfolding cs by (auto simp: successively_append_iff)
  qed
  have "hd ?p = r"
    using xs(2) arg_cong [OF xs', of hd] cs by (cases "butlast xs") auto
  moreover have "?p \<noteq> []" using cs by simp
  ultimately obtain ys where ys: "?p = r # ys" by (metis list.collapse)
  have "simple_path pc ?p" using dist succ cs by (simp add: simple_path_def)
  moreover have "edge pc (last ?p) (last xs)"
    using cyc cs by (auto simp: is_cycle_def)
  ultimately have "found cycles (dropWhile (\<lambda>x. x \<noteq> last xs) ?p)"
    using ext [of ys "last xs"] cs unfolding ys by (metis UnCI list.set_intros(1) set_append ys)
  moreover have "dropWhile (\<lambda>x. x \<noteq> last xs) ?p = ?c"
    using xs(3,4) cs by (subst dropWhile_append2) auto
  ultimately have "found cycles ?c" by simp
  then show "found cycles c" by (rule found_rotate)
qed

lemma search_roots_total:
  assumes "cycles_ok pc cycles" and "set parents \<subseteq> graph_nodes pc" and "\<forall>y \<in> vis. accounted pc cycles y"
  shows "\<exists>cycles' vis'. search_roots pc (cycles, vis) parents = Some (Inr (cycles', vis')) \<and>
     cycles_ok pc cycles' \<and> set cycles \<subseteq> set cycles' \<and> (\<forall>r \<in> set parents. accounted pc cycles' r)"
  using assms
proof (induction parents arbitrary: cycles vis)
  case Nil
  then show ?case by auto
next
  case (Cons r parents)
  show ?case
  proof (cases "r \<in> vis")
    case True
    obtain cycles' vis' where IH: "search_roots pc (cycles, vis) parents = Some (Inr (cycles', vis'))"
       "cycles_ok pc cycles'" "set cycles \<subseteq> set cycles'" "\<forall>r \<in> set parents. accounted pc cycles' r"
      using Cons.IH [OF Cons.prems(1) _ Cons.prems(3)] Cons.prems(2) by (metis set_subset_Cons subset_trans)
    moreover have "accounted pc cycles' r"
      using accounted_mono [OF _ IH(3)] Cons.prems(3) True by simp
    ultimately show ?thesis using True by auto
  next
    case False
    have "\<forall>path \<in> set [[r]]. simple_path pc path \<and> set path \<subseteq> graph_nodes pc"
      using Cons.prems(2) by (simp add: simple_path_def)
    from search_paths_total [OF Cons.prems(1) this, of vis]
    obtain cycles1 vis1 where run: "search_paths pc (cycles, vis, [[r]]) = Some (Inr (cycles1, vis1, []))"
        and post: "search_post pc (cycles, vis, [[r]]) cycles1 vis1" by blast
    have ok: "cycles_ok pc cycles1" "set cycles \<subseteq> set cycles1"
      and reach: "\<And>y. y \<in> vis1 - vis \<Longrightarrow> (edge pc)\<^sup>*\<^sup>* r y"
      using post unfolding search_post_def by auto
    have ext: "\<And>ys c. simple_path pc (r # ys) \<Longrightarrow> c \<in> set (r # ys) \<Longrightarrow> edge pc (last (r # ys)) c \<Longrightarrow>
         found cycles1 (dropWhile (\<lambda>x. x \<noteq> c) (r # ys))"
      using post unfolding search_post_def prod.case by (metis append_Cons append_Nil list.set_intros(1))
    have root: "accounted pc cycles1 r" by (rule accounted_root [OF ext])
    have "\<forall>y \<in> vis1. accounted pc cycles1 y"
      using Cons.prems(3) reach root ok(2) accounted_mono accounted_reach by (metis DiffI)
    then obtain cycles' vis' where IH: "search_roots pc (cycles1, vis1) parents = Some (Inr (cycles', vis'))"
       "cycles_ok pc cycles'" "set cycles1 \<subseteq> set cycles'" "\<forall>r \<in> set parents. accounted pc cycles' r"
      using Cons.IH [OF ok(1)] Cons.prems(2) by (metis set_subset_Cons subset_trans)
    moreover have "accounted pc cycles' r" using accounted_mono [OF root IH(3)] .
    ultimately show ?thesis using False run ok(2) by auto
  qed
qed

lemma find_cycles_run:
  "\<exists>cycles. find_cycles pc = Some (Inr cycles) \<and> cycles_ok pc cycles \<and> (\<forall>c. is_cycle pc c \<longrightarrow> found cycles c)"
proof -
  have "set (dict_keys pc) \<subseteq> graph_nodes pc" by (simp add: graph_nodes_def)
  moreover have "cycles_ok pc []" by (simp add: cycles_ok_def)
  ultimately obtain cycles vis where
    run: "search_roots pc ([], {}) (dict_keys pc) = Some (Inr (cycles, vis))" "cycles_ok pc cycles"
      "\<forall>r \<in> set (dict_keys pc). accounted pc cycles r"
    using search_roots_total [of pc "[]" "dict_keys pc" "{}"] by auto
  have "found cycles c" if c: "is_cycle pc c" for c
  proof -
    have "edge pc (last c) (hd c)" using c by (simp add: is_cycle_def)
    then have "last c \<in> set (dict_keys pc)"
      unfolding dom_dict_get [symmetric] by (auto simp: edge_def)
    moreover have "last c \<in> set c" using is_cycle_nonempty [OF c] by simp
    moreover from calculation have "accounted pc cycles (last c)" using run(3) by blast
    ultimately show ?thesis using c unfolding accounted_def by blast
  qed
  with run(1,2) show ?thesis by (auto simp: find_cycles_def)
qed

text \<open>
  C2: \<^verbatim>\<open>find_cycles\<close> terminates without an exception and yields exactly the simple
  cycles of the graph, each once up to rotation: what it yields is a cycle, no two
  yields are rotations of each other, and every simple cycle is a rotation of one.
\<close>

theorem find_cycles_correct:
  "\<exists>cycles. find_cycles parent_children = Some (Inr cycles) \<and>
     (\<forall>c \<in> set cycles. is_cycle parent_children c) \<and>
     (\<forall>i j k. i < j \<longrightarrow> j < length cycles \<longrightarrow> cycles ! j \<noteq> rotate k (cycles ! i)) \<and>
     (\<forall>c. is_cycle parent_children c \<longrightarrow> (\<exists>other \<in> set cycles. \<exists>k. c = rotate k other))"
proof -
  obtain cycles where run: "find_cycles parent_children = Some (Inr cycles)"
      "cycles_ok parent_children cycles" "\<forall>c. is_cycle parent_children c \<longrightarrow> found cycles c"
    using find_cycles_run by blast
  have "cycles ! j \<noteq> rotate k (cycles ! i)" if "i < j" "j < length cycles" for i j k
  proof -
    have "cycles = take j cycles @ cycles ! j # drop (Suc j) cycles"
      using that(2) by (rule id_take_nth_drop)
    then have "\<not> found (take j cycles) (cycles ! j)"
      using run(2) unfolding cycles_ok_def by blast
    moreover have "cycles ! i \<in> set (take j cycles)"
      using that by (auto simp: in_set_conv_nth intro!: exI [of _ i])
    ultimately show ?thesis by (auto simp: found_def)
  qed
  with run show ?thesis unfolding cycles_ok_def found_def by blast
qed

theorem find_cycles_correct_witness:
  "\<exists>cycles. find_cycles [(1, [2]), (2, [1, 3 :: int])] = Some (Inr cycles) \<and>
     (\<exists>other \<in> set cycles. \<exists>k. [1, 2] = rotate k other)"
proof -
  have "is_cycle [(1, [2]), (2, [1, 3 :: int])] [1, 2]"
    by (simp add: is_cycle_def simple_path_def edge_def)
  then show ?thesis using find_cycles_correct [of "[(1, [2]), (2, [1, 3 :: int])]"] by blast
qed

end
