(* ===== verification/Shellcmd.thy ===== *)
theory Shellcmd
  imports Py_Strings
begin

text \<open>
  \<^verbatim>\<open>src/source/ns-3-dev/waf-tools/shellcmd.py\<close>: the small shell that runs the build's
  command lines.  \<^verbatim>\<open>Pipeline.parse\<close> is a state machine over tokens,
  \<^verbatim>\<open>Pipeline.run\<close> starts the processes and chains them by \<^verbatim>\<open>|\<close>, \<^verbatim>\<open>&&\<close> and
  \<^verbatim>\<open>||\<close>.  The operating system (opening files, starting processes, exit codes) and the
  tokenizer \<^verbatim>\<open>shlex.split\<close> are arguments; a run returns the events it caused.
\<close>

section \<open>Syntax tree\<close>

datatype target = ToFile string | ToPIPE | ToSTDOUT

record command =
  cmd_name :: string
  cmd_argv :: "string list"
  cmd_stdin :: "string option"
  cmd_stdout :: "target option"
  cmd_stderr :: "target option"
  cmd_env_vars :: "(string, string) dict option"

datatype node = Command command | Chdir "string option" | Pipe | And | Or

definition new_command :: "string \<Rightarrow> command" where
  "new_command name =
     \<lparr>cmd_name = name, cmd_argv = [name], cmd_stdin = None, cmd_stdout = None,
      cmd_stderr = None, cmd_env_vars = None\<rparr>"

section \<open>Parser\<close>

datatype pstate = BEGIN | COMMAND | CHDIR | STDERR | STDOUT | STDIN

record parser =
  p_state :: pstate
  p_current :: "node option"
  p_pipeline :: "node list"
  p_env :: "(string, string) dict"

text \<open>
  \<^verbatim>\<open>^([a-zA-Z0-9_]+)=(\S+)$\<close>: the two groups.  \<^verbatim>\<open>$\<close> also matches before a final
  newline.
\<close>

definition env_var_match :: "string \<Rightarrow> (string \<times> string) option" where
  "env_var_match token =
     (let name = takeWhile is_word token;
          rest = dropWhile is_word token;
          val = takeWhile (\<lambda>c. \<not> is_space c) (drop 1 rest);
          tail = dropWhile (\<lambda>c. \<not> is_space c) (drop 1 rest)
      in if name \<noteq> [] \<and> take 1 rest = ''='' \<and> val \<noteq> [] \<and> (tail = [] \<or> tail = [CHR 0x0A])
         then Some (name, val) else None)"

definition commit_command :: "parser \<Rightarrow> parser res" where
  "commit_command p =
     (case p_current p of
        None \<Rightarrow> Inl AssertionError
      | Some n \<Rightarrow> Inr (p\<lparr>p_pipeline := p_pipeline p @ [n], p_current := None\<rparr>))"

text \<open>An operator ends the current node and puts the parser back to \<^verbatim>\<open>BEGIN\<close>.\<close>

definition commit_op :: "node \<Rightarrow> parser \<Rightarrow> parser res" where
  "commit_op op p =
     rbind (commit_command p) (\<lambda>p.
       Inr (p\<lparr>p_pipeline := p_pipeline p @ [op], p_state := BEGIN\<rparr>))"

definition begin_token :: "parser \<Rightarrow> string \<Rightarrow> parser res" where
  "begin_token p token =
     (case env_var_match token of
        Some (name, val) \<Rightarrow> Inr (p\<lparr>p_env := dict_set (p_env p) name val\<rparr>)
      | None \<Rightarrow>
         if p_current p \<noteq> None then Inl AssertionError
         else if token = ''cd''
         then if p_env p \<noteq> [] then Inl AssertionError
              else Inr (p\<lparr>p_current := Some (Chdir None), p_state := CHDIR\<rparr>)
         else let c = new_command token in
              Inr (p\<lparr>p_current := Some (Command
                       (if p_env p \<noteq> [] then c\<lparr>cmd_env_vars := Some (p_env p)\<rparr> else c)),
                     p_env := [],
                     p_state := COMMAND\<rparr>))"

text \<open>
  Tokens after the command name.  The current node is a command in the states
  \<^verbatim>\<open>COMMAND\<close>, \<^verbatim>\<open>STDOUT\<close>, \<^verbatim>\<open>STDERR\<close> and \<^verbatim>\<open>STDIN\<close>; any other object has no
  such attributes.
\<close>

definition command_token :: "parser \<Rightarrow> string \<Rightarrow> parser res" where
  "command_token p token =
     (case p_current p of
        Some (Command c) \<Rightarrow>
         (if token = ''>'' then Inr (p\<lparr>p_state := STDOUT\<rparr>)
          else if token = ''2>'' then Inr (p\<lparr>p_state := STDERR\<rparr>)
          else if token = ''2>&1''
          then if cmd_stderr c \<noteq> None then Inl AssertionError
               else Inr (p\<lparr>p_current := Some (Command (c\<lparr>cmd_stderr := Some ToSTDOUT\<rparr>))\<rparr>)
          else if token = ''<'' then Inr (p\<lparr>p_state := STDIN\<rparr>)
          else if token = ''|''
          then if cmd_stdout c \<noteq> None then Inl AssertionError
               else commit_op Pipe (p\<lparr>p_current := Some (Command (c\<lparr>cmd_stdout := Some ToPIPE\<rparr>))\<rparr>)
          else if token = ''&&'' then commit_op And p
          else if token = ''||'' then commit_op Or p
          else Inr (p\<lparr>p_current := Some (Command (c\<lparr>cmd_argv := cmd_argv c @ [token]\<rparr>))\<rparr>))
      | _ \<Rightarrow> Inl AttributeError)"

definition chdir_token :: "parser \<Rightarrow> string \<Rightarrow> parser res" where
  "chdir_token p token =
     (if token = ''&&'' then commit_op And p
      else case p_current p of
             Some (Chdir dir) \<Rightarrow>
               if dir \<noteq> None then Inl AssertionError
               else Inr (p\<lparr>p_current := Some (Chdir (Some token))\<rparr>)
           | _ \<Rightarrow> Inl AttributeError)"

text \<open>The token after \<^verbatim>\<open>>\<close>, \<^verbatim>\<open>2>\<close> or \<^verbatim>\<open><\<close> is the file.\<close>

definition redirect_token :: "parser \<Rightarrow> string \<Rightarrow> parser res" where
  "redirect_token p token =
     (case p_current p of
        Some (Command c) \<Rightarrow>
          (case p_state p of
             STDOUT \<Rightarrow>
               if cmd_stdout c \<noteq> None then Inl AssertionError
               else Inr (p\<lparr>p_current := Some (Command (c\<lparr>cmd_stdout := Some (ToFile token)\<rparr>)), p_state := COMMAND\<rparr>)
           | STDERR \<Rightarrow>
               if cmd_stderr c \<noteq> None then Inl AssertionError
               else Inr (p\<lparr>p_current := Some (Command (c\<lparr>cmd_stderr := Some (ToFile token)\<rparr>)), p_state := COMMAND\<rparr>)
           | _ \<Rightarrow>
               if cmd_stdin c \<noteq> None then Inl AssertionError
               else Inr (p\<lparr>p_current := Some (Command (c\<lparr>cmd_stdin := Some token\<rparr>)), p_state := COMMAND\<rparr>))
      | _ \<Rightarrow> Inl AttributeError)"

definition parse_token :: "parser \<Rightarrow> string \<Rightarrow> parser res" where
  "parse_token p token =
     (case p_state p of
        BEGIN \<Rightarrow> begin_token p token
      | COMMAND \<Rightarrow> command_token p token
      | CHDIR \<Rightarrow> chdir_token p token
      | _ \<Rightarrow> redirect_token p token)"

definition init_parser :: parser where
  "init_parser = \<lparr>p_state = BEGIN, p_current = None, p_pipeline = [], p_env = []\<rparr>"

definition parse_tokens :: "string list \<Rightarrow> node list res" where
  "parse_tokens tokens =
     rbind (foldM parse_token init_parser tokens) (\<lambda>p.
       rbind (commit_command p) (\<lambda>p. Inr (p_pipeline p)))"

datatype command_arg = CmdTokens "string list" | CmdString string

definition parse :: "(string \<Rightarrow> string list res) \<Rightarrow> command_arg \<Rightarrow> node list res" where
  "parse shlex_split cmd =
     (case cmd of
        CmdTokens tokens \<Rightarrow> parse_tokens tokens
      | CmdString s \<Rightarrow> rbind (shlex_split s) parse_tokens)"

text \<open>
  \<^verbatim>\<open>get_abbreviated_command\<close>.  The last branch of its chain tests \<^verbatim>\<open>And\<close> a second
  time, so an \<^verbatim>\<open>Or\<close> node contributes nothing.
\<close>

definition abbreviate_node :: "node \<Rightarrow> string list" where
  "abbreviate_node n =
     (case n of
        Command c \<Rightarrow> [cmd_name c]
      | Chdir dir \<Rightarrow> [''cd '' @ (case dir of None \<Rightarrow> ''None'' | Some d \<Rightarrow> d)]
      | Pipe \<Rightarrow> [''|'']
      | And \<Rightarrow> [''&&'']
      | Or \<Rightarrow> [])"

definition get_abbreviated_command :: "node list \<Rightarrow> string" where
  "get_abbreviated_command pipeline = join_with '' '' (concat (map abbreviate_node pipeline))"

section \<open>Running\<close>

datatype stdin_src = InNone | InFile string | InProc nat
datatype out_dst = DstNone | DstPIPE | DstSTDOUT | DstFile string | DstNull

record popen_args =
  po_argv :: "string list"
  po_stdin :: stdin_src
  po_stdout :: out_dst
  po_stderr :: out_dst
  po_env :: "(string, string) dict option"
  po_cwd :: "string option"

datatype event =
    OpenRead string
  | OpenWrite string
  | Popen nat popen_args
  | Wait nat
  | Close string
  | Print string

text \<open>
  The operating system answers from the history of events: whether a file opens,
  whether a process starts, and the exit code of a process.
\<close>

record os =
  os_open_ok :: "event list \<Rightarrow> string \<Rightarrow> bool"
  os_popen_ok :: "event list \<Rightarrow> popen_args \<Rightarrow> bool"
  os_exit_code :: "event list \<Rightarrow> nat \<Rightarrow> int"
  os_environ :: "(string, string) dict"

datatype rstate = RBEGIN | RPIPE

record runner =
  r_trace :: "event list"
  r_procs :: nat
  r_files :: "string list"
  r_piped :: "nat list"
  r_display :: "string list"
  r_state :: rstate
  r_cwd :: string

definition emit :: "event \<Rightarrow> runner \<Rightarrow> runner" where
  "emit e r = r\<lparr>r_trace := r_trace r @ [e]\<rparr>"

definition show_if :: "bool \<Rightarrow> string \<Rightarrow> runner \<Rightarrow> runner" where
  "show_if verbose s r = (if verbose then r\<lparr>r_display := r_display r @ [s]\<rparr> else r)"

text \<open>
  \<^verbatim>\<open>_open_out_file\<close>: the null device is opened once when the module is loaded and is
  never closed; other files are recorded for closing.
\<close>

definition open_out_file :: "os \<Rightarrow> string \<Rightarrow> runner \<Rightarrow> runner \<times> out_dst res" where
  "open_out_file os filename r =
     (if filename = ''NUL:'' \<or> filename = ''/dev/null'' then (r, Inr DstNull)
      else if os_open_ok os (r_trace r) filename
      then ((emit (OpenWrite filename) r)\<lparr>r_files := r_files r @ [filename]\<rparr>, Inr (DstFile filename))
      else (r, Inl (PyException ''IOError'')))"

definition setup_stdin :: "os \<Rightarrow> bool \<Rightarrow> command \<Rightarrow> runner \<Rightarrow> runner \<times> stdin_src res" where
  "setup_stdin os verbose cmd r =
     (if r_state r = RPIPE
      then (r, (case r_piped r of [] \<Rightarrow> Inl IndexError | _ \<Rightarrow> Inr (InProc (last (r_piped r)))))
      else case cmd_stdin cmd of
             None \<Rightarrow> (r, Inr InNone)
           | Some f \<Rightarrow>
               if os_open_ok os (r_trace r) f
               then let r = show_if verbose (''< '' @ f) (emit (OpenRead f) r)
                    in (r\<lparr>r_files := r_files r @ [f]\<rparr>, Inr (InFile f))
               else (r, Inl (PyException ''IOError'')))"

definition setup_stdout :: "os \<Rightarrow> bool \<Rightarrow> command \<Rightarrow> runner \<Rightarrow> runner \<times> out_dst res" where
  "setup_stdout os verbose cmd r =
     (case cmd_stdout cmd of
        None \<Rightarrow> (r, Inr DstNone)
      | Some ToPIPE \<Rightarrow> (r, Inr DstPIPE)
      | Some ToSTDOUT \<Rightarrow> (r, Inl TypeError)
      | Some (ToFile f) \<Rightarrow>
          (case open_out_file os f r of
             (r, Inl e) \<Rightarrow> (r, Inl e)
           | (r, Inr d) \<Rightarrow> (show_if verbose (''> '' @ f) r, Inr d)))"

definition setup_stderr :: "os \<Rightarrow> bool \<Rightarrow> command \<Rightarrow> runner \<Rightarrow> runner \<times> out_dst res" where
  "setup_stderr os verbose cmd r =
     (case cmd_stderr cmd of
        None \<Rightarrow> (r, Inr DstNone)
      | Some ToPIPE \<Rightarrow> (r, Inr DstPIPE)
      | Some ToSTDOUT \<Rightarrow> (show_if verbose ''2>&1'' r, Inr DstSTDOUT)
      | Some (ToFile f) \<Rightarrow>
          (case open_out_file os f r of
             (r, Inl e) \<Rightarrow> (r, Inl e)
           | (r, Inr d) \<Rightarrow> (show_if verbose (''2> '' @ f) r, Inr d)))"

definition display_command :: "bool \<Rightarrow> command \<Rightarrow> runner \<Rightarrow> runner" where
  "display_command verbose cmd r =
     show_if verbose
       (case cmd_env_vars cmd of
          Some (v # vs) \<Rightarrow>
            join_with '' '' (map (\<lambda>(key, val). key @ ''='' @ val) (v # vs)) @ '' '' @ join_with '' '' (cmd_argv cmd)
        | _ \<Rightarrow> join_with '' '' (cmd_argv cmd)) r"

text \<open>\<^verbatim>\<open>dict(os.environ)\<close> updated with the variables of the command, if it has any.\<close>

definition command_env :: "os \<Rightarrow> command \<Rightarrow> (string, string) dict option" where
  "command_env os cmd =
     (case cmd_env_vars cmd of
        Some (v # vs) \<Rightarrow> Some (foldl (\<lambda>d (key, val). dict_set d key val) (os_environ os) (v # vs))
      | _ \<Rightarrow> None)"

text \<open>From the command node to the started process, which joins \<^verbatim>\<open>piped_commands\<close>.\<close>

definition spawn :: "os \<Rightarrow> bool \<Rightarrow> command \<Rightarrow> runner \<Rightarrow> runner \<times> unit res" where
  "spawn os verbose cmd r =
     (let r = display_command verbose cmd r in
      case setup_stdin os verbose cmd r of (r, Inl e) \<Rightarrow> (r, Inl e) | (r, Inr inp) \<Rightarrow>
     (case setup_stdout os verbose cmd r of (r, Inl e) \<Rightarrow> (r, Inl e) | (r, Inr out) \<Rightarrow>
     (case setup_stderr os verbose cmd r of (r, Inl e) \<Rightarrow> (r, Inl e) | (r, Inr err) \<Rightarrow>
       let args = \<lparr>po_argv = cmd_argv cmd, po_stdin = inp, po_stdout = out, po_stderr = err,
                   po_env = command_env os cmd,
                   po_cwd = (if r_cwd r = ''.'' then None else Some (r_cwd r))\<rparr>
       in if os_popen_ok os (r_trace r) args
          then let r = emit (Popen (r_procs r) args) r
               in (r\<lparr>r_piped := r_piped r @ [r_procs r], r_procs := r_procs r + 1\<rparr>, Inr ())
          else (r, Inl (PyException ''OSError'')))))"

text \<open>\<^verbatim>\<open>_exec_piped_commands\<close>: wait for every process, then combine the exit codes.\<close>

fun wait_all :: "os \<Rightarrow> nat list \<Rightarrow> runner \<Rightarrow> runner \<times> int list" where
  "wait_all os [] r = (r, [])"
| "wait_all os (i # is) r =
     (let code = os_exit_code os (r_trace r) i;
          (r, codes) = wait_all os is (emit (Wait i) r)
      in (r, code # codes))"

definition combine_retvals :: "int list \<Rightarrow> int" where
  "combine_retvals retvals = (if list_ex (\<lambda>c. c \<noteq> 0) retvals then last retvals else 0)"

definition exec_piped_commands :: "os \<Rightarrow> runner \<Rightarrow> runner \<times> int" where
  "exec_piped_commands os r =
     (let (r, retvals) = wait_all os (r_piped r) r in (r, combine_retvals retvals))"

definition close_files :: "runner \<Rightarrow> runner" where
  "close_files r = r\<lparr>r_trace := r_trace r @ map Close (r_files r), r_files := []\<rparr>"

definition reset_group :: "runner \<Rightarrow> runner" where
  "reset_group r = r\<lparr>r_state := RBEGIN, r_piped := [], r_display := []\<rparr>"

text \<open>
  The loop.  It returns the exit code, or \<open>None\<close> when the nodes run out after an
  operator.  \<^verbatim>\<open>retval\<close> is assigned only where the pipeline is at its end, so the messages
  that the branches of \<^verbatim>\<open>&&\<close> and \<^verbatim>\<open>||\<close> print in verbose mode read an unbound variable.
\<close>

fun run_loop :: "os \<Rightarrow> bool \<Rightarrow> runner \<Rightarrow> node list \<Rightarrow> runner \<times> int option res" where
  "run_loop os verbose r [] = (r, Inr None)"
| "run_loop os verbose r [Chdir dir] = (r, Inl IndexError)"
| "run_loop os verbose r (Chdir dir # next_op # rest) =
     (if next_op \<noteq> And then (r, Inl AssertionError)
      else case dir of
             None \<Rightarrow> (r, Inl TypeError)
           | Some d \<Rightarrow>
               run_loop os verbose
                 (show_if verbose (''cd '' @ d @ '' &&'') (r\<lparr>r_cwd := path_join (r_cwd r) d\<rparr>)) rest)"
| "run_loop os verbose r (Command cmd # rest) =
     (case spawn os verbose cmd r of
        (r, Inl e) \<Rightarrow> (r, Inl e)
      | (r, Inr _) \<Rightarrow>
         (case rest of
            [] \<Rightarrow>
              (let (r, retval) = exec_piped_commands os r;
                   r = (if verbose
                        then emit (Print (join_with '' '' (r_display r) @ '': exit code '' @ show_int retval)) r
                        else r)
               in (close_files r, Inr (Some retval)))
          | next_node # rest \<Rightarrow>
             (case next_node of
                Pipe \<Rightarrow> run_loop os verbose (r\<lparr>r_state := RPIPE, r_display := r_display r @ [''|'']\<rparr>) rest
              | Or \<Rightarrow>
                  (let (r, this_retval) = exec_piped_commands os r; r = close_files r in
                   if this_retval = 0
                   then if verbose then (r, Inl UnboundLocalError) else (r, Inr (Some this_retval))
                   else if verbose then (r, Inl UnboundLocalError)
                   else run_loop os verbose (reset_group r) rest)
              | And \<Rightarrow>
                  (let (r, this_retval) = exec_piped_commands os r; r = close_files r in
                   if this_retval \<noteq> 0
                   then if verbose then (r, Inl UnboundLocalError) else (r, Inr (Some this_retval))
                   else if verbose then (r, Inl UnboundLocalError)
                   else run_loop os verbose (reset_group r) rest)
              | _ \<Rightarrow> run_loop os verbose r rest)))"
| "run_loop os verbose r (op # rest) = (r, Inl AssertionError)"

definition init_runner :: runner where
  "init_runner = \<lparr>r_trace = [], r_procs = 0, r_files = [], r_piped = [], r_display = [],
                  r_state = RBEGIN, r_cwd = ''.''\<rparr>"

definition run :: "os \<Rightarrow> bool \<Rightarrow> node list \<Rightarrow> runner \<times> int option res" where
  "run os verbose pipeline = run_loop os verbose init_runner pipeline"

end
