(* ===== verification/Shellcmd_Correct.thy ===== *)
theory Shellcmd_Correct
  imports Shellcmd
begin

text \<open>
  Correctness of the command-line runner of \<open>Shellcmd\<close>: the pipelines the parser
  produces are exactly the printable ones, printing and parsing are inverse on them, and
  a run on a working operating system starts the processes and returns the exit code that
  a left-to-right reading of \<^verbatim>\<open>|\<close>, \<^verbatim>\<open>&&\<close> and \<^verbatim>\<open>||\<close> prescribes.
\<close>

section \<open>Printable pipelines\<close>

definition operators :: "string list" where
  "operators = [''>'', ''2>'', ''2>&1'', ''<'', ''|'', ''&&'', ''||'']"

definition env_ok :: "(string, string) dict \<Rightarrow> bool" where
  "env_ok env \<longleftrightarrow> is_dict env \<and>
     list_all (\<lambda>(k, v). k \<noteq> [] \<and> list_all is_word k \<and> v \<noteq> [] \<and> list_all (\<lambda>c. \<not> is_space c) v) env"

definition command_ok :: "command \<Rightarrow> bool" where
  "command_ok c \<longleftrightarrow>
     cmd_name c \<noteq> ''cd'' \<and> env_var_match (cmd_name c) = None \<and>
     cmd_argv c = cmd_name c # tl (cmd_argv c) \<and>
     list_all (\<lambda>a. a \<notin> set operators) (tl (cmd_argv c)) \<and>
     cmd_stdout c \<noteq> Some ToSTDOUT \<and> cmd_stderr c \<noteq> Some ToPIPE \<and>
     (case cmd_env_vars c of None \<Rightarrow> True | Some env \<Rightarrow> env \<noteq> [] \<and> env_ok env)"

text \<open>A node that may stand before an operator, and one that may end the pipeline.\<close>

fun node_ok :: "node \<Rightarrow> bool" where
  "node_ok (Command c) = (command_ok c \<and> cmd_stdout c \<noteq> Some ToPIPE)"
| "node_ok (Chdir dir) = (dir \<noteq> Some ''&&'')"
| "node_ok _ = False"

fun link_ok :: "node \<Rightarrow> node \<Rightarrow> bool" where
  "link_ok (Command c) Pipe = (command_ok c \<and> cmd_stdout c = Some ToPIPE)"
| "link_ok n And = node_ok n"
| "link_ok (Command c) Or = node_ok (Command c)"
| "link_ok _ _ = False"

fun printable_pipeline :: "node list \<Rightarrow> bool" where
  "printable_pipeline [n] = node_ok n"
| "printable_pipeline (n # op # rest) = (link_ok n op \<and> printable_pipeline rest)"
| "printable_pipeline [] = False"

fun links_ok :: "node list \<Rightarrow> bool" where
  "links_ok [] = True"
| "links_ok (n # op # rest) = (link_ok n op \<and> links_ok rest)"
| "links_ok [n] = False"

lemma printable_snoc: "links_ok ns \<Longrightarrow> node_ok n \<Longrightarrow> printable_pipeline (ns @ [n])"
  by (induction ns rule: links_ok.induct) auto

lemma links_snoc: "links_ok ns \<Longrightarrow> link_ok n op \<Longrightarrow> links_ok (ns @ [n, op])"
  by (induction ns rule: links_ok.induct) auto

lemma printable_split:
  "printable_pipeline ns \<Longrightarrow> \<exists>pre n. ns = pre @ [n] \<and> links_ok pre \<and> node_ok n"
proof (induction ns rule: printable_pipeline.induct)
  case (1 n)
  then show ?case by (intro exI [of _ "[]"] exI [of _ n]) simp
next
  case (2 n op rest)
  then obtain pre m where "rest = pre @ [m]" "links_ok pre" "node_ok m" by auto
  with 2 show ?case by (intro exI [of _ "n # op # pre"] exI [of _ m]) simp
qed simp

section \<open>The parser keeps its invariant\<close>

definition parser_inv :: "parser \<Rightarrow> bool" where
  "parser_inv p \<longleftrightarrow> links_ok (p_pipeline p) \<and>
     (case p_state p of
        BEGIN \<Rightarrow> p_current p = None \<and> env_ok (p_env p)
      | CHDIR \<Rightarrow> p_env p = [] \<and> (\<exists>dir. p_current p = Some (Chdir dir) \<and> node_ok (Chdir dir))
      | _ \<Rightarrow> p_env p = [] \<and> (\<exists>c. p_current p = Some (Command c) \<and> node_ok (Command c)))"

lemma env_var_match_sound:
  assumes "env_var_match t = Some (k, v)"
  shows "k \<noteq> []" "list_all is_word k" "v \<noteq> []" "list_all (\<lambda>c. \<not> is_space c) v"
  using assms by (auto simp: env_var_match_def Let_def list_all_iff dest: set_takeWhileD split: if_splits)

lemma env_ok_set:
  assumes "env_ok env" "k \<noteq> []" "list_all is_word k" "v \<noteq> []" "list_all (\<lambda>c. \<not> is_space c) v"
  shows "env_ok (dict_set env k v)"
proof -
  have "set (dict_set env k v) \<subseteq> insert (k, v) (set env)"
    by (induction env) auto
  with assms show ?thesis
    by (fastforce simp: env_ok_def list_all_iff intro: is_dict_set)
qed

lemma env_ok_Nil [simp]: "env_ok []"
  by (simp add: env_ok_def)

lemma begin_token_inv:
  assumes "parser_inv p" "p_state p = BEGIN" "begin_token p t = Inr p'"
  shows "parser_inv p'"
proof (cases "env_var_match t")
  case (Some kv)
  obtain k v where "env_var_match t = Some (k, v)" using Some by (cases kv) auto
  with assms env_var_match_sound [OF this] show ?thesis
    by (auto simp: begin_token_def parser_inv_def intro: env_ok_set)
next
  case None
  with assms show ?thesis
    by (auto simp: begin_token_def parser_inv_def new_command_def command_ok_def Let_def split: if_splits)
qed

lemma commit_op_inv:
  assumes "links_ok (p_pipeline p)" "p_current p = Some n" "link_ok n op" "p_env p = []"
    and "commit_op op p = Inr p'"
  shows "parser_inv p'"
  using assms by (auto simp: commit_op_def commit_command_def parser_inv_def res_simps intro: links_snoc [of _ n op, simplified])

lemma command_token_inv:
  assumes "parser_inv p" "p_state p = COMMAND" "command_token p t = Inr p'"
  shows "parser_inv p'"
proof -
  from assms(1,2) obtain c where c: "p_current p = Some (Command c)" "command_ok c"
      "cmd_stdout c \<noteq> Some ToPIPE" "links_ok (p_pipeline p)" "p_env p = []"
    by (auto simp: parser_inv_def)
  consider "t = ''|''" | "t = ''&&''" | "t = ''||''" | "t \<in> set operators" "t \<noteq> ''|''" "t \<noteq> ''&&''" "t \<noteq> ''||''"
    | "t \<notin> set operators" by blast
  then show ?thesis
  proof cases
    case 1
    let ?c = "c\<lparr>cmd_stdout := Some ToPIPE\<rparr>"
    from 1 c assms(3) have "commit_op Pipe (p\<lparr>p_current := Some (Command ?c)\<rparr>) = Inr p'"
      by (auto simp: command_token_def split: if_splits)
    then show ?thesis
      by (rule commit_op_inv [rotated 4]) (use c in \<open>auto simp: command_ok_def\<close>)
  next
    case 2
    with c assms(3) have "commit_op And p = Inr p'" by (auto simp: command_token_def)
    then show ?thesis by (rule commit_op_inv [rotated 4]) (use c in auto)
  next
    case 3
    with c assms(3) have "commit_op Or p = Inr p'" by (auto simp: command_token_def)
    then show ?thesis by (rule commit_op_inv [rotated 4]) (use c in auto)
  next
    case 4
    with c assms show ?thesis
      by (auto simp: command_token_def operators_def parser_inv_def command_ok_def split: if_splits)
  next
    case 5
    with c have "command_ok (c\<lparr>cmd_argv := cmd_argv c @ [t]\<rparr>)"
      by (cases "cmd_argv c") (auto simp: command_ok_def)
    with 5 c assms show ?thesis
      by (auto simp: command_token_def operators_def parser_inv_def)
  qed
qed

lemma chdir_token_inv:
  assumes "parser_inv p" "p_state p = CHDIR" "chdir_token p t = Inr p'"
  shows "parser_inv p'"
proof -
  from assms(1,2) obtain dir where dir: "p_current p = Some (Chdir dir)" "node_ok (Chdir dir)"
      "links_ok (p_pipeline p)" "p_env p = []"
    by (auto simp: parser_inv_def)
  show ?thesis
  proof (cases "t = ''&&''")
    case True
    with assms(3) have "commit_op And p = Inr p'" by (simp add: chdir_token_def)
    then show ?thesis by (rule commit_op_inv [rotated 4]) (use dir in auto)
  next
    case False
    with assms dir show ?thesis by (auto simp: chdir_token_def parser_inv_def split: if_splits)
  qed
qed

lemma redirect_token_inv:
  assumes "parser_inv p" "p_state p \<in> {STDOUT, STDERR, STDIN}" "redirect_token p t = Inr p'"
  shows "parser_inv p'"
proof -
  from assms(1,2) obtain c where c: "p_current p = Some (Command c)" "command_ok c"
      "cmd_stdout c \<noteq> Some ToPIPE" "links_ok (p_pipeline p)" "p_env p = []"
    by (auto simp: parser_inv_def)
  from c(2) have "command_ok (c\<lparr>cmd_stdout := Some (ToFile t)\<rparr>)" "command_ok (c\<lparr>cmd_stderr := Some (ToFile t)\<rparr>)"
      "command_ok (c\<lparr>cmd_stdin := Some t\<rparr>)"
    by (simp_all add: command_ok_def)
  with c assms(2,3) show ?thesis
    by (elim insertE emptyE) (auto simp: redirect_token_def parser_inv_def split: if_splits)
qed

lemma parse_token_inv:
  assumes "parser_inv p" "parse_token p t = Inr p'"
  shows "parser_inv p'"
  using assms begin_token_inv [of p t p'] command_token_inv [of p t p'] chdir_token_inv [of p t p']
    redirect_token_inv [of p t p']
  by (cases "p_state p") (simp_all add: parse_token_def)

text \<open>The token loop meets the contract of a loop that keeps an invariant.\<close>

interpretation parsing: checked_loop parse_token parser_inv "\<lambda>_. True"
  by unfold_locales (rule parse_token_inv)

lemma init_parser_inv: "parser_inv init_parser"
  by (simp add: parser_inv_def init_parser_def)

lemma parser_run_inv: "foldM parse_token init_parser ts = Inr p \<Longrightarrow> parser_inv p"
  by (rule parsing.loop_inv [OF init_parser_inv]) (auto simp: list_all_iff)

lemma parse_token_error:
  assumes "parser_inv p" "parse_token p t = Inl e"
  shows "e = AssertionError"
proof (cases "p_state p")
  case BEGIN
  with assms show ?thesis
    by (auto simp: parse_token_def begin_token_def parser_inv_def Let_def split: if_splits option.splits)
next
  case COMMAND
  then obtain c where "p_current p = Some (Command c)" using assms(1) by (auto simp: parser_inv_def)
  with COMMAND assms(2) show ?thesis
    by (auto simp: parse_token_def command_token_def commit_op_def commit_command_def split: if_splits)
next
  case CHDIR
  with assms show ?thesis
    by (auto simp: parse_token_def chdir_token_def commit_op_def commit_command_def parser_inv_def split: if_splits)
qed (use assms in \<open>auto simp: parse_token_def redirect_token_def parser_inv_def split: if_splits\<close>)

lemma foldM_parse_error:
  "parser_inv p \<Longrightarrow> foldM parse_token p ts = Inl e \<Longrightarrow> e = AssertionError"
proof (induction ts arbitrary: p)
  case (Cons t ts)
  from Cons.prems(2) consider "parse_token p t = Inl e"
    | p' where "parse_token p t = Inr p'" "foldM parse_token p' ts = Inl e"
    by (auto simp: res_simps)
  then show ?case
    using Cons parse_token_error parse_token_inv by cases blast+
qed simp

section \<open>Printing\<close>

text \<open>
  A token list for a pipeline: assignments, the argument vector, then the redirections.
\<close>

definition print_env :: "(string, string) dict \<Rightarrow> string list" where
  "print_env env = map (\<lambda>(k, v). k @ ''='' @ v) env"

definition print_command :: "command \<Rightarrow> string list" where
  "print_command c =
     (case cmd_env_vars c of None \<Rightarrow> [] | Some env \<Rightarrow> print_env env) @ cmd_argv c
     @ (case cmd_stdin c of None \<Rightarrow> [] | Some f \<Rightarrow> [''<'', f])
     @ (case cmd_stdout c of Some (ToFile f) \<Rightarrow> [''>'', f] | _ \<Rightarrow> [])
     @ (case cmd_stderr c of Some (ToFile f) \<Rightarrow> [''2>'', f] | Some ToSTDOUT \<Rightarrow> [''2>&1''] | _ \<Rightarrow> [])"

fun print_node :: "node \<Rightarrow> string list" where
  "print_node (Command c) = print_command c"
| "print_node (Chdir dir) = ''cd'' # (case dir of None \<Rightarrow> [] | Some d \<Rightarrow> [d])"
| "print_node Pipe = [''|'']"
| "print_node And = [''&&'']"
| "print_node Or = [''||'']"

definition print_pipeline :: "node list \<Rightarrow> string list" where
  "print_pipeline ns = concat (map print_node ns)"

lemma env_var_match_print:
  assumes "k \<noteq> []" "list_all is_word k" "v \<noteq> []" "list_all (\<lambda>c. \<not> is_space c) v"
  shows "env_var_match (k @ ''='' @ v) = Some (k, v)"
proof -
  have "\<not> is_word (CHR ''='')"
    by (simp add: is_word_def)
  moreover have "takeWhile (\<lambda>c. \<not> is_space c) v = v" "dropWhile (\<lambda>c. \<not> is_space c) v = []"
    using assms(4) by (auto simp: list_all_iff takeWhile_eq_all_conv dropWhile_eq_Nil_conv)
  ultimately show ?thesis
    using assms by (simp add: env_var_match_def Let_def list_all_iff takeWhile_append2 dropWhile_append2
        del: takeWhile_eq_all_conv dropWhile_eq_Nil_conv)
qed

lemma dict_set_new: "k \<notin> set (dict_keys d) \<Longrightarrow> dict_set d k v = d @ [(k, v)]"
  by (induction d) auto

lemma parse_env:
  assumes "env_ok env" "is_dict (p_env p @ env)" "p_state p = BEGIN"
  shows "foldM parse_token p (print_env env) = Inr (p\<lparr>p_env := p_env p @ env\<rparr>)"
  using assms
proof (induction env arbitrary: p)
  case Nil
  then show ?case by (simp add: print_env_def)
next
  case (Cons kv env)
  obtain k v where kv: "kv = (k, v)" by (cases kv)
  have "env_var_match (k @ ''='' @ v) = Some (k, v)"
    using Cons.prems(1) by (intro env_var_match_print) (auto simp: env_ok_def kv)
  then have "parse_token p (k @ ''='' @ v) = Inr (p\<lparr>p_env := p_env p @ [(k, v)]\<rparr>)"
    using Cons.prems by (simp add: parse_token_def begin_token_def dict_set_new kv)
  moreover have "foldM parse_token (p\<lparr>p_env := p_env p @ [(k, v)]\<rparr>) (print_env env)
      = Inr (p\<lparr>p_env := p_env p @ (k, v) # env\<rparr>)"
    using Cons.IH [of "p\<lparr>p_env := p_env p @ [(k, v)]\<rparr>"] Cons.prems by (auto simp: env_ok_def kv)
  ultimately show ?case by (simp add: print_env_def kv)
qed

lemma parse_args:
  assumes "list_all (\<lambda>a. a \<notin> set operators) args" "p_state p = COMMAND" "p_current p = Some (Command c)"
  shows "foldM parse_token p args = Inr (p\<lparr>p_current := Some (Command (c\<lparr>cmd_argv := cmd_argv c @ args\<rparr>))\<rparr>)"
  using assms
proof (induction args arbitrary: p c)
  case Nil
  then show ?case by simp
next
  case (Cons a args)
  let ?c = "c\<lparr>cmd_argv := cmd_argv c @ [a]\<rparr>"
  have "parse_token p a = Inr (p\<lparr>p_current := Some (Command ?c)\<rparr>)"
    using Cons.prems by (simp add: parse_token_def command_token_def operators_def)
  with Cons.IH [of "p\<lparr>p_current := Some (Command ?c)\<rparr>" ?c] Cons.prems show ?case
    by simp
qed

text \<open>The state of the parser after the tokens of a node, at the start of which nothing is pending.\<close>

definition at_begin :: "node list \<Rightarrow> parser" where
  "at_begin ns = \<lparr>p_state = BEGIN, p_current = None, p_pipeline = ns, p_env = []\<rparr>"

definition in_command :: "node list \<Rightarrow> command \<Rightarrow> parser" where
  "in_command ns c = \<lparr>p_state = COMMAND, p_current = Some (Command c), p_pipeline = ns, p_env = []\<rparr>"

lemma parse_redirects:
  "cmd_stdin c = None \<Longrightarrow> foldM parse_token (in_command ns c) [''<'', f] = Inr (in_command ns (c\<lparr>cmd_stdin := Some f\<rparr>))"
  "cmd_stdout c = None \<Longrightarrow> foldM parse_token (in_command ns c) [''>'', f] = Inr (in_command ns (c\<lparr>cmd_stdout := Some (ToFile f)\<rparr>))"
  "cmd_stderr c = None \<Longrightarrow> foldM parse_token (in_command ns c) [''2>'', f] = Inr (in_command ns (c\<lparr>cmd_stderr := Some (ToFile f)\<rparr>))"
  "cmd_stderr c = None \<Longrightarrow> foldM parse_token (in_command ns c) [''2>&1''] = Inr (in_command ns (c\<lparr>cmd_stderr := Some ToSTDOUT\<rparr>))"
  by (simp_all add: parse_token_def command_token_def redirect_token_def in_command_def)

lemma parse_name_args:
  assumes "command_ok c"
  shows "foldM parse_token (at_begin ns)
           ((case cmd_env_vars c of None \<Rightarrow> [] | Some env \<Rightarrow> print_env env) @ cmd_argv c)
         = Inr (in_command ns (c\<lparr>cmd_stdin := None, cmd_stdout := None, cmd_stderr := None\<rparr>))"
proof -
  let ?env = "case cmd_env_vars c of None \<Rightarrow> [] | Some env \<Rightarrow> env"
  let ?c = "(new_command (cmd_name c))\<lparr>cmd_env_vars := cmd_env_vars c\<rparr>"
  obtain args where argv: "cmd_argv c = cmd_name c # args" and args: "list_all (\<lambda>a. a \<notin> set operators) args"
    using assms by (auto simp: command_ok_def)
  have "foldM parse_token (at_begin ns) (print_env ?env) = Inr ((at_begin ns)\<lparr>p_env := ?env\<rparr>)"
    using assms parse_env [of ?env "at_begin ns"]
    by (auto simp: at_begin_def command_ok_def env_ok_def split: option.splits)
  moreover have "(case cmd_env_vars c of None \<Rightarrow> [] | Some env \<Rightarrow> print_env env) = print_env ?env"
    by (simp add: print_env_def split: option.splits)
  moreover have "parse_token ((at_begin ns)\<lparr>p_env := ?env\<rparr>) (cmd_name c) = Inr (in_command ns ?c)"
    using assms
    by (auto simp: parse_token_def begin_token_def at_begin_def in_command_def command_ok_def new_command_def Let_def
        split: option.splits)
  moreover have "foldM parse_token (in_command ns ?c) args = Inr (in_command ns (?c\<lparr>cmd_argv := cmd_argv ?c @ args\<rparr>))"
    using args by (subst parse_args) (auto simp: in_command_def)
  moreover have "?c\<lparr>cmd_argv := cmd_argv ?c @ args\<rparr> = c\<lparr>cmd_stdin := None, cmd_stdout := None, cmd_stderr := None\<rparr>"
    using argv by (simp add: new_command_def)
  ultimately show ?thesis
    by (simp add: foldM_append argv)
qed

lemma parse_command:
  assumes "command_ok c"
  shows "foldM parse_token (at_begin ns) (print_command c)
         = Inr (in_command ns (c\<lparr>cmd_stdout := (if cmd_stdout c = Some ToPIPE then None else cmd_stdout c)\<rparr>))"
proof -
  let ?c0 = "c\<lparr>cmd_stdin := None, cmd_stdout := None, cmd_stderr := None\<rparr>"
  let ?c1 = "c\<lparr>cmd_stdout := None, cmd_stderr := None\<rparr>"
  let ?out = "if cmd_stdout c = Some ToPIPE then None else cmd_stdout c"
  let ?c2 = "c\<lparr>cmd_stdout := ?out, cmd_stderr := None\<rparr>"
  have 1: "foldM parse_token (in_command ns ?c0) (case cmd_stdin c of None \<Rightarrow> [] | Some f \<Rightarrow> [''<'', f])
      = Inr (in_command ns ?c1)"
    using parse_redirects(1) [of ?c0 ns]
    by (cases c) (auto simp del: foldM.simps(2) split: option.splits)
  have 2: "foldM parse_token (in_command ns ?c1) (case cmd_stdout c of Some (ToFile f) \<Rightarrow> [''>'', f] | _ \<Rightarrow> [])
      = Inr (in_command ns ?c2)"
    using assms parse_redirects(2) [of ?c1 ns]
    by (cases c) (auto simp: command_ok_def simp del: foldM.simps(2) split: option.splits target.splits)
  have 3: "foldM parse_token (in_command ns ?c2)
      (case cmd_stderr c of Some (ToFile f) \<Rightarrow> [''2>'', f] | Some ToSTDOUT \<Rightarrow> [''2>&1''] | _ \<Rightarrow> [])
      = Inr (in_command ns (c\<lparr>cmd_stdout := ?out\<rparr>))"
    using assms parse_redirects(3,4) [of ?c2 ns]
    by (cases c) (auto simp: command_ok_def simp del: foldM.simps(2) split: option.splits target.splits)
  have "foldM parse_token (at_begin ns)
      (((case cmd_env_vars c of None \<Rightarrow> [] | Some env \<Rightarrow> print_env env) @ cmd_argv c)
       @ (case cmd_stdin c of None \<Rightarrow> [] | Some f \<Rightarrow> [''<'', f])
       @ (case cmd_stdout c of Some (ToFile f) \<Rightarrow> [''>'', f] | _ \<Rightarrow> [])
       @ (case cmd_stderr c of Some (ToFile f) \<Rightarrow> [''2>'', f] | Some ToSTDOUT \<Rightarrow> [''2>&1''] | _ \<Rightarrow> []))
      = Inr (in_command ns (c\<lparr>cmd_stdout := ?out\<rparr>))"
    by (rule foldM_appendI [OF parse_name_args [OF assms]], rule foldM_appendI [OF 1], rule foldM_appendI [OF 2], rule 3)
  then show ?thesis
    by (simp only: print_command_def append_assoc)
qed

lemma parse_operator:
  assumes "cmd_stdout c = None"
  shows "parse_token (in_command ns c) ''|'' = Inr (at_begin (ns @ [Command (c\<lparr>cmd_stdout := Some ToPIPE\<rparr>), Pipe]))"
  using assms
  by (simp add: parse_token_def command_token_def commit_op_def commit_command_def in_command_def at_begin_def)

lemma parse_and_or:
  "parse_token (in_command ns c) ''&&'' = Inr (at_begin (ns @ [Command c, And]))"
  "parse_token (in_command ns c) ''||'' = Inr (at_begin (ns @ [Command c, Or]))"
  by (simp_all add: parse_token_def command_token_def commit_op_def commit_command_def in_command_def at_begin_def)

lemma env_var_match_cd: "env_var_match ''cd'' = None"
  by (simp add: env_var_match_def is_word_def Let_def)

lemma parse_chdir:
  assumes "dir \<noteq> Some ''&&''"
  shows "foldM parse_token (at_begin ns) (print_node (Chdir dir))
     = Inr \<lparr>p_state = CHDIR, p_current = Some (Chdir dir), p_pipeline = ns, p_env = []\<rparr>"
  using assms
  by (cases dir) (simp_all add: parse_token_def begin_token_def chdir_token_def at_begin_def env_var_match_cd)

lemma cmd_stdout_same: "cmd_stdout c = x \<Longrightarrow> c\<lparr>cmd_stdout := x\<rparr> = c"
  by auto

lemma parse_link:
  assumes "link_ok n op"
  shows "foldM parse_token (at_begin ns) (print_node n @ print_node op) = Inr (at_begin (ns @ [n, op]))"
proof (cases n)
  case (Command c)
  with assms show ?thesis
    by (cases op) (auto simp: foldM_append parse_command parse_operator parse_and_or cmd_stdout_same)
next
  case (Chdir dir)
  with assms have "op = And" "dir \<noteq> Some ''&&''"
    by (cases op; auto)+
  moreover have "foldM parse_token \<lparr>p_state = CHDIR, p_current = Some (Chdir dir), p_pipeline = ns, p_env = []\<rparr> [''&&'']
      = Inr (at_begin (ns @ [Chdir dir, And]))"
    by (simp add: parse_token_def chdir_token_def commit_op_def commit_command_def at_begin_def)
  ultimately show ?thesis
    using Chdir foldM_appendI [OF parse_chdir] by simp
qed (use assms in \<open>cases op; simp\<close>)+

lemma parse_links:
  "links_ok pre \<Longrightarrow> foldM parse_token (at_begin ns) (print_pipeline pre) = Inr (at_begin (ns @ pre))"
proof (induction pre arbitrary: ns rule: links_ok.induct)
  case (2 n op rest)
  then have "foldM parse_token (at_begin ns) (print_node n @ print_node op) = Inr (at_begin (ns @ [n, op]))"
    by (intro parse_link) simp
  with 2 show ?case
    using foldM_append [of parse_token "at_begin ns" "print_node n @ print_node op" "print_pipeline rest"]
    by (simp add: print_pipeline_def)
qed (simp_all add: print_pipeline_def)

lemma parse_last:
  assumes "node_ok n"
  shows "\<exists>p. foldM parse_token (at_begin ns) (print_node n) = Inr p \<and> p_current p = Some n \<and> p_pipeline p = ns"
  using assms parse_command parse_chdir
  by (cases n) (auto simp: in_command_def simp del: print_node.simps(2))

lemma printable_parses:
  assumes "printable_pipeline ns"
  shows "parse_tokens (print_pipeline ns) = Inr ns"
proof -
  obtain pre n where ns: "ns = pre @ [n]" and ok: "links_ok pre" "node_ok n"
    using printable_split [OF assms] by auto
  obtain p where "foldM parse_token (at_begin pre) (print_node n) = Inr p" "p_current p = Some n" "p_pipeline p = pre"
    using parse_last [OF ok(2)] by blast
  with parse_links [OF ok(1), of "[]"] show ?thesis
    by (simp add: parse_tokens_def ns print_pipeline_def foldM_append init_parser_def at_begin_def commit_command_def)
qed

text \<open>One more token after a printed pipeline.\<close>

lemma parse_trailing:
  assumes "printable_pipeline ns"
  shows "parse_tokens (print_pipeline ns @ [''&&'']) = Inl AssertionError"
    and "last ns = Command c \<Longrightarrow> t \<in> {''>'', ''2>'', ''<''} \<Longrightarrow> parse_tokens (print_pipeline ns @ [t]) = Inr ns"
proof -
  obtain pre n where ns: "ns = pre @ [n]" and ok: "links_ok pre" "node_ok n"
    using printable_split [OF assms] by auto
  have pre: "foldM parse_token init_parser (print_pipeline pre) = Inr (at_begin pre)"
    using parse_links [OF ok(1), of "[]"] by (simp add: init_parser_def at_begin_def)
  have print: "print_pipeline ns @ [t] = print_pipeline pre @ print_node n @ [t]" for t
    by (simp add: ns print_pipeline_def)
  have "link_ok n And" using ok(2) by (cases n) auto
  from parse_link [OF this, of pre]
  have "foldM parse_token init_parser (print_pipeline ns @ [''&&'']) = Inr (at_begin (pre @ [n, And]))"
    unfolding print by (intro foldM_appendI [OF pre]) simp
  then show "parse_tokens (print_pipeline ns @ [''&&'']) = Inl AssertionError"
    by (simp add: parse_tokens_def commit_command_def at_begin_def)
  assume c: "last ns = Command c" and t: "t \<in> {''>'', ''2>'', ''<''}"
  then have n: "n = Command c" by (simp add: ns)
  then have "foldM parse_token (at_begin pre) (print_node n) = Inr (in_command pre c)"
    using ok(2) parse_command [of c pre] by (simp split: if_splits)
  moreover have "\<exists>p. foldM parse_token (in_command pre c) [t] = Inr p \<and> p_current p = Some n \<and> p_pipeline p = pre"
    using t by (auto simp: parse_token_def command_token_def in_command_def n)
  ultimately obtain p where p: "foldM parse_token init_parser (print_pipeline ns @ [t]) = Inr p"
      "p_current p = Some n" "p_pipeline p = pre"
    unfolding print using foldM_appendI pre by metis
  then show "parse_tokens (print_pipeline ns @ [t]) = Inr ns"
    by (simp add: parse_tokens_def commit_command_def ns)
qed

lemma parse_tokens_error:
  assumes "parse_tokens ts = Inl e"
  shows "e = AssertionError"
proof -
  from assms consider "foldM parse_token init_parser ts = Inl e" | p where "commit_command p = Inl e"
    by (auto simp: parse_tokens_def res_simps)
  then show ?thesis
    by cases (use foldM_parse_error [OF init_parser_inv] in \<open>auto simp: commit_command_def split: option.splits\<close>)
qed

lemma parsed_printable:
  assumes "parse_tokens ts = Inr ns"
  shows "printable_pipeline ns"
proof -
  from assms obtain p where p: "foldM parse_token init_parser ts = Inr p"
      and c: "rbind (commit_command p) (\<lambda>p. Inr (p_pipeline p)) = Inr ns"
    by (auto simp: parse_tokens_def res_simps)
  from parser_run_inv [OF p] have inv: "parser_inv p" .
  with c obtain n where "p_current p = Some n" "ns = p_pipeline p @ [n]" "node_ok n" "links_ok (p_pipeline p)"
    by (cases "p_state p") (auto simp: parser_inv_def commit_command_def)
  then show ?thesis by (simp add: printable_snoc)
qed

section \<open>What a run did\<close>

fun launched :: "event list \<Rightarrow> popen_args list" where
  "launched [] = []"
| "launched (Popen i a # tr) = a # launched tr"
| "launched (_ # tr) = launched tr"

fun started :: "event list \<Rightarrow> nat list" where
  "started [] = []"
| "started (Popen i a # tr) = i # started tr"
| "started (_ # tr) = started tr"

fun waited :: "event list \<Rightarrow> nat list" where
  "waited [] = []"
| "waited (Wait i # tr) = i # waited tr"
| "waited (_ # tr) = waited tr"

fun opened :: "event list \<Rightarrow> string list" where
  "opened [] = []"
| "opened (OpenRead f # tr) = f # opened tr"
| "opened (OpenWrite f # tr) = f # opened tr"
| "opened (_ # tr) = opened tr"

fun closed :: "event list \<Rightarrow> string list" where
  "closed [] = []"
| "closed (Close f # tr) = f # closed tr"
| "closed (_ # tr) = closed tr"

lemma launched_append [simp]: "launched (xs @ ys) = launched xs @ launched ys"
  by (induction xs rule: launched.induct) auto

lemma started_append [simp]: "started (xs @ ys) = started xs @ started ys"
  by (induction xs rule: started.induct) auto

lemma waited_append [simp]: "waited (xs @ ys) = waited xs @ waited ys"
  by (induction xs rule: waited.induct) auto

lemma opened_append [simp]: "opened (xs @ ys) = opened xs @ opened ys"
  by (induction xs rule: opened.induct) auto

lemma closed_append [simp]: "closed (xs @ ys) = closed xs @ closed ys"
  by (induction xs rule: closed.induct) auto

lemma trace_of_closes [simp]:
  "launched (map Close fs) = []" "started (map Close fs) = []" "waited (map Close fs) = []"
  "opened (map Close fs) = []" "closed (map Close fs) = fs"
  by (induction fs) auto

text \<open>
  Resources: every opened file is closed or on the list of files to close, and the
  processes are numbered in the order they start, waited for or still in the pipe.
\<close>

definition runner_inv :: "runner \<Rightarrow> bool" where
  "runner_inv r \<longleftrightarrow>
     opened (r_trace r) = closed (r_trace r) @ r_files r \<and>
     started (r_trace r) = [0..<r_procs r] \<and>
     waited (r_trace r) @ r_piped r = [0..<r_procs r]"

lemma show_if_fields [simp]:
  "r_trace (show_if b s r) = r_trace r" "r_procs (show_if b s r) = r_procs r" "r_files (show_if b s r) = r_files r"
  "r_piped (show_if b s r) = r_piped r" "r_state (show_if b s r) = r_state r" "r_cwd (show_if b s r) = r_cwd r"
  "show_if False s r = r"
  by (simp_all add: show_if_def)

lemma display_command_fields [simp]:
  "r_trace (display_command b c r) = r_trace r" "r_procs (display_command b c r) = r_procs r"
  "r_files (display_command b c r) = r_files r" "r_piped (display_command b c r) = r_piped r"
  "r_state (display_command b c r) = r_state r" "r_cwd (display_command b c r) = r_cwd r"
  "display_command False c r = r"
  by (simp_all add: display_command_def)

lemma runner_inv_show [simp]:
  "runner_inv (show_if b s r) = runner_inv r" "runner_inv (display_command b c r) = runner_inv r"
  "runner_inv (r\<lparr>r_cwd := d\<rparr>) = runner_inv r" "runner_inv (r\<lparr>r_state := st, r_display := ds\<rparr>) = runner_inv r"
  by (simp_all add: runner_inv_def)

lemma setup_inv:
  assumes "runner_inv r"
  shows "runner_inv (fst (open_out_file os f r))" "runner_inv (fst (setup_stdin os b c r))"
    "runner_inv (fst (setup_stdout os b c r))" "runner_inv (fst (setup_stderr os b c r))"
proof -
  show *: "runner_inv (fst (open_out_file os f r))" for f
    using assms by (auto simp: open_out_file_def runner_inv_def emit_def)
  show "runner_inv (fst (setup_stdin os b c r))"
    using assms by (auto simp: setup_stdin_def runner_inv_def emit_def Let_def split: option.splits)
  show "runner_inv (fst (setup_stdout os b c r))" "runner_inv (fst (setup_stderr os b c r))"
    using * assms by (auto simp: setup_stdout_def setup_stderr_def split: option.splits target.splits prod.splits sum.splits)
      (metis fst_conv)+
qed

lemma spawn_inv:
  assumes "runner_inv r" "spawn os b c r = (r', x)"
  shows "runner_inv r'"
proof -
  let ?r0 = "display_command b c r"
  obtain r1 x1 where 1: "setup_stdin os b c ?r0 = (r1, x1)" by fastforce
  obtain r2 x2 where 2: "setup_stdout os b c r1 = (r2, x2)" by fastforce
  obtain r3 x3 where 3: "setup_stderr os b c r2 = (r3, x3)" by fastforce
  have i1: "runner_inv r1" using setup_inv(2) [of ?r0 os b c] 1 assms(1) by simp
  have i2: "runner_inv r2" using setup_inv(3) [of r1 os b c] 2 i1 by simp
  have i3: "runner_inv r3" using setup_inv(4) [of r2 os b c] 3 i2 by simp
  have "runner_inv ((emit (Popen (r_procs r3) a) r3)\<lparr>r_piped := r_piped r3 @ [r_procs r3], r_procs := r_procs r3 + 1\<rparr>)" for a
    using i3 by (auto simp: runner_inv_def emit_def)
  with i1 i2 i3 1 2 3 assms(2) show ?thesis
    by (auto simp: spawn_def Let_def emit_def split: sum.splits if_splits)
qed

lemma fst_wait_all: "fst (wait_all os is r) = r\<lparr>r_trace := r_trace r @ map Wait is\<rparr>"
  by (induction "is" arbitrary: r) (simp_all add: Let_def case_prod_unfold emit_def)

lemma trace_of_waits [simp]:
  "launched (map Wait is) = []" "started (map Wait is) = []" "waited (map Wait is) = is"
  "opened (map Wait is) = []" "closed (map Wait is) = []"
  by (induction "is") auto

lemma fst_exec_piped: "fst (exec_piped_commands os r) = r\<lparr>r_trace := r_trace r @ map Wait (r_piped r)\<rparr>"
  by (simp add: exec_piped_commands_def case_prod_unfold fst_wait_all)

lemma exec_close_inv:
  assumes "runner_inv r"
  shows "runner_inv (reset_group (close_files (fst (exec_piped_commands os r))))"
    and "opened (r_trace (close_files (fst (exec_piped_commands os r))))
         = closed (r_trace (close_files (fst (exec_piped_commands os r))))"
    and "started (r_trace (close_files (fst (exec_piped_commands os r))))
         = waited (r_trace (close_files (fst (exec_piped_commands os r))))"
  using assms by (auto simp: runner_inv_def reset_group_def close_files_def fst_exec_piped)

definition released :: "event list \<Rightarrow> bool" where
  "released tr \<longleftrightarrow> opened tr = closed tr \<and> started tr = waited tr"

lemma exec_close_released:
  "runner_inv r \<Longrightarrow> released (r_trace (close_files (fst (exec_piped_commands os r))))"
  by (simp add: released_def exec_close_inv)

lemma released_print:
  "runner_inv r \<Longrightarrow> released (r_trace (close_files (emit (Print s) (fst (exec_piped_commands os r)))))"
  by (auto simp: released_def runner_inv_def close_files_def emit_def fst_exec_piped)

lemma pipeline_induct [case_names Nil Chdir_end Chdir Command_end Command Pipe And Or]:
  assumes "P []" and "\<And>d. P [Chdir d]" and "\<And>d op ns. P ns \<Longrightarrow> P (Chdir d # op # ns)"
    and "\<And>c. P [Command c]" and "\<And>c op ns. P ns \<Longrightarrow> P (Command c # op # ns)"
    and "\<And>ns. P (Pipe # ns)" and "\<And>ns. P (And # ns)" and "\<And>ns. P (Or # ns)"
  shows "P ns"
  using assms
  by induction_schema (metis list.exhaust node.exhaust, lexicographic_order)

lemma run_loop_released:
  assumes "runner_inv r" "run_loop os b r ns = (r', Inr (Some v))"
  shows "released (r_trace r')"
  using assms
proof (induction ns arbitrary: r rule: pipeline_induct)
  case (Chdir d op ns)
  from Chdir.prems show ?case
    by (auto split: if_splits option.splits elim!: Chdir.IH [rotated])
next
  case (Command_end c)
  obtain r1 x where sp: "spawn os b c r = (r1, x)" by fastforce
  have inv: "runner_inv r1" using spawn_inv [OF Command_end(1) sp] .
  from Command_end(2) sp exec_close_released [OF inv, of os] released_print [OF inv] show ?case
    by (auto simp: Let_def case_prod_unfold split: if_splits sum.splits)
next
  case (Command c op ns)
  obtain r1 x where sp: "spawn os b c r = (r1, x)" by fastforce
  have inv: "runner_inv r1" using spawn_inv [OF Command.prems(1) sp] .
  note facts = Command.prems(2) sp inv exec_close_released [OF inv, of os]
    Command.IH [OF exec_close_inv(1) [OF inv, of os]]
    Command.IH [of r1] Command.IH [of "r1\<lparr>r_state := RPIPE, r_display := r_display r1 @ [''|'']\<rparr>"]
  obtain u where x: "x = Inr u" using facts(1,2) by (cases x) auto
  show ?case
  proof (cases op)
    case Or
    with facts x show ?thesis by (simp add: Let_def case_prod_unfold split: if_splits)
  next
    case And
    with facts x show ?thesis by (simp add: Let_def case_prod_unfold split: if_splits)
  qed (use facts x in simp_all)
qed simp_all


section \<open>The meaning of a pipeline\<close>

text \<open>
  What the operating system is expected to do for the command line to run: files open,
  processes start, and the exit code of the \<open>i\<close>-th process does not depend on when it is
  asked for.
\<close>

definition os_works :: "os \<Rightarrow> (nat \<Rightarrow> int) \<Rightarrow> bool" where
  "os_works os code \<longleftrightarrow>
     (\<forall>h f. os_open_ok os h f) \<and> (\<forall>h a. os_popen_ok os h a) \<and> (\<forall>h i. os_exit_code os h i = code i)"

definition output_file :: "string \<Rightarrow> out_dst" where
  "output_file f = (if f = ''NUL:'' \<or> f = ''/dev/null'' then DstNull else DstFile f)"

definition output_of :: "target option \<Rightarrow> out_dst" where
  "output_of t = (case t of None \<Rightarrow> DstNone | Some ToPIPE \<Rightarrow> DstPIPE | Some ToSTDOUT \<Rightarrow> DstSTDOUT
                  | Some (ToFile f) \<Rightarrow> output_file f)"

text \<open>The arguments of the process for a command: \<open>piped\<close> when the previous operator was \<^verbatim>\<open>|\<close>.\<close>

definition launch :: "os \<Rightarrow> string \<Rightarrow> bool \<Rightarrow> nat \<Rightarrow> command \<Rightarrow> popen_args" where
  "launch os cwd piped k c =
     \<lparr>po_argv = cmd_argv c,
      po_stdin = (if piped then InProc (k - 1) else case cmd_stdin c of None \<Rightarrow> InNone | Some f \<Rightarrow> InFile f),
      po_stdout = output_of (cmd_stdout c), po_stderr = output_of (cmd_stderr c),
      po_env = command_env os c, po_cwd = (if cwd = ''.'' then None else Some cwd)\<rparr>"

text \<open>
  The processes a pipeline starts and its exit code, read from left to right: \<^verbatim>\<open>k\<close>
  processes have been started.  The value of a pipe is that of its last process; an
  operator whose left side decides ends the whole line.
\<close>

fun shell_sem :: "os \<Rightarrow> (nat \<Rightarrow> int) \<Rightarrow> nat \<Rightarrow> string \<Rightarrow> bool \<Rightarrow> node list \<Rightarrow> popen_args list \<times> int" where
  "shell_sem os code k cwd piped (Chdir (Some d) # op # ns) = shell_sem os code k (path_join cwd d) piped ns"
| "shell_sem os code k cwd piped [Command c] = ([launch os cwd piped k c], code k)"
| "shell_sem os code k cwd piped (Command c # Pipe # ns) =
     (let (ps, v) = shell_sem os code (k + 1) cwd True ns in (launch os cwd piped k c # ps, v))"
| "shell_sem os code k cwd piped (Command c # And # ns) =
     (if code k = 0
      then let (ps, v) = shell_sem os code (k + 1) cwd False ns in (launch os cwd piped k c # ps, v)
      else ([launch os cwd piped k c], code k))"
| "shell_sem os code k cwd piped (Command c # Or # ns) =
     (if code k \<noteq> 0
      then let (ps, v) = shell_sem os code (k + 1) cwd False ns in (launch os cwd piped k c # ps, v)
      else ([launch os cwd piped k c], code k))"
| "shell_sem os code k cwd piped _ = ([], 0)"

text \<open>A line that ends in a command and whose \<^verbatim>\<open>cd\<close> nodes all name a directory.\<close>

definition runnable :: "node list \<Rightarrow> bool" where
  "runnable ns \<longleftrightarrow> printable_pipeline ns \<and> Chdir None \<notin> set ns \<and> (\<exists>c. last ns = Command c)"

lemma snd_wait_all: "os_works os code \<Longrightarrow> snd (wait_all os is r) = map code is"
  by (induction "is" arbitrary: r) (simp_all add: Let_def case_prod_unfold os_works_def)

lemma combine_retvals_last: "retvals \<noteq> [] \<Longrightarrow> combine_retvals retvals = last retvals"
  by (auto simp: combine_retvals_def list_ex_iff)

lemma exec_piped_code:
  assumes "os_works os code" "r_piped r \<noteq> []"
  shows "exec_piped_commands os r = (r\<lparr>r_trace := r_trace r @ map Wait (r_piped r)\<rparr>, code (last (r_piped r)))"
  using assms fst_exec_piped [of os r]
  by (auto simp: exec_piped_commands_def case_prod_unfold prod_eq_iff snd_wait_all combine_retvals_last last_map)

text \<open>The state between two commands: \<open>k\<close> processes started, \<open>piped\<close> when a pipe is open.\<close>

definition running :: "runner \<Rightarrow> nat \<Rightarrow> string \<Rightarrow> bool \<Rightarrow> bool" where
  "running r k cwd piped \<longleftrightarrow> r_procs r = k \<and> r_cwd r = cwd \<and> (r_state r = RPIPE \<longleftrightarrow> piped)
     \<and> (piped \<longrightarrow> r_piped r \<noteq> [] \<and> last (r_piped r) = k - 1)"

definition same_core :: "runner \<Rightarrow> runner \<Rightarrow> bool" where
  "same_core r r' \<longleftrightarrow> r_procs r' = r_procs r \<and> r_cwd r' = r_cwd r \<and> r_state r' = r_state r
     \<and> r_piped r' = r_piped r \<and> launched (r_trace r') = launched (r_trace r)"

lemma setup_works:
  assumes os: "os_works os code"
  shows "running r k cwd piped \<Longrightarrow>
           \<exists>r'. setup_stdin os b c r = (r', Inr (po_stdin (launch os cwd piped k c))) \<and> same_core r r'"
    and "\<exists>r'. open_out_file os f r = (r', Inr (output_file f)) \<and> same_core r r'"
proof -
  have ok: "os_open_ok os h f" for h f
    using os by (simp add: os_works_def)
  show "running r k cwd piped \<Longrightarrow>
      \<exists>r'. setup_stdin os b c r = (r', Inr (po_stdin (launch os cwd piped k c))) \<and> same_core r r'"
    by (cases "r_state r"; cases "cmd_stdin c"; cases "r_piped r")
      (auto simp: setup_stdin_def launch_def running_def ok Let_def emit_def same_core_def show_if_def)
  show "\<exists>r'. open_out_file os f r = (r', Inr (output_file f)) \<and> same_core r r'"
    by (simp add: open_out_file_def output_file_def ok emit_def same_core_def)
qed

lemma same_core_refl [simp]: "same_core r r"
  by (simp add: same_core_def)

lemma same_core_show: "same_core r (show_if b s r') = same_core r r'"
  by (simp add: same_core_def)

lemma setup_out_works:
  assumes os: "os_works os code" and c: "command_ok c"
  shows "\<exists>r'. setup_stdout os b c r = (r', Inr (output_of (cmd_stdout c))) \<and> same_core r r'"
    and "\<exists>r'. setup_stderr os b c r = (r', Inr (output_of (cmd_stderr c))) \<and> same_core r r'"
proof -
  obtain g where g: "open_out_file os f r = (g f, Inr (output_file f))" "same_core r (g f)" for f
    using setup_works(2) [OF os, of _ r] by metis
  have "cmd_stdout c \<noteq> Some ToSTDOUT" "cmd_stderr c \<noteq> Some ToPIPE"
    using c by (simp_all add: command_ok_def)
  then show "\<exists>r'. setup_stdout os b c r = (r', Inr (output_of (cmd_stdout c))) \<and> same_core r r'"
    "\<exists>r'. setup_stderr os b c r = (r', Inr (output_of (cmd_stderr c))) \<and> same_core r r'"
    by (auto simp: setup_stdout_def setup_stderr_def output_of_def g same_core_show split: option.splits target.splits)
qed

lemma spawn_works:
  assumes os: "os_works os code" and c: "command_ok c" and run: "running r k cwd piped"
  shows "\<exists>r'. spawn os b c r = (r', Inr ()) \<and> r_procs r' = k + 1 \<and> r_cwd r' = cwd
     \<and> r_state r' = r_state r \<and> r_piped r' = r_piped r @ [k]
     \<and> launched (r_trace r') = launched (r_trace r) @ [launch os cwd piped k c]"
proof -
  let ?r0 = "display_command b c r"
  obtain r1 where 1: "setup_stdin os b c ?r0 = (r1, Inr (po_stdin (launch os cwd piped k c)))" "same_core ?r0 r1"
    using setup_works(1) [OF os, of ?r0 k cwd piped] run by (auto simp: running_def)
  obtain r2 where 2: "setup_stdout os b c r1 = (r2, Inr (output_of (cmd_stdout c)))" "same_core r1 r2"
    using setup_out_works(1) [OF os c] by blast
  obtain r3 where 3: "setup_stderr os b c r2 = (r3, Inr (output_of (cmd_stderr c)))" "same_core r2 r3"
    using setup_out_works(2) [OF os c] by blast
  have "os_popen_ok os h a" for h a using os by (simp add: os_works_def)
  with 1 2 3 run show ?thesis
    by (simp add: spawn_def Let_def emit_def launch_def same_core_def running_def)
qed

lemma launched_exec: "launched (r_trace (close_files r)) = launched (r_trace r)"
  by (simp add: close_files_def)

lemma printable_op [simp]:
  "\<not> printable_pipeline (Pipe # ns)" "\<not> printable_pipeline (And # ns)" "\<not> printable_pipeline (Or # ns)"
  by (cases ns; simp; cases "hd ns"; auto)+

lemma runnable_Cons:
  "runnable (n # op # ns) \<Longrightarrow> link_ok n op \<and> n \<noteq> Chdir None \<and> runnable ns"
  by (cases ns) (auto simp: runnable_def split: if_splits)

lemma run_loop_sem:
  assumes os: "os_works os code"
  shows "runnable ns \<Longrightarrow> running r k cwd piped \<Longrightarrow>
     \<exists>r'. run_loop os False r ns = (r', Inr (Some (snd (shell_sem os code k cwd piped ns))))
        \<and> launched (r_trace r') = launched (r_trace r) @ fst (shell_sem os code k cwd piped ns)"
proof (induction ns arbitrary: r k cwd piped rule: pipeline_induct)
  case (Chdir dir op ns)
  from runnable_Cons [OF Chdir.prems(1)] obtain d where d: "dir = Some d" "op = And" "runnable ns"
    by (cases dir; cases op; auto)
  have "running (r\<lparr>r_cwd := path_join (r_cwd r) d\<rparr>) k (path_join cwd d) piped"
    using Chdir.prems(2) by (simp add: running_def)
  from Chdir.IH [OF d(3) this] d Chdir.prems(2) show ?case by (simp add: running_def)
next
  case (Command_end c)
  then have "command_ok c" by (simp add: runnable_def)
  from spawn_works [OF os this Command_end(2)] obtain r1 where
    r1: "spawn os False c r = (r1, Inr ())" "r_piped r1 = r_piped r @ [k]"
      "launched (r_trace r1) = launched (r_trace r) @ [launch os cwd piped k c]" by blast
  then show ?case
    by (simp add: exec_piped_code [OF os] launched_exec)
next
  case (Command c op ns)
  from runnable_Cons [OF Command.prems(1)] have link: "link_ok (Command c) op" and rest: "runnable ns"
    by auto
  then have "command_ok c" by (cases op) auto
  from spawn_works [OF os this Command.prems(2)] obtain r1 where
    r1: "spawn os False c r = (r1, Inr ())" "r_procs r1 = k + 1" "r_cwd r1 = cwd" "r_piped r1 = r_piped r @ [k]"
      "launched (r_trace r1) = launched (r_trace r) @ [launch os cwd piped k c]" by blast
  let ?pipe = "r1\<lparr>r_state := RPIPE, r_display := r_display r1 @ [''|'']\<rparr>"
  let ?next = "reset_group (close_files (r1\<lparr>r_trace := r_trace r1 @ map Wait (r_piped r1)\<rparr>))"
  have "running ?pipe (k + 1) cwd True" and "running ?next (k + 1) cwd False"
    using r1 by (simp_all add: running_def reset_group_def close_files_def)
  note IH = Command.IH [OF rest this(1)] Command.IH [OF rest this(2)]
  have "launched (r_trace ?next) = launched (r_trace r1)"
    by (simp add: reset_group_def close_files_def)
  with r1 IH link show ?case
    by (cases op) (auto simp: exec_piped_code [OF os] Let_def launched_exec case_prod_unfold)
qed (auto simp: runnable_def)

text \<open>A command followed by \<^verbatim>\<open>&&\<close> or \<^verbatim>\<open>||\<close>.\<close>

fun has_logic :: "node list \<Rightarrow> bool" where
  "has_logic (Command c # op # ns) \<longleftrightarrow> op = And \<or> op = Or \<or> has_logic ns"
| "has_logic (Chdir d # op # ns) = has_logic ns"
| "has_logic _ = False"

lemma run_loop_verbose:
  assumes os: "os_works os code"
  shows "runnable ns \<Longrightarrow> running r k cwd piped \<Longrightarrow>
     snd (run_loop os True r ns) =
       (if has_logic ns then Inl UnboundLocalError else Inr (Some (snd (shell_sem os code k cwd piped ns))))"
proof (induction ns arbitrary: r k cwd piped rule: pipeline_induct)
  case (Chdir dir op ns)
  from runnable_Cons [OF Chdir.prems(1)] obtain d where d: "dir = Some d" "op = And" "runnable ns"
    by (cases dir; cases op; auto)
  have "running (show_if True s (r\<lparr>r_cwd := path_join (r_cwd r) d\<rparr>)) k (path_join cwd d) piped" for s
    using Chdir.prems(2) by (simp add: running_def)
  from Chdir.IH [OF d(3) this] d show ?case by simp
next
  case (Command_end c)
  then have "command_ok c" by (simp add: runnable_def)
  from spawn_works [OF os this Command_end(2), of True] obtain r1 where
    "spawn os True c r = (r1, Inr ())" "r_piped r1 = r_piped r @ [k]" by blast
  then show ?case
    by (simp add: exec_piped_code [OF os])
next
  case (Command c op ns)
  from runnable_Cons [OF Command.prems(1)] have link: "link_ok (Command c) op" and rest: "runnable ns"
    by auto
  then have "command_ok c" by (cases op) auto
  from spawn_works [OF os this Command.prems(2), of True] obtain r1 where
    r1: "spawn os True c r = (r1, Inr ())" "r_procs r1 = k + 1" "r_cwd r1 = cwd" "r_piped r1 = r_piped r @ [k]"
    by blast
  let ?pipe = "r1\<lparr>r_state := RPIPE, r_display := r_display r1 @ [''|'']\<rparr>"
  have "running ?pipe (k + 1) cwd True" using r1 by (simp add: running_def)
  from Command.IH [OF rest this] r1 link show ?case
    by (cases op) (auto simp: exec_piped_code [OF os] Let_def case_prod_unfold)
qed (auto simp: runnable_def)

text \<open>An \<^verbatim>\<open>||\<close> leaves no mark in the abbreviated command line.\<close>

lemma abbreviated_drops_or:
  "get_abbreviated_command ns = get_abbreviated_command (filter (\<lambda>n. n \<noteq> Or) ns)"
proof -
  have "concat (map abbreviate_node ns) = concat (map abbreviate_node (filter (\<lambda>n. n \<noteq> Or) ns))"
    by (induction ns) (auto simp: abbreviate_node_def)
  then show ?thesis by (simp add: get_abbreviated_command_def)
qed

text \<open>A working operating system on which only the second process fails.\<close>

definition example_os :: os where
  "example_os = \<lparr>os_open_ok = \<lambda>_ _. True, os_popen_ok = \<lambda>_ _. True,
                 os_exit_code = \<lambda>_ i. if i = 1 then 3 else 0, os_environ = []\<rparr>"

section \<open>Claims\<close>

text \<open>
  C33: the pipelines that \<^verbatim>\<open>Pipeline.parse\<close> can return are exactly the printable ones
  (commands joined by operators, every \<^verbatim>\<open>|\<close> after a command whose output is the pipe,
  \<^verbatim>\<open>cd\<close> followed by \<^verbatim>\<open>&&\<close> or at the end, no operator among the arguments), and
  printing such a pipeline and parsing it again gives it back.
\<close>

theorem parse_print_roundtrip:
  "((\<exists>ts. parse_tokens ts = Inr ns) \<longleftrightarrow> printable_pipeline ns)
   \<and> (parse_tokens ts = Inr ns \<longrightarrow> parse_tokens (print_pipeline ns) = Inr ns)"
  using printable_parses parsed_printable by blast

theorem parse_print_roundtrip_witness:
  "parse_tokens (print_pipeline [Command (new_command ''ls''), And, Chdir (Some ''d'')])
   = Inr [Command (new_command ''ls''), And, Chdir (Some ''d'')]"
proof -
  have "parse_tokens [''ls'', ''&&'', ''cd'', ''d''] = Inr [Command (new_command ''ls''), And, Chdir (Some ''d'')]"
    by code_simp
  with parse_print_roundtrip [where ts = "[''ls'', ''&&'', ''cd'', ''d'']"] show ?thesis by blast
qed

text \<open>
  Parsing fails only by an assertion, whatever the tokens are: no token list makes
  \<^verbatim>\<open>Pipeline.parse\<close> read an attribute of a node that lacks it.  An empty token list and
  every well-formed line followed by \<^verbatim>\<open>&&\<close> are rejected; a line of commands followed by a
  redirection that names no file is accepted and means the line without it.
\<close>

theorem parse_errors:
  "(parse_tokens ts = Inl e \<longrightarrow> e = AssertionError)
   \<and> parse_tokens [] = Inl AssertionError
   \<and> (printable_pipeline ns \<longrightarrow> parse_tokens (print_pipeline ns @ [''&&'']) = Inl AssertionError)
   \<and> (printable_pipeline ns \<and> last ns = Command c \<and> t \<in> {''>'', ''2>'', ''<''}
      \<longrightarrow> parse_tokens (print_pipeline ns @ [t]) = Inr ns)"
  using parse_trailing parse_tokens_error
  by (auto simp: parse_tokens_def init_parser_def commit_command_def)

theorem parse_errors_witness:
  "parse_tokens [''ls'', ''>''] = Inr [Command (new_command ''ls'')]"
proof -
  have "printable_pipeline [Command (new_command ''ls'')]"
    "print_pipeline [Command (new_command ''ls'')] @ [''>''] = [''ls'', ''>'']"
    by code_simp+
  with parse_errors [where ns = "[Command (new_command ''ls'')]" and t = "''>''" and c = "new_command ''ls''"]
  show ?thesis by simp
qed

text \<open>
  C3: on an operating system that opens the files and starts the processes, a quiet
  \<^verbatim>\<open>Pipeline.run\<close> of a parsed line that ends in a command returns, starts exactly the
  processes that the line means, in order, with their arguments, redirections, environment
  and working directory, and its value is the exit code the line means.
\<close>

theorem run_refines_shell_sem:
  assumes "os_works os code" and "runnable ns"
  shows "\<exists>r. run os False ns = (r, Inr (Some (snd (shell_sem os code 0 ''.'' False ns))))
     \<and> launched (r_trace r) = fst (shell_sem os code 0 ''.'' False ns)"
  using run_loop_sem [OF assms, of init_runner 0 "''.''" False]
  by (simp add: run_def running_def init_runner_def)

theorem run_refines_shell_sem_witness:
  "snd (run example_os False
     [Command (new_command ''a''), And, Command (new_command ''b''), Or, Command (new_command ''c'')]) = Inr (Some 0)"
proof -
  let ?ns = "[Command (new_command ''a''), And, Command (new_command ''b''), Or, Command (new_command ''c'')]"
  have "os_works example_os (\<lambda>i. if i = 1 then 3 else 0)"
    by (simp add: os_works_def example_os_def)
  moreover have "printable_pipeline ?ns" by code_simp
  then have "runnable ?ns" by (simp add: runnable_def)
  moreover have "snd (shell_sem example_os (\<lambda>i. if i = 1 then 3 else 0) 0 ''.'' False ?ns) = 0"
    by (simp add: Let_def case_prod_unfold)
  ultimately show ?thesis
    using run_refines_shell_sem [of example_os "\<lambda>i. if i = 1 then 3 else 0" ?ns] by auto
qed

text \<open>
  C34: whatever the operating system does, a run that returns an exit code has closed every
  file it opened and waited for every process it started, each once and in order.
\<close>

theorem run_releases:
  assumes "run os verbose ns = (r, Inr (Some v))"
  shows "opened (r_trace r) = closed (r_trace r) \<and> started (r_trace r) = waited (r_trace r)"
  using run_loop_released [of init_runner os verbose ns r v] assms
  by (simp add: run_def released_def runner_inv_def init_runner_def)

theorem run_releases_witness:
  "opened (r_trace (fst (run example_os True [Command ((new_command ''a'')\<lparr>cmd_stdin := Some ''in''\<rparr>)]))) = [''in'']
   \<and> closed (r_trace (fst (run example_os True [Command ((new_command ''a'')\<lparr>cmd_stdin := Some ''in''\<rparr>)]))) = [''in'']"
proof -
  let ?ns = "[Command ((new_command ''a'')\<lparr>cmd_stdin := Some ''in''\<rparr>)]"
  have "snd (run example_os True ?ns) = Inr (Some 0)" and o: "opened (r_trace (fst (run example_os True ?ns))) = [''in'']"
    by code_simp+
  then have "run example_os True ?ns = (fst (run example_os True ?ns), Inr (Some 0))"
    by (metis prod.collapse)
  from run_releases [OF this] o show ?thesis by simp
qed

text \<open>
  In verbose mode the value of a line of pipes is the same, but a line in which a
  command is followed by \<^verbatim>\<open>&&\<close> or \<^verbatim>\<open>||\<close> always fails: the message reads \<^verbatim>\<open>retval\<close>
  before it is assigned.
\<close>

theorem run_verbose:
  assumes "os_works os code" and "runnable ns"
  shows "snd (run os True ns) =
     (if has_logic ns then Inl UnboundLocalError else snd (run os False ns))"
  using run_loop_verbose [OF assms, of init_runner 0 "''.''" False]
    run_loop_sem [OF assms, of init_runner 0 "''.''" False]
  by (auto simp: run_def running_def init_runner_def)

theorem run_verbose_witness:
  "snd (run example_os True [Command (new_command ''a''), And, Command (new_command ''b'')]) = Inl UnboundLocalError"
proof -
  let ?ns = "[Command (new_command ''a''), And, Command (new_command ''b'')]"
  have "os_works example_os (\<lambda>i. if i = 1 then 3 else 0)"
    by (simp add: os_works_def example_os_def)
  moreover have "printable_pipeline ?ns" by code_simp
  then have "runnable ?ns" by (simp add: runnable_def)
  ultimately show ?thesis
    using run_verbose [of example_os "\<lambda>i. if i = 1 then 3 else 0" ?ns] by simp
qed

end
