(* ===== verification/Check_Style.thy ===== *)
theory Check_Style
  imports Py_Strings
begin

text \<open>
  \<^verbatim>\<open>src/source/ns-3-dev/utils/check-style.py\<close>: the coding-style checker.  It runs
  \<^verbatim>\<open>uncrustify\<close> on a file, takes the unified diff of the result, drops the changes of
  trailing whitespace from it and applies it with \<^verbatim>\<open>patch\<close>.  The external programs,
  \<^verbatim>\<open>difflib.unified_diff\<close> and the names of temporary files are the fields of the record
  \<open>tools\<close>; a file is the list of its lines.
\<close>

section \<open>Configuration\<close>

definition level0 :: "string list" where
  "level0 =
     ['''',
      ''sp_func_proto_paren=Add'',
      ''sp_func_def_paren=Add'',
      ''sp_func_call_paren=Add'',
      ''sp_after_semi_for=Ignore'',
      ''sp_before_sparen=Ignore'',
      ''sp_before_ellipsis=Remove'',
      ''sp_type_func=Ignore'',
      ''sp_after_type=Ignore'',
      ''nl_class_leave_one_liners=True'',
      ''nl_enum_leave_one_liners=True'',
      ''nl_func_leave_one_liners=True'',
      ''nl_assign_leave_one_liners=True'',
      ''nl_collapse_empty_body=True'',
      ''nl_getset_leave_one_liners=True'',
      ''nl_if_leave_one_liners=True'',
      ''nl_fdef_brace=Ignore'',
      ''# finally, indentation configuration'',
      ''indent_with_tabs=0'',
      ''indent_namespace=false'',
      ''indent_columns=2'',
      ''indent_brace=2'',
      ''indent_case_brace=indent_columns'',
      ''indent_class=true'',
      ''indent_class_colon=True'',
      ''indent_switch_case=indent_columns'',
      ''# alignment'',
      ''indent_align_assign=False'',
      ''align_left_shift=True'',
      ''# comment reformating disabled'',
      ''cmt_reflow_mode=1 # do not touch comments at all'',
      ''cmt_indent_multi=False # really, do not touch them'',
      ''disable_processing_cmt= '' @ [CHR 0x22] @ '' *NS_CHECK_STYLE_OFF*'' @ [CHR 0x22],
      ''enable_processing_cmt=  '' @ [CHR 0x22] @ '' *NS_CHECK_STYLE_ON*'' @ [CHR 0x22]]"

definition level1 :: "string list" where
  "level1 =
     ['''',
      ''# extra spaces here and there'',
      ''sp_brace_typedef=Add'',
      ''sp_enum_assign=Add'',
      ''sp_before_sparen=Add'',
      ''sp_after_semi_for=Add'',
      ''sp_arith=Add'',
      ''sp_assign=Add'',
      ''sp_compare=Add'',
      ''sp_func_class_paren=Add'',
      ''sp_after_type=Add'',
      ''sp_type_func=Add'',
      ''sp_angle_paren=Add'']"

definition level2 :: "string list" where
  "level2 =
     ['''',
      ''nl_if_brace=Add'',
      ''nl_brace_else=Add'',
      ''nl_elseif_brace=Add'',
      ''nl_else_brace=Add'',
      ''nl_while_brace=Add'',
      ''nl_do_brace=Add'',
      ''nl_for_brace=Add'',
      ''nl_brace_while=Add'',
      ''nl_switch_brace=Add'',
      ''nl_after_case=True'',
      ''nl_namespace_brace=ignore'',
      ''nl_after_brace_open=True'',
      ''nl_class_leave_one_liners=False'',
      ''nl_enum_leave_one_liners=False'',
      ''nl_func_leave_one_liners=False'',
      ''nl_if_leave_one_liners=False'',
      ''nl_class_colon=Ignore'',
      ''nl_before_access_spec=2'',
      ''nl_after_access_spec=0'',
      ''indent_access_spec=-indent_columns'',
      ''nl_after_semicolon=True'',
      ''pos_class_colon=Lead'',
      ''pos_class_comma=Trail'',
      ''indent_constr_colon=true'',
      ''pos_bool=Lead'',
      ''nl_class_init_args=Add'',
      ''nl_template_class=Add'',
      ''nl_class_brace=Add'',
      ''# does not work very well'',
      ''nl_func_type_name=Ignore'',
      ''nl_func_scope_name=Ignore'',
      ''nl_func_type_name_class=Ignore'',
      ''nl_func_proto_type_name=Ignore'',
      ''# function'' @ [CHR 0x5C] @ ''n('',
      ''nl_func_paren=Remove'',
      ''nl_fdef_brace=Add'',
      ''nl_struct_brace=Add'',
      ''nl_enum_brace=Add'',
      ''nl_union_brace=Add'',
      ''mod_full_brace_do=Add'',
      ''mod_full_brace_for=Add'',
      ''mod_full_brace_if=Add'',
      ''mod_full_brace_while=Add'',
      ''mod_full_brace_for=Add'',
      ''mod_remove_extra_semicolon=True'',
      ''# max code width'',
      ''#code_width=128'',
      ''#ls_for_split_full=True'',
      ''#ls_func_split_full=True'',
      ''nl_cpp_lambda_leave_one_liners=True'']"

text \<open>\<^verbatim>\<open>uncrustify_config_file\<close>: the lines written for a level.\<close>

definition uncrustify_config_file :: "int \<Rightarrow> string list" where
  "uncrustify_config_file level =
     level0 @ (if level \<ge> 1 then level1 else []) @ (if level \<ge> 2 then level2 else [])"

section \<open>Patches\<close>

datatype line_type = NoType | SRC | DST | BOTH

record pline =
  pl_type :: line_type
  pl_line :: string

definition new_line :: pline where
  "new_line = \<lparr>pl_type = NoType, pl_line = []\<rparr>"

definition set_src :: "string \<Rightarrow> pline \<Rightarrow> pline" where
  "set_src line l = l\<lparr>pl_type := SRC, pl_line := line\<rparr>"

definition set_dst :: "string \<Rightarrow> pline \<Rightarrow> pline" where
  "set_dst line l = l\<lparr>pl_type := DST, pl_line := line\<rparr>"

definition set_both :: "string \<Rightarrow> pline \<Rightarrow> pline" where
  "set_both line l = l\<lparr>pl_type := BOTH, pl_line := line\<rparr>"

definition append_to_line :: "string \<Rightarrow> pline \<Rightarrow> pline" where
  "append_to_line s l = l\<lparr>pl_line := pl_line l @ s\<rparr>"

definition is_src :: "pline \<Rightarrow> bool" where
  "is_src l \<longleftrightarrow> pl_type l = SRC \<or> pl_type l = BOTH"

definition is_dst :: "pline \<Rightarrow> bool" where
  "is_dst l \<longleftrightarrow> pl_type l = DST \<or> pl_type l = BOTH"

abbreviation newline :: string where
  "newline \<equiv> [CHR 0x0A]"

definition write_line :: "pline \<Rightarrow> string res" where
  "write_line l =
     (case pl_type l of
        SRC \<Rightarrow> Inr (''-'' @ pl_line l @ newline)
      | DST \<Rightarrow> Inr (''+'' @ pl_line l @ newline)
      | BOTH \<Rightarrow> Inr ('' '' @ pl_line l @ newline)
      | NoType \<Rightarrow> Inl (PyException ''invalid patch''))"

text \<open>
  The lines of a chunk are objects that \<^verbatim>\<open>src()\<close> and \<^verbatim>\<open>dst()\<close> share, so these two
  return the positions of the lines.
\<close>

record chunk =
  ch_lines :: "pline list"
  ch_src_pos :: int
  ch_dst_pos :: int

definition new_chunk :: "string \<Rightarrow> string \<Rightarrow> chunk res" where
  "new_chunk src_pos dst_pos =
     (case (parse_nat 10 src_pos, parse_nat 10 dst_pos) of
        (Some s, Some d) \<Rightarrow> Inr \<lparr>ch_lines = [], ch_src_pos = int s, ch_dst_pos = int d\<rparr>
      | _ \<Rightarrow> Inl ValueError)"

definition add_line :: "pline \<Rightarrow> chunk \<Rightarrow> chunk" where
  "add_line l c = c\<lparr>ch_lines := ch_lines c @ [l]\<rparr>"

definition src_idx :: "chunk \<Rightarrow> nat list" where
  "src_idx c = filter (\<lambda>i. is_src (ch_lines c ! i)) [0..<length (ch_lines c)]"

definition dst_idx :: "chunk \<Rightarrow> nat list" where
  "dst_idx c = filter (\<lambda>i. is_dst (ch_lines c ! i)) [0..<length (ch_lines c)]"

definition src_len :: "chunk \<Rightarrow> nat" where
  "src_len c = length (src_idx c)"

definition dst_len :: "chunk \<Rightarrow> nat" where
  "dst_len c = length (dst_idx c)"

definition chunk_header :: "chunk \<Rightarrow> string" where
  "chunk_header c =
     ''@@ -'' @ show_int (ch_src_pos c) @ '','' @ show_nat (src_len c) @ '' +''
     @ show_int (ch_dst_pos c) @ '','' @ show_nat (dst_len c) @ '' @@'' @ newline"

definition write_chunk :: "chunk \<Rightarrow> string list res" where
  "write_chunk c = rbind (mapM write_line (ch_lines c)) (\<lambda>ls. Inr (chunk_header c # ls))"

record patch =
  pa_src :: string
  pa_dst :: string
  pa_chunks :: "chunk list"

definition new_patch :: patch where
  "new_patch = \<lparr>pa_src = [], pa_dst = [], pa_chunks = []\<rparr>"

definition add_chunk :: "chunk \<Rightarrow> patch \<Rightarrow> patch" where
  "add_chunk c p = p\<lparr>pa_chunks := pa_chunks p @ [c]\<rparr>"

definition write_patch :: "patch \<Rightarrow> string list res" where
  "write_patch p =
     rbind (mapM write_chunk (pa_chunks p)) (\<lambda>cs.
       Inr ((''--- '' @ pa_src p @ newline) # (''+++ '' @ pa_dst p @ newline) # concat cs))"

section \<open>Parsing a patch set\<close>

text \<open>
  \<^verbatim>\<open>^<prefix>(.*)$\<close>: the group, where \<^verbatim>\<open>.\<close> is not a newline and \<^verbatim>\<open>$\<close> also
  matches before a final one.
\<close>

definition match_rest :: "string \<Rightarrow> string \<Rightarrow> string option" where
  "match_rest prefix line =
     (if starts_with line prefix
      then let rest = drop (length prefix) line;
               g = takeWhile (\<lambda>c. c \<noteq> CHR 0x0A) rest;
               tail = dropWhile (\<lambda>c. c \<noteq> CHR 0x0A) rest
           in if tail = [] \<or> tail = newline then Some g else None
      else None)"

text \<open>\<^verbatim>\<open>([0-9]+)\<close> followed by a literal that does not begin with a digit.\<close>

definition match_digits :: "string \<Rightarrow> string \<Rightarrow> (string \<times> string) option" where
  "match_digits lit s =
     (let ds = takeWhile is_digit s; rest = dropWhile is_digit s
      in if ds \<noteq> [] \<and> starts_with rest lit then Some (ds, drop (length lit) rest) else None)"

definition match_chunk_start :: "string \<Rightarrow> (string \<times> string) option" where
  "match_chunk_start line =
     (if starts_with line ''@@ -''
      then Option.bind (match_digits '','' (drop 4 line)) (\<lambda>(g1, s1).
           Option.bind (match_digits '' +'' s1) (\<lambda>(g2, s2).
           Option.bind (match_digits '','' s2) (\<lambda>(g3, s3).
           Option.bind (match_digits '' @@'' s3) (\<lambda>(g4, s4). Some (g1, g3)))))
      else None)"

text \<open>
  \<^verbatim>\<open>current_patch\<close> is the last patch of the set, or unset while the set is empty.
  \<^verbatim>\<open>current_chunk\<close> is an object: the position of its patch and its position there; it
  stays in force when a new patch begins.
\<close>

record patch_parser =
  pp_patches :: "patch list"
  pp_chunk :: "(nat \<times> nat) option"

definition update_last :: "('a \<Rightarrow> 'a) \<Rightarrow> 'a list \<Rightarrow> 'a list" where
  "update_last f xs = butlast xs @ [f (last xs)]"

definition add_chunk_line :: "pline \<Rightarrow> patch_parser \<Rightarrow> patch_parser res" where
  "add_chunk_line l p =
     (case pp_chunk p of
        None \<Rightarrow> Inl UnboundLocalError
      | Some (i, j) \<Rightarrow>
          let patch = pp_patches p ! i;
              chunk = pa_chunks patch ! j
          in Inr (p\<lparr>pp_patches := (pp_patches p)
                      [i := patch\<lparr>pa_chunks := (pa_chunks patch)[j := add_line l chunk]\<rparr>]\<rparr>))"

definition parse_patch_line :: "patch_parser \<Rightarrow> string \<Rightarrow> patch_parser res" where
  "parse_patch_line p line =
     (case match_rest ''--- '' line of
        Some src \<Rightarrow> Inr (p\<lparr>pp_patches := pp_patches p @ [new_patch\<lparr>pa_src := src\<rparr>]\<rparr>)
      | None \<Rightarrow>
     (case match_rest ''+++ '' line of
        Some dst \<Rightarrow>
          if pp_patches p = [] then Inl AttributeError
          else Inr (p\<lparr>pp_patches := update_last (\<lambda>patch. patch\<lparr>pa_dst := dst\<rparr>) (pp_patches p)\<rparr>)
      | None \<Rightarrow>
     (case match_chunk_start line of
        Some (src_pos, dst_pos) \<Rightarrow>
          rbind (new_chunk src_pos dst_pos) (\<lambda>c.
            if pp_patches p = [] then Inl AttributeError
            else Inr \<lparr>pp_patches = update_last (add_chunk c) (pp_patches p),
                      pp_chunk = Some (length (pp_patches p) - 1, length (pa_chunks (last (pp_patches p))))\<rparr>)
      | None \<Rightarrow>
     (case match_rest ''-'' line of
        Some l \<Rightarrow> add_chunk_line (set_src l new_line) p
      | None \<Rightarrow>
     (case match_rest ''+'' line of
        Some l \<Rightarrow> add_chunk_line (set_dst l new_line) p
      | None \<Rightarrow>
     (case match_rest '' '' line of
        Some l \<Rightarrow> add_chunk_line (set_both l new_line) p
      | None \<Rightarrow> Inl (PyException [])))))))"

definition parse_patchset :: "string list \<Rightarrow> patch list res" where
  "parse_patchset generator =
     rbind (foldM parse_patch_line \<lparr>pp_patches = [], pp_chunk = None\<rparr> generator) (\<lambda>p. Inr (pp_patches p))"

section \<open>Dropping the changes of trailing whitespace\<close>

text \<open>
  \<^verbatim>\<open>^(.*)([ \t]+)$\<close> on a line without newline: the first group is greedy, so the second
  is the last character alone.
\<close>

definition match_whitespace :: "string \<Rightarrow> (string \<times> string) option" where
  "match_whitespace line =
     (if line \<noteq> [] \<and> (last line = CHR '' '' \<or> last line = CHR 0x09)
      then Some (butlast line, [last line]) else None)"

definition restore_line :: "pline list \<Rightarrow> nat \<Rightarrow> nat \<Rightarrow> pline list" where
  "restore_line lines s d =
     (case match_whitespace (pl_line (lines ! s)) of
        Some (g1, g2) \<Rightarrow>
          if g1 = pl_line (lines ! d) then lines[d := append_to_line g2 (lines ! d)] else lines
      | None \<Rightarrow> lines)"

text \<open>
  The loop over \<^verbatim>\<open>range(0, len(src))\<close>; \<open>False\<close> when \<^verbatim>\<open>dst[i]\<close> raised.
\<close>

fun restore_lines :: "nat list \<Rightarrow> nat list \<Rightarrow> pline list \<Rightarrow> pline list \<times> bool" where
  "restore_lines [] dst lines = (lines, True)"
| "restore_lines (s # src) [] lines = (lines, False)"
| "restore_lines (s # src) (d # dst) lines = restore_lines src dst (restore_line lines s d)"

definition restore_chunk :: "chunk \<Rightarrow> chunk \<times> bool" where
  "restore_chunk c =
     (let (lines, ok) = restore_lines (src_idx c) (dst_idx c) (ch_lines c)
      in (c\<lparr>ch_lines := lines\<rparr>, ok))"

fun restore_chunks :: "chunk list \<Rightarrow> chunk list \<times> bool" where
  "restore_chunks [] = ([], True)"
| "restore_chunks (c # cs) =
     (let (c, ok) = restore_chunk c
      in if ok then let (cs, ok) = restore_chunks cs in (c # cs, ok) else (c # cs, False))"

fun restore_patches :: "patch list \<Rightarrow> patch list" where
  "restore_patches [] = []"
| "restore_patches (p # ps) =
     (let (cs, ok) = restore_chunks (pa_chunks p); p = p\<lparr>pa_chunks := cs\<rparr>
      in if ok then p # restore_patches ps else p # ps)"

definition remove_trailing_whitespace_changes :: "string list \<Rightarrow> patch list res" where
  "remove_trailing_whitespace_changes patch_generator =
     rbind (parse_patchset patch_generator) (\<lambda>patchset. Inr (restore_patches patchset))"

section \<open>Indenting files\<close>

text \<open>
  \<open>t_installed\<close> tells whether \<^verbatim>\<open>uncrustify\<close> can be started, \<open>t_uncrustify cfg text\<close> is what
  it leaves in its output file; \<open>t_diff a b from to\<close> the lines that \<^verbatim>\<open>difflib.unified_diff\<close> generates;
  \<open>t_patch diff text\<close> what \<^verbatim>\<open>patch\<close> leaves in the file; \<open>t_tmp n\<close> the name of the \<open>n\<close>-th
  temporary file; \<open>t_same_stat a b\<close> whether two files have the same type, size and
  modification time, in which case \<^verbatim>\<open>filecmp.cmp\<close> does not compare their contents.
\<close>

record tools =
  t_installed :: bool
  t_uncrustify :: "string list \<Rightarrow> string list \<Rightarrow> string list"
  t_diff :: "string list \<Rightarrow> string list \<Rightarrow> string \<Rightarrow> string \<Rightarrow> string list"
  t_patch :: "string list \<Rightarrow> string list \<Rightarrow> string list"
  t_tmp :: "nat \<Rightarrow> string"
  t_same_stat :: "string \<Rightarrow> string \<Rightarrow> bool"

record files =
  fs_text :: "(string, string list) dict"
  fs_tmp :: nat
  fs_stdout :: "string list"

definition read_file :: "string \<Rightarrow> files \<Rightarrow> string list res" where
  "read_file f st = (case dict_get (fs_text st) f of None \<Rightarrow> Inl (PyException ''IOError'') | Some ls \<Rightarrow> Inr ls)"

definition write_file :: "string \<Rightarrow> string list \<Rightarrow> files \<Rightarrow> files" where
  "write_file f ls st = st\<lparr>fs_text := dict_set (fs_text st) f ls\<rparr>"

definition mkstemp :: "tools \<Rightarrow> files \<Rightarrow> string \<times> files" where
  "mkstemp t st =
     (let f = t_tmp t (fs_tmp st) in (f, (write_file f [] st)\<lparr>fs_tmp := fs_tmp st + 1\<rparr>))"

definition copy_file :: "tools \<Rightarrow> string \<Rightarrow> files \<Rightarrow> (string \<times> files) res" where
  "copy_file t filename st =
     (let (pathname, st) = mkstemp t st
      in rbind (read_file filename st) (\<lambda>ls. Inr (pathname, write_file pathname ls st)))"

text \<open>
  \<^verbatim>\<open>indent\<close>: the name of the file with the result.  The diff is a generator: in debug
  mode writing it to a file consumes it, so that nothing is left for what follows.
\<close>

definition indent :: "tools \<Rightarrow> string \<Rightarrow> bool \<Rightarrow> int \<Rightarrow> files \<Rightarrow> (string \<times> files) res" where
  "indent t source debug level st =
     (let (output, st) = mkstemp t st;
          (cfg, st) = mkstemp t st;
          st = write_file cfg (uncrustify_config_file level) st
      in if \<not> t_installed t then Inl (PyException ''uncrustify not installed'') else
         rbind (read_file source st) (\<lambda>text.
            (let text' = t_uncrustify t (uncrustify_config_file level) text;
                 st = write_file output text' st;
                 diff = t_diff t text text' source output;
                 (diff, st) = (if debug
                               then let (initial_diff, st) = mkstemp t st
                                    in ([], write_file initial_diff diff st)
                               else (diff, st));
                 (final_diff, st) = mkstemp t st
             in rbind (if level < 3
                       then rbind (remove_trailing_whitespace_changes diff) (\<lambda>patchset.
                              case patchset of
                                [] \<Rightarrow> Inr ([], st)
                              | p # _ \<Rightarrow> rbind (write_patch p) (\<lambda>ls. Inr (ls, write_file final_diff ls st)))
                       else Inr (diff, write_file final_diff diff st)) (\<lambda>(final, st).
                  Inr (output, write_file output (t_patch t final text) st)))))"

fun indent_all :: "tools \<Rightarrow> string list \<Rightarrow> bool \<Rightarrow> int \<Rightarrow> files \<Rightarrow> ((string \<times> string) list \<times> files) res" where
  "indent_all t [] debug level st = Inr ([], st)"
| "indent_all t (f # fs) debug level st =
     rbind (indent t f debug level st) (\<lambda>(dst, st).
     rbind (indent_all t fs debug level st) (\<lambda>(output, st). Inr ((f, dst) # output, st)))"

fun copy_all :: "(string \<times> string) list \<Rightarrow> files \<Rightarrow> files res" where
  "copy_all [] st = Inr st"
| "copy_all ((src, dst) # output) st =
     rbind (read_file dst st) (\<lambda>ls. copy_all output (write_file src ls st))"

definition filecmp_cmp :: "tools \<Rightarrow> string \<Rightarrow> string \<Rightarrow> files \<Rightarrow> bool" where
  "filecmp_cmp t a b st \<longleftrightarrow> t_same_stat t a b \<or> dict_get (fs_text st) a = dict_get (fs_text st) b"

definition print_lines :: "string list \<Rightarrow> files \<Rightarrow> files" where
  "print_lines ls st = st\<lparr>fs_stdout := fs_stdout st @ ls\<rparr>"

definition file_diff :: "tools \<Rightarrow> files \<Rightarrow> string \<times> string \<Rightarrow> string list res" where
  "file_diff t st pair =
     (let (src, dst) = pair in
      rbind (read_file src st) (\<lambda>s. rbind (read_file dst st) (\<lambda>d. Inr (t_diff t s d src dst))))"

definition indent_files :: "tools \<Rightarrow> string list \<Rightarrow> bool \<Rightarrow> bool \<Rightarrow> int \<Rightarrow> bool \<Rightarrow> files \<Rightarrow> (bool \<times> files) res" where
  "indent_files t files diff debug level inplace st =
     rbind (indent_all t files debug level st) (\<lambda>(output, st).
       if inplace
       then rbind (copy_all output st) (\<lambda>st. Inr (True, st))
       else let failed = filter (\<lambda>(src, dst). \<not> filecmp_cmp t src dst st) output
            in if failed \<noteq> []
               then if diff
                    then rbind (mapM (file_diff t st) failed) (\<lambda>diffs. Inr (False, print_lines (concat diffs) st))
                    else Inr (False, print_lines
                           ((''Found '' @ show_nat (length failed) @ '' badly indented files:'' @ newline)
                            # map (\<lambda>(src, dst). ''  '' @ src @ newline) failed) st)
               else Inr (True, st))"

section \<open>The command line\<close>

text \<open>\<^verbatim>\<open>git_modified_files\<close> from the output of the two \<^verbatim>\<open>git\<close> commands.\<close>

definition git_modified_files :: "string list \<Rightarrow> string \<Rightarrow> string list" where
  "git_modified_files lines root_dir =
     (let files_changed = map py_strip lines;
          files_changed = filter (\<lambda>item. ends_with item ''.h'' \<or> ends_with item ''.cc'') files_changed
      in map (\<lambda>filename. py_slice root_dir None (Some (- 1)) @ ''/'' @ py_strip filename) files_changed)"

record style_options =
  o_debug :: bool
  o_level :: int
  o_git :: bool
  o_file :: string
  o_diff :: bool
  o_in_place :: bool

text \<open>
  \<^verbatim>\<open>run_as_main\<close> with the handler of the main program: the exit status.  The files the
  option \<^verbatim>\<open>--check-git\<close> stands for are the argument \<open>git_files\<close>.
\<close>

definition run_as_main :: "tools \<Rightarrow> style_options \<Rightarrow> string list \<Rightarrow> files \<Rightarrow> int" where
  "run_as_main t options git_files st =
     (let check = (\<lambda>files. case indent_files t files (o_diff options) (o_debug options) (o_level options)
                              (o_in_place options) st of
                      Inl e \<Rightarrow> 1
                    | Inr (style_is_correct, st) \<Rightarrow> if style_is_correct then 0 else 1)
      in if o_git options then check git_files
         else if o_file options \<noteq> []
         then if dict_get (fs_text st) (o_file options) = None then 1 else check [o_file options]
         else 1)"

end
