(* ===== verification/Check_Style_Correct.thy ===== *)
theory Check_Style_Correct
  imports Check_Style "HOL-Library.Sublist"
begin

text \<open>
  Correctness of the style checker of \<open>Check_Style\<close>: parsing inverts writing on the patch
  sets that parsing can produce; restoring trailing whitespace changes exactly the lines
  whose only change is one trailing blank; a check leaves the checked files alone and
  passes when the formatted texts equal them.
\<close>

section \<open>Matching printed lines\<close>

abbreviation no_newline :: "string \<Rightarrow> bool" where
  "no_newline s \<equiv> CHR 0x0A \<notin> set s"

lemma takeWhile_newline:
  assumes "no_newline s"
  shows "takeWhile (\<lambda>c. c \<noteq> CHR 0x0A) (s @ newline) = s" "dropWhile (\<lambda>c. c \<noteq> CHR 0x0A) (s @ newline) = newline"
proof -
  have *: "\<forall>c\<in>set s. c \<noteq> CHR 0x0A" using assms by auto
  then show "takeWhile (\<lambda>c. c \<noteq> CHR 0x0A) (s @ newline) = s"
    by (subst takeWhile_append2) auto
  from * show "dropWhile (\<lambda>c. c \<noteq> CHR 0x0A) (s @ newline) = newline"
    by (subst dropWhile_append2) auto
qed

lemma match_rest_print: "no_newline s \<Longrightarrow> match_rest pre (pre @ s @ newline) = Some s"
  using takeWhile_newline [of s] by (simp add: match_rest_def Let_def starts_with_def)

lemma match_rest_no_newline: "match_rest pre line = Some g \<Longrightarrow> no_newline g"
  by (auto simp: match_rest_def Let_def dest: set_takeWhileD split: if_splits)

lemma match_rest_other: "\<not> starts_with line pre \<Longrightarrow> match_rest pre line = None"
  by (simp add: match_rest_def)

lemma match_digits_print:
  assumes "list_all is_digit ds" "ds \<noteq> []" "lit \<noteq> []" "\<not> is_digit (hd lit)"
  shows "match_digits lit (ds @ lit @ rest) = Some (ds, rest)"
proof -
  have "\<forall>c\<in>set ds. is_digit c" using assms(1) by (simp add: list_all_iff)
  moreover have "takeWhile is_digit (lit @ rest) = []" "dropWhile is_digit (lit @ rest) = lit @ rest"
    using assms(3,4) by (cases lit; simp)+
  ultimately show ?thesis
    using assms(2) by (simp add: match_digits_def Let_def starts_with_def takeWhile_append2 dropWhile_append2)
qed

lemma show_int_nat: "0 \<le> i \<Longrightarrow> show_int i = show_nat (nat i)"
  by (simp add: show_int_def)

lemma match_chunk_header:
  assumes "0 \<le> ch_src_pos c" "0 \<le> ch_dst_pos c"
  shows "match_chunk_start (chunk_header c) = Some (show_nat (nat (ch_src_pos c)), show_nat (nat (ch_dst_pos c)))"
proof -
  have lits: "\<not> is_digit (hd '','')" "\<not> is_digit (hd '' +'')" "\<not> is_digit (hd '' @@'')"
    by (simp_all add: is_digit_def)
  note m = match_digits_print [OF show_nat_digits show_nat_nonempty]
  have 1: "match_digits '','' (show_nat a @ '','' @ r) = Some (show_nat a, r)" for a r
    using m lits by (metis list.distinct(1))
  have 2: "match_digits '' +'' (show_nat a @ '' +'' @ r) = Some (show_nat a, r)" for a r
    using m lits by (metis list.distinct(1))
  have 3: "match_digits '' @@'' (show_nat a @ '' @@'' @ r) = Some (show_nat a, r)" for a r
    using m lits by (metis list.distinct(1))
  have "drop 4 (chunk_header c) = show_nat (nat (ch_src_pos c)) @ '','' @ show_nat (src_len c) @ '' +''
      @ show_nat (nat (ch_dst_pos c)) @ '','' @ show_nat (dst_len c) @ '' @@'' @ newline"
    using assms by (simp add: chunk_header_def show_int_nat)
  moreover have "starts_with (chunk_header c) ''@@ -''"
    by (simp add: chunk_header_def starts_with_def)
  ultimately show ?thesis
    unfolding match_chunk_start_def
    by (simp only: 1 2 3 if_True bind.simps prod.case)
qed

section \<open>Well-formed patch sets\<close>

definition line_ok :: "pline \<Rightarrow> bool" where
  "line_ok l \<longleftrightarrow> no_newline (pl_line l) \<and>
     (case pl_type l of
        SRC \<Rightarrow> \<not> starts_with (pl_line l) ''-- ''
      | DST \<Rightarrow> \<not> starts_with (pl_line l) ''++ ''
      | BOTH \<Rightarrow> True
      | NoType \<Rightarrow> False)"

definition chunk_ok :: "chunk \<Rightarrow> bool" where
  "chunk_ok c \<longleftrightarrow> 0 \<le> ch_src_pos c \<and> 0 \<le> ch_dst_pos c \<and> list_all line_ok (ch_lines c)"

definition patch_ok :: "patch \<Rightarrow> bool" where
  "patch_ok p \<longleftrightarrow> no_newline (pa_src p) \<and> no_newline (pa_dst p) \<and> list_all chunk_ok (pa_chunks p)"

fun line_text :: "pline \<Rightarrow> string" where
  "line_text l = (case pl_type l of SRC \<Rightarrow> ''-'' | DST \<Rightarrow> ''+'' | _ \<Rightarrow> '' '') @ pl_line l @ newline"

definition chunk_text :: "chunk \<Rightarrow> string list" where
  "chunk_text c = chunk_header c # map line_text (ch_lines c)"

definition patch_text :: "patch \<Rightarrow> string list" where
  "patch_text p = (''--- '' @ pa_src p @ newline) # (''+++ '' @ pa_dst p @ newline) # concat (map chunk_text (pa_chunks p))"

lemma write_line_ok: "line_ok l \<Longrightarrow> write_line l = Inr (line_text l)"
  by (cases "pl_type l") (simp_all add: write_line_def line_ok_def)

lemma write_chunk_ok: "chunk_ok c \<Longrightarrow> write_chunk c = Inr (chunk_text c)"
  using mapM_Inr [of "ch_lines c" write_line line_text]
  by (simp add: write_chunk_def chunk_text_def chunk_ok_def list_all_iff write_line_ok del: line_text.simps)

lemma write_patch_ok: "patch_ok p \<Longrightarrow> write_patch p = Inr (patch_text p)"
  using mapM_Inr [of "pa_chunks p" write_chunk chunk_text]
  by (simp add: write_patch_def patch_text_def patch_ok_def list_all_iff write_chunk_ok)

section \<open>Parsing printed patches\<close>

lemma not_chunk_start: "\<not> starts_with line ''@@ -'' \<Longrightarrow> match_chunk_start line = None"
  by (simp add: match_chunk_start_def)

lemma new_line_set:
  "set_src (pl_line l) new_line = l\<lparr>pl_type := SRC\<rparr>" "set_dst (pl_line l) new_line = l\<lparr>pl_type := DST\<rparr>"
  "set_both (pl_line l) new_line = l\<lparr>pl_type := BOTH\<rparr>"
  by (simp_all add: set_src_def set_dst_def set_both_def new_line_def)

lemma starts_with_newline: "no_newline p \<Longrightarrow> starts_with (s @ newline) p = starts_with s p"
  by (rule starts_with_snoc)

lemma parse_line_text:
  assumes "line_ok l"
  shows "parse_patch_line p (line_text l) = add_chunk_line l p"
proof -
  have nl: "no_newline (pl_line l)" using assms by (simp add: line_ok_def)
  have m: "match_rest [c] (c # pl_line l @ newline) = Some (pl_line l)" for c
    using match_rest_print [OF nl, of "[c]"] by simp
  have same: "pl_type l = t \<Longrightarrow> l\<lparr>pl_type := t\<rparr> = l" for t by auto
  note d = starts_with_newline match_rest_other not_chunk_start new_line_set parse_patch_line_def line_ok_def
  show ?thesis
    using assms m by (cases "pl_type l") (auto simp: d same)
qed

lemma add_chunk_line_last:
  "add_chunk_line l \<lparr>pp_patches = pre @ [pa\<lparr>pa_chunks := cs @ [c]\<rparr>], pp_chunk = Some (length pre, length cs)\<rparr>
   = Inr \<lparr>pp_patches = pre @ [pa\<lparr>pa_chunks := cs @ [add_line l c]\<rparr>], pp_chunk = Some (length pre, length cs)\<rparr>"
  by (simp add: add_chunk_line_def)

lemma parse_lines_text:
  "list_all line_ok ls \<Longrightarrow>
   foldM parse_patch_line \<lparr>pp_patches = pre @ [pa\<lparr>pa_chunks := cs @ [c]\<rparr>], pp_chunk = Some (length pre, length cs)\<rparr>
     (map line_text ls)
   = Inr \<lparr>pp_patches = pre @ [pa\<lparr>pa_chunks := cs @ [c\<lparr>ch_lines := ch_lines c @ ls\<rparr>]\<rparr>],
          pp_chunk = Some (length pre, length cs)\<rparr>"
proof (induction ls arbitrary: c)
  case (Cons l ls)
  then show ?case
    by (simp add: parse_line_text add_chunk_line_last add_line_def del: line_text.simps)
qed simp

lemma chunk_header_starts:
  "\<not> starts_with (chunk_header c) ''--- ''" "\<not> starts_with (chunk_header c) ''+++ ''"
  by (simp_all add: chunk_header_def)

lemma parse_chunk_text:
  assumes "chunk_ok c"
  shows "foldM parse_patch_line \<lparr>pp_patches = pre @ [pa], pp_chunk = x\<rparr> (chunk_text c)
     = Inr \<lparr>pp_patches = pre @ [pa\<lparr>pa_chunks := pa_chunks pa @ [c]\<rparr>], pp_chunk = Some (length pre, length (pa_chunks pa))\<rparr>"
proof -
  let ?c = "\<lparr>ch_lines = [], ch_src_pos = ch_src_pos c, ch_dst_pos = ch_dst_pos c\<rparr>"
  have pos: "0 \<le> ch_src_pos c" "0 \<le> ch_dst_pos c" and ls: "list_all line_ok (ch_lines c)"
    using assms by (auto simp: chunk_ok_def)
  have "new_chunk (show_nat (nat (ch_src_pos c))) (show_nat (nat (ch_dst_pos c))) = Inr ?c"
    using pos by (simp add: new_chunk_def parse_show_nat)
  then have "parse_patch_line \<lparr>pp_patches = pre @ [pa], pp_chunk = x\<rparr> (chunk_header c)
      = Inr \<lparr>pp_patches = pre @ [pa\<lparr>pa_chunks := pa_chunks pa @ [?c]\<rparr>], pp_chunk = Some (length pre, length (pa_chunks pa))\<rparr>"
    using match_chunk_header [OF pos] chunk_header_starts [of c]
    by (simp add: parse_patch_line_def match_rest_other update_last_def add_chunk_def)
  moreover have "?c\<lparr>ch_lines := ch_lines ?c @ ch_lines c\<rparr> = c"
    by simp
  ultimately show ?thesis
    using parse_lines_text [OF ls, where pre = pre and pa = pa and cs = "pa_chunks pa" and c = ?c]
    by (simp add: chunk_text_def)
qed

lemma parse_chunks_text:
  "list_all chunk_ok cs \<Longrightarrow>
   \<exists>x'. foldM parse_patch_line \<lparr>pp_patches = pre @ [pa], pp_chunk = x\<rparr> (concat (map chunk_text cs))
     = Inr \<lparr>pp_patches = pre @ [pa\<lparr>pa_chunks := pa_chunks pa @ cs\<rparr>], pp_chunk = x'\<rparr>"
proof (induction cs arbitrary: pa x)
  case (Cons c cs)
  then obtain x' where "foldM parse_patch_line
      \<lparr>pp_patches = pre @ [pa\<lparr>pa_chunks := pa_chunks pa @ [c]\<rparr>], pp_chunk = Some (length pre, length (pa_chunks pa))\<rparr>
      (concat (map chunk_text cs)) = Inr \<lparr>pp_patches = pre @ [pa\<lparr>pa_chunks := pa_chunks pa @ c # cs\<rparr>], pp_chunk = x'\<rparr>"
    using Cons.IH [of "pa\<lparr>pa_chunks := pa_chunks pa @ [c]\<rparr>" "Some (length pre, length (pa_chunks pa))"] by auto
  with Cons.prems show ?case
    by (auto simp: foldM_append parse_chunk_text)
qed simp

lemma parse_patch_text:
  assumes "patch_ok p"
  shows "\<exists>x'. foldM parse_patch_line \<lparr>pp_patches = pre, pp_chunk = x\<rparr> (patch_text p)
     = Inr \<lparr>pp_patches = pre @ [p], pp_chunk = x'\<rparr>"
proof -
  let ?p0 = "new_patch\<lparr>pa_src := pa_src p\<rparr>" and ?p1 = "new_patch\<lparr>pa_src := pa_src p, pa_dst := pa_dst p\<rparr>"
  have nl: "no_newline (pa_src p)" "no_newline (pa_dst p)" and cs: "list_all chunk_ok (pa_chunks p)"
    using assms by (auto simp: patch_ok_def)
  have 1: "parse_patch_line \<lparr>pp_patches = pre, pp_chunk = x\<rparr> (''--- '' @ pa_src p @ newline)
      = Inr \<lparr>pp_patches = pre @ [?p0], pp_chunk = x\<rparr>"
    using match_rest_print [OF nl(1), of "''--- ''"] by (simp add: parse_patch_line_def)
  have 2: "parse_patch_line \<lparr>pp_patches = pre @ [?p0], pp_chunk = x\<rparr> (''+++ '' @ pa_dst p @ newline)
      = Inr \<lparr>pp_patches = pre @ [?p1], pp_chunk = x\<rparr>"
    using match_rest_print [OF nl(2), of "''+++ ''"]
    by (simp add: parse_patch_line_def match_rest_other update_last_def)
  have 3: "?p1\<lparr>pa_chunks := pa_chunks ?p1 @ pa_chunks p\<rparr> = p"
    by (simp add: new_patch_def)
  show ?thesis
    unfolding patch_text_def foldM.simps(2) 1 2 rbind_simps
    using parse_chunks_text [OF cs, of pre ?p1 x] 3 by simp
qed

lemma parse_patches_text:
  "list_all patch_ok ps \<Longrightarrow>
   \<exists>x'. foldM parse_patch_line \<lparr>pp_patches = pre, pp_chunk = x\<rparr> (concat (map patch_text ps))
     = Inr \<lparr>pp_patches = pre @ ps, pp_chunk = x'\<rparr>"
proof (induction ps arbitrary: pre x)
  case (Cons p ps)
  from parse_patch_text [of p pre x] Cons.prems obtain y where
    y: "foldM parse_patch_line \<lparr>pp_patches = pre, pp_chunk = x\<rparr> (patch_text p) = Inr \<lparr>pp_patches = pre @ [p], pp_chunk = y\<rparr>"
    by auto
  from Cons.IH [of "pre @ [p]" y] Cons.prems show ?case
    by (auto simp: foldM_append y)
qed simp

lemma parse_patchset_text: "list_all patch_ok ps \<Longrightarrow> parse_patchset (concat (map patch_text ps)) = Inr ps"
  using parse_patches_text [of ps "[]" None] by (auto simp: parse_patchset_def)

section \<open>What the parser produces\<close>

definition pp_inv :: "patch_parser \<Rightarrow> bool" where
  "pp_inv p \<longleftrightarrow> list_all patch_ok (pp_patches p) \<and>
     (case pp_chunk p of
        None \<Rightarrow> True
      | Some (i, j) \<Rightarrow> i < length (pp_patches p) \<and> j < length (pa_chunks (pp_patches p ! i)))"

lemma list_all_update: "list_all P xs \<Longrightarrow> P x \<Longrightarrow> list_all P (xs[i := x])"
  using set_update_subset_insert [of xs i x] by (auto simp: list_all_iff)

lemma add_chunk_line_inv:
  assumes "pp_inv p" "line_ok l" "add_chunk_line l p = Inr p'"
  shows "pp_inv p'"
proof -
  obtain i j where ij: "pp_chunk p = Some (i, j)"
    using assms(3) by (auto simp: add_chunk_line_def split: option.splits)
  let ?pa = "pp_patches p ! i" and ?c = "pa_chunks (pp_patches p ! i) ! j"
  from assms(1) ij have len: "i < length (pp_patches p)" "j < length (pa_chunks ?pa)" and ok: "list_all patch_ok (pp_patches p)"
    by (auto simp: pp_inv_def)
  then have "patch_ok ?pa" by (simp add: list_all_length)
  then have "chunk_ok ?c" using len by (simp add: patch_ok_def list_all_length)
  with assms(2) have "chunk_ok (add_line l ?c)" by (simp add: chunk_ok_def add_line_def)
  with \<open>patch_ok ?pa\<close> have "patch_ok (?pa\<lparr>pa_chunks := (pa_chunks ?pa)[j := add_line l ?c]\<rparr>)"
    by (simp add: patch_ok_def list_all_update)
  with ok have "list_all patch_ok ((pp_patches p)[i := ?pa\<lparr>pa_chunks := (pa_chunks ?pa)[j := add_line l ?c]\<rparr>])"
    by (rule list_all_update)
  with assms(3) ij len show ?thesis
    by (auto simp: add_chunk_line_def Let_def pp_inv_def)
qed

lemma update_last_inv:
  assumes "pp_inv p" "pp_patches p \<noteq> []" "patch_ok (f (last (pp_patches p)))"
    "length (pa_chunks (last (pp_patches p))) \<le> length (pa_chunks (f (last (pp_patches p))))"
    "x = pp_chunk p \<or> x = Some (length (pp_patches p) - 1, k) \<and> k < length (pa_chunks (f (last (pp_patches p))))"
  shows "pp_inv \<lparr>pp_patches = update_last f (pp_patches p), pp_chunk = x\<rparr>"
proof -
  obtain ps pa where ps: "pp_patches p = ps @ [pa]" using assms(2) by (metis rev_exhaust)
  with assms show ?thesis
    by (auto simp: pp_inv_def update_last_def nth_append less_Suc_eq split: option.splits if_splits)
qed

lemma starts_with_match: "\<not> starts_with (pl @ s) (pl @ p) \<longleftrightarrow> \<not> starts_with s p"
  by (induction pl) auto

lemma match_rest_drop:
  assumes "match_rest pre line = Some g"
  shows "line = pre @ g \<or> line = pre @ g @ newline"
proof -
  let ?P = "\<lambda>c. c \<noteq> CHR 0x0A"
  from assms obtain r where line: "line = pre @ r" and g: "g = takeWhile ?P r"
      and tail: "dropWhile ?P r = [] \<or> dropWhile ?P r = newline"
    by (auto simp: match_rest_def Let_def starts_with_iff split: if_splits)
  have "r = g @ dropWhile ?P r" unfolding g by (rule takeWhile_dropWhile_id [symmetric])
  with tail line show ?thesis by (metis append_Nil2)
qed

lemma match_rest_SRC_DST:
  assumes "match_rest (c # pre) line = None" "match_rest [c] line = Some g"
  shows "\<not> starts_with g pre"
proof
  assume "starts_with g pre"
  then obtain t where t: "g = pre @ t" by (auto simp: starts_with_iff)
  have "no_newline t" using match_rest_no_newline [OF assms(2)] t by simp
  then have "match_rest (c # pre) ((c # pre) @ t @ newline) = Some t" "match_rest (c # pre) ((c # pre) @ t) = Some t"
    using match_rest_print [of t "c # pre"]
    by (auto simp: match_rest_def Let_def starts_with_def takeWhile_eq_all_conv dropWhile_eq_Nil_conv)
  with match_rest_drop [OF assms(2)] t assms(1) show False by auto
qed

lemma new_chunk_ok: "new_chunk a b = Inr c \<Longrightarrow> chunk_ok c"
  by (auto simp: new_chunk_def chunk_ok_def split: option.splits)

lemma new_line_ok:
  assumes "no_newline l"
  shows "\<not> starts_with l ''-- '' \<Longrightarrow> line_ok (set_src l new_line)" "\<not> starts_with l ''++ '' \<Longrightarrow> line_ok (set_dst l new_line)"
    "line_ok (set_both l new_line)"
  using assms by (simp_all add: line_ok_def set_src_def set_dst_def set_both_def)

lemma parse_patch_line_inv:
  assumes inv: "pp_inv p" and step: "parse_patch_line p line = Inr p'"
  shows "pp_inv p'"
proof -
  note nl = match_rest_no_newline [of _ line]
  consider (src_line) s where "match_rest ''--- '' line = Some s"
    | (dst_line) s where "match_rest ''--- '' line = None" "match_rest ''+++ '' line = Some s"
    | (chunk_line) a b where "match_rest ''--- '' line = None" "match_rest ''+++ '' line = None" "match_chunk_start line = Some (a, b)"
    | (no_header) "match_rest ''--- '' line = None" "match_rest ''+++ '' line = None" "match_chunk_start line = None"
    by (cases "match_rest ''--- '' line"; cases "match_rest ''+++ '' line"; cases "match_chunk_start line") auto
  then show ?thesis
  proof cases
    case src_line
    with inv step nl show ?thesis
      by (auto simp: parse_patch_line_def pp_inv_def patch_ok_def new_patch_def nth_append split: option.splits)
  next
    case dst_line
    with step have p': "pp_patches p \<noteq> []"
      "p' = \<lparr>pp_patches = update_last (\<lambda>patch. patch\<lparr>pa_dst := s\<rparr>) (pp_patches p), pp_chunk = pp_chunk p\<rparr>"
      by (auto simp: parse_patch_line_def split: if_splits)
    have "patch_ok (last (pp_patches p))"
      using inv p'(1) by (simp add: pp_inv_def list_all_iff)
    with nl dst_line show ?thesis
      unfolding p'(2) by (intro update_last_inv [OF inv p'(1)]) (auto simp: patch_ok_def)
  next
    case chunk_line
    with step obtain c where c: "new_chunk a b = Inr c" and p': "pp_patches p \<noteq> []"
      "p' = \<lparr>pp_patches = update_last (add_chunk c) (pp_patches p),
             pp_chunk = Some (length (pp_patches p) - 1, length (pa_chunks (last (pp_patches p))))\<rparr>"
      by (auto simp: parse_patch_line_def res_simps split: if_splits)
    have "patch_ok (last (pp_patches p))"
      using inv p'(1) by (simp add: pp_inv_def list_all_iff)
    with new_chunk_ok [OF c] show ?thesis
      unfolding p'(2) by (intro update_last_inv [OF inv p'(1)]) (auto simp: patch_ok_def add_chunk_def)
  next
    case no_header
    have "\<not> starts_with s ''-- ''" if "match_rest ''-'' line = Some s" for s
      using match_rest_SRC_DST [OF no_header(1) that] .
    moreover have "\<not> starts_with s ''++ ''" if "match_rest ''+'' line = Some s" for s
      using match_rest_SRC_DST [OF no_header(2) that] .
    ultimately have "\<exists>l. line_ok l \<and> add_chunk_line l p = Inr p'"
      using no_header step nl new_line_ok by (fastforce simp: parse_patch_line_def split: option.splits)
    then show ?thesis using add_chunk_line_inv [OF inv] by blast
  qed
qed

interpretation patch_parsing: checked_loop parse_patch_line pp_inv "\<lambda>_. True"
  by unfold_locales (rule parse_patch_line_inv)

lemma parse_patchset_ok: "parse_patchset ls = Inr ps \<Longrightarrow> list_all patch_ok ps"
  using patch_parsing.loop_inv [of "\<lparr>pp_patches = [], pp_chunk = None\<rparr>" ls]
  by (auto simp: parse_patchset_def pp_inv_def res_simps list_all_iff)

section \<open>Trailing whitespace\<close>

text \<open>What becomes of a target line \<open>d\<close> that faces the source line \<open>s\<close>.\<close>

definition restored :: "pline \<Rightarrow> pline \<Rightarrow> pline" where
  "restored s d =
     (if pl_line s = pl_line d @ '' '' \<or> pl_line s = pl_line d @ [CHR 0x09] then d\<lparr>pl_line := pl_line s\<rparr> else d)"

lemma match_whitespace_iff:
  "match_whitespace line = Some (g1, g2) \<longleftrightarrow> (g2 = '' '' \<or> g2 = [CHR 0x09]) \<and> line = g1 @ g2"
  by (cases line rule: rev_cases) (auto simp: match_whitespace_def)

lemma restored_same [simp]: "restored l l = l"
  by (simp add: restored_def)

lemma restore_line_eq: "restore_line lines s d = lines[d := restored (lines ! s) (lines ! d)]"
proof (cases "match_whitespace (pl_line (lines ! s))")
  case None
  then have "pl_line (lines ! s) \<noteq> g @ '' ''" "pl_line (lines ! s) \<noteq> g @ [CHR 0x09]" for g
    using match_whitespace_iff [of "pl_line (lines ! s)" g "'' ''"]
      match_whitespace_iff [of "pl_line (lines ! s)" g "[CHR 0x09]"] by simp_all
  with None show ?thesis by (simp add: restore_line_def restored_def)
next
  case (Some gg)
  obtain g1 g2 where g: "match_whitespace (pl_line (lines ! s)) = Some (g1, g2)" using Some by (cases gg) auto
  then have "(g2 = '' '' \<or> g2 = [CHR 0x09]) \<and> pl_line (lines ! s) = g1 @ g2"
    by (simp add: match_whitespace_iff)
  with g show ?thesis by (auto simp: restore_line_def restored_def append_to_line_def)
qed

lemma restore_lines_spec:
  assumes "length src \<le> length dst" "distinct dst" "set dst \<subseteq> {..<length lines}"
    and "\<forall>i<length src. src ! i = dst ! i \<or> src ! i \<notin> set dst"
  shows "\<exists>lines'. restore_lines src dst lines = (lines', True) \<and> length lines' = length lines \<and>
     (\<forall>i<length src. lines' ! (dst ! i) = restored (lines ! (src ! i)) (lines ! (dst ! i))) \<and>
     (\<forall>k. k \<notin> set (take (length src) dst) \<longrightarrow> lines' ! k = lines ! k)"
  using assms
proof (induction src dst lines rule: restore_lines.induct)
  case (3 s src d dst lines)
  let ?lines = "restore_line lines s d"
  have other: "k \<noteq> d \<Longrightarrow> ?lines ! k = lines ! k" for k
    by (simp add: restore_line_eq)
  have d: "?lines ! d = restored (lines ! s) (lines ! d)"
    using 3(4) by (simp add: restore_line_eq)
  have al: "src ! i = dst ! i \<or> src ! i \<notin> set (d # dst)" if "i < length src" for i
    using 3(5) that by (auto dest: spec [of _ "Suc i"])
  have prems: "length src \<le> length dst" "distinct dst" "set dst \<subseteq> {..<length ?lines}"
    using 3(2-4) by (auto simp: restore_line_eq)
  moreover have "\<forall>i<length src. src ! i = dst ! i \<or> src ! i \<notin> set dst"
    using al by auto
  ultimately obtain lines' where IH: "restore_lines src dst ?lines = (lines', True)" "length lines' = length ?lines"
      "\<And>i. i < length src \<Longrightarrow> lines' ! (dst ! i) = restored (?lines ! (src ! i)) (?lines ! (dst ! i))"
      "\<And>k. k \<notin> set (take (length src) dst) \<Longrightarrow> lines' ! k = ?lines ! k"
    using 3(1) by auto
  have len: "length ?lines = length lines" by (simp add: restore_line_eq)
  have dnot: "d \<notin> set (take (length src) dst)"
    using 3(3) by (auto dest: in_set_takeD)
  have "lines' ! ((d # dst) ! i) = restored (lines ! ((s # src) ! i)) (lines ! ((d # dst) ! i))" if "i < length (s # src)" for i
  proof (cases i)
    case 0
    with IH(4) [OF dnot] d show ?thesis by simp
  next
    case (Suc k)
    then have k: "k < length src" using that by simp
    then have "dst ! k \<in> set dst" using 3(2) by simp
    then have "dst ! k \<noteq> d" using 3(3) by auto
    moreover have "src ! k \<noteq> d" using al [OF k] \<open>dst ! k \<noteq> d\<close> by auto
    ultimately show ?thesis using IH(3) [OF k] other Suc by simp
  qed
  moreover have "lines' ! k = lines ! k" if "k \<notin> set (take (length (s # src)) (d # dst))" for k
    using that IH(4) [of k] other [of k] by auto
  ultimately show ?case using IH(1,2) len by auto
qed simp_all

text \<open>
  A chunk in which removed and added lines face each other: the lines of the two sides at
  the same position are one context line, or a removed line and an added line.
\<close>

definition aligned :: "chunk \<Rightarrow> bool" where
  "aligned c \<longleftrightarrow> src_len c \<le> dst_len c \<and>
     (\<forall>i<src_len c. src_idx c ! i = dst_idx c ! i \<or> pl_type (ch_lines c ! (src_idx c ! i)) = SRC)"

lemma idx_facts:
  "distinct (dst_idx c)" "set (dst_idx c) = {i. i < length (ch_lines c) \<and> is_dst (ch_lines c ! i)}"
  "set (src_idx c) = {i. i < length (ch_lines c) \<and> is_src (ch_lines c ! i)}"
  by (auto simp: dst_idx_def src_idx_def)

lemma restore_chunk_spec:
  assumes "aligned c"
  shows "\<exists>c'. restore_chunk c = (c', True) \<and> length (ch_lines c') = length (ch_lines c) \<and>
     (\<forall>i<src_len c. ch_lines c' ! (dst_idx c ! i)
         = restored (ch_lines c ! (src_idx c ! i)) (ch_lines c ! (dst_idx c ! i))) \<and>
     (\<forall>k. k \<notin> set (take (src_len c) (dst_idx c)) \<longrightarrow> ch_lines c' ! k = ch_lines c ! k)"
proof -
  have "src_idx c ! i = dst_idx c ! i \<or> src_idx c ! i \<notin> set (dst_idx c)" if "i < length (src_idx c)" for i
    using assms that by (auto simp: aligned_def src_len_def idx_facts is_dst_def)
  then obtain lines' where "restore_lines (src_idx c) (dst_idx c) (ch_lines c) = (lines', True)" "length lines' = length (ch_lines c)"
      "\<forall>i<length (src_idx c). lines' ! (dst_idx c ! i) = restored (ch_lines c ! (src_idx c ! i)) (ch_lines c ! (dst_idx c ! i))"
      "\<forall>k. k \<notin> set (take (length (src_idx c)) (dst_idx c)) \<longrightarrow> lines' ! k = ch_lines c ! k"
    using restore_lines_spec [of "src_idx c" "dst_idx c" "ch_lines c"] assms
    by (auto simp: aligned_def src_len_def dst_len_def idx_facts)
  then show ?thesis by (simp add: restore_chunk_def src_len_def)
qed

lemma restored_type [simp]: "pl_type (restored s d) = pl_type d"
  by (simp add: restored_def)

text \<open>The source side keeps its lines.\<close>

lemma restore_chunk_src:
  assumes al: "aligned c" and c': "restore_chunk c = (c', True)" and k: "k \<in> set (src_idx c)"
  shows "ch_lines c' ! k = ch_lines c ! k"
proof -
  from restore_chunk_spec [OF al] c' have spec:
    "\<And>i. i < src_len c \<Longrightarrow> ch_lines c' ! (dst_idx c ! i) = restored (ch_lines c ! (src_idx c ! i)) (ch_lines c ! (dst_idx c ! i))"
    "\<And>k. k \<notin> set (take (src_len c) (dst_idx c)) \<Longrightarrow> ch_lines c' ! k = ch_lines c ! k"
    by auto
  show ?thesis
  proof (cases "k \<in> set (take (src_len c) (dst_idx c))")
    case True
    then obtain i where i: "i < src_len c" "k = dst_idx c ! i" by (auto simp: in_set_conv_nth)
    have both: "pl_type (ch_lines c ! k) = BOTH"
      using k True by (auto simp: idx_facts is_src_def is_dst_def dest: in_set_takeD)
    obtain j where j: "j < src_len c" "k = src_idx c ! j" using k by (auto simp: in_set_conv_nth src_len_def)
    with both al have "src_idx c ! j = dst_idx c ! j" by (auto simp: aligned_def)
    with i j al have "i = j"
      using nth_eq_iff_index_eq [OF idx_facts(1), of i c j] by (auto simp: aligned_def dst_len_def)
    with i j spec(1) [of i] show ?thesis by simp
  qed (use spec(2) in auto)
qed

lemma idx_cong:
  assumes "length (ch_lines c') = length (ch_lines c)" "\<And>k. k < length (ch_lines c) \<Longrightarrow> pl_type (ch_lines c' ! k) = pl_type (ch_lines c ! k)"
  shows "src_idx c' = src_idx c" "dst_idx c' = dst_idx c"
  using assms by (auto simp: src_idx_def dst_idx_def is_src_def is_dst_def intro: filter_cong)

lemma restore_chunk_types:
  assumes "aligned c" "restore_chunk c = (c', True)" 
  shows "pl_type (ch_lines c' ! k) = pl_type (ch_lines c ! k)"
proof (cases "k \<in> set (take (src_len c) (dst_idx c))")
  case True
  then obtain i where i: "i < src_len c" "k = dst_idx c ! i" by (auto simp: in_set_conv_nth)
  with restore_chunk_spec [OF assms(1)] assms(2) show ?thesis by auto
next
  case False
  with restore_chunk_spec [OF assms(1)] assms(2) show ?thesis by auto
qed

section \<open>Files\<close>

text \<open>Temporary names are distinct and those not yet handed out name no file.\<close>

definition fresh :: "tools \<Rightarrow> files \<Rightarrow> bool" where
  "fresh t st \<longleftrightarrow> inj (t_tmp t) \<and> (\<forall>n\<ge>fs_tmp st. dict_get (fs_text st) (t_tmp t n) = None)"

text \<open>\<open>st'\<close> differs from \<open>st\<close> only in temporary files numbered below \<open>fs_tmp st'\<close>.\<close>

definition grows :: "tools \<Rightarrow> files \<Rightarrow> nat \<Rightarrow> files \<Rightarrow> bool" where
  "grows t st k st' \<longleftrightarrow> fresh t st \<and> fs_tmp st' = fs_tmp st + k \<and> fs_stdout st' = fs_stdout st \<and>
     (\<forall>f. (\<forall>n. fs_tmp st \<le> n \<and> n < fs_tmp st + k \<longrightarrow> f \<noteq> t_tmp t n) \<longrightarrow>
          dict_get (fs_text st') f = dict_get (fs_text st) f)"

lemma grows_refl: "fresh t st \<Longrightarrow> grows t st 0 st"
  by (simp add: grows_def)

lemma grows_fresh:
  assumes "grows t st k st'"
  shows "fresh t st'"
proof -
  have "dict_get (fs_text st') (t_tmp t n) = None" if "n \<ge> fs_tmp st'" for n
  proof -
    have "dict_get (fs_text st') (t_tmp t n) = dict_get (fs_text st) (t_tmp t n)"
      using assms that by (auto simp: grows_def fresh_def inj_eq)
    with assms that show ?thesis by (auto simp: grows_def fresh_def)
  qed
  with assms show ?thesis by (auto simp: grows_def fresh_def)
qed

lemma grows_trans:
  assumes 1: "grows t st k st'" and 2: "grows t st' l st''"
  shows "grows t st (k + l) st''"
proof -
  have "dict_get (fs_text st'') f = dict_get (fs_text st) f"
    if "\<And>n. fs_tmp st \<le> n \<Longrightarrow> n < fs_tmp st + (k + l) \<Longrightarrow> f \<noteq> t_tmp t n" for f
  proof -
    have "dict_get (fs_text st'') f = dict_get (fs_text st') f"
      using 1 2 that by (auto simp: grows_def)
    also have "\<dots> = dict_get (fs_text st) f"
      using 1 that by (auto simp: grows_def)
    finally show ?thesis .
  qed
  with 1 2 show ?thesis by (auto simp: grows_def)
qed

lemma grows_mkstemp: "fresh t st \<Longrightarrow> grows t st 1 (snd (mkstemp t st))"
  by (auto simp: grows_def mkstemp_def write_file_def Let_def)

lemma grows_write:
  "grows t st k st' \<Longrightarrow> fs_tmp st \<le> n \<Longrightarrow> n < fs_tmp st + k \<Longrightarrow> grows t st k (write_file (t_tmp t n) ls st')"
  by (auto simp: grows_def write_file_def)

lemma grows_existing:
  assumes "grows t st k st'" "dict_get (fs_text st) f \<noteq> None"
  shows "dict_get (fs_text st') f = dict_get (fs_text st) f"
proof -
  have "f \<noteq> t_tmp t n" if "fs_tmp st \<le> n" for n
    using assms that by (auto simp: grows_def fresh_def)
  with assms(1) show ?thesis by (simp add: grows_def)
qed

text \<open>What \<^verbatim>\<open>indent\<close> computes from the text of a file.\<close>

definition formatted :: "tools \<Rightarrow> string \<Rightarrow> string \<Rightarrow> bool \<Rightarrow> int \<Rightarrow> string list \<Rightarrow> string list res" where
  "formatted t source output debug level text =
     (let diff = (if debug then [] else t_diff t text (t_uncrustify t (uncrustify_config_file level) text) source output)
      in if level < 3
         then rbind (remove_trailing_whitespace_changes diff) (\<lambda>patchset.
                case patchset of
                  [] \<Rightarrow> Inr (t_patch t [] text)
                | p # _ \<Rightarrow> rbind (write_patch p) (\<lambda>ls. Inr (t_patch t ls text)))
         else Inr (t_patch t diff text))"

text \<open>The number of temporary files of one call.\<close>

definition temps :: "bool \<Rightarrow> nat" where
  "temps debug = (if debug then 4 else 3)"

lemma mkstemp_eq: "mkstemp t st = (t_tmp t (fs_tmp st), (write_file (t_tmp t (fs_tmp st)) [] st)\<lparr>fs_tmp := fs_tmp st + 1\<rparr>)"
  by (simp add: mkstemp_def Let_def)

lemma get_write_file: "dict_get (fs_text (write_file f ls st)) g = (if g = f then Some ls else dict_get (fs_text st) g)"
  by (simp add: write_file_def)

lemma indent_unfold:
  assumes "fresh t st" "t_installed t" "dict_get (fs_text st) source = Some text"
  defines "output \<equiv> t_tmp t (fs_tmp st)"
  shows "(\<exists>e. formatted t source output debug level text = Inl e \<and> indent t source debug level st = Inl e) \<or>
    (\<exists>out st1. formatted t source output debug level text = Inr out \<and> grows t st (temps debug) st1 \<and>
       indent t source debug level st = Inr (output, write_file output out st1))"
proof -
  define cfg where "cfg = uncrustify_config_file level"
  define text' where "text' = t_uncrustify t cfg text"
  define diff where "diff = t_diff t text text' source output"
  define st1 where "st1 = snd (mkstemp t st)"
  define st2 where "st2 = write_file (t_tmp t (fs_tmp st + 1)) cfg (snd (mkstemp t st1))"
  define st3 where "st3 = write_file output text' st2"
  define st4 where "st4 = (if debug then write_file (t_tmp t (fs_tmp st + 2)) diff (snd (mkstemp t st3)) else st3)"
  define st5 where "st5 = snd (mkstemp t st4)"
  define final where "final = t_tmp t (fs_tmp st4)"
  have g1: "grows t st 1 st1" unfolding st1_def using assms(1) by (rule grows_mkstemp)
  have n1: "fs_tmp st1 = fs_tmp st + 1" using g1 by (simp add: grows_def)
  have "grows t st1 1 (snd (mkstemp t st1))" using g1 grows_fresh grows_mkstemp by blast
  from grows_trans [OF g1 this] have g2: "grows t st 2 st2"
    unfolding st2_def by (intro grows_write) (auto simp: numeral_2_eq_2)
  have g3: "grows t st 2 st3" unfolding st3_def output_def using g2 by (intro grows_write) auto
  have n3: "fs_tmp st3 = fs_tmp st + 2" using g3 by (simp add: grows_def)
  have m3: "grows t st 3 (snd (mkstemp t st3))"
    using grows_trans [OF g3 grows_mkstemp [OF grows_fresh [OF g3]]] by (simp add: numeral_3_eq_3)
  have g4: "grows t st (if debug then 3 else 2) st4"
    unfolding st4_def using g3 m3 by (auto intro!: grows_write)
  have n4: "fs_tmp st4 = fs_tmp st + (if debug then 3 else 2)" using g4 by (simp add: grows_def)
  have g5: "grows t st (temps debug) st5"
    using grows_trans [OF g4 grows_mkstemp [OF grows_fresh [OF g4]]]
    by (cases debug) (simp_all add: st5_def temps_def numeral_3_eq_3 numeral_eq_Suc)
  have g6: "grows t st (temps debug) (write_file final ls st5)" for ls
    unfolding final_def n4 using g5 by (intro grows_write) (auto simp: temps_def)
  have src: "read_file source st2 = Inr text"
    using grows_existing [OF g2, of source] assms(3) by (simp add: read_file_def)
  have unf: "indent t source debug level st =
     rbind (if level < 3
            then rbind (remove_trailing_whitespace_changes (if debug then [] else diff)) (\<lambda>patchset.
                   case patchset of
                     [] \<Rightarrow> Inr ([], st5)
                   | p # _ \<Rightarrow> rbind (write_patch p) (\<lambda>ls. Inr (ls, write_file final ls st5)))
            else Inr (if debug then [] else diff, write_file final (if debug then [] else diff) st5)) (\<lambda>(f, st).
       Inr (output, write_file output (t_patch t f text) st))"
    using src assms(2) n1 n3
    unfolding indent_def st5_def st4_def st3_def st2_def st1_def final_def output_def diff_def text'_def cfg_def
    by (simp add: mkstemp_eq Let_def write_file_def)
  have fmt: "formatted t source output debug level text =
     (if level < 3
      then rbind (remove_trailing_whitespace_changes (if debug then [] else diff)) (\<lambda>patchset.
             case patchset of
               [] \<Rightarrow> Inr (t_patch t [] text)
             | p # _ \<Rightarrow> rbind (write_patch p) (\<lambda>ls. Inr (t_patch t ls text)))
      else Inr (t_patch t (if debug then [] else diff) text))"
    by (simp add: formatted_def diff_def text'_def cfg_def Let_def)
  show ?thesis
  proof (cases "level < 3")
    case False
    with g6 [of "if debug then [] else diff"] show ?thesis
      unfolding unf fmt by (simp only: if_False rbind_simps prod.case) blast
  next
    case True
    show ?thesis
    proof (cases "remove_trailing_whitespace_changes (if debug then [] else diff)")
      case (Inl e)
      with True show ?thesis unfolding unf fmt by simp
    next
      case (Inr ps)
      with True g5 g6 show ?thesis
        unfolding unf fmt by (cases ps; cases "write_patch (hd ps)") auto
    qed
  qed
qed

lemma get_write_same: "dict_get (fs_text (write_file f ls st)) f = Some ls"
  by (simp add: get_write_file)

text \<open>One file: the result is in a temporary file, everything that existed is as before.\<close>

lemma indent_ok:
  assumes "fresh t st" "t_installed t" "dict_get (fs_text st) source = Some text"
    and "formatted t source (t_tmp t (fs_tmp st)) debug level text = Inr out"
  shows "\<exists>st'. indent t source debug level st = Inr (t_tmp t (fs_tmp st), st') \<and> grows t st (temps debug) st'
     \<and> dict_get (fs_text st') (t_tmp t (fs_tmp st)) = Some out"
proof -
  obtain st1 where st1: "grows t st (temps debug) st1"
      "indent t source debug level st = Inr (t_tmp t (fs_tmp st), write_file (t_tmp t (fs_tmp st)) out st1)"
    using indent_unfold [OF assms(1,2,3), of debug level] assms(4) by auto
  have "grows t st (temps debug) (write_file (t_tmp t (fs_tmp st)) out st1)"
    using st1(1) by (rule grows_write) (auto simp: temps_def)
  with st1(2) show ?thesis by (auto simp: get_write_same)
qed

text \<open>
  \<open>outputs\<close> pairs every file with its temporary file and the text computed for it, the
  \<open>i\<close>-th from the temporary names that begin at \<open>n + i * temps\<close>; it is an error when one of
  the computations is.
\<close>

fun outputs :: "tools \<Rightarrow> bool \<Rightarrow> int \<Rightarrow> files \<Rightarrow> nat \<Rightarrow> string list \<Rightarrow> (string \<times> string \<times> string list) list res" where
  "outputs t debug level st n [] = Inr []"
| "outputs t debug level st n (f # fs) =
     rbind (read_file f st) (\<lambda>text.
     rbind (formatted t f (t_tmp t n) debug level text) (\<lambda>out.
     rbind (outputs t debug level st (n + temps debug) fs) (\<lambda>outs. Inr ((f, t_tmp t n, out) # outs))))"

lemma outputs_cong:
  "(\<And>f. f \<in> set fs \<Longrightarrow> read_file f st = read_file f st') \<Longrightarrow>
   outputs t debug level st n fs = outputs t debug level st' n fs"
  by (induction fs arbitrary: n) (auto intro!: arg_cong2 [of _ _ _ _ rbind] ext)

lemma read_file_grows:
  "grows t st k st' \<Longrightarrow> dict_get (fs_text st) f \<noteq> None \<Longrightarrow> read_file f st' = read_file f st"
  using grows_existing [of t st k st' f] by (simp add: read_file_def)

lemma outputs_names:
  "outputs t debug level st n fs = Inr outs \<Longrightarrow> (f, d, out) \<in> set outs \<Longrightarrow> \<exists>m\<ge>n. d = t_tmp t m"
proof (induction fs arbitrary: n outs)
  case (Cons g fs)
  then obtain o1 rest where "outs = (g, t_tmp t n, o1) # rest" "outputs t debug level st (n + temps debug) fs = Inr rest"
    by (auto simp: res_simps)
  with Cons.IH [of "n + temps debug" rest] Cons.prems(2) show ?case by (auto dest: add_leD1)
qed simp

lemma indent_all_ok:
  assumes "fresh t st" "t_installed t" "\<forall>f\<in>set fs. dict_get (fs_text st) f \<noteq> None"
    and "outputs t debug level st (fs_tmp st) fs = Inr outs"
  shows "\<exists>st'. indent_all t fs debug level st = Inr (map (\<lambda>(f, d, out). (f, d)) outs, st')
     \<and> grows t st (length fs * temps debug) st'
     \<and> (\<forall>(f, d, out)\<in>set outs. dict_get (fs_text st') d = Some out)"
  using assms
proof (induction fs arbitrary: st outs)
  case Nil
  then show ?case by (auto simp: grows_refl)
next
  case (Cons f fs)
  let ?d = "t_tmp t (fs_tmp st)"
  from Cons.prems(4) obtain body out rest where body: "read_file f st = Inr body"
      and out: "formatted t f ?d debug level body = Inr out"
      and rest: "outputs t debug level st (fs_tmp st + temps debug) fs = Inr rest" and outs: "outs = (f, ?d, out) # rest"
    by (auto simp: res_simps)
  have "dict_get (fs_text st) f = Some body" using body by (simp add: read_file_def split: option.splits)
  from indent_ok [OF Cons.prems(1,2) this out] obtain st1 where
    st1: "indent t f debug level st = Inr (?d, st1)" "grows t st (temps debug) st1" "dict_get (fs_text st1) ?d = Some out"
    by blast
  have n1: "fs_tmp st1 = fs_tmp st + temps debug" using st1(2) by (simp add: grows_def)
  have "outputs t debug level st1 (fs_tmp st1) fs = Inr rest"
    using rest outputs_cong [of fs st1 st] read_file_grows [OF st1(2)] Cons.prems(3) n1 by auto
  moreover have "\<forall>g\<in>set fs. dict_get (fs_text st1) g \<noteq> None"
    using grows_existing [OF st1(2)] Cons.prems(3) by auto
  ultimately obtain st2 where st2: "indent_all t fs debug level st1 = Inr (map (\<lambda>(f, d, out). (f, d)) rest, st2)"
      "grows t st1 (length fs * temps debug) st2" "\<forall>(f, d, out)\<in>set rest. dict_get (fs_text st2) d = Some out"
    using Cons.IH [OF grows_fresh [OF st1(2)] Cons.prems(2)] by blast
  have "dict_get (fs_text st2) ?d = Some out"
    using grows_existing [OF st2(2), of ?d] st1(3) by simp
  with st1 st2 outs grows_trans [OF st1(2) st2(2)] show ?case by (auto simp: add.commute)
qed

lemma indent_all_error:
  assumes "fresh t st" "t_installed t" "\<forall>f\<in>set fs. dict_get (fs_text st) f \<noteq> None"
    and "outputs t debug level st (fs_tmp st) fs = Inl e"
  shows "indent_all t fs debug level st = Inl e"
  using assms
proof (induction fs arbitrary: st)
  case (Cons f fs)
  let ?d = "t_tmp t (fs_tmp st)"
  obtain body where body: "dict_get (fs_text st) f = Some body" using Cons.prems(3) by auto
  then have rd: "read_file f st = Inr body" by (simp add: read_file_def)
  show ?case
  proof (cases "formatted t f ?d debug level body")
    case (Inl e')
    with Cons.prems(4) rd indent_unfold [OF Cons.prems(1,2) body, of debug level] show ?thesis by auto
  next
    case (Inr out)
    from indent_ok [OF Cons.prems(1,2) body this] obtain st1 where
      st1: "indent t f debug level st = Inr (?d, st1)" "grows t st (temps debug) st1" by blast
    have "outputs t debug level st (fs_tmp st + temps debug) fs = Inl e"
      using Cons.prems(4) rd Inr by (auto simp: res_simps)
    moreover have "fs_tmp st1 = fs_tmp st + temps debug" using st1(2) by (simp add: grows_def)
    ultimately have "outputs t debug level st1 (fs_tmp st1) fs = Inl e"
      using outputs_cong [of fs st1 st] read_file_grows [OF st1(2)] Cons.prems(3) by auto
    moreover have "\<forall>g\<in>set fs. dict_get (fs_text st1) g \<noteq> None"
      using grows_existing [OF st1(2)] Cons.prems(3) by auto
    ultimately show ?thesis
      using Cons.IH [OF grows_fresh [OF st1(2)] Cons.prems(2)] st1(1) by simp
  qed
qed simp

section \<open>Checking and rewriting\<close>

lemma copy_all_ok:
  assumes "\<forall>(f, d, out)\<in>set outs. dict_get (fs_text st) d = Some out \<and> d \<notin> fst ` set outs"
  shows "\<exists>st'. copy_all (map (\<lambda>(f, d, out). (f, d)) outs) st = Inr st' \<and>
     (\<forall>g. g \<notin> fst ` set outs \<longrightarrow> dict_get (fs_text st') g = dict_get (fs_text st) g) \<and>
     (distinct (map fst outs) \<longrightarrow> (\<forall>(f, d, out)\<in>set outs. dict_get (fs_text st') f = Some out))"
  using assms
proof (induction outs arbitrary: st)
  case (Cons x outs)
  obtain f d out where x: "x = (f, d, out)" by (cases x)
  let ?st = "write_file f out st"
  have rd: "read_file d st = Inr out" using Cons.prems x by (auto simp: read_file_def)
  have "\<forall>(f', d', out')\<in>set outs. dict_get (fs_text ?st) d' = Some out' \<and> d' \<notin> fst ` set outs"
  proof (clarify)
    fix f' d' out' assume "(f', d', out') \<in> set outs"
    then have "dict_get (fs_text st) d' = Some out' \<and> d' \<notin> fst ` set (x # outs)"
      using bspec [OF Cons.prems, of "(f', d', out')"] by simp
    then show "dict_get (fs_text ?st) d' = Some out' \<and> d' \<notin> fst ` set outs"
      using x by (simp add: get_write_file)
  qed
  from Cons.IH [OF this] obtain st' where st': "copy_all (map (\<lambda>(f, d, out). (f, d)) outs) ?st = Inr st'"
      "\<And>g. g \<notin> fst ` set outs \<Longrightarrow> dict_get (fs_text st') g = dict_get (fs_text ?st) g"
      "distinct (map fst outs) \<Longrightarrow> (\<forall>(f, d, out)\<in>set outs. dict_get (fs_text st') f = Some out)"
    by blast
  have "dict_get (fs_text st') g = dict_get (fs_text st) g" if "g \<notin> fst ` set (x # outs)" for g
    using st'(2) [of g] that x by (simp add: get_write_file)
  moreover have "dict_get (fs_text st') f = Some out" if "distinct (map fst (x # outs))"
    using st'(2) [of f] that x by (simp add: get_write_file)
  ultimately show ?case using st'(1,3) rd x by auto
qed simp

lemma outputs_fst: "outputs t debug level st n fs = Inr outs \<Longrightarrow> map fst outs = fs"
  by (induction fs arbitrary: n outs) (auto simp: res_simps)

lemma outputs_not_source:
  assumes "fresh t st" "\<forall>f\<in>set fs. dict_get (fs_text st) f \<noteq> None"
    and "outputs t debug level st (fs_tmp st) fs = Inr outs" "(f, d, out) \<in> set outs"
  shows "d \<notin> fst ` set outs"
proof
  assume "d \<in> fst ` set outs"
  moreover have "fst ` set outs = set fs" using outputs_fst [OF assms(3)] by (metis set_map)
  ultimately have "dict_get (fs_text st) d \<noteq> None" using assms(2) by auto
  with outputs_names [OF assms(3,4)] assms(1) show False by (auto simp: fresh_def)
qed

lemma indent_files_in_place:
  assumes "fresh t st" "t_installed t" "\<forall>f\<in>set fs. dict_get (fs_text st) f \<noteq> None"
    and "outputs t debug level st (fs_tmp st) fs = Inr outs" "distinct fs"
  shows "\<exists>st'. indent_files t fs diff debug level True st = Inr (True, st') \<and>
     (\<forall>(f, d, out)\<in>set outs. dict_get (fs_text st') f = Some out) \<and>
     (\<forall>g. g \<notin> set fs \<and> dict_get (fs_text st) g \<noteq> None \<longrightarrow> dict_get (fs_text st') g = dict_get (fs_text st) g)"
proof -
  from indent_all_ok [OF assms(1-4)] obtain st1 where
    st1: "indent_all t fs debug level st = Inr (map (\<lambda>(f, d, out). (f, d)) outs, st1)"
      "grows t st (length fs * temps debug) st1" "\<forall>(f, d, out)\<in>set outs. dict_get (fs_text st1) d = Some out"
    by blast
  have fst: "map fst outs = fs" using outputs_fst [OF assms(4)] .
  have "\<forall>(f, d, out)\<in>set outs. dict_get (fs_text st1) d = Some out \<and> d \<notin> fst ` set outs"
    using st1(3) outputs_not_source [OF assms(1,3,4)] by blast
  from copy_all_ok [OF this] obtain st2 where
    st2: "copy_all (map (\<lambda>(f, d, out). (f, d)) outs) st1 = Inr st2"
      "\<And>g. g \<notin> fst ` set outs \<Longrightarrow> dict_get (fs_text st2) g = dict_get (fs_text st1) g"
      "\<forall>(f, d, out)\<in>set outs. dict_get (fs_text st2) f = Some out"
    using assms(5) fst by blast
  have "dict_get (fs_text st2) g = dict_get (fs_text st) g" if "g \<notin> set fs" "dict_get (fs_text st) g \<noteq> None" for g
  proof -
    have "g \<notin> fst ` set outs" using that(1) fst by (metis set_map)
    then show ?thesis using st2(2) grows_existing [OF st1(2) that(2)] by simp
  qed
  with st1(1) st2 show ?thesis by (simp add: indent_files_def)
qed

text \<open>The check compares every file with the text computed for it.\<close>

definition passes :: "tools \<Rightarrow> files \<Rightarrow> (string \<times> string \<times> string list) list \<Rightarrow> bool" where
  "passes t st outs \<longleftrightarrow>
     list_all (\<lambda>(f, d, out). t_same_stat t f d \<or> dict_get (fs_text st) f = Some out) outs"

lemma mapM_file_diff:
  "\<forall>(a, b)\<in>set ps. dict_get (fs_text st) a \<noteq> None \<and> dict_get (fs_text st) b \<noteq> None \<Longrightarrow>
   \<exists>ds. mapM (file_diff t st) ps = Inr ds"
  by (induction ps) (auto simp: file_diff_def read_file_def split: option.splits)

lemma indent_files_check:
  assumes "fresh t st" "t_installed t" "\<forall>f\<in>set fs. dict_get (fs_text st) f \<noteq> None"
    and "outputs t debug level st (fs_tmp st) fs = Inr outs"
  shows "\<exists>st'. indent_files t fs diff debug level False st = Inr (passes t st outs, st') \<and>
     (\<forall>g. dict_get (fs_text st) g \<noteq> None \<longrightarrow> dict_get (fs_text st') g = dict_get (fs_text st) g)"
proof -
  from indent_all_ok [OF assms(1-4)] obtain st1 where
    st1: "indent_all t fs debug level st = Inr (map (\<lambda>(f, d, out). (f, d)) outs, st1)"
      "grows t st (length fs * temps debug) st1" "\<forall>(f, d, out)\<in>set outs. dict_get (fs_text st1) d = Some out"
    by blast
  have fst: "map fst outs = fs" using outputs_fst [OF assms(4)] .
  have keep: "dict_get (fs_text st1) g = dict_get (fs_text st) g" if "dict_get (fs_text st) g \<noteq> None" for g
    using grows_existing [OF st1(2) that] .
  have ex: "dict_get (fs_text st) f \<noteq> None" if "(f, d, out) \<in> set outs" for f d out
    using assms(3) that fst by (metis fst_conv image_eqI list.set_map)
  let ?failed = "filter (\<lambda>(src, dst). \<not> filecmp_cmp t src dst st1) (map (\<lambda>(f, d, out). (f, d)) outs)"
  have "filecmp_cmp t f d st1 \<longleftrightarrow> t_same_stat t f d \<or> dict_get (fs_text st) f = Some out" if "(f, d, out) \<in> set outs" for f d out
    using st1(3) keep [OF ex [OF that]] that by (auto simp: filecmp_cmp_def)
  then have failed: "?failed = [] \<longleftrightarrow> passes t st outs"
    by (fastforce simp: passes_def list_all_iff filter_empty_conv)
  have "\<forall>(a, b)\<in>set ?failed. dict_get (fs_text st1) a \<noteq> None \<and> dict_get (fs_text st1) b \<noteq> None"
    using st1(3) keep ex by (fastforce)
  from mapM_file_diff [OF this] obtain ds where "mapM (file_diff t st1) ?failed = Inr ds" by blast
  with st1(1) failed keep show ?thesis
    by (cases "passes t st outs"; cases diff) (auto simp: indent_files_def Let_def print_lines_def)
qed

lemma outputs_debug:
  assumes "\<forall>f\<in>set fs. dict_get (fs_text st) f \<noteq> None"
  shows "\<exists>outs. outputs t True level st n fs = Inr outs \<and>
     (\<forall>(f, d, out)\<in>set outs. \<exists>lines. dict_get (fs_text st) f = Some lines \<and> out = t_patch t [] lines)"
  using assms
proof (induction fs arbitrary: n)
  case (Cons f fs)
  then obtain lines where "dict_get (fs_text st) f = Some lines" by auto
  moreover have "formatted t f d True level lines = Inr (t_patch t [] lines)" for d
    by (simp add: formatted_def remove_trailing_whitespace_changes_def parse_patchset_def)
  ultimately show ?case using Cons.IH [of "n + temps True"] Cons.prems by (auto simp: read_file_def)
qed simp

section \<open>Further facts\<close>

text \<open>
  A header that gives only a line number, as a unified diff writes it for a range of one
  line, is rejected.
\<close>

lemma parse_short_header: "parse_patch_line p (''@@ -1 +1 @@'' @ newline) = Inl (PyException [])"
proof -
  have "match_chunk_start (''@@ -1 +1 @@'' @ newline) = None" by code_simp
  then show ?thesis
    by (simp add: parse_patch_line_def match_rest_other)
qed

text \<open>Higher levels include all lower levels.\<close>

lemma config_levels: "k \<le> l \<Longrightarrow> prefix (uncrustify_config_file k) (uncrustify_config_file l)"
  by (auto simp: uncrustify_config_file_def prefix_def)

lemma git_modified_files_suffix:
  assumes "f \<in> set (git_modified_files lines root)"
  shows "\<exists>item. f = butlast root @ ''/'' @ py_strip item \<and> (ends_with item ''.h'' \<or> ends_with item ''.cc'')"
proof -
  have "py_slice root None (Some (- 1)) = butlast root"
    using py_slice_neg_prefix [of 1 root] by (simp add: butlast_conv_take)
  with assms show ?thesis by (auto simp: git_modified_files_def Let_def)
qed

text \<open>
  A removed line before a context line that equals it up to a trailing blank: the context
  line is changed and no longer agrees with the source file.
\<close>

lemma restore_changes_context:
  "restore_chunk \<lparr>ch_lines = [\<lparr>pl_type = SRC, pl_line = s @ '' ''\<rparr>, \<lparr>pl_type = BOTH, pl_line = s\<rparr>], ch_src_pos = 1, ch_dst_pos = 1\<rparr>
   = (\<lparr>ch_lines = [\<lparr>pl_type = SRC, pl_line = s @ '' ''\<rparr>, \<lparr>pl_type = BOTH, pl_line = s @ '' ''\<rparr>], ch_src_pos = 1, ch_dst_pos = 1\<rparr>, False)"
  by (simp add: restore_chunk_def src_idx_def dst_idx_def is_src_def is_dst_def restore_line_eq restored_def)

section \<open>Examples\<close>

definition example_diff :: "string list" where
  "example_diff = [''--- a'' @ newline, ''+++ b'' @ newline, ''@@ -1,2 +1,2 @@'' @ newline,
                   ''-x '' @ newline, ''+x'' @ newline, '' y'' @ newline]"

definition example_chunk :: chunk where
  "example_chunk = \<lparr>ch_lines = [\<lparr>pl_type = SRC, pl_line = ''x ''\<rparr>, \<lparr>pl_type = DST, pl_line = ''x''\<rparr>,
                                 \<lparr>pl_type = BOTH, pl_line = ''y''\<rparr>], ch_src_pos = 1, ch_dst_pos = 1\<rparr>"

text \<open>A formatter that removes blank lines, on an unchanging diff that no patch understands.\<close>

definition example_tools :: tools where
  "example_tools = \<lparr>t_installed = True, t_uncrustify = (\<lambda>_ ls. filter (\<lambda>l. l \<noteq> newline) ls),
     t_diff = (\<lambda>a b f g. if a = b then [] else example_diff),
     t_patch = (\<lambda>d ls. if d = [] then ls else filter (\<lambda>l. l \<noteq> newline) ls),
     t_tmp = (\<lambda>n. replicate n CHR ''t''), t_same_stat = (\<lambda>_ _. False)\<rparr>"

definition example_files :: files where
  "example_files = \<lparr>fs_text = [(''f'', [''x'' @ newline, newline])], fs_tmp = 1, fs_stdout = []\<rparr>"

lemma example_fresh: "fresh example_tools example_files"
proof -
  have "inj (\<lambda>n. replicate n CHR ''t'')" by (auto simp: inj_def)
  moreover have "replicate n CHR ''t'' \<noteq> ''f''" for n by (cases n) auto
  ultimately show ?thesis by (simp add: fresh_def example_tools_def example_files_def)
qed

lemma example_outputs:
  "outputs example_tools False 0 example_files 1 [''f''] = Inr [(''f'', ''t'', [''x'' @ newline])]"
  by code_simp

section \<open>Claims\<close>

text \<open>
  C8: writing and parsing patch sets are inverse: what \<^verbatim>\<open>parse_patchset\<close> returns for any
  lines, written patch by patch, parses to the same patch set again; every well-formed
  patch set arises in this way.
\<close>

theorem patchset_roundtrip:
  "(parse_patchset ls = Inr ps \<longrightarrow>
      (\<exists>texts. mapM write_patch ps = Inr texts \<and> parse_patchset (concat texts) = Inr ps))
   \<and> ((\<exists>ls. parse_patchset ls = Inr ps) \<longleftrightarrow> list_all patch_ok ps)"
proof -
  have "mapM write_patch ps = Inr (map patch_text ps) \<and> parse_patchset (concat (map patch_text ps)) = Inr ps"
    if "list_all patch_ok ps"
    using that mapM_Inr [of ps write_patch patch_text] parse_patchset_text [OF that]
    by (auto simp: list_all_iff write_patch_ok)
  with parse_patchset_ok show ?thesis by blast
qed

theorem patchset_roundtrip_witness:
  "\<exists>texts. mapM write_patch [\<lparr>pa_src = ''a'', pa_dst = ''b'', pa_chunks = [example_chunk]\<rparr>] = Inr texts
     \<and> parse_patchset (concat texts) = parse_patchset example_diff"
proof -
  have "parse_patchset example_diff = Inr [\<lparr>pa_src = ''a'', pa_dst = ''b'', pa_chunks = [example_chunk]\<rparr>]"
    by code_simp
  with patchset_roundtrip [of example_diff "[\<lparr>pa_src = ''a'', pa_dst = ''b'', pa_chunks = [example_chunk]\<rparr>]"]
  show ?thesis by auto
qed

text \<open>
  On a chunk whose removed and added lines face each other,
  \<^verbatim>\<open>remove_trailing_whitespace_changes\<close> leaves the source side as it is, and turns an added
  line into the removed line it faces exactly when the two differ by one trailing blank or
  tab; every other line and the shape of the chunk stay.  A difference of two or more
  trailing blanks therefore remains.
\<close>

theorem whitespace_changes_removed:
  assumes "aligned c"
  shows "\<exists>c'. restore_chunk c = (c', True) \<and> src_idx c' = src_idx c \<and> dst_idx c' = dst_idx c
     \<and> (\<forall>k\<in>set (src_idx c). ch_lines c' ! k = ch_lines c ! k)
     \<and> (\<forall>i<src_len c. ch_lines c' ! (dst_idx c ! i)
          = restored (ch_lines c ! (src_idx c ! i)) (ch_lines c ! (dst_idx c ! i)))
     \<and> (\<forall>i. src_len c \<le> i \<and> i < dst_len c \<longrightarrow> ch_lines c' ! (dst_idx c ! i) = ch_lines c ! (dst_idx c ! i))"
proof -
  obtain c' where c': "restore_chunk c = (c', True)" "length (ch_lines c') = length (ch_lines c)"
    "\<forall>i<src_len c. ch_lines c' ! (dst_idx c ! i) = restored (ch_lines c ! (src_idx c ! i)) (ch_lines c ! (dst_idx c ! i))"
    "\<And>k. k \<notin> set (take (src_len c) (dst_idx c)) \<Longrightarrow> ch_lines c' ! k = ch_lines c ! k"
    using restore_chunk_spec [OF assms] by blast
  have "dst_idx c ! i \<notin> set (take (src_len c) (dst_idx c))" if "src_len c \<le> i" "i < dst_len c" for i
    using that nth_eq_iff_index_eq [OF idx_facts(1), of _ c i] by (auto simp: in_set_conv_nth dst_len_def)
  then have rest: "\<forall>i. src_len c \<le> i \<and> i < dst_len c \<longrightarrow> ch_lines c' ! (dst_idx c ! i) = ch_lines c ! (dst_idx c ! i)"
    using c'(4) by blast
  have idx: "src_idx c' = src_idx c" "dst_idx c' = dst_idx c"
    using idx_cong [OF c'(2)] restore_chunk_types [OF assms c'(1)] by blast+
  have src: "\<forall>k\<in>set (src_idx c). ch_lines c' ! k = ch_lines c ! k"
    using restore_chunk_src [OF assms c'(1)] by blast
  show ?thesis
    using c'(1) idx src c'(3) rest by blast
qed

theorem whitespace_changes_removed_witness:
  "\<exists>c'. restore_chunk example_chunk = (c', True) \<and> ch_lines c' ! 1 = \<lparr>pl_type = DST, pl_line = ''x ''\<rparr>"
proof -
  have idx: "src_idx example_chunk = [0, 2]" "dst_idx example_chunk = [1, 2]"
    by code_simp+
  then have "aligned example_chunk"
    by (auto simp: aligned_def src_len_def dst_len_def less_Suc_eq example_chunk_def)
  then obtain c' where c': "restore_chunk example_chunk = (c', True)"
    "\<forall>i<src_len example_chunk. ch_lines c' ! (dst_idx example_chunk ! i)
       = restored (ch_lines example_chunk ! (src_idx example_chunk ! i)) (ch_lines example_chunk ! (dst_idx example_chunk ! i))"
    using whitespace_changes_removed [of example_chunk] by blast
  have "ch_lines c' ! 1 = restored (ch_lines example_chunk ! 0) (ch_lines example_chunk ! 1)"
    using c'(2) idx by (force simp: src_len_def)
  with c'(1) show ?thesis by (auto simp: restored_def example_chunk_def)
qed

text \<open>
  Checking files without rewriting them succeeds exactly when every file equals the
  text computed for it (or has the same status as the temporary file), and changes no file
  that existed.
\<close>

theorem check_reports:
  assumes "fresh t st" and "t_installed t" and "\<forall>f\<in>set fs. dict_get (fs_text st) f \<noteq> None"
    and "outputs t debug level st (fs_tmp st) fs = Inr outs"
  shows "\<exists>st'. indent_files t fs diff debug level False st = Inr (passes t st outs, st') \<and>
     (\<forall>g. dict_get (fs_text st) g \<noteq> None \<longrightarrow> dict_get (fs_text st') g = dict_get (fs_text st) g)"
  using indent_files_check [OF assms] .

theorem check_reports_witness:
  "\<exists>st'. indent_files example_tools [''f''] False False 0 False example_files = Inr (False, st')
     \<and> dict_get (fs_text st') ''f'' = Some [''x'' @ newline, newline]"
proof -
  have "\<not> passes example_tools example_files [(''f'', ''t'', [''x'' @ newline])]"
    by (simp add: passes_def example_tools_def example_files_def)
  with check_reports [OF example_fresh, where fs = "[''f'']" and debug = False and level = 0
      and outs = "[(''f'', ''t'', [''x'' @ newline])]" and diff = False] example_outputs
  show ?thesis by (auto simp: example_tools_def example_files_def)
qed

text \<open>
  Rewriting in place replaces every given file by the text computed for it and touches
  no other file that existed.
\<close>

theorem in_place_rewrites:
  assumes "fresh t st" and "t_installed t" and "\<forall>f\<in>set fs. dict_get (fs_text st) f \<noteq> None" and "distinct fs"
    and "outputs t debug level st (fs_tmp st) fs = Inr outs"
  shows "\<exists>st'. indent_files t fs diff debug level True st = Inr (True, st') \<and> map fst outs = fs \<and>
     (\<forall>(f, d, out)\<in>set outs. dict_get (fs_text st') f = Some out) \<and>
     (\<forall>g. g \<notin> set fs \<and> dict_get (fs_text st) g \<noteq> None \<longrightarrow> dict_get (fs_text st') g = dict_get (fs_text st) g)"
  using indent_files_in_place [OF assms(1-3,5,4)] outputs_fst [OF assms(5)] by simp

theorem in_place_rewrites_witness:
  "\<exists>st'. indent_files example_tools [''f''] False False 0 True example_files = Inr (True, st')
     \<and> dict_get (fs_text st') ''f'' = Some [''x'' @ newline]"
  using in_place_rewrites [OF example_fresh, where fs = "[''f'']" and debug = False and level = 0
      and outs = "[(''f'', ''t'', [''x'' @ newline])]" and diff = False] example_outputs
  by (auto simp: example_tools_def example_files_def)

text \<open>
  With \<^verbatim>\<open>--debug\<close> the check always passes: writing the initial diff to a file uses the
  generator up, the final diff is empty and, as \<^verbatim>\<open>patch\<close> changes nothing for an empty diff,
  every file is compared with a copy of itself.
\<close>

theorem debug_check_passes:
  assumes "fresh t st" and "t_installed t" and "\<forall>f\<in>set fs. dict_get (fs_text st) f \<noteq> None"
    and "\<forall>lines. t_patch t [] lines = lines"
  shows "\<exists>st'. indent_files t fs diff True level False st = Inr (True, st')"
proof -
  obtain outs where outs: "outputs t True level st (fs_tmp st) fs = Inr outs"
      "\<forall>(f, d, out)\<in>set outs. \<exists>lines. dict_get (fs_text st) f = Some lines \<and> out = t_patch t [] lines"
    using outputs_debug [OF assms(3)] by blast
  then have "passes t st outs" using assms(4) by (auto simp: passes_def list_all_iff)
  with indent_files_check [OF assms(1-3) outs(1), of diff] show ?thesis by auto
qed

theorem debug_check_passes_witness:
  "\<exists>st'. indent_files example_tools [''f''] False True 0 False example_files = Inr (True, st')"
  by (rule debug_check_passes [OF example_fresh]) (auto simp: example_tools_def example_files_def)

end
