(* ===== verification/Grid_Data.thy ===== *)
theory Grid_Data
  imports Complex_Main Py_Strings
begin

text \<open>
  The data model of \<^verbatim>\<open>src/source/ns-3-dev/utils/grid.py\<close>, the viewer of timeline logs:
  ranges and events, the binary searches over them, timelines grouped by name, the colour
  table and the reader of log files.  The program imports \<^verbatim>\<open>gtk\<close> and sorts with a
  comparison function, so it is Python 2 code: \<^verbatim>\<open>/\<close> on integers rounds down.  The bounds
  of a query are numbers of either kind and are represented by their value, a rational.
\<close>

section \<open>Ranges and events\<close>

record data_range =
  dr_start :: int
  dr_end :: int
  dr_value :: string

text \<open>\<^verbatim>\<open>EventString\<close> and \<^verbatim>\<open>EventInt\<close>: an event with a string or a number.\<close>

record 'v tl_event =
  ev_at :: int
  ev_value :: 'v

definition ranges_cmp :: "data_range \<Rightarrow> data_range \<Rightarrow> int" where
  "ranges_cmp a b =
     (let diff = dr_start a - dr_start b in if diff < 0 then - 1 else if diff > 0 then 1 else 0)"

definition events_cmp :: "'v tl_event \<Rightarrow> 'v tl_event \<Rightarrow> int" where
  "events_cmp a b =
     (let diff = ev_at a - ev_at b in if diff < 0 then - 1 else if diff > 0 then 1 else 0)"

text \<open>\<^verbatim>\<open>xs.sort(cmp)\<close>: a stable sort, by insertion before the first greater element.\<close>

fun insert_cmp :: "('a \<Rightarrow> 'a \<Rightarrow> int) \<Rightarrow> 'a \<Rightarrow> 'a list \<Rightarrow> 'a list" where
  "insert_cmp cmp x [] = [x]"
| "insert_cmp cmp x (y # ys) = (if cmp x y < 0 then x # y # ys else y # insert_cmp cmp x ys)"

definition py_sort :: "('a \<Rightarrow> 'a \<Rightarrow> int) \<Rightarrow> 'a list \<Rightarrow> 'a list" where
  "py_sort cmp xs = foldl (\<lambda>acc x. insert_cmp cmp x acc) [] xs"

section \<open>\<^verbatim>\<open>TimelineDataRange\<close>\<close>

record range_line =
  rl_name :: string
  rl_ranges :: "data_range list"

definition new_range_line :: "string \<Rightarrow> range_line" where
  "new_range_line name = \<lparr>rl_name = name, rl_ranges = []\<rparr>"

function range_search_loop :: "data_range list \<Rightarrow> rat \<Rightarrow> int \<Rightarrow> int \<Rightarrow> int res" where
  "range_search_loop ranges key l u =
     (if l \<le> u
      then let i = (l + u) div 2 in
           rbind (py_index ranges i) (\<lambda>r.
             if of_int (dr_start r) \<le> key \<and> key \<le> of_int (dr_end r) then Inr i
             else if key < of_int (dr_start r) then range_search_loop ranges key l (i - 1)
             else range_search_loop ranges key (i + 1) u)
      else Inr (- 1))"
  by pat_completeness auto
termination
  by (relation "measure (\<lambda>(ranges, key, l, u). nat (u + 1 - l))") auto

declare range_search_loop.simps [simp del]

definition range_search :: "data_range list \<Rightarrow> rat \<Rightarrow> int res" where
  "range_search ranges key = range_search_loop ranges key 0 (int (length ranges) - 1)"

definition add_range :: "data_range \<Rightarrow> range_line \<Rightarrow> range_line" where
  "add_range r l = l\<lparr>rl_ranges := rl_ranges l @ [r]\<rparr>"

definition get_ranges :: "range_line \<Rightarrow> rat \<Rightarrow> rat \<Rightarrow> data_range list res" where
  "get_ranges l start end =
     rbind (range_search (rl_ranges l) start) (\<lambda>s.
     rbind (range_search (rl_ranges l) end) (\<lambda>e.
       Inr (if s = - 1 \<and> e = - 1 then []
            else if s = - 1 then py_slice (rl_ranges l) (Some 0) (Some (e + 1))
            else if e = - 1 then py_slice (rl_ranges l) (Some s) (Some (int (length (rl_ranges l))))
            else py_slice (rl_ranges l) (Some s) (Some (e + 1)))))"

definition get_ranges_bounds :: "range_line \<Rightarrow> rat \<Rightarrow> rat \<Rightarrow> (int \<times> int) res" where
  "get_ranges_bounds l start end =
     rbind (range_search (rl_ranges l) start) (\<lambda>s.
     rbind (range_search (rl_ranges l) end) (\<lambda>e.
       Inr (if s = - 1 \<and> e = - 1 then (0, 0)
            else if s = - 1 then (0, e + 1)
            else if e = - 1 then (s, int (length (rl_ranges l)))
            else (s, e + 1))))"

definition sort_ranges :: "range_line \<Rightarrow> range_line" where
  "sort_ranges l = l\<lparr>rl_ranges := py_sort ranges_cmp (rl_ranges l)\<rparr>"

definition range_bounds :: "range_line \<Rightarrow> int \<times> int" where
  "range_bounds l =
     (case rl_ranges l of [] \<Rightarrow> (0, 0) | r # rs \<Rightarrow> (dr_start r, dr_end (last (r # rs))))"

section \<open>\<^verbatim>\<open>TimelineEvent\<close>\<close>

record 'v event_line =
  el_name :: string
  el_events :: "'v tl_event list"

definition new_event_line :: "string \<Rightarrow> 'v event_line" where
  "new_event_line name = \<lparr>el_name = name, el_events = []\<rparr>"

function event_search_loop :: "'v tl_event list \<Rightarrow> rat \<Rightarrow> int \<Rightarrow> int \<Rightarrow> int res" where
  "event_search_loop events key l u =
     (if l \<le> u
      then let i = (l + u) div 2 in
           rbind (py_index events i) (\<lambda>e.
             if key = of_int (ev_at e) then Inr i
             else if key < of_int (ev_at e) then event_search_loop events key l (i - 1)
             else event_search_loop events key (i + 1) u)
      else Inr l)"
  by pat_completeness auto
termination
  by (relation "measure (\<lambda>(events, key, l, u). nat (u + 1 - l))") auto

declare event_search_loop.simps [simp del]

definition event_search :: "'v tl_event list \<Rightarrow> rat \<Rightarrow> int res" where
  "event_search events key = event_search_loop events key 0 (int (length events) - 1)"

definition add_event :: "'v tl_event \<Rightarrow> 'v event_line \<Rightarrow> 'v event_line" where
  "add_event e l = l\<lparr>el_events := el_events l @ [e]\<rparr>"

definition get_events :: "'v event_line \<Rightarrow> rat \<Rightarrow> rat \<Rightarrow> 'v tl_event list res" where
  "get_events l start end =
     rbind (event_search (el_events l) start) (\<lambda>s.
     rbind (event_search (el_events l) end) (\<lambda>e.
       Inr (py_slice (el_events l) (Some s) (Some (e + 1)))))"

definition get_events_bounds :: "'v event_line \<Rightarrow> rat \<Rightarrow> rat \<Rightarrow> (int \<times> int) res" where
  "get_events_bounds l start end =
     rbind (event_search (el_events l) start) (\<lambda>s.
     rbind (event_search (el_events l) end) (\<lambda>e. Inr (s, e + 1)))"

definition sort_events :: "'v event_line \<Rightarrow> 'v event_line" where
  "sort_events l = l\<lparr>el_events := py_sort events_cmp (el_events l)\<rparr>"

definition event_bounds :: "'v event_line \<Rightarrow> int \<times> int" where
  "event_bounds l =
     (case el_events l of [] \<Rightarrow> (0, 0) | e # es \<Rightarrow> (ev_at e, ev_at (last (e # es))))"

section \<open>\<^verbatim>\<open>Timeline\<close> and \<^verbatim>\<open>Timelines\<close>\<close>

record timeline =
  tl_ranges :: "range_line list"
  tl_event_str :: "string event_line list"
  tl_event_int :: "int event_line list"
  tl_name :: string

definition new_timeline :: "string \<Rightarrow> timeline" where
  "new_timeline name = \<lparr>tl_ranges = [], tl_event_str = [], tl_event_int = [], tl_name = name\<rparr>"

text \<open>
  The loop of the four getters: the position of the first object with the name, after
  appending a new one when there is none.
\<close>

fun find_or_add :: "('b \<Rightarrow> string) \<Rightarrow> (string \<Rightarrow> 'b) \<Rightarrow> string \<Rightarrow> 'b list \<Rightarrow> nat \<times> 'b list" where
  "find_or_add name_of fresh name [] = (0, [fresh name])"
| "find_or_add name_of fresh name (x # xs) =
     (if name_of x = name then (0, x # xs)
      else let (i, xs) = find_or_add name_of fresh name xs in (Suc i, x # xs))"

definition get_range :: "string \<Rightarrow> timeline \<Rightarrow> nat \<times> timeline" where
  "get_range name t =
     (let (i, rs) = find_or_add rl_name new_range_line name (tl_ranges t) in (i, t\<lparr>tl_ranges := rs\<rparr>))"

definition get_event_str :: "string \<Rightarrow> timeline \<Rightarrow> nat \<times> timeline" where
  "get_event_str name t =
     (let (i, es) = find_or_add el_name new_event_line name (tl_event_str t) in (i, t\<lparr>tl_event_str := es\<rparr>))"

definition get_event_int :: "string \<Rightarrow> timeline \<Rightarrow> nat \<times> timeline" where
  "get_event_int name t =
     (let (i, es) = find_or_add el_name new_event_line name (tl_event_int t) in (i, t\<lparr>tl_event_int := es\<rparr>))"

definition sort_timeline :: "timeline \<Rightarrow> timeline" where
  "sort_timeline t =
     t\<lparr>tl_ranges := map sort_ranges (tl_ranges t), tl_event_int := map sort_events (tl_event_int t),
       tl_event_str := map sort_events (tl_event_str t)\<rparr>"

text \<open>The running minimum and maximum of the bounds, which start at \<open>0\<close>.\<close>

definition widen :: "int \<times> int \<Rightarrow> int \<times> int \<Rightarrow> int \<times> int" where
  "widen acc b =
     (let (lo, hi) = acc; (b_lo, b_hi) = b
      in (if b_lo < lo then b_lo else lo, if b_hi > hi then b_hi else hi))"

definition timeline_bounds :: "timeline \<Rightarrow> int \<times> int" where
  "timeline_bounds t =
     (let acc = foldl widen (0, 0) (map range_bounds (tl_ranges t));
          acc = foldl widen acc (map event_bounds (tl_event_str t))
      in foldl widen acc (map event_bounds (tl_event_int t)))"

type_synonym timelines = "timeline list"

definition get_timeline :: "string \<Rightarrow> timelines \<Rightarrow> nat \<times> timelines" where
  "get_timeline name ts = find_or_add tl_name new_timeline name ts"

definition sort_timelines :: "timelines \<Rightarrow> timelines" where
  "sort_timelines ts = map sort_timeline ts"

definition timelines_bounds :: "timelines \<Rightarrow> int \<times> int" where
  "timelines_bounds ts = foldl widen (0, 0) (map timeline_bounds ts)"

text \<open>\<^verbatim>\<open>get_all_range_values\<close>: the keys of a dictionary, in the order \<open>ko\<close> of the interpreter.\<close>

definition get_all_range_values :: "(string list \<Rightarrow> string list) \<Rightarrow> timelines \<Rightarrow> string list" where
  "get_all_range_values ko ts =
     ko (dict_keys (foldl (\<lambda>d r. dict_set d (dr_value r) (1 :: int)) []
       (concat (map (\<lambda>t. concat (map rl_ranges (tl_ranges t))) ts))))"

section \<open>\<^verbatim>\<open>Colors\<close>\<close>

record color =
  col_r :: int
  col_g :: int
  col_b :: int

definition mk_color :: "int \<Rightarrow> int \<Rightarrow> int \<Rightarrow> color" where
  "mk_color r g b = \<lparr>col_r = r, col_g = g, col_b = b\<rparr>"

definition default_colors :: "color list" where
  "default_colors = [mk_color 1 0 0, mk_color 0 1 0, mk_color 0 0 1, mk_color 1 1 0, mk_color 1 0 1, mk_color 0 1 1]"

text \<open>\<open>cs_defaults\<close> is what is left of the list of default colours, which all tables share.\<close>

record colors =
  cs_colors :: "(string, color) dict"
  cs_defaults :: "color list"

definition add_color :: "string \<Rightarrow> color \<Rightarrow> colors \<Rightarrow> colors" where
  "add_color name c cs = cs\<lparr>cs_colors := dict_set (cs_colors cs) name c\<rparr>"

definition lookup_color :: "string \<Rightarrow> colors \<Rightarrow> (color \<times> colors) res" where
  "lookup_color name cs =
     (case dict_get (cs_colors cs) name of
        Some c \<Rightarrow> Inr (c, cs)
      | None \<Rightarrow>
          (if cs_defaults cs = [] then Inl IndexError
           else let c = last (cs_defaults cs)
                in Inr (c, add_color name c (cs\<lparr>cs_defaults := butlast (cs_defaults cs)\<rparr>))))"

text \<open>Looking up a list of names one after the other.\<close>

fun lookup_all :: "string list \<Rightarrow> colors \<Rightarrow> (color list \<times> colors) res" where
  "lookup_all [] cs = Inr ([], cs)"
| "lookup_all (n # ns) cs =
     rbind (lookup_color n cs) (\<lambda>(c, cs). rbind (lookup_all ns cs) (\<lambda>(rest, cs). Inr (c # rest, cs)))"

section \<open>Reading a log\<close>

text \<open>\<^verbatim>\<open>([^ ]+) \<close>: a word and the space after it.\<close>

definition match_word :: "string \<Rightarrow> (string \<times> string) option" where
  "match_word s =
     (let w = takeWhile (\<lambda>c. c \<noteq> CHR '' '') s; rest = dropWhile (\<lambda>c. c \<noteq> CHR '' '') s
      in if w \<noteq> [] \<and> rest \<noteq> [] then Some (w, tl rest) else None)"

text \<open>\<^verbatim>\<open>([0-9]+)\<close>, greedy.\<close>

definition match_number :: "string \<Rightarrow> (string \<times> string) option" where
  "match_number s =
     (let ds = takeWhile is_digit s in if ds \<noteq> [] then Some (ds, dropWhile is_digit s) else None)"

definition match_literal :: "string \<Rightarrow> string \<Rightarrow> string option" where
  "match_literal lit s = (if starts_with s lit then Some (drop (length lit) s) else None)"

definition is_hex :: "char \<Rightarrow> bool" where
  "is_hex c \<longleftrightarrow> (let k = (of_char c :: nat) in (48 \<le> k \<and> k \<le> 57) \<or> (65 \<le> k \<and> k \<le> 70) \<or> (97 \<le> k \<and> k \<le> 102))"

definition match_hex2 :: "string \<Rightarrow> (string \<times> string) option" where
  "match_hex2 s = (if 2 \<le> length s \<and> list_all is_hex (take 2 s) then Some (take 2 s, drop 2 s) else None)"

text \<open>The four patterns, with their groups.\<close>

definition match_m1 :: "string \<Rightarrow> (string \<times> string \<times> string \<times> string \<times> string) option" where
  "match_m1 line =
     Option.bind (match_literal ''range '' line) (\<lambda>s.
     Option.bind (match_word s) (\<lambda>(g1, s).
     Option.bind (match_word s) (\<lambda>(g2, s).
     Option.bind (match_word s) (\<lambda>(g3, s).
     Option.bind (match_number s) (\<lambda>(g4, s).
     Option.bind (match_literal '' '' s) (\<lambda>s.
     Option.bind (match_number s) (\<lambda>(g5, s). Some (g1, g2, g3, g4, g5))))))))"

definition match_m2 :: "string \<Rightarrow> (string \<times> string \<times> string \<times> string) option" where
  "match_m2 line =
     Option.bind (match_literal ''event-str '' line) (\<lambda>s.
     Option.bind (match_word s) (\<lambda>(g1, s).
     Option.bind (match_word s) (\<lambda>(g2, s).
     Option.bind (match_word s) (\<lambda>(g3, s).
     Option.bind (match_number s) (\<lambda>(g4, s). Some (g1, g2, g3, g4))))))"

definition match_m3 :: "string \<Rightarrow> (string \<times> string \<times> string \<times> string) option" where
  "match_m3 line =
     Option.bind (match_literal ''event-int '' line) (\<lambda>s.
     Option.bind (match_word s) (\<lambda>(g1, s).
     Option.bind (match_word s) (\<lambda>(g2, s).
     Option.bind (match_number s) (\<lambda>(g3, s).
     Option.bind (match_literal '' '' s) (\<lambda>s.
     Option.bind (match_number s) (\<lambda>(g4, s). Some (g1, g2, g3, g4)))))))"

definition match_m4 :: "string \<Rightarrow> (string \<times> string \<times> string \<times> string) option" where
  "match_m4 line =
     Option.bind (match_literal ''color '' line) (\<lambda>s.
     Option.bind (match_word s) (\<lambda>(g1, s).
     Option.bind (match_literal ''#'' s) (\<lambda>s.
     Option.bind (match_hex2 s) (\<lambda>(g2, s).
     Option.bind (match_hex2 s) (\<lambda>(g3, s).
     Option.bind (match_hex2 s) (\<lambda>(g4, s). Some (g1, g2, g3, g4)))))))"

definition py_int :: "nat \<Rightarrow> string \<Rightarrow> int res" where
  "py_int base s = (case parse_nat base s of None \<Rightarrow> Inl ValueError | Some n \<Rightarrow> Inr (int n))"

definition update_nth :: "nat \<Rightarrow> ('b \<Rightarrow> 'b) \<Rightarrow> 'b list \<Rightarrow> 'b list" where
  "update_nth i f xs = xs[i := f (xs ! i)]"

type_synonym log = "timelines \<times> colors"

text \<open>Adding to the line with a name of one timeline, and to the timeline with a name.\<close>

definition put_range :: "string \<Rightarrow> data_range \<Rightarrow> timeline \<Rightarrow> timeline" where
  "put_range rname r t =
     (let (j, t) = get_range rname t in t\<lparr>tl_ranges := update_nth j (add_range r) (tl_ranges t)\<rparr>)"

definition put_str :: "string \<Rightarrow> string tl_event \<Rightarrow> timeline \<Rightarrow> timeline" where
  "put_str ename e t =
     (let (j, t) = get_event_str ename t in t\<lparr>tl_event_str := update_nth j (add_event e) (tl_event_str t)\<rparr>)"

definition put_int :: "string \<Rightarrow> int tl_event \<Rightarrow> timeline \<Rightarrow> timeline" where
  "put_int ename e t =
     (let (j, t) = get_event_int ename t in t\<lparr>tl_event_int := update_nth j (add_event e) (tl_event_int t)\<rparr>)"

definition in_timeline :: "string \<Rightarrow> (timeline \<Rightarrow> timeline) \<Rightarrow> timelines \<Rightarrow> timelines" where
  "in_timeline name f ts = (let (i, ts) = get_timeline name ts in update_nth i f ts)"

definition read_line :: "log \<Rightarrow> string \<Rightarrow> log res" where
  "read_line st line =
     (let (ts, cs) = st in
      case match_m1 line of
        Some (g1, g2, g3, g4, g5) \<Rightarrow>
          rbind (py_int 10 g4) (\<lambda>start. rbind (py_int 10 g5) (\<lambda>end.
            Inr (in_timeline g1 (put_range g2 \<lparr>dr_start = start, dr_end = end, dr_value = g3\<rparr>) ts, cs)))
      | None \<Rightarrow>
     (case match_m2 line of
        Some (g1, g2, g3, g4) \<Rightarrow>
          rbind (py_int 10 g4) (\<lambda>when. Inr (in_timeline g1 (put_str g2 \<lparr>ev_at = when, ev_value = g3\<rparr>) ts, cs))
      | None \<Rightarrow>
     (case match_m3 line of
        Some (g1, g2, g3, g4) \<Rightarrow>
          rbind (py_int 10 g3) (\<lambda>value. rbind (py_int 10 g4) (\<lambda>when.
            Inr (in_timeline g1 (put_int g2 \<lparr>ev_at = when, ev_value = value\<rparr>) ts, cs)))
      | None \<Rightarrow>
     (case match_m4 line of
        Some (g1, g2, g3, g4) \<Rightarrow>
          rbind (py_int 16 g2) (\<lambda>r. rbind (py_int 16 g3) (\<lambda>g. rbind (py_int 16 g4) (\<lambda>b.
            Inr (ts, add_color g1 (mk_color (r div 255) (g div 255) (b div 255)) cs))))
      | None \<Rightarrow> Inr (ts, cs)))))"

definition read_data :: "string list \<Rightarrow> (colors \<times> timelines) res" where
  "read_data lines =
     rbind (foldM read_line ([], \<lparr>cs_colors = [], cs_defaults = default_colors\<rparr>) lines) (\<lambda>(ts, cs).
       Inr (cs, sort_timelines ts))"

end
