(* ===== verification/Grid_Data_Correct.thy ===== *)
theory Grid_Data_Correct
  imports Grid_Data
begin

text \<open>
  Correctness of the data model of the timeline viewer: what the two binary searches
  return, which ranges and events a query selects, the bounds, and the contents of a log
  after it has been read.
\<close>

section \<open>Binary search\<close>

text \<open>
  The contract of the two search loops: they look at the middle of an interval of
  positions and go on in one half.  \<open>side i\<close> tells where the key lies with respect to the
  element at \<open>i\<close>.
\<close>

datatype side = Hit | Before | After

text \<open>The elements before the key, then those that hit, then those after it.\<close>

definition ordered_sides :: "(nat \<Rightarrow> side) \<Rightarrow> nat \<Rightarrow> bool" where
  "ordered_sides f n \<longleftrightarrow>
     (\<forall>i j. i < j \<and> j < n \<longrightarrow> (f i = Before \<longrightarrow> f j = Before) \<and> (f j = After \<longrightarrow> f i = After))"

locale bisection =
  fixes loop :: "int \<Rightarrow> int \<Rightarrow> 'r"
    and side :: "nat \<Rightarrow> side"
    and found :: "int \<Rightarrow> 'r"
    and missing :: "int \<Rightarrow> 'r"
    and n :: nat
  assumes unfold: "0 \<le> l \<Longrightarrow> u < int n \<Longrightarrow> loop l u =
    (if l \<le> u
     then case side (nat ((l + u) div 2)) of
            Hit \<Rightarrow> found ((l + u) div 2)
          | Before \<Rightarrow> loop l ((l + u) div 2 - 1)
          | After \<Rightarrow> loop ((l + u) div 2 + 1) u
     else missing l)"
begin

lemma loop_correct:
  assumes "ordered_sides side n" "0 \<le> l" "l \<le> u + 1" "u < int n"
    and "\<forall>i. int i < l \<longrightarrow> side i = After" "\<forall>i<n. u < int i \<longrightarrow> side i = Before"
  shows "(\<exists>i<n. side i = Hit \<and> loop l u = found (int i)) \<or>
         (\<exists>k\<le>n. loop l u = missing (int k) \<and> (\<forall>i<k. side i = After) \<and> (\<forall>i<n. k \<le> i \<longrightarrow> side i = Before))"
  using assms(2-)
proof (induction "nat (u + 1 - l)" arbitrary: l u rule: less_induct)
  case less
  show ?case
  proof (cases "l \<le> u")
    case False
    then have l: "l = u + 1" using less.prems by simp
    have "loop l u = missing (int (nat l))" using unfold [of l u] less.prems False by simp
    moreover have "\<forall>i<nat l. side i = After" using less.prems by auto
    moreover have "\<forall>i<n. nat l \<le> i \<longrightarrow> side i = Before" using less.prems l by auto
    ultimately show ?thesis using less.prems l by (intro disjI2 exI [of _ "nat l"]) auto
  next
    case True
    define m where "m = (l + u) div 2"
    have m: "l \<le> m" "m \<le> u" using True by (auto simp: m_def)
    have mn: "nat m < n" "0 \<le> m" using m less.prems by auto
    show ?thesis
    proof (cases "side (nat m)")
      case Hit
      then have "loop l u = found (int (nat m))" using unfold [of l u] less.prems True mn by (simp add: m_def)
      with Hit mn show ?thesis by blast
    next
      case Before
      then have eq: "loop l u = loop l (m - 1)" using unfold [of l u] less.prems True by (simp add: m_def)
      have "side i = Before" if "i < n" "m - 1 < int i" for i
      proof (cases "i = nat m")
        case False
        with that mn have "nat m < i" by auto
        with assms(1) Before that show ?thesis by (auto simp: ordered_sides_def)
      qed (use Before in simp)
      then show ?thesis
        unfolding eq using m less.prems by (intro less.hyps) auto
    next
      case After
      then have eq: "loop l u = loop (m + 1) u" using unfold [of l u] less.prems True by (simp add: m_def)
      have "side i = After" if "int i < m + 1" for i
      proof (cases "i = nat m")
        case False
        with that mn have "i < nat m" by auto
        with assms(1) After mn show ?thesis by (auto simp: ordered_sides_def)
      qed (use After in simp)
      then show ?thesis
        unfolding eq using m mn less.prems by (intro less.hyps) auto
    qed
  qed
qed

lemma search_correct:
  assumes "ordered_sides side n"
  shows "(\<exists>i<n. side i = Hit \<and> loop 0 (int n - 1) = found (int i)) \<or>
         (\<exists>k\<le>n. loop 0 (int n - 1) = missing (int k) \<and> (\<forall>i<k. side i = After) \<and> (\<forall>i<n. k \<le> i \<longrightarrow> side i = Before))"
  by (rule loop_correct [OF assms]) auto

text \<open>On elements in any order the loop still ends, with a position or without one.\<close>

lemma loop_returns:
  assumes "0 \<le> l" "u < int n"
  shows "(\<exists>i. loop l u = found i) \<or> (\<exists>k. loop l u = missing k)"
  using assms
proof (induction "nat (u + 1 - l)" arbitrary: l u rule: less_induct)
  case less
  show ?case
  proof (cases "l \<le> u")
    case True
    have step: "(\<exists>i. loop l' u' = found i) \<or> (\<exists>k. loop l' u' = missing k)"
      if "0 \<le> l'" "u' < int n" "u' - l' < u - l" for l' u'
      using less.hyps [of u' l'] that True by auto
    with unfold [OF less.prems] True less.prems show ?thesis
      by (cases "side (nat ((l + u) div 2))") auto
  qed (use unfold [OF less.prems] in auto)
qed

end

definition range_side :: "data_range list \<Rightarrow> rat \<Rightarrow> nat \<Rightarrow> side" where
  "range_side rs key i =
     (if of_int (dr_start (rs ! i)) \<le> key \<and> key \<le> of_int (dr_end (rs ! i)) then Hit
      else if key < of_int (dr_start (rs ! i)) then Before else After)"

definition event_side :: "'v tl_event list \<Rightarrow> rat \<Rightarrow> nat \<Rightarrow> side" where
  "event_side es key i =
     (if key = of_int (ev_at (es ! i)) then Hit else if key < of_int (ev_at (es ! i)) then Before else After)"

interpretation range_bisect: bisection "range_search_loop rs key" "range_side rs key" Inr "\<lambda>_. Inr (- 1)" "length rs" for rs key
proof (unfold_locales, goal_cases)
  case (1 l u)
  show ?case
  proof (cases "l \<le> u")
    case True
    with 1 have "py_index rs ((l + u) div 2) = Inr (rs ! nat ((l + u) div 2))"
      by (intro py_index_nonneg) auto
    with True show ?thesis
      by (subst range_search_loop.simps) (simp add: range_side_def Let_def)
  qed (subst range_search_loop.simps, simp)
qed

interpretation event_bisect: bisection "event_search_loop es key" "event_side es key" Inr Inr "length es" for es key
proof (unfold_locales, goal_cases)
  case (1 l u)
  show ?case
  proof (cases "l \<le> u")
    case True
    with 1 have "py_index es ((l + u) div 2) = Inr (es ! nat ((l + u) div 2))"
      by (intro py_index_nonneg) auto
    with True show ?thesis
      by (subst event_search_loop.simps) (simp add: event_side_def Let_def)
  qed (subst event_search_loop.simps, simp)
qed

text \<open>Ranges in order, not overlapping; events in order.\<close>

definition ranges_ok :: "data_range list \<Rightarrow> bool" where
  "ranges_ok rs \<longleftrightarrow> (\<forall>i<length rs. dr_start (rs ! i) \<le> dr_end (rs ! i)) \<and>
     (\<forall>i j. i < j \<and> j < length rs \<longrightarrow> dr_end (rs ! i) < dr_start (rs ! j))"

definition events_ok :: "'v tl_event list \<Rightarrow> bool" where
  "events_ok es \<longleftrightarrow> (\<forall>i j. i < j \<and> j < length es \<longrightarrow> ev_at (es ! i) < ev_at (es ! j))"

lemma range_ordered:
  assumes "ranges_ok rs"
  shows "ordered_sides (range_side rs key) (length rs)"
proof -
  have "(range_side rs key i = Before \<longrightarrow> range_side rs key j = Before) \<and>
        (range_side rs key j = After \<longrightarrow> range_side rs key i = After)" if "i < j" "j < length rs" for i j
  proof -
    have "of_int (dr_end (rs ! i)) < (of_int (dr_start (rs ! j)) :: rat)"
      "of_int (dr_start (rs ! i)) \<le> (of_int (dr_end (rs ! i)) :: rat)"
      "of_int (dr_start (rs ! j)) \<le> (of_int (dr_end (rs ! j)) :: rat)"
      using assms that by (auto simp: ranges_ok_def)
    then show ?thesis by (auto simp: range_side_def)
  qed
  then show ?thesis by (auto simp: ordered_sides_def)
qed

lemma event_ordered:
  assumes "events_ok es"
  shows "ordered_sides (event_side es key) (length es)"
proof -
  have "(event_side es key i = Before \<longrightarrow> event_side es key j = Before) \<and>
        (event_side es key j = After \<longrightarrow> event_side es key i = After)" if "i < j" "j < length es" for i j
  proof -
    have "of_int (ev_at (es ! i)) < (of_int (ev_at (es ! j)) :: rat)"
      using assms that by (auto simp: events_ok_def)
    then show ?thesis by (auto simp: event_side_def)
  qed
  then show ?thesis by (auto simp: ordered_sides_def)
qed

section \<open>Queries\<close>

lemma filter_slice:
  assumes "a \<le> b" "b \<le> length xs" "\<And>i. i < length xs \<Longrightarrow> P (xs ! i) \<longleftrightarrow> a \<le> i \<and> i < b"
  shows "filter P xs = take (b - a) (drop a xs)"
proof -
  have xs: "xs = take a xs @ take (b - a) (drop a xs) @ drop b xs"
    using assms(1) by (metis append_take_drop_id drop_drop le_add_diff_inverse2)
  have "filter P (take a xs) = []" "filter P (drop b xs) = []"
    using assms by (auto simp: filter_empty_conv in_set_conv_nth)
  moreover have "filter P (take (b - a) (drop a xs)) = take (b - a) (drop a xs)"
    using assms by (auto simp: filter_id_conv in_set_conv_nth)
  ultimately show ?thesis by (subst xs) simp
qed

lemma range_search_cases:
  assumes "ranges_ok rs"
  obtains i where "i < length rs" "range_side rs key i = Hit" "range_search rs key = Inr (int i)"
  | k where "k \<le> length rs" "range_search rs key = Inr (- 1)"
      "\<And>i. i < k \<Longrightarrow> range_side rs key i = After" "\<And>i. i < length rs \<Longrightarrow> k \<le> i \<Longrightarrow> range_side rs key i = Before"
  using range_bisect.search_correct [OF range_ordered [OF assms], of key] that
  unfolding range_search_def by blast

lemma event_search_cases:
  assumes "events_ok es"
  obtains i where "i < length es" "event_side es key i = Hit" "event_search es key = Inr (int i)"
  | k where "k \<le> length es" "event_search es key = Inr (int k)"
      "\<And>i. i < k \<Longrightarrow> event_side es key i = After" "\<And>i. i < length es \<Longrightarrow> k \<le> i \<Longrightarrow> event_side es key i = Before"
  using event_bisect.search_correct [OF event_ordered [OF assms], of key] that
  unfolding event_search_def by blast

lemma searches_return:
  "\<exists>i. range_search rs key = Inr i" "\<exists>i. event_search es key = Inr i"
  using range_bisect.loop_returns [of 0 "int (length rs) - 1" rs key] event_bisect.loop_returns [of 0 "int (length es) - 1" es key]
  by (auto simp: range_search_def event_search_def)

definition covers :: "data_range list \<Rightarrow> rat \<Rightarrow> bool" where
  "covers rs key \<longleftrightarrow> (\<exists>r\<in>set rs. of_int (dr_start r) \<le> key \<and> key \<le> of_int (dr_end r))"

abbreviation starts_by :: "rat \<Rightarrow> data_range \<Rightarrow> bool" where
  "starts_by t r \<equiv> of_int (dr_start r) \<le> t"

abbreviation lasts_to :: "rat \<Rightarrow> data_range \<Rightarrow> bool" where
  "lasts_to t r \<equiv> t \<le> of_int (dr_end r)"

lemma range_hit:
  assumes "ranges_ok rs" "i < length rs" "range_side rs key i = Hit" "j < length rs"
  shows "starts_by key (rs ! j) \<longleftrightarrow> j \<le> i" "lasts_to key (rs ! j) \<longleftrightarrow> i \<le> j"
proof -
  have hit: "starts_by key (rs ! i)" "lasts_to key (rs ! i)"
    using assms(3) by (auto simp: range_side_def split: if_splits)
  have lt: "dr_end (rs ! a) < dr_start (rs ! b)" if "a < b" "b < length rs" for a b
    using assms(1) that by (auto simp: ranges_ok_def)
  have le: "dr_start (rs ! a) \<le> dr_end (rs ! a)" if "a < length rs" for a
    using assms(1) that by (auto simp: ranges_ok_def)
  consider "j < i" | "j = i" | "i < j" by linarith
  then have "(starts_by key (rs ! j) \<longleftrightarrow> j \<le> i) \<and> (lasts_to key (rs ! j) \<longleftrightarrow> i \<le> j)"
  proof cases
    case 1
    from lt [OF 1 assms(2)] le [OF assms(4)] have "of_int (dr_end (rs ! j)) < (of_int (dr_start (rs ! i)) :: rat)"
      "of_int (dr_start (rs ! j)) \<le> (of_int (dr_end (rs ! j)) :: rat)" by auto
    with hit 1 show ?thesis by auto
  next
    case 3
    from lt [OF 3 assms(4)] le [OF assms(4)] have "of_int (dr_end (rs ! i)) < (of_int (dr_start (rs ! j)) :: rat)"
      "of_int (dr_start (rs ! j)) \<le> (of_int (dr_end (rs ! j)) :: rat)" by auto
    with hit 3 show ?thesis by auto
  qed (use hit in auto)
  then show "starts_by key (rs ! j) \<longleftrightarrow> j \<le> i" "lasts_to key (rs ! j) \<longleftrightarrow> i \<le> j" by auto
qed

lemma range_hit_covers: "i < length rs \<Longrightarrow> range_side rs key i = Hit \<Longrightarrow> covers rs key"
  by (auto simp: covers_def range_side_def split: if_splits intro!: bexI [of _ "rs ! i"])

lemma range_miss_covers:
  assumes "\<And>i. i < k \<Longrightarrow> range_side rs key i = After" "\<And>i. i < length rs \<Longrightarrow> k \<le> i \<Longrightarrow> range_side rs key i = Before"
  shows "\<not> covers rs key"
proof
  assume "covers rs key"
  then obtain i where "i < length rs" "range_side rs key i = Hit"
    by (auto simp: covers_def range_side_def in_set_conv_nth)
  with assms [of i] show False by (cases "i < k") auto
qed

text \<open>The selection, for every position of the two ends of the window.\<close>

lemma get_ranges_selects:
  assumes ok: "ranges_ok (rl_ranges l)" and le: "start \<le> end"
  shows "get_ranges l start end = Inr
    (if covers (rl_ranges l) start
     then if covers (rl_ranges l) end
          then filter (\<lambda>r. lasts_to start r \<and> starts_by end r) (rl_ranges l)
          else filter (lasts_to start) (rl_ranges l)
     else if covers (rl_ranges l) end then filter (starts_by end) (rl_ranges l) else [])"
proof -
  let ?rs = "rl_ranges l"
  have sh: "filter (lasts_to start) ?rs = take (length ?rs - i) (drop i ?rs)"
    if "i < length ?rs" "range_side ?rs start i = Hit" for i
    using range_hit(2) [OF ok that] that(1) by (intro filter_slice) auto
  have eh: "filter (starts_by end) ?rs = take (Suc j - 0) (drop 0 ?rs)"
    if "j < length ?rs" "range_side ?rs end j = Hit" for j
    using range_hit(1) [OF ok that] that(1) by (intro filter_slice) auto
  have both: "filter (\<lambda>r. lasts_to start r \<and> starts_by end r) ?rs = take (Suc j - i) (drop i ?rs)"
    if i: "i < length ?rs" "range_side ?rs start i = Hit" and j: "j < length ?rs" "range_side ?rs end j = Hit" for i j
  proof -
    have "starts_by start (?rs ! i)" using i(2) by (auto simp: range_side_def split: if_splits)
    then have "starts_by end (?rs ! i)" using le by linarith
    then have "i \<le> j" using range_hit(1) [OF ok j i(1)] by simp
    then show ?thesis
      using range_hit(2) [OF ok i] range_hit(1) [OF ok j] j(1) by (intro filter_slice) auto
  qed
  show ?thesis
  proof (rule range_search_cases [OF ok, of start])
    fix i assume i: "i < length ?rs" "range_side ?rs start i = Hit" "range_search ?rs start = Inr (int i)"
    show ?thesis
    proof (rule range_search_cases [OF ok, of "end"])
      fix j assume j: "j < length ?rs" "range_side ?rs end j = Hit" "range_search ?rs end = Inr (int j)"
      have "nat (int j + 1) = Suc j" by simp
      with i j both [OF i(1,2) j(1,2)] range_hit_covers [OF i(1,2)] range_hit_covers [OF j(1,2)] show ?thesis
        by (simp add: get_ranges_def py_slice_between)
    next
      fix k assume "range_search ?rs end = Inr (- 1)"
        "\<And>i. i < k \<Longrightarrow> range_side ?rs end i = After" "\<And>i. i < length ?rs \<Longrightarrow> k \<le> i \<Longrightarrow> range_side ?rs end i = Before"
      with i sh [OF i(1,2)] range_hit_covers [OF i(1,2)] range_miss_covers [of k ?rs "end"] show ?thesis
        by (simp add: get_ranges_def py_slice_between)
    qed
  next
    fix m assume m: "range_search ?rs start = Inr (- 1)"
        "\<And>i. i < m \<Longrightarrow> range_side ?rs start i = After" "\<And>i. i < length ?rs \<Longrightarrow> m \<le> i \<Longrightarrow> range_side ?rs start i = Before"
    note ms = range_miss_covers [of m ?rs start, OF m(2,3)]
    show ?thesis
    proof (rule range_search_cases [OF ok, of "end"])
      fix j assume j: "j < length ?rs" "range_side ?rs end j = Hit" "range_search ?rs end = Inr (int j)"
      have "nat (int j + 1) = Suc j" by simp
      with m(1) ms j eh [OF j(1,2)] range_hit_covers [OF j(1,2)] show ?thesis
        by (simp add: get_ranges_def py_slice_between)
    next
      fix k assume "range_search ?rs end = Inr (- 1)"
        "\<And>i. i < k \<Longrightarrow> range_side ?rs end i = After" "\<And>i. i < length ?rs \<Longrightarrow> k \<le> i \<Longrightarrow> range_side ?rs end i = Before"
      with m(1) ms range_miss_covers [of k ?rs "end"] show ?thesis by (simp add: get_ranges_def)
    qed
  qed
qed

text \<open>The bounds delimit what the query returns.\<close>

lemma get_ranges_bounds_slice:
  "get_ranges l start end =
     rbind (get_ranges_bounds l start end) (\<lambda>(lo, hi). Inr (py_slice (rl_ranges l) (Some lo) (Some hi)))"
  by (auto simp: get_ranges_def get_ranges_bounds_def rbind_assoc py_slice_between intro!: arg_cong2 [of _ _ _ _ rbind] ext)

lemma get_events_bounds_slice:
  "get_events l start end =
     rbind (get_events_bounds l start end) (\<lambda>(lo, hi). Inr (py_slice (el_events l) (Some lo) (Some hi)))"
  by (simp add: get_events_def get_events_bounds_def rbind_assoc)

text \<open>The position that the search returns is the number of earlier events.\<close>

lemma event_search_position:
  assumes ok: "events_ok es"
  obtains k where "k \<le> length es" "event_search es key = Inr (int k)"
    "\<And>i. i < length es \<Longrightarrow> of_int (ev_at (es ! i)) < key \<longleftrightarrow> i < k"
    "\<And>i. i < length es \<Longrightarrow> of_int (ev_at (es ! i)) \<le> key \<longleftrightarrow> i < k \<or> i = k \<and> of_int (ev_at (es ! k)) = key"
proof (rule event_search_cases [OF ok, of key])
  fix k assume k: "k < length es" "event_side es key k = Hit" "event_search es key = Inr (int k)"
  then have at: "of_int (ev_at (es ! k)) = key" by (auto simp: event_side_def split: if_splits)
  have mono: "ev_at (es ! i) < ev_at (es ! j)" if "i < j" "j < length es" for i j
    using ok that by (auto simp: events_ok_def)
  have "(of_int (ev_at (es ! i)) < key \<longleftrightarrow> i < k) \<and> (of_int (ev_at (es ! i)) \<le> key \<longleftrightarrow> i < k \<or> i = k)" if "i < length es" for i
    using mono [of i k] mono [of k i] that k(1) at by (cases i k rule: linorder_cases) (auto simp: at [symmetric])
  with that [of k] k at show thesis by auto
next
  fix k assume k: "k \<le> length es" "event_search es key = Inr (int k)"
    and lo: "\<And>i. i < k \<Longrightarrow> event_side es key i = After"
    and hi: "\<And>i. i < length es \<Longrightarrow> k \<le> i \<Longrightarrow> event_side es key i = Before"
  have lo': "of_int (ev_at (es ! i)) < key" if "i < k" for i
    using lo [OF that] by (auto simp: event_side_def split: if_splits)
  have hi': "key < of_int (ev_at (es ! i))" if "i < length es" "k \<le> i" for i
    using hi [OF that] by (auto simp: event_side_def split: if_splits)
  have "(of_int (ev_at (es ! i)) < key \<longleftrightarrow> i < k) \<and> (of_int (ev_at (es ! i)) \<le> key \<longleftrightarrow> i < k \<or> i = k \<and> of_int (ev_at (es ! k)) = key)"
    if "i < length es" for i
    using lo' [of i] hi' [of i] that by (cases "i < k") auto
  with that [of k] k show thesis by auto
qed

lemma get_events_selects:
  assumes ok: "events_ok (el_events l)" and le: "start \<le> end"
  shows "get_events l start end = Inr
    (filter (\<lambda>e. start \<le> of_int (ev_at e) \<and> of_int (ev_at e) \<le> end) (el_events l)
     @ (if \<exists>e\<in>set (el_events l). of_int (ev_at e) = end then []
        else take 1 (filter (\<lambda>e. end < of_int (ev_at e)) (el_events l))))"
proof -
  let ?es = "el_events l"
  obtain s where s: "s \<le> length ?es" "event_search ?es start = Inr (int s)"
      "\<And>i. i < length ?es \<Longrightarrow> of_int (ev_at (?es ! i)) < start \<longleftrightarrow> i < s"
      "\<And>i. i < length ?es \<Longrightarrow> of_int (ev_at (?es ! i)) \<le> start \<longleftrightarrow> i < s \<or> i = s \<and> of_int (ev_at (?es ! s)) = start"
    by (rule event_search_position [OF ok, of start]) (rule that)
  obtain e where e: "e \<le> length ?es" "event_search ?es end = Inr (int e)"
      "\<And>i. i < length ?es \<Longrightarrow> of_int (ev_at (?es ! i)) < end \<longleftrightarrow> i < e"
      "\<And>i. i < length ?es \<Longrightarrow> of_int (ev_at (?es ! i)) \<le> end \<longleftrightarrow> i < e \<or> i = e \<and> of_int (ev_at (?es ! e)) = end"
    by (rule event_search_position [OF ok, of "end"]) (rule that)
  have "s \<le> e"
  proof (rule ccontr)
    assume "\<not> s \<le> e"
    then have "e < length ?es" "e < s" using s(1) by auto
    with s(3) [of e] e(3) [of e] le show False by auto
  qed
  have get: "get_events l start end = Inr (take (Suc e - s) (drop s ?es))"
    using s(2) e(2) by (simp add: get_events_def py_slice_between nat_add_distrib)
  have ge: "start \<le> of_int (ev_at (?es ! i)) \<longleftrightarrow> s \<le> i" if "i < length ?es" for i
    using s(3) [OF that] by auto
  show ?thesis
  proof (cases "\<exists>x\<in>set ?es. of_int (ev_at x) = end")
    case True
    then obtain i where i: "i < length ?es" "of_int (ev_at (?es ! i)) = end" by (auto simp: in_set_conv_nth)
    then have "i = e" using e(3,4) [of i] by auto
    with i have ee: "e < length ?es" "of_int (ev_at (?es ! e)) = end" by auto
    have "filter (\<lambda>x. start \<le> of_int (ev_at x) \<and> of_int (ev_at x) \<le> end) ?es = take (Suc e - s) (drop s ?es)"
      using \<open>s \<le> e\<close> ee ge e(4) by (intro filter_slice) auto
    with get True show ?thesis by simp
  next
    case False
    then have ne: "of_int (ev_at (?es ! e)) \<noteq> end" if "e < length ?es"
      using nth_mem [OF that] by blast
    have le_iff: "of_int (ev_at (?es ! i)) \<le> end \<longleftrightarrow> i < e" if "i < length ?es" for i
      using e(4) [OF that] ne that by auto
    have "filter (\<lambda>x. start \<le> of_int (ev_at x) \<and> of_int (ev_at x) \<le> end) ?es = take (e - s) (drop s ?es)"
      using \<open>s \<le> e\<close> e(1) ge le_iff by (intro filter_slice) auto
    moreover have "filter (\<lambda>x. end < of_int (ev_at x)) ?es = take (length ?es - e) (drop e ?es)"
      using e(1) le_iff by (intro filter_slice) (auto simp: not_le [symmetric])
    moreover have "take (Suc e - s) (drop s ?es) = take (e - s) (drop s ?es) @ take 1 (drop e ?es)"
      using \<open>s \<le> e\<close> by (simp add: Suc_diff_le take_add [of "e - s" 1, simplified])
    ultimately show ?thesis using get False by simp
  qed
qed

section \<open>Sorting\<close>

lemma insert_cmp_filter:
  assumes "\<And>a b. cmp a b < 0 \<longleftrightarrow> f a < (f b :: int)" and "sorted (map f ys)"
  shows "filter (\<lambda>y. f k = f y) (insert_cmp cmp x ys) = filter (\<lambda>y. f k = f y) ys @ (if f k = f x then [x] else [])"
  using assms(2)
proof (induction ys)
  case (Cons y ys)
  have "\<forall>z\<in>set ys. f y \<le> f z" using Cons.prems by auto
  then have "f x < f y \<Longrightarrow> filter (\<lambda>z. f x = f z) ys = []" by (auto simp: filter_empty_conv)
  with Cons assms(1) show ?case by auto
qed simp

lemma insert_cmp_sorted:
  assumes "\<And>a b. cmp a b < 0 \<longleftrightarrow> f a < (f b :: int)" "sorted (map f ys)"
  shows "sorted (map f (insert_cmp cmp x ys))" "mset (insert_cmp cmp x ys) = add_mset x (mset ys)"
proof -
  show m: "mset (insert_cmp cmp x ys) = add_mset x (mset ys)" for ys
    by (induction ys) auto
  have st: "set (insert_cmp cmp x ys) = insert x (set ys)" for ys
    using m [of ys] by (metis set_mset_add_mset_insert set_mset_mset)
  from assms(2) show "sorted (map f (insert_cmp cmp x ys))"
    by (induction ys) (auto simp: assms(1) st)
qed

text \<open>Sorting by a comparison of keys is the library's stable sort by the key.\<close>

lemma py_sort_key:
  assumes cmp: "\<And>a b. cmp a b < 0 \<longleftrightarrow> f a < (f b :: int)"
  shows "py_sort cmp xs = sort_key f xs"
proof -
  have "sorted (map f (py_sort cmp xs)) \<and> mset (py_sort cmp xs) = mset xs
      \<and> (\<forall>k. filter (\<lambda>y. f k = f y) (py_sort cmp xs) = filter (\<lambda>y. f k = f y) xs)"
  proof (induction xs rule: rev_induct)
    case (snoc x xs)
    then show ?case
      using insert_cmp_sorted [of cmp f "py_sort cmp xs" x, OF cmp] insert_cmp_filter [of cmp f "py_sort cmp xs" _ x, OF cmp]
      by (simp add: py_sort_def)
  qed (simp add: py_sort_def)
  then show ?thesis by (intro properties_for_sort_key [symmetric]) auto
qed

lemma sort_ranges_key: "rl_ranges (sort_ranges l) = sort_key dr_start (rl_ranges l)"
  by (simp add: sort_ranges_def py_sort_key [of ranges_cmp dr_start] ranges_cmp_def Let_def)

lemma sort_events_key: "el_events (sort_events l) = sort_key ev_at (el_events l)"
  by (simp add: sort_events_def py_sort_key [of events_cmp ev_at] events_cmp_def Let_def)

section \<open>Objects by name\<close>

text \<open>
  The contract of the getters: objects have a name, a new one has the name asked for.  The
  object found is the first with the name, and changing it changes what is found under
  that name only.
\<close>

locale named_objects =
  fixes name_of :: "'b \<Rightarrow> string"
    and fresh :: "string \<Rightarrow> 'b"
  assumes name_fresh: "name_of (fresh name) = name"
begin

lemma find_or_add_index:
  "find_or_add name_of fresh name xs = (i, xs') \<Longrightarrow> i < length xs' \<and> name_of (xs' ! i) = name"
  by (induction xs arbitrary: i xs') (auto simp: name_fresh split: if_splits prod.splits)

lemma find_or_add_object:
  "find_or_add name_of fresh name xs = (i, xs') \<Longrightarrow>
   xs' ! i = (case List.find (\<lambda>x. name_of x = name) xs of None \<Rightarrow> fresh name | Some x \<Rightarrow> x)"
  by (induction xs arbitrary: i xs') (auto split: if_splits prod.splits)

lemma find_update:
  assumes "find_or_add name_of fresh name xs = (i, xs')" "\<And>x. name_of x = name \<Longrightarrow> name_of (f x) = name"
  shows "List.find (\<lambda>x. name_of x = q) (update_nth i f xs') =
    (if q = name then Some (f (case List.find (\<lambda>x. name_of x = name) xs of None \<Rightarrow> fresh name | Some x \<Rightarrow> x))
     else List.find (\<lambda>x. name_of x = q) xs)"
  using assms
proof (induction xs arbitrary: i xs')
  case Nil
  then show ?case by (auto simp: update_nth_def name_fresh)
next
  case (Cons x xs)
  show ?case
  proof (cases "name_of x = name")
    case True
    with Cons.prems show ?thesis by (auto simp: update_nth_def)
  next
    case False
    obtain j ys where j: "find_or_add name_of fresh name xs = (j, ys)" by fastforce
    with False Cons.prems have "i = Suc j" "xs' = x # ys" by auto
    with Cons.IH [OF j Cons.prems(2)] False show ?thesis by (auto simp: update_nth_def)
  qed
qed

text \<open>Names stay distinct, and asking a second time finds the same object.\<close>

lemma find_or_add_names:
  "find_or_add name_of fresh name xs = (i, xs') \<Longrightarrow>
   map name_of xs' = map name_of xs @ (if name \<in> set (map name_of xs) then [] else [name])"
  by (induction xs arbitrary: i xs') (auto simp: name_fresh split: if_splits prod.splits)

lemma find_or_add_again:
  "find_or_add name_of fresh name xs = (i, xs') \<Longrightarrow> find_or_add name_of fresh name xs' = (i, xs')"
proof (induction xs arbitrary: i xs')
  case (Cons x xs)
  obtain j ys where j: "find_or_add name_of fresh name xs = (j, ys)" by fastforce
  from Cons.prems Cons.IH [OF j] j show ?case by (auto split: if_splits)
qed (auto simp: name_fresh)

end

interpretation range_objects: named_objects rl_name new_range_line
  by unfold_locales (simp add: new_range_line_def)

interpretation event_objects: named_objects el_name new_event_line
  by unfold_locales (simp add: new_event_line_def)

interpretation timeline_objects: named_objects tl_name new_timeline
  by unfold_locales (simp add: new_timeline_def)

text \<open>What a log holds under a pair of names.\<close>

definition ranges_of :: "string \<Rightarrow> string \<Rightarrow> timelines \<Rightarrow> data_range list" where
  "ranges_of t r ts =
     (case List.find (\<lambda>x. tl_name x = t) ts of
        None \<Rightarrow> []
      | Some x \<Rightarrow> (case List.find (\<lambda>y. rl_name y = r) (tl_ranges x) of None \<Rightarrow> [] | Some y \<Rightarrow> rl_ranges y))"

definition strs_of :: "string \<Rightarrow> string \<Rightarrow> timelines \<Rightarrow> string tl_event list" where
  "strs_of t r ts =
     (case List.find (\<lambda>x. tl_name x = t) ts of
        None \<Rightarrow> []
      | Some x \<Rightarrow> (case List.find (\<lambda>y. el_name y = r) (tl_event_str x) of None \<Rightarrow> [] | Some y \<Rightarrow> el_events y))"

definition ints_of :: "string \<Rightarrow> string \<Rightarrow> timelines \<Rightarrow> int tl_event list" where
  "ints_of t r ts =
     (case List.find (\<lambda>x. tl_name x = t) ts of
        None \<Rightarrow> []
      | Some x \<Rightarrow> (case List.find (\<lambda>y. el_name y = r) (tl_event_int x) of None \<Rightarrow> [] | Some y \<Rightarrow> el_events y))"

lemmas of_defs = ranges_of_def strs_of_def ints_of_def

lemma of_Nil: "ranges_of t r [] = []" "strs_of t r [] = []" "ints_of t r [] = []"
  by (simp_all add: of_defs)

lemma add_range_name [simp]: "rl_name (add_range r l) = rl_name l" "rl_ranges (add_range r l) = rl_ranges l @ [r]"
  by (simp_all add: add_range_def)

lemma add_event_name [simp]: "el_name (add_event e l) = el_name l" "el_events (add_event e l) = el_events l @ [e]"
  by (simp_all add: add_event_def)

text \<open>One entry into one timeline.\<close>

lemma find_put_range:
  "tl_name (put_range rname r t) = tl_name t" "tl_event_str (put_range rname r t) = tl_event_str t"
  "tl_event_int (put_range rname r t) = tl_event_int t"
  "List.find (\<lambda>y. rl_name y = q) (tl_ranges (put_range rname r t)) =
     (if q = rname then Some (add_range r (case List.find (\<lambda>y. rl_name y = rname) (tl_ranges t) of
                                            None \<Rightarrow> new_range_line rname | Some y \<Rightarrow> y))
      else List.find (\<lambda>y. rl_name y = q) (tl_ranges t))"
proof -
  obtain j rs where j: "find_or_add rl_name new_range_line rname (tl_ranges t) = (j, rs)" by fastforce
  then have t': "put_range rname r t = t\<lparr>tl_ranges := update_nth j (add_range r) rs\<rparr>"
    by (simp add: put_range_def get_range_def)
  then show "tl_name (put_range rname r t) = tl_name t" "tl_event_str (put_range rname r t) = tl_event_str t"
    "tl_event_int (put_range rname r t) = tl_event_int t" by simp_all
  show "List.find (\<lambda>y. rl_name y = q) (tl_ranges (put_range rname r t)) =
     (if q = rname then Some (add_range r (case List.find (\<lambda>y. rl_name y = rname) (tl_ranges t) of
                                            None \<Rightarrow> new_range_line rname | Some y \<Rightarrow> y))
      else List.find (\<lambda>y. rl_name y = q) (tl_ranges t))"
    using range_objects.find_update [OF j, of "add_range r" q] by (simp add: t')
qed

lemma find_put_str:
  "tl_name (put_str rname r t) = tl_name t" "tl_ranges (put_str rname r t) = tl_ranges t"
  "tl_event_int (put_str rname r t) = tl_event_int t"
  "List.find (\<lambda>y. el_name y = q) (tl_event_str (put_str rname r t)) =
     (if q = rname then Some (add_event r (case List.find (\<lambda>y. el_name y = rname) (tl_event_str t) of
                                            None \<Rightarrow> new_event_line rname | Some y \<Rightarrow> y))
      else List.find (\<lambda>y. el_name y = q) (tl_event_str t))"
proof -
  obtain j rs where j: "find_or_add el_name new_event_line rname (tl_event_str t) = (j, rs)" by fastforce
  then have t': "put_str rname r t = t\<lparr>tl_event_str := update_nth j (add_event r) rs\<rparr>"
    by (simp add: put_str_def get_event_str_def)
  then show "tl_name (put_str rname r t) = tl_name t" "tl_ranges (put_str rname r t) = tl_ranges t"
    "tl_event_int (put_str rname r t) = tl_event_int t" by simp_all
  show "List.find (\<lambda>y. el_name y = q) (tl_event_str (put_str rname r t)) =
     (if q = rname then Some (add_event r (case List.find (\<lambda>y. el_name y = rname) (tl_event_str t) of
                                            None \<Rightarrow> new_event_line rname | Some y \<Rightarrow> y))
      else List.find (\<lambda>y. el_name y = q) (tl_event_str t))"
    using event_objects.find_update [OF j, of "add_event r" q] by (simp add: t')
qed

lemma find_put_int:
  "tl_name (put_int rname r t) = tl_name t" "tl_ranges (put_int rname r t) = tl_ranges t"
  "tl_event_str (put_int rname r t) = tl_event_str t"
  "List.find (\<lambda>y. el_name y = q) (tl_event_int (put_int rname r t)) =
     (if q = rname then Some (add_event r (case List.find (\<lambda>y. el_name y = rname) (tl_event_int t) of
                                            None \<Rightarrow> new_event_line rname | Some y \<Rightarrow> y))
      else List.find (\<lambda>y. el_name y = q) (tl_event_int t))"
proof -
  obtain j rs where j: "find_or_add el_name new_event_line rname (tl_event_int t) = (j, rs)" by fastforce
  then have t': "put_int rname r t = t\<lparr>tl_event_int := update_nth j (add_event r) rs\<rparr>"
    by (simp add: put_int_def get_event_int_def)
  then show "tl_name (put_int rname r t) = tl_name t" "tl_ranges (put_int rname r t) = tl_ranges t"
    "tl_event_str (put_int rname r t) = tl_event_str t" by simp_all
  show "List.find (\<lambda>y. el_name y = q) (tl_event_int (put_int rname r t)) =
     (if q = rname then Some (add_event r (case List.find (\<lambda>y. el_name y = rname) (tl_event_int t) of
                                            None \<Rightarrow> new_event_line rname | Some y \<Rightarrow> y))
      else List.find (\<lambda>y. el_name y = q) (tl_event_int t))"
    using event_objects.find_update [OF j, of "add_event r" q] by (simp add: t')
qed

lemmas find_put = find_put_range find_put_str find_put_int new_timeline_def new_range_line_def new_event_line_def

lemma find_in_timeline:
  assumes "\<And>t. tl_name (f t) = tl_name t"
  shows "List.find (\<lambda>x. tl_name x = q) (in_timeline name f ts) =
    (if q = name then Some (f (case List.find (\<lambda>x. tl_name x = name) ts of None \<Rightarrow> new_timeline name | Some x \<Rightarrow> x))
     else List.find (\<lambda>x. tl_name x = q) ts)"
proof -
  obtain i ts' where i: "find_or_add tl_name new_timeline name ts = (i, ts')" by fastforce
  from timeline_objects.find_update [OF i, of f q] assms show ?thesis
    by (simp add: in_timeline_def get_timeline_def i)
qed

lemma in_timeline_of:
  "ranges_of t r (in_timeline name (put_range rname x) ts) = ranges_of t r ts @ (if t = name \<and> r = rname then [x] else [])"
  "strs_of t r (in_timeline name (put_range rname x) ts) = strs_of t r ts"
  "ints_of t r (in_timeline name (put_range rname x) ts) = ints_of t r ts"
  "ranges_of t r (in_timeline name (put_str rname y) ts) = ranges_of t r ts"
  "strs_of t r (in_timeline name (put_str rname y) ts) = strs_of t r ts @ (if t = name \<and> r = rname then [y] else [])"
  "ints_of t r (in_timeline name (put_str rname y) ts) = ints_of t r ts"
  "ranges_of t r (in_timeline name (put_int rname z) ts) = ranges_of t r ts"
  "strs_of t r (in_timeline name (put_int rname z) ts) = strs_of t r ts"
  "ints_of t r (in_timeline name (put_int rname z) ts) = ints_of t r ts @ (if t = name \<and> r = rname then [z] else [])"
  by (auto simp: of_defs find_in_timeline find_put split: option.split)

text \<open>Sorting acts on every line.\<close>

lemma find_map_name: "(\<And>x. P (f x) = P x) \<Longrightarrow> List.find P (map f xs) = map_option f (List.find P xs)"
  by (induction xs) auto

lemma sort_names [simp]: "rl_name (sort_ranges l) = rl_name l" "el_name (sort_events e) = el_name e" "tl_name (sort_timeline t) = tl_name t"
  by (simp_all add: sort_ranges_def sort_events_def sort_timeline_def)

lemma sort_timelines_of:
  "ranges_of t r (sort_timelines ts) = sort_key dr_start (ranges_of t r ts)"
  "strs_of t r (sort_timelines ts) = sort_key ev_at (strs_of t r ts)"
  "ints_of t r (sort_timelines ts) = sort_key ev_at (ints_of t r ts)"
  by (auto simp: of_defs sort_timelines_def find_map_name sort_timeline_def sort_ranges_key sort_events_key split: option.split)

section \<open>Reading\<close>

lemma parse_digits:
  assumes "list_all is_digit ds" "ds \<noteq> []"
  shows "\<exists>n. parse_nat 10 ds = Some n"
proof -
  have "\<exists>n. parse_acc 10 acc ds = Some n" if "list_all is_digit ds" for acc ds
    using that by (induction ds arbitrary: acc) (auto simp: is_digit_def digit_val_def Let_def)
  with assms show ?thesis by (auto simp: parse_nat_def)
qed

lemma digit_val_hex: "is_hex c \<Longrightarrow> \<exists>d<16. digit_val c = Some d"
  by (auto simp: is_hex_def digit_val_def Let_def)

lemma match_number_int: "match_number s = Some (ds, rest) \<Longrightarrow> \<exists>n. py_int 10 ds = Inr n"
  using parse_digits [of ds] set_takeWhileD [of _ is_digit s]
  by (force simp: match_number_def Let_def py_int_def list_all_iff split: if_splits)

lemma match_hex2_int:
  assumes "match_hex2 s = Some (ds, rest)"
  shows "\<exists>n. py_int 16 ds = Inr n \<and> 0 \<le> n \<and> n \<le> 255"
proof -
  from assms obtain a b where ds: "ds = [a, b]" and "is_hex a" "is_hex b"
    by (cases s; cases "tl s") (auto simp: match_hex2_def split: if_splits)
  from digit_val_hex [OF this(2)] digit_val_hex [OF this(3)] obtain d e where
    "digit_val a = Some d" "d < 16" "digit_val b = Some e" "e < 16" by auto
  then show ?thesis by (auto simp: py_int_def parse_nat_def ds)
qed

lemma match_groups:
  "match_m1 line = Some (g1, g2, g3, g4, g5) \<Longrightarrow> \<exists>a b. py_int 10 g4 = Inr a \<and> py_int 10 g5 = Inr b"
  "match_m2 line = Some (h1, h2, h3, h4) \<Longrightarrow> \<exists>a. py_int 10 h4 = Inr a"
  "match_m3 line = Some (k1, k2, k3, k4) \<Longrightarrow> \<exists>a b. py_int 10 k3 = Inr a \<and> py_int 10 k4 = Inr b"
  "match_m4 line = Some (c1, c2, c3, c4) \<Longrightarrow> \<exists>a b c. py_int 16 c2 = Inr a \<and> py_int 16 c3 = Inr b \<and> py_int 16 c4 = Inr c"
  by (auto simp: match_m1_def match_m2_def match_m3_def match_m4_def bind_eq_Some_conv dest!: match_number_int match_hex2_int)

lemma read_line_total: "\<exists>st'. read_line st line = Inr st'"
proof -
  obtain ts cs where st: "st = (ts, cs)" by (cases st)
  show ?thesis
    using match_groups [of line]
    by (auto simp: read_line_def st split: option.splits prod.splits)
qed

text \<open>Reading a line never raises: the loop is total.\<close>

interpretation reading: total_loop read_line "\<lambda>_. True" "\<lambda>_. True"
  by unfold_locales (use read_line_total in auto)

text \<open>The entries of a line.\<close>

definition int_of :: "string \<Rightarrow> int" where
  "int_of s = (case parse_nat 10 s of None \<Rightarrow> 0 | Some n \<Rightarrow> int n)"

definition line_ranges :: "string \<Rightarrow> string \<Rightarrow> string \<Rightarrow> data_range list" where
  "line_ranges t r line =
     (case match_m1 line of
        Some (g1, g2, g3, g4, g5) \<Rightarrow>
          if t = g1 \<and> r = g2 then [\<lparr>dr_start = int_of g4, dr_end = int_of g5, dr_value = g3\<rparr>] else []
      | None \<Rightarrow> [])"

definition line_strs :: "string \<Rightarrow> string \<Rightarrow> string \<Rightarrow> string tl_event list" where
  "line_strs t r line =
     (case match_m2 line of
        Some (g1, g2, g3, g4) \<Rightarrow> if t = g1 \<and> r = g2 then [\<lparr>ev_at = int_of g4, ev_value = g3\<rparr>] else []
      | None \<Rightarrow> [])"

definition line_ints :: "string \<Rightarrow> string \<Rightarrow> string \<Rightarrow> int tl_event list" where
  "line_ints t r line =
     (case match_m3 line of
        Some (g1, g2, g3, g4) \<Rightarrow> if t = g1 \<and> r = g2 then [\<lparr>ev_at = int_of g4, ev_value = int_of g3\<rparr>] else []
      | None \<Rightarrow> [])"

lemmas line_defs = line_ranges_def line_strs_def line_ints_def

lemma py_int_int_of: "py_int 10 s = Inr n \<Longrightarrow> int_of s = n"
  by (auto simp: py_int_def int_of_def split: option.splits)

lemma match_literal_disjoint:
  assumes "starts_with line a" "starts_with line b"
  shows "take (min (length a) (length b)) a = take (min (length a) (length b)) b"
  using assms by (auto simp: starts_with_def min_def) (metis take_take min.absorb1 min.absorb2 linear)+

lemma matches_disjoint:
  "match_m1 line = Some g \<Longrightarrow> match_m2 line = None \<and> match_m3 line = None"
  "match_m2 line = Some h \<Longrightarrow> match_m3 line = None"
proof -
  have lit: "match_literal a line = None" if "starts_with line b" "take (min (length a) (length b)) a \<noteq> take (min (length a) (length b)) b" for a b
    using match_literal_disjoint [of line a b] that by (auto simp: match_literal_def)
  show "match_m1 line = Some g \<Longrightarrow> match_m2 line = None \<and> match_m3 line = None"
    using lit [of "''range ''" "''event-str ''"] lit [of "''range ''" "''event-int ''"]
    by (auto simp: match_m1_def match_m2_def match_m3_def match_literal_def bind_eq_Some_conv split: if_splits)
  show "match_m2 line = Some h \<Longrightarrow> match_m3 line = None"
    using lit [of "''event-str ''" "''event-int ''"]
    by (auto simp: match_m2_def match_m3_def match_literal_def bind_eq_Some_conv split: if_splits)
qed

text \<open>One line adds its entries.\<close>

lemma read_line_of:
  assumes "read_line (ts, cs) line = Inr (ts', cs')"
  shows "ranges_of t r ts' = ranges_of t r ts @ line_ranges t r line"
    and "strs_of t r ts' = strs_of t r ts @ line_strs t r line"
    and "ints_of t r ts' = ints_of t r ts @ line_ints t r line"
proof -
  consider (m1) g1 g2 g3 g4 g5 where "match_m1 line = Some (g1, g2, g3, g4, g5)"
    | (m2) g1 g2 g3 g4 where "match_m1 line = None" "match_m2 line = Some (g1, g2, g3, g4)"
    | (m3) g1 g2 g3 g4 where "match_m1 line = None" "match_m2 line = None" "match_m3 line = Some (g1, g2, g3, g4)"
    | (m4) "match_m1 line = None" "match_m2 line = None" "match_m3 line = None"
    by (metis not_Some_eq prod_cases5 prod_cases4)
  then have "ranges_of t r ts' = ranges_of t r ts @ line_ranges t r line
      \<and> strs_of t r ts' = strs_of t r ts @ line_strs t r line
      \<and> ints_of t r ts' = ints_of t r ts @ line_ints t r line"
  proof cases
    case m1
    from match_groups(1) [OF this] obtain a b where "py_int 10 g4 = Inr a" "py_int 10 g5 = Inr b" by auto
    with m1 assms matches_disjoint(1) [OF m1] show ?thesis
      by (auto simp: read_line_def line_defs in_timeline_of py_int_int_of)
  next
    case m2
    from match_groups(2) [OF this(2)] obtain a where "py_int 10 g4 = Inr a" by auto
    with m2 assms matches_disjoint(2) [OF m2(2)] show ?thesis
      by (auto simp: read_line_def line_defs in_timeline_of py_int_int_of)
  next
    case m3
    from match_groups(3) [OF this(3)] obtain a b where "py_int 10 g3 = Inr a" "py_int 10 g4 = Inr b" by auto
    with m3 assms show ?thesis
      by (auto simp: read_line_def line_defs in_timeline_of py_int_int_of)
  next
    case m4
    with assms have "ts' = ts" by (auto simp: read_line_def res_simps split: option.splits prod.splits)
    with m4 show ?thesis by (simp add: line_defs)
  qed
  then show "ranges_of t r ts' = ranges_of t r ts @ line_ranges t r line"
    "strs_of t r ts' = strs_of t r ts @ line_strs t r line"
    "ints_of t r ts' = ints_of t r ts @ line_ints t r line" by auto
qed

lemma read_lines_of:
  assumes "foldM read_line (ts, cs) lines = Inr (ts', cs')"
  shows "ranges_of t r ts' = ranges_of t r ts @ concat (map (line_ranges t r) lines)
    \<and> strs_of t r ts' = strs_of t r ts @ concat (map (line_strs t r) lines)
    \<and> ints_of t r ts' = ints_of t r ts @ concat (map (line_ints t r) lines)"
  using assms
proof (induction lines arbitrary: ts cs)
  case (Cons line lines)
  obtain ts1 cs1 where 1: "read_line (ts, cs) line = Inr (ts1, cs1)" "foldM read_line (ts1, cs1) lines = Inr (ts', cs')"
    using Cons.prems by (auto simp: res_simps)
  from Cons.IH [OF 1(2)] read_line_of [OF 1(1), of t r] show ?case by simp
qed simp

lemma read_data_contents:
  "\<exists>cs ts. read_data lines = Inr (cs, ts) \<and>
     (\<forall>t r. ranges_of t r ts = sort_key dr_start (concat (map (line_ranges t r) lines)) \<and>
            strs_of t r ts = sort_key ev_at (concat (map (line_strs t r) lines)) \<and>
            ints_of t r ts = sort_key ev_at (concat (map (line_ints t r) lines)))"
proof -
  let ?init = "([], \<lparr>cs_colors = [], cs_defaults = default_colors\<rparr>) :: log"
  obtain ts cs where st: "foldM read_line ?init lines = Inr (ts, cs)"
    using reading.loop_total [of lines ?init] by (auto simp: list_all_iff)
  then have "read_data lines = Inr (cs, sort_timelines ts)" by (simp add: read_data_def)
  with read_lines_of [OF st] show ?thesis by (simp add: sort_timelines_of of_Nil)
qed

section \<open>Colours\<close>

text \<open>A line with a colour sets each component to \<open>1\<close> for \<^verbatim>\<open>ff\<close> and to \<open>0\<close> otherwise.\<close>

lemma read_color_components:
  assumes "match_m4 line = Some (name, r, g, b)" "read_line (ts, cs) line = Inr (ts', cs')"
    and "match_m1 line = None" "match_m2 line = None" "match_m3 line = None"
  shows "\<exists>c. dict_get (cs_colors cs') name = Some c \<and>
     (\<forall>(x, h) \<in> {(col_r c, r), (col_g c, g), (col_b c, b)}. x = (if py_int 16 h = Inr 255 then 1 else 0))"
proof -
  from assms(1) obtain s1 s2 s3 t1 t2 t3 where h: "match_hex2 s1 = Some (r, t1)" "match_hex2 s2 = Some (g, t2)" "match_hex2 s3 = Some (b, t3)"
    by (auto simp: match_m4_def bind_eq_Some_conv)
  obtain x y z where x: "py_int 16 r = Inr x" "0 \<le> x" "x \<le> 255" and y: "py_int 16 g = Inr y" "0 \<le> y" "y \<le> 255"
      and z: "py_int 16 b = Inr z" "0 \<le> z" "z \<le> 255"
    using match_hex2_int [OF h(1)] match_hex2_int [OF h(2)] match_hex2_int [OF h(3)] by blast
  have div: "k div 255 = (if k = 255 then 1 else 0)" if "0 \<le> k" "k \<le> 255" for k :: int
    using that by auto
  have "cs' = add_color name (mk_color (x div 255) (y div 255) (z div 255)) cs"
    using assms x y z by (auto simp: read_line_def)
  then show ?thesis
    using x y z div by (auto simp: add_color_def mk_color_def)
qed

lemma lookup_color_new:
  "dict_get (cs_colors cs) n = None \<Longrightarrow> cs_defaults cs \<noteq> [] \<Longrightarrow>
   lookup_color n cs = Inr (last (cs_defaults cs), \<lparr>cs_colors = dict_set (cs_colors cs) n (last (cs_defaults cs)), cs_defaults = butlast (cs_defaults cs)\<rparr>)"
  by (simp add: lookup_color_def add_color_def Let_def)

lemma lookup_all_new:
  assumes "distinct ns" "\<forall>n\<in>set ns. dict_get (cs_colors cs) n = None"
  shows "if length ns \<le> length (cs_defaults cs)
         then \<exists>cs'. lookup_all ns cs = Inr (take (length ns) (rev (cs_defaults cs)), cs')
         else lookup_all ns cs = Inl IndexError"
  using assms
proof (induction ns arbitrary: cs)
  case (Cons n ns)
  show ?case
  proof (cases "cs_defaults cs" rule: rev_cases)
    case Nil
    with Cons.prems show ?thesis by (simp add: lookup_color_def)
  next
    case (snoc ds d)
    let ?cs = "\<lparr>cs_colors = dict_set (cs_colors cs) n d, cs_defaults = ds\<rparr>"
    have "lookup_color n cs = Inr (d, ?cs)" using lookup_color_new [of cs n] Cons.prems snoc by simp
    moreover have "\<forall>m\<in>set ns. dict_get (cs_colors ?cs) m = None" using Cons.prems by auto
    from Cons.IH [OF _ this] Cons.prems have "if length ns \<le> length ds
         then \<exists>cs'. lookup_all ns ?cs = Inr (take (length ns) (rev ds), cs')
         else lookup_all ns ?cs = Inl IndexError" by (auto split: if_splits)
    ultimately show ?thesis using snoc by (auto split: if_splits)
  qed
qed simp

lemma lookup_color_stable:
  assumes "lookup_color n cs = Inr (c, cs')"
  shows "lookup_color n cs' = Inr (c, cs')" "m \<noteq> n \<Longrightarrow> dict_get (cs_colors cs') m = dict_get (cs_colors cs) m"
  using assms by (auto simp: lookup_color_def add_color_def Let_def split: option.splits if_splits)

section \<open>Bounds\<close>

lemma widen_fold:
  "fst (foldl widen acc bs) = Min (insert (fst acc) (fst ` set bs))"
  "snd (foldl widen acc bs) = Max (insert (snd acc) (snd ` set bs))"
proof -
  have "fst (foldl widen acc bs) = Min (insert (fst acc) (fst ` set bs)) \<and> snd (foldl widen acc bs) = Max (insert (snd acc) (snd ` set bs))"
  proof (induction bs rule: rev_induct)
    case (snoc b bs)
    have "fst (widen a b) = min (fst b) (fst a)" "snd (widen a b) = max (snd b) (snd a)" for a
      by (cases a; cases b; auto simp: widen_def min_def max_def)+
    with snoc show ?case by (simp add: insert_commute [of "fst acc"] insert_commute [of "snd acc"])
  qed simp
  then show "fst (foldl widen acc bs) = Min (insert (fst acc) (fst ` set bs))"
    "snd (foldl widen acc bs) = Max (insert (snd acc) (snd ` set bs))" by auto
qed

text \<open>
  The bounds of a timeline are the least and the greatest bound of its lines and \<open>0\<close>; a
  point of the data never lies outside of them.
\<close>

definition line_bounds :: "timeline \<Rightarrow> (int \<times> int) list" where
  "line_bounds t = map range_bounds (tl_ranges t) @ map event_bounds (tl_event_str t) @ map event_bounds (tl_event_int t)"

lemma timeline_bounds_fold: "timeline_bounds t = foldl widen (0, 0) (line_bounds t)"
  by (simp add: timeline_bounds_def line_bounds_def Let_def)

lemma timelines_bounds_cover:
  assumes "t \<in> set ts" "b \<in> set (line_bounds t)"
  shows "fst (timelines_bounds ts) \<le> fst b" "snd b \<le> snd (timelines_bounds ts)"
    "fst (timelines_bounds ts) \<le> 0" "0 \<le> snd (timelines_bounds ts)"
proof -
  have 1: "fst (timeline_bounds t) \<le> fst b" "snd b \<le> snd (timeline_bounds t)"
    using assms(2) by (auto simp: timeline_bounds_fold widen_fold intro: Min_le Max_ge)
  have 2: "fst (timelines_bounds ts) \<le> fst (timeline_bounds t)" "snd (timeline_bounds t) \<le> snd (timelines_bounds ts)"
    using assms(1) by (auto simp: timelines_bounds_def widen_fold intro: Min_le Max_ge)
  show "fst (timelines_bounds ts) \<le> fst b" "snd b \<le> snd (timelines_bounds ts)" using 1 2 by auto
  show "fst (timelines_bounds ts) \<le> 0" "0 \<le> snd (timelines_bounds ts)"
    by (auto simp: timelines_bounds_def widen_fold)
qed

lemma event_bounds_sorted:
  assumes "e \<in> set (el_events (sort_events l))"
  shows "fst (event_bounds (sort_events l)) \<le> ev_at e \<and> ev_at e \<le> snd (event_bounds (sort_events l))"
proof -
  let ?es = "el_events (sort_events l)"
  have s: "sorted (map ev_at ?es)" by (simp add: sort_events_key)
  obtain i where i: "i < length ?es" "e = ?es ! i" using assms by (auto simp: in_set_conv_nth)
  then have "0 < length ?es" "i \<le> length ?es - 1" by linarith+
  then have "ev_at (?es ! 0) \<le> ev_at e" "ev_at e \<le> ev_at (?es ! (length ?es - 1))"
    using sorted_nth_mono [OF s, of 0 i] sorted_nth_mono [OF s, of i "length ?es - 1"] i by (auto simp del: One_nat_def)
  with i show ?thesis by (cases ?es) (auto simp: event_bounds_def last_conv_nth)
qed

lemma range_bounds_sorted:
  assumes "r \<in> set (rl_ranges (sort_ranges l))"
  shows "fst (range_bounds (sort_ranges l)) \<le> dr_start r"
    and "ranges_ok (rl_ranges (sort_ranges l)) \<Longrightarrow> dr_end r \<le> snd (range_bounds (sort_ranges l))"
proof -
  let ?rs = "rl_ranges (sort_ranges l)"
  have s: "sorted (map dr_start ?rs)" by (simp add: sort_ranges_key)
  obtain i where i: "i < length ?rs" "r = ?rs ! i" using assms by (auto simp: in_set_conv_nth)
  then have n: "0 < length ?rs" "i \<le> length ?rs - 1" by linarith+
  then have "dr_start (?rs ! 0) \<le> dr_start r"
    using sorted_nth_mono [OF s, of 0 i] i by auto
  with n show "fst (range_bounds (sort_ranges l)) \<le> dr_start r" by (cases ?rs) (auto simp: range_bounds_def)
  assume ok: "ranges_ok ?rs"
  have "dr_end r \<le> dr_end (?rs ! (length ?rs - 1))"
  proof (cases "i = length ?rs - 1")
    case False
    with n have lt: "i < length ?rs - 1" "length ?rs - 1 < length ?rs" by auto
    then have "dr_end (?rs ! i) < dr_start (?rs ! (length ?rs - 1))" "dr_start (?rs ! (length ?rs - 1)) \<le> dr_end (?rs ! (length ?rs - 1))"
      using ok unfolding ranges_ok_def by blast+
    with i show ?thesis by simp
  qed (use i in simp)
  with n show "dr_end r \<le> snd (range_bounds (sort_ranges l))" by (cases ?rs) (auto simp: range_bounds_def last_conv_nth)
qed

section \<open>Claims\<close>

text \<open>
  C9: reading a log never fails, whatever its lines are, and afterwards the ranges and
  events filed under a timeline and a line name are exactly those of the lines of the log
  that carry these names, stably sorted by time; lines that match no pattern are ignored.
\<close>

theorem read_data_complete:
  "\<exists>cs ts. read_data lines = Inr (cs, ts) \<and>
     (\<forall>t r. ranges_of t r ts = sort_key dr_start (concat (map (line_ranges t r) lines)) \<and>
            strs_of t r ts = sort_key ev_at (concat (map (line_strs t r) lines)) \<and>
            ints_of t r ts = sort_key ev_at (concat (map (line_ints t r) lines)))"
  by (rule read_data_contents)

text \<open>
  Which ranges \<^verbatim>\<open>TimelineDataRange.get_ranges\<close> selects on ordered ranges.  When both
  ends of the window lie in ranges, exactly those that overlap the window; when only one
  does, the ranges up to the end or from the start, without a bound on the other side; when
  neither does, none, even if ranges lie inside the window.
\<close>

theorem get_ranges_correct:
  assumes "ranges_ok (rl_ranges l)" and "start \<le> end"
  shows "get_ranges l start end = Inr
    (if covers (rl_ranges l) start
     then if covers (rl_ranges l) end
          then filter (\<lambda>r. start \<le> of_int (dr_end r) \<and> of_int (dr_start r) \<le> end) (rl_ranges l)
          else filter (\<lambda>r. start \<le> of_int (dr_end r)) (rl_ranges l)
     else if covers (rl_ranges l) end then filter (\<lambda>r. of_int (dr_start r) \<le> end) (rl_ranges l) else [])"
  using get_ranges_selects [OF assms] .

theorem get_ranges_correct_witness:
  "get_ranges \<lparr>rl_name = ''r'', rl_ranges = [\<lparr>dr_start = 5, dr_end = 10, dr_value = ''v''\<rparr>]\<rparr> 0 20 = Inr []"
  using get_ranges_correct [of "\<lparr>rl_name = ''r'', rl_ranges = [\<lparr>dr_start = 5, dr_end = 10, dr_value = ''v''\<rparr>]\<rparr>" 0 20]
  by (simp add: ranges_ok_def covers_def)

text \<open>
  Which events \<^verbatim>\<open>TimelineEvent.get_events\<close> selects on ordered events: all those in the
  window, followed, unless an event lies exactly at the end of the window, by the first one
  after it.
\<close>

theorem get_events_correct:
  assumes "events_ok (el_events l)" and "start \<le> end"
  shows "get_events l start end = Inr
    (filter (\<lambda>e. start \<le> of_int (ev_at e) \<and> of_int (ev_at e) \<le> end) (el_events l)
     @ (if \<exists>e\<in>set (el_events l). of_int (ev_at e) = end then []
        else take 1 (filter (\<lambda>e. end < of_int (ev_at e)) (el_events l))))"
  using get_events_selects [OF assms] .

theorem get_events_correct_witness:
  "get_events \<lparr>el_name = ''e'', el_events = [\<lparr>ev_at = 1, ev_value = ''a''\<rparr>, \<lparr>ev_at = 9, ev_value = ''b''\<rparr>]\<rparr> 0 5
   = Inr [\<lparr>ev_at = 1, ev_value = ''a''\<rparr>, \<lparr>ev_at = 9, ev_value = ''b''\<rparr>]"
proof -
  let ?l = "\<lparr>el_name = ''e'', el_events = [\<lparr>ev_at = 1, ev_value = ''a''\<rparr>, \<lparr>ev_at = 9, ev_value = ''b''\<rparr>]\<rparr>"
  have "events_ok (el_events ?l)" by (auto simp: events_ok_def less_Suc_eq)
  from get_events_correct [OF this, of 0 5] show ?thesis by simp
qed

text \<open>
  Looking up new names takes the default colours from the end of the list, one per
  name; with more new names than default colours left, \<^verbatim>\<open>Colors.lookup\<close> raises
  \<^verbatim>\<open>IndexError\<close>.
\<close>

theorem lookup_exhausts_colors:
  assumes "distinct ns" and "\<forall>n\<in>set ns. dict_get (cs_colors cs) n = None"
  shows "if length ns \<le> length (cs_defaults cs)
         then \<exists>cs'. lookup_all ns cs = Inr (take (length ns) (rev (cs_defaults cs)), cs')
         else lookup_all ns cs = Inl IndexError"
  using lookup_all_new [OF assms] .

theorem lookup_exhausts_colors_witness:
  "lookup_all [''a'', ''b'', ''c'', ''d'', ''e'', ''f'', ''g''] \<lparr>cs_colors = [], cs_defaults = default_colors\<rparr> = Inl IndexError"
  using lookup_exhausts_colors [of "[''a'', ''b'', ''c'', ''d'', ''e'', ''f'', ''g'']" "\<lparr>cs_colors = [], cs_defaults = default_colors\<rparr>"]
  by (simp add: default_colors_def)

text \<open>
  The bounds over all timelines of a sorted log include \<open>0\<close>, every event of either kind
  and the start of every range; where ranges do not overlap, also their ends.
\<close>

theorem bounds_cover:
  assumes "t \<in> set (sort_timelines ts)" and "timelines_bounds (sort_timelines ts) = (lo, hi)"
  shows "lo \<le> 0 \<and> 0 \<le> hi
    \<and> (\<forall>l\<in>set (tl_event_str t). \<forall>e\<in>set (el_events l). lo \<le> ev_at e \<and> ev_at e \<le> hi)
    \<and> (\<forall>l\<in>set (tl_event_int t). \<forall>e\<in>set (el_events l). lo \<le> ev_at e \<and> ev_at e \<le> hi)
    \<and> (\<forall>l\<in>set (tl_ranges t). \<forall>r\<in>set (rl_ranges l). lo \<le> dr_start r \<and> (ranges_ok (rl_ranges l) \<longrightarrow> dr_end r \<le> hi))"
proof -
  obtain t0 where t: "t = sort_timeline t0" using assms(1) by (auto simp: sort_timelines_def)
  have cover: "lo \<le> fst b \<and> snd b \<le> hi" if "b \<in> set (line_bounds t)" for b
    using timelines_bounds_cover [OF assms(1) that] assms(2) by simp
  have strs: "lo \<le> ev_at e \<and> ev_at e \<le> hi" if m: "l \<in> set (tl_event_str t)" "e \<in> set (el_events l)" for l e
  proof -
    obtain l0 where "l = sort_events l0" using m(1) by (auto simp: t sort_timeline_def)
    with event_bounds_sorted [of e l0] cover [of "event_bounds l"] m show ?thesis by (auto simp: line_bounds_def)
  qed
  have ints: "lo \<le> ev_at e \<and> ev_at e \<le> hi" if m: "l \<in> set (tl_event_int t)" "e \<in> set (el_events l)" for l e
  proof -
    obtain l0 where "l = sort_events l0" using m(1) by (auto simp: t sort_timeline_def)
    with event_bounds_sorted [of e l0] cover [of "event_bounds l"] m show ?thesis by (auto simp: line_bounds_def)
  qed
  have ranges: "lo \<le> dr_start r \<and> (ranges_ok (rl_ranges l) \<longrightarrow> dr_end r \<le> hi)"
    if m: "l \<in> set (tl_ranges t)" "r \<in> set (rl_ranges l)" for l r
  proof -
    obtain l0 where l: "l = sort_ranges l0" using m(1) by (auto simp: t sort_timeline_def)
    with range_bounds_sorted [of r l0] cover [of "range_bounds l"] m show ?thesis by (auto simp: line_bounds_def)
  qed
  have "lo \<le> 0" "0 \<le> hi"
    using assms(2) widen_fold [of "(0, 0)" "map timeline_bounds (sort_timelines ts)"] by (auto simp: timelines_bounds_def)
  with strs ints ranges show ?thesis by blast
qed

theorem bounds_cover_witness:
  "7 \<le> snd (timelines_bounds (sort_timelines [(new_timeline ''t'')\<lparr>tl_event_int :=
      [\<lparr>el_name = ''e'', el_events = [\<lparr>ev_at = 7, ev_value = 1\<rparr>]\<rparr>]\<rparr>]))"
proof -
  let ?l = "\<lparr>el_name = ''e'', el_events = [\<lparr>ev_at = 7, ev_value = 1 :: int\<rparr>]\<rparr>"
  let ?t = "(new_timeline ''t'')\<lparr>tl_event_int := [?l]\<rparr>"
  have "sort_timeline ?t \<in> set (sort_timelines [?t])" by (simp add: sort_timelines_def)
  from bounds_cover [OF this prod.collapse [symmetric]]
  have "\<forall>l\<in>set (tl_event_int (sort_timeline ?t)). \<forall>e\<in>set (el_events l). ev_at e \<le> snd (timelines_bounds (sort_timelines [?t]))"
    by blast
  moreover have "tl_event_int (sort_timeline ?t) = [sort_events ?l]" by (simp add: sort_timeline_def)
  moreover have "el_events (sort_events ?l) = [\<lparr>ev_at = 7, ev_value = 1\<rparr>]" by (simp add: sort_events_key)
  ultimately show ?thesis by simp
qed

end
