(* ===== verification/Py_Num.thy ===== *)
theory Py_Num
  imports Complex_Main Py_Strings
begin

text \<open>
  Numbers of Python 2: integers and floats, with the mixed arithmetic of the language.  A
  float stands for its value; rounding is not modelled.  \<^verbatim>\<open>/\<close> rounds down on two
  integers and is exact otherwise.
\<close>

datatype pynum = PInt int | PFloat rat

fun pval :: "pynum \<Rightarrow> rat" where
  "pval (PInt i) = of_int i"
| "pval (PFloat r) = r"

instantiation pynum :: "{plus, minus, times, ord}"
begin

fun plus_pynum :: "pynum \<Rightarrow> pynum \<Rightarrow> pynum" where
  "PInt a + PInt b = PInt (a + b)"
| "a + b = PFloat (pval a + pval b)"

fun minus_pynum :: "pynum \<Rightarrow> pynum \<Rightarrow> pynum" where
  "PInt a - PInt b = PInt (a - b)"
| "a - b = PFloat (pval a - pval b)"

fun times_pynum :: "pynum \<Rightarrow> pynum \<Rightarrow> pynum" where
  "PInt a * PInt b = PInt (a * b)"
| "a * b = PFloat (pval a * pval b)"

definition less_pynum :: "pynum \<Rightarrow> pynum \<Rightarrow> bool" where
  "a < b \<longleftrightarrow> pval a < pval b"

definition less_eq_pynum :: "pynum \<Rightarrow> pynum \<Rightarrow> bool" where
  "a \<le> b \<longleftrightarrow> pval a \<le> pval b"

instance ..

end

definition num_eq :: "pynum \<Rightarrow> pynum \<Rightarrow> bool" where
  "num_eq a b \<longleftrightarrow> pval a = pval b"

text \<open>Division by a number that is not zero, and division.\<close>

fun num_quot :: "pynum \<Rightarrow> pynum \<Rightarrow> pynum" where
  "num_quot (PInt a) (PInt b) = PInt (a div b)"
| "num_quot a b = PFloat (pval a / pval b)"

definition num_div :: "pynum \<Rightarrow> pynum \<Rightarrow> pynum res" where
  "num_div a b = (if pval b = 0 then Inl ZeroDivisionError else Inr (num_quot a b))"

fun num_rem :: "pynum \<Rightarrow> pynum \<Rightarrow> pynum" where
  "num_rem (PInt a) (PInt b) = PInt (a mod b)"
| "num_rem a b = PFloat (pval a - pval b * of_int \<lfloor>pval a / pval b\<rfloor>)"

definition num_mod :: "pynum \<Rightarrow> pynum \<Rightarrow> pynum res" where
  "num_mod a b = (if pval b = 0 then Inl ZeroDivisionError else Inr (num_rem a b))"

text \<open>\<^verbatim>\<open>max(a, b)\<close> and \<^verbatim>\<open>min(a, b)\<close> return the first argument when the two are equal.\<close>

definition num_max :: "pynum \<Rightarrow> pynum \<Rightarrow> pynum" where
  "num_max a b = (if a < b then b else a)"

definition num_min :: "pynum \<Rightarrow> pynum \<Rightarrow> pynum" where
  "num_min a b = (if b < a then b else a)"

definition num_abs :: "pynum \<Rightarrow> pynum" where
  "num_abs a = (case a of PInt i \<Rightarrow> PInt \<bar>i\<bar> | PFloat r \<Rightarrow> PFloat \<bar>r\<bar>)"

text \<open>\<^verbatim>\<open>int(a)\<close> cuts the fraction off.\<close>

definition num_int :: "pynum \<Rightarrow> int" where
  "num_int a = (if 0 \<le> pval a then \<lfloor>pval a\<rfloor> else \<lceil>pval a\<rceil>)"

definition num_float :: "pynum \<Rightarrow> pynum" where
  "num_float a = PFloat (pval a)"

named_theorems num_simps "values of the arithmetic operations"

lemma pval_arith [simp, num_simps]:
  "pval (a + b) = pval a + pval b" "pval (a - b) = pval a - pval b" "pval (a * b) = pval a * pval b"
  by (cases a; cases b; simp)+

lemma num_order [num_simps]: "a < b \<longleftrightarrow> pval a < pval b" "a \<le> b \<longleftrightarrow> pval a \<le> pval b"
  by (simp_all add: less_pynum_def less_eq_pynum_def)

lemma pval_max_min [simp, num_simps]:
  "pval (num_max a b) = max (pval a) (pval b)" "pval (num_min a b) = min (pval a) (pval b)"
  by (auto simp: num_max_def num_min_def num_order)

lemma pval_abs [simp, num_simps]: "pval (num_abs a) = \<bar>pval a\<bar>"
  by (cases a) (auto simp: num_abs_def)

lemma pval_float [simp, num_simps]: "pval (num_float a) = pval a"
  by (simp add: num_float_def)

lemma num_quot_float [num_simps]: "pval (num_quot (PFloat x) b) = x / pval b" "pval (num_quot a (PFloat y)) = pval a / y"
  by (cases b; simp) (cases a; simp)

lemma num_quot_int [num_simps]: "pval (num_quot (PInt a) (PInt b)) = of_int (a div b)"
  by simp

lemma num_div_Inr [num_simps]: "num_div a b = Inr c \<longleftrightarrow> pval b \<noteq> 0 \<and> c = num_quot a b"
  by (auto simp: num_div_def)

lemma num_int_PInt [simp]: "num_int (PInt i) = i"
  by (simp add: num_int_def)

lemma num_int_mono: "pval a \<le> pval b \<Longrightarrow> num_int a \<le> num_int b"
proof -
  assume le: "pval a \<le> pval b"
  have "\<lceil>pval a\<rceil> \<le> \<lfloor>pval b\<rfloor>" if "pval a < 0" "0 \<le> pval b"
  proof -
    have "\<lceil>pval a\<rceil> \<le> 0" "0 \<le> \<lfloor>pval b\<rfloor>" using that by (auto simp: ceiling_le_iff)
    then show ?thesis by linarith
  qed
  with le show ?thesis by (auto simp: num_int_def floor_mono ceiling_mono)
qed

lemma num_int_of_int_le: "of_int i \<le> pval a \<Longrightarrow> i \<le> num_int a" "pval a \<le> of_int i \<Longrightarrow> num_int a \<le> i"
  using num_int_mono [of "PInt i" a] num_int_mono [of a "PInt i"] by auto

section \<open>Numbers and their texts\<close>

text \<open>\<^verbatim>\<open>"%.nf" % r\<close>, rounding halves to even.\<close>

definition round_even :: "rat \<Rightarrow> int" where
  "round_even r =
     (let n = \<lfloor>r\<rfloor>; d = r - of_int n
      in if d < 1 / 2 \<or> (d = 1 / 2 \<and> n mod 2 = 0) then n else n + 1)"

definition format_fixed :: "nat \<Rightarrow> rat \<Rightarrow> string" where
  "format_fixed k r =
     (let n = nat (round_even (\<bar>r\<bar> * 10 ^ k)); frac = show_nat (n mod 10 ^ k)
      in (if r < 0 then ''-'' else []) @ show_nat (n div 10 ^ k)
         @ (if k = 0 then [] else ''.'' @ replicate (k - length frac) (CHR ''0'') @ frac))"

text \<open>
  \<^verbatim>\<open>int(s)\<close> and \<^verbatim>\<open>long(s)\<close> on a text: white space around, an optional sign, decimal digits;
  \<^verbatim>\<open>long\<close> also takes one \<^verbatim>\<open>l\<close> or \<^verbatim>\<open>L\<close> after the digits.
\<close>

definition sign_split :: "string \<Rightarrow> bool \<times> string" where
  "sign_split s = (take 1 s = ''-'', if take 1 s = ''-'' \<or> take 1 s = ''+'' then drop 1 s else s)"

definition decimal :: "string \<Rightarrow> int res" where
  "decimal s =
     (let (neg, ds) = sign_split s
      in case parse_nat 10 ds of None \<Rightarrow> Inl ValueError | Some n \<Rightarrow> Inr (if neg then - int n else int n))"

definition int_text :: "string \<Rightarrow> int res" where
  "int_text s = decimal (py_strip s)"

definition long_text :: "string \<Rightarrow> int res" where
  "long_text s =
     (let t = py_strip s
      in decimal (if t \<noteq> [] \<and> last t \<in> {CHR ''l'', CHR ''L''} then butlast t else t))"

text \<open>
  \<^verbatim>\<open>float(s)\<close> on a decimal literal; a float stands for its exact value, so the special
  values \<^verbatim>\<open>inf\<close> and \<^verbatim>\<open>nan\<close> and their texts are outside the model.
\<close>

definition scale10 :: "int \<Rightarrow> rat \<Rightarrow> rat" where
  "scale10 e r = (if 0 \<le> e then r * 10 ^ nat e else r / 10 ^ nat (- e))"

definition exponent :: "string \<Rightarrow> int res" where
  "exponent s =
     (case s of
        [] \<Rightarrow> Inr 0
      | c # rest \<Rightarrow> if c = CHR ''e'' \<or> c = CHR ''E'' then decimal rest else Inl ValueError)"

definition float_text :: "string \<Rightarrow> rat res" where
  "float_text s =
     (let (neg, u) = sign_split (py_strip s);
          whole = takeWhile is_digit u;
          rest = dropWhile is_digit u;
          frac = (if take 1 rest = ''.'' then takeWhile is_digit (drop 1 rest) else []);
          after = (if take 1 rest = ''.'' then dropWhile is_digit (drop 1 rest) else rest)
      in case parse_nat 10 (whole @ frac) of
           None \<Rightarrow> Inl ValueError
         | Some n \<Rightarrow>
             rbind (exponent after) (\<lambda>e. Inr ((if neg then - 1 else 1) * scale10 (e - int (length frac)) (of_nat n))))"

lemma digit_not_special:
  "is_digit c \<Longrightarrow> \<not> is_space c" "is_digit c \<Longrightarrow> c \<notin> {CHR ''l'', CHR ''L'', CHR ''-'', CHR ''+'', CHR ''.''}"
  by (auto simp: is_digit_def is_space_def)

lemma py_strip_id: "s \<noteq> [] \<Longrightarrow> \<not> is_space (hd s) \<Longrightarrow> \<not> is_space (last s) \<Longrightarrow> py_strip s = s"
proof -
  have *: "dropWhile is_space t = t" if "t \<noteq> []" "\<not> is_space (hd t)" for t
    using that by (cases t) auto
  assume "s \<noteq> []" "\<not> is_space (hd s)" "\<not> is_space (last s)"
  then show ?thesis by (simp add: py_strip_def * hd_rev)
qed

lemma show_nat_is_digit: "c \<in> set (show_nat n) \<Longrightarrow> is_digit c"
  using show_nat_digits [of n] by (simp add: list_all_iff)

lemma show_nat_ends: "is_digit (hd (show_nat n))" "is_digit (last (show_nat n))"
  using hd_in_set [OF show_nat_nonempty] last_in_set [OF show_nat_nonempty] by (blast intro: show_nat_is_digit)+

lemma py_strip_show_nat [simp]: "py_strip (show_nat n) = show_nat n"
  by (intro py_strip_id) (auto simp: show_nat_ends digit_not_special)

lemma py_strip_plus [simp]: "py_strip (CHR ''+'' # show_nat n) = CHR ''+'' # show_nat n"
proof (rule py_strip_id)
  show "\<not> is_space (last (CHR ''+'' # show_nat n))" by (simp add: show_nat_ends digit_not_special)
qed (simp_all add: is_space_def)

lemma sign_split_show_nat [simp]: "sign_split (show_nat n) = (False, show_nat n)"
  using show_nat_ends(1) [of n] digit_not_special(2) [of "hd (show_nat n)"]
  by (cases "show_nat n") (auto simp: sign_split_def)

lemma decimal_show_nat [simp]: "decimal (show_nat n) = Inr (int n)"
  by (simp add: decimal_def parse_show_nat)

lemma int_text_show_nat [simp]: "int_text (show_nat n) = Inr (int n)"
  by (simp add: int_text_def)

lemma last_show_nat: "last (show_nat n) \<notin> {CHR ''l'', CHR ''L''}"
  using digit_not_special(2) [OF show_nat_ends(2)] by auto

lemma long_text_show_nat [simp]: "long_text (show_nat n) = Inr (int n)"
  using last_show_nat [of n] by (simp add: long_text_def)

lemma long_text_plus [simp]: "long_text (CHR ''+'' # show_nat n) = Inr (int n)"
  using last_show_nat [of n] by (simp add: long_text_def decimal_def sign_split_def parse_show_nat)

lemma takeWhile_show_nat [simp]: "takeWhile is_digit (show_nat n) = show_nat n" "dropWhile is_digit (show_nat n) = []"
  by (auto simp: takeWhile_eq_all_conv dropWhile_eq_Nil_conv dest: show_nat_is_digit)

lemma float_text_show_nat [simp]: "float_text (show_nat n) = Inr (of_nat n)"
  by (simp add: float_text_def exponent_def parse_show_nat scale10_def)

lemma float_text_plus [simp]: "float_text (CHR ''+'' # show_nat n) = Inr (of_nat n)"
  by (simp add: float_text_def sign_split_def exponent_def parse_show_nat scale10_def)

end
