(* ===== verification/Grid_Render.thy ===== *)
theory Grid_Render
  imports Py_Num Grid_Data
begin

text \<open>
  The renderers of \<^verbatim>\<open>src/source/ns-3-dev/utils/grid.py\<close>: legend, timelines, scales and
  the whole graphic.  Drawing on a cairo context is the list of the commands issued; the
  extents of a text, which cairo computes from the font, are an argument.  What an object
  has only after its layout is in a separate record, and reading it earlier is an
  \<^verbatim>\<open>AttributeError\<close>.
\<close>

section \<open>Drawing\<close>

record extents =
  te_y_bearing :: rat
  te_width :: rat
  te_height :: rat

type_synonym font = "string \<Rightarrow> extents"

definition text_width :: "font \<Rightarrow> string \<Rightarrow> pynum" where
  "text_width font s = PFloat (te_width (font s))"

definition text_height :: "font \<Rightarrow> string \<Rightarrow> pynum" where
  "text_height font s = PFloat (te_height (font s))"

definition text_y_bearing :: "font \<Rightarrow> string \<Rightarrow> pynum" where
  "text_y_bearing font s = PFloat (te_y_bearing (font s))"

definition alphabet :: string where
  "alphabet = ''ABCDEFGHIJKLMNOPQRSTUVWXYZabcedefghijklmnopqrstuvwxyz0123456789''"

datatype draw =
    MoveTo pynum pynum
  | LineTo pynum pynum
  | RelLineTo pynum pynum
  | ClosePath
  | Rectangle pynum pynum pynum pynum
  | SetSourceRgb pynum pynum pynum
  | SetLineWidth pynum
  | SetOperatorSource
  | Stroke
  | StrokePreserve
  | Fill
  | ShowText string
  | Save
  | Restore
  | Translate pynum pynum
  | SetDash int int

abbreviation black :: draw where
  "black \<equiv> SetSourceRgb (PInt 0) (PInt 0) (PInt 0)"

abbreviation grey :: draw where
  "grey \<equiv> SetSourceRgb (PFloat (9 / 10)) (PFloat (9 / 10)) (PFloat (9 / 10))"

definition use_color :: "color \<Rightarrow> draw" where
  "use_color c = SetSourceRgb (PInt (col_r c)) (PInt (col_g c)) (PInt (col_b c))"

section \<open>\<^verbatim>\<open>TopLegendRenderer\<close>\<close>

record legend =
  lg_padding :: pynum
  lg_legends :: "string list"
  lg_colors :: "color list"

definition new_legend :: "string list \<Rightarrow> color list \<Rightarrow> legend" where
  "new_legend legends colors = \<lparr>lg_padding = PInt 10, lg_legends = legends, lg_colors = colors\<rparr>"

definition set_padding :: "pynum \<Rightarrow> legend \<Rightarrow> legend" where
  "set_padding padding l = l\<lparr>lg_padding := padding\<rparr>"

text \<open>
  The loop body that \<^verbatim>\<open>layout\<close> and \<^verbatim>\<open>draw\<close> share, on \<^verbatim>\<open>line_height\<close>,
  \<^verbatim>\<open>total_height\<close> and \<^verbatim>\<open>line_used\<close>; it also gives \<^verbatim>\<open>x\<close>.
\<close>

definition legend_place :: "font \<Rightarrow> pynum \<Rightarrow> pynum \<Rightarrow> pynum \<times> pynum \<times> pynum \<Rightarrow> string \<Rightarrow> (pynum \<times> pynum \<times> pynum) \<times> pynum" where
  "legend_place font padding width st legend =
     (let (line_height, total_height, line_used) = st;
          item_width = padding + padding + text_width font legend + padding;
          item_height = text_height font legend + padding;
          line_height = (if line_height < item_height then item_height else line_height);
          (line_used, total_height) =
            (if width < line_used + item_width then (padding + item_width, total_height + line_height)
             else (line_used + item_width, total_height))
      in ((line_height, total_height, line_used), line_used - item_width))"

definition layout_legend :: "font \<Rightarrow> legend \<Rightarrow> pynum \<Rightarrow> pynum" where
  "layout_legend font l width =
     (let (line_height, total_height, line_used) =
            foldl (\<lambda>st legend. fst (legend_place font (lg_padding l) width st legend))
              (PInt 0, lg_padding l, lg_padding l) (lg_legends l)
      in total_height + line_height)"

fun legend_draw_loop :: "font \<Rightarrow> pynum \<Rightarrow> pynum \<Rightarrow> pynum \<times> pynum \<times> pynum \<Rightarrow> string list \<Rightarrow> color list \<Rightarrow> draw list res" where
  "legend_draw_loop font padding width st [] colors = Inr []"
| "legend_draw_loop font padding width st (legend # legends) [] = Inl IndexError"
| "legend_draw_loop font padding width st (legend # legends) (c # colors) =
     (let (st, x) = legend_place font padding width st legend;
          total_height = fst (snd st)
      in rbind (legend_draw_loop font padding width st legends colors) (\<lambda>rest.
           Inr ([Rectangle x total_height padding padding, black, SetLineWidth (PInt 2), StrokePreserve,
                 use_color c, Fill,
                 MoveTo (x + padding * PInt 2) (total_height + text_height font legend), black, ShowText legend]
                @ rest)))"

definition legend_draw :: "font \<Rightarrow> legend \<Rightarrow> pynum \<Rightarrow> draw list res" where
  "legend_draw font l width =
     legend_draw_loop font (lg_padding l) width (PInt 0, lg_padding l, lg_padding l) (lg_legends l) (lg_colors l)"

section \<open>\<^verbatim>\<open>TimelinesRenderer\<close>\<close>

record data_view =
  dv_padding :: pynum
  dv_timelines :: timelines
  dv_colors :: colors
  dv_range :: "(pynum \<times> pynum) option"

definition new_data_view :: "timelines \<Rightarrow> colors \<Rightarrow> data_view" where
  "new_data_view ts cs = \<lparr>dv_padding = PInt 10, dv_timelines = ts, dv_colors = cs, dv_range = None\<rparr>"

definition set_render_range :: "pynum \<Rightarrow> pynum \<Rightarrow> data_view \<Rightarrow> data_view" where
  "set_render_range start end v = v\<lparr>dv_range := Some (start, end)\<rparr>"

record data_layout =
  dl_left_width :: pynum
  dl_right_width :: pynum
  dl_max_text_height :: pynum
  dl_width :: pynum
  dl_height :: pynum

definition half :: "pynum \<Rightarrow> pynum" where
  "half a = num_quot a (PInt 2)"

definition get_data_x_start :: "data_view \<Rightarrow> data_layout \<Rightarrow> pynum" where
  "get_data_x_start v l =
     half (dv_padding v) + dl_left_width l + dv_padding v + dl_right_width l + half (dv_padding v)"

definition max_width :: "font \<Rightarrow> string list \<Rightarrow> pynum \<Rightarrow> pynum" where
  "max_width font names w = foldl (\<lambda>w name. num_max w (text_width font name)) w names"

definition layout_data :: "font \<Rightarrow> data_view \<Rightarrow> pynum \<Rightarrow> data_layout" where
  "layout_data font v width =
     (let max_text_height = text_height font alphabet;
          ts = dv_timelines v;
          pad = dv_padding v;
          left_width = max_width font (map tl_name ts) (PInt 0);
          right_width = max_width font
            (concat (map (\<lambda>t. map rl_name (tl_ranges t) @ map el_name (tl_event_int t) @ map el_name (tl_event_str t)) ts)) (PInt 0);
          left_n_lines = PInt (int (length ts));
          range_n = PInt (int (sum_list (map (\<lambda>t. length (tl_ranges t)) ts)));
          eventint_n = PInt (int (sum_list (map (\<lambda>t. length (tl_event_int t)) ts)));
          eventstr_n = PInt (int (sum_list (map (\<lambda>t. length (tl_event_str t)) ts)));
          left_height = left_n_lines * max_text_height + (left_n_lines - PInt 1) * pad;
          right_n_lines = range_n + eventint_n + eventstr_n;
          right_height = (right_n_lines - PInt 1) * pad + right_n_lines * max_text_height;
          right_data_height = (eventint_n + eventstr_n) * (max_text_height + PInt 5) + range_n * PInt 10;
          right_data_height = right_data_height + (right_n_lines - PInt 1) * pad;
          height = num_max left_height right_height;
          height = num_max height right_data_height
      in \<lparr>dl_left_width = left_width, dl_right_width = right_width, dl_max_text_height = max_text_height,
          dl_width = width, dl_height = height + pad\<rparr>)"

definition draw_line :: "pynum \<Rightarrow> pynum \<Rightarrow> pynum \<Rightarrow> pynum \<Rightarrow> draw list" where
  "draw_line x y width height =
     [MoveTo x y, RelLineTo width height, ClosePath, SetOperatorSource, SetLineWidth (PFloat 1), black, Stroke]"

definition grey_background :: "data_view \<Rightarrow> int \<Rightarrow> pynum \<Rightarrow> pynum \<Rightarrow> pynum \<Rightarrow> pynum \<Rightarrow> draw list" where
  "grey_background v n x y width height =
     (if n mod 2 = 0
      then [Rectangle x (y - half (dv_padding v)) width (height + dv_padding v), grey, Fill] else [])"

text \<open>The pixel of a time in the window \<open>start\<close> to \<open>end\<close>.\<close>

definition to_pixel :: "pynum \<Rightarrow> pynum \<Rightarrow> pynum \<Rightarrow> pynum \<Rightarrow> pynum \<Rightarrow> int res" where
  "to_pixel start end x width t =
     rbind (num_div ((t - start) * width) (end - start)) (\<lambda>q. Inr (num_int (x + q)))"

fun draw_events_loop :: "(pynum \<Rightarrow> int res) \<Rightarrow> ('v \<Rightarrow> string) \<Rightarrow> pynum \<Rightarrow> pynum \<Rightarrow> int \<Rightarrow> 'v tl_event list \<Rightarrow> draw list res" where
  "draw_events_loop pixel to_str y text_h last_x_drawn [] = Inr []"
| "draw_events_loop pixel to_str y text_h last_x_drawn (e # es) =
     rbind (pixel (PInt (ev_at e))) (\<lambda>real_x.
       if last_x_drawn + 2 < real_x
       then rbind (draw_events_loop pixel to_str y text_h real_x es) (\<lambda>rest.
              Inr ([Rectangle (PInt real_x) y (PInt 1) (PInt 1), SetSourceRgb (PInt 1) (PInt 0) (PInt 0), Stroke,
                    MoveTo (PInt real_x) (y + text_h), black, ShowText (to_str (ev_value e))] @ rest))
       else draw_events_loop pixel to_str y text_h last_x_drawn es)"

definition draw_events :: "data_view \<Rightarrow> data_layout \<Rightarrow> ('v \<Rightarrow> string) \<Rightarrow> int \<Rightarrow> 'v event_line \<Rightarrow> pynum \<Rightarrow> pynum \<Rightarrow> pynum \<Rightarrow> pynum \<Rightarrow> draw list res" where
  "draw_events v l to_str n events x y width height =
     (case dv_range v of
        None \<Rightarrow> Inl AttributeError
      | Some (start, end) \<Rightarrow>
          rbind (get_events_bounds events (pval start) (pval end)) (\<lambda>(lo, hi).
          rbind (draw_events_loop (to_pixel start end x width) to_str y (dl_max_text_height l) (num_int x)
                   (py_slice (el_events events) (Some lo) (Some hi))) (\<lambda>ds.
            Inr (grey_background v n x y width height @ ds))))"

fun draw_ranges_loop :: "(pynum \<Rightarrow> int res) \<Rightarrow> pynum \<Rightarrow> pynum \<Rightarrow> pynum \<Rightarrow> int \<Rightarrow> data_range list \<Rightarrow> colors \<Rightarrow> (draw list \<times> colors) res" where
  "draw_ranges_loop pixel start end y last_x_drawn [] cs = Inr ([], cs)"
| "draw_ranges_loop pixel start end y last_x_drawn (r # rs) cs =
     (let s = num_max (PInt (dr_start r)) start;
          e = num_min (PInt (dr_end r)) end
      in rbind (pixel s) (\<lambda>x_start.
         rbind (pixel e) (\<lambda>x_end.
           if last_x_drawn < x_end
           then rbind (lookup_color (dr_value r) cs) (\<lambda>(c, cs).
                rbind (draw_ranges_loop pixel start end y x_end rs cs) (\<lambda>(rest, cs).
                  Inr ([Rectangle (PInt x_start) y (PInt (x_end - x_start)) (PInt 10), black, StrokePreserve,
                        use_color c, Fill] @ rest, cs)))
           else draw_ranges_loop pixel start end y last_x_drawn rs cs)))"

definition draw_ranges :: "data_view \<Rightarrow> colors \<Rightarrow> int \<Rightarrow> range_line \<Rightarrow> pynum \<Rightarrow> pynum \<Rightarrow> pynum \<Rightarrow> pynum \<Rightarrow> (draw list \<times> colors) res" where
  "draw_ranges v cs n ranges x y width height =
     (case dv_range v of
        None \<Rightarrow> Inl AttributeError
      | Some (start, end) \<Rightarrow>
          rbind (get_ranges_bounds ranges (pval start) (pval end)) (\<lambda>(lo, hi).
          rbind (draw_ranges_loop (to_pixel start end x width) start end y (num_int (x - PInt 1))
                   (py_slice (rl_ranges ranges) (Some lo) (Some hi)) cs) (\<lambda>(ds, cs).
            Inr (grey_background v n x y width height @ ds, cs))))"

text \<open>
  \<^verbatim>\<open>draw\<close>.  The state of the loops: the commands so far, \<^verbatim>\<open>cur_y\<close>, the number of rows
  for the grey background, and the colour table.
\<close>

record draw_state =
  ds_out :: "draw list"
  ds_y :: pynum
  ds_n :: int
  ds_colors :: colors

definition row_label :: "font \<Rightarrow> data_layout \<Rightarrow> pynum \<Rightarrow> pynum \<Rightarrow> string \<Rightarrow> draw list" where
  "row_label font l x y name =
     [MoveTo x (y + dl_max_text_height l - (text_height font name + text_y_bearing font name)), ShowText name]"

record columns =
  co_left :: pynum
  co_right :: pynum
  co_data :: pynum
  co_data_width :: pynum

definition data_columns :: "data_view \<Rightarrow> data_layout \<Rightarrow> columns" where
  "data_columns v l =
     (let left_x_start = half (dv_padding v);
          left_x_end = left_x_start + dl_left_width l;
          right_x_start = left_x_end + dv_padding v;
          right_x_end = right_x_start + dl_right_width l;
          data_x_start = right_x_end + half (dv_padding v)
      in \<lparr>co_left = left_x_start, co_right = right_x_start, co_data = data_x_start,
          co_data_width = dl_width l - data_x_start\<rparr>)"

definition row_end :: "data_view \<Rightarrow> data_layout \<Rightarrow> draw list \<Rightarrow> pynum \<Rightarrow> draw_state \<Rightarrow> draw_state" where
  "row_end v l ds step st =
     (let y = ds_y st + step
      in st\<lparr>ds_out := ds_out st @ ds
                @ draw_line (co_right (data_columns v l) - half (dv_padding v)) (y - half (dv_padding v))
                    (dl_right_width l + dv_padding v) (PInt 0),
            ds_y := y, ds_n := ds_n st + 1\<rparr>)"

definition event_row :: "font \<Rightarrow> data_view \<Rightarrow> data_layout \<Rightarrow> ('v \<Rightarrow> string) \<Rightarrow> draw_state \<Rightarrow> 'v event_line \<Rightarrow> draw_state res" where
  "event_row font v l to_str st events =
     (let co = data_columns v l; h = dl_max_text_height l + PInt 5
      in rbind (draw_events v l to_str (ds_n st) events (co_data co) (ds_y st) (co_data_width co) h) (\<lambda>ds.
           Inr (row_end v l (row_label font l (co_right co) (ds_y st) (el_name events) @ ds) (h + dv_padding v) st)))"

definition range_row :: "font \<Rightarrow> data_view \<Rightarrow> data_layout \<Rightarrow> draw_state \<Rightarrow> range_line \<Rightarrow> draw_state res" where
  "range_row font v l st ranges =
     (let co = data_columns v l
      in rbind (draw_ranges v (ds_colors st) (ds_n st) ranges (co_data co) (ds_y st) (co_data_width co) (PInt 10)) (\<lambda>(ds, cs).
           Inr ((row_end v l (row_label font l (co_right co) (ds_y st) (rl_name ranges) @ ds)
                  (dl_max_text_height l + dv_padding v) st)\<lparr>ds_colors := cs\<rparr>)))"

definition timeline_row :: "font \<Rightarrow> data_view \<Rightarrow> data_layout \<Rightarrow> draw_state \<Rightarrow> timeline \<Rightarrow> draw_state res" where
  "timeline_row font v l st t =
     (let st = st\<lparr>ds_out := ds_out st @ row_label font l (co_left (data_columns v l)) (ds_y st) (tl_name t)\<rparr>
      in rbind (foldM (event_row font v l show_int) st (tl_event_int t)) (\<lambda>st.
         rbind (foldM (event_row font v l (\<lambda>s. s)) st (tl_event_str t)) (\<lambda>st.
         rbind (foldM (range_row font v l) st (tl_ranges t)) (\<lambda>st.
           Inr (st\<lparr>ds_out := ds_out st @ draw_line (PInt 0) (ds_y st - half (dv_padding v)) (dl_width l) (PInt 0)\<rparr>)))))"

definition data_draw :: "font \<Rightarrow> data_view \<Rightarrow> data_layout \<Rightarrow> (draw list \<times> colors) res" where
  "data_draw font v l =
     rbind (foldM (timeline_row font v l)
              \<lparr>ds_out = draw_line (PInt 0) (PInt 0) (dl_width l) (PInt 0), ds_y = half (dv_padding v), ds_n = 1,
               ds_colors = dv_colors v\<rparr> (dv_timelines v)) (\<lambda>st.
       let bot_y = ds_y st - half (dv_padding v);
           left_x_end = half (dv_padding v) + dl_left_width l;
           right_x_end = left_x_end + dv_padding v + dl_right_width l
       in Inr (ds_out st @ draw_line (left_x_end + half (dv_padding v)) (PInt 0) (PInt 0) bot_y
                         @ draw_line (right_x_end + half (dv_padding v)) (PInt 0) (PInt 0) bot_y, ds_colors st))"

section \<open>\<^verbatim>\<open>ScaleRenderer\<close>\<close>

record scale =
  sc_top :: bool
  sc_bounds :: "(pynum \<times> pynum) option"

definition set_bounds :: "pynum \<Rightarrow> pynum \<Rightarrow> scale \<Rightarrow> scale" where
  "set_bounds lo hi s = s\<lparr>sc_bounds := Some (lo, hi)\<rparr>"

record scale_layout =
  sl_delta :: pynum
  sl_width :: pynum
  sl_height :: pynum

text \<open>The loop \<^verbatim>\<open>while (closest*10) < data_delta\<close>; it starts at \<open>1\<close>.\<close>

function closest_loop :: "int \<Rightarrow> rat \<Rightarrow> int" where
  "closest_loop closest data_delta =
     (if 0 < closest \<and> of_int (closest * 10) < data_delta then closest_loop (closest * 10) data_delta else closest)"
  by pat_completeness auto
termination
proof (relation "measure (\<lambda>(closest, data_delta). nat (\<lceil>data_delta\<rceil> - closest))", simp)
  fix closest :: int and data_delta :: rat
  assume *: "0 < closest \<and> of_int (closest * 10) < data_delta"
  then have "closest * 10 < \<lceil>data_delta\<rceil>" by (simp add: less_ceiling_iff)
  with * show "((closest * 10, data_delta), closest, data_delta) \<in> measure (\<lambda>(closest, data_delta). nat (\<lceil>data_delta\<rceil> - closest))"
    by simp
qed

declare closest_loop.simps [simp del]

definition scale_delta :: "pynum \<Rightarrow> pynum" where
  "scale_delta data_delta =
     (let closest = PInt (closest_loop 1 (pval data_delta)) in
      if num_eq (num_quot data_delta closest) (PInt 0) then closest
      else if num_eq (num_quot data_delta closest) (PInt 1) then num_quot closest (PInt 10)
      else closest)"

definition scale_start_end :: "pynum \<Rightarrow> pynum \<Rightarrow> pynum \<Rightarrow> (pynum \<times> pynum) res" where
  "scale_start_end lo hi delta =
     rbind (num_mod lo delta) (\<lambda>a. rbind (num_mod hi delta) (\<lambda>b. Inr (lo - a + delta, hi - b)))"

definition layout_scale :: "font \<Rightarrow> scale \<Rightarrow> pynum \<Rightarrow> scale_layout res" where
  "layout_scale font s width =
     (case sc_bounds s of
        None \<Rightarrow> Inl AttributeError
      | Some (lo, hi) \<Rightarrow>
          let delta = scale_delta (hi - lo)
          in rbind (scale_start_end lo hi delta) (\<lambda>_.
               Inr \<lparr>sl_delta = delta, sl_width = width, sl_height = text_height font alphabet + PInt 10\<rparr>))"

definition get_position :: "scale \<Rightarrow> scale_layout \<Rightarrow> pynum \<Rightarrow> pynum res" where
  "get_position s l x =
     (case sc_bounds s of
        None \<Rightarrow> Inl AttributeError
      | Some (lo, hi) \<Rightarrow> num_div ((x - lo) * sl_width l) (hi - lo))"

text \<open>\<^verbatim>\<open>range(start, stop, step)\<close>.\<close>

definition py_range :: "int \<Rightarrow> int \<Rightarrow> int \<Rightarrow> int list res" where
  "py_range start stop step =
     (if step = 0 then Inl ValueError
      else if 0 < step then Inr (map (\<lambda>k. start + int k * step) [0..<nat ((stop - start + step - 1) div step)])
      else Inr (map (\<lambda>k. start + int k * step) [0..<nat ((start - stop - step - 1) div (- step))]))"

definition tick :: "font \<Rightarrow> scale \<Rightarrow> scale_layout \<Rightarrow> int \<Rightarrow> draw list res" where
  "tick font s l x =
     rbind (get_position s l (PInt x)) (\<lambda>real_x.
       let sign = (if sc_top s then PInt (- 1) else PInt 1);
           label = show_int x;
           text_delta = (if sc_top s then text_height font label + text_y_bearing font label
                         else PInt 0 - text_y_bearing font label)
       in Inr [MoveTo real_x (PInt 0), LineTo real_x (PInt 5 * sign), ClosePath, Stroke,
               MoveTo (real_x - half (text_width font label)) ((PInt 5 + PInt 5 + text_delta) * sign), ShowText label])"

definition minor_tick :: "scale \<Rightarrow> scale_layout \<Rightarrow> int \<Rightarrow> draw list res" where
  "minor_tick s l x =
     rbind (get_position s l (PInt x)) (\<lambda>real_x.
       Inr [MoveTo real_x (PInt 0), LineTo real_x (PInt 3 * (if sc_top s then PInt (- 1) else PInt 1)), ClosePath, Stroke])"

definition ticks :: "pynum \<Rightarrow> pynum \<Rightarrow> pynum \<Rightarrow> int list res" where
  "ticks lo hi delta =
     rbind (scale_start_end lo hi delta) (\<lambda>(start, end).
       py_range (num_int start) (num_int (end + delta)) (num_int delta))"

definition scale_draw :: "font \<Rightarrow> scale \<Rightarrow> scale_layout \<Rightarrow> draw list res" where
  "scale_draw font s l =
     (case sc_bounds s of
        None \<Rightarrow> Inl AttributeError
      | Some (lo, hi) \<Rightarrow>
          rbind (ticks lo hi (sl_delta l)) (\<lambda>xs.
          rbind (mapM (tick font s l) xs) (\<lambda>major.
            let delta = num_quot (sl_delta l) (PInt 10)
            in rbind (if PInt 0 < delta
                      then rbind (ticks lo hi delta) (mapM (minor_tick s l))
                      else Inr []) (\<lambda>minor.
                 Inr ([black, SetLineWidth (PFloat 1)] @ concat major @ concat minor)))))"

section \<open>\<^verbatim>\<open>GraphicRenderer\<close>\<close>

record layouts =
  ly_legend_height :: pynum
  ly_data :: data_layout
  ly_mid :: scale_layout
  ly_bot :: scale_layout

record graphic =
  g_start :: pynum
  g_end :: pynum
  g_mid :: scale
  g_bot :: scale
  g_width :: pynum
  g_height :: pynum
  g_data :: data_view
  g_legend :: legend
  g_range :: "(pynum \<times> pynum) option"
  g_layout :: "layouts option"

text \<open>\<^verbatim>\<open>__init__\<close>, \<^verbatim>\<open>set_data\<close> and \<^verbatim>\<open>set_top_legend\<close>.\<close>

definition new_graphic :: "pynum \<Rightarrow> pynum \<Rightarrow> data_view \<Rightarrow> legend \<Rightarrow> graphic" where
  "new_graphic start end data legend =
     \<lparr>g_start = num_float start, g_end = num_float end,
      g_mid = \<lparr>sc_top = True, sc_bounds = None\<rparr>,
      g_bot = set_bounds start end \<lparr>sc_top = False, sc_bounds = None\<rparr>,
      g_width = PInt 1, g_height = PInt 1, g_data = data, g_legend = legend, g_range = None, g_layout = None\<rparr>"

definition layout :: "font \<Rightarrow> pynum \<Rightarrow> pynum \<Rightarrow> graphic \<Rightarrow> graphic res" where
  "layout font width height g =
     (let legend_height = layout_legend font (g_legend g) width;
          data = layout_data font (g_data g) width
      in rbind (layout_scale font (g_mid g) (width - get_data_x_start (g_data g) data)) (\<lambda>mid.
         rbind (layout_scale font (g_bot g) width) (\<lambda>bot.
           Inr (g\<lparr>g_width := width, g_height := height,
                  g_layout := Some \<lparr>ly_legend_height = legend_height, ly_data = data, ly_mid = mid, ly_bot = bot\<rparr>\<rparr>))))"

definition set_range :: "font \<Rightarrow> pynum \<Rightarrow> pynum \<Rightarrow> graphic \<Rightarrow> graphic res" where
  "set_range font start end g =
     (let s = num_min start end;
          e = num_max start end;
          start = num_max (g_start g) s;
          end = num_min (g_end g) e
      in layout font (g_width g) (g_height g)
           (g\<lparr>g_range := Some (start, end), g_data := set_render_range start end (g_data g),
              g_mid := set_bounds start end (g_mid g)\<rparr>))"

definition get_attr :: "'a option \<Rightarrow> 'a res" where
  "get_attr a = (case a of None \<Rightarrow> Inl AttributeError | Some x \<Rightarrow> Inr x)"

definition get_data_rectangle :: "graphic \<Rightarrow> (pynum \<times> pynum \<times> pynum \<times> pynum) res" where
  "get_data_rectangle g =
     rbind (get_attr (g_layout g)) (\<lambda>l.
       let x_start = get_data_x_start (g_data g) (ly_data l)
       in Inr (x_start, ly_legend_height l, g_width g - x_start, dl_height (ly_data l)))"

definition scale_data :: "pynum \<Rightarrow> graphic \<Rightarrow> pynum res" where
  "scale_data x g =
     rbind (get_attr (g_layout g)) (\<lambda>l.
     rbind (num_div x (g_width g - get_data_x_start (g_data g) (ly_data l))) (\<lambda>q.
     rbind (get_attr (g_range g)) (\<lambda>(r_start, r_end). Inr (q * (r_end - r_start)))))"

definition get_selection_rectangle :: "graphic \<Rightarrow> (pynum \<times> pynum \<times> pynum \<times> pynum) res" where
  "get_selection_rectangle g =
     rbind (get_attr (g_layout g)) (\<lambda>l.
     rbind (get_attr (g_range g)) (\<lambda>(r_start, r_end).
       let y_start = ly_legend_height l + dl_height (ly_data l) + sl_height (ly_mid l) + PInt 20;
           y_height = sl_height (ly_bot l) + PInt 20
       in rbind (get_position (g_bot g) (ly_bot l) r_start) (\<lambda>x_start.
          rbind (get_position (g_bot g) (ly_bot l) r_end) (\<lambda>x_end.
            Inr (x_start, y_start, x_end - x_start, y_height)))))"

definition scale_selection :: "pynum \<Rightarrow> graphic \<Rightarrow> pynum res" where
  "scale_selection x g = rbind (num_div x (g_width g)) (\<lambda>q. Inr (q * (g_end g - g_start g)))"

definition x_pixel :: "pynum \<Rightarrow> pynum \<Rightarrow> graphic \<Rightarrow> pynum res" where
  "x_pixel x width g = num_div ((x - g_start g) * width) (g_end g - g_start g)"

text \<open>
  \<^verbatim>\<open>draw\<close>: the legend, the data, the two scales and the frames around them.  The table of
  colours may have grown.
\<close>

definition selection_frames :: "graphic \<Rightarrow> layouts \<Rightarrow> pynum \<Rightarrow> pynum \<Rightarrow> pynum \<Rightarrow> draw list" where
  "selection_frames g l height_used select_start select_end =
     (let x0 = PInt 0; w = g_width g; y0 = height_used; y1 = height_used + PInt 20;
          data_x = get_data_x_start (g_data g) (ly_data l);
          h = sl_height (ly_bot l) + PInt 20
      in [MoveTo x0 y0, LineTo data_x y0, LineTo select_start y1, LineTo x0 y1, LineTo x0 y0,
          black, SetLineWidth (PInt 1), StrokePreserve, grey, Fill,
          MoveTo w y0, LineTo w y1, LineTo select_end y1, LineTo w y0,
          black, SetLineWidth (PInt 1), StrokePreserve, grey, Fill,
          Rectangle x0 y1 select_start h, Rectangle select_end y1 (w - select_end) h, grey, Fill,
          MoveTo select_end y1, LineTo w y1, LineTo w (y1 + h), LineTo x0 (y1 + h), LineTo x0 y1,
          LineTo select_start y1, ClosePath, SetLineWidth (PInt 2), black, Stroke,
          MoveTo select_start y1, LineTo select_end y1, ClosePath, SetLineWidth (PInt 1), grey, Stroke,
          Save, MoveTo (num_max select_start (PInt 2)) y1, RelLineTo x0 h,
          MoveTo (num_min select_end (w - PInt 2)) y1, RelLineTo x0 h, SetDash 5 0, black, SetLineWidth (PInt 1),
          Stroke, Restore])"

definition graphic_draw :: "font \<Rightarrow> graphic \<Rightarrow> (draw list \<times> graphic) res" where
  "graphic_draw font g =
     rbind (get_attr (g_layout g)) (\<lambda>l.
     rbind (legend_draw font (g_legend g) (g_width g)) (\<lambda>legend.
     rbind (data_draw font (g_data g) (ly_data l)) (\<lambda>(data, cs).
     rbind (scale_draw font (g_mid g) (ly_mid l)) (\<lambda>mid.
     rbind (get_attr (g_range g)) (\<lambda>(r_start, r_end).
     rbind (get_position (g_bot g) (ly_bot l) r_start) (\<lambda>select_start.
     rbind (get_position (g_bot g) (ly_bot l) r_end) (\<lambda>select_end.
     rbind (scale_draw font (g_bot g) (ly_bot l)) (\<lambda>bot.
       let top = ly_legend_height l;
           data_x = get_data_x_start (g_data g) (ly_data l);
           height_used = top + dl_height (ly_data l) + sl_height (ly_mid l)
       in Inr ([Save, SetSourceRgb (PInt 1) (PInt 1) (PInt 1), SetOperatorSource,
                Rectangle (PInt 0) (PInt 0) (g_width g) (g_height g), Fill]
               @ [Save] @ legend @ [Restore]
               @ [MoveTo (PInt 0) top, LineTo (g_width g) top, ClosePath, SetLineWidth (PInt 2), black, Stroke]
               @ [Save, Translate (PInt 0) top] @ data @ [Restore]
               @ [Save, Translate data_x height_used] @ mid @ [Restore]
               @ [MoveTo data_x height_used, RelLineTo (PInt 0) (PInt 0 - sl_height (ly_mid l)), ClosePath,
                  black, SetLineWidth (PInt 2), Stroke]
               @ [MoveTo (PInt 0) height_used, LineTo (g_width g) height_used, ClosePath, SetLineWidth (PInt 2), black, Stroke]
               @ selection_frames g l height_used select_start select_end
               @ [Save, Translate (PInt 0) (height_used + PInt 20)] @ bot @ [Restore],
               g\<lparr>g_data := (g_data g)\<lparr>dv_colors := cs\<rparr>\<rparr>)))))))))"

section \<open>The main program\<close>

text \<open>\<^verbatim>\<open>main\<close> up to the opening of the window.\<close>

definition main_graphic :: "font \<Rightarrow> (string list \<Rightarrow> string list) \<Rightarrow> string list \<Rightarrow> graphic res" where
  "main_graphic font ko lines =
     rbind (read_data lines) (\<lambda>(colors, ts).
       let (lower_bound, upper_bound) = timelines_bounds ts;
           range_values = get_all_range_values ko ts
       in rbind (lookup_all range_values colors) (\<lambda>(range_colors, colors).
            let g = new_graphic (PInt lower_bound) (PInt upper_bound) (new_data_view ts colors)
                      (new_legend range_values range_colors);
                range_mid = (upper_bound - lower_bound) div 2;
                range_width = (upper_bound - lower_bound) div 10;
                range_lo = range_mid - range_width div 2;
                range_hi = range_mid + range_width div 2
            in set_range font (PInt range_lo) (PInt range_hi) g))"

end
