(* ===== verification/Grid_Render_Correct.thy ===== *)
theory Grid_Render_Correct
  imports Grid_Data_Correct Grid_Render
begin

text \<open>
  Correctness of the renderers of the timeline viewer: the layout and the ticks of a scale,
  the placement of the entries of the legend, and that the rows of the data can be drawn.
\<close>

section \<open>Scales\<close>

lemma closest_loop_more: "0 < c \<Longrightarrow> of_int (c * 10) < d \<Longrightarrow> closest_loop c d = closest_loop (c * 10) d"
  by (subst closest_loop.simps) simp

lemma closest_loop_done: "d \<le> of_int (c * 10) \<Longrightarrow> closest_loop c d = c"
  by (subst closest_loop.simps) simp

lemma closest_loop_power: "0 < c \<Longrightarrow> \<exists>k. closest_loop c d = c * 10 ^ k"
proof (induction c d rule: closest_loop.induct)
  case (1 c d)
  show ?case
  proof (cases "of_int (c * 10) < d")
    case True
    with 1 obtain k where "closest_loop (c * 10) d = c * 10 * 10 ^ k" by fastforce
    then have "closest_loop c d = c * 10 ^ Suc k" using closest_loop_more [OF 1(2) True] by simp
    then show ?thesis by blast
  next
    case False
    then have "closest_loop c d = c * 10 ^ 0" using closest_loop_done [of d c] by simp
    then show ?thesis by blast
  qed
qed

lemma closest_loop_bounds:
  "0 < c \<Longrightarrow> d \<le> of_int (10 * closest_loop c d) \<and> (closest_loop c d = c \<or> of_int (closest_loop c d) < d)"
proof (induction c d rule: closest_loop.induct)
  case (1 c d)
  show ?case
  proof (cases "of_int (c * 10) < d")
    case True
    with 1 have "d \<le> of_int (10 * closest_loop (c * 10) d) \<and> (closest_loop (c * 10) d = c * 10 \<or> of_int (closest_loop (c * 10) d) < d)"
      by simp
    with True closest_loop_more [OF 1(2) True] show ?thesis by auto
  next
    case False
    with closest_loop_done [of d c] show ?thesis by simp
  qed
qed

lemma closest_facts:
  obtains k where "closest_loop 1 d = 10 ^ k" "d \<le> 10 * 10 ^ k" "k = 0 \<or> 10 ^ k < d"
proof -
  obtain k where k: "closest_loop 1 d = 10 ^ k" using closest_loop_power [of 1 d] by auto
  have "k = 0" if "(10 :: int) ^ k = 1" using that one_less_power [of "10 :: int" k] by (cases "k = 0") auto
  then have "d \<le> 10 * 10 ^ k" "k = 0 \<or> 10 ^ k < d" using closest_loop_bounds [of 1 d] by (auto simp: k)
  with k that show ?thesis by blast
qed

lemma int_div_one_iff: "0 < c \<Longrightarrow> i div c = 1 \<longleftrightarrow> c \<le> i \<and> i < 2 * c" for c i :: int
proof
  assume "0 < c" "i div c = 1"
  then have "c + i mod c = i" "0 \<le> i mod c" "i mod c < c" using div_mult_mod_eq [of i c] by auto
  then show "c \<le> i \<and> i < 2 * c" by linarith
next
  assume "0 < c" "c \<le> i \<and> i < 2 * c"
  then show "i div c = 1" by (intro int_div_pos_eq [of i c 1 "i - c"]) auto
qed

lemma num_quot_one_iff:
  assumes "0 < c"
  shows "num_eq (num_quot a (PInt c)) (PInt 1) \<longleftrightarrow>
    (case a of PInt i \<Rightarrow> c \<le> i \<and> i < 2 * c | PFloat r \<Rightarrow> r = of_int c)"
  using assms by (cases a) (auto simp: num_eq_def int_div_one_iff field_simps)

text \<open>
  What the distance between two ticks is: a power of ten, unless the distance of the bounds
  is 1.
\<close>

lemma scale_delta_one: "pval d = 1 \<Longrightarrow> scale_delta d = PInt 0"
  using closest_loop_done [of 1 1] by (cases d) (auto simp: scale_delta_def num_eq_def)

lemma scale_delta_cases:
  assumes "pval d \<noteq> 1"
  obtains k where "scale_delta d = PInt (10 ^ k)" "pval d < 20 * 10 ^ k" "1 < pval d \<Longrightarrow> 10 ^ k \<le> pval d"
proof -
  obtain k where k: "closest_loop 1 (pval d) = 10 ^ k" "pval d \<le> 10 * 10 ^ k" "k = 0 \<or> 10 ^ k < pval d"
    by (rule closest_facts)
  show ?thesis
  proof (cases "num_eq (num_quot d (PInt (10 ^ k))) (PInt 1)")
    case True
    then have d: "case d of PInt i \<Rightarrow> 10 ^ k \<le> i \<and> i < 2 * 10 ^ k | PFloat r \<Rightarrow> r = of_int (10 ^ k)"
      by (simp add: num_quot_one_iff)
    have "k \<noteq> 0"
    proof
      assume "k = 0"
      with d assms show False by (cases d) auto
    qed
    then obtain j where j: "k = Suc j" "10 ^ k < pval d" using k(3) by (cases k) auto
    have "\<not> num_eq (num_quot d (PInt (10 ^ k))) (PInt 0)" using True by (simp add: num_eq_def)
    then have sd: "scale_delta d = PInt (10 ^ j)" using True by (simp add: scale_delta_def k(1) j(1))
    have "pval d < 20 * 10 ^ j"
    proof (cases d)
      case (PInt i)
      then have "i < 20 * 10 ^ j" using d j(1) by simp
      then have "(of_int i :: rat) < of_int (20 * 10 ^ j)" by (simp only: of_int_less_iff)
      then show ?thesis by (simp add: PInt)
    qed (use d j in simp)
    moreover have "1 < pval d" "10 ^ j \<le> pval d"
    proof -
      have "(1 :: rat) \<le> 10 ^ j" "10 * 10 ^ j < pval d" using j by auto
      then show "1 < pval d" "10 ^ j \<le> pval d" by linarith+
    qed
    ultimately show ?thesis using sd by (intro that [of j]) auto
  next
    case False
    then have sd: "scale_delta d = PInt (10 ^ k)" by (simp add: scale_delta_def k(1) Let_def)
    have "(1 :: rat) \<le> 10 ^ k" by simp
    moreover from this have "pval d < 20 * 10 ^ k" using k(2) by linarith
    ultimately show ?thesis using sd k(3) assms by (intro that [of k]) auto
  qed
qed

lemma num_rem_value: "0 < d \<Longrightarrow> pval (num_rem a (PInt d)) = pval a - of_int (d * \<lfloor>pval a / of_int d\<rfloor>)"
proof (cases a)
  case (PInt i)
  have "i mod d = i - d * (i div d)" by (simp add: minus_mult_div_eq_mod)
  then have "(of_int (i mod d) :: rat) = of_int (i - d * (i div d))" by simp
  then show ?thesis by (simp add: PInt floor_divide_of_int_eq)
qed simp

lemma num_int_integral: "pval a = of_int i \<Longrightarrow> num_int a = i"
  by (simp add: num_int_def)

lemma mod_value: "0 < d \<Longrightarrow> num_mod a (PInt d) = Inr (num_rem a (PInt d))"
  by (simp add: num_mod_def)

lemma py_range_multiples:
  assumes "0 < d"
  shows "py_range (d * (a + 1)) (d * b + d) d = Inr (map (\<lambda>k. d * (a + 1 + int k)) [0..<nat (b - a)])"
proof -
  have "(d * b + d - d * (a + 1) + d - 1) div d = (d * (b - a) + (d - 1)) div d" by (simp add: algebra_simps)
  also have "\<dots> = b - a" using assms by (simp add: div_pos_pos_trivial)
  finally have n: "(d * b + d - d * (a + 1) + d - 1) div d = b - a" .
  have "(\<lambda>k. d * (a + 1) + int k * d) = (\<lambda>k. d * (a + 1 + int k))" by (simp add: fun_eq_iff algebra_simps)
  with assms show ?thesis by (simp only: py_range_def n if_True if_False less_irrefl not_less_iff_gr_or_eq less_imp_neq [symmetric])
qed

lemma ticks_eq:
  assumes "0 < d"
  shows "ticks lo hi (PInt d) =
    Inr (map (\<lambda>k. d * (\<lfloor>pval lo / of_int d\<rfloor> + 1 + int k)) [0..<nat (\<lfloor>pval hi / of_int d\<rfloor> - \<lfloor>pval lo / of_int d\<rfloor>)])"
proof -
  have "num_int (lo - num_rem lo (PInt d) + PInt d) = d * (\<lfloor>pval lo / of_int d\<rfloor> + 1)"
    by (rule num_int_integral) (simp add: num_rem_value assms algebra_simps)
  moreover have "num_int (hi - num_rem hi (PInt d) + PInt d) = d * \<lfloor>pval hi / of_int d\<rfloor> + d"
    by (rule num_int_integral) (simp add: num_rem_value assms)
  ultimately show ?thesis
    using assms by (simp add: ticks_def scale_start_end_def mod_value py_range_multiples)
qed

lemma multiples_between:
  assumes "0 < d"
  shows "(\<lambda>k. d * (a + 1 + int k)) ` {0..<nat (b - a)} = {m. d dvd m \<and> a < m div d \<and> m div d \<le> b}"
proof (intro set_eqI iffI)
  fix m assume "m \<in> {m. d dvd m \<and> a < m div d \<and> m div d \<le> b}"
  then have m: "m = d * (m div d)" "a < m div d" "m div d \<le> b" by auto
  then have "m = d * (a + 1 + int (nat (m div d - a - 1)))" "nat (m div d - a - 1) < nat (b - a)" by auto
  then show "m \<in> (\<lambda>k. d * (a + 1 + int k)) ` {0..<nat (b - a)}" by fastforce
qed (use assms in auto)

text \<open>The multiples of \<open>d\<close> after \<open>lo\<close>, up to \<open>hi\<close>.\<close>

definition multiples :: "int \<Rightarrow> rat \<Rightarrow> rat \<Rightarrow> int set" where
  "multiples d lo hi = {m. d dvd m \<and> lo < of_int m \<and> of_int m \<le> hi}"

lemma dvd_div_bounds:
  fixes m d :: int and x :: rat
  assumes "0 < d" "d dvd m"
  shows "\<lfloor>x / of_int d\<rfloor> < m div d \<longleftrightarrow> x < of_int m" "m div d \<le> \<lfloor>x / of_int d\<rfloor> \<longleftrightarrow> of_int m \<le> x"
proof -
  obtain q where q: "m = d * q" using assms(2) by blast
  show "\<lfloor>x / of_int d\<rfloor> < m div d \<longleftrightarrow> x < of_int m"
    using assms(1) by (simp add: q floor_less_iff field_simps)
  show "m div d \<le> \<lfloor>x / of_int d\<rfloor> \<longleftrightarrow> of_int m \<le> x"
    using assms(1) by (simp add: q le_floor_iff field_simps)
qed

lemma ticks_correct:
  assumes "0 < d"
  obtains xs where "ticks lo hi (PInt d) = Inr xs" "sorted_wrt (<) xs" "set xs = multiples d (pval lo) (pval hi)"
    "length xs = nat (\<lfloor>pval hi / of_int d\<rfloor> - \<lfloor>pval lo / of_int d\<rfloor>)"
proof -
  let ?a = "\<lfloor>pval lo / of_int d\<rfloor>" and ?b = "\<lfloor>pval hi / of_int d\<rfloor>"
  have "sorted_wrt (<) (map (\<lambda>k. d * (?a + 1 + int k)) [0..<nat (?b - ?a)])"
    using assms by (auto simp: sorted_wrt_iff_nth_less)
  moreover have "set (map (\<lambda>k. d * (?a + 1 + int k)) [0..<nat (?b - ?a)]) = multiples d (pval lo) (pval hi)"
    using multiples_between [OF assms, of ?a ?b] assms
    by (auto simp: multiples_def dvd_div_bounds)
  ultimately show ?thesis using ticks_eq [OF assms] by (intro that) auto
qed

lemma num_quot_le: "pval (num_quot a b) \<le> pval a / pval b"
proof (cases "(a, b)" rule: num_quot.cases)
  case (1 i j)
  then have "of_int (i div j) \<le> (of_int i / of_int j :: rat)"
    by (metis floor_divide_of_int_eq of_int_floor_le)
  with 1 show ?thesis by simp
qed auto

lemma num_quot_nonneg: "0 < pval b \<Longrightarrow> 0 \<le> pval a \<Longrightarrow> 0 \<le> pval (num_quot a b)"
  by (cases a; cases b) (auto simp: pos_imp_zdiv_nonneg_iff)

lemma get_position_bounds:
  assumes "sc_bounds s = Some (lo, hi)" "pval lo \<le> pval x" "pval x \<le> pval hi" "pval lo < pval hi" "0 \<le> pval (sl_width l)"
  obtains p where "get_position s l x = Inr p" "0 \<le> pval p" "pval p \<le> pval (sl_width l)"
proof -
  let ?n = "(x - lo) * sl_width l" and ?d = "hi - lo"
  have "get_position s l x = Inr (num_quot ?n ?d)" using assms by (simp add: get_position_def num_div_def)
  moreover have n: "0 \<le> pval ?n" "0 < pval ?d" using assms by auto
  moreover have "pval ?n / pval ?d \<le> pval (sl_width l)"
    using assms mult_right_mono [of "pval x - pval lo" "pval hi - pval lo" "pval (sl_width l)"]
    by (simp add: divide_le_eq mult.commute)
  ultimately show ?thesis using that num_quot_nonneg [OF n(2,1)] num_quot_le [of ?n ?d] by force
qed

fun labels :: "draw list \<Rightarrow> string list" where
  "labels [] = []"
| "labels (ShowText s # ds) = s # labels ds"
| "labels (_ # ds) = labels ds"

lemma labels_append [simp]: "labels (xs @ ys) = labels xs @ labels ys"
  by (induction xs rule: labels.induct) auto

lemma labels_concat: "labels (concat xss) = concat (map labels xss)"
  by (induction xss) auto

definition tick_cmds :: "font \<Rightarrow> scale \<Rightarrow> scale_layout \<Rightarrow> int \<Rightarrow> draw list" where
  "tick_cmds font s l x = (case tick font s l x of Inr ds \<Rightarrow> ds | Inl _ \<Rightarrow> [])"

lemma get_position_ok: "sc_bounds s = Some (lo, hi) \<Longrightarrow> pval lo \<noteq> pval hi \<Longrightarrow> \<exists>p. get_position s l x = Inr p"
  by (simp add: get_position_def num_div_def)

lemma tick_ok:
  assumes "sc_bounds s = Some (lo, hi)" "pval lo \<noteq> pval hi"
  shows "tick font s l x = Inr (tick_cmds font s l x)" "labels (tick_cmds font s l x) = [show_int x]"
  using get_position_ok [OF assms, of l "PInt x"] by (auto simp: tick_cmds_def tick_def Let_def)

lemma minor_tick_ok:
  assumes "sc_bounds s = Some (lo, hi)" "pval lo \<noteq> pval hi"
  obtains g where "\<And>x. minor_tick s l x = Inr (g x)" "\<And>x. labels (g x) = []"
proof -
  have "\<forall>x. \<exists>ds. minor_tick s l x = Inr ds \<and> labels ds = []"
  proof
    fix x
    from get_position_ok [OF assms, of l "PInt x"] show "\<exists>ds. minor_tick s l x = Inr ds \<and> labels ds = []"
      by (auto simp: minor_tick_def)
  qed
  then show ?thesis using that by metis
qed

lemma scale_draw_ticks:
  assumes s: "sc_bounds s = Some (lo, hi)" "pval lo \<noteq> pval hi" and d: "sl_delta l = PInt (10 ^ k)"
    and xs: "ticks lo hi (PInt (10 ^ k)) = Inr xs"
  shows "\<exists>ds. scale_draw font s l = Inr ds \<and> labels ds = map show_int xs"
proof -
  obtain g where g: "\<And>x. minor_tick s l x = Inr (g x)" "\<And>x. labels (g x) = []" by (rule minor_tick_ok [OF s, of l]) blast
  have major: "mapM (tick font s l) xs = Inr (map (tick_cmds font s l) xs)"
    by (rule mapM_Inr) (rule tick_ok [OF s])
  have minor: "mapM (minor_tick s l) ys = Inr (map g ys)" for ys
    by (rule mapM_Inr) (rule g)
  have none: "concat (map (\<lambda>x. labels (g x)) ys) = []" for ys by (simp add: g)
  show ?thesis
  proof (cases k)
    case 0
    then show ?thesis using s xs d major
      by (simp add: scale_draw_def labels_concat tick_ok [OF s] comp_def less_pynum_def Let_def)
  next
    case (Suc j)
    obtain ys where "ticks lo hi (PInt (10 ^ j)) = Inr ys" using ticks_eq [of "10 ^ j"] by auto
    then show ?thesis using s xs d major minor Suc none
      by (simp add: scale_draw_def labels_concat tick_ok [OF s] comp_def less_pynum_def Let_def)
  qed
qed

lemma layout_scale_one:
  "sc_bounds s = Some (lo, hi) \<Longrightarrow> pval (hi - lo) = 1 \<Longrightarrow> layout_scale font s w = Inl ZeroDivisionError"
  by (simp add: layout_scale_def scale_delta_one scale_start_end_def num_mod_def)

lemma scale_draw_total:
  assumes "sc_bounds s = Some (lo, hi)" "pval lo \<noteq> pval hi" "layout_scale font s w = Inr l"
  shows "\<exists>ds. scale_draw font s l = Inr ds"
proof -
  have "pval (hi - lo) \<noteq> 1" using layout_scale_one [OF assms(1), of font w] assms(3) by auto
  then obtain k where k: "scale_delta (hi - lo) = PInt (10 ^ k)" by (rule scale_delta_cases)
  then have d: "sl_delta l = PInt (10 ^ k)" using assms by (auto simp: layout_scale_def rbind_Inr_iff Let_def)
  obtain xs where "ticks lo hi (PInt (10 ^ k)) = Inr xs" using ticks_eq [of "10 ^ k"] by auto
  from scale_draw_ticks [OF assms(1,2) d this] show ?thesis by blast
qed

lemma layout_scale_total:
  assumes "sc_bounds s = Some (lo, hi)" "pval (hi - lo) \<noteq> 1"
  shows "\<exists>l. layout_scale font s w = Inr l"
proof -
  obtain k where "scale_delta (hi - lo) = PInt (10 ^ k)" using assms(2) by (rule scale_delta_cases)
  with assms(1) show ?thesis by (simp add: layout_scale_def scale_start_end_def mod_value)
qed

section \<open>The legend\<close>

text \<open>Where the items of a legend are drawn: each with its left and its upper side.\<close>

fun legend_items :: "font \<Rightarrow> pynum \<Rightarrow> pynum \<Rightarrow> pynum \<times> pynum \<times> pynum \<Rightarrow> string list \<Rightarrow> (string \<times> pynum \<times> pynum) list" where
  "legend_items font p w st [] = []"
| "legend_items font p w st (s # ss) =
     (let (st', x) = legend_place font p w st s in (s, x, fst (snd st')) # legend_items font p w st' ss)"

definition item_cmds :: "font \<Rightarrow> pynum \<Rightarrow> string \<times> pynum \<times> pynum \<Rightarrow> color \<Rightarrow> draw list" where
  "item_cmds font p it c =
     (let (s, x, y) = it
      in [Rectangle x y p p, black, SetLineWidth (PInt 2), StrokePreserve, use_color c, Fill,
          MoveTo (x + p * PInt 2) (y + text_height font s), black, ShowText s])"

definition item_width :: "font \<Rightarrow> pynum \<Rightarrow> string \<Rightarrow> rat" where
  "item_width font p s = 3 * pval p + te_width (font s)"

definition item_height :: "font \<Rightarrow> pynum \<Rightarrow> string \<Rightarrow> rat" where
  "item_height font p s = te_height (font s) + pval p"

definition apart :: "font \<Rightarrow> pynum \<Rightarrow> string \<times> pynum \<times> pynum \<Rightarrow> string \<times> pynum \<times> pynum \<Rightarrow> bool" where
  "apart font p = (\<lambda>(s, x, y) (s', x', y').
     pval x + item_width font p s \<le> pval x' \<or> pval y + item_height font p s \<le> pval y')"

lemma legend_items_names: "map fst (legend_items font p w st ss) = ss"
  by (induction ss arbitrary: st) (auto split: prod.splits)

lemma legend_draw_loop_items:
  "legend_draw_loop font p w st ss cs =
     (if length cs < length ss then Inl IndexError
      else Inr (concat (map2 (item_cmds font p) (legend_items font p w st ss) cs)))"
  by (induction ss arbitrary: st cs; case_tac cs) (auto simp: item_cmds_def split: prod.splits)

lemma legend_place_values:
  assumes "legend_place font p w (lh, th, lu) s = ((lh', th', lu'), x)"
  shows "pval lh' = max (pval lh) (item_height font p s)"
    and "pval x = pval lu' - item_width font p s"
    and "pval w < pval lu + item_width font p s \<Longrightarrow> pval lu' = pval p + item_width font p s \<and> pval th' = pval th + pval lh'"
    and "pval lu + item_width font p s \<le> pval w \<Longrightarrow> pval lu' = pval lu + item_width font p s \<and> pval th' = pval th"
  using assms
  by (auto simp: legend_place_def Let_def num_order item_height_def item_width_def text_width_def text_height_def split: if_splits)

definition legend_end :: "font \<Rightarrow> pynum \<Rightarrow> pynum \<Rightarrow> pynum \<times> pynum \<times> pynum \<Rightarrow> string list \<Rightarrow> pynum \<times> pynum \<times> pynum" where
  "legend_end font p w = foldl (\<lambda>st s. fst (legend_place font p w st s))"

abbreviation used_height :: "pynum \<times> pynum \<times> pynum \<Rightarrow> rat" where
  "used_height st \<equiv> pval (fst (snd st)) + pval (fst st)"

lemma legend_items_inside:
  assumes "0 \<le> pval p" "\<And>s. 0 \<le> te_width (font s)" "\<And>s. 0 \<le> te_height (font s)"
    and "\<And>s. s \<in> set ss \<Longrightarrow> pval p + item_width font p s \<le> pval w"
    and "0 \<le> pval lh" "pval p \<le> pval lu"
  shows "pval th + pval lh \<le> used_height (legend_end font p w (lh, th, lu) ss) \<and>
    (\<forall>(s, x, y)\<in>set (legend_items font p w (lh, th, lu) ss).
       pval p \<le> pval x \<and> pval x + item_width font p s \<le> pval w \<and>
       pval th \<le> pval y \<and> pval y + item_height font p s \<le> used_height (legend_end font p w (lh, th, lu) ss) \<and>
       (pval lu \<le> pval x \<or> pval th + pval lh \<le> pval y)) \<and>
    sorted_wrt (apart font p) (legend_items font p w (lh, th, lu) ss)"
  using assms(4-6)
proof (induction ss arbitrary: lh th lu)
  case (Cons s ss)
  obtain lh' th' lu' x where place: "legend_place font p w (lh, th, lu) s = ((lh', th', lu'), x)"
    by (metis prod_cases3 surj_pair)
  note v = legend_place_values [OF place]
  have nn: "0 \<le> item_width font p s" "0 \<le> item_height font p s"
    using assms(1-3) by (auto simp: item_width_def item_height_def)
  have fit: "pval p + item_width font p s \<le> pval w" using Cons.prems(1) by simp
  have st': "pval p \<le> pval x" "pval lu' \<le> pval w" "pval lu' = pval x + item_width font p s"
      "pval th \<le> pval th'" "pval th + pval lh \<le> pval th' + pval lh'" "item_height font p s \<le> pval lh'"
      "0 \<le> pval lh'" "pval p \<le> pval lu'" "pval lu \<le> pval x \<or> pval th + pval lh \<le> pval th'"
    using v nn fit Cons.prems(2,3) by (cases "pval w < pval lu + item_width font p s"; linarith)+
  have E: "legend_end font p w (lh, th, lu) (s # ss) = legend_end font p w (lh', th', lu') ss"
    by (simp add: legend_end_def place)
  have I: "legend_items font p w (lh, th, lu) (s # ss) = (s, x, th') # legend_items font p w (lh', th', lu') ss"
    by (simp add: place)
  have IH: "pval th' + pval lh' \<le> used_height (legend_end font p w (lh', th', lu') ss)"
    "\<And>s x y. (s, x, y) \<in> set (legend_items font p w (lh', th', lu') ss) \<Longrightarrow>
       pval p \<le> pval x \<and> pval x + item_width font p s \<le> pval w \<and>
       pval th' \<le> pval y \<and> pval y + item_height font p s \<le> used_height (legend_end font p w (lh', th', lu') ss) \<and>
       (pval lu' \<le> pval x \<or> pval th' + pval lh' \<le> pval y)"
    "sorted_wrt (apart font p) (legend_items font p w (lh', th', lu') ss)"
    using Cons.IH [OF Cons.prems(1) st'(7,8), of th'] by auto
  have new: "pval p \<le> pval x \<and> pval x + item_width font p s \<le> pval w \<and> pval th \<le> pval th' \<and>
      pval th' + item_height font p s \<le> used_height (legend_end font p w (lh', th', lu') ss) \<and>
      (pval lu \<le> pval x \<or> pval th + pval lh \<le> pval th')"
    using st' IH(1) by auto
  have old: "pval p \<le> pval a \<and> pval a + item_width font p r \<le> pval w \<and> pval th \<le> pval y \<and>
      pval y + item_height font p r \<le> used_height (legend_end font p w (lh', th', lu') ss) \<and>
      (pval lu \<le> pval a \<or> pval th + pval lh \<le> pval y) \<and> apart font p (s, x, th') (r, a, y)"
    if "(r, a, y) \<in> set (legend_items font p w (lh', th', lu') ss)" for r a y
    using IH(2) [OF that] st' nn by (auto simp: apart_def)
  show ?case unfolding E I using new old IH(1,3) st'(5) by (auto split: prod.splits)
qed (simp add: legend_end_def)

lemma layout_legend_end:
  "pval (layout_legend font l w) = used_height (legend_end font (lg_padding l) w (PInt 0, lg_padding l, lg_padding l) (lg_legends l))"
  by (simp add: layout_legend_def legend_end_def split_def Let_def)

section \<open>Drawing the data\<close>

text \<open>Every value of a range has a colour.\<close>

definition colored :: "colors \<Rightarrow> data_range list \<Rightarrow> bool" where
  "colored cs rs \<longleftrightarrow> (\<forall>r\<in>set rs. dict_get (cs_colors cs) (dr_value r) \<noteq> None)"

lemma lookup_known: "dict_get (cs_colors cs) n \<noteq> None \<Longrightarrow> \<exists>c. lookup_color n cs = Inr (c, cs)"
  by (auto simp: lookup_color_def)

lemma to_pixel_total: "pval start \<noteq> pval end \<Longrightarrow> \<exists>i. to_pixel start end x width t = Inr i"
  by (simp add: to_pixel_def num_div_def)

lemma draw_events_loop_total:
  "(\<And>t. \<exists>i. pixel t = Inr i) \<Longrightarrow> \<exists>ds. draw_events_loop pixel to_str y h x0 es = Inr ds"
proof (induction es arbitrary: x0)
  case (Cons e es)
  obtain i where "pixel (PInt (ev_at e)) = Inr i" using Cons.prems by blast
  with Cons.IH [OF Cons.prems] show ?case by (auto simp: rbind_def split: sum.split) (metis Inl_Inr_False)+
qed simp

lemma draw_ranges_loop_total:
  "(\<And>t. \<exists>i. pixel t = Inr i) \<Longrightarrow> colored cs rs \<Longrightarrow> \<exists>ds. draw_ranges_loop pixel start end y x0 rs cs = Inr (ds, cs)"
proof (induction rs arbitrary: x0)
  case (Cons r rs)
  obtain i j where "pixel (num_max (PInt (dr_start r)) start) = Inr i" "pixel (num_min (PInt (dr_end r)) end) = Inr j"
    using Cons.prems(1) by blast
  moreover obtain c where "lookup_color (dr_value r) cs = Inr (c, cs)"
    using Cons.prems(2) lookup_known by (force simp: colored_def)
  moreover obtain ds ds' where "draw_ranges_loop pixel start end y j rs cs = Inr (ds, cs)" "draw_ranges_loop pixel start end y x0 rs cs = Inr (ds', cs)"
    using Cons.IH Cons.prems by (fastforce simp: colored_def)
  ultimately show ?case by simp
qed simp

lemma bounds_return: "\<exists>lo hi. get_events_bounds es a b = Inr (lo, hi)" "\<exists>lo hi. get_ranges_bounds rs a b = Inr (lo, hi)"
proof -
  from searches_return(2) [of "el_events es" a] searches_return(2) [of "el_events es" b]
  show "\<exists>lo hi. get_events_bounds es a b = Inr (lo, hi)" by (auto simp: get_events_bounds_def)
  from searches_return(1) [of "rl_ranges rs" a] searches_return(1) [of "rl_ranges rs" b]
  show "\<exists>lo hi. get_ranges_bounds rs a b = Inr (lo, hi)" by (auto simp: get_ranges_bounds_def)
qed

lemma draw_events_total:
  assumes "dv_range v = Some (start, end)" "pval start \<noteq> pval end"
  shows "\<exists>ds. draw_events v l to_str n events x y width height = Inr ds"
proof -
  obtain lo hi where b: "get_events_bounds events (pval start) (pval end) = Inr (lo, hi)" using bounds_return(1) by blast
  obtain ds where "draw_events_loop (to_pixel start end x width) to_str y (dl_max_text_height l) (num_int x) (py_slice (el_events events) (Some lo) (Some hi)) = Inr ds"
    using draw_events_loop_total [of "to_pixel start end x width"] to_pixel_total [OF assms(2)] by blast
  with b assms(1) show ?thesis by (simp add: draw_events_def)
qed

lemma draw_ranges_total:
  assumes "dv_range v = Some (start, end)" "pval start \<noteq> pval end" "colored cs (rl_ranges ranges)"
  shows "\<exists>ds. draw_ranges v cs n ranges x y width height = Inr (ds, cs)"
proof -
  obtain lo hi where b: "get_ranges_bounds ranges (pval start) (pval end) = Inr (lo, hi)" using bounds_return(2) by blast
  have "colored cs (py_slice (rl_ranges ranges) (Some lo) (Some hi))"
    using assms(3) subsetD [OF set_py_slice, of _ "rl_ranges ranges" "Some lo" "Some hi"] by (fastforce simp: colored_def)
  then obtain ds where "draw_ranges_loop (to_pixel start end x width) start end y (num_int (x - PInt 1)) (py_slice (rl_ranges ranges) (Some lo) (Some hi)) cs = Inr (ds, cs)"
    using draw_ranges_loop_total [of "to_pixel start end x width" cs] to_pixel_total [OF assms(2)] by blast
  with b assms(1) show ?thesis by (simp add: draw_ranges_def)
qed

text \<open>A window that is not empty and the colours of all ranges: what drawing needs.\<close>

definition drawable :: "data_view \<Rightarrow> bool" where
  "drawable v \<longleftrightarrow> (\<exists>start end. dv_range v = Some (start, end) \<and> pval start \<noteq> pval end)
     \<and> (\<forall>t\<in>set (dv_timelines v). \<forall>r\<in>set (tl_ranges t). colored (dv_colors v) (rl_ranges r))"

lemma event_row_total:
  assumes "drawable v" "ds_colors st = dv_colors v"
  shows "\<exists>st'. event_row font v l to_str st events = Inr st' \<and> ds_colors st' = dv_colors v"
proof -
  obtain start "end" where "dv_range v = Some (start, end)" "pval start \<noteq> pval end" using assms(1) by (auto simp: drawable_def)
  from draw_events_total [OF this, of l to_str "ds_n st" events] obtain ds where
    "draw_events v l to_str (ds_n st) events (co_data (data_columns v l)) (ds_y st) (co_data_width (data_columns v l)) (dl_max_text_height l + PInt 5) = Inr ds"
    by blast
  with assms(2) show ?thesis by (simp add: event_row_def row_end_def Let_def)
qed

lemma range_row_total:
  assumes "drawable v" "ds_colors st = dv_colors v" "colored (dv_colors v) (rl_ranges ranges)"
  shows "\<exists>st'. range_row font v l st ranges = Inr st' \<and> ds_colors st' = dv_colors v"
proof -
  obtain start "end" where "dv_range v = Some (start, end)" "pval start \<noteq> pval end" using assms(1) by (auto simp: drawable_def)
  from draw_ranges_total [OF this assms(3), of "ds_n st"] obtain ds where
    "draw_ranges v (dv_colors v) (ds_n st) ranges (co_data (data_columns v l)) (ds_y st) (co_data_width (data_columns v l)) (PInt 10) = Inr (ds, dv_colors v)"
    by blast
  with assms(2) show ?thesis by (simp add: range_row_def row_end_def Let_def)
qed

interpretation event_rows: total_loop "event_row font v l to_str" "\<lambda>st. drawable v \<and> ds_colors st = dv_colors v" "\<lambda>_. True" for font v l to_str
  by (rule total_loopI) (use event_row_total in auto)

interpretation range_rows: total_loop "range_row font v l" "\<lambda>st. drawable v \<and> ds_colors st = dv_colors v" "\<lambda>r. colored (dv_colors v) (rl_ranges r)" for font v l
  by (rule total_loopI) (use range_row_total in auto)

lemma timeline_row_total:
  assumes "drawable v" "ds_colors st = dv_colors v" "t \<in> set (dv_timelines v)"
  shows "\<exists>st'. timeline_row font v l st t = Inr st' \<and> ds_colors st' = dv_colors v"
proof -
  let ?st = "st\<lparr>ds_out := ds_out st @ row_label font l (co_left (data_columns v l)) (ds_y st) (tl_name t)\<rparr>"
  obtain st1 where 1: "foldM (event_row font v l show_int) ?st (tl_event_int t) = Inr st1" "ds_colors st1 = dv_colors v"
    using event_rows.loop_total [of v ?st "tl_event_int t" font l show_int] assms by (auto simp: list_all_iff)
  obtain st2 where 2: "foldM (event_row font v l (\<lambda>s. s)) st1 (tl_event_str t) = Inr st2" "ds_colors st2 = dv_colors v"
    using event_rows.loop_total [of v st1 "tl_event_str t" font l "\<lambda>s. s"] assms 1(2) by (auto simp: list_all_iff)
  obtain st3 where 3: "foldM (range_row font v l) st2 (tl_ranges t) = Inr st3" "ds_colors st3 = dv_colors v"
    using range_rows.loop_total [of v st2 "tl_ranges t" font l] assms 2(2) by (auto simp: list_all_iff drawable_def)
  from 1 2 3 show ?thesis by (simp add: timeline_row_def Let_def)
qed

interpretation timeline_rows: total_loop "timeline_row font v l" "\<lambda>st. drawable v \<and> ds_colors st = dv_colors v" "\<lambda>t. t \<in> set (dv_timelines v)" for font v l
  by (rule total_loopI) (use timeline_row_total in auto)

lemma data_draw_total:
  assumes "drawable v"
  shows "\<exists>ds. data_draw font v l = Inr (ds, dv_colors v)"
proof -
  let ?st = "\<lparr>ds_out = draw_line (PInt 0) (PInt 0) (dl_width l) (PInt 0), ds_y = half (dv_padding v), ds_n = 1, ds_colors = dv_colors v\<rparr>"
  obtain st where "foldM (timeline_row font v l) ?st (dv_timelines v) = Inr st" "ds_colors st = dv_colors v"
    using timeline_rows.loop_total [of v ?st "dv_timelines v" font l] assms by (auto simp: list_all_iff)
  then show ?thesis by (simp add: data_draw_def Let_def)
qed

section \<open>Properties\<close>

definition example_font :: font where
  "example_font = (\<lambda>s. \<lparr>te_y_bearing = - 7, te_width = 6 * of_nat (length s), te_height = 7\<rparr>)"

text \<open>
  A scale whose bounds are one apart cannot be laid out: the distance of its ticks
  becomes zero and the layout raises \<^verbatim>\<open>ZeroDivisionError\<close>.  Every other pair of bounds
  has a layout; its ticks are a power of ten apart, no more than the distance of the bounds
  when that exceeds one, and the distance of the bounds is less than twenty of them.
\<close>

theorem scale_layout_correct:
  assumes "sc_bounds s = Some (lo, hi)"
  shows "if pval hi - pval lo = 1 then layout_scale font s w = Inl ZeroDivisionError
    else \<exists>k. layout_scale font s w = Inr \<lparr>sl_delta = PInt (10 ^ k), sl_width = w, sl_height = text_height font alphabet + PInt 10\<rparr>
      \<and> pval hi - pval lo < 20 * 10 ^ k \<and> (1 < pval hi - pval lo \<longrightarrow> 10 ^ k \<le> pval hi - pval lo)"
proof (cases "pval hi - pval lo = 1")
  case True
  with layout_scale_one [OF assms] show ?thesis by simp
next
  case False
  then obtain k where "scale_delta (hi - lo) = PInt (10 ^ k)" "pval (hi - lo) < 20 * 10 ^ k" "1 < pval (hi - lo) \<Longrightarrow> 10 ^ k \<le> pval (hi - lo)"
    by (metis scale_delta_cases pval_arith(2))
  with assms False show ?thesis by (auto simp: layout_scale_def scale_start_end_def mod_value)
qed

theorem scale_layout_correct_witness:
  "sc_bounds \<lparr>sc_top = True, sc_bounds = Some (PInt 3, PFloat 4)\<rparr> = Some (PInt 3, PFloat 4) \<and>
   layout_scale (\<lambda>_. \<lparr>te_y_bearing = 0, te_width = 5, te_height = 7\<rparr>) \<lparr>sc_top = True, sc_bounds = Some (PInt 3, PFloat 4)\<rparr> (PInt 100)
     = Inl ZeroDivisionError"
  using scale_layout_correct [of "\<lparr>sc_top = True, sc_bounds = Some (PInt 3, PFloat 4)\<rparr>" "PInt 3" "PFloat 4"
      "\<lambda>_. \<lparr>te_y_bearing = 0, te_width = 5, te_height = 7\<rparr>" "PInt 100"] by simp

text \<open>
  Drawing a laid-out scale succeeds.  The labels are, in increasing order, exactly the
  multiples of the tick distance that lie after the lower bound and not after the upper
  bound: at most twenty, and at least one when the bounds are more than one apart.  Every
  one of them is placed within the width of the scale.
\<close>

theorem scale_draw_correct:
  assumes s: "sc_bounds s = Some (lo, hi)" "pval lo < pval hi"
    and l: "layout_scale font s w = Inr l" "0 \<le> pval w"
  shows "\<exists>ds xs d. scale_draw font s l = Inr ds \<and> sl_delta l = PInt d \<and> labels ds = map show_int xs
    \<and> sorted_wrt (<) xs \<and> set xs = multiples d (pval lo) (pval hi)
    \<and> length xs \<le> 20 \<and> (1 < pval hi - pval lo \<longrightarrow> xs \<noteq> [])
    \<and> (\<forall>x\<in>set xs. \<exists>p. get_position s l (PInt x) = Inr p \<and> 0 \<le> pval p \<and> pval p \<le> pval w)"
proof -
  have "pval (hi - lo) \<noteq> 1" using layout_scale_one [OF s(1), of font w] l by auto
  then obtain k where k: "scale_delta (hi - lo) = PInt (10 ^ k)" "pval (hi - lo) < 20 * 10 ^ k" "1 < pval (hi - lo) \<Longrightarrow> 10 ^ k \<le> pval (hi - lo)"
    by (rule scale_delta_cases) blast
  have ld: "sl_delta l = PInt (10 ^ k)" "sl_width l = w"
    using l s k(1) by (auto simp: layout_scale_def rbind_Inr_iff Let_def)
  have pos: "(0 :: int) < 10 ^ k" by simp
  obtain xs where xs: "ticks lo hi (PInt (10 ^ k)) = Inr xs" "sorted_wrt (<) xs" "set xs = multiples (10 ^ k) (pval lo) (pval hi)"
    "length xs = nat (\<lfloor>pval hi / of_int (10 ^ k)\<rfloor> - \<lfloor>pval lo / of_int (10 ^ k)\<rfloor>)"
    by (rule ticks_correct [OF pos])
  let ?x = "pval lo / of_int (10 ^ k)" and ?y = "pval hi / of_int (10 ^ k)"
  have diff: "?y - ?x = pval (hi - lo) / 10 ^ k" by (simp add: diff_divide_distrib)
  then have lt: "?y - ?x < 20" using k(2) by (simp add: divide_less_eq)
  have "length xs \<le> 20" using lt xs(4) by linarith
  moreover have "xs \<noteq> []" if "1 < pval hi - pval lo"
  proof -
    have "1 \<le> ?y - ?x" using k(3) that diff by (simp add: le_divide_eq)
    then have "0 < length xs" using xs(4) by linarith
    then show ?thesis by simp
  qed
  moreover have "\<exists>p. get_position s l (PInt x) = Inr p \<and> 0 \<le> pval p \<and> pval p \<le> pval w" if "x \<in> set xs" for x
    using that s l(2) ld(2) xs(3) by (auto simp: multiples_def intro: get_position_bounds [of s lo hi "PInt x" l])
  moreover obtain ds where "scale_draw font s l = Inr ds" "labels ds = map show_int xs"
    using scale_draw_ticks [OF s(1) _ ld(1) xs(1)] s(2) by auto
  ultimately show ?thesis using ld(1) xs by blast
qed


definition example_scale :: scale where
  "example_scale = \<lparr>sc_top = True, sc_bounds = Some (PInt 0, PInt 15)\<rparr>"

lemma example_scale_layout:
  "layout_scale example_font example_scale (PInt 100) = Inr \<lparr>sl_delta = PInt 1, sl_width = PInt 100, sl_height = PFloat 17\<rparr>"
  by (simp add: layout_scale_def example_scale_def scale_delta_def closest_loop.simps num_eq_def scale_start_end_def num_mod_def
      text_height_def example_font_def Let_def)

theorem scale_draw_correct_witness:
  "layout_scale example_font example_scale (PInt 100) = Inr \<lparr>sl_delta = PInt 1, sl_width = PInt 100, sl_height = PFloat 17\<rparr> \<and>
   (\<exists>ds. scale_draw example_font example_scale \<lparr>sl_delta = PInt 1, sl_width = PInt 100, sl_height = PFloat 17\<rparr> = Inr ds
      \<and> labels ds \<noteq> [] \<and> length (labels ds) \<le> 20)"
  using scale_draw_correct [of example_scale "PInt 0" "PInt 15", OF _ _ example_scale_layout] example_scale_layout
  by (force simp: example_scale_def)

text \<open>
  The legend above the graphic.  Drawing it raises \<^verbatim>\<open>IndexError\<close> exactly when it has
  more entries than colours.  Otherwise the entries are drawn in their order, no two of them
  overlap, and when each of them alone fits the width then all of them lie between the
  margins and within the height that \<^verbatim>\<open>layout\<close> computed.
\<close>

theorem legend_draw_correct:
  assumes "0 \<le> pval (lg_padding l)" "\<And>s. 0 \<le> te_width (font s)" "\<And>s. 0 \<le> te_height (font s)"
    and "\<And>s. s \<in> set (lg_legends l) \<Longrightarrow> pval (lg_padding l) + item_width font (lg_padding l) s \<le> pval w"
  shows "if length (lg_colors l) < length (lg_legends l) then legend_draw font l w = Inl IndexError
    else \<exists>items. legend_draw font l w = Inr (concat (map2 (item_cmds font (lg_padding l)) items (lg_colors l)))
      \<and> map fst items = lg_legends l \<and> sorted_wrt (apart font (lg_padding l)) items
      \<and> (\<forall>(s, x, y)\<in>set items. pval (lg_padding l) \<le> pval x \<and> pval x + item_width font (lg_padding l) s \<le> pval w
           \<and> pval (lg_padding l) \<le> pval y \<and> pval y + item_height font (lg_padding l) s \<le> pval (layout_legend font l w))"
proof -
  let ?items = "legend_items font (lg_padding l) w (PInt 0, lg_padding l, lg_padding l) (lg_legends l)"
  have "map fst ?items = lg_legends l" by (rule legend_items_names)
  then show ?thesis
    using legend_items_inside [OF assms, of "lg_legends l" "PInt 0" "lg_padding l" "lg_padding l"]
    by (auto simp: legend_draw_def legend_draw_loop_items layout_legend_end intro!: exI [of _ ?items])
qed

definition example_legend :: legend where
  "example_legend = new_legend [''idle'', ''busy''] [mk_color 1 0 0, mk_color 0 1 0]"

theorem legend_draw_correct_witness:
  "0 \<le> pval (lg_padding example_legend) \<and> (\<exists>ds. legend_draw example_font example_legend (PInt 80) = Inr ds) \<and>
   layout_legend example_font example_legend (PInt 80) = PFloat 44"
proof -
  have fits: "0 \<le> pval (lg_padding example_legend)" "\<And>s. 0 \<le> te_width (example_font s)" "\<And>s. 0 \<le> te_height (example_font s)"
    "\<And>s. s \<in> set (lg_legends example_legend) \<Longrightarrow> pval (lg_padding example_legend) + item_width example_font (lg_padding example_legend) s \<le> pval (PInt 80)"
    by (auto simp: example_legend_def new_legend_def example_font_def item_width_def)
  have "\<not> length (lg_colors example_legend) < length (lg_legends example_legend)" by (simp add: example_legend_def new_legend_def)
  with legend_draw_correct [OF fits] have "\<exists>ds. legend_draw example_font example_legend (PInt 80) = Inr ds" by metis
  moreover have "layout_legend example_font example_legend (PInt 80) = PFloat 44"
    by (simp add: layout_legend_def legend_place_def example_legend_def new_legend_def example_font_def text_width_def text_height_def
        num_order)
  ultimately show ?thesis by (simp add: example_legend_def new_legend_def)
qed

end
