(* ===== verification/Grid_Gtk.thy ===== *)
theory Grid_Gtk
  imports Grid_Render
begin

text \<open>
  \<^verbatim>\<open>GtkGraphicRenderer\<close> of \<^verbatim>\<open>src/source/ns-3-dev/utils/grid.py\<close>: the handlers of the
  window, which turn drags of the mouse into changes of the visible range.  An attribute
  that no handler has assigned yet is \<open>None\<close>.  \<^verbatim>\<open>__moving_right\<close> is only tested for
  truth, also where a handler stores the width of the window in it.
\<close>

datatype cursor = DoubleArrow | Fleur | NoCursor

datatype redraw = QueueDraw | QueueDrawArea int int int int | SetCursor cursor

record gtk =
  k_data :: graphic
  k_moving_left :: bool
  k_moving_right :: bool
  k_moving_both :: bool
  k_moving_top :: bool
  k_force :: bool
  k_left_cur :: "pynum option"
  k_right_cur :: "pynum option"
  k_both_start :: "pynum option"
  k_both_cur :: "pynum option"
  k_top_start :: "pynum option"
  k_top_cur :: "pynum option"
  k_width :: "pynum option"
  k_buffer :: "draw list option"
  k_requests :: "redraw list"

definition new_gtk :: "graphic \<Rightarrow> gtk" where
  "new_gtk data =
     \<lparr>k_data = data, k_moving_left = False, k_moving_right = False, k_moving_both = False, k_moving_top = False,
      k_force = True, k_left_cur = None, k_right_cur = None, k_both_start = None, k_both_cur = None,
      k_top_start = None, k_top_cur = None, k_width = None, k_buffer = None, k_requests = []\<rparr>"

definition request :: "redraw \<Rightarrow> gtk \<Rightarrow> gtk" where
  "request r k = k\<lparr>k_requests := k_requests k @ [r]\<rparr>"

text \<open>\<^verbatim>\<open>set_range\<close> followed by a full redraw.\<close>

definition change_range :: "font \<Rightarrow> pynum \<Rightarrow> pynum \<Rightarrow> gtk \<Rightarrow> gtk res" where
  "change_range font left right k =
     rbind (set_range font left right (k_data k)) (\<lambda>g. Inr (request QueueDraw (k\<lparr>k_data := g, k_force := True\<rparr>)))"

definition set_smaller_zoom :: "font \<Rightarrow> gtk \<Rightarrow> gtk res" where
  "set_smaller_zoom font k =
     rbind (get_attr (g_range (k_data k))) (\<lambda>(start, end).
       change_range font start (start + (end - start) * PInt 2) k)"

definition set_bigger_zoom :: "font \<Rightarrow> gtk \<Rightarrow> gtk res" where
  "set_bigger_zoom font k =
     rbind (get_attr (g_range (k_data k))) (\<lambda>(start, end).
       change_range font start (start + half (end - start)) k)"

text \<open>
  \<^verbatim>\<open>output_png\<close>: the context is opened on the window's buffer, so the commands go there and
  the surface that is written, the second component, stays empty.
\<close>

definition output_png :: "font \<Rightarrow> gtk \<Rightarrow> (gtk \<times> draw list) res" where
  "output_png font k =
     rbind (get_attr (k_buffer k)) (\<lambda>buf.
     rbind (graphic_draw font (k_data k)) (\<lambda>(ds, g).
       Inr (k\<lparr>k_data := g, k_buffer := Some (buf @ ds)\<rparr>, [])))"

definition inside :: "pynum \<Rightarrow> pynum \<Rightarrow> pynum \<Rightarrow> bool" where
  "inside a x b \<longleftrightarrow> a < x \<and> x < b"

definition near :: "pynum \<Rightarrow> pynum \<Rightarrow> bool" where
  "near a b \<longleftrightarrow> num_abs (a - b) < PInt 5"

definition button_press :: "pynum \<Rightarrow> pynum \<Rightarrow> gtk \<Rightarrow> (bool \<times> gtk) res" where
  "button_press ex ey k =
     rbind (get_selection_rectangle (k_data k)) (\<lambda>(x, y, width, height).
     rbind (get_data_rectangle (k_data k)) (\<lambda>(d_x, d_y, d_width, d_height).
       if inside y ey (y + height) \<and> near ex x then Inr (True, k\<lparr>k_moving_left := True\<rparr>)
       else if inside y ey (y + height) \<and> near ex (x + width) then Inr (True, k\<lparr>k_moving_right := True\<rparr>)
       else if inside y ey (y + height) \<and> inside x ex (x + width)
       then Inr (True, k\<lparr>k_moving_both := True, k_both_start := Some ex, k_both_cur := Some ex\<rparr>)
       else if inside d_y ey (d_y + d_height) \<and> inside d_x ex (d_x + d_width)
       then Inr (True, k\<lparr>k_moving_top := True, k_top_start := Some ex, k_top_cur := Some ex\<rparr>)
       else Inr (False, k)))"

definition button_release :: "font \<Rightarrow> gtk \<Rightarrow> (bool \<times> gtk) res" where
  "button_release font k =
     (if k_moving_left k
      then rbind (get_attr (k_left_cur k)) (\<lambda>cur.
           rbind (scale_selection cur (k_data k)) (\<lambda>left.
           rbind (get_attr (g_range (k_data k))) (\<lambda>(_, right).
           rbind (change_range font left right (k\<lparr>k_moving_left := False\<rparr>)) (\<lambda>k. Inr (True, k)))))
      else if k_moving_right k
      then rbind (get_attr (k_right_cur k)) (\<lambda>cur.
           rbind (scale_selection cur (k_data k)) (\<lambda>right.
           rbind (get_attr (g_range (k_data k))) (\<lambda>(left, _).
           rbind (change_range font left right (k\<lparr>k_moving_right := False\<rparr>)) (\<lambda>k. Inr (True, k)))))
      else if k_moving_both k
      then rbind (get_attr (k_both_cur k)) (\<lambda>cur.
           rbind (get_attr (k_both_start k)) (\<lambda>start.
           rbind (scale_selection (cur - start) (k_data k)) (\<lambda>delta.
           rbind (get_attr (g_range (k_data k))) (\<lambda>(left, right).
           rbind (change_range font (left + delta) (right + delta) (k\<lparr>k_moving_both := False\<rparr>)) (\<lambda>k. Inr (True, k))))))
      else Inr (False, k\<lparr>k_moving_top := False\<rparr>))"

definition queue_area :: "pynum \<Rightarrow> pynum \<Rightarrow> pynum \<Rightarrow> gtk \<Rightarrow> gtk" where
  "queue_area y width height k = request (QueueDrawArea 0 (num_int y) (num_int width) (num_int height)) k"

definition motion_left :: "pynum \<Rightarrow> pynum \<Rightarrow> pynum \<Rightarrow> gtk \<Rightarrow> gtk" where
  "motion_left ex x width k =
     k\<lparr>k_left_cur := Some (if ex \<le> PInt 0 then PInt 0 else if x + width \<le> ex then x + width else ex)\<rparr>"

definition motion_right :: "pynum \<Rightarrow> pynum \<Rightarrow> pynum \<Rightarrow> gtk \<Rightarrow> gtk" where
  "motion_right ex x w k =
     (if w \<le> ex then k\<lparr>k_moving_right := pval w \<noteq> 0\<rparr>
      else k\<lparr>k_right_cur := Some (if ex < x then x else ex)\<rparr>)"

definition motion_both :: "pynum \<Rightarrow> pynum \<Rightarrow> pynum \<Rightarrow> pynum \<Rightarrow> pynum \<Rightarrow> gtk \<Rightarrow> gtk" where
  "motion_both ex x width w start k =
     (let cur_e = w - (x + width - start);
          cur_s = start - x
      in k\<lparr>k_both_cur := Some (if ex < cur_s then cur_s else if cur_e < ex then cur_e else ex)\<rparr>)"

definition hover :: "pynum \<Rightarrow> pynum \<Rightarrow> pynum \<times> pynum \<times> pynum \<times> pynum \<Rightarrow> pynum \<times> pynum \<times> pynum \<times> pynum \<Rightarrow> bool \<times> cursor" where
  "hover ex ey sel dat =
     (let (x, y, width, height) = sel; (d_x, d_y, d_width, d_height) = dat in
      if inside y ey (y + height) \<and> (near ex x \<or> near ex (x + width)) then (True, DoubleArrow)
      else if inside y ey (y + height) \<and> inside x ex (x + width) then (True, Fleur)
      else if inside d_y ey (d_y + d_height) \<and> inside d_x ex (d_x + d_width) then (True, Fleur)
      else (False, NoCursor))"

definition motion_notify :: "font \<Rightarrow> pynum \<Rightarrow> pynum \<Rightarrow> gtk \<Rightarrow> (bool \<times> gtk) res" where
  "motion_notify font ex ey k =
     rbind (get_selection_rectangle (k_data k)) (\<lambda>(x, y, width, height).
       if k_moving_left k
       then rbind (get_attr (k_width k)) (\<lambda>w. Inr (True, queue_area y w height (motion_left ex x width k)))
       else if k_moving_right k
       then rbind (get_attr (k_width k)) (\<lambda>w. Inr (True, queue_area y w height (motion_right ex x w k)))
       else if k_moving_both k
       then rbind (get_attr (k_width k)) (\<lambda>w.
            rbind (get_attr (k_both_start k)) (\<lambda>start.
              Inr (True, queue_area y w height (motion_both ex x width w start k))))
       else if k_moving_top k
       then rbind (get_attr (k_top_start k)) (\<lambda>start.
            rbind (scale_data (start - ex) (k_data k)) (\<lambda>delta.
            rbind (get_attr (g_range (k_data k))) (\<lambda>(left, right).
            rbind (change_range font (left + delta) (right + delta) (k\<lparr>k_top_cur := Some ex\<rparr>)) (\<lambda>k.
              Inr (True, k\<lparr>k_top_start := Some ex\<rparr>)))))
       else rbind (get_data_rectangle (k_data k)) (\<lambda>dat.
              let (r, c) = hover ex ey (x, y, width, height) dat in Inr (r, request (SetCursor c) k)))"

definition size_allocate :: "font \<Rightarrow> pynum \<Rightarrow> pynum \<Rightarrow> gtk \<Rightarrow> gtk res" where
  "size_allocate font width height k =
     rbind (layout font width height (k_data k)) (\<lambda>g.
       Inr (request QueueDraw (k\<lparr>k_data := g, k_width := Some width, k_force := True\<rparr>)))"

definition bar :: "pynum \<Rightarrow> pynum \<Rightarrow> pynum \<Rightarrow> draw list" where
  "bar x y height = [MoveTo x y, RelLineTo (PInt 0) height, ClosePath]"

definition bar_style :: "draw list" where
  "bar_style = [SetLineWidth (PInt 1), black, Stroke]"

text \<open>\<^verbatim>\<open>expose\<close>: refresh the buffer if asked to, then the lines that follow the mouse.\<close>

definition expose :: "font \<Rightarrow> gtk \<Rightarrow> (gtk \<times> draw list) res" where
  "expose font k =
     rbind (if k_force k
            then rbind (graphic_draw font (k_data k)) (\<lambda>(ds, g). Inr (k\<lparr>k_data := g, k_buffer := Some ds, k_force := False\<rparr>))
            else Inr k) (\<lambda>k.
     rbind (get_selection_rectangle (k_data k)) (\<lambda>(x, y, width, height).
     rbind (if k_moving_left k
            then rbind (get_attr (k_left_cur k)) (\<lambda>cur. Inr (bar (num_max cur (PInt 2)) y height @ bar_style))
            else Inr []) (\<lambda>left.
     rbind (if k_moving_right k
            then rbind (get_attr (k_right_cur k)) (\<lambda>cur. rbind (get_attr (k_width k)) (\<lambda>w.
                   Inr (bar (num_min cur (w - PInt 2)) y height @ bar_style)))
            else Inr []) (\<lambda>right.
     rbind (if k_moving_both k
            then rbind (get_attr (k_both_cur k)) (\<lambda>cur. rbind (get_attr (k_both_start k)) (\<lambda>start.
                   let delta_x = cur - start
                   in Inr (bar (x + delta_x) y height @ bar (x + width + delta_x) y height
                           @ [black, SetLineWidth (PInt 1), Stroke])))
            else Inr []) (\<lambda>both. Inr (k, left @ right @ both))))))"

section \<open>The event loop\<close>

datatype gtk_event =
    ButtonPress pynum pynum
  | ButtonRelease
  | Motion pynum pynum
  | SizeAllocate pynum pynum
  | Expose
  | ZoomIn
  | ZoomOut
  | OutputPng

text \<open>The signals and the callbacks of the buttons of \<^verbatim>\<open>MainWindow\<close>.\<close>

definition handle :: "font \<Rightarrow> gtk \<Rightarrow> gtk_event \<Rightarrow> gtk res" where
  "handle font k ev =
     (case ev of
        ButtonPress x y \<Rightarrow> rbind (button_press x y k) (\<lambda>(_, k). Inr k)
      | ButtonRelease \<Rightarrow> rbind (button_release font k) (\<lambda>(_, k). Inr k)
      | Motion x y \<Rightarrow> rbind (motion_notify font x y k) (\<lambda>(_, k). Inr k)
      | SizeAllocate w h \<Rightarrow> size_allocate font w h k
      | Expose \<Rightarrow> rbind (expose font k) (\<lambda>(k, _). Inr k)
      | ZoomIn \<Rightarrow> set_bigger_zoom font k
      | ZoomOut \<Rightarrow> set_smaller_zoom font k
      | OutputPng \<Rightarrow> rbind (output_png font k) (\<lambda>(k, _). Inr k))"

end
