(* ===== verification/Grid_Main_Correct.thy ===== *)
theory Grid_Main_Correct
  imports Grid_Render_Correct Grid_Gtk
begin

text \<open>
  From the log to the first picture: the window that \<^verbatim>\<open>main\<close> of \<^verbatim>\<open>grid.py\<close> opens, the
  colours of the legend, and when the graphic can be drawn.
\<close>

section \<open>The log and its window\<close>

text \<open>Changing the object found keeps what holds of all objects.\<close>

lemma find_or_add_all:
  assumes "find_or_add name_of fresh name xs = (i, ys)" "list_all P xs" "P (fresh name)" "\<And>x. P x \<Longrightarrow> P (f x)"
  shows "list_all P (update_nth i f ys)"
proof -
  have "list_all P ys \<and> i < length ys" using assms(1-3)
    by (induction xs arbitrary: i ys) (auto split: if_splits prod.splits)
  then show ?thesis using assms(4) by (auto simp: update_nth_def list_all_length nth_list_update)
qed

definition nonneg_times :: "timeline \<Rightarrow> bool" where
  "nonneg_times t \<longleftrightarrow> list_all (\<lambda>l. list_all (\<lambda>r. 0 \<le> dr_start r) (rl_ranges l)) (tl_ranges t)
     \<and> list_all (\<lambda>l. list_all (\<lambda>e. 0 \<le> ev_at e) (el_events l)) (tl_event_str t)
     \<and> list_all (\<lambda>l. list_all (\<lambda>e. 0 \<le> ev_at e) (el_events l)) (tl_event_int t)"

lemma put_nonneg:
  "0 \<le> dr_start r \<Longrightarrow> nonneg_times t \<Longrightarrow> nonneg_times (put_range n r t)"
  "0 \<le> ev_at e \<Longrightarrow> nonneg_times t \<Longrightarrow> nonneg_times (put_str n e t)"
  "0 \<le> ev_at d \<Longrightarrow> nonneg_times t \<Longrightarrow> nonneg_times (put_int n d t)"
proof -
  show "nonneg_times (put_range n r t)" if "0 \<le> dr_start r" "nonneg_times t"
    using that find_or_add_all [of rl_name new_range_line n "tl_ranges t" _ _ "\<lambda>l. list_all (\<lambda>r. 0 \<le> dr_start r) (rl_ranges l)" "add_range r"]
    by (auto simp: nonneg_times_def put_range_def get_range_def new_range_line_def split: prod.splits)
  show "nonneg_times (put_str n e t)" if "0 \<le> ev_at e" "nonneg_times t"
    using that find_or_add_all [of el_name new_event_line n "tl_event_str t" _ _ "\<lambda>l. list_all (\<lambda>e. 0 \<le> ev_at e) (el_events l)" "add_event e"]
    by (auto simp: nonneg_times_def put_str_def get_event_str_def new_event_line_def split: prod.splits)
  show "nonneg_times (put_int n d t)" if "0 \<le> ev_at d" "nonneg_times t"
    using that find_or_add_all [of el_name new_event_line n "tl_event_int t" _ _ "\<lambda>l. list_all (\<lambda>e. 0 \<le> ev_at e) (el_events l)" "add_event d"]
    by (auto simp: nonneg_times_def put_int_def get_event_int_def new_event_line_def split: prod.splits)
qed

lemma in_timeline_nonneg:
  "list_all nonneg_times ts \<Longrightarrow> (\<And>t. nonneg_times t \<Longrightarrow> nonneg_times (f t)) \<Longrightarrow> list_all nonneg_times (in_timeline name f ts)"
  using find_or_add_all [of tl_name new_timeline name ts _ _ nonneg_times f]
  by (auto simp: in_timeline_def get_timeline_def new_timeline_def nonneg_times_def split: prod.splits)

lemma py_int_nonneg: "py_int b s = Inr n \<Longrightarrow> 0 \<le> n"
  by (auto simp: py_int_def split: option.splits)

definition log_ok :: "log \<Rightarrow> bool" where
  "log_ok st \<longleftrightarrow> list_all nonneg_times (fst st) \<and> cs_defaults (snd st) = default_colors"

lemma read_line_ok: "log_ok st \<Longrightarrow> \<exists>st'. read_line st line = Inr st' \<and> log_ok st'"
proof -
  assume st: "log_ok st"
  obtain st' where st': "read_line st line = Inr st'" using read_line_total by blast
  moreover have "log_ok st'"
    using st st' py_int_nonneg
    by (cases st)
      (force simp: log_ok_def read_line_def rbind_Inr_iff add_color_def split: option.splits prod.splits
        intro!: in_timeline_nonneg put_nonneg)
  ultimately show ?thesis by blast
qed

interpretation reading_ok: total_loop read_line log_ok "\<lambda>_. True"
  by (rule total_loopI) (use read_line_ok in auto)

lemma sort_nonneg: "nonneg_times t \<Longrightarrow> nonneg_times (sort_timeline t)"
  by (auto simp: nonneg_times_def sort_timeline_def list_all_iff sort_ranges_key sort_events_key)

lemma line_bounds_nonneg: "nonneg_times t \<Longrightarrow> b \<in> set (line_bounds t) \<Longrightarrow> 0 \<le> fst b"
  by (auto simp: nonneg_times_def line_bounds_def list_all_iff range_bounds_def event_bounds_def split: list.splits)

lemma nonneg_lower_bound:
  assumes "list_all nonneg_times ts"
  shows "fst (timelines_bounds ts) = 0"
proof -
  have "fst (timeline_bounds t) = 0" if "t \<in> set ts" for t
    using that assms line_bounds_nonneg [of t]
    by (auto simp: timeline_bounds_fold widen_fold list_all_iff intro!: Min_eqI)
  then show ?thesis by (auto simp: timelines_bounds_def widen_fold intro!: Min_eqI)
qed

lemma read_data_ok:
  assumes "read_data lines = Inr (cs, ts)"
  shows "fst (timelines_bounds ts) = 0" "0 \<le> snd (timelines_bounds ts)" "cs_defaults cs = default_colors"
proof -
  let ?init = "([], \<lparr>cs_colors = [], cs_defaults = default_colors\<rparr>) :: log"
  have "log_ok ?init" by (simp add: log_ok_def)
  then obtain st where st: "foldM read_line ?init lines = Inr st" "log_ok st"
    using reading_ok.loop_total [of ?init lines] by (auto simp: list_all_iff)
  with assms have eq: "cs = snd st" "ts = sort_timelines (fst st)" by (auto simp: read_data_def split: prod.splits)
  show "cs_defaults cs = default_colors" using st(2) by (simp add: eq log_ok_def)
  show "fst (timelines_bounds ts) = 0"
    using st(2) sort_nonneg by (intro nonneg_lower_bound) (auto simp: eq log_ok_def sort_timelines_def list_all_iff)
  show "0 \<le> snd (timelines_bounds ts)" by (simp add: timelines_bounds_def widen_fold)
qed

section \<open>The colours of the legend\<close>

abbreviation unknown :: "colors \<Rightarrow> string \<Rightarrow> bool" where
  "unknown cs n \<equiv> dict_get (cs_colors cs) n = None"

lemma lookup_all_total:
  assumes "distinct ns"
  shows "if length (filter (unknown cs) ns) \<le> length (cs_defaults cs)
    then \<exists>rs cs'. lookup_all ns cs = Inr (rs, cs') \<and> length rs = length ns \<and> (\<forall>n. unknown cs' n \<longleftrightarrow> unknown cs n \<and> n \<notin> set ns)
    else lookup_all ns cs = Inl IndexError"
  using assms
proof (induction ns arbitrary: cs)
  case (Cons n ns)
  show ?case
  proof (cases "unknown cs n")
    case False
    then obtain c where "lookup_color n cs = Inr (c, cs)" using lookup_known by blast
    with Cons.IH [of cs] Cons.prems False show ?thesis by (auto split: if_splits)
  next
    case True
    show ?thesis
    proof (cases "cs_defaults cs" rule: rev_cases)
      case Nil
      with True show ?thesis by (simp add: lookup_color_def)
    next
      case (snoc ds d)
      let ?cs = "\<lparr>cs_colors = dict_set (cs_colors cs) n d, cs_defaults = ds\<rparr>"
      have "lookup_color n cs = Inr (d, ?cs)" using lookup_color_new [of cs n] True snoc by simp
      moreover have "filter (unknown ?cs) ns = filter (unknown cs) ns"
        using Cons.prems by (intro filter_cong) auto
      ultimately show ?thesis using Cons.IH [of ?cs] Cons.prems True snoc by (auto split: if_splits)
    qed
  qed
qed simp

lemma get_all_range_values_keys:
  assumes "key_order ko"
  shows "distinct (get_all_range_values ko ts)"
    "set (get_all_range_values ko ts) = dr_value ` (\<Union>t\<in>set ts. \<Union>l\<in>set (tl_ranges t). set (rl_ranges l))"
proof -
  let ?rs = "concat (map (\<lambda>t. concat (map rl_ranges (tl_ranges t))) ts)"
  have "is_dict (foldl (\<lambda>d r. dict_set d (dr_value r) (1 :: int)) [] ?rs)"
    by (rule pydict.valid_fill) simp
  from pydict.valid_keys [OF this] show "distinct (get_all_range_values ko ts)"
    by (simp add: get_all_range_values_def key_orderD [OF assms])
  show "set (get_all_range_values ko ts) = dr_value ` (\<Union>t\<in>set ts. \<Union>l\<in>set (tl_ranges t). set (rl_ranges l))"
    using pydict.keys_fill [of dr_value "\<lambda>_. 1 :: int" ?rs]
    by (simp add: get_all_range_values_def key_orderD [OF assms] image_UN)
qed

section \<open>The graphic\<close>

text \<open>
  The state of a graphic after \<^verbatim>\<open>set_range\<close>: the window lies within the bounds, the data
  and the middle scale use it, and the layout is the one for the current size.
\<close>

definition window_ok :: "font \<Rightarrow> graphic \<Rightarrow> bool" where
  "window_ok font g \<longleftrightarrow>
     (\<exists>lo hi a b. sc_bounds (g_bot g) = Some (lo, hi) \<and> g_start g = num_float lo \<and> g_end g = num_float hi
        \<and> g_range g = Some (a, b) \<and> dv_range (g_data g) = Some (a, b) \<and> sc_bounds (g_mid g) = Some (a, b)
        \<and> pval lo \<le> pval a \<and> pval b \<le> pval hi)
     \<and> layout font (g_width g) (g_height g) g = Inr g"

text \<open>What no operation on a graphic changes.\<close>

definition same_data :: "graphic \<Rightarrow> graphic \<Rightarrow> bool" where
  "same_data g g' \<longleftrightarrow> g_legend g' = g_legend g \<and> dv_timelines (g_data g') = dv_timelines (g_data g)
     \<and> dv_colors (g_data g') = dv_colors (g_data g) \<and> g_bot g' = g_bot g \<and> g_start g' = g_start g \<and> g_end g' = g_end g"

lemma layout_cases:
  assumes "layout font w h g = Inr g'"
  obtains l where "g' = g\<lparr>g_width := w, g_height := h, g_layout := Some l\<rparr>" "layout font w h g' = Inr g'"
  using assms by (fastforce simp: layout_def rbind_Inr_iff Let_def)

lemma layout_window:
  assumes "layout font w h g = Inr g'" "window_ok font g"
  shows "window_ok font g'" "same_data g g'" "g_range g' = g_range g"
proof -
  obtain l where l: "g' = g\<lparr>g_width := w, g_height := h, g_layout := Some l\<rparr>" "layout font w h g' = Inr g'"
    by (rule layout_cases [OF assms(1)])
  then have "layout font (g_width g') (g_height g') g' = Inr g'" by simp
  with assms(2) show "window_ok font g'" by (simp add: window_ok_def l(1))
  show "same_data g g'" "g_range g' = g_range g" by (simp_all add: same_data_def l(1))
qed

text \<open>What \<^verbatim>\<open>set_range\<close> makes of its arguments.\<close>

definition clamp :: "graphic \<Rightarrow> pynum \<Rightarrow> pynum \<Rightarrow> pynum \<times> pynum" where
  "clamp g start end = (num_max (g_start g) (num_min start end), num_min (g_end g) (num_max start end))"

lemma set_range_window:
  assumes "set_range font start end g = Inr g'"
    and "sc_bounds (g_bot g) = Some (lo, hi)" "g_start g = num_float lo" "g_end g = num_float hi"
  shows "window_ok font g'" "same_data g g'" "g_range g' = Some (clamp g start end)" "g_width g' = g_width g" "g_height g' = g_height g"
proof -
  let ?g = "g\<lparr>g_range := Some (clamp g start end), g_data := set_render_range (fst (clamp g start end)) (snd (clamp g start end)) (g_data g),
      g_mid := set_bounds (fst (clamp g start end)) (snd (clamp g start end)) (g_mid g)\<rparr>"
  have "layout font (g_width g) (g_height g) ?g = Inr g'" using assms(1) by (simp add: set_range_def clamp_def Let_def)
  then obtain l where l: "g' = ?g\<lparr>g_width := g_width g, g_height := g_height g, g_layout := Some l\<rparr>" "layout font (g_width g) (g_height g) g' = Inr g'"
    by (rule layout_cases)
  then have *: "layout font (g_width g') (g_height g') g' = Inr g'" by simp
  have "pval lo \<le> pval (fst (clamp g start end))" "pval (snd (clamp g start end)) \<le> pval hi"
    by (simp_all add: clamp_def assms(3,4))
  with * assms(2-4) show "window_ok font g'"
    by (cases "clamp g start end") (simp add: window_ok_def l(1) set_bounds_def set_render_range_def)
  show "same_data g g'" "g_range g' = Some (clamp g start end)" "g_width g' = g_width g" "g_height g' = g_height g"
    by (simp_all add: same_data_def l(1) set_render_range_def)
qed

text \<open>What drawing a graphic needs beyond a window.\<close>

definition all_colored :: "graphic \<Rightarrow> bool" where
  "all_colored g \<longleftrightarrow> length (lg_legends (g_legend g)) \<le> length (lg_colors (g_legend g)) \<and>
     (\<forall>t\<in>set (dv_timelines (g_data g)). \<forall>r\<in>set (tl_ranges t). colored (dv_colors (g_data g)) (rl_ranges r))"

text \<open>The layout is the one for the current size.\<close>

lemma layout_fixed:
  "layout font (g_width g) (g_height g) g = Inr g \<longleftrightarrow>
     (\<exists>mid bot. layout_scale font (g_mid g) (g_width g - get_data_x_start (g_data g) (layout_data font (g_data g) (g_width g))) = Inr mid
        \<and> layout_scale font (g_bot g) (g_width g) = Inr bot
        \<and> g_layout g = Some \<lparr>ly_legend_height = layout_legend font (g_legend g) (g_width g),
            ly_data = layout_data font (g_data g) (g_width g), ly_mid = mid, ly_bot = bot\<rparr>)" (is "?L \<longleftrightarrow> ?R")
proof
  assume ?L
  then obtain mid bot where s: "layout_scale font (g_mid g) (g_width g - get_data_x_start (g_data g) (layout_data font (g_data g) (g_width g))) = Inr mid"
      "layout_scale font (g_bot g) (g_width g) = Inr bot"
    and g: "g = g\<lparr>g_width := g_width g, g_height := g_height g, g_layout := Some \<lparr>ly_legend_height = layout_legend font (g_legend g) (g_width g),
        ly_data = layout_data font (g_data g) (g_width g), ly_mid = mid, ly_bot = bot\<rparr>\<rparr>"
    by (auto simp: layout_def rbind_Inr_iff Let_def)
  have "g_layout g = Some \<lparr>ly_legend_height = layout_legend font (g_legend g) (g_width g),
      ly_data = layout_data font (g_data g) (g_width g), ly_mid = mid, ly_bot = bot\<rparr>"
    using arg_cong [OF g, of g_layout] by simp
  with s show ?R by blast
qed (auto simp: layout_def)

lemma layout_scales:
  assumes "layout font (g_width g) (g_height g) g = Inr g"
  obtains l where "g_layout g = Some l" "layout_scale font (g_mid g) (g_width g - get_data_x_start (g_data g) (ly_data l)) = Inr (ly_mid l)"
    "layout_scale font (g_bot g) (g_width g) = Inr (ly_bot l)"
  using assms unfolding layout_fixed by fastforce

lemma graphic_draw_total:
  assumes win: "window_ok font g" and range: "g_range g = Some (a, b)" "pval a \<noteq> pval b"
    and bot: "sc_bounds (g_bot g) = Some (lo, hi)" "pval lo \<noteq> pval hi" and col: "all_colored g"
  shows "\<exists>ds. graphic_draw font g = Inr (ds, g)"
proof -
  have w: "dv_range (g_data g) = Some (a, b)" "sc_bounds (g_mid g) = Some (a, b)" "layout font (g_width g) (g_height g) g = Inr g"
    using win range(1) by (auto simp: window_ok_def)
  obtain l where l: "g_layout g = Some l" "layout_scale font (g_mid g) (g_width g - get_data_x_start (g_data g) (ly_data l)) = Inr (ly_mid l)"
    "layout_scale font (g_bot g) (g_width g) = Inr (ly_bot l)" by (rule layout_scales [OF w(3)])
  obtain legend where "legend_draw font (g_legend g) (g_width g) = Inr legend"
    using col by (auto simp: legend_draw_def legend_draw_loop_items all_colored_def)
  moreover obtain data where "data_draw font (g_data g) (ly_data l) = Inr (data, dv_colors (g_data g))"
    using data_draw_total [of "g_data g" font "ly_data l"] col w(1) range(2) by (auto simp: drawable_def all_colored_def)
  moreover obtain mid where "scale_draw font (g_mid g) (ly_mid l) = Inr mid" using scale_draw_total [OF w(2) range(2) l(2)] by blast
  moreover obtain botd where "scale_draw font (g_bot g) (ly_bot l) = Inr botd" using scale_draw_total [OF bot l(3)] by blast
  moreover obtain p q where "get_position (g_bot g) (ly_bot l) a = Inr p" "get_position (g_bot g) (ly_bot l) b = Inr q"
    using get_position_ok [OF bot] by blast
  ultimately show ?thesis using l(1) range(1) by (simp add: graphic_draw_def get_attr_def Let_def)
qed

lemma expose_total:
  assumes "graphic_draw font (k_data k) = Inr (ds, k_data k)" "window_ok font (k_data k)"
    and "sc_bounds (g_bot (k_data k)) = Some (lo, hi)" "pval lo \<noteq> pval hi"
    and "k_force k" "\<not> k_moving_left k" "\<not> k_moving_right k" "\<not> k_moving_both k"
  shows "expose font k = Inr (k\<lparr>k_buffer := Some ds, k_force := False\<rparr>, [])"
proof -
  obtain l where "g_layout (k_data k) = Some l" using assms(2) by (auto simp: window_ok_def elim: layout_scales)
  moreover obtain a b where "g_range (k_data k) = Some (a, b)" using assms(2) by (auto simp: window_ok_def)
  moreover obtain p q where "get_position (g_bot (k_data k)) (ly_bot l) a = Inr p" "get_position (g_bot (k_data k)) (ly_bot l) b = Inr q"
    using get_position_ok [OF assms(3,4)] by blast
  ultimately show ?thesis using assms by (simp add: expose_def get_selection_rectangle_def get_attr_def Let_def)
qed

section \<open>The first picture\<close>

text \<open>Layout fails only when the bounds of a scale are one apart.\<close>

lemma layout_result:
  assumes "sc_bounds (g_mid g) = Some (a, b)" "sc_bounds (g_bot g) = Some (lo, hi)"
  shows "if pval (b - a) = 1 \<or> pval (hi - lo) = 1 then layout font w h g = Inl ZeroDivisionError else \<exists>g'. layout font w h g = Inr g'"
proof -
  let ?w = "w - get_data_x_start (g_data g) (layout_data font (g_data g) w)"
  show ?thesis
    using layout_scale_total [OF assms(1), of font ?w] layout_scale_one [OF assms(1), of font ?w]
      layout_scale_total [OF assms(2), of font w] layout_scale_one [OF assms(2), of font w]
    by (cases "pval (b - a) = 1"; cases "pval (hi - lo) = 1") (auto simp: layout_def Let_def)
qed

lemma set_range_result:
  assumes "sc_bounds (g_bot g) = Some (lo, hi)" "clamp g start end = (c, d)"
  shows "if pval (d - c) = 1 \<or> pval (hi - lo) = 1 then set_range font start end g = Inl ZeroDivisionError
    else \<exists>g'. set_range font start end g = Inr g'"
proof -
  let ?g = "g\<lparr>g_range := Some (c, d), g_data := set_render_range c d (g_data g), g_mid := set_bounds c d (g_mid g)\<rparr>"
  have "set_range font start end g = layout font (g_width g) (g_height g) ?g"
    using assms(2) by (auto simp: set_range_def clamp_def Let_def)
  then show ?thesis
    using layout_result [of ?g c d lo hi font "g_width g" "g_height g"] assms(1) by (simp only:) (simp add: set_bounds_def)
qed

text \<open>The middle tenth of the log.\<close>

definition first_window :: "int \<Rightarrow> int \<times> int" where
  "first_window upper = (upper div 2 - upper div 10 div 2, upper div 2 + upper div 10 div 2)"

lemma first_window_bounds:
  assumes "0 \<le> upper" "first_window upper = (a, b)"
  shows "0 \<le> a" "a \<le> b" "b \<le> upper" "b - a \<noteq> 1" "20 \<le> upper \<Longrightarrow> a < b"
proof -
  have ab: "a = upper div 2 - upper div 10 div 2" "b = upper div 2 + upper div 10 div 2" using assms(2) by (auto simp: first_window_def)
  have "0 \<le> upper div 10 div 2" using assms(1) by (simp add: pos_imp_zdiv_nonneg_iff)
  moreover have "upper div 10 div 2 \<le> upper div 2" using assms(1) by (intro zdiv_mono1) simp_all
  ultimately show "0 \<le> a" "a \<le> b" "b \<le> upper" unfolding ab using assms(1) by auto
  have "even (b - a)" by (simp add: ab)
  then show "b - a \<noteq> 1" by (metis odd_one)
  show "a < b" if "20 \<le> upper" using that unfolding ab by linarith
qed

lemma clamp_inside:
  assumes "of_int lo \<le> pval (PInt a)" "a \<le> b" "b \<le> hi" "g_start g = PFloat (of_int lo)" "g_end g = PFloat (of_int hi)"
  shows "pval (fst (clamp g (PInt a) (PInt b))) = of_int a" "pval (snd (clamp g (PInt a) (PInt b))) = of_int b"
  using assms by (auto simp: clamp_def)

text \<open>\<^verbatim>\<open>set_range\<close> on the graphic that \<^verbatim>\<open>main\<close> builds.\<close>

lemma set_first_window:
  assumes "0 \<le> upper" "first_window upper = (a, b)"
    and g: "g = new_graphic (PInt 0) (PInt upper) data legend"
  shows "if upper = 1 then set_range font (PInt a) (PInt b) g = Inl ZeroDivisionError
    else \<exists>g'. set_range font (PInt a) (PInt b) g = Inr g' \<and> window_ok font g' \<and> same_data g g'
      \<and> (\<exists>c d. g_range g' = Some (c, d) \<and> pval c = of_int a \<and> pval d = of_int b)"
proof -
  obtain c d where cd: "clamp g (PInt a) (PInt b) = (c, d)" by fastforce
  have bot: "sc_bounds (g_bot g) = Some (PInt 0, PInt upper)" "g_start g = num_float (PInt 0)" "g_end g = num_float (PInt upper)"
    by (simp_all add: g new_graphic_def set_bounds_def num_float_def)
  have v: "pval c = of_int a" "pval d = of_int b"
    using first_window_bounds [OF assms(1,2)] clamp_inside [of 0 a b upper g] by (simp_all add: bot num_float_def cd)
  have "(of_int (b - a) :: rat) \<noteq> of_int 1" using first_window_bounds(4) [OF assms(1,2)] by (simp only: of_int_eq_iff) simp
  then have ne: "pval (d - c) \<noteq> 1" by (simp add: v)
  have one: "pval (PInt upper - PInt 0) = 1 \<longleftrightarrow> upper = 1" by simp
  have "if upper = 1 then set_range font (PInt a) (PInt b) g = Inl ZeroDivisionError else \<exists>g'. set_range font (PInt a) (PInt b) g = Inr g'"
    using set_range_result [OF bot(1) cd, of font] ne by (simp only: one) simp
  with set_range_window [OF _ bot] v show ?thesis unfolding cd by (metis cd)
qed

lemma first_picture:
  assumes "window_ok font g" "all_colored g" "sc_bounds (g_bot g) = Some (PInt 0, PInt upper)" "20 \<le> upper"
    and "g_range g = Some (c, d)" "pval c \<noteq> pval d" "pval (d - c) \<noteq> 1"
  shows "\<exists>k ds. size_allocate font w h (new_gtk g) = Inr k \<and> expose font k = Inr (k\<lparr>k_buffer := Some ds, k_force := False\<rparr>, [])"
proof -
  have "sc_bounds (g_mid g) = Some (c, d)" using assms(1,5) by (auto simp: window_ok_def)
  from layout_result [OF this assms(3), of font w h] assms(4,7) obtain g' where l: "layout font w h g = Inr g'" by auto
  note lw = layout_window [OF l assms(1)]
  have bot: "sc_bounds (g_bot g') = Some (PInt 0, PInt upper)" and "all_colored g'"
    using lw(2) assms(2,3) by (simp_all add: same_data_def all_colored_def)
  with graphic_draw_total [OF lw(1) _ assms(6) bot] lw(3) assms(4,5) obtain ds where ds: "graphic_draw font g' = Inr (ds, g')" by auto
  let ?k = "request QueueDraw ((new_gtk g)\<lparr>k_data := g', k_width := Some w, k_force := True\<rparr>)"
  have "size_allocate font w h (new_gtk g) = Inr ?k" using l by (simp add: size_allocate_def new_gtk_def)
  moreover have "expose font ?k = Inr (?k\<lparr>k_buffer := Some ds, k_force := False\<rparr>, [])"
    using ds lw(1) bot assms(4) by (intro expose_total [of font ?k ds "PInt 0" "PInt upper"]) (simp_all add: request_def new_gtk_def)
  ultimately show ?thesis by blast
qed

text \<open>
  C10: What becomes of a log.  When its range values need more than the six default colours,
  \<^verbatim>\<open>main\<close> ends with an \<^verbatim>\<open>IndexError\<close>; when it is one tick long, with a
  \<^verbatim>\<open>ZeroDivisionError\<close>.  Every other log gives a graphic whose window is the middle tenth
  of the log.  From 20 ticks on the first allocation of any size and the first exposure then
  succeed: the whole graphic is drawn into the buffer, no callback raises and the table of
  colours is not changed by drawing.
\<close>

theorem main_shows_log:
  assumes ko: "key_order ko" and read: "read_data lines = Inr (cs, ts)"
    and upper: "snd (timelines_bounds ts) = upper"
  shows "if 6 < length (filter (unknown cs) (get_all_range_values ko ts)) then main_graphic font ko lines = Inl IndexError
    else if upper = 1 then main_graphic font ko lines = Inl ZeroDivisionError
    else \<exists>g a b. main_graphic font ko lines = Inr g \<and> window_ok font g
      \<and> g_range g = Some (a, b) \<and> (pval a, pval b) = map_prod of_int of_int (first_window upper)
      \<and> (20 \<le> upper \<longrightarrow> (\<forall>w h. \<exists>k ds. size_allocate font w h (new_gtk g) = Inr k \<and>
            expose font k = Inr (k\<lparr>k_buffer := Some ds, k_force := False\<rparr>, [])))"
proof -
  let ?vs = "get_all_range_values ko ts"
  obtain a b where w: "first_window upper = (a, b)" by fastforce
  note log = read_data_ok [OF read]
  have bounds: "timelines_bounds ts = (0, upper)" using log(1) upper by (metis prod.collapse)
  have six: "length (cs_defaults cs) = 6" by (simp add: log(3) default_colors_def)
  note look = lookup_all_total [OF get_all_range_values_keys(1) [OF ko, of ts], of cs, unfolded six]
  show ?thesis
  proof (cases "6 < length (filter (unknown cs) ?vs)")
    case True
    with look show ?thesis by (simp add: main_graphic_def read bounds)
  next
    case False
    with look obtain rs cs' where rs: "lookup_all ?vs cs = Inr (rs, cs')" "length rs = length ?vs"
        "\<And>n. n \<in> set ?vs \<Longrightarrow> \<not> unknown cs' n" by (auto simp: not_less)
    define g where "g = new_graphic (PInt 0) (PInt upper) (new_data_view ts cs') (new_legend ?vs rs)"
    have main: "main_graphic font ko lines = set_range font (PInt a) (PInt b) g"
      using w by (simp add: main_graphic_def read bounds rs(1) g_def first_window_def Let_def)
    have g_col: "all_colored g" using rs(2,3) get_all_range_values_keys(2) [OF ko, of ts]
      by (force simp: all_colored_def g_def new_graphic_def new_data_view_def new_legend_def colored_def)
    note fw = set_first_window [OF _ w g_def, of font] log(2)
    show ?thesis
    proof (cases "upper = 1")
      case True
      with fw False show ?thesis by (simp add: main upper)
    next
      case ne1: False
      with fw obtain g' c d where g': "set_range font (PInt a) (PInt b) g = Inr g'" "window_ok font g'" "same_data g g'"
        "g_range g' = Some (c, d)" "pval c = of_int a" "pval d = of_int b" by (auto simp: upper)
      have same: "all_colored g'" "sc_bounds (g_bot g') = Some (PInt 0, PInt upper)"
        using g'(3) g_col by (simp_all add: all_colored_def same_data_def g_def new_graphic_def set_bounds_def)
      have "\<exists>k ds. size_allocate font x y (new_gtk g') = Inr k \<and> expose font k = Inr (k\<lparr>k_buffer := Some ds, k_force := False\<rparr>, [])"
        if "20 \<le> upper" for x y
      proof (rule first_picture [OF g'(2) same that g'(4)])
        have "a < b" "b - a \<noteq> 1" using first_window_bounds [OF _ w] that by auto
        then show "pval c \<noteq> pval d" "pval (d - c) \<noteq> 1" using g'(5,6) by (simp_all flip: of_int_diff)
      qed
      with g' False ne1 w show ?thesis by (auto simp: main)
    qed
  qed
qed

definition example_log :: "string list" where
  "example_log = [''range node state idle 0 40'', ''event-int node queue 3 15'']"

definition example_timelines :: timelines where
  "example_timelines =
     [\<lparr>tl_ranges = [\<lparr>rl_name = ''state'', rl_ranges = [\<lparr>dr_start = 0, dr_end = 40, dr_value = ''idle''\<rparr>]\<rparr>],
       tl_event_str = [], tl_event_int = [\<lparr>el_name = ''queue'', el_events = [\<lparr>ev_at = 15, ev_value = 3\<rparr>]\<rparr>], tl_name = ''node''\<rparr>]"

lemma example_log_read:
  "read_data example_log = Inr (\<lparr>cs_colors = [], cs_defaults = default_colors\<rparr>, example_timelines)"
  by code_simp

theorem main_shows_log_witness:
  "key_order (\<lambda>ks :: string list. ks) \<and> snd (timelines_bounds example_timelines) = 40 \<and>
   (\<exists>g k ds. main_graphic example_font (\<lambda>ks. ks) example_log = Inr g \<and> size_allocate example_font (PInt 400) (PInt 300) (new_gtk g) = Inr k \<and>
      expose example_font k = Inr (k\<lparr>k_buffer := Some ds, k_force := False\<rparr>, []))"
proof -
  have ko: "key_order (\<lambda>ks :: string list. ks)" by (simp add: key_order_def)
  have up: "snd (timelines_bounds example_timelines) = 40" by code_simp
  have few: "\<not> 6 < length (filter (unknown \<lparr>cs_colors = [], cs_defaults = default_colors\<rparr>) (get_all_range_values (\<lambda>ks. ks) example_timelines))"
    by code_simp
  from main_shows_log [OF ko example_log_read up, of example_font] few ko up show ?thesis by auto
qed

end
