(* ===== verification/Grid_Gtk_Correct.thy ===== *)
theory Grid_Gtk_Correct
  imports Grid_Main_Correct
begin

text \<open>
  Sessions with the window of the timeline viewer: what holds in every state that the
  callbacks can reach, and what dragging an edge of the selection does.
\<close>

section \<open>Sessions\<close>

text \<open>
  Whether the mouse button is down after an event; the window system does not send a press
  while it is down, nor a release while it is up.
\<close>

fun button :: "gtk_event \<Rightarrow> bool \<Rightarrow> bool option" where
  "button (ButtonPress x y) down = (if down then None else Some True)"
| "button ButtonRelease down = (if down then Some False else None)"
| "button _ down = Some down"

inductive session :: "font \<Rightarrow> graphic \<Rightarrow> gtk \<Rightarrow> bool \<Rightarrow> bool" for font g where
  session_start: "session font g (new_gtk g) False"
| session_step: "session font g k down \<Longrightarrow> button ev down = Some down' \<Longrightarrow> handle font k ev = Inr k' \<Longrightarrow> session font g k' down'"

text \<open>The drags in progress.\<close>

definition drags :: "gtk \<Rightarrow> nat" where
  "drags k = of_bool (k_moving_left k) + of_bool (k_moving_right k) + of_bool (k_moving_both k) + of_bool (k_moving_top k)"

definition same_log :: "graphic \<Rightarrow> graphic \<Rightarrow> bool" where
  "same_log g g' \<longleftrightarrow> g_legend g' = g_legend g \<and> dv_timelines (g_data g') = dv_timelines (g_data g)
     \<and> g_bot g' = g_bot g \<and> g_start g' = g_start g \<and> g_end g' = g_end g"

definition gtk_ok :: "font \<Rightarrow> graphic \<Rightarrow> bool \<Rightarrow> gtk \<Rightarrow> bool" where
  "gtk_ok font g down k \<longleftrightarrow>
     window_ok font (k_data k) \<and> same_log g (k_data k)
     \<and> (k_width k = None \<or> k_width k = Some (g_width (k_data k)))
     \<and> drags k \<le> (if down then 1 else 0)
     \<and> (k_moving_both k \<longrightarrow> k_both_start k \<noteq> None \<and> k_both_cur k \<noteq> None)
     \<and> (k_moving_top k \<longrightarrow> k_top_start k \<noteq> None)
     \<and> (k_force k \<or> k_buffer k \<noteq> None)"

lemma same_log_refl [simp]: "same_log g g"
  by (simp add: same_log_def)

lemma same_log_data: "same_log g g1 \<Longrightarrow> same_data g1 g2 \<Longrightarrow> same_log g g2"
  by (simp add: same_log_def same_data_def)

text \<open>A change of the range keeps the drags and gives a window again.\<close>

lemma change_range_cases:
  assumes "change_range font left right k = Inr k'" "window_ok font (k_data k)"
  obtains g where "k' = request QueueDraw (k\<lparr>k_data := g, k_force := True\<rparr>)" "window_ok font g" "same_data (k_data k) g"
    "g_range g = Some (clamp (k_data k) left right)" "g_width g = g_width (k_data k)"
proof -
  obtain g where g: "set_range font left right (k_data k) = Inr g" "k' = request QueueDraw (k\<lparr>k_data := g, k_force := True\<rparr>)"
    using assms(1) by (auto simp: change_range_def rbind_Inr_iff)
  obtain lo hi where "sc_bounds (g_bot (k_data k)) = Some (lo, hi)" "g_start (k_data k) = num_float lo" "g_end (k_data k) = num_float hi"
    using assms(2) by (auto simp: window_ok_def)
  from set_range_window [OF g(1) this] g(2) that show ?thesis by blast
qed

lemma gtk_ok_change_range:
  assumes "change_range font left right k = Inr k'" "gtk_ok font g down k"
  shows "gtk_ok font g down k'"
proof -
  have "window_ok font (k_data k)" using assms(2) by (simp add: gtk_ok_def)
  then obtain g' where g': "k' = request QueueDraw (k\<lparr>k_data := g', k_force := True\<rparr>)" "window_ok font g'" "same_data (k_data k) g'"
    "g_width g' = g_width (k_data k)"
    using change_range_cases [OF assms(1)] by metis
  with assms(2) same_log_data [OF _ g'(3), of g] show ?thesis by (simp add: gtk_ok_def request_def drags_def)
qed

lemma window_ok_colors:
  assumes "window_ok font g"
  shows "window_ok font (g\<lparr>g_data := (g_data g)\<lparr>dv_colors := cs\<rparr>\<rparr>)" (is "window_ok font ?g")
proof -
  have "layout_data font (g_data ?g) = layout_data font (g_data g)" "get_data_x_start (g_data ?g) = get_data_x_start (g_data g)"
    by (simp_all add: layout_data_def get_data_x_start_def Let_def fun_eq_iff)
  then have "layout font (g_width ?g) (g_height ?g) ?g = Inr ?g"
    using assms unfolding window_ok_def layout_fixed by simp
  with assms show ?thesis by (simp add: window_ok_def)
qed

lemma graphic_draw_keeps:
  assumes "graphic_draw font g = Inr (ds, g')" "window_ok font g"
  shows "window_ok font g'" "same_log g g'" "g_width g' = g_width g"
proof -
  obtain cs where "g' = g\<lparr>g_data := (g_data g)\<lparr>dv_colors := cs\<rparr>\<rparr>"
    using assms(1) by (auto simp: graphic_draw_def rbind_Inr_iff Let_def split: prod.splits)
  with window_ok_colors [OF assms(2)] show "window_ok font g'" "same_log g g'" "g_width g' = g_width g"
    by (simp_all add: same_log_def)
qed

text \<open>Every callback keeps the invariant.\<close>

lemma button_press_cases:
  assumes "button_press x y k = Inr (r, k')"
  obtains "k' = k" | "k' = k\<lparr>k_moving_left := True\<rparr>" | "k' = k\<lparr>k_moving_right := True\<rparr>"
  | "k' = k\<lparr>k_moving_both := True, k_both_start := Some x, k_both_cur := Some x\<rparr>"
  | "k' = k\<lparr>k_moving_top := True, k_top_start := Some x, k_top_cur := Some x\<rparr>"
  using assms by (auto simp: button_press_def rbind_Inr_iff split: if_splits)

lemma gtk_ok_press:
  assumes "button_press x y k = Inr (r, k')" "gtk_ok font g False k"
  shows "gtk_ok font g True k'"
  using assms(1) by (rule button_press_cases) (use assms(2) in \<open>auto simp: gtk_ok_def drags_def\<close>)

lemma gtk_ok_drop:
  assumes "gtk_ok font g down k"
  shows "k_moving_left k \<Longrightarrow> gtk_ok font g False (k\<lparr>k_moving_left := False\<rparr>)"
    "k_moving_right k \<Longrightarrow> gtk_ok font g False (k\<lparr>k_moving_right := False\<rparr>)"
    "k_moving_both k \<Longrightarrow> gtk_ok font g False (k\<lparr>k_moving_both := False\<rparr>)"
    "\<not> k_moving_left k \<Longrightarrow> \<not> k_moving_right k \<Longrightarrow> \<not> k_moving_both k \<Longrightarrow> gtk_ok font g False (k\<lparr>k_moving_top := False\<rparr>)"
  using assms by (auto simp: gtk_ok_def drags_def split: if_splits)

lemma gtk_ok_release:
  assumes "button_release font k = Inr (r, k')" "gtk_ok font g down k"
  shows "gtk_ok font g False k'"
  using assms gtk_ok_drop [OF assms(2)]
  by (auto simp: button_release_def rbind_Inr_iff split: if_splits intro: gtk_ok_change_range)

lemma gtk_ok_request: "gtk_ok font g down (request r k) = gtk_ok font g down k"
  by (simp add: gtk_ok_def request_def drags_def)

lemma gtk_ok_cursor:
  assumes "gtk_ok font g down k"
  shows "gtk_ok font g down (motion_left ex x width k)" "gtk_ok font g down (motion_both ex x width w start k)"
    "gtk_ok font g down (k\<lparr>k_top_cur := Some ex\<rparr>)" "gtk_ok font g down (k\<lparr>k_top_start := Some ex\<rparr>)"
  using assms by (simp_all add: gtk_ok_def drags_def motion_left_def motion_both_def Let_def)

lemma gtk_ok_motion_right:
  assumes "gtk_ok font g down k" "k_moving_right k"
  shows "gtk_ok font g down (motion_right ex x w k)"
proof (cases "w \<le> ex")
  case True
  then have "drags (motion_right ex x w k) \<le> drags k" using assms(2) by (simp add: drags_def motion_right_def)
  with assms(1) True show ?thesis by (simp add: gtk_ok_def motion_right_def)
qed (use assms in \<open>simp add: gtk_ok_def drags_def motion_right_def\<close>)

lemma gtk_ok_motion:
  assumes "motion_notify font x y k = Inr (r, k')" "gtk_ok font g down k"
  shows "gtk_ok font g down k'"
proof -
  note keep = gtk_ok_cursor [OF assms(2)] gtk_ok_motion_right [OF assms(2)] gtk_ok_change_range gtk_ok_cursor(4) assms(2)
  obtain sel where sel: "get_selection_rectangle (k_data k) = Inr sel"
    using assms(1) by (auto simp: motion_notify_def rbind_Inr_iff)
  consider "k_moving_left k" | "\<not> k_moving_left k" "k_moving_right k" | "\<not> k_moving_left k" "\<not> k_moving_right k" "k_moving_both k"
    | "\<not> k_moving_left k" "\<not> k_moving_right k" "\<not> k_moving_both k" "k_moving_top k"
    | "\<not> k_moving_left k" "\<not> k_moving_right k" "\<not> k_moving_both k" "\<not> k_moving_top k" by blast
  then show ?thesis
  proof cases
    case 4
    with assms(1) sel keep show ?thesis
      by (auto simp: motion_notify_def rbind_Inr_iff split: prod.splits)
  next
    case 5
    with assms show ?thesis by (auto simp: motion_notify_def rbind_Inr_iff Let_def split_def gtk_ok_request)
  qed (use assms(1) sel keep in \<open>auto simp: motion_notify_def rbind_Inr_iff queue_area_def gtk_ok_request split: prod.splits\<close>)
qed

lemma gtk_ok_size_allocate:
  assumes "size_allocate font w h k = Inr k'" "gtk_ok font g down k"
  shows "gtk_ok font g down k'"
proof -
  obtain g' where g': "layout font w h (k_data k) = Inr g'" "k' = request QueueDraw (k\<lparr>k_data := g', k_width := Some w, k_force := True\<rparr>)"
    using assms(1) by (auto simp: size_allocate_def rbind_Inr_iff)
  have "window_ok font (k_data k)" using assms(2) by (simp add: gtk_ok_def)
  note lw = layout_window [OF g'(1) this]
  have "g_width g' = w" using layout_cases [OF g'(1)] by force
  with lw(1) same_log_data [OF _ lw(2), of g] assms(2) g'(2) show ?thesis by (simp add: gtk_ok_def request_def drags_def)
qed

text \<open>Drawing leaves the window alone, in \<^verbatim>\<open>expose\<close> and in \<^verbatim>\<open>output_png\<close>.\<close>

lemma same_log_trans: "same_log a b \<Longrightarrow> same_log b c \<Longrightarrow> same_log a c"
  by (simp add: same_log_def)

lemma gtk_ok_draw:
  assumes "graphic_draw font (k_data k) = Inr (ds, g')" "gtk_ok font g down k"
  shows "gtk_ok font g down (k\<lparr>k_data := g', k_buffer := Some ds'\<rparr>)" "gtk_ok font g down (k\<lparr>k_data := g', k_buffer := Some ds', k_force := False\<rparr>)"
proof -
  have "window_ok font (k_data k)" "same_log g (k_data k)" using assms(2) by (simp_all add: gtk_ok_def)
  note dk = graphic_draw_keeps [OF assms(1) this(1)] this(2)
  show "gtk_ok font g down (k\<lparr>k_data := g', k_buffer := Some ds'\<rparr>)" "gtk_ok font g down (k\<lparr>k_data := g', k_buffer := Some ds', k_force := False\<rparr>)"
    using dk(1,3) same_log_trans [OF dk(4,2)] assms(2) by (simp_all add: gtk_ok_def drags_def)
qed

lemma gtk_ok_expose:
  assumes "expose font k = Inr (k', ds)" "gtk_ok font g down k"
  shows "gtk_ok font g down k'"
  using assms gtk_ok_draw(2) by (fastforce simp: expose_def rbind_Inr_iff split: if_splits prod.splits)

lemma gtk_ok_handle:
  assumes "handle font k ev = Inr k'" "button ev down = Some down'" "gtk_ok font g down k"
  shows "gtk_ok font g down' k'"
proof (cases ev)
  case OutputPng
  with assms gtk_ok_draw(1) show ?thesis by (fastforce simp: handle_def output_png_def rbind_Inr_iff split: prod.splits)
next
  case (ButtonPress x y)
  with assms gtk_ok_press show ?thesis by (auto simp: handle_def rbind_Inr_iff split: if_splits)
next
  case ZoomIn
  with assms gtk_ok_change_range show ?thesis by (auto simp: handle_def set_bigger_zoom_def rbind_Inr_iff split: prod.splits)
next
  case ZoomOut
  with assms gtk_ok_change_range show ?thesis by (auto simp: handle_def set_smaller_zoom_def rbind_Inr_iff split: prod.splits)
qed (use assms gtk_ok_release gtk_ok_motion gtk_ok_size_allocate gtk_ok_expose in \<open>auto simp: handle_def rbind_Inr_iff split: if_splits\<close>)

section \<open>Dragging\<close>

lemma gtk_ok_idle:
  "gtk_ok font g False k \<Longrightarrow> \<not> k_moving_left k \<and> \<not> k_moving_right k \<and> \<not> k_moving_both k \<and> \<not> k_moving_top k"
  by (auto simp: gtk_ok_def drags_def)

text \<open>The positions of the edges of the selection, for a log that starts at 0.\<close>

lemma position_from_zero:
  assumes "sc_bounds s = Some (PInt 0, PInt upper)" "0 < upper"
  shows "get_position s l (PFloat t) = Inr p \<Longrightarrow> pval p = t * pval (sl_width l) / of_int upper"
    and "get_position s l x = Inr q \<Longrightarrow> pval q \<le> pval x * pval (sl_width l) / of_int upper"
proof -
  show "pval p = t * pval (sl_width l) / of_int upper" if "get_position s l (PFloat t) = Inr p"
    using that assms by (cases "sl_width l") (auto simp: get_position_def num_div_def split: if_splits)
  show "pval q \<le> pval x * pval (sl_width l) / of_int upper" if "get_position s l x = Inr q"
  proof -
    have "q = num_quot ((x - PInt 0) * sl_width l) (PInt upper)" using that assms by (simp add: get_position_def num_div_def)
    with num_quot_le [of "(x - PInt 0) * sl_width l" "PInt upper"] show ?thesis by simp
  qed
qed

lemma layout_scale_width: "layout_scale font s w = Inr l \<Longrightarrow> sl_width l = w"
  by (auto simp: layout_scale_def rbind_Inr_iff Let_def split: option.splits)

lemma window_selection:
  assumes "window_ok font g" "g_range g = Some (a, b)"
  obtains l where "g_layout g = Some l" "sl_width (ly_bot l) = g_width g"
    "get_selection_rectangle g = rbind (get_position (g_bot g) (ly_bot l) a) (\<lambda>x_start. rbind (get_position (g_bot g) (ly_bot l) b) (\<lambda>x_end.
       Inr (x_start, ly_legend_height l + dl_height (ly_data l) + sl_height (ly_mid l) + PInt 20, x_end - x_start, sl_height (ly_bot l) + PInt 20)))"
proof -
  have "layout font (g_width g) (g_height g) g = Inr g" using assms(1) by (simp add: window_ok_def)
  then obtain l where l: "g_layout g = Some l" "layout_scale font (g_bot g) (g_width g) = Inr (ly_bot l)" by (rule layout_scales)
  have "sl_width (ly_bot l) = g_width g" using layout_scale_width [OF l(2)] .
  with l(1) that assms(2) show ?thesis by (simp add: get_selection_rectangle_def get_attr_def)
qed

text \<open>Pressing near the left edge starts that drag only.\<close>

lemma press_left:
  assumes "button_press px py k = Inr (r, k1)" "k_moving_left k1" "\<not> k_moving_left k"
  shows "k1 = k\<lparr>k_moving_left := True\<rparr>"
  using assms(1) by (rule button_press_cases) (use assms(2,3) in auto)

lemma motion_drag_left:
  assumes "get_selection_rectangle (k_data k) = Inr (x, y, width, height)" "k_moving_left k" "k_width k = Some w"
    and "0 < ex" "ex < pval x + pval width"
  shows "motion_notify font (PFloat ex) ey k = Inr (True, queue_area y w height (k\<lparr>k_left_cur := Some (PFloat ex)\<rparr>))"
  using assms by (simp add: motion_notify_def get_attr_def motion_left_def num_order)

lemma release_drag_left:
  assumes "k_moving_left k" "k_left_cur k = Some (PFloat ex)" "g_range (k_data k) = Some (a, b)" "pval (g_width (k_data k)) \<noteq> 0"
  shows "button_release font k = rbind (change_range font (PFloat (ex / pval (g_width (k_data k)) * (pval (g_end (k_data k)) - pval (g_start (k_data k))))) b
    (k\<lparr>k_moving_left := False\<rparr>)) (\<lambda>k. Inr (True, k))"
proof -
  have q: "num_quot (PFloat ex) v = PFloat (ex / pval v)" "PFloat u * v = PFloat (u * pval v)" for u v by (cases v; simp)+
  show ?thesis using assms by (simp add: button_release_def get_attr_def scale_selection_def num_div_def q)
qed

text \<open>The left edge under the mouse: where the window starts then, and where it is drawn.\<close>

lemma left_edge_inside:
  assumes win: "window_ok font g" and range: "g_range g = Some (a, b)"
    and bot: "sc_bounds (g_bot g) = Some (PInt 0, PInt upper)" "0 < upper" "0 < pval (g_width g)"
    and sel: "get_selection_rectangle g = Inr (x, y, width, height)" and ex: "0 < ex" "ex < pval x + pval width"
  shows "clamp g (PFloat (ex / pval (g_width g) * (pval (g_end g) - pval (g_start g)))) b = (PFloat (ex * of_int upper / pval (g_width g)), num_min (g_end g) b)"
    and "pval (num_min (g_end g) b) = pval b"
proof -
  have g: "pval (g_start g) = 0" "pval (g_end g) = of_int upper" "0 \<le> pval a" "pval b \<le> of_int upper"
    using win range bot(1) by (auto simp: window_ok_def)
  obtain l where "g_layout g = Some l" and l: "sl_width (ly_bot l) = g_width g"
    "get_selection_rectangle g = rbind (get_position (g_bot g) (ly_bot l) a) (\<lambda>x_start. rbind (get_position (g_bot g) (ly_bot l) b) (\<lambda>x_end.
       Inr (x_start, ly_legend_height l + dl_height (ly_data l) + sl_height (ly_mid l) + PInt 20, x_end - x_start, sl_height (ly_bot l) + PInt 20)))"
    by (rule window_selection [OF win range])
  obtain q where q: "get_position (g_bot g) (ly_bot l) b = Inr q" "pval x + pval width = pval q"
    using sel unfolding l(2) by (auto simp: rbind_Inr_iff)
  have "ex < pval b * pval (g_width g) / of_int upper"
    using position_from_zero(2) [OF bot(1,2) q(1)] ex(2) by (simp add: q(2) l(1))
  then have lt: "ex * of_int upper / pval (g_width g) < pval b" using bot(2,3) by (simp add: field_simps)
  have pos: "0 < ex * of_int upper / pval (g_width g)" using ex(1) bot(2,3) by simp
  show "clamp g (PFloat (ex / pval (g_width g) * (pval (g_end g) - pval (g_start g)))) b = (PFloat (ex * of_int upper / pval (g_width g)), num_min (g_end g) b)"
    using lt pos by (simp add: clamp_def g num_max_def num_min_def num_order)
  show "pval (num_min (g_end g) b) = pval b" using g by simp
qed

lemma window_left_edge:
  assumes "window_ok font g" "g_range g = Some (PFloat t, b)" "sc_bounds (g_bot g) = Some (PInt 0, PInt upper)" "0 < upper"
  shows "\<exists>x rest. get_selection_rectangle g = Inr (x, rest) \<and> pval x = t * pval (g_width g) / of_int upper"
proof -
  obtain l where "g_layout g = Some l" and l: "sl_width (ly_bot l) = g_width g"
    "get_selection_rectangle g = rbind (get_position (g_bot g) (ly_bot l) (PFloat t)) (\<lambda>x_start. rbind (get_position (g_bot g) (ly_bot l) b) (\<lambda>x_end.
       Inr (x_start, ly_legend_height l + dl_height (ly_data l) + sl_height (ly_mid l) + PInt 20, x_end - x_start, sl_height (ly_bot l) + PInt 20)))"
    by (rule window_selection [OF assms(1,2)])
  obtain p q where "get_position (g_bot g) (ly_bot l) (PFloat t) = Inr p" "get_position (g_bot g) (ly_bot l) b = Inr q"
    using get_position_ok [OF assms(3)] assms(4) by fastforce
  with l position_from_zero(1) [OF assms(3,4)] show ?thesis by simp
qed

section \<open>An example\<close>

definition example_graphic :: graphic where
  "example_graphic =
     \<lparr>g_start = PFloat 0, g_end = PFloat 40,
      g_mid = \<lparr>sc_top = True, sc_bounds = Some (PInt 18, PInt 22)\<rparr>, g_bot = \<lparr>sc_top = False, sc_bounds = Some (PInt 0, PInt 40)\<rparr>,
      g_width = PInt 400, g_height = PInt 300,
      g_data = \<lparr>dv_padding = PInt 10, dv_timelines = [], dv_colors = \<lparr>cs_colors = [], cs_defaults = default_colors\<rparr>, dv_range = Some (PInt 18, PInt 22)\<rparr>,
      g_legend = new_legend [] [], g_range = Some (PInt 18, PInt 22),
      g_layout = Some \<lparr>ly_legend_height = PInt 10,
        ly_data = \<lparr>dl_left_width = PInt 0, dl_right_width = PInt 0, dl_max_text_height = PFloat 7, dl_width = PInt 400, dl_height = PFloat 0\<rparr>,
        ly_mid = \<lparr>sl_delta = PInt 1, sl_width = PInt 380, sl_height = PFloat 17\<rparr>,
        ly_bot = \<lparr>sl_delta = PInt 10, sl_width = PInt 400, sl_height = PFloat 17\<rparr>\<rparr>\<rparr>"

lemmas render_defs = layout_def layout_legend_def layout_data_def layout_scale_def scale_delta_def scale_start_end_def max_width_def
  get_data_x_start_def half_def new_legend_def text_height_def example_font_def num_eq_def num_mod_def num_max_def less_pynum_def

lemma closest_40: "closest_loop 1 40 = 10" "closest_loop 1 4 = 1"
  by (simp_all add: closest_loop.simps)

lemma example_window: "window_ok example_font example_graphic"
  by (simp add: window_ok_def example_graphic_def render_defs closest_40 num_float_def Let_def)

definition example_gtk :: gtk where
  "example_gtk = (new_gtk example_graphic)\<lparr>k_width := Some (PInt 400)\<rparr>"

lemma example_gtk_ok: "gtk_ok example_font example_graphic False example_gtk"
  using example_window by (simp add: gtk_ok_def example_gtk_def new_gtk_def drags_def) (simp add: example_graphic_def)

lemma example_selection: "get_selection_rectangle example_graphic = Inr (PInt 180, PFloat 47, PInt 40, PFloat 37)"
  by (simp add: get_selection_rectangle_def example_graphic_def get_attr_def get_position_def num_div_def)

lemma example_press: "button_press (PFloat 181) (PFloat 50) example_gtk = Inr (True, example_gtk\<lparr>k_moving_left := True\<rparr>)"
proof -
  have "\<exists>d. get_data_rectangle example_graphic = Inr d"
    by (simp add: get_data_rectangle_def example_graphic_def get_attr_def Let_def)
  then show ?thesis
    by (auto simp: button_press_def example_gtk_def new_gtk_def example_selection inside_def near_def num_abs_def less_pynum_def)
qed

section \<open>Properties\<close>



text \<open>
  Dragging the left edge of the selection.  On a log that starts at 0, in an idle state of
  a session, a press that takes the left edge, a motion to a pixel before the right edge and
  the release move the start of the window to the time at that pixel, and the edge is then
  drawn at that pixel; the end of the window stays.  The one exception is a window that would
  become one tick long: its release raises \<^verbatim>\<open>ZeroDivisionError\<close>.
\<close>

theorem drag_left_edge:
  assumes ok: "gtk_ok font g False k" and width: "k_width k = Some w" "0 < pval w"
    and bot: "sc_bounds (g_bot (k_data k)) = Some (PInt 0, PInt upper)" "0 < upper" and range: "g_range (k_data k) = Some (a, b)"
    and press: "button_press px py k = Inr (r, k1)" "k_moving_left k1"
    and sel: "get_selection_rectangle (k_data k) = Inr (x, y, width, height)" and ex: "0 < ex" "ex < pval x + pval width"
  shows "\<exists>k2. motion_notify font (PFloat ex) ey k1 = Inr (True, k2) \<and>
    (if pval b - ex * of_int upper / pval w = 1 then button_release font k2 = Inl ZeroDivisionError
     else \<exists>k3 a' b' x' rest. button_release font k2 = Inr (True, k3) \<and> g_range (k_data k3) = Some (a', b')
       \<and> pval a' = ex * of_int upper / pval w \<and> pval b' = pval b
       \<and> get_selection_rectangle (k_data k3) = Inr (x', rest) \<and> pval x' = ex)"
proof -
  let ?g = "k_data k" and ?t = "ex * of_int upper / pval w"
  have gw: "g_width ?g = w" "window_ok font ?g" using ok width(1) by (auto simp: gtk_ok_def)
  have k1: "k1 = k\<lparr>k_moving_left := True\<rparr>" using press_left [OF press] gtk_ok_idle [OF ok] by simp
  define k2 where "k2 = queue_area y w height (k1\<lparr>k_left_cur := Some (PFloat ex)\<rparr>)"
  have motion: "motion_notify font (PFloat ex) ey k1 = Inr (True, k2)"
    unfolding k2_def using sel width ex by (intro motion_drag_left) (simp_all add: k1)
  have kd: "k_data k2 = ?g" "k_moving_left k2" "k_left_cur k2 = Some (PFloat ex)" by (simp_all add: k2_def k1 queue_area_def request_def)
  define left where "left = PFloat (ex / pval w * (pval (g_end ?g) - pval (g_start ?g)))"
  have rel: "button_release font k2 = rbind (change_range font left b (k2\<lparr>k_moving_left := False\<rparr>)) (\<lambda>k. Inr (True, k))"
    using release_drag_left [OF kd(2,3)] range width(2) by (simp add: kd(1) gw(1) left_def)
  have cl: "clamp ?g left b = (PFloat ?t, num_min (g_end ?g) b)" "pval (num_min (g_end ?g) b) = pval b"
    using left_edge_inside [OF gw(2) range bot _ sel ex] width(2) by (simp_all add: gw(1) left_def)
  have "upper \<noteq> 1" using gw(2) bot layout_scale_one [OF bot(1), of font "g_width ?g"] by (auto simp: window_ok_def elim!: layout_scales)
  with set_range_result [OF bot(1) cl(1), of font] have res: "if pval b - ?t = 1 then set_range font left b ?g = Inl ZeroDivisionError
      else \<exists>g'. set_range font left b ?g = Inr g'" using cl(2) by simp
  show ?thesis
  proof (cases "pval b - ?t = 1")
    case True
    with res show ?thesis unfolding motion by (simp add: rel change_range_def kd(1))
  next
    case False
    with res obtain g' where g': "set_range font left b ?g = Inr g'" by auto
    have "g_start ?g = num_float (PInt 0)" "g_end ?g = num_float (PInt upper)" using gw(2) bot(1) by (auto simp: window_ok_def)
    note sw = set_range_window [OF g' bot(1) this]
    have bot': "sc_bounds (g_bot g') = Some (PInt 0, PInt upper)" using sw(2) bot(1) by (simp add: same_data_def)
    have range': "g_range g' = Some (PFloat ?t, num_min (g_end ?g) b)" using sw(3) cl(1) by simp
    from window_left_edge [OF sw(1) range' bot' bot(2)] obtain x' rest where x': "get_selection_rectangle g' = Inr (x', rest)" "pval x' = ex"
      using width(2) bot(2) by (auto simp: sw(4) gw(1))
    let ?k3 = "request QueueDraw (k2\<lparr>k_moving_left := False, k_data := g', k_force := True\<rparr>)"
    have "button_release font k2 = Inr (True, ?k3)" using g' by (simp add: rel change_range_def kd(1))
    moreover have "k_data ?k3 = g'" by (simp add: request_def)
    ultimately show ?thesis using motion False range' x' cl(2) by (metis pval.simps(2))
  qed
qed

theorem drag_left_edge_witness:
  "\<exists>k2 k3 a b. motion_notify example_font (PFloat 200) (PFloat 50) (example_gtk\<lparr>k_moving_left := True\<rparr>) = Inr (True, k2) \<and>
     button_release example_font k2 = Inr (True, k3) \<and> g_range (k_data k3) = Some (a, b) \<and> pval a = 20 \<and> pval b = 22"
proof -
  have k: "k_data example_gtk = example_graphic" "k_width example_gtk = Some (PInt 400)" by (simp_all add: example_gtk_def new_gtk_def)
  have g: "sc_bounds (g_bot example_graphic) = Some (PInt 0, PInt 40)" "g_range example_graphic = Some (PInt 18, PInt 22)"
    by (simp_all add: example_graphic_def)
  from drag_left_edge [OF example_gtk_ok k(2) _ _ _ _ example_press, of 40 "PInt 18" "PInt 22" "PInt 180" "PFloat 47" "PInt 40" "PFloat 37" 200 "PFloat 50"]
  show ?thesis by (simp add: k(1) g example_selection) blast
qed

text \<open>
  Dragging the right edge beyond the window.  The handler of the motion stores the width
  of the window in the flag of the drag and not in the position of the edge.  When the right
  edge has not been dragged before, the position has no value yet, so both the repaint and the
  release of the button raise \<^verbatim>\<open>AttributeError\<close>.
\<close>

theorem drag_right_beyond_width:
  assumes "k_moving_right k" "\<not> k_moving_left k" "k_right_cur k = None" "k_width k = Some w" "0 < pval w" "pval w \<le> pval ex"
    and "get_selection_rectangle (k_data k) = Inr (x, y, width, height)" "\<not> k_force k"
  shows "\<exists>k'. motion_notify font ex ey k = Inr (True, k') \<and> k_moving_right k' \<and> k_right_cur k' = None
    \<and> button_release font k' = Inl AttributeError \<and> expose font k' = Inl AttributeError"
  using assms
  by (simp add: motion_notify_def get_attr_def motion_right_def num_order queue_area_def request_def button_release_def expose_def)

theorem drag_right_beyond_width_witness:
  "get_selection_rectangle example_graphic = Inr (PInt 180, PFloat 47, PInt 40, PFloat 37) \<and>
   (\<exists>k'. motion_notify example_font (PFloat 401) (PFloat 50) (example_gtk\<lparr>k_moving_right := True, k_force := False\<rparr>) = Inr (True, k')
      \<and> button_release example_font k' = Inl AttributeError)"
proof -
  let ?k = "example_gtk\<lparr>k_moving_right := True, k_force := False\<rparr>"
  have "k_moving_right ?k" "\<not> k_moving_left ?k" "k_right_cur ?k = None" "k_width ?k = Some (PInt 400)" "\<not> k_force ?k"
    "get_selection_rectangle (k_data ?k) = Inr (PInt 180, PFloat 47, PInt 40, PFloat 37)"
    using example_selection by (simp_all add: example_gtk_def new_gtk_def)
  from drag_right_beyond_width [OF this(1-4) _ _ this(6,5), of "PFloat 401" example_font "PFloat 50"] example_selection
  show ?thesis by auto
qed

end
