(* ===== verification/Py_Xml.thy ===== *)
theory Py_Xml
  imports Py_Strings
begin

text \<open>
  Parsed XML documents as \<^verbatim>\<open>xml.etree.ElementTree\<close> presents them: an element has a tag,
  attributes, the text before its first child and its children.  Both readers of XML files
  (\<^verbatim>\<open>test.py\<close> and \<^verbatim>\<open>flowmon-parse-results.py\<close>) look elements up by tag.
\<close>

datatype xml = Elem (el_tag: string) (el_attrs: "(string, string) dict") (el_text: "string option") (el_children: "xml list")

definition findall :: "xml \<Rightarrow> string \<Rightarrow> xml list" where
  "findall e tag = filter (\<lambda>c. el_tag c = tag) (el_children e)"

definition find_child :: "xml \<Rightarrow> string \<Rightarrow> xml option" where
  "find_child e tag = (case findall e tag of [] \<Rightarrow> None | c # _ \<Rightarrow> Some c)"

text \<open>\<^verbatim>\<open>findall('a/b')\<close>: the children \<^verbatim>\<open>b\<close> of the children \<^verbatim>\<open>a\<close>, in document order.\<close>

fun find_path :: "xml \<Rightarrow> string list \<Rightarrow> xml list" where
  "find_path e [] = [e]"
| "find_path e (tag # tags) = concat (map (\<lambda>c. find_path c tags) (findall e tag))"

text \<open>
  \<^verbatim>\<open>iterparse(file, events=("start", "end"))\<close> yields an element when its start tag has been
  read and again when it is complete.
\<close>

datatype xml_event = StartEvent xml | EndEvent xml

fun events_of :: "xml \<Rightarrow> xml_event list" where
  "events_of (Elem tag attrs txt children) =
     StartEvent (Elem tag attrs txt children) # concat (map events_of children) @ [EndEvent (Elem tag attrs txt children)]"

lemma findall_size [termination_simp]: "c \<in> set (findall e tag) \<Longrightarrow> size c < size e"
  by (cases e) (auto simp: findall_def dest: size_list_estimation' [OF _ le_refl, of _ _ size] intro: le_imp_less_Suc trans_le_add2)

end
