(* ===== verification/Config_Files.thy ===== *)
theory Config_Files
  imports Py_Strings
begin

text \<open>
  \<^verbatim>\<open>src/source/ns-3-dev/utils.py\<close>: the readers of configuration values from Python files.
  A file is the list of its lines, \<open>None\<close> when it does not exist.  The evaluation of an
  expression by the interpreter is an argument.
\<close>

type_synonym file_lines = "string list option"

fun contains :: "string \<Rightarrow> string \<Rightarrow> bool" where
  "contains sub [] = (sub = [])"
| "contains sub (c # s) = (starts_with (c # s) sub \<or> contains sub s)"

text \<open>\<^verbatim>\<open>s.split(c, 1)[0]\<close> and, if \<open>c\<close> occurs, \<^verbatim>\<open>s.split(c, 1)[1]\<close>.\<close>

definition before_char :: "char \<Rightarrow> string \<Rightarrow> string" where
  "before_char c s = takeWhile (\<lambda>x. x \<noteq> c) s"

definition after_char :: "char \<Rightarrow> string \<Rightarrow> string res" where
  "after_char c s = (if c \<in> set s then Inr (tl (dropWhile (\<lambda>x. x \<noteq> c) s)) else Inl IndexError)"

definition assigned :: "(string \<Rightarrow> 'v res) \<Rightarrow> string \<Rightarrow> 'v res" where
  "assigned ev s = rbind (after_char (CHR ''='') s) (\<lambda>rhs. ev (py_strip rhs))"

fun list_lines :: "(string \<Rightarrow> 'v list res) \<Rightarrow> string \<Rightarrow> string \<Rightarrow> bool \<Rightarrow> string list \<Rightarrow> 'v list res" where
  "list_lines ev list_name list_string parsing_multiline_list [] = Inr []"
| "list_lines ev list_name list_string parsing_multiline_list (line # lines) =
     (let line = before_char (CHR ''#'') line in
      if contains list_name line \<or> parsing_multiline_list
      then let list_string = list_string @ line in
           if CHR '']'' \<notin> set list_string then list_lines ev list_name list_string True lines
           else assigned ev list_string
      else list_lines ev list_name list_string parsing_multiline_list lines)"

definition get_list_from_file :: "(string \<Rightarrow> 'v list res) \<Rightarrow> file_lines \<Rightarrow> string \<Rightarrow> 'v list res" where
  "get_list_from_file ev f list_name =
     (case f of None \<Rightarrow> Inr [] | Some lines \<Rightarrow> list_lines ev list_name [] False lines)"

fun bool_lines :: "(string \<Rightarrow> bool res) \<Rightarrow> string \<Rightarrow> bool \<Rightarrow> string list \<Rightarrow> bool res" where
  "bool_lines ev bool_name value_if_missing [] = Inr value_if_missing"
| "bool_lines ev bool_name value_if_missing (line # lines) =
     (let line = before_char (CHR ''#'') line in
      if contains bool_name line then assigned ev line
      else bool_lines ev bool_name value_if_missing lines)"

text \<open>Without the file the flag that is tested at the end has no value.\<close>

definition get_bool_from_file :: "(string \<Rightarrow> bool res) \<Rightarrow> file_lines \<Rightarrow> string \<Rightarrow> bool \<Rightarrow> bool res" where
  "get_bool_from_file ev f bool_name value_if_missing =
     (case f of None \<Rightarrow> Inl UnboundLocalError | Some lines \<Rightarrow> bool_lines ev bool_name value_if_missing lines)"

definition read_config_file ::
  "(string \<Rightarrow> string list res) \<Rightarrow> (string \<Rightarrow> bool res) \<Rightarrow> string \<Rightarrow> (string \<Rightarrow> file_lines) \<Rightarrow> (bool \<times> string list \<times> bool \<times> bool) res" where
  "read_config_file ev_list ev_bool home fs =
     (let dot_ns3rc_path = (if fs ''.ns3rc'' \<noteq> None then ''.ns3rc'' else home @ ''/'' @ ''.ns3rc'') in
      if fs dot_ns3rc_path = None then Inr (False, [''all_modules''], False, False)
      else rbind (get_list_from_file ev_list (fs dot_ns3rc_path) ''modules_enabled'') (\<lambda>modules_enabled.
           rbind (get_bool_from_file ev_bool (fs dot_ns3rc_path) ''examples_enabled'' False) (\<lambda>examples_enabled.
           rbind (get_bool_from_file ev_bool (fs dot_ns3rc_path) ''tests_enabled'' False) (\<lambda>tests_enabled.
             Inr (True, if modules_enabled = [] then [''all_modules''] else modules_enabled, examples_enabled, tests_enabled)))))"

end
