(* ===== verification/Test_Runner.thy ===== *)
theory Test_Runner
  imports Py_Num Py_Xml Config_Files "HOL-Library.List_Lexorder"
begin

text \<open>
  \<^verbatim>\<open>src/source/ns-3-dev/test.py\<close>: which test suites and examples are run, how a worker
  runs one of them, and how the main thread turns the results into counts, a results file and
  an exit code.  What the program asks of its surroundings is collected in the record
  \<open>world\<close>: files, the outcome of a command, the value of a condition on the configuration.
  Of what is printed, the listings, the progress lines and the summary are modelled; the
  messages of \<^verbatim>\<open>--verbose\<close>, the notes about disabled tests and the removal of the temporary
  files are left out.
\<close>

section \<open>Configuration and options\<close>

record config =
  c_basedir :: string
  c_builddir :: string
  c_module_path :: "string list"
  c_enabled_modules :: "string list"
  c_contributed_modules :: "string list"
  c_nsc_enabled :: bool
  c_enable_examples :: bool
  c_enable_tests :: bool
  c_example_directories :: "string list"
  c_python_bindings :: bool
  c_appname :: string
  c_build_profile :: string
  c_version :: string
  c_python :: string
  c_valgrind_found :: bool

record options =
  o_buildpath :: string
  o_constrain :: string
  o_duration :: bool
  o_example :: string
  o_update_data :: bool
  o_fullness :: string
  o_valgrind :: bool
  o_kinds :: bool
  o_list :: bool
  o_multiple :: bool
  o_nowaf :: bool
  o_pyexample :: string
  o_retain :: bool
  o_suite :: string
  o_text :: string
  o_html :: string
  o_xml :: string
  o_nocolor :: bool
  o_process_limit :: int

definition default_options :: options where
  "default_options =
     \<lparr>o_buildpath = [], o_constrain = [], o_duration = False, o_example = [], o_update_data = False,
      o_fullness = ''QUICK'', o_valgrind = False, o_kinds = False, o_list = False, o_multiple = False, o_nowaf = False,
      o_pyexample = [], o_retain = False, o_suite = [], o_text = [], o_html = [], o_xml = [], o_nocolor = False,
      o_process_limit = 0\<rparr>"

definition core_kinds :: "string list" where
  "core_kinds = [''core'', ''performance'', ''system'', ''unit'']"

definition core_valgrind_skip_tests :: "string list" where
  "core_valgrind_skip_tests =
     [''ns3-tcp-cwnd'', ''nsc-tcp-loss'', ''ns3-tcp-interoperability'', ''routing-click'',
      ''lte-rr-ff-mac-scheduler'', ''lte-tdmt-ff-mac-scheduler'', ''lte-fdmt-ff-mac-scheduler'',
      ''lte-pf-ff-mac-scheduler'', ''lte-tta-ff-mac-scheduler'', ''lte-fdbet-ff-mac-scheduler'',
      ''lte-ttbet-ff-mac-scheduler'', ''lte-fdtbfq-ff-mac-scheduler'', ''lte-tdtbfq-ff-mac-scheduler'',
      ''lte-pss-ff-mac-scheduler'']"

definition core_nsc_missing_skip_tests :: "string list" where
  "core_nsc_missing_skip_tests = [''ns3-tcp-cwnd'', ''nsc-tcp-loss'', ''ns3-tcp-interoperability'']"

text \<open>The outcome of a command; output that is not valid text is \<open>None\<close>.\<close>

record process =
  pr_code :: int
  pr_out :: "string option"
  pr_err :: "string option"
  pr_time :: rat

record world =
  w_cwd :: string
  w_exists :: "string \<Rightarrow> bool"
  w_lines :: "string \<Rightarrow> file_lines"
  w_text :: "string \<Rightarrow> string option"
  w_exec :: "string \<Rightarrow> string \<Rightarrow> process"
  w_names :: "string \<Rightarrow> string list res"
  w_cpp :: "string \<Rightarrow> (string \<times> string \<times> string) list res"
  w_py :: "string \<Rightarrow> (string \<times> string) list res"
  w_condition :: "string \<Rightarrow> bool"
  w_date :: string
  w_processors :: int
  w_platform :: string

text \<open>
  \<^verbatim>\<open>read_waf_config\<close>: the two directories of the lock file, and the lines of the saved
  configuration that are executed.  A line with a second \<^verbatim>\<open>=\<close> cannot be unpacked; a directory
  that the lock file does not mention has no value when it is read.  The evaluation of a string
  literal is an argument.
\<close>

definition interesting_config_items :: "string list" where
  "interesting_config_items =
     [''NS3_ENABLED_MODULES'', ''NS3_ENABLED_CONTRIBUTED_MODULES'', ''NS3_MODULE_PATH'', ''NSC_ENABLED'', ''ENABLE_REAL_TIME'',
      ''ENABLE_THREADING'', ''ENABLE_EXAMPLES'', ''ENABLE_TESTS'', ''EXAMPLE_DIRECTORIES'', ''ENABLE_PYTHON_BINDINGS'', ''NSCLICK'',
      ''ENABLE_BRITE'', ''ENABLE_OPENFLOW'', ''APPNAME'', ''BUILD_PROFILE'', ''VERSION'', ''PYTHON'', ''VALGRIND_FOUND'']"

definition waf_dir_value :: "(string \<Rightarrow> string res) \<Rightarrow> string \<Rightarrow> string res" where
  "waf_dir_value ev line = (case split_on (CHR ''='') line of [key, val] \<Rightarrow> ev (py_strip val) | _ \<Rightarrow> Inl ValueError)"

definition read_dir_line :: "(string \<Rightarrow> string res) \<Rightarrow> string option \<times> string option \<Rightarrow> string \<Rightarrow> (string option \<times> string option) res" where
  "read_dir_line ev dirs line =
     (if starts_with line ''top_dir ='' then rbind (waf_dir_value ev line) (\<lambda>v. Inr (Some v, snd dirs))
      else if starts_with line ''out_dir ='' then rbind (waf_dir_value ev line) (\<lambda>v. Inr (fst dirs, Some v))
      else Inr dirs)"

definition executed_lines :: "string list \<Rightarrow> string list" where
  "executed_lines lines = concat (map (\<lambda>line. map (\<lambda>_. line) (filter (\<lambda>item. starts_with line item) interesting_config_items)) lines)"

definition read_waf_config :: "(string \<Rightarrow> string res) \<Rightarrow> world \<Rightarrow> (string \<times> string \<times> string list) res" where
  "read_waf_config ev w =
     (case (case w_lines w (''.lock-waf_'' @ w_platform w @ ''_build'') of
              Some lines \<Rightarrow> Some lines | None \<Rightarrow> w_lines w ''.lock-waf_linux2_build'') of
        None \<Rightarrow> Inl (PyException ''SystemExit'')
      | Some lines \<Rightarrow> rbind (foldM (read_dir_line ev) (None, None) lines) (\<lambda>(top_dir, out_dir).
          case (top_dir, out_dir) of
            (Some base, Some build) \<Rightarrow>
              (case w_lines w (build @ ''/c4che/_cache.py'') of
                 None \<Rightarrow> Inl (PyException ''FileNotFoundError'')
               | Some cache \<Rightarrow> Inr (base, build, executed_lines cache))
          | _ \<Rightarrow> Inl UnboundLocalError))"

text \<open>\<^verbatim>\<open>BUILD_PROFILE_SUFFIX\<close> and the name of a built program.\<close>

definition profile_suffix :: "config \<Rightarrow> string" where
  "profile_suffix cfg = (if c_build_profile cfg = ''release'' then [] else ''-'' @ c_build_profile cfg)"

definition program_name :: "config \<Rightarrow> string \<Rightarrow> string" where
  "program_name cfg name = c_appname cfg @ c_version cfg @ ''-'' @ name @ profile_suffix cfg"

section \<open>The lists of examples\<close>

record examples =
  ex_tests :: "(string \<times> string \<times> string \<times> string) list"
  ex_names_original :: "string list"
  ex_python :: "(string \<times> string) list"

definition example_arguments :: "string \<Rightarrow> string option" where
  "example_arguments name = (if CHR '' '' \<in> set name then Some (tl (dropWhile (\<lambda>c. c \<noteq> CHR '' '') name)) else None)"

definition with_arguments :: "string \<Rightarrow> string option \<Rightarrow> string" where
  "with_arguments s args = (case args of None \<Rightarrow> s | Some a \<Rightarrow> s @ '' '' @ a)"

definition add_cpp_example :: "world \<Rightarrow> config \<Rightarrow> string \<Rightarrow> examples \<Rightarrow> string \<times> string \<times> string \<Rightarrow> examples" where
  "add_cpp_example w cfg cpp_executable_dir e entry =
     (let (original, do_run, do_valgrind_run) = entry;
          name = before_char (CHR '' '') original;
          args = example_arguments original;
          example_path = path_join cpp_executable_dir (program_name cfg name);
          example_name = path_join (relpath (w_cwd w) cpp_executable_dir (c_builddir cfg)) name
      in if w_exists w example_path
         then e\<lparr>ex_tests := ex_tests e @ [(with_arguments example_name args, with_arguments example_path args, do_run, do_valgrind_run)],
                ex_names_original := ex_names_original e @ [original]\<rparr>
         else e)"

definition add_python_example :: "world \<Rightarrow> string \<Rightarrow> examples \<Rightarrow> string \<times> string \<Rightarrow> examples" where
  "add_python_example w python_script_dir e entry =
     (let (original, do_run) = entry;
          example_path = path_join python_script_dir (before_char (CHR '' '') original)
      in if w_exists w example_path
         then e\<lparr>ex_python := ex_python e @ [(with_arguments example_path (example_arguments original), do_run)]\<rparr>
         else e)"

definition parse_examples_to_run_file :: "world \<Rightarrow> config \<Rightarrow> string \<Rightarrow> string \<Rightarrow> string \<Rightarrow> examples \<Rightarrow> examples res" where
  "parse_examples_to_run_file w cfg examples_to_run_path cpp_executable_dir python_script_dir e =
     (if w_exists w examples_to_run_path
      then rbind (get_list_from_file (w_cpp w) (w_lines w examples_to_run_path) ''cpp_examples'') (\<lambda>cpp_examples.
             let e = foldl (add_cpp_example w cfg cpp_executable_dir) e cpp_examples
             in rbind (get_list_from_file (w_py w) (w_lines w examples_to_run_path) ''python_examples'') (\<lambda>python_examples.
                  Inr (foldl (add_python_example w python_script_dir) e python_examples)))
      else Inr e)"

definition example_directory_file :: "world \<Rightarrow> config \<Rightarrow> examples \<Rightarrow> string \<Rightarrow> examples res" where
  "example_directory_file w cfg e directory =
     (let dir = path_join ''examples'' directory
      in parse_examples_to_run_file w cfg (path_join dir ''examples-to-run.py'') (path_join (c_builddir cfg) dir) dir e)"

text \<open>Modules, below \<^verbatim>\<open>src\<close> and below \<^verbatim>\<open>contrib\<close>; \<^verbatim>\<open>ns3-\<close> is cut off the name.\<close>

definition module_file :: "world \<Rightarrow> config \<Rightarrow> string \<Rightarrow> examples \<Rightarrow> string \<Rightarrow> examples res" where
  "module_file w cfg base e mod_name =
     (let module_directory = path_join base (drop 4 mod_name);
          example_directory = path_join module_directory ''examples''
      in parse_examples_to_run_file w cfg (path_join (path_join module_directory ''test'') ''examples-to-run.py'')
           (path_join (c_builddir cfg) example_directory) example_directory e)"

definition find_examples :: "world \<Rightarrow> config \<Rightarrow> examples res" where
  "find_examples w cfg =
     rbind (foldM (example_directory_file w cfg) \<lparr>ex_tests = [], ex_names_original = [], ex_python = []\<rparr> (c_example_directories cfg)) (\<lambda>e.
     rbind (foldM (module_file w cfg ''src'') e (c_enabled_modules cfg)) (\<lambda>e.
       foldM (module_file w cfg ''contrib'') e (c_contributed_modules cfg)))"

section \<open>The environment of the tests\<close>

definition extend_path :: "string \<Rightarrow> string \<Rightarrow> string list \<Rightarrow> (string, string) dict \<Rightarrow> (string, string) dict" where
  "extend_path var sep paths env =
     (let env = (case dict_get env var of None \<Rightarrow> dict_set env var [] | Some _ \<Rightarrow> env)
      in foldl (\<lambda>env path. dict_set env var (the (dict_get env var) @ sep @ path)) env paths)"

text \<open>
  \<^verbatim>\<open>make_paths\<close>: \<^verbatim>\<open>PYTHONPATH\<close> is assigned before the test whether it was set, so what
  is appended to is the value just assigned.
\<close>

definition make_paths :: "string \<Rightarrow> config \<Rightarrow> (string, string) dict \<Rightarrow> (string, string) dict" where
  "make_paths platform cfg env =
     (let pypath = path_join (path_join (c_builddir cfg) ''bindings'') ''python'';
          have_PYTHONPATH = (dict_get env ''PYTHONPATH'' \<noteq> None);
          env1 = dict_set env ''PYTHONPATH'' pypath;
          env2 = (if have_PYTHONPATH then dict_set env1 ''PYTHONPATH'' (pypath @ '':'' @ pypath) else env1)
      in if platform = ''darwin'' then extend_path ''DYLD_LIBRARY_PATH'' '':'' (c_module_path cfg) env2
         else if platform = ''win32'' then extend_path ''PATH'' '';'' (c_module_path cfg) env2
         else if platform = ''cygwin'' then extend_path ''PATH'' '':'' (c_module_path cfg) env2
         else extend_path ''LD_LIBRARY_PATH'' '':'' (c_module_path cfg) env2)"

section \<open>Jobs\<close>

record job =
  jb_is_break :: bool
  jb_is_skip :: bool
  jb_skip_reason :: string
  jb_is_example :: bool
  jb_is_pyexample :: bool
  jb_shell_command :: string
  jb_display_name :: string
  jb_basedir :: string
  jb_tempdir :: string
  jb_cwd :: string
  jb_tmp_file_name :: string
  jb_returncode :: int
  jb_elapsed_time :: rat
  jb_build_path :: string

definition new_job :: job where
  "new_job =
     \<lparr>jb_is_break = False, jb_is_skip = False, jb_skip_reason = [], jb_is_example = False, jb_is_pyexample = False,
      jb_shell_command = [], jb_display_name = [], jb_basedir = [], jb_tempdir = [], jb_cwd = [], jb_tmp_file_name = [],
      jb_returncode = 0, jb_elapsed_time = 0, jb_build_path = []\<rparr>"

definition job_command :: "config \<Rightarrow> string \<Rightarrow> bool \<Rightarrow> bool \<Rightarrow> string \<Rightarrow> string" where
  "job_command cfg shell_command valgrind is_python build_path =
     (let suppressions_path = path_join (c_basedir cfg) ''testpy.supp'';
          path_cmd =
            (if is_python then c_python cfg @ '' '' @ path_join (c_basedir cfg) shell_command
             else if build_path \<noteq> [] then path_join build_path shell_command
             else path_join (c_builddir cfg) shell_command)
      in if valgrind
         then ''valgrind --suppressions='' @ suppressions_path
              @ '' --leak-check=full --show-reachable=yes --error-exitcode=2 --errors-for-leak-kinds=all '' @ path_cmd
         else path_cmd)"

definition run_job_synchronously ::
  "world \<Rightarrow> config \<Rightarrow> string \<Rightarrow> string \<Rightarrow> bool \<Rightarrow> bool \<Rightarrow> string \<Rightarrow> int \<times> string option \<times> string option \<times> rat" where
  "run_job_synchronously w cfg shell_command directory valgrind is_python build_path =
     (let p = w_exec w (job_command cfg shell_command valgrind is_python build_path) directory;
          retval = (if pr_out p = None \<or> pr_err p = None then 1 else pr_code p)
      in (retval, pr_out p, pr_err p, pr_time p))"

text \<open>What a worker does with a job that it runs.\<close>

definition perform :: "world \<Rightarrow> config \<Rightarrow> options \<Rightarrow> job \<Rightarrow> job" where
  "perform w cfg opts job =
     (let (returncode, standard_out, standard_err, et) =
        (if jb_is_example job \<or> jb_is_pyexample job
         then run_job_synchronously w cfg (jb_shell_command job) (jb_cwd job) (o_valgrind opts) (jb_is_pyexample job) (jb_build_path job)
         else run_job_synchronously w cfg
                (jb_shell_command job @ '' --xml --tempdir='' @ jb_tempdir job @ '' --out='' @ jb_tmp_file_name job @ '' ''
                 @ (if o_update_data opts then ''--update-data'' else []))
                (jb_cwd job) (o_valgrind opts) False [])
      in job\<lparr>jb_returncode := returncode, jb_elapsed_time := et\<rparr>)"

section \<open>Which jobs are run\<close>

abbreviation nl :: char where
  "nl \<equiv> char_of (10 :: nat)"

definition waf_command :: "options \<Rightarrow> string" where
  "waf_command opts =
     (if o_kinds opts \<or> o_list opts \<or> (o_constrain opts \<noteq> [] \<and> o_constrain opts \<in> set core_kinds) then ''./waf --target=test-runner''
      else if o_example opts \<noteq> [] then ''./waf --target='' @ basename (o_example opts)
      else ''./waf'')"

text \<open>The output of the test runner asked for a list; text that cannot be decoded raises.\<close>

definition ask_runner :: "world \<Rightarrow> config \<Rightarrow> string \<Rightarrow> int \<times> string res" where
  "ask_runner w cfg args =
     (let (rc, out, err, et) = run_job_synchronously w cfg (path_join ''utils'' (program_name cfg ''test-runner'' @ args)) (w_cwd w) False False []
      in (rc, case out of None \<Rightarrow> Inl ValueError | Some s \<Rightarrow> Inr s))"

text \<open>The names of the suites, and whether exactly one was asked for by name.\<close>

definition select_suites :: "world \<Rightarrow> config \<Rightarrow> options \<Rightarrow> (string list \<times> bool) res" where
  "select_suites w cfg opts =
     (if o_suite opts \<noteq> []
      then rbind (snd (ask_runner w cfg '' --print-test-name-list'')) (\<lambda>suites.
             let suites_found = fnmatch_filter (split_on nl suites) (o_suite opts)
             in if suites_found = [] then Inl (PyException ''SystemExit'')
                else Inr (split_on nl (join_with [nl] suites_found), length suites_found = 1))
      else if o_example opts = [] \<and> o_pyexample opts = []
      then rbind (snd (ask_runner w cfg ('' --print-test-name-list''
                    @ (if o_constrain opts \<noteq> [] then '' --test-type='' @ o_constrain opts else [])))) (\<lambda>suites.
             Inr (split_on nl suites, False))
      else Inr ([[]], False))"

definition without_performance :: "world \<Rightarrow> config \<Rightarrow> options \<Rightarrow> string list \<times> bool \<Rightarrow> string list res" where
  "without_performance w cfg opts sel =
     (let (suite_list, single_suite) = sel in
      if \<not> single_suite \<and> o_constrain opts \<noteq> ''performance''
      then rbind (snd (ask_runner w cfg '' --print-test-name-list --test-type=performance'')) (\<lambda>performance_tests.
             Inr (foldl (\<lambda>suite_list t. remove1 t suite_list) suite_list (split_on nl performance_tests)))
      else Inr suite_list)"

definition py_upper :: "string \<Rightarrow> string" where
  "py_upper s = map (\<lambda>c. let k = (of_char c :: nat) in if 97 \<le> k \<and> k \<le> 122 then char_of (k - 32) else c) s"

definition output_dir :: "world \<Rightarrow> string" where
  "output_dir w = path_join ''testpy-output'' (w_date w)"

definition skip_job :: "bool \<Rightarrow> string \<Rightarrow> job \<Rightarrow> job" where
  "skip_job b reason job = (if b then job\<lparr>jb_is_skip := True, jb_skip_reason := reason\<rparr> else job)"

definition suite_job :: "world \<Rightarrow> config \<Rightarrow> options \<Rightarrow> string \<Rightarrow> job" where
  "suite_job w cfg opts test =
     (let multiple = (if o_multiple opts then [] else '' --stop-on-failure'');
          fullness = (if o_fullness opts \<noteq> [] then '' --fullness='' @ py_upper (o_fullness opts) else '' --fullness=QUICK'');
          path_cmd = path_join ''utils'' (program_name cfg ''test-runner'' @ '' --test-name='' @ test @ multiple @ fullness);
          job = new_job\<lparr>jb_display_name := test, jb_tmp_file_name := path_join (output_dir w) (test @ ''.xml''), jb_cwd := w_cwd w,
                 jb_basedir := w_cwd w, jb_tempdir := output_dir w, jb_shell_command := path_cmd\<rparr>
      in skip_job (\<not> c_nsc_enabled cfg \<and> test \<in> set core_nsc_missing_skip_tests) ''requires NSC''
           (skip_job (o_valgrind opts \<and> test \<in> set core_valgrind_skip_tests) ''crashes valgrind'' job))"

definition suite_jobs :: "world \<Rightarrow> config \<Rightarrow> options \<Rightarrow> string list \<Rightarrow> job list" where
  "suite_jobs w cfg opts suite_list = map (suite_job w cfg opts) (filter (\<lambda>t. t \<noteq> []) (map py_strip suite_list))"

definition no_selection :: "options \<Rightarrow> bool" where
  "no_selection opts \<longleftrightarrow> o_suite opts = [] \<and> o_example opts = [] \<and> o_pyexample opts = []"

definition example_job :: "world \<Rightarrow> string \<Rightarrow> string \<Rightarrow> string \<Rightarrow> job" where
  "example_job w name command build_path =
     new_job\<lparr>jb_is_example := True, jb_display_name := name, jb_cwd := output_dir w, jb_basedir := w_cwd w,
             jb_tempdir := output_dir w, jb_shell_command := command, jb_build_path := build_path\<rparr>"

definition listed_example_job :: "world \<Rightarrow> options \<Rightarrow> (string, string) dict \<Rightarrow> string \<times> string \<times> string \<times> string \<Rightarrow> job list" where
  "listed_example_job w opts programs entry =
     (let (name, test, do_run, do_valgrind_run) = entry;
          test_name = basename (before_char (CHR '' '') test)
      in if dict_get programs test_name \<noteq> None \<and> w_condition w do_run
         then [skip_job (o_valgrind opts \<and> \<not> w_condition w do_valgrind_run) ''skip in valgrind runs''
                 (example_job w name test (o_buildpath opts))]
         else [])"

definition example_jobs :: "world \<Rightarrow> config \<Rightarrow> options \<Rightarrow> (string, string) dict \<Rightarrow> examples \<Rightarrow> job list" where
  "example_jobs w cfg opts programs e =
     (if no_selection opts
      then if (o_constrain opts = [] \<or> o_constrain opts = ''example'') \<and> c_enable_examples cfg
           then concat (map (listed_example_job w opts programs) (ex_tests e)) else []
      else if o_example opts \<noteq> []
      then map (\<lambda>key. let example_path = abspath (w_cwd w) (the (dict_get programs key))
                     in example_job w example_path example_path (o_buildpath opts))
             (fnmatch_filter (dict_keys programs) (program_name cfg (o_example opts)))
      else [])"

definition pyexample_job :: "world \<Rightarrow> string \<Rightarrow> job" where
  "pyexample_job w name =
     new_job\<lparr>jb_is_pyexample := True, jb_display_name := name, jb_cwd := output_dir w, jb_basedir := w_cwd w,
             jb_tempdir := output_dir w, jb_shell_command := name\<rparr>"

definition listed_pyexample_job :: "world \<Rightarrow> config \<Rightarrow> options \<Rightarrow> string list \<Rightarrow> string \<times> string \<Rightarrow> job list" where
  "listed_pyexample_job w cfg opts scripts entry =
     (let (test, do_run) = entry;
          test_name = basename (before_char (CHR '' '') test)
      in if test_name \<in> set scripts \<and> w_condition w do_run
         then [skip_job (\<not> c_python_bindings cfg) ''requires Python bindings''
                 (skip_job (o_valgrind opts) ''skip in valgrind runs'' (pyexample_job w test))]
         else [])"

definition pyexample_jobs :: "world \<Rightarrow> config \<Rightarrow> options \<Rightarrow> string list \<Rightarrow> examples \<Rightarrow> job list" where
  "pyexample_jobs w cfg opts scripts e =
     (if no_selection opts
      then if (o_constrain opts = [] \<or> o_constrain opts = ''pyexample'') \<and> c_enable_examples cfg
           then concat (map (listed_pyexample_job w cfg opts scripts) (ex_python e)) else []
      else if o_pyexample opts \<noteq> []
      then if basename (o_pyexample opts) \<in> set scripts then [pyexample_job w (o_pyexample opts)] else []
      else [])"

definition runnable_programs :: "string list \<Rightarrow> (string, string) dict" where
  "runnable_programs programs = foldl (\<lambda>d program. dict_set d (basename program) program) [] programs"

text \<open>All jobs, in the order in which they are put into the queue.\<close>

definition build_status :: "world \<Rightarrow> config \<Rightarrow> (string list \<times> string list) res" where
  "build_status w cfg =
     (let build_status_file = path_join (c_builddir cfg) ''build-status.py'' in
      if w_exists w build_status_file
      then rbind (get_list_from_file (w_names w) (w_lines w build_status_file) ''ns3_runnable_programs'') (\<lambda>programs.
           rbind (get_list_from_file (w_names w) (w_lines w build_status_file) ''ns3_runnable_scripts'') (\<lambda>scripts.
             Inr (programs, scripts)))
      else Inl (PyException ''SystemExit''))"

definition all_jobs :: "world \<Rightarrow> config \<Rightarrow> options \<Rightarrow> string list \<Rightarrow> string list \<Rightarrow> examples \<Rightarrow> job list res" where
  "all_jobs w cfg opts programs scripts e =
     rbind (select_suites w cfg opts) (\<lambda>sel.
     rbind (without_performance w cfg opts sel) (\<lambda>suite_list.
       Inr (suite_jobs w cfg opts suite_list @ example_jobs w cfg opts (runnable_programs programs) e
            @ pyexample_jobs w cfg opts scripts e)))"

definition worker_count :: "world \<Rightarrow> options \<Rightarrow> int" where
  "worker_count w opts =
     (if o_process_limit opts \<noteq> 0
      then if w_processors w < o_process_limit opts then w_processors w else o_process_limit opts
      else w_processors w)"

section \<open>Worker threads\<close>

text \<open>
  The threads and the main thread share two first-in first-out queues.  \<open>po_pending\<close> is
  what the main thread has still to put into the input queue, \<open>po_wanted\<close> the number of
  results that it has still to take out of the output queue.
\<close>

datatype worker = Waiting | Running job | Ended

record pool =
  po_pending :: "job list"
  po_input :: "job list"
  po_workers :: "worker list"
  po_output :: "job list"
  po_wanted :: nat
  po_collected :: "job list"
  po_exit :: bool

text \<open>One turn of the loop of \<^verbatim>\<open>worker_thread.run\<close>: the new worker, and what it puts out.\<close>

definition worker_take :: "bool \<Rightarrow> job \<Rightarrow> worker \<times> job list" where
  "worker_take thread_exit job =
     (if jb_is_break job then (Ended, [])
      else if thread_exit then (Waiting, [job\<lparr>jb_is_break := True\<rparr>])
      else if jb_is_skip job then (Waiting, [job])
      else (Running job, []))"

inductive pool_step :: "(job \<Rightarrow> job) \<Rightarrow> pool \<Rightarrow> pool \<Rightarrow> bool" for perf where
  put_job: "po_pending p = job # rest \<Longrightarrow> pool_step perf p (p\<lparr>po_pending := rest, po_input := po_input p @ [job]\<rparr>)"
| take_job: "po_input p = job # rest \<Longrightarrow> i < length (po_workers p) \<Longrightarrow> po_workers p ! i = Waiting \<Longrightarrow>
    worker_take (po_exit p) job = (wk, out) \<Longrightarrow>
    pool_step perf p (p\<lparr>po_input := rest, po_workers := (po_workers p)[i := wk], po_output := po_output p @ out\<rparr>)"
| finish_job: "i < length (po_workers p) \<Longrightarrow> po_workers p ! i = Running job \<Longrightarrow>
    pool_step perf p (p\<lparr>po_workers := (po_workers p)[i := Waiting], po_output := po_output p @ [perf job]\<rparr>)"
| get_result: "po_pending p = [] \<Longrightarrow> po_wanted p = Suc n \<Longrightarrow> po_output p = job # rest \<Longrightarrow>
    pool_step perf p (p\<lparr>po_output := rest, po_wanted := n, po_collected := po_collected p @ [job]\<rparr>)"
| interrupt: "\<not> po_exit p \<Longrightarrow> pool_step perf p (p\<lparr>po_exit := True\<rparr>)"

text \<open>The start: no job has been put yet; the stop signs follow the jobs.\<close>

definition start_pool :: "nat \<Rightarrow> job list \<Rightarrow> pool" where
  "start_pool n jobs =
     \<lparr>po_pending = jobs @ replicate n (new_job\<lparr>jb_is_break := True\<rparr>), po_input = [], po_workers = replicate n Waiting,
      po_output = [], po_wanted = length jobs, po_collected = [], po_exit = False\<rparr>"

text \<open>The main thread has all results and can join the threads.\<close>

definition joined :: "pool \<Rightarrow> bool" where
  "joined p \<longleftrightarrow> po_pending p = [] \<and> po_wanted p = 0 \<and> list_all (\<lambda>wk. wk = Ended) (po_workers p)"

section \<open>Results\<close>

datatype status = PASS | FAIL | VALGR | CRASH | SKIP

fun status_text :: "status \<Rightarrow> string" where
  "status_text PASS = ''PASS''"
| "status_text FAIL = ''FAIL''"
| "status_text VALGR = ''VALGR''"
| "status_text CRASH = ''CRASH''"
| "status_text SKIP = ''SKIP''"

definition job_status :: "job \<Rightarrow> status" where
  "job_status job =
     (if jb_is_skip job then SKIP
      else if jb_returncode job = 0 then PASS
      else if jb_returncode job = 1 then FAIL
      else if jb_returncode job = 2 then VALGR
      else CRASH)"

text \<open>The escape sequences of the terminal; \<^verbatim>\<open>get_color\<close> gives none when colours are off.\<close>

definition get_color :: "bool \<Rightarrow> string \<Rightarrow> string" where
  "get_color use seq = (if use then char_of (27 :: nat) # ''['' @ seq else [])"

fun status_color :: "status \<Rightarrow> string" where
  "status_color PASS = ''32m''"
| "status_color FAIL = ''01;31m''"
| "status_color VALGR = ''36m''"
| "status_color CRASH = ''35m''"
| "status_color SKIP = ''37m''"

text \<open>\<^verbatim>\<open>"%.3f" % r\<close>.\<close>

definition format3 :: "rat \<Rightarrow> string" where
  "format3 r = format_fixed 3 r"

record summary =
  su_passed :: int
  su_failed :: int
  su_skipped :: int
  su_crashed :: int
  su_valgrind :: int
  su_failed_names :: "string list"
  su_skipped_names :: "string list"
  su_crashed_names :: "string list"
  su_valgrind_names :: "string list"
  su_xml :: string
  su_printed :: "string list"

definition xml_tag :: "string \<Rightarrow> string \<Rightarrow> string" where
  "xml_tag tag body = ''  <'' @ tag @ ''>'' @ body @ ''</'' @ tag @ ''>'' @ [nl]"

definition example_entry :: "job \<Rightarrow> string" where
  "example_entry job =
     ''<Example>'' @ [nl] @ xml_tag ''Name'' (jb_display_name job) @ xml_tag ''Result'' (status_text (job_status job))
     @ ''  <Time real='' @ [CHR 0x22] @ format3 (jb_elapsed_time job) @ [CHR 0x22] @ ''/>'' @ [nl] @ ''</Example>'' @ [nl]"

definition suite_entry :: "world \<Rightarrow> job \<Rightarrow> string res" where
  "suite_entry w job =
     (if jb_is_skip job
      then Inr (''<Test>'' @ [nl] @ xml_tag ''Name'' (jb_display_name job) @ xml_tag ''Result'' ''SKIP''
                @ xml_tag ''Reason'' (jb_skip_reason job) @ ''</Test>'' @ [nl])
      else if jb_returncode job = 0 \<or> jb_returncode job = 1 \<or> jb_returncode job = 2
      then (case w_text w (jb_tmp_file_name job) of None \<Rightarrow> Inl (PyException ''FileNotFoundError'') | Some s \<Rightarrow> Inr s)
      else Inr (''<Test>'' @ [nl] @ xml_tag ''Name'' (jb_display_name job) @ xml_tag ''Result'' ''CRASH'' @ ''</Test>'' @ [nl]))"

definition is_any_example :: "job \<Rightarrow> bool" where
  "is_any_example job \<longleftrightarrow> jb_is_example job \<or> jb_is_pyexample job"

definition count_job :: "job \<Rightarrow> summary \<Rightarrow> summary" where
  "count_job job su =
     (case job_status job of
        SKIP \<Rightarrow> su\<lparr>su_skipped := su_skipped su + 1,
                  su_skipped_names := su_skipped_names su @ [jb_display_name job @ '' ('' @ jb_skip_reason job @ '')'']\<rparr>
      | PASS \<Rightarrow> su\<lparr>su_passed := su_passed su + 1\<rparr>
      | FAIL \<Rightarrow> su\<lparr>su_failed := su_failed su + 1, su_failed_names := su_failed_names su @ [jb_display_name job]\<rparr>
      | VALGR \<Rightarrow> su\<lparr>su_valgrind := su_valgrind su + 1, su_valgrind_names := su_valgrind_names su @ [jb_display_name job]\<rparr>
      | CRASH \<Rightarrow> su\<lparr>su_crashed := su_crashed su + 1, su_crashed_names := su_crashed_names su @ [jb_display_name job]\<rparr>)"

definition progress_line :: "options \<Rightarrow> bool \<Rightarrow> int \<Rightarrow> summary \<Rightarrow> job \<Rightarrow> string" where
  "progress_line opts use_color total_tests su job =
     (let status_print = get_color use_color (status_color (job_status job)) @ status_text (job_status job) @ get_color use_color ''0m'';
          kind = (if is_any_example job then ''Example'' else ''TestSuite'')
      in ''['' @ show_int (su_passed su + su_failed su + su_skipped su + su_crashed su) @ ''/'' @ show_int total_tests @ ''] ''
         @ status_print
         @ (if o_duration opts \<or> o_constrain opts = ''performance'' then '' ('' @ format3 (jb_elapsed_time job) @ '')'' else [])
         @ '': '' @ kind @ '' '' @ jb_display_name job)"

text \<open>The loop of the main thread, on one result.\<close>

definition collect_job :: "world \<Rightarrow> options \<Rightarrow> bool \<Rightarrow> int \<Rightarrow> summary \<Rightarrow> job \<Rightarrow> summary res" where
  "collect_job w opts use_color total_tests su job =
     (if jb_is_break job then Inr su
      else let su = count_job job su;
               su = su\<lparr>su_printed := su_printed su @ [progress_line opts use_color total_tests su job]\<rparr>
           in rbind (if is_any_example job then Inr (example_entry job) else suite_entry w job) (\<lambda>entry.
                Inr (su\<lparr>su_xml := su_xml su @ entry\<rparr>)))"

definition start_summary :: summary where
  "start_summary =
     \<lparr>su_passed = 0, su_failed = 0, su_skipped = 0, su_crashed = 0, su_valgrind = 0, su_failed_names = [], su_skipped_names = [],
      su_crashed_names = [], su_valgrind_names = [],
      su_xml = ''<?xml version='' @ [CHR 0x22] @ ''1.0'' @ [CHR 0x22] @ ''?>'' @ [nl] @ ''<Results>'' @ [nl], su_printed = []\<rparr>"

section \<open>Reports\<close>

definition child_text :: "xml \<Rightarrow> string \<Rightarrow> string option res" where
  "child_text e tag = (case find_child e tag of None \<Rightarrow> Inl AttributeError | Some c \<Rightarrow> Inr (el_text c))"

text \<open>\<^verbatim>\<open>"%s" % x\<close> where \<open>x\<close> may be \<^verbatim>\<open>None\<close>.\<close>

definition show_text :: "string option \<Rightarrow> string" where
  "show_text t = (case t of None \<Rightarrow> ''None'' | Some s \<Rightarrow> s)"

record test_info =
  ti_result :: "string option"
  ti_name :: "string option"
  ti_reason :: "string option"
  ti_time :: "string option"

definition time_real :: "xml \<Rightarrow> string option" where
  "time_real e = (case find_child e ''Time'' of None \<Rightarrow> Some [] | Some c \<Rightarrow> dict_get (el_attrs c) ''real'')"

definition read_test :: "xml \<Rightarrow> test_info res" where
  "read_test test =
     rbind (child_text test ''Result'') (\<lambda>result.
     rbind (child_text test ''Name'') (\<lambda>name.
       Inr \<lparr>ti_result = result, ti_name = name,
            ti_reason = (case find_child test ''Reason'' of None \<Rightarrow> Some [] | Some c \<Rightarrow> el_text c),
            ti_time = time_real test\<rparr>))"

definition detail_fields :: "string list" where
  "detail_fields = [''Message'', ''Condition'', ''Actual'', ''Limit'', ''File'', ''Line'']"

definition detail_text :: "xml \<Rightarrow> string res" where
  "detail_text details =
     rbind (mapM (\<lambda>field. rbind (child_text details field) (\<lambda>t.
              Inr (''      '' @ field @ '':'' @ replicate (10 - length field) (CHR '' '') @ show_text t @ [nl]))) detail_fields) (\<lambda>rows.
       Inr (''    Details:'' @ [nl] @ concat rows))"

definition test_line :: "string \<Rightarrow> test_info \<Rightarrow> string" where
  "test_line test_type ti =
     show_text (ti_result ti) @ '': Test '' @ test_type @ '' '' @ [CHR 0x22] @ show_text (ti_name ti) @ [CHR 0x22]
     @ '' ('' @ show_text (ti_time ti) @ '')''
     @ (case ti_reason ti of None \<Rightarrow> ''None'' | Some r \<Rightarrow> if r = [] then [] else '' ('' @ r @ '')'') @ [nl]"

fun node_to_text :: "string \<Rightarrow> xml \<Rightarrow> string res" where
  "node_to_text test_type test =
     rbind (read_test test) (\<lambda>ti.
     rbind (mapM detail_text (findall test ''FailureDetails'')) (\<lambda>details.
     rbind (mapM (\<lambda>child. node_to_text ''Case'' child) (findall test ''Test'')) (\<lambda>cases.
       Inr (test_line test_type ti @ concat details @ concat cases))))"

declare node_to_text.simps [simp del]

definition example_text :: "xml \<Rightarrow> string res" where
  "example_text example =
     rbind (child_text example ''Result'') (\<lambda>result.
     rbind (child_text example ''Name'') (\<lambda>name.
       Inr (show_text result @ '': Example '' @ [CHR 0x22] @ show_text name @ [CHR 0x22] @ '' ('' @ show_text (time_real example) @ '')'' @ [nl])))"

definition translate_to_text :: "xml \<Rightarrow> string res" where
  "translate_to_text et =
     rbind (mapM (node_to_text ''Suite'') (findall et ''Test'')) (\<lambda>tests.
     rbind (mapM example_text (findall et ''Example'')) (\<lambda>examples.
       Inr (concat tests @ concat examples)))"

text \<open>\<^verbatim>\<open>translate_to_html\<close>.\<close>

definition put_line :: "string \<Rightarrow> string" where
  "put_line s = s @ [nl]"

definition colored_cell :: "string \<Rightarrow> string \<Rightarrow> string \<Rightarrow> string" where
  "colored_cell tag color body = ''<'' @ tag @ '' style='' @ [CHR 0x22] @ ''color:'' @ color @ [CHR 0x22] @ ''>'' @ body"

definition cell :: "string \<Rightarrow> string" where
  "cell body = put_line (''<td>'' @ body @ ''</td>'')"

definition table_start :: string where
  "table_start = put_line (''<table border='' @ [CHR 0x22] @ ''1'' @ [CHR 0x22] @ ''>'')"

definition orange :: string where
  "orange = ''#ff6600''"

definition suite_header :: "test_info \<Rightarrow> string" where
  "suite_header ti =
     (let body = show_text (ti_result ti) @ '': '' @ show_text (ti_name ti) @ '' ('' @ show_text (ti_time ti) @ '')'' in
      if ti_result ti = Some ''PASS'' then put_line (colored_cell ''h3'' ''green'' body @ ''</h3>'')
      else if ti_result ti = Some ''SKIP'' then put_line (colored_cell ''h3'' orange (body @ '' ('' @ show_text (ti_reason ti) @ '')'') @ ''</h3>'')
      else put_line (colored_cell ''h3'' ''red'' body @ ''</h3>''))"

definition detail_cell :: "xml \<Rightarrow> string res" where
  "detail_cell details =
     rbind (mapM (\<lambda>field. rbind (child_text details field) (\<lambda>t. Inr (''<b>'' @ field @ '': </b>'' @ show_text t))) detail_fields) (\<lambda>fields.
       Inr (''<td>'' @ join_with '', '' fields @ ''</td>'' @ [nl]))"

text \<open>The rows of a failed case: the first has the result, the name and the time.\<close>

fun failure_rows :: "test_info \<Rightarrow> bool \<Rightarrow> xml list \<Rightarrow> string res" where
  "failure_rows ti first_row [] = Inr []"
| "failure_rows ti first_row (details # rest) =
     rbind (detail_cell details) (\<lambda>d.
     rbind (failure_rows ti False rest) (\<lambda>rows.
       Inr (put_line ''<tr>''
            @ (if first_row
               then put_line (colored_cell ''td'' ''red'' (show_text (ti_result ti)) @ ''</td>'') @ cell (show_text (ti_name ti)) @ cell (show_text (ti_time ti))
               else cell [] @ cell [] @ cell [])
            @ d @ put_line ''</td>'' @ rows)))"

definition case_rows :: "xml \<Rightarrow> string res" where
  "case_rows test_case =
     rbind (read_test test_case) (\<lambda>ti.
       if ti_result ti = Some ''FAIL'' then failure_rows ti True (findall test_case ''FailureDetails'')
       else Inr (put_line ''<tr>'' @ put_line (colored_cell ''td'' ''green'' (show_text (ti_result ti)) @ ''</td>'')
                 @ cell (show_text (ti_name ti)) @ cell (show_text (ti_time ti)) @ cell (show_text (ti_reason ti)) @ put_line ''</tr>''))"

definition suite_html :: "xml \<Rightarrow> string res" where
  "suite_html suite =
     rbind (read_test suite) (\<lambda>ti.
       let head = suite_header ti @ table_start @ put_line ''<th> Result </th>'' in
       if ti_result ti \<in> {Some ''CRASH'', Some ''SKIP'', Some ''VALGR''}
       then Inr (head @ put_line ''<tr>''
                 @ put_line (colored_cell ''td'' (if ti_result ti = Some ''SKIP'' then orange else ''red'') (show_text (ti_result ti)) @ ''</td>'')
                 @ put_line ''</tr>'' @ put_line ''</table>'')
       else rbind (mapM case_rows (findall suite ''Test'')) (\<lambda>rows.
              Inr (head @ put_line ''<th>Test Case Name</th>'' @ put_line ''<th> Time </th>''
                   @ (if ti_result ti = Some ''FAIL'' then put_line ''<th>Failure Details</th>'' else [])
                   @ concat rows @ put_line ''</table>'')))"

definition example_html :: "xml \<Rightarrow> string res" where
  "example_html example =
     rbind (read_test example) (\<lambda>ti.
       Inr (put_line ''<tr>''
            @ (if ti_result ti = Some ''PASS'' then put_line (colored_cell ''td'' ''green'' (show_text (ti_result ti)) @ ''</td>'')
               else if ti_result ti = Some ''SKIP'' then put_line (colored_cell ''td'' orange (show_text (ti_result ti)) @ ''</fd>'')
               else put_line (colored_cell ''td'' ''red'' (show_text (ti_result ti)) @ ''</td>''))
            @ cell (show_text (ti_name ti)) @ cell (show_text (ti_time ti)) @ cell (show_text (ti_reason ti)) @ put_line ''</tr>''))"

definition translate_to_html :: "xml \<Rightarrow> string res" where
  "translate_to_html et =
     rbind (mapM suite_html (findall et ''Test'')) (\<lambda>suites.
     rbind (mapM example_html (findall et ''Example'')) (\<lambda>examples.
       Inr (put_line ''<html>'' @ put_line ''<body>'' @ put_line ''<center><h1>ns-3 Test Results</h1></center>'' @ put_line ''<h2>Test Suites</h2>''
            @ concat suites @ put_line ''<h2>Examples</h2>'' @ table_start @ put_line ''<th> Result </th>'' @ put_line ''<th>Example Name</th>''
            @ put_line ''<th>Elapsed Time</th>'' @ put_line ''<th>Details</th>'' @ concat examples @ put_line ''</table>'' @ put_line ''</body>'' @ put_line ''</html>'')))"

section \<open>The whole run\<close>

definition name_list :: "string \<Rightarrow> string list \<Rightarrow> string list" where
  "name_list title names =
     (if names = [] then [] else [title @ [nl] @ ''    '' @ join_with ([nl] @ ''    '') (sort names)])"

definition summary_lines :: "summary \<Rightarrow> int \<Rightarrow> string list" where
  "summary_lines su total_tests =
     [show_int (su_passed su) @ '' of '' @ show_int total_tests @ '' tests passed ('' @ show_int (su_passed su) @ '' passed, ''
      @ show_int (su_skipped su) @ '' skipped, '' @ show_int (su_failed su) @ '' failed, '' @ show_int (su_crashed su) @ '' crashed, ''
      @ show_int (su_valgrind su) @ '' valgrind errors)'']
     @ name_list ''List of SKIPped tests:'' (su_skipped_names su) @ name_list ''List of FAILed tests:'' (su_failed_names su)
     @ name_list ''List of CRASHed tests:'' (su_crashed_names su) @ name_list ''List of VALGR failures:'' (su_valgrind_names su)"

text \<open>
  What a run leaves: its exit code, where returning \<^verbatim>\<open>None\<close> is success, what it printed,
  the results file and the reports written.
\<close>

record report =
  rp_code :: int
  rp_printed :: "string list"
  rp_xml :: string
  rp_files :: "(string \<times> string) list"

definition written :: "string \<Rightarrow> string \<Rightarrow> string res \<Rightarrow> (string \<times> string) list res" where
  "written name ext content = (if name = [] then Inr [] else rbind content (\<lambda>c. Inr [(name @ ext, c)]))"

definition finish_run :: "(string \<Rightarrow> xml res) \<Rightarrow> options \<Rightarrow> int \<Rightarrow> summary \<Rightarrow> report res" where
  "finish_run parse_xml opts total_tests su =
     (let results = su_xml su @ put_line ''</Results>'' in
      rbind (written (o_html opts) ''.html'' (rbind (parse_xml results) translate_to_html)) (\<lambda>html.
      rbind (written (o_text opts) ''.txt'' (rbind (parse_xml results) translate_to_text)) (\<lambda>txts.
      rbind (written (o_xml opts) ''.xml'' (Inr results)) (\<lambda>xmls.
        Inr \<lparr>rp_code = (if su_passed su + su_skipped su = total_tests then 0 else 1),
             rp_printed = su_printed su @ summary_lines su total_tests, rp_xml = results, rp_files = html @ txts @ xmls\<rparr>))))"

text \<open>The part of \<^verbatim>\<open>run_tests\<close> before the threads are started.\<close>

datatype plan = Stop int "string list" | Run "job list"

definition list_output :: "world \<Rightarrow> config \<Rightarrow> options \<Rightarrow> examples \<Rightarrow> string list res" where
  "list_output w cfg opts e =
     (let (rc, out) = ask_runner w cfg ('' --print-test-name-list --print-test-types''
            @ (if o_constrain opts \<noteq> [] then '' --test-type='' @ o_constrain opts else []))
      in if rc \<noteq> 0
         then Inr [''test.py error:  test-runner return code returned '' @ show_int rc,
                   ''To debug, try running '' @ [CHR 0x27] @ ''./waf --run '' @ [CHR 0x22] @ ''test-runner --print-test-name-list'' @ [CHR 0x22, CHR 0x27, nl]]
         else rbind out (\<lambda>standard_out.
           Inr ([''Test Type    Test Name'', ''---------    ---------'']
                @ filter (\<lambda>item. py_strip item \<noteq> []) (sort (split_on nl standard_out))
                @ map (\<lambda>item. ''example      '' @ item) (sort (ex_names_original e)) @ [[]])))"

definition kinds_output :: "world \<Rightarrow> config \<Rightarrow> string list" where
  "kinds_output w cfg = (case snd (ask_runner w cfg '' --print-test-type-list'') of Inr s \<Rightarrow> [s] | Inl _ \<Rightarrow> [])"

definition prepare :: "world \<Rightarrow> config \<Rightarrow> options \<Rightarrow> plan res" where
  "prepare w cfg opts =
     (let waf = pr_code (w_exec w (waf_command opts) (w_cwd w)) in
      if \<not> o_nowaf opts \<and> waf \<noteq> 0 then Inr (Stop waf [])
      else rbind (build_status w cfg) (\<lambda>(programs, scripts).
           rbind (find_examples w cfg) (\<lambda>e.
             let kinds = (if o_kinds opts then kinds_output w cfg else [])
             in rbind (if o_list opts then list_output w cfg opts e else Inr []) (\<lambda>listing.
                  if o_kinds opts \<or> o_list opts then Inr (Stop 0 (kinds @ listing))
                  else rbind (all_jobs w cfg opts programs scripts e) (\<lambda>jobs. Inr (Run jobs))))))"

text \<open>The part after that, on the results in the order in which they were taken out of the queue.\<close>

definition conclude :: "world \<Rightarrow> options \<Rightarrow> (string \<Rightarrow> xml res) \<Rightarrow> bool \<Rightarrow> job list \<Rightarrow> job list \<Rightarrow> report res" where
  "conclude w opts parse_xml use_color jobs results =
     (let total_tests = int (length jobs)
      in rbind (foldM (collect_job w opts use_color total_tests) start_summary results) (\<lambda>su.
           finish_run parse_xml opts total_tests su))"

end
