(* ===== verification/Test_Runner_Correct.thy ===== *)
theory Test_Runner_Correct
  imports Test_Runner "HOL-Library.Multiset"
begin

text \<open>
  Correctness of the test runner: the threads run every job exactly once under every schedule,
  the exit code and the results file say what the jobs did, which suites are selected, what the
  tests find in their environment, and what the text report lists.
\<close>

section \<open>The worker threads\<close>

text \<open>A job as it was put into the queue: without what a worker writes into it.\<close>

definition core :: "job \<Rightarrow> job" where
  "core job = job\<lparr>jb_is_break := False, jb_returncode := 0, jb_elapsed_time := 0\<rparr>"

definition fresh :: "job \<Rightarrow> bool" where
  "fresh job \<longleftrightarrow> core job = job"

lemma core_simps [simp]: "core (core job) = core job" "core (job\<lparr>jb_is_break := b\<rparr>) = core job"
    "jb_is_skip (core job) = jb_is_skip job" "\<not> jb_is_break (core job)"
  by (simp_all add: core_def)

lemma fresh_not_break: "fresh job \<Longrightarrow> \<not> jb_is_break job"
  using core_simps(4) [of job] by (simp add: fresh_def)

fun running :: "worker list \<Rightarrow> job list" where
  "running [] = []"
| "running (Running job # ws) = job # running ws"
| "running (_ # ws) = running ws"

lemma running_append: "running (xs @ ys) = running xs @ running ys"
  by (induction xs rule: running.induct) auto

lemma running_update:
  assumes "i < length ws"
  shows "mset (running (ws[i := wk])) + mset (running [ws ! i]) = mset (running ws) + mset (running [wk])"
proof -
  have "ws = take i ws @ ws ! i # drop (Suc i) ws" using assms by (rule id_take_nth_drop)
  then have "running ws = running (take i ws) @ running [ws ! i] @ running (drop (Suc i) ws)"
    by (metis append_Cons append_Nil running_append)
  moreover have "running (ws[i := wk]) = running (take i ws) @ running [wk] @ running (drop (Suc i) ws)"
    using assms by (simp add: upd_conv_take_nth_drop running_append flip: append_Cons [of wk "[]"])
      (metis append_Cons append_Nil running_append)
  ultimately show ?thesis by simp
qed

lemma ended_update:
  assumes "i < length ws" "ws ! i \<noteq> Ended"
  shows "count (mset (ws[i := wk])) Ended = count (mset ws) Ended + of_bool (wk = Ended)"
  using assms by (simp add: mset_update)

lemma not_all_ended: "\<not> list_all (\<lambda>wk. wk = Ended) ws \<Longrightarrow> count (mset ws) Ended < length ws"
proof (induction ws)
  case (Cons wk ws)
  have "count (mset ws) Ended \<le> length ws" by (metis count_le_size size_mset)
  with Cons show ?case by auto
qed simp

text \<open>What becomes of a job that a worker gets and that is not interrupted.\<close>

definition outcome :: "(job \<Rightarrow> job) \<Rightarrow> job \<Rightarrow> job" where
  "outcome perf job = (if jb_is_skip job then job else perf job)"

definition accounted :: "(job \<Rightarrow> job) \<Rightarrow> pool \<Rightarrow> job \<Rightarrow> bool" where
  "accounted perf p r \<longleftrightarrow> (po_exit p \<and> r = (core r)\<lparr>jb_is_break := True\<rparr>) \<or> r = outcome perf (core r)"

text \<open>
  The invariant of the threads: the jobs still queued, the stop signs after them, the jobs
  that are running and the results together are the jobs of the run.
\<close>

definition queued_ok :: "nat \<Rightarrow> job list \<Rightarrow> pool \<Rightarrow> job list \<Rightarrow> job list \<Rightarrow> bool" where
  "queued_ok n jobs p rs bs \<longleftrightarrow>
     po_input p @ po_pending p = rs @ bs \<and> list_all fresh rs \<and> list_all jb_is_break bs
     \<and> mset (map core (rs @ running (po_workers p) @ po_output p @ po_collected p)) = mset jobs
     \<and> length bs + count (mset (po_workers p)) Ended = n
     \<and> (rs \<noteq> [] \<longrightarrow> Ended \<notin> set (po_workers p))"

definition pool_ok :: "(job \<Rightarrow> job) \<Rightarrow> nat \<Rightarrow> job list \<Rightarrow> pool \<Rightarrow> bool" where
  "pool_ok perf n jobs p \<longleftrightarrow>
     (\<exists>rs bs. queued_ok n jobs p rs bs)
     \<and> list_all (\<lambda>job. fresh job \<and> \<not> jb_is_skip job) (running (po_workers p))
     \<and> list_all (accounted perf p) (po_output p @ po_collected p)
     \<and> length (po_workers p) = n \<and> po_wanted p + length (po_collected p) = length jobs"

lemma queued_length:
  assumes "queued_ok n jobs p rs bs"
  shows "length rs + length (running (po_workers p)) + length (po_output p) + length (po_collected p) = length jobs"
proof -
  have "mset (map core (rs @ running (po_workers p) @ po_output p @ po_collected p)) = mset jobs" using assms by (simp add: queued_ok_def)
  from mset_eq_length [OF this] show ?thesis by simp
qed

lemma pool_ok_start:
  assumes "list_all fresh jobs"
  shows "pool_ok perf n jobs (start_pool n jobs)"
proof -
  have "map core jobs = jobs" using assms by (intro map_idI) (simp add: list_all_iff fresh_def)
  moreover have "running (replicate n Waiting) = []" by (induction n) auto
  ultimately have "queued_ok n jobs (start_pool n jobs) jobs (replicate n (new_job\<lparr>jb_is_break := True\<rparr>))"
    using assms by (auto simp: queued_ok_def start_pool_def list_all_iff)
  then show ?thesis using \<open>running (replicate n Waiting) = []\<close> by (auto simp: pool_ok_def start_pool_def)
qed

lemma accounted_output:
  "accounted perf (p\<lparr>po_output := out\<rparr>) = accounted perf p" "accounted perf (p\<lparr>po_input := inp\<rparr>) = accounted perf p"
  by (simp_all add: accounted_def fun_eq_iff)

text \<open>The contract of running a job: the job stays the same but for the return code and the time.\<close>

locale performer =
  fixes perf :: "job \<Rightarrow> job"
  assumes perf_core: "core (perf job) = core job"
begin

lemma take_ok:
  assumes ok: "pool_ok perf n jobs p" and input: "po_input p = job # rest" and i: "i < length (po_workers p)" "po_workers p ! i = Waiting"
    and take: "worker_take (po_exit p) job = (wk, out)"
  shows "pool_ok perf n jobs (p\<lparr>po_input := rest, po_workers := (po_workers p)[i := wk], po_output := po_output p @ out\<rparr>)"
    (is "pool_ok perf n jobs ?p")
proof -
  obtain rs bs where q: "queued_ok n jobs p rs bs" using ok by (auto simp: pool_ok_def)
  have ru: "mset (running ((po_workers p)[i := wk])) = mset (running (po_workers p)) + mset (running [wk])"
    using running_update [OF i(1), of wk] i(2) by simp
  have "set_mset (mset (running ((po_workers p)[i := wk]))) = set_mset (mset (running (po_workers p)) + mset (running [wk]))" by (simp only: ru)
  then have rset: "set (running ((po_workers p)[i := wk])) = set (running (po_workers p)) \<union> set (running [wk])" by simp
  have acc: "accounted perf ?p r = accounted perf p r" for r by (simp add: accounted_def)
  have rest: "list_all (\<lambda>job. fresh job \<and> \<not> jb_is_skip job) (running (po_workers p))" "list_all (accounted perf p) (po_output p @ po_collected p)"
    "length (po_workers p) = n" "po_wanted p + length (po_collected p) = length jobs"
    using ok by (simp_all add: pool_ok_def)
  have eu: "count (mset ((po_workers p)[i := wk])) Ended = count (mset (po_workers p)) Ended + of_bool (wk = Ended)"
    using ended_update [OF i(1)] i(2) by simp
  show ?thesis
  proof (cases rs)
    case Nil
    then obtain bs' where bs: "bs = job # bs'" "rest @ po_pending p = bs'" using q input by (cases bs) (auto simp: queued_ok_def)
    then have "wk = Ended" "out = []" using q take by (auto simp: queued_ok_def worker_take_def split: if_splits)
    then have "queued_ok n jobs ?p [] bs'" using q bs Nil ru eu by (auto simp: queued_ok_def)
    with rest rset acc \<open>wk = Ended\<close> \<open>out = []\<close> show ?thesis by (auto simp: pool_ok_def list_all_iff)
  next
    case (Cons r rs')
    then have job: "r = job" "rest @ po_pending p = rs' @ bs" "fresh job" "Ended \<notin> set (po_workers p)"
      using q input by (auto simp: queued_ok_def)
    have nb: "\<not> jb_is_break job" "core job = job" using job(3) fresh_not_break by (auto simp: fresh_def)
    have wk: "wk \<noteq> Ended" "mset (map core (running [wk] @ out)) = {#job#}" "list_all (accounted perf p) out"
        "list_all (\<lambda>job. fresh job \<and> \<not> jb_is_skip job) (running [wk])"
      using take nb job(3) by (auto simp: worker_take_def accounted_def outcome_def split: if_splits)
    have "Ended \<notin> set ((po_workers p)[i := wk])" using job(4) wk(1) set_update_subset_insert [of "po_workers p" i wk] by auto
    moreover have "mset (map core (rs' @ running ((po_workers p)[i := wk]) @ (po_output p @ out) @ po_collected p)) = mset jobs"
    proof -
      have "mset jobs = {#job#} + mset (map core (rs' @ running (po_workers p) @ po_output p @ po_collected p))"
        using q Cons nb job(1) by (auto simp: queued_ok_def)
      also have "{#job#} = mset (map core (running [wk] @ out))" using wk(2) ..
      finally show ?thesis by (simp add: ru ac_simps)
    qed
    ultimately have "queued_ok n jobs ?p rs' bs" using q Cons job eu wk(1) by (auto simp: queued_ok_def)
    with rest rset acc wk(3,4) show ?thesis by (auto simp: pool_ok_def list_all_iff)
  qed
qed

lemma finish_ok:
  assumes ok: "pool_ok perf n jobs p" and i: "i < length (po_workers p)" "po_workers p ! i = Running job"
  shows "pool_ok perf n jobs (p\<lparr>po_workers := (po_workers p)[i := Waiting], po_output := po_output p @ [perf job]\<rparr>)"
    (is "pool_ok perf n jobs ?p")
proof -
  obtain rs bs where q: "queued_ok n jobs p rs bs" using ok by (auto simp: pool_ok_def)
  have ru: "mset (running ((po_workers p)[i := Waiting])) + {#job#} = mset (running (po_workers p))"
    using running_update [OF i(1), of Waiting] i(2) by simp
  have "job \<in># mset (running (po_workers p))" by (simp flip: ru)
  then have job: "fresh job" "\<not> jb_is_skip job" using ok by (auto simp: pool_ok_def list_all_iff)
  have "set (running ((po_workers p)[i := Waiting])) \<subseteq> set (running (po_workers p))"
    using arg_cong [OF ru, of set_mset] by auto
  moreover have "accounted perf ?p r = accounted perf p r" for r by (simp add: accounted_def)
  moreover have "accounted perf p (perf job)" using job by (simp add: accounted_def outcome_def perf_core fresh_def)
  moreover have "queued_ok n jobs ?p rs bs"
  proof -
    have "mset (map core (running (po_workers p))) = image_mset core (mset (running ((po_workers p)[i := Waiting])) + {#job#})"
      by (simp only: ru mset_map)
    then have "mset (map core (rs @ running ((po_workers p)[i := Waiting]) @ (po_output p @ [perf job]) @ po_collected p)) = mset jobs"
      using q by (auto simp: queued_ok_def perf_core)
    moreover have "Ended \<notin> set ((po_workers p)[i := Waiting])" if "Ended \<notin> set (po_workers p)"
      using that set_update_subset_insert [of "po_workers p" i Waiting] by auto
    ultimately show ?thesis using q ended_update [OF i(1), of Waiting] i(2) by (auto simp: queued_ok_def)
  qed
  ultimately show ?thesis using ok by (auto simp: pool_ok_def list_all_iff)
qed

lemma step_ok:
  assumes "pool_step perf p q" "pool_ok perf n jobs p"
  shows "pool_ok perf n jobs q"
  using assms
proof (cases rule: pool_step.cases)
  case (put_job job rest)
  then show ?thesis using assms(2) by (auto simp: pool_ok_def queued_ok_def accounted_def list_all_iff)
next
  case (take_job job rest i wk out)
  with take_ok assms(2) show ?thesis by simp
next
  case (finish_job i job)
  with finish_ok assms(2) show ?thesis by simp
next
  case (get_result k job rest)
  then show ?thesis using assms(2) by (auto simp: pool_ok_def queued_ok_def accounted_def list_all_iff)
next
  case interrupt
  then show ?thesis using assms(2) by (auto simp: pool_ok_def queued_ok_def accounted_def list_all_iff)
qed

lemma reachable_ok:
  "(pool_step perf)\<^sup>*\<^sup>* (start_pool n jobs) p \<Longrightarrow> list_all fresh jobs \<Longrightarrow> pool_ok perf n jobs p"
  by (induction rule: rtranclp_induct) (auto intro: pool_ok_start step_ok)

text \<open>A thread can always go on until all threads have ended and all results are in.\<close>

lemma idle_worker:
  assumes "running ws = []" "ws \<noteq> []" "Ended \<notin> set ws \<or> count (mset ws) Ended < length ws"
  obtains i where "i < length ws" "ws ! i = Waiting"
proof -
  have "\<exists>wk\<in>set ws. wk \<noteq> Ended"
  proof (rule ccontr)
    assume all: "\<not> (\<exists>wk\<in>set ws. wk \<noteq> Ended)"
    then have "ws = replicate (length ws) Ended" by (metis replicate_length_same)
    then have "count (mset ws) Ended = length ws" by (metis count_replicate_mset mset_replicate)
    moreover have "Ended \<in> set ws" using all assms(2) by (cases ws) auto
    ultimately show False using assms(3) by simp
  qed
  moreover have "wk \<noteq> Running job" if "wk \<in> set ws" for wk job
    using assms(1) that by (induction ws rule: running.induct) auto
  ultimately show ?thesis using that by (metis in_set_conv_nth worker.exhaust)
qed

lemma running_finishes:
  assumes "running (po_workers p) \<noteq> []"
  obtains i job where "i < length (po_workers p)" "po_workers p ! i = Running job"
proof -
  have "\<exists>job. Running job \<in> set ws" if "running ws \<noteq> []" for ws
    using that by (induction ws rule: running.induct) auto
  with assms that show ?thesis by (metis in_set_conv_nth)
qed

lemma progress:
  assumes ok: "pool_ok perf n jobs p" and n: "0 < n" and "\<not> joined p"
  shows "\<exists>q. pool_step perf p q \<and> po_exit q = po_exit p"
proof -
  obtain rs bs where q: "queued_ok n jobs p rs bs" using ok by (auto simp: pool_ok_def)
  have len: "length rs + length (running (po_workers p)) + length (po_output p) = po_wanted p"
    using ok queued_length [OF q] by (simp add: pool_ok_def)
  have take: "\<exists>q. pool_step perf p q \<and> po_exit q = po_exit p" if ne: "po_input p \<noteq> []" and idle: "running (po_workers p) = []"
      "Ended \<notin> set (po_workers p) \<or> count (mset (po_workers p)) Ended < length (po_workers p)"
  proof -
    have "po_workers p \<noteq> []" using ok n by (auto simp: pool_ok_def)
    with idle obtain i where i: "i < length (po_workers p)" "po_workers p ! i = Waiting" using idle_worker [of "po_workers p"] by metis
    obtain job rest where "po_input p = job # rest" using ne by (cases "po_input p") auto
    moreover obtain wk out where "worker_take (po_exit p) job = (wk, out)" by fastforce
    ultimately show ?thesis using pool_step.take_job [OF _ i, of job rest wk out perf] by fastforce
  qed
  show ?thesis
  proof (cases "po_pending p")
    case (Cons job rest)
    from pool_step.put_job [OF this, of perf] show ?thesis by fastforce
  next
    case pending: Nil
    show ?thesis
    proof (cases "running (po_workers p) = []")
      case False
      then obtain i job where "i < length (po_workers p)" "po_workers p ! i = Running job" by (rule running_finishes)
      from pool_step.finish_job [OF this, of perf] show ?thesis by fastforce
    next
      case idle: True
      show ?thesis
      proof (cases "po_output p")
        case (Cons job rest)
        then obtain k where "po_wanted p = Suc k" using len by (cases "po_wanted p") auto
        from pool_step.get_result [OF pending this Cons, of perf] show ?thesis by fastforce
      next
        case Nil
        show ?thesis
        proof (cases rs)
          case (Cons r rs')
          with q pending show ?thesis by (intro take idle) (auto simp: queued_ok_def)
        next
          case rs: Nil
          with len Nil idle have "po_wanted p = 0" by simp
          with assms(3) pending have "\<not> list_all (\<lambda>wk. wk = Ended) (po_workers p)" by (simp add: joined_def)
          then have "count (mset (po_workers p)) Ended < length (po_workers p)"
            using not_all_ended by blast
          with q rs pending ok show ?thesis by (intro take idle) (auto simp: queued_ok_def pool_ok_def)
        qed
      qed
    qed
  qed
qed

lemma results:
  assumes "pool_ok perf n jobs p" "joined p"
  shows "mset (map core (po_collected p)) = mset jobs" "list_all (accounted perf p) (po_collected p)"
    "\<not> po_exit p \<Longrightarrow> mset (po_collected p) = mset (map (outcome perf) jobs)"
proof -
  obtain rs bs where q: "queued_ok n jobs p rs bs" using assms(1) by (auto simp: pool_ok_def)
  have "length (po_collected p) = length jobs" using assms by (auto simp: pool_ok_def joined_def)
  moreover have m: "mset (map core (rs @ running (po_workers p) @ po_output p @ po_collected p)) = mset jobs" using q by (simp add: queued_ok_def)
  ultimately have "rs = []" "running (po_workers p) = []" "po_output p = []" using queued_length [OF q] by simp_all
  with m show c: "mset (map core (po_collected p)) = mset jobs" by simp
  show acc: "list_all (accounted perf p) (po_collected p)" using assms(1) by (simp add: pool_ok_def)
  assume "\<not> po_exit p"
  then have "map (outcome perf) (map core (po_collected p)) = po_collected p"
    using acc unfolding map_map by (intro map_idI) (auto simp: accounted_def list_all_iff)
  then show "mset (po_collected p) = mset (map (outcome perf) jobs)" using c by (metis mset_map)
qed

end

text \<open>No schedule goes on forever.\<close>

definition pool_size :: "pool \<Rightarrow> nat" where
  "pool_size p = 5 * length (po_pending p) + 4 * length (po_input p) + 3 * length (running (po_workers p)) + 2 * length (po_output p)
     + of_bool (\<not> po_exit p)"

lemma pool_step_size: "pool_step perf p q \<Longrightarrow> pool_size q < pool_size p"
proof (induction rule: pool_step.induct)
  case (take_job p job rest i wk out)
  have "length (running ((po_workers p)[i := wk])) = length (running (po_workers p)) + length (running [wk])"
    using arg_cong [OF running_update [OF take_job(2), of wk], of size] take_job(3) by simp
  with take_job show ?case by (auto simp: pool_size_def worker_take_def split: if_splits)
next
  case (finish_job i p job)
  have "length (running ((po_workers p)[i := Waiting])) + 1 = length (running (po_workers p))"
    using arg_cong [OF running_update [OF finish_job(1), of Waiting], of size] finish_job(2) by simp
  then show ?case by (simp add: pool_size_def)
qed (auto simp: pool_size_def)

lemma pool_terminates: "wfp (\<lambda>q p. pool_step perf p q)"
  by (rule wfp_if_convertible_to_nat [of _ pool_size]) (rule pool_step_size)

text \<open>So every state that is reached can be continued, without an interrupt, to the end of the run.\<close>

context performer
begin

lemma reaches_end:
  assumes "pool_ok perf n jobs p" "0 < n"
  shows "\<exists>q. (pool_step perf)\<^sup>*\<^sup>* p q \<and> joined q \<and> po_exit q = po_exit p"
  using assms(1)
proof (induction "pool_size p" arbitrary: p rule: less_induct)
  case less
  show ?case
  proof (cases "joined p")
    case False
    then obtain q where q: "pool_step perf p q" "po_exit q = po_exit p" using progress [OF less.prems assms(2)] by blast
    from less.hyps [OF pool_step_size [OF q(1)] step_ok [OF q(1) less.prems]] q show ?thesis
      by (metis converse_rtranclp_into_rtranclp)
  qed auto
qed

end

interpretation workers: performer "perform w cfg opts" for w cfg opts
  by unfold_locales (simp add: perform_def core_def Let_def split_def)

section \<open>The jobs\<close>

lemma skip_job_core [simp]: "core (skip_job b reason job) = skip_job b reason (core job)"
  by (simp add: skip_job_def core_def)

lemma fresh_skip_job: "fresh job \<Longrightarrow> fresh (skip_job b reason job)"
  by (simp add: fresh_def)

lemma fresh_jobs: "fresh (suite_job w cfg opts t)" "fresh (example_job w name command build_path)" "fresh (pyexample_job w name)"
proof -
  show "fresh (suite_job w cfg opts t)"
    unfolding suite_job_def Let_def by (intro fresh_skip_job) (simp add: fresh_def core_def new_job_def)
qed (simp_all add: fresh_def core_def new_job_def example_job_def pyexample_job_def)

lemma all_jobs_fresh:
  assumes "all_jobs w cfg opts programs scripts e = Inr jobs"
  shows "list_all fresh jobs"
proof -
  have "list_all fresh (suite_jobs w cfg opts suites)" for suites by (simp add: suite_jobs_def list_all_iff fresh_jobs)
  moreover have "list_all fresh (example_jobs w cfg opts progs e)" for progs
    by (auto simp: example_jobs_def list_all_iff listed_example_job_def Let_def fresh_jobs fresh_skip_job split: prod.splits if_splits)
  moreover have "list_all fresh (pyexample_jobs w cfg opts scripts e)"
    by (auto simp: pyexample_jobs_def list_all_iff listed_pyexample_job_def Let_def fresh_jobs fresh_skip_job split: prod.splits if_splits)
  ultimately show ?thesis using assms by (auto simp: all_jobs_def rbind_Inr_iff)
qed

lemma prepare_fresh: "prepare w cfg opts = Inr (Run jobs) \<Longrightarrow> list_all fresh jobs"
  using all_jobs_fresh by (fastforce simp: prepare_def rbind_Inr_iff Let_def split: if_splits prod.splits)

section \<open>The summary\<close>

definition n_status :: "status \<Rightarrow> job list \<Rightarrow> int" where
  "n_status st rs = int (length (filter (\<lambda>j. \<not> jb_is_break j \<and> job_status j = st) rs))"

text \<open>The entry of a result in the results file.\<close>

definition entry :: "world \<Rightarrow> job \<Rightarrow> string" where
  "entry w job =
     (if jb_is_break job then []
      else if is_any_example job then example_entry job
      else case suite_entry w job of Inr s \<Rightarrow> s | Inl _ \<Rightarrow> [])"

definition recorded :: "world \<Rightarrow> job \<Rightarrow> bool" where
  "recorded w job \<longleftrightarrow> jb_is_break job \<or> is_any_example job \<or> (\<exists>s. suite_entry w job = Inr s)"

lemma count_job_counts:
  "su_xml (count_job job su) = su_xml su"
  "su_passed (count_job job su) = su_passed su + of_bool (job_status job = PASS)"
  "su_skipped (count_job job su) = su_skipped su + of_bool (job_status job = SKIP)"
  "su_failed (count_job job su) = su_failed su + of_bool (job_status job = FAIL)"
  "su_crashed (count_job job su) = su_crashed su + of_bool (job_status job = CRASH)"
  "su_valgrind (count_job job su) = su_valgrind su + of_bool (job_status job = VALGR)"
  by (simp_all add: count_job_def split: status.split)

lemma n_status_single: "n_status st [job] = of_bool (\<not> jb_is_break job \<and> job_status job = st)"
  by (simp add: n_status_def)

lemma collect_job_counts:
  assumes "recorded w job"
  obtains su' where "collect_job w opts uc tt su job = Inr su'" "su_xml su' = su_xml su @ entry w job"
    "su_passed su' = su_passed su + n_status PASS [job]" "su_skipped su' = su_skipped su + n_status SKIP [job]"
    "su_failed su' = su_failed su + n_status FAIL [job]" "su_crashed su' = su_crashed su + n_status CRASH [job]"
    "su_valgrind su' = su_valgrind su + n_status VALGR [job]"
proof (cases "jb_is_break job")
  case True
  then show ?thesis by (intro that [of su]) (simp_all add: collect_job_def entry_def n_status_single)
next
  case False
  let ?su = "(count_job job su)\<lparr>su_printed := su_printed (count_job job su) @ [progress_line opts uc tt (count_job job su) job], su_xml := su_xml su @ entry w job\<rparr>"
  have "collect_job w opts uc tt su job = Inr ?su"
    using assms False by (auto simp: collect_job_def recorded_def entry_def Let_def count_job_counts(1))
  then show ?thesis using False by (intro that [of ?su]) (simp_all add: count_job_counts n_status_single)
qed

lemma n_status_Cons: "n_status st (job # rs) = n_status st [job] + n_status st rs"
  by (simp add: n_status_def)

lemma collect_all:
  assumes "list_all (recorded w) rs"
  shows "\<exists>su'. foldM (collect_job w opts uc tt) su rs = Inr su' \<and> su_xml su' = su_xml su @ concat (map (entry w) rs)
    \<and> su_passed su' = su_passed su + n_status PASS rs \<and> su_skipped su' = su_skipped su + n_status SKIP rs
    \<and> su_failed su' = su_failed su + n_status FAIL rs \<and> su_crashed su' = su_crashed su + n_status CRASH rs
    \<and> su_valgrind su' = su_valgrind su + n_status VALGR rs"
  using assms
proof (induction rs arbitrary: su)
  case Nil
  then show ?case by (simp add: n_status_def)
next
  case (Cons job rs)
  obtain su1 where 1: "collect_job w opts uc tt su job = Inr su1" "su_xml su1 = su_xml su @ entry w job"
    "su_passed su1 = su_passed su + n_status PASS [job]" "su_skipped su1 = su_skipped su + n_status SKIP [job]"
    "su_failed su1 = su_failed su + n_status FAIL [job]" "su_crashed su1 = su_crashed su + n_status CRASH [job]"
    "su_valgrind su1 = su_valgrind su + n_status VALGR [job]"
    using collect_job_counts [of w job opts uc tt su] Cons.prems by auto
  from Cons.IH [of su1] Cons.prems 1 show ?case by (auto simp: n_status_Cons [of _ job rs])
qed

lemma passed_skipped_all:
  "n_status PASS rs + n_status SKIP rs = int (length rs) \<longleftrightarrow> (\<forall>r\<in>set rs. \<not> jb_is_break r \<and> (jb_is_skip r \<or> jb_returncode r = 0))"
proof (induction rs)
  case (Cons r rs)
  have "n_status PASS rs + n_status SKIP rs \<le> int (length rs)"
  proof -
    have "length (filter P rs) + length (filter Q rs) \<le> length rs" if "\<And>x. \<not> (P x \<and> Q x)" for P Q :: "job \<Rightarrow> bool"
      using that by (induction rs) auto
    then show ?thesis unfolding n_status_def by (smt (verit) of_nat_add of_nat_le_iff status.distinct)
  qed
  with Cons show ?case by (auto simp: n_status_def job_status_def split: if_splits)
qed (simp add: n_status_def)

lemma perform_keeps:
  "jb_is_break (perform w cfg opts job) = jb_is_break job" "jb_is_skip (perform w cfg opts job) = jb_is_skip job"
  by (simp_all add: perform_def Let_def split_def)

lemma core_keeps [simp]: "is_any_example (core job) = is_any_example job" "jb_tmp_file_name (core job) = jb_tmp_file_name job"
  by (simp_all add: core_def is_any_example_def)

lemma recorded_results:
  assumes "mset (map core rs) = mset jobs" "\<forall>j\<in>set jobs. is_any_example j \<or> w_text w (jb_tmp_file_name j) \<noteq> None"
  shows "list_all (recorded w) rs"
proof -
  have "set jobs = core ` set rs" using mset_eq_setD [OF assms(1)] by simp
  then have "\<forall>r\<in>set rs. is_any_example r \<or> w_text w (jb_tmp_file_name r) \<noteq> None" using assms(2) by auto
  then show ?thesis by (auto simp: list_all_iff recorded_def suite_entry_def split: option.splits)
qed

lemma outcomes_pass:
  assumes "mset rs = mset (map (outcome (perform w cfg opts)) jobs)" "list_all fresh jobs"
  shows "(\<forall>r\<in>set rs. \<not> jb_is_break r \<and> (jb_is_skip r \<or> jb_returncode r = 0)) \<longleftrightarrow>
    (\<forall>j\<in>set jobs. jb_is_skip j \<or> jb_returncode (perform w cfg opts j) = 0)"
proof -
  have "set rs = outcome (perform w cfg opts) ` set jobs" using mset_eq_setD [OF assms(1)] by simp
  moreover have "\<not> jb_is_break (outcome (perform w cfg opts) j) \<and> (jb_is_skip (outcome (perform w cfg opts) j) \<or> jb_returncode (outcome (perform w cfg opts) j) = 0)
      \<longleftrightarrow> jb_is_skip j \<or> jb_returncode (perform w cfg opts j) = 0" if "j \<in> set jobs" for j
  proof -
    have "\<not> jb_is_break j" using that assms(2) fresh_not_break by (auto simp: list_all_iff)
    then show ?thesis by (simp add: outcome_def perform_keeps)
  qed
  ultimately show ?thesis by simp
qed

section \<open>Selection and environment\<close>

lemma foldl_remove1: "distinct xs \<Longrightarrow> foldl (\<lambda>xs t. remove1 t xs) xs ts = filter (\<lambda>t. t \<notin> set ts) xs"
  by (induction ts arbitrary: xs) (auto simp: distinct_remove1_removeAll removeAll_filter_not_eq intro!: filter_cong)

lemma suite_job_facts:
  "jb_display_name (suite_job w cfg opts t) = t" "\<not> is_any_example (suite_job w cfg opts t)"
  "jb_is_skip (suite_job w cfg opts t) \<longleftrightarrow>
     (o_valgrind opts \<and> t \<in> set core_valgrind_skip_tests) \<or> (\<not> c_nsc_enabled cfg \<and> t \<in> set core_nsc_missing_skip_tests)"
  by (auto simp: suite_job_def skip_job_def new_job_def is_any_example_def Let_def)

lemma examples_are_examples:
  "is_any_example (skip_job b reason job) = is_any_example job" "is_any_example (example_job w name command build_path)"
  "is_any_example (pyexample_job w name)"
  by (simp_all add: skip_job_def is_any_example_def example_job_def pyexample_job_def)

lemma example_jobs_are_examples:
  "job \<in> set (example_jobs w cfg opts programs e) \<Longrightarrow> is_any_example job"
  "job \<in> set (pyexample_jobs w cfg opts scripts e) \<Longrightarrow> is_any_example job"
  by (auto simp: example_jobs_def pyexample_jobs_def listed_example_job_def listed_pyexample_job_def examples_are_examples Let_def split: if_splits)

lemma extend_path_get:
  "dict_get (extend_path var sep paths env) v =
     (if v = var then Some ((case dict_get env var of None \<Rightarrow> [] | Some s \<Rightarrow> s) @ concat (map (\<lambda>q. sep @ q) paths)) else dict_get env v)"
proof -
  have "dict_get (foldl (\<lambda>env q. dict_set env var (the (dict_get env var) @ sep @ q)) env paths) v =
    (if v = var then Some (s @ concat (map (\<lambda>q. sep @ q) paths)) else dict_get env v)" if "dict_get env var = Some s" for env s
    using that by (induction paths arbitrary: env s) (auto simp: update_conv')
  then show ?thesis by (cases "dict_get env var") (auto simp: extend_path_def Let_def update_conv')
qed

section \<open>The text report\<close>

text \<open>The nodes of the report, each with the word before its name, in the order of the file.\<close>

fun nodes_of :: "string \<Rightarrow> xml \<Rightarrow> (string \<times> xml) list" where
  "nodes_of ty test = (ty, test) # concat (map (\<lambda>c. nodes_of ''Case'' c) (findall test ''Test''))"

declare nodes_of.simps [simp del]

definition complete_node :: "xml \<Rightarrow> bool" where
  "complete_node test \<longleftrightarrow> find_child test ''Result'' \<noteq> None \<and> find_child test ''Name'' \<noteq> None
     \<and> (\<forall>d\<in>set (findall test ''FailureDetails''). \<forall>field\<in>set detail_fields. find_child d field \<noteq> None)"

definition text_or_none :: "string res \<Rightarrow> string" where
  "text_or_none r = (case r of Inr s \<Rightarrow> s | Inl _ \<Rightarrow> [])"

definition node_text :: "string \<times> xml \<Rightarrow> string" where
  "node_text = (\<lambda>(ty, test). text_or_none (rbind (read_test test) (\<lambda>ti. Inr (test_line ty ti)))
     @ concat (map (\<lambda>d. text_or_none (detail_text d)) (findall test ''FailureDetails'')))"

lemma child_text_cases: "child_text e tag = (if find_child e tag \<noteq> None then Inr (el_text (the (find_child e tag))) else Inl AttributeError)"
  by (auto simp: child_text_def split: option.split)

lemma read_test_cases:
  "\<exists>ti. read_test test = (if find_child test ''Result'' \<noteq> None \<and> find_child test ''Name'' \<noteq> None then Inr ti else Inl AttributeError)"
  by (auto simp: read_test_def child_text_cases)

lemma detail_text_cases:
  "detail_text d = (if \<forall>field\<in>set detail_fields. find_child d field \<noteq> None then Inr (text_or_none (detail_text d)) else Inl AttributeError)"
proof -
  have "mapM (\<lambda>field. rbind (child_text d field) (\<lambda>t. Inr (''      '' @ field @ '':'' @ replicate (10 - length field) (CHR '' '') @ show_text t @ [nl]))) detail_fields
    = (if list_all (\<lambda>field. find_child d field \<noteq> None) detail_fields
       then Inr (map (\<lambda>field. ''      '' @ field @ '':'' @ replicate (10 - length field) (CHR '' '') @ show_text (el_text (the (find_child d field))) @ [nl]) detail_fields)
       else Inl AttributeError)"
    by (rule mapM_uniform) (simp add: child_text_cases)
  then show ?thesis unfolding detail_text_def by (simp add: list_all_iff text_or_none_def)
qed

lemma concat_map_concat: "concat (map f (concat (map g xs))) = concat (map (\<lambda>x. concat (map f (g x))) xs)"
  by (induction xs) auto

lemma list_all_concat: "list_all P (concat (map g xs)) = list_all (\<lambda>x. list_all P (g x)) xs"
  by (induction xs) auto

lemma node_to_text_nodes:
  "node_to_text ty test =
     (if list_all (\<lambda>(_, t). complete_node t) (nodes_of ty test) then Inr (concat (map node_text (nodes_of ty test))) else Inl AttributeError)"
proof (induction ty test rule: nodes_of.induct)
  case (1 ty test)
  obtain ti where ti: "read_test test = (if find_child test ''Result'' \<noteq> None \<and> find_child test ''Name'' \<noteq> None then Inr ti else Inl AttributeError)"
    using read_test_cases by blast
  have details: "mapM detail_text (findall test ''FailureDetails'') =
      (if list_all (\<lambda>d. \<forall>field\<in>set detail_fields. find_child d field \<noteq> None) (findall test ''FailureDetails'')
       then Inr (map (\<lambda>d. text_or_none (detail_text d)) (findall test ''FailureDetails'')) else Inl AttributeError)"
    by (rule mapM_uniform) (rule detail_text_cases)
  have cases: "mapM (\<lambda>c. node_to_text ''Case'' c) (findall test ''Test'') =
      (if list_all (\<lambda>c. list_all (\<lambda>(_, t). complete_node t) (nodes_of ''Case'' c)) (findall test ''Test'')
       then Inr (map (\<lambda>c. concat (map node_text (nodes_of ''Case'' c))) (findall test ''Test'')) else Inl AttributeError)"
    by (rule mapM_uniform) (rule 1)
  have ok: "complete_node test \<longleftrightarrow> find_child test ''Result'' \<noteq> None \<and> find_child test ''Name'' \<noteq> None
      \<and> list_all (\<lambda>d. \<forall>field\<in>set detail_fields. find_child d field \<noteq> None) (findall test ''FailureDetails'')"
    by (simp add: complete_node_def list_all_iff)
  have own: "node_text (ty, test) = test_line ty ti @ concat (map (\<lambda>d. text_or_none (detail_text d)) (findall test ''FailureDetails''))"
    if "complete_node test" using that by (simp add: node_text_def ti ok text_or_none_def)
  show ?case
    unfolding node_to_text.simps [of ty test] nodes_of.simps [of ty test] ti details cases
    using own by (auto simp: ok list_all_concat concat_map_concat)
qed

section \<open>An example\<close>

definition example_config :: config where
  "example_config =
     \<lparr>c_basedir = ''/ns3'', c_builddir = ''/ns3/build'', c_module_path = [''/ns3/build/lib''], c_enabled_modules = [], c_contributed_modules = [],
      c_nsc_enabled = False, c_enable_examples = True, c_enable_tests = True, c_example_directories = [], c_python_bindings = True,
      c_appname = ''ns'', c_build_profile = ''debug'', c_version = ''3-dev'', c_python = ''/usr/bin/python3'', c_valgrind_found = True\<rparr>"

text \<open>A test runner that knows two suites, one of them a performance test.\<close>

definition example_world :: world where
  "example_world =
     \<lparr>w_cwd = ''/ns3'', w_exists = (\<lambda>_. True), w_lines = (\<lambda>_. Some []), w_text = (\<lambda>_. Some ''<Test></Test>''),
      w_exec = (\<lambda>cmd dir. \<lparr>pr_code = 0,
        pr_out = Some (if ends_with cmd ''=performance'' then ''timing'' else ''buffer'' @ [nl] @ ''timing''), pr_err = Some [], pr_time = 1\<rparr>),
      w_names = (\<lambda>_. Inr []), w_cpp = (\<lambda>_. Inr []), w_py = (\<lambda>_. Inr []), w_condition = (\<lambda>_. True), w_date = ''now'', w_processors = 2,
      w_platform = ''linux''\<rparr>"

lemma example_listing:
  "snd (ask_runner example_world example_config '' --print-test-name-list'') = Inr (''buffer'' @ [nl] @ ''timing'')"
  "snd (ask_runner example_world example_config '' --print-test-name-list --test-type=performance'') = Inr ''timing''"
  by code_simp+

lemma example_prepare:
  "prepare example_world example_config default_options = Inr (Run [suite_job example_world example_config default_options ''buffer''])"
  by code_simp

section \<open>Properties\<close>



text \<open>
  A negative \<^verbatim>\<open>--jobs\<close> starts no thread at all.  If there is any job, the main thread
  then waits for ever: once the jobs have been put it can take no step, and in no reachable state
  has it got a result.
\<close>

theorem no_workers_block:
  assumes "prepare w cfg opts = Inr (Run jobs)" "jobs \<noteq> []" "o_process_limit opts < 0" "0 \<le> w_processors w"
    and "(pool_step (perform w cfg opts))\<^sup>*\<^sup>* (start_pool (nat (worker_count w opts)) jobs) p"
  shows "\<not> joined p \<and> po_collected p = []
    \<and> (po_pending p = [] \<longrightarrow> (\<forall>q. pool_step (perform w cfg opts) p q \<longrightarrow> q = p\<lparr>po_exit := True\<rparr>))"
proof -
  have n: "nat (worker_count w opts) = 0" using assms(3,4) by (simp add: worker_count_def)
  from assms(5) have "po_workers p = [] \<and> po_output p = [] \<and> po_collected p = [] \<and> po_wanted p = length jobs"
    unfolding n
  proof (induction rule: rtranclp_induct)
    case base
    show ?case by (simp add: start_pool_def)
  next
    case (step p q)
    from step(2,3) show ?case by (cases rule: pool_step.cases) auto
  qed
  then show ?thesis using assms(2) by (auto simp: joined_def elim: pool_step.cases)
qed

theorem no_workers_block_witness:
  "\<not> joined (start_pool 0 [suite_job example_world example_config (default_options\<lparr>o_process_limit := - 1\<rparr>) ''buffer''])"
proof -
  let ?o = "default_options\<lparr>o_process_limit := - 1\<rparr>"
  have prep: "prepare example_world example_config ?o = Inr (Run [suite_job example_world example_config ?o ''buffer''])" by code_simp
  have n: "nat (worker_count example_world ?o) = 0" by code_simp
  have "o_process_limit ?o < 0" "0 \<le> w_processors example_world" by (simp_all add: example_world_def)
  with no_workers_block [OF prep _ _ _ rtranclp.rtrancl_refl] n show ?thesis by auto
qed



text \<open>
  C17: The suites of a run without selection: those that the test runner lists, in that order,
  without the performance tests; a suite is skipped exactly when it crashes valgrind and valgrind
  is used, or when it needs NSC and NSC is missing.
\<close>

theorem default_suites:
  assumes "o_suite opts = []" "o_example opts = []" "o_pyexample opts = []" "o_constrain opts = []"
    and "snd (ask_runner w cfg '' --print-test-name-list'') = Inr out"
    and "snd (ask_runner w cfg '' --print-test-name-list --test-type=performance'') = Inr perf"
    and "distinct (split_on nl out)"
  shows "\<exists>jobs. all_jobs w cfg opts programs scripts e = Inr jobs
    \<and> map jb_display_name (filter (\<lambda>j. \<not> is_any_example j) jobs) =
        filter (\<lambda>t. t \<noteq> []) (map py_strip (filter (\<lambda>t. t \<notin> set (split_on nl perf)) (split_on nl out)))
    \<and> (\<forall>j\<in>set jobs. is_any_example j \<or> (jb_is_skip j \<longleftrightarrow>
          (o_valgrind opts \<and> jb_display_name j \<in> set core_valgrind_skip_tests)
          \<or> (\<not> c_nsc_enabled cfg \<and> jb_display_name j \<in> set core_nsc_missing_skip_tests)))"
proof -
  let ?suites = "filter (\<lambda>t. t \<notin> set (split_on nl perf)) (split_on nl out)"
  let ?ex = "example_jobs w cfg opts (runnable_programs programs) e @ pyexample_jobs w cfg opts scripts e"
  have "all_jobs w cfg opts programs scripts e = Inr (suite_jobs w cfg opts ?suites @ ?ex)"
    using assms by (simp add: all_jobs_def select_suites_def without_performance_def foldl_remove1)
  moreover have "filter (\<lambda>j. \<not> is_any_example j) ?ex = []" using example_jobs_are_examples by (auto simp: filter_empty_conv)
  moreover have "filter (\<lambda>j. \<not> is_any_example j) (suite_jobs w cfg opts ?suites) = suite_jobs w cfg opts ?suites"
    by (auto simp: suite_jobs_def suite_job_facts filter_id_conv)
  moreover have "map jb_display_name (suite_jobs w cfg opts ?suites) = filter (\<lambda>t. t \<noteq> []) (map py_strip ?suites)"
    by (simp add: suite_jobs_def comp_def suite_job_facts)
  moreover have "\<forall>j\<in>set (suite_jobs w cfg opts ?suites). jb_is_skip j \<longleftrightarrow>
          (o_valgrind opts \<and> jb_display_name j \<in> set core_valgrind_skip_tests)
          \<or> (\<not> c_nsc_enabled cfg \<and> jb_display_name j \<in> set core_nsc_missing_skip_tests)"
    by (auto simp: suite_jobs_def suite_job_facts)
  moreover have "\<forall>j\<in>set ?ex. is_any_example j" using example_jobs_are_examples by auto
  ultimately show ?thesis by (intro exI [of _ "suite_jobs w cfg opts ?suites @ ?ex"]) auto
qed

theorem default_suites_witness:
  "\<exists>jobs. all_jobs example_world example_config default_options [] [] \<lparr>ex_tests = [], ex_names_original = [], ex_python = []\<rparr> = Inr jobs
     \<and> map jb_display_name (filter (\<lambda>j. \<not> is_any_example j) jobs) = [''buffer'']"
proof -
  have d: "distinct (split_on nl (''buffer'' @ [nl] @ ''timing''))" by code_simp
  have v: "filter (\<lambda>t. t \<noteq> []) (map py_strip (filter (\<lambda>t. t \<notin> set (split_on nl ''timing'')) (split_on nl (''buffer'' @ [nl] @ ''timing'')))) = [''buffer'']"
    by code_simp
  have "o_suite default_options = []" "o_example default_options = []" "o_pyexample default_options = []" "o_constrain default_options = []"
    by (simp_all add: default_options_def)
  from default_suites [OF this example_listing d, of "[]" "[]" "\<lparr>ex_tests = [], ex_names_original = [], ex_python = []\<rparr>", unfolded v]
  show ?thesis by (elim exE conjE) (intro exI conjI, assumption+)
qed

text \<open>
  The environment of the tests on Linux.  The module directories are appended to
  \<^verbatim>\<open>LD_LIBRARY_PATH\<close> and every other variable but \<^verbatim>\<open>PYTHONPATH\<close> stays.  The value of
  \<^verbatim>\<open>PYTHONPATH\<close> that the user had set is lost: it is replaced by the directory of the
  bindings, twice.
\<close>

theorem make_paths_environment:
  "dict_get (make_paths ''linux'' cfg env) v =
     (let pypath = path_join (path_join (c_builddir cfg) ''bindings'') ''python'' in
      if v = ''PYTHONPATH'' then Some (if dict_get env ''PYTHONPATH'' = None then pypath else pypath @ '':'' @ pypath)
      else if v = ''LD_LIBRARY_PATH''
      then Some ((case dict_get env ''LD_LIBRARY_PATH'' of None \<Rightarrow> [] | Some s \<Rightarrow> s) @ concat (map (\<lambda>q. '':'' @ q) (c_module_path cfg)))
      else dict_get env v)"
  by (simp add: make_paths_def Let_def extend_path_get update_conv')

text \<open>
  C20: The text report.  It lists every suite and, after it, all of its cases down to any depth,
  in the order of the results file, each with its failure details, and then the examples.  It
  fails, with an \<^verbatim>\<open>AttributeError\<close>, exactly when a node lacks its result, its name or a
  field of its details.
\<close>

theorem text_report_complete:
  "translate_to_text et =
     (let nodes = concat (map (nodes_of ''Suite'') (findall et ''Test''));
          examples = findall et ''Example'' in
      if list_all (\<lambda>(_, t). complete_node t) nodes \<and> list_all (\<lambda>x. find_child x ''Result'' \<noteq> None \<and> find_child x ''Name'' \<noteq> None) examples
      then Inr (concat (map node_text nodes) @ concat (map (\<lambda>x. text_or_none (example_text x)) examples))
      else Inl AttributeError)"
proof -
  have tests: "mapM (node_to_text ''Suite'') (findall et ''Test'') =
      (if list_all (\<lambda>t. list_all (\<lambda>(_, t). complete_node t) (nodes_of ''Suite'' t)) (findall et ''Test'')
       then Inr (map (\<lambda>t. concat (map node_text (nodes_of ''Suite'' t))) (findall et ''Test'')) else Inl AttributeError)"
    by (rule mapM_uniform) (rule node_to_text_nodes)
  have examples: "mapM example_text (findall et ''Example'') =
      (if list_all (\<lambda>x. find_child x ''Result'' \<noteq> None \<and> find_child x ''Name'' \<noteq> None) (findall et ''Example'')
       then Inr (map (\<lambda>x. text_or_none (example_text x)) (findall et ''Example'')) else Inl AttributeError)"
    by (rule mapM_uniform) (auto simp: example_text_def child_text_cases text_or_none_def)
  show ?thesis
    unfolding translate_to_text_def tests examples by (simp add: Let_def list_all_concat concat_map_concat)
qed

end
