(* ===== verification/Py_Regex.thy ===== *)
theory Py_Regex
  imports Py_Strings
begin

text \<open>
  Regular expressions as the module \<^verbatim>\<open>re\<close> matches them: by backtracking, with groups.  A
  pattern lists the ways in which it can match, in the order in which the matcher tries them,
  so that the first is the match that Python reports.  The lemmas at the end say when a greedy
  repetition has only one way to go on, which is how the patterns of the sources are evaluated.
\<close>

section \<open>Patterns\<close>

datatype rx =
    Eps
  | One "char \<Rightarrow> bool"
  | Seq rx rx
  | Alt rx rx
  | Star rx
  | Grp nat rx
  | Dollar

text \<open>The state of the matcher: the groups set so far and the rest of the subject.\<close>

type_synonym rx_state = "(nat \<times> string) list \<times> string"

text \<open>
  Greedy repetition.  Each turn has to consume something, so the length of the subject bounds
  the number of turns.
\<close>

fun iterate :: "(rx_state \<Rightarrow> rx_state list) \<Rightarrow> nat \<Rightarrow> rx_state \<Rightarrow> rx_state list" where
  "iterate f 0 st = [st]"
| "iterate f (Suc n) st =
     concat (map (\<lambda>st'. if length (snd st') < length (snd st) then iterate f n st' else []) (f st)) @ [st]"

primrec matches :: "rx \<Rightarrow> rx_state \<Rightarrow> rx_state list" where
  "matches Eps = (\<lambda>st. [st])"
| "matches (One P) = (\<lambda>(gs, s). case s of [] \<Rightarrow> [] | c # t \<Rightarrow> if P c then [(gs, t)] else [])"
| "matches (Seq a b) = (\<lambda>st. concat (map (matches b) (matches a st)))"
| "matches (Alt a b) = (\<lambda>st. matches a st @ matches b st)"
| "matches (Star a) = (\<lambda>st. iterate (matches a) (length (snd st)) st)"
| "matches (Grp n a) = (\<lambda>(gs, s). map (\<lambda>(gs', t). ((n, take (length s - length t) s) # gs', t)) (matches a (gs, s)))"
| "matches Dollar = (\<lambda>(gs, s). if s = [] \<or> s = [CHR 0x0A] then [(gs, s)] else [])"

text \<open>\<^verbatim>\<open>re.match\<close> and \<^verbatim>\<open>re.search\<close>: the groups of the first match.\<close>

definition first_groups :: "rx_state list \<Rightarrow> (nat \<times> string) list option" where
  "first_groups ms = (case ms of [] \<Rightarrow> None | m # _ \<Rightarrow> Some (fst m))"

lemma first_groups_None [simp]: "first_groups ms = None \<longleftrightarrow> ms = []"
  by (simp add: first_groups_def split: list.split)

definition re_match :: "rx \<Rightarrow> string \<Rightarrow> (nat \<times> string) list option" where
  "re_match r s = first_groups (matches r ([], s))"

fun re_search :: "rx \<Rightarrow> string \<Rightarrow> (nat \<times> string) list option" where
  "re_search r [] = re_match r []"
| "re_search r (c # s) = (case re_match r (c # s) of None \<Rightarrow> re_search r s | Some gs \<Rightarrow> Some gs)"

text \<open>\<^verbatim>\<open>m.group(n)\<close>, \<open>None\<close> when the group took no part in the match.\<close>

definition group :: "(nat \<times> string) list \<Rightarrow> nat \<Rightarrow> string option" where
  "group gs n = map_of gs n"

text \<open>Abbreviated patterns: literals, \<^verbatim>\<open>+\<close>, \<^verbatim>\<open>?\<close>, the dot and sequences.\<close>

fun lit :: "string \<Rightarrow> rx" where
  "lit [] = Eps"
| "lit (c # s) = Seq (One (\<lambda>x. x = c)) (lit s)"

definition Plus :: "rx \<Rightarrow> rx" where
  "Plus r = Seq r (Star r)"

definition Opt :: "rx \<Rightarrow> rx" where
  "Opt r = Alt r Eps"

definition Dot :: rx where
  "Dot = One (\<lambda>c. c \<noteq> CHR 0x0A)"

fun seqs :: "rx list \<Rightarrow> rx" where
  "seqs [] = Eps"
| "seqs (r # rs) = Seq r (seqs rs)"

section \<open>Evaluation\<close>

lemma matches_lit [simp]: "matches (lit w) (gs, s) = (if starts_with s w then [(gs, drop (length w) s)] else [])"
proof (induction w arbitrary: s)
  case (Cons c w)
  then show ?case by (cases s) (auto simp: starts_with_def)
qed simp

declare lit.simps [simp del]

lemma seq_lit: "matches (Seq (lit w) b) (gs, s) = (if starts_with s w then matches b (gs, drop (length w) s) else [])"
  by simp

lemma seq_lit_append [simp]: "matches (Seq (lit w) b) (gs, w @ s) = matches b (gs, s)"
  by simp

lemma iterate_One:
  "length s \<le> n \<Longrightarrow> iterate (matches (One P)) n (gs, s) = map (\<lambda>k. (gs, drop k s)) (rev [0..<Suc (length (takeWhile P s))])"
proof (induction n arbitrary: s)
  case (Suc n)
  show ?case
  proof (cases s)
    case (Cons c t)
    have "map (\<lambda>k. (gs, drop k (c # t))) (rev [0..<Suc (Suc m)]) = map (\<lambda>k. (gs, drop k t)) (rev [0..<Suc m]) @ [(gs, c # t)]" for m
      by (induction m) auto
    with Suc Cons show ?thesis by simp
  qed simp
qed simp

lemma matches_Star_One:
  "matches (Star (One P)) (gs, s) = map (\<lambda>k. (gs, drop k s)) (rev [0..<Suc (length (takeWhile P s))])"
  by (simp only: matches.simps(5) iterate_One snd_conv order_refl)

lemma matches_Plus_One:
  "matches (Plus (One P)) (gs, s) = map (\<lambda>k. (gs, drop k s)) (rev [1..<Suc (length (takeWhile P s))])"
proof (cases s)
  case (Cons c t)
  have "map (\<lambda>k. (gs, drop k (c # t))) (rev [1..<Suc (Suc m)]) = map (\<lambda>k. (gs, drop k t)) (rev [0..<Suc m])" for m
    by (induction m) auto
  with Cons show ?thesis by (simp add: Plus_def matches_Star_One del: matches.simps(5))
qed (simp add: Plus_def)

text \<open>
  A pattern that cannot start with a character of the class: after a greedy repetition of the
  class it can only follow the longest run.
\<close>

definition refuses :: "rx \<Rightarrow> (char \<Rightarrow> bool) \<Rightarrow> bool" where
  "refuses r P \<longleftrightarrow> (\<forall>gs c s. P c \<longrightarrow> matches r (gs, c # s) = [])"

lemma refuses_lit [simp]: "refuses (lit (c # w)) P \<longleftrightarrow> \<not> P c"
proof
  assume "refuses (lit (c # w)) P"
  then have "P c \<Longrightarrow> matches (lit (c # w)) ([], c # w) = []" by (simp only: refuses_def)
  then show "\<not> P c" by (auto simp: starts_with_def)
qed (auto simp: refuses_def starts_with_def)

lemma refuses_Seq [intro, simp]: "refuses a P \<Longrightarrow> refuses (Seq a b) P"
  by (simp add: refuses_def)

lemma run_splits:
  assumes "k < length (takeWhile P s)"
  shows "\<exists>c t. drop k s = c # t \<and> P c"
proof -
  have "drop k s = s ! k # drop (Suc k) s"
    using assms length_takeWhile_le [of P s] by (intro Cons_nth_drop_Suc [symmetric]) linarith
  moreover have "P (s ! k)" using assms by (metis nth_mem set_takeWhileD takeWhile_nth)
  ultimately show ?thesis by blast
qed

lemma concat_longest:
  assumes "refuses b P" "lo \<le> Suc (length (takeWhile P s))"
    and "\<And>k. snd (f k) = drop k s"
  shows "concat (map (matches b) (map f (rev [lo..<Suc (length (takeWhile P s))]))) =
    (if lo \<le> length (takeWhile P s) then matches b (f (length (takeWhile P s))) else [])"
proof -
  have "matches b (f k) = []" if "k < length (takeWhile P s)" for k
    using run_splits [OF that] assms(1) assms(3) [of k] by (cases "f k") (auto simp: refuses_def)
  then have "concat (map (\<lambda>k. matches b (f k)) (rev [lo..<length (takeWhile P s)])) = []" by auto
  then show ?thesis by (simp add: comp_def)
qed

lemma seq_star:
  assumes "refuses b P"
  shows "matches (Seq (Star (One P)) b) (gs, s) = matches b (gs, dropWhile P s)"
proof -
  have "matches (Seq (Star (One P)) b) (gs, s) =
      concat (map (matches b) (map (\<lambda>k. (gs, drop k s)) (rev [0..<Suc (length (takeWhile P s))])))"
    by (simp only: matches.simps(3) matches_Star_One)
  also have "\<dots> = matches b (gs, drop (length (takeWhile P s)) s)"
    by (subst concat_longest [OF assms]) simp_all
  finally show ?thesis by (simp only: dropWhile_eq_drop)
qed

lemma take_run: "take (length s - length (drop (length (takeWhile P s)) s)) s = takeWhile P s"
  using length_takeWhile_le [of P s] by (simp add: takeWhile_eq_take [symmetric])

lemma matches_group_plus:
  "matches (Grp n (Plus (One P))) (gs, s) =
    map (\<lambda>k. ((n, take (length s - length (drop k s)) s) # gs, drop k s)) (rev [1..<Suc (length (takeWhile P s))])"
  by (simp add: matches_Plus_One comp_def)

lemma seq_group_plus:
  assumes "refuses b P"
  shows "matches (Seq (Grp n (Plus (One P))) b) (gs, s) =
    (if takeWhile P s = [] then [] else matches b ((n, takeWhile P s) # gs, dropWhile P s))"
proof -
  let ?f = "\<lambda>k. ((n, take (length s - length (drop k s)) s) # gs, drop k s)"
  have "matches (Seq (Grp n (Plus (One P))) b) (gs, s) = concat (map (matches b) (map ?f (rev [1..<Suc (length (takeWhile P s))])))"
    by (simp only: matches.simps(3) matches_group_plus)
  also have "\<dots> = (if 1 \<le> length (takeWhile P s) then matches b (?f (length (takeWhile P s))) else [])"
    by (rule concat_longest [OF assms]) simp_all
  finally show ?thesis by (simp only: dropWhile_eq_drop take_run Suc_le_eq One_nat_def length_greater_0_conv) simp
qed

lemma hd_group_plus:
  "first_groups (matches (Grp n (Plus (One P))) (gs, s)) =
    (if takeWhile P s = [] then None else Some ((n, takeWhile P s) # gs))"
proof (cases "takeWhile P s = []")
  case False
  then obtain m where m: "length (takeWhile P s) = Suc m" by (cases "takeWhile P s") auto
  then show ?thesis using take_run [of s P] False
    by (simp add: matches_Plus_One first_groups_def del: length_drop)
qed (simp add: matches_Plus_One first_groups_def)

text \<open>The first match of a greedy group, and how a sequence goes on from a first match.\<close>

lemma group_plus_Cons:
  assumes "takeWhile P s \<noteq> []"
  shows "\<exists>ms. matches (Grp n (Plus (One P))) (gs, s) = ((n, takeWhile P s) # gs, dropWhile P s) # ms"
proof -
  obtain m where m: "length (takeWhile P s) = Suc m" using assms by (cases "takeWhile P s") auto
  then show ?thesis using take_run [of s P] by (simp add: matches_Plus_One dropWhile_eq_drop del: length_drop)
qed

lemma group_lit_plus_Cons:
  assumes "takeWhile P s \<noteq> []"
  shows "\<exists>ms. matches (Grp n (Seq (lit w) (Plus (One P)))) (gs, w @ s) = ((n, w @ takeWhile P s) # gs, dropWhile P s) # ms"
proof -
  obtain m where m: "length (takeWhile P s) = Suc m" using assms by (cases "takeWhile P s") auto
  have "length (w @ s) - length (drop (Suc m) s) = length w + Suc m" using m length_takeWhile_le [of P s] by simp
  then have "take (length (w @ s) - length (drop (Suc m) s)) (w @ s) = w @ takeWhile P s"
    using m takeWhile_eq_take [of P s] by simp
  then show ?thesis using m by (simp add: matches_Plus_One dropWhile_eq_drop del: length_drop length_append)
qed

lemma seq_first:
  assumes "matches a st = x # ms" "matches b x \<noteq> []"
  shows "first_groups (matches (Seq a b) st) = first_groups (matches b x)"
  using assms by (cases "matches b x") (auto simp: first_groups_def)

lemma seq_Eps [simp]: "matches (Seq r Eps) st = matches r st"
  by simp

lemma matches_Opt: "matches (Opt r) st = matches r st @ [st]"
  by (simp add: Opt_def)

lemma Opt_nonempty [simp]: "matches (Opt r) st \<noteq> []"
  by (simp add: Opt_def)

lemma Star_nonempty [simp]: "matches (Star r) st \<noteq> []"
  by (cases "length (snd st)") simp_all

lemma first_star [simp]: "first_groups (matches (Star (One P)) (gs, s)) = Some gs"
  by (simp add: matches_Star_One first_groups_def del: matches.simps(5))

lemma Seq_nonempty: "matches a st \<noteq> [] \<Longrightarrow> (\<And>st'. matches b st' \<noteq> []) \<Longrightarrow> matches (Seq a b) st \<noteq> []"
  by (cases "matches a st") auto

text \<open>A greedy group that has to give back what follows the last place where the rest can match.\<close>

lemma seq_group_plus_at:
  assumes t: "list_all P t" "t \<noteq> []"
    and later: "\<And>k gs. 0 < k \<Longrightarrow> matches b (gs, drop k u) = []"
    and here: "matches b ((n, t) # gs, u) \<noteq> []"
  shows "first_groups (matches (Seq (Grp n (Plus (One P))) b) (gs, t @ u)) = first_groups (matches b ((n, t) # gs, u))"
proof -
  let ?s = "t @ u" and ?L = "length (takeWhile P (t @ u))"
  let ?f = "\<lambda>k. ((n, take (length ?s - length (drop k ?s)) ?s) # gs, drop k ?s)"
  have L: "?L = length t + length (takeWhile P u)" using t(1) by (simp add: takeWhile_append list_all_iff)
  have up: "[1..<Suc ?L] = [1..<length t] @ length t # [Suc (length t)..<Suc ?L]"
    using upt_add_eq_append [of 1 "length t" "Suc (length (takeWhile P u))"] t(2) L
    by (cases t) (simp_all add: upt_conv_Cons del: upt_Suc)
  have "matches (Seq (Grp n (Plus (One P))) b) (gs, ?s) = concat (map (\<lambda>k. matches b (?f k)) (rev [1..<Suc ?L]))"
    by (simp only: matches.simps(3) matches_group_plus map_map comp_def)
  also have "\<dots> = concat (map (\<lambda>k. matches b (?f k)) (rev [Suc (length t)..<Suc ?L])) @ matches b (?f (length t))
      @ concat (map (\<lambda>k. matches b (?f k)) (rev [1..<length t]))"
    by (simp only: up rev_append rev.simps map_append concat_append list.map concat.simps append_Nil append_Nil2 append_assoc)
  also have "concat (map (\<lambda>k. matches b (?f k)) (rev [Suc (length t)..<Suc ?L])) = []"
    using later by auto
  finally show ?thesis using here by (cases "matches b ((n, t) # gs, u)") (auto simp: first_groups_def)
qed

end
