(* ===== verification/Create_Module.thy ===== *)
theory Create_Module
  imports Py_Regex "HOL-Library.Sublist"
begin

text \<open>
  \<^verbatim>\<open>src/source/ns-3-dev/utils/create-module.py\<close>: the generator of the skeleton of a new module.
  A path is the list of its components below the root, a file system says what is at a path.
  Which directories and files may be created is an argument, and so is \<^verbatim>\<open>shutil.rmtree\<close>; names
  are ASCII.
\<close>

section \<open>Templates\<close>

definition WSCRIPT_TEMPLATE :: string where
  "WSCRIPT_TEMPLATE = join_with [CHR 0x0A]
     [''# -*- Mode: python; py-indent-offset: 4; indent-tabs-mode: nil; coding: utf-8; -*-'',
      [],
      ''# def options(opt):'',
      ''#     pass'',
      [],
      ''# def configure(conf):'',
      ''#     conf.check_nonfatal(header_name='' @ [CHR 0x27] @ ''stdint.h'' @ [CHR 0x27] @ '', define_name='' @ [CHR 0x27] @ ''HAVE_STDINT_H'' @ [CHR 0x27] @ '')'',
      [],
      ''def build(bld):'',
      ''    module = bld.create_ns3_module({MODULE!r}, ['' @ [CHR 0x27] @ ''core'' @ [CHR 0x27] @ ''])'',
      ''    module.source = ['',
      ''        '' @ [CHR 0x27] @ ''model/{MODULE}.cc'' @ [CHR 0x27] @ '','',
      ''        '' @ [CHR 0x27] @ ''helper/{MODULE}-helper.cc'' @ [CHR 0x27] @ '','',
      ''        ]'',
      [],
      ''    module_test = bld.create_ns3_module_test_library('' @ [CHR 0x27] @ ''{MODULE}'' @ [CHR 0x27] @ '')'',
      ''    module_test.source = ['',
      ''        '' @ [CHR 0x27] @ ''test/{MODULE}-test-suite.cc'' @ [CHR 0x27] @ '','',
      ''        ]'',
      ''    # Tests encapsulating example programs should be listed here'',
      ''    if (bld.env['' @ [CHR 0x27] @ ''ENABLE_EXAMPLES'' @ [CHR 0x27] @ '']):'',
      ''        module_test.source.extend(['',
      ''        #    '' @ [CHR 0x27] @ ''test/{MODULE}-examples-test-suite.cc'' @ [CHR 0x27] @ '','',
      ''             ])'',
      [],
      ''    headers = bld(features='' @ [CHR 0x27] @ ''ns3header'' @ [CHR 0x27] @ '')'',
      ''    headers.module = {MODULE!r}'',
      ''    headers.source = ['',
      ''        '' @ [CHR 0x27] @ ''model/{MODULE}.h'' @ [CHR 0x27] @ '','',
      ''        '' @ [CHR 0x27] @ ''helper/{MODULE}-helper.h'' @ [CHR 0x27] @ '','',
      ''        ]'',
      [],
      ''    if bld.env.ENABLE_EXAMPLES:'',
      ''        bld.recurse('' @ [CHR 0x27] @ ''examples'' @ [CHR 0x27] @ '')'',
      [],
      ''    # bld.ns3_python_bindings()'',
      [],
      []]"

definition MODEL_CC_TEMPLATE :: string where
  "MODEL_CC_TEMPLATE = join_with [CHR 0x0A]
     [''/* -*- Mode:C++; c-file-style:'' @ [CHR 0x22] @ ''gnu'' @ [CHR 0x22] @ ''; indent-tabs-mode:nil; -*- */'',
      [],
      ''#include '' @ [CHR 0x22] @ ''{MODULE}.h'' @ [CHR 0x22],
      [],
      ''namespace ns3 {{'',
      [],
      ''/* ... */'',
      [],
      [],
      ''}}'',
      [],
      []]"

definition MODEL_H_TEMPLATE :: string where
  "MODEL_H_TEMPLATE = join_with [CHR 0x0A]
     [''/* -*- Mode:C++; c-file-style:'' @ [CHR 0x22] @ ''gnu'' @ [CHR 0x22] @ ''; indent-tabs-mode:nil; -*- */'',
      ''#ifndef {INCLUDE_GUARD}'',
      ''#define {INCLUDE_GUARD}'',
      [],
      ''namespace ns3 {{'',
      [],
      ''/* ... */'',
      [],
      ''}}'',
      [],
      ''#endif /* {INCLUDE_GUARD} */'',
      [],
      []]"

definition HELPER_CC_TEMPLATE :: string where
  "HELPER_CC_TEMPLATE = join_with [CHR 0x0A]
     [''/* -*- Mode:C++; c-file-style:'' @ [CHR 0x22] @ ''gnu'' @ [CHR 0x22] @ ''; indent-tabs-mode:nil; -*- */'',
      [],
      ''#include '' @ [CHR 0x22] @ ''{MODULE}-helper.h'' @ [CHR 0x22],
      [],
      ''namespace ns3 {{'',
      [],
      ''/* ... */'',
      [],
      [],
      ''}}'',
      [],
      []]"

definition HELPER_H_TEMPLATE :: string where
  "HELPER_H_TEMPLATE = join_with [CHR 0x0A]
     [''/* -*- Mode:C++; c-file-style:'' @ [CHR 0x22] @ ''gnu'' @ [CHR 0x22] @ ''; indent-tabs-mode:nil; -*- */'',
      ''#ifndef {INCLUDE_GUARD}'',
      ''#define {INCLUDE_GUARD}'',
      [],
      ''#include '' @ [CHR 0x22] @ ''ns3/{MODULE}.h'' @ [CHR 0x22],
      [],
      ''namespace ns3 {{'',
      [],
      ''/* ... */'',
      [],
      ''}}'',
      [],
      ''#endif /* {INCLUDE_GUARD} */'',
      [],
      []]"

definition EXAMPLES_WSCRIPT_TEMPLATE :: string where
  "EXAMPLES_WSCRIPT_TEMPLATE = join_with [CHR 0x0A]
     [''# -*- Mode: python; py-indent-offset: 4; indent-tabs-mode: nil; coding: utf-8; -*-'',
      [],
      ''def build(bld):'',
      ''    obj = bld.create_ns3_program('' @ [CHR 0x27] @ ''{MODULE}-example'' @ [CHR 0x27] @ '', [{MODULE!r}])'',
      ''    obj.source = '' @ [CHR 0x27] @ ''{MODULE}-example.cc'' @ [CHR 0x27],
      [],
      []]"

definition EXAMPLE_CC_TEMPLATE :: string where
  "EXAMPLE_CC_TEMPLATE = join_with [CHR 0x0A]
     [''/* -*- Mode:C++; c-file-style:'' @ [CHR 0x22] @ ''gnu'' @ [CHR 0x22] @ ''; indent-tabs-mode:nil; -*- */'',
      [],
      ''#include '' @ [CHR 0x22] @ ''ns3/core-module.h'' @ [CHR 0x22],
      ''#include '' @ [CHR 0x22] @ ''ns3/{MODULE}-helper.h'' @ [CHR 0x22],
      [],
      ''using namespace ns3;'',
      [],
      [],
      ''int '',
      ''main (int argc, char *argv[])'',
      ''{{'',
      ''  bool verbose = true;'',
      [],
      ''  CommandLine cmd (__FILE__);'',
      ''  cmd.AddValue ('' @ [CHR 0x22] @ ''verbose'' @ [CHR 0x22] @ '', '' @ [CHR 0x22] @ ''Tell application to log if true'' @ [CHR 0x22] @ '', verbose);'',
      [],
      ''  cmd.Parse (argc,argv);'',
      [],
      ''  /* ... */'',
      [],
      ''  Simulator::Run ();'',
      ''  Simulator::Destroy ();'',
      ''  return 0;'',
      ''}}'',
      [],
      [],
      []]"

definition TEST_CC_TEMPLATE :: string where
  "TEST_CC_TEMPLATE = join_with [CHR 0x0A]
     [''/* -*- Mode:C++; c-file-style:'' @ [CHR 0x22] @ ''gnu'' @ [CHR 0x22] @ ''; indent-tabs-mode:nil; -*- */'',
      [],
      ''// Include a header file from your module to test.'',
      ''#include '' @ [CHR 0x22] @ ''ns3/{MODULE}.h'' @ [CHR 0x22],
      [],
      ''// An essential include is test.h'',
      ''#include '' @ [CHR 0x22] @ ''ns3/test.h'' @ [CHR 0x22],
      [],
      ''// Do not put your test classes in namespace ns3.  You may find it useful'',
      ''// to use the using directive to access the ns3 namespace directly'',
      ''using namespace ns3;'',
      [],
      ''// This is an example TestCase.'',
      ''class {CAPITALIZED}TestCase1 : public TestCase'',
      ''{{'',
      ''public:'',
      ''  {CAPITALIZED}TestCase1 ();'',
      ''  virtual ~{CAPITALIZED}TestCase1 ();'',
      [],
      ''private:'',
      ''  virtual void DoRun (void);'',
      ''}};'',
      [],
      ''// Add some help text to this case to describe what it is intended to test'',
      ''{CAPITALIZED}TestCase1::{CAPITALIZED}TestCase1 ()'',
      ''  : TestCase ('' @ [CHR 0x22] @ ''{CAPITALIZED} test case (does nothing)'' @ [CHR 0x22] @ '')'',
      ''{{'',
      ''}}'',
      [],
      ''// This destructor does nothing but we include it as a reminder that'',
      ''// the test case should clean up after itself'',
      ''{CAPITALIZED}TestCase1::~{CAPITALIZED}TestCase1 ()'',
      ''{{'',
      ''}}'',
      [],
      ''//'',
      ''// This method is the pure virtual method from class TestCase that every'',
      ''// TestCase must implement'',
      ''//'',
      ''void'',
      ''{CAPITALIZED}TestCase1::DoRun (void)'',
      ''{{'',
      ''  // A wide variety of test macros are available in src/core/test.h'',
      ''  NS_TEST_ASSERT_MSG_EQ (true, true, '' @ [CHR 0x22] @ ''true doesn'' @ [CHR 0x27] @ ''t equal true for some reason'' @ [CHR 0x22] @ '');'',
      ''  // Use this one for floating point comparisons'',
      ''  NS_TEST_ASSERT_MSG_EQ_TOL (0.01, 0.01, 0.001, '' @ [CHR 0x22] @ ''Numbers are not equal within tolerance'' @ [CHR 0x22] @ '');'',
      ''}}'',
      [],
      ''// The TestSuite class names the TestSuite, identifies what type of TestSuite,'',
      ''// and enables the TestCases to be run.  Typically, only the constructor for'',
      ''// this class must be defined'',
      ''//'',
      ''class {CAPITALIZED}TestSuite : public TestSuite'',
      ''{{'',
      ''public:'',
      ''  {CAPITALIZED}TestSuite ();'',
      ''}};'',
      [],
      ''{CAPITALIZED}TestSuite::{CAPITALIZED}TestSuite ()'',
      ''  : TestSuite ('' @ [CHR 0x22] @ ''{MODULE}'' @ [CHR 0x22] @ '', UNIT)'',
      ''{{'',
      ''  // TestDuration for TestCase can be QUICK, EXTENSIVE or TAKES_FOREVER'',
      ''  AddTestCase (new {CAPITALIZED}TestCase1, TestCase::QUICK);'',
      ''}}'',
      [],
      ''// Do not forget to allocate an instance of this TestSuite'',
      ''static {CAPITALIZED}TestSuite s{COMPOUND}TestSuite;'',
      [],
      []]"

definition DOC_RST_TEMPLATE :: string where
  "DOC_RST_TEMPLATE = join_with [CHR 0x0A]
     [''Example Module Documentation'',
      ''----------------------------'',
      [],
      ''.. include:: replace.txt'',
      ''.. highlight:: cpp'',
      [],
      ''.. heading hierarchy:'',
      ''   ------------- Chapter'',
      ''   ************* Section (#.#)'',
      ''   ============= Subsection (#.#.#)'',
      ''   ############# Paragraph (no number)'',
      [],
      ''This is a suggested outline for adding new module documentation to |ns3|.'',
      ''See ``src/click/doc/click.rst`` for an example.'',
      [],
      ''The introductory paragraph is for describing what this code is trying to'',
      ''model.'',
      [],
      ''For consistency (italicized formatting), please use |ns3| to refer to'',
      ''ns-3 in the documentation (and likewise, |ns2| for ns-2).  These macros'',
      ''are defined in the file ``replace.txt``.'',
      [],
      ''Model Description'',
      ''*****************'',
      [],
      ''The source code for the new module lives in the directory ``{MODULE_DIR}``.'',
      [],
      ''Add here a basic description of what is being modeled.'',
      [],
      ''Design'',
      ''======'',
      [],
      ''Briefly describe the software design of the model and how it fits into '',
      ''the existing ns-3 architecture. '',
      [],
      ''Scope and Limitations'',
      ''====================='',
      [],
      ''What can the model do?  What can it not do?  Please use this section to'',
      ''describe the scope and limitations of the model.'',
      [],
      ''References'',
      ''=========='',
      [],
      ''Add academic citations here, such as if you published a paper on this'',
      ''model, or if readers should read a particular specification or other work.'',
      [],
      ''Usage'',
      ''*****'',
      [],
      ''This section is principally concerned with the usage of your model, using'',
      ''the public API.  Focus first on most common usage patterns, then go'',
      ''into more advanced topics.'',
      [],
      ''Building New Module'',
      ''==================='',
      [],
      ''Include this subsection only if there are special build instructions or'',
      ''platform limitations.'',
      [],
      ''Helpers'',
      ''======='',
      [],
      ''What helper API will users typically use?  Describe it here.'',
      [],
      ''Attributes'',
      ''=========='',
      [],
      ''What classes hold attributes, and what are the key ones worth mentioning?'',
      [],
      ''Output'',
      ''======'',
      [],
      ''What kind of data does the model generate?  What are the key trace'',
      ''sources?   What kind of logging output can be enabled?'',
      [],
      ''Advanced Usage'',
      ''=============='',
      [],
      ''Go into further details (such as using the API outside of the helpers)'',
      ''in additional sections, as needed.'',
      [],
      ''Examples'',
      ''========'',
      [],
      ''What examples using this new code are available?  Describe them here.'',
      [],
      ''Troubleshooting'',
      ''==============='',
      [],
      ''Add any tips for avoiding pitfalls, etc.'',
      [],
      ''Validation'',
      ''**********'',
      [],
      ''Describe how the model has been tested/validated.  What tests run in the'',
      ''test suite?  How much API and code is covered by the tests?  Again, '',
      ''references to outside published work may help here.'',
      []]"

text \<open>
  \<^verbatim>\<open>str.format\<close> with the two kinds of fields that the templates have, \<^verbatim>\<open>{NAME}\<close> and
  \<^verbatim>\<open>{NAME!r}\<close>; doubled braces stand for themselves.
\<close>

definition format_field :: "(string, string) dict \<Rightarrow> string \<Rightarrow> string res" where
  "format_field kwargs field =
     (case dict_get kwargs (takeWhile (\<lambda>c. c \<noteq> CHR ''!'') field) of
        None \<Rightarrow> Inl KeyError
      | Some v \<Rightarrow>
          if CHR ''!'' \<notin> set field then Inr v
          else if dropWhile (\<lambda>c. c \<noteq> CHR ''!'') field = ''!r'' then Inr (py_repr v)
          else Inl ValueError)"

text \<open>Literal characters and fields of a format string.\<close>

datatype piece = Char char | Field string

lemma drop_field_shorter [termination_simp]: "length (dropWhile P s) - Suc 0 < Suc (length s)"
  using length_dropWhile_le [of P s] by simp

fun format_pieces :: "string \<Rightarrow> piece list res" where
  "format_pieces [] = Inr []"
| "format_pieces (c # s) =
     (if c = CHR ''{'' then
        if starts_with s ''{'' then rbind (format_pieces (tl s)) (\<lambda>ps. Inr (Char c # ps))
        else if CHR ''}'' \<in> set s
        then rbind (format_pieces (tl (dropWhile (\<lambda>c. c \<noteq> CHR ''}'') s))) (\<lambda>ps. Inr (Field (takeWhile (\<lambda>c. c \<noteq> CHR ''}'') s) # ps))
        else Inl ValueError
      else if c = CHR ''}''
      then if starts_with s ''}'' then rbind (format_pieces (tl s)) (\<lambda>ps. Inr (Char c # ps)) else Inl ValueError
      else rbind (format_pieces s) (\<lambda>ps. Inr (Char c # ps)))"

fun format_piece :: "(string, string) dict \<Rightarrow> piece \<Rightarrow> string res" where
  "format_piece kwargs (Char c) = Inr [c]"
| "format_piece kwargs (Field f) = format_field kwargs f"

definition format_template :: "string \<Rightarrow> (string, string) dict \<Rightarrow> string res" where
  "format_template template kwargs =
     rbind (format_pieces template) (\<lambda>ps. rbind (mapM (format_piece kwargs) ps) (\<lambda>ss. Inr (concat ss)))"

section \<open>The file system\<close>

datatype entry = Dir | File string

type_synonym path = "string list"
type_synonym fs = "path \<Rightarrow> entry option"

text \<open>The rights of the process; an \<open>action\<close> returns the new file system and what it raised.\<close>

record rights =
  may_mkdir :: "path \<Rightarrow> bool"
  may_open :: "path \<Rightarrow> bool"
  may_write :: "path \<Rightarrow> bool"
  rmtree :: "path \<Rightarrow> fs \<Rightarrow> fs \<times> py_error option"

type_synonym action = "fs \<Rightarrow> fs \<times> py_error option"

definition then_do :: "action \<Rightarrow> action \<Rightarrow> action" where
  "then_do a b fs = (case a fs of (fs', None) \<Rightarrow> b fs' | (fs', Some e) \<Rightarrow> (fs', Some e))"

fun do_all :: "action list \<Rightarrow> action" where
  "do_all [] fs = (fs, None)"
| "do_all (a # as) fs = then_do a (do_all as) fs"

text \<open>\<^verbatim>\<open>Path.mkdir\<close> on one missing directory whose parent may not exist.\<close>

definition make_dir :: "rights \<Rightarrow> path \<Rightarrow> action" where
  "make_dir r p fs =
     (if fs p = Some Dir then (fs, None)
      else if fs p \<noteq> None then (fs, Some (PyException ''NotADirectoryError''))
      else if may_mkdir r p then (fs(p \<mapsto> Dir), None)
      else (fs, Some (PyException ''PermissionError'')))"

text \<open>\<^verbatim>\<open>mkdir(parents=True)\<close>: the ancestors from the root on, then the directory itself.\<close>

definition mkdir_parents :: "rights \<Rightarrow> path \<Rightarrow> action" where
  "mkdir_parents r p fs =
     (if fs p \<noteq> None then (fs, Some (PyException ''FileExistsError''))
      else do_all (map (make_dir r) (prefixes p)) fs)"

text \<open>\<^verbatim>\<open>create_file\<close>: the file is opened first, so a failure to format or write leaves it empty.\<close>

definition create_file :: "rights \<Rightarrow> path \<Rightarrow> string \<Rightarrow> (string, string) dict \<Rightarrow> action" where
  "create_file r p template kwargs fs =
     (if fs p = Some Dir then (fs, Some (PyException ''IsADirectoryError''))
      else if fs (butlast p) \<noteq> Some Dir then (fs, Some (PyException ''FileNotFoundError''))
      else if \<not> may_open r p then (fs, Some (PyException ''PermissionError''))
      else case format_template template kwargs of
             Inl e \<Rightarrow> (fs(p \<mapsto> File []), Some e)
           | Inr content \<Rightarrow>
               if may_write r p then (fs(p \<mapsto> File content), None) else (fs(p \<mapsto> File []), Some (PyException ''OSError'')))"

section \<open>Names\<close>

fun capitalize :: "string \<Rightarrow> string" where
  "capitalize [] = []"
| "capitalize (c # s) = upper_char c # map lower_char s"

text \<open>\<^verbatim>\<open>with_suffix\<close> replaces the part from the last dot on, unless that is at an end of the name.\<close>

definition with_suffix :: "string \<Rightarrow> string \<Rightarrow> string" where
  "with_suffix name ext_text =
     (let ext = takeWhile (\<lambda>c. c \<noteq> CHR ''.'') (rev name); stem = rev (drop (length ext + 1) (rev name))
      in if CHR ''.'' \<in> set name \<and> stem \<noteq> [] \<and> ext \<noteq> [] then stem @ ext_text else name @ ext_text)"

definition include_guard :: "string \<Rightarrow> string" where
  "include_guard modname = map (\<lambda>c. upper_char (if c = CHR ''-'' then CHR ''_'' else c)) modname"

definition capitalized :: "string \<Rightarrow> string" where
  "capitalized modname = concat (map capitalize (split_on (CHR ''-'') modname))"

definition compound :: "string \<Rightarrow> string" where
  "compound modname = (case split_on (CHR ''-'') modname of [] \<Rightarrow> [] | word # words \<Rightarrow> word @ concat (map capitalize words))"

section \<open>The parts of a module\<close>

definition make_wscript :: "rights \<Rightarrow> path \<Rightarrow> string \<Rightarrow> action" where
  "make_wscript r moduledir modname = create_file r (moduledir @ [''wscript'']) WSCRIPT_TEMPLATE [(''MODULE'', modname)]"

definition make_model :: "rights \<Rightarrow> path \<Rightarrow> string \<Rightarrow> action" where
  "make_model r moduledir modname =
     (let modelpath = moduledir @ [''model''] in
      do_all
        [mkdir_parents r modelpath,
         create_file r (modelpath @ [with_suffix modname ''.cc'']) MODEL_CC_TEMPLATE [(''MODULE'', modname)],
         create_file r (modelpath @ [with_suffix modname ''.h'']) MODEL_H_TEMPLATE
           [(''MODULE'', modname), (''INCLUDE_GUARD'', include_guard modname @ ''_H'')]])"

definition make_test :: "rights \<Rightarrow> path \<Rightarrow> string \<Rightarrow> action" where
  "make_test r moduledir modname =
     (let testpath = moduledir @ [''test''] in
      do_all
        [mkdir_parents r testpath,
         create_file r (testpath @ [with_suffix (modname @ ''-test-suite'') ''.cc'']) TEST_CC_TEMPLATE
           [(''MODULE'', modname), (''CAPITALIZED'', capitalized modname), (''COMPOUND'', compound modname)]])"

definition make_helper :: "rights \<Rightarrow> path \<Rightarrow> string \<Rightarrow> action" where
  "make_helper r moduledir modname =
     (let helperpath = moduledir @ [''helper''] in
      do_all
        [mkdir_parents r helperpath,
         create_file r (helperpath @ [with_suffix (modname @ ''-helper'') ''.cc'']) HELPER_CC_TEMPLATE [(''MODULE'', modname)],
         create_file r (helperpath @ [with_suffix (modname @ ''-helper'') ''.h'']) HELPER_H_TEMPLATE
           [(''MODULE'', modname), (''INCLUDE_GUARD'', include_guard modname @ ''_HELPER_H'')]])"

definition make_examples :: "rights \<Rightarrow> path \<Rightarrow> string \<Rightarrow> action" where
  "make_examples r moduledir modname =
     (let examplespath = moduledir @ [''examples''] in
      do_all
        [mkdir_parents r examplespath,
         create_file r (examplespath @ [''wscript'']) EXAMPLES_WSCRIPT_TEMPLATE [(''MODULE'', modname)],
         create_file r (examplespath @ [with_suffix (modname @ ''-example'') ''.cc'']) EXAMPLE_CC_TEMPLATE [(''MODULE'', modname)]])"

text \<open>\<^verbatim>\<open>os.path.relpath\<close> of the module's directory, for the text of the documentation.\<close>

definition path_text :: "path \<Rightarrow> string" where
  "path_text p = ''/'' @ join_with ''/'' p"

definition make_doc :: "path \<Rightarrow> rights \<Rightarrow> path \<Rightarrow> string \<Rightarrow> action" where
  "make_doc cwd r moduledir modname =
     (let docpath = moduledir @ [''doc''];
          mod_relpath = relpath (path_text cwd) (path_text moduledir) (path_text cwd)
      in do_all
           [mkdir_parents r docpath,
            create_file r (docpath @ [modname @ ''.rst'']) DOC_RST_TEMPLATE [(''MODULE'', modname), (''MODULE_DIR'', mod_relpath)]])"

text \<open>
  \<^verbatim>\<open>make_module\<close>: an exception on the way removes the directory again.  An exception of the
  removal is not caught.
\<close>

definition make_parts :: "path \<Rightarrow> rights \<Rightarrow> path \<Rightarrow> string \<Rightarrow> action" where
  "make_parts cwd r modulepath modname =
     do_all
       [mkdir_parents r modulepath, make_wscript r modulepath modname, make_model r modulepath modname, make_test r modulepath modname,
        make_helper r modulepath modname, make_examples r modulepath modname, make_doc cwd r modulepath modname]"

definition make_module :: "path \<Rightarrow> rights \<Rightarrow> path \<times> string \<Rightarrow> fs \<Rightarrow> fs \<times> bool res" where
  "make_module cwd r m fs =
     (let (modpath, modname) = m; modulepath = modpath @ [modname] in
      if fs modulepath \<noteq> None then (fs, Inr False)
      else case make_parts cwd r modulepath modname fs of
             (fs', None) \<Rightarrow> (fs', Inr True)
           | (fs', Some e) \<Rightarrow>
               if fs' modulepath \<noteq> None
               then (case rmtree r modulepath fs' of
                       (fs'', None) \<Rightarrow> (fs'', Inr False)
                     | (fs'', Some e') \<Rightarrow> (fs'', Inl e'))
               else (fs', Inr False))"

section \<open>The command line\<close>

text \<open>\<^verbatim>\<open>Path(s).parts\<close> of a relative path.\<close>

definition path_parts :: "string \<Rightarrow> string list" where
  "path_parts s = filter (\<lambda>c. c \<noteq> [] \<and> c \<noteq> ''.'') (split_on (CHR ''/'') s)"

text \<open>\<^verbatim>\<open>^(\w|-)+$\<close>\<close>

definition allowedRE :: rx where
  "allowedRE = Seq (Plus (Grp 1 (Alt (One is_word) (One (\<lambda>c. c = CHR ''-''))))) Dollar"

definition allowed :: "string \<Rightarrow> bool" where
  "allowed s \<longleftrightarrow> re_match allowedRE s \<noteq> None"

text \<open>
  The project path; two leading separators are a root of their own, of which no path is
  relative.  \<^verbatim>\<open>parser.error\<close> is the exit status 2.
\<close>

definition check_project :: "string \<Rightarrow> string list option res" where
  "check_project project =
     (if project = [] then Inr None
      else if starts_with project ''//'' \<and> \<not> starts_with project ''///'' then Inl ValueError
      else if list_all allowed (path_parts project) then Inr (Some (path_parts project))
      else Inl (PyException ''SystemExit''))"

definition strip_sep :: "string \<Rightarrow> string" where
  "strip_sep s = rev (dropWhile (\<lambda>c. c = CHR ''/'') (rev (dropWhile (\<lambda>c. c = CHR ''/'') s)))"

text \<open>The module that one name asks for; \<open>None\<close> when the name is skipped.\<close>

definition select_module :: "path \<Rightarrow> string list option \<Rightarrow> string \<Rightarrow> (path \<times> string) option res" where
  "select_module base_path project_path name =
     (let src_path = base_path @ [''src'']; contrib_path = base_path @ [''contrib'']; name = strip_sep name; parts = path_parts name in
      if name = [] then Inr None
      else if length parts > 2 then Inr None
      else case parts of
             [] \<Rightarrow> Inl IndexError
           | first # rest \<Rightarrow>
               if first = ''src'' \<and> project_path \<noteq> None then Inl (PyException ''SystemExit'')
               else let modpath = (if first = ''src'' then src_path else contrib_path);
                        parts = (if first = ''src'' \<or> first = ''contrib'' then rest else parts);
                        modpath = (case project_path of None \<Rightarrow> modpath | Some p \<Rightarrow> contrib_path @ p)
                    in case parts of
                         [] \<Rightarrow> Inl IndexError
                       | modname # _ \<Rightarrow> if allowed modname then Inr (Some (modpath, modname)) else Inr None)"

fun select_modules :: "path \<Rightarrow> string list option \<Rightarrow> string list \<Rightarrow> (path \<times> string) list res" where
  "select_modules base_path project_path [] = Inr []"
| "select_modules base_path project_path (name # names) =
     rbind (select_module base_path project_path name) (\<lambda>m.
     rbind (select_modules base_path project_path names) (\<lambda>ms. Inr (case m of None \<Rightarrow> ms | Some x \<Rightarrow> x # ms)))"

text \<open>\<^verbatim>\<open>all(make_module(*module) for module in modules)\<close> ends at the first failure.\<close>

fun make_modules :: "path \<Rightarrow> rights \<Rightarrow> (path \<times> string) list \<Rightarrow> fs \<Rightarrow> fs \<times> bool res" where
  "make_modules cwd r [] fs = (fs, Inr True)"
| "make_modules cwd r (m # ms) fs =
     (case make_module cwd r m fs of
        (fs', Inr True) \<Rightarrow> make_modules cwd r ms fs'
      | (fs', res) \<Rightarrow> (fs', res))"

text \<open>The exit status: 0 also when a module could not be made, 1 for an exception, 2 for the parser's.\<close>

definition exit_status :: "py_error \<Rightarrow> int" where
  "exit_status e = (if e = PyException ''SystemExit'' then 2 else 1)"

definition create_main :: "rights \<Rightarrow> path \<Rightarrow> string \<Rightarrow> string list \<Rightarrow> fs \<Rightarrow> fs \<times> int" where
  "create_main r base_path project modnames fs =
     (if fs (base_path @ [''src'']) \<noteq> Some Dir \<or> fs (base_path @ [''contrib'']) \<noteq> Some Dir then (fs, 2)
      else case rbind (check_project project) (\<lambda>project_path. select_modules base_path project_path modnames) of
             Inl e \<Rightarrow> (fs, exit_status e)
           | Inr modules \<Rightarrow>
               (case make_modules base_path r modules fs of
                  (fs', Inl e) \<Rightarrow> (fs', exit_status e)
                | (fs', Inr b) \<Rightarrow> (fs', 0)))"

end
