(* ===== verification/Create_Module_Correct.thy ===== *)
theory Create_Module_Correct
  imports Create_Module
begin

text \<open>
  Correctness of the module generator: a module is made completely or not at all, the files that
  it consists of, which modules a command line asks for, and that nothing is made before the
  whole command line has been checked.
\<close>

section \<open>Templates\<close>

fun known_piece :: "string list \<Rightarrow> piece \<Rightarrow> bool" where
  "known_piece keys (Char c) = True"
| "known_piece keys (Field f) \<longleftrightarrow>
     takeWhile (\<lambda>c. c \<noteq> CHR ''!'') f \<in> set keys \<and> (CHR ''!'' \<notin> set f \<or> dropWhile (\<lambda>c. c \<noteq> CHR ''!'') f = ''!r'')"

definition known_fields :: "string list \<Rightarrow> string \<Rightarrow> bool" where
  "known_fields keys template = (case format_pieces template of Inl _ \<Rightarrow> False | Inr ps \<Rightarrow> list_all (known_piece keys) ps)"

definition text_of :: "string \<Rightarrow> (string, string) dict \<Rightarrow> string" where
  "text_of template kwargs = (case format_template template kwargs of Inl _ \<Rightarrow> [] | Inr s \<Rightarrow> s)"

lemma known_piece_formats: "known_piece (map fst kwargs) p \<Longrightarrow> \<exists>s. format_piece kwargs p = Inr s"
proof (cases p)
  case (Field f)
  assume "known_piece (map fst kwargs) p"
  with Field have "takeWhile (\<lambda>c. c \<noteq> CHR ''!'') f \<in> fst ` set kwargs" by simp
  then obtain v where "dict_get kwargs (takeWhile (\<lambda>c. c \<noteq> CHR ''!'') f) = Some v"
    by (auto dest: weak_map_of_SomeI)
  with Field \<open>known_piece (map fst kwargs) p\<close> show ?thesis by (auto simp: format_field_def)
qed simp

lemma known_fields_format:
  assumes "known_fields (map fst kwargs) template"
  shows "format_template template kwargs = Inr (text_of template kwargs)"
proof -
  obtain ps where ps: "format_pieces template = Inr ps" "list_all (known_piece (map fst kwargs)) ps"
    using assms by (auto simp: known_fields_def split: sum.splits)
  then have "\<exists>g. \<forall>p\<in>set ps. format_piece kwargs p = Inr (g p)"
    using known_piece_formats by (intro bchoice) (auto simp: list_all_iff)
  then obtain g where "mapM (format_piece kwargs) ps = Inr (map g ps)" using mapM_Inr by metis
  with ps(1) show ?thesis by (simp add: text_of_def format_template_def)
qed

lemma format_pieces_append:
  "format_pieces a = Inr ps \<Longrightarrow> format_pieces (a @ b) = rbind (format_pieces b) (\<lambda>qs. Inr (ps @ qs))"
proof (induction a arbitrary: ps rule: format_pieces.induct)
  case (2 c s)
  note IH = "2.IH" and prem = "2.prems"
  consider (brace) "c = CHR ''{''" "starts_with s ''{''"
    | (field) "c = CHR ''{''" "\<not> starts_with s ''{''" "CHR ''}'' \<in> set s"
    | (close) "c = CHR ''}''" "starts_with s ''}''"
    | (char) "c \<noteq> CHR ''{''" "c \<noteq> CHR ''}''"
    using prem by (auto split: if_splits)
  then show ?case
  proof cases
    case brace
    then obtain t where "s = CHR ''{'' # t" by (auto simp: starts_with_iff)
    with brace IH(1) prem show ?thesis by (auto simp: res_simps rbind_assoc)
  next
    case field
    then have "\<not> starts_with (s @ b) ''{''" by (cases s) auto
    moreover have "tl (dropWhile (\<lambda>c. c \<noteq> CHR ''}'') (s @ b)) = tl (dropWhile (\<lambda>c. c \<noteq> CHR ''}'') s) @ b"
      "takeWhile (\<lambda>c. c \<noteq> CHR ''}'') (s @ b) = takeWhile (\<lambda>c. c \<noteq> CHR ''}'') s"
      using field(3) by (auto simp: dropWhile_append takeWhile_append dropWhile_eq_Nil_conv tl_append split: list.split)
    ultimately show ?thesis using field IH(2) prem by (auto simp: res_simps rbind_assoc)
  next
    case close
    then obtain t where "s = CHR ''}'' # t" by (auto simp: starts_with_iff)
    with close IH(3) prem show ?thesis by (auto simp: res_simps rbind_assoc)
  next
    case char
    with IH(4) prem show ?thesis by (auto simp: res_simps rbind_assoc)
  qed
qed (cases "format_pieces b"; simp)

lemma known_fields_append: "known_fields keys a \<Longrightarrow> known_fields keys b \<Longrightarrow> known_fields keys (a @ b)"
  by (auto simp: known_fields_def format_pieces_append split: sum.splits)

lemma known_join:
  assumes "list_all (known_fields keys) ls"
  shows "known_fields keys (join_with [CHR 0x0A] ls)"
proof -
  have "known_fields keys [CHR 0x0A]" "known_fields keys []" by (simp_all add: known_fields_def)
  with assms show ?thesis by (induction ls rule: induct_list012) (auto intro!: known_fields_append simp flip: append_Cons append_assoc)
qed

lemma known_WSCRIPT_TEMPLATE: "known_fields [''MODULE''] WSCRIPT_TEMPLATE"
  unfolding WSCRIPT_TEMPLATE_def by (rule known_join) code_simp

lemma known_MODEL_CC_TEMPLATE: "known_fields [''MODULE''] MODEL_CC_TEMPLATE"
  unfolding MODEL_CC_TEMPLATE_def by (rule known_join) code_simp

lemma known_MODEL_H_TEMPLATE: "known_fields [''MODULE'', ''INCLUDE_GUARD''] MODEL_H_TEMPLATE"
  unfolding MODEL_H_TEMPLATE_def by (rule known_join) code_simp

lemma known_HELPER_CC_TEMPLATE: "known_fields [''MODULE''] HELPER_CC_TEMPLATE"
  unfolding HELPER_CC_TEMPLATE_def by (rule known_join) code_simp

lemma known_HELPER_H_TEMPLATE: "known_fields [''MODULE'', ''INCLUDE_GUARD''] HELPER_H_TEMPLATE"
  unfolding HELPER_H_TEMPLATE_def by (rule known_join) code_simp

lemma known_EXAMPLES_WSCRIPT_TEMPLATE: "known_fields [''MODULE''] EXAMPLES_WSCRIPT_TEMPLATE"
  unfolding EXAMPLES_WSCRIPT_TEMPLATE_def by (rule known_join) code_simp

lemma known_EXAMPLE_CC_TEMPLATE: "known_fields [''MODULE''] EXAMPLE_CC_TEMPLATE"
  unfolding EXAMPLE_CC_TEMPLATE_def by (rule known_join) code_simp

lemma known_TEST_CC_TEMPLATE: "known_fields [''MODULE'', ''CAPITALIZED'', ''COMPOUND''] TEST_CC_TEMPLATE"
  unfolding TEST_CC_TEMPLATE_def by (rule known_join) code_simp

lemma known_DOC_RST_TEMPLATE: "known_fields [''MODULE'', ''MODULE_DIR''] DOC_RST_TEMPLATE"
  unfolding DOC_RST_TEMPLATE_def by (rule known_join) code_simp

lemmas templates_known = known_WSCRIPT_TEMPLATE known_MODEL_CC_TEMPLATE known_MODEL_H_TEMPLATE known_HELPER_CC_TEMPLATE known_HELPER_H_TEMPLATE known_EXAMPLES_WSCRIPT_TEMPLATE known_EXAMPLE_CC_TEMPLATE known_TEST_CC_TEMPLATE known_DOC_RST_TEMPLATE

section \<open>Actions\<close>

text \<open>A property of the change from one file system to the next that every action keeps.\<close>

locale change =
  fixes rel :: "fs \<Rightarrow> fs \<Rightarrow> bool"
  assumes rel_refl: "rel fs fs"
    and rel_trans: "rel fs fs' \<Longrightarrow> rel fs' fs'' \<Longrightarrow> rel fs fs''"
begin

lemma do_all_rel: "(\<And>a fs. a \<in> set as \<Longrightarrow> rel fs (fst (a fs))) \<Longrightarrow> rel fs (fst (do_all as fs))"
proof (induction as arbitrary: fs)
  case (Cons a as)
  have "rel fs (fst (a fs))" by (rule Cons.prems) simp
  moreover have "rel fs' (fst (do_all as fs'))" for fs' by (rule Cons.IH) (simp add: Cons.prems)
  ultimately show ?case by (auto simp: then_do_def intro: rel_trans split: prod.splits option.splits)
qed (simp add: rel_refl)

lemma mkdir_rel: "(\<And>q fs. prefix q p \<Longrightarrow> rel fs (fst (make_dir r q fs))) \<Longrightarrow> rel fs (fst (mkdir_parents r p fs))"
  by (auto simp: mkdir_parents_def rel_refl intro!: do_all_rel)

end

text \<open>Outside the module only missing directories above it are made.\<close>

definition grows :: "path \<Rightarrow> fs \<Rightarrow> fs \<Rightarrow> bool" where
  "grows m fs fs' \<longleftrightarrow> (\<forall>q. prefix m q \<or> fs' q = fs q \<or> (strict_prefix q m \<and> fs q = None \<and> fs' q = Some Dir))"

text \<open>What is at a path is in a directory.\<close>

definition file_tree :: "fs \<Rightarrow> bool" where
  "file_tree fs \<longleftrightarrow> (\<forall>q x. fs (q @ [x]) \<noteq> None \<longrightarrow> fs q = Some Dir)"

interpretation growth: change "grows m" for m
proof
  fix fs fs' fs'' assume "grows m fs fs'" "grows m fs' fs''"
  then show "grows m fs fs''" unfolding grows_def by (metis option.distinct(1))
qed (simp add: grows_def)

interpretation trees: change "\<lambda>fs fs'. file_tree fs \<longrightarrow> file_tree fs'"
  by unfold_locales auto

lemma make_dir_grows: "prefix q (m @ xs) \<Longrightarrow> grows m fs (fst (make_dir r q fs))"
  by (auto simp: make_dir_def grows_def strict_prefix_def dest: prefix_same_cases prefix_append [THEN iffD1])

lemma create_file_grows: "grows m fs (fst (create_file r (m @ xs) t kw fs))"
  by (auto simp: create_file_def grows_def split: sum.splits)

lemmas part_defs = make_wscript_def make_model_def make_test_def make_helper_def make_examples_def make_doc_def

definition parts :: "path \<Rightarrow> rights \<Rightarrow> path \<Rightarrow> string \<Rightarrow> action list" where
  "parts cwd r m modname =
     [make_wscript r m modname, make_model r m modname, make_test r m modname, make_helper r m modname, make_examples r m modname,
      make_doc cwd r m modname]"

lemma make_parts_eq: "make_parts cwd r m modname = then_do (mkdir_parents r m) (do_all (parts cwd r m modname))"
  by (rule ext) (simp add: make_parts_def parts_def)

lemma mkdir_grows: "grows m fs (fst (mkdir_parents r (m @ xs) fs))"
  by (rule growth.mkdir_rel) (rule make_dir_grows)

lemma parts_grow: "a \<in> set (parts cwd r m modname) \<Longrightarrow> grows m fs (fst (a fs))"
  using mkdir_grows create_file_grows
  by (auto simp: parts_def part_defs Let_def simp del: do_all.simps intro!: growth.do_all_rel)

section \<open>Directories\<close>

lemma do_all_append: "do_all (as @ bs) fs = then_do (do_all as) (do_all bs) fs"
  by (induction as arbitrary: fs) (auto simp: then_do_def split: prod.splits option.splits)

lemma do_all_single: "do_all [a] fs = a fs"
  by (auto simp: then_do_def split: prod.splits option.splits)

lemma make_dir_chain:
  assumes "file_tree fs"
  shows "file_tree (fst (do_all (map (make_dir r) (prefixes p)) fs))
    \<and> (snd (do_all (map (make_dir r) (prefixes p)) fs) = None \<longrightarrow> fst (do_all (map (make_dir r) (prefixes p)) fs) p = Some Dir)"
proof (induction p rule: rev_induct)
  case Nil
  from assms show ?case by (auto simp: then_do_def make_dir_def file_tree_def)
next
  case (snoc x p)
  obtain fs1 e where 1: "do_all (map (make_dir r) (prefixes p)) fs = (fs1, e)" by fastforce
  show ?case
  proof (cases e)
    case None
    with snoc 1 have "file_tree fs1" "fs1 p = Some Dir" by simp_all
    then have "file_tree (fst (make_dir r (p @ [x]) fs1))
        \<and> (snd (make_dir r (p @ [x]) fs1) = None \<longrightarrow> fst (make_dir r (p @ [x]) fs1) (p @ [x]) = Some Dir)"
      by (auto simp: make_dir_def file_tree_def)
    moreover have "do_all (map (make_dir r) (prefixes (p @ [x]))) fs = make_dir r (p @ [x]) fs1"
      by (simp add: prefixes_snoc do_all_append then_do_def 1 None do_all_single del: do_all.simps)
    ultimately show ?thesis by simp
  qed (use snoc 1 in \<open>auto simp: prefixes_snoc do_all_append then_do_def\<close>)
qed

lemma mkdir_tree: "file_tree fs \<Longrightarrow> file_tree (fst (mkdir_parents r p fs))"
  using make_dir_chain by (auto simp: mkdir_parents_def)

lemma create_file_tree:
  assumes "file_tree fs"
  shows "file_tree (fst (create_file r p t kw fs))"
proof -
  have "file_tree (fs(p \<mapsto> File c))" if "fs p \<noteq> Some Dir" "fs (butlast p) = Some Dir" for c
    unfolding file_tree_def
  proof (intro allI impI)
    fix q x assume new: "(fs(p \<mapsto> File c)) (q @ [x]) \<noteq> None"
    then have d: "fs q = Some Dir" using assms that(2) by (auto simp: file_tree_def split: if_splits)
    with that(1) show "(fs(p \<mapsto> File c)) q = Some Dir" by auto
  qed
  with assms show ?thesis by (auto simp: create_file_def split: sum.splits)
qed

lemma parts_tree: "a \<in> set (parts cwd r m modname) \<Longrightarrow> file_tree fs \<longrightarrow> file_tree (fst (a fs))"
  using mkdir_tree create_file_tree
  by (auto simp: parts_def part_defs Let_def simp del: do_all.simps intro!: trees.do_all_rel [THEN mp])

lemma file_tree_below:
  assumes "file_tree fs" "fs m = None" "prefix m q"
  shows "fs q = None"
proof -
  have "fs (m @ xs) = None" for xs
  proof (induction xs rule: rev_induct)
    case (snoc x xs)
    then show ?case using assms(1) unfolding file_tree_def by (metis append_assoc option.distinct(1))
  qed (simp add: assms(2))
  with assms(3) show ?thesis by (auto simp: prefix_def)
qed

lemma all_parts_grow: "grows m fs (fst (do_all (parts cwd r m modname) fs))"
  by (rule growth.do_all_rel) (rule parts_grow)

lemma all_parts_tree: "file_tree fs \<Longrightarrow> file_tree (fst (do_all (parts cwd r m modname) fs))"
  by (rule trees.do_all_rel [THEN mp]) (rule parts_tree)

lemma make_parts_grows: "grows m fs (fst (make_parts cwd r m modname fs))"
proof -
  obtain fs1 e1 where 1: "mkdir_parents r m fs = (fs1, e1)" by fastforce
  then have "grows m fs fs1" using mkdir_grows [of m fs r "[]"] by simp
  with 1 growth.rel_trans [OF this all_parts_grow] show ?thesis by (simp add: make_parts_eq then_do_def split: option.split)
qed

lemma make_parts_tree:
  assumes "file_tree fs"
  shows "file_tree (fst (make_parts cwd r m modname fs))"
proof -
  obtain fs1 e1 where 1: "mkdir_parents r m fs = (fs1, e1)" by fastforce
  then have "file_tree fs1" using mkdir_tree [OF assms, of r m] by simp
  with 1 all_parts_tree [OF this] show ?thesis by (simp add: make_parts_eq then_do_def split: option.split)
qed

definition remove_tree :: "path \<Rightarrow> fs \<Rightarrow> fs" where
  "remove_tree p fs q = (if prefix p q then None else fs q)"

lemma remove_tree_grows: "grows m fs fs' \<Longrightarrow> grows m fs (remove_tree m fs')"
  by (auto simp: grows_def remove_tree_def)

lemma remove_tree_tree: "file_tree fs \<Longrightarrow> file_tree (remove_tree p fs)"
  by (auto simp: file_tree_def remove_tree_def)

section \<open>The skeleton\<close>

definition unrestricted :: "rights \<Rightarrow> bool" where
  "unrestricted r \<longleftrightarrow> (\<forall>p. may_mkdir r p \<and> may_open r p \<and> may_write r p)"

definition dirs_to :: "path \<Rightarrow> fs \<Rightarrow> bool" where
  "dirs_to m fs \<longleftrightarrow> (\<forall>q. prefix q m \<longrightarrow> fs q = Some Dir)"

definition with_dirs :: "path \<Rightarrow> fs \<Rightarrow> fs" where
  "with_dirs m fs q = (if prefix q m then Some Dir else fs q)"

lemma dirs_to_with [simp]: "dirs_to m (with_dirs m fs)"
  by (simp add: dirs_to_def with_dirs_def)

lemma dirs_to_self: "dirs_to m fs \<Longrightarrow> fs m = Some Dir"
  by (simp add: dirs_to_def)

lemma dirs_to_update [simp]: "dirs_to m fs \<Longrightarrow> dirs_to m (fs(m @ x # xs \<mapsto> e))"
  by (auto simp: dirs_to_def prefix_def)

lemma make_dirs_unrestricted:
  assumes "unrestricted r" "\<forall>q. prefix q p \<longrightarrow> fs q = None \<or> fs q = Some Dir"
  shows "do_all (map (make_dir r) (prefixes p)) fs = (with_dirs p fs, None)"
  using assms(2)
proof (induction p rule: rev_induct)
  case Nil
  then show ?case using assms(1) by (auto simp: then_do_def make_dir_def with_dirs_def unrestricted_def fun_eq_iff)
next
  case (snoc x p)
  then have "do_all (map (make_dir r) (prefixes p)) fs = (with_dirs p fs, None)" by (auto intro: prefix_order.trans)
  moreover have "make_dir r (p @ [x]) (with_dirs p fs) = (with_dirs (p @ [x]) fs, None)"
    using snoc.prems assms(1) by (auto simp: make_dir_def with_dirs_def unrestricted_def fun_eq_iff)
  ultimately show ?case by (simp add: prefixes_snoc do_all_append then_do_def do_all_single del: do_all.simps)
qed

lemma with_dirs_id: "dirs_to m fs \<Longrightarrow> with_dirs m fs = fs"
  by (auto simp: dirs_to_def with_dirs_def)

lemma mkdir_new:
  assumes "unrestricted r" "dirs_to m fs" "fs (m @ [x]) = None"
  shows "mkdir_parents r (m @ [x]) fs = (fs(m @ [x] \<mapsto> Dir), None)"
proof -
  have "with_dirs (m @ [x]) fs = fs(m @ [x] \<mapsto> Dir)" using assms(2) by (auto simp: with_dirs_def dirs_to_def fun_eq_iff)
  moreover have "do_all (map (make_dir r) (prefixes (m @ [x]))) fs = (with_dirs (m @ [x]) fs, None)"
    using assms by (intro make_dirs_unrestricted) (auto simp: dirs_to_def)
  ultimately show ?thesis using assms(3) by (simp add: mkdir_parents_def)
qed

lemma create_new:
  assumes "unrestricted r" "fs (butlast p) = Some Dir" "fs p \<noteq> Some Dir" "known_fields (map fst kw) t"
  shows "create_file r p t kw fs = (fs(p \<mapsto> File (text_of t kw)), None)"
  using assms known_fields_format [OF assms(4)] by (simp add: create_file_def unrestricted_def)

lemma do_all_ok: "a fs = (fs', None) \<Longrightarrow> do_all as fs' = res \<Longrightarrow> do_all (a # as) fs = res"
  by (simp add: then_do_def)

text \<open>Entries put below a directory, the last one of the list first.\<close>

definition place :: "path \<Rightarrow> (path \<times> entry) list \<Rightarrow> fs \<Rightarrow> fs" where
  "place m es fs = foldr (\<lambda>e fs. fs(m @ fst e \<mapsto> snd e)) es fs"

lemma place_simps [simp]:
  "place m [] fs = fs"
  "place m (e # es) fs = (place m es fs)(m @ fst e \<mapsto> snd e)"
  by (simp_all add: place_def)

lemma place_append: "place m (es @ es') fs = place m es (place m es' fs)"
  by (simp add: place_def)

lemma place_dirs: "list_all (\<lambda>e. fst e \<noteq> []) es \<Longrightarrow> dirs_to m fs \<Longrightarrow> dirs_to m (place m es fs)"
  by (induction es) (auto simp: neq_Nil_conv)

lemma place_other: "list_all (\<lambda>e. take 1 (fst e) \<noteq> [x]) es \<Longrightarrow> place m es fs (m @ x # xs) = fs (m @ x # xs)"
  by (induction es) auto

text \<open>A new directory with files in it.\<close>

definition with_files :: "string \<Rightarrow> (string \<times> string \<times> (string, string) dict) list \<Rightarrow> (path \<times> entry) list" where
  "with_files x files = rev (map (\<lambda>(y, t, kw). ([x, y], File (text_of t kw))) files) @ [([x], Dir)]"

definition file_actions :: "rights \<Rightarrow> path \<Rightarrow> (string \<times> string \<times> (string, string) dict) list \<Rightarrow> action list" where
  "file_actions r d files = map (\<lambda>(y, t, kw). create_file r (d @ [y]) t kw) files"

lemma create_all:
  assumes "unrestricted r" "\<forall>(y, t, kw)\<in>set files. known_fields (map fst kw) t" "fs (m @ [x]) = Some Dir" "\<forall>y. fs (m @ [x, y]) \<noteq> Some Dir"
  shows "do_all (file_actions r (m @ [x]) files) fs = (place m (rev (map (\<lambda>(y, t, kw). ([x, y], File (text_of t kw))) files)) fs, None)"
  using assms(2-)
proof (induction files arbitrary: fs)
  case (Cons f files)
  obtain y t kw where f: "f = (y, t, kw)" by (cases f)
  let ?fs = "fs(m @ [x, y] \<mapsto> File (text_of t kw))"
  have "create_file r ((m @ [x]) @ [y]) t kw fs = (?fs, None)"
    using Cons.prems f create_new [OF assms(1), of fs "m @ [x, y]" kw t] by (simp add: butlast_append)
  moreover have "do_all (file_actions r (m @ [x]) files) ?fs = (place m (rev (map (\<lambda>(y, t, kw). ([x, y], File (text_of t kw))) files)) ?fs, None)"
    by (rule Cons.IH) (use Cons.prems in auto)
  ultimately show ?case by (simp add: f file_actions_def then_do_def place_append)
qed (simp add: file_actions_def)

lemma make_part:
  assumes "unrestricted r" "dirs_to m fs" "\<forall>xs. fs (m @ x # xs) = None" "\<forall>(y, t, kw)\<in>set files. known_fields (map fst kw) t"
  shows "do_all (mkdir_parents r (m @ [x]) # file_actions r (m @ [x]) files) fs = (place m (with_files x files) fs, None)"
proof (rule do_all_ok)
  show "mkdir_parents r (m @ [x]) fs = (fs(m @ [x] \<mapsto> Dir), None)" using assms(1-3) by (intro mkdir_new) auto
  show "do_all (file_actions r (m @ [x]) files) (fs(m @ [x] \<mapsto> Dir)) = (place m (with_files x files) fs, None)"
    by (subst create_all [OF assms(1,4)]) (use assms(3) in \<open>simp_all add: with_files_def place_append\<close>)
qed

text \<open>The five directories of a module.\<close>

definition model_files :: "string \<Rightarrow> (string \<times> string \<times> (string, string) dict) list" where
  "model_files n =
     [(with_suffix n ''.cc'', MODEL_CC_TEMPLATE, [(''MODULE'', n)]),
      (with_suffix n ''.h'', MODEL_H_TEMPLATE, [(''MODULE'', n), (''INCLUDE_GUARD'', include_guard n @ ''_H'')])]"

definition test_files :: "string \<Rightarrow> (string \<times> string \<times> (string, string) dict) list" where
  "test_files n =
     [(with_suffix (n @ ''-test-suite'') ''.cc'', TEST_CC_TEMPLATE,
       [(''MODULE'', n), (''CAPITALIZED'', capitalized n), (''COMPOUND'', compound n)])]"

definition helper_files :: "string \<Rightarrow> (string \<times> string \<times> (string, string) dict) list" where
  "helper_files n =
     [(with_suffix (n @ ''-helper'') ''.cc'', HELPER_CC_TEMPLATE, [(''MODULE'', n)]),
      (with_suffix (n @ ''-helper'') ''.h'', HELPER_H_TEMPLATE, [(''MODULE'', n), (''INCLUDE_GUARD'', include_guard n @ ''_HELPER_H'')])]"

definition example_files :: "string \<Rightarrow> (string \<times> string \<times> (string, string) dict) list" where
  "example_files n =
     [(''wscript'', EXAMPLES_WSCRIPT_TEMPLATE, [(''MODULE'', n)]),
      (with_suffix (n @ ''-example'') ''.cc'', EXAMPLE_CC_TEMPLATE, [(''MODULE'', n)])]"

definition doc_files :: "path \<Rightarrow> path \<Rightarrow> string \<Rightarrow> (string \<times> string \<times> (string, string) dict) list" where
  "doc_files cwd m n =
     [(n @ ''.rst'', DOC_RST_TEMPLATE, [(''MODULE'', n), (''MODULE_DIR'', relpath (path_text cwd) (path_text m) (path_text cwd))])]"

lemmas file_lists = model_files_def test_files_def helper_files_def example_files_def doc_files_def

text \<open>All entries of a module, the last one made first.\<close>

definition scaffold :: "path \<Rightarrow> path \<Rightarrow> string \<Rightarrow> (path \<times> entry) list" where
  "scaffold cwd m n =
     with_files ''doc'' (doc_files cwd m n) @ with_files ''examples'' (example_files n) @ with_files ''helper'' (helper_files n)
     @ with_files ''test'' (test_files n) @ with_files ''model'' (model_files n)
     @ [([''wscript''], File (text_of WSCRIPT_TEMPLATE [(''MODULE'', n)]))]"

lemma files_known:
  "\<forall>(y, t, kw)\<in>set (model_files n). known_fields (map fst kw) t"
  "\<forall>(y, t, kw)\<in>set (test_files n). known_fields (map fst kw) t"
  "\<forall>(y, t, kw)\<in>set (helper_files n). known_fields (map fst kw) t"
  "\<forall>(y, t, kw)\<in>set (example_files n). known_fields (map fst kw) t"
  "\<forall>(y, t, kw)\<in>set (doc_files cwd m n). known_fields (map fst kw) t"
  by (simp_all add: file_lists templates_known)

lemma part_actions:
  "make_model r m n = do_all (mkdir_parents r (m @ [''model'']) # file_actions r (m @ [''model'']) (model_files n))"
  "make_test r m n = do_all (mkdir_parents r (m @ [''test'']) # file_actions r (m @ [''test'']) (test_files n))"
  "make_helper r m n = do_all (mkdir_parents r (m @ [''helper'']) # file_actions r (m @ [''helper'']) (helper_files n))"
  "make_examples r m n = do_all (mkdir_parents r (m @ [''examples'']) # file_actions r (m @ [''examples'']) (example_files n))"
  "make_doc cwd r m n = do_all (mkdir_parents r (m @ [''doc'']) # file_actions r (m @ [''doc'']) (doc_files cwd m n))"
  by (simp_all add: part_defs file_lists file_actions_def Let_def del: do_all.simps)

lemma make_part_after:
  assumes "unrestricted r" "dirs_to m fs" "\<forall>xs. fs (m @ x # xs) = None" "list_all (\<lambda>e. fst e \<noteq> []) es" "list_all (\<lambda>e. take 1 (fst e) \<noteq> [x]) es"
    and "\<forall>(y, t, kw)\<in>set files. known_fields (map fst kw) t"
  shows "do_all (mkdir_parents r (m @ [x]) # file_actions r (m @ [x]) files) (place m es fs) = (place m (with_files x files @ es) fs, None)"
  by (subst make_part [OF assms(1) _ _ assms(6)]) (use assms in \<open>simp_all add: place_dirs place_other place_append\<close>)

lemma make_parts_scaffold:
  assumes "unrestricted r" "fs m = None" "file_tree fs" "\<forall>q. strict_prefix q m \<longrightarrow> fs q = None \<or> fs q = Some Dir"
  shows "make_parts cwd r m n fs = (place m (scaffold cwd m n) (with_dirs m fs), None)"
proof -
  let ?fs = "with_dirs m fs" and ?w = "[([''wscript''], File (text_of WSCRIPT_TEMPLATE [(''MODULE'', n)]))]"
  have below: "\<forall>xs. ?fs (m @ x # xs) = None" for x
    using file_tree_below [OF assms(3,2)] by (simp add: with_dirs_def)
  have 1: "mkdir_parents r m fs = (?fs, None)"
    using assms make_dirs_unrestricted [OF assms(1), of m fs] by (auto simp: mkdir_parents_def strict_prefix_def)
  have 2: "make_wscript r m n ?fs = (place m ?w ?fs, None)"
    unfolding make_wscript_def using below [of "''wscript''"] templates_known(1)
    by (subst create_new [OF assms(1)]) (simp_all add: dirs_to_self)
  note part = make_part_after [OF assms(1) dirs_to_with below]
  have 3: "do_all [make_model r m n, make_test r m n, make_helper r m n, make_examples r m n, make_doc cwd r m n] (place m ?w ?fs) =
      (place m (scaffold cwd m n) ?fs, None)"
    unfolding part_actions scaffold_def
    by (rule do_all_ok, rule part, force simp: with_files_def list_all_iff, force simp: with_files_def list_all_iff, rule files_known)+ simp
  show ?thesis unfolding make_parts_def by (rule do_all_ok, rule 1, rule do_all_ok, rule 2, rule 3)
qed

section \<open>Names\<close>

lemma allowed_turns:
  assumes "f = matches (Grp 1 (Alt (One P) (One Q)))"
  shows "(\<exists>gs'. (gs', t) \<in> set (iterate f n (gs, s))) \<longleftrightarrow> (\<exists>w. s = w @ t \<and> list_all (\<lambda>c. P c \<or> Q c) w \<and> length w \<le> n)"
proof (induction n arbitrary: gs s)
  case (Suc n)
  have f: "f (gs, s) = (case s of [] \<Rightarrow> [] | c # s' \<Rightarrow> replicate ((if P c then 1 else 0) + (if Q c then 1 else 0)) ((1, [c]) # gs, s'))"
    using assms by (cases s) auto
  show ?case
  proof (cases s)
    case (Cons c s')
    have "(\<exists>gs'. (gs', t) \<in> set (iterate f (Suc n) (gs, s))) \<longleftrightarrow>
        t = s \<or> ((P c \<or> Q c) \<and> (\<exists>gs'. (gs', t) \<in> set (iterate f n ((1, [c]) # gs, s'))))"
      using f Cons by auto
    also have "\<dots> \<longleftrightarrow> (\<exists>w. s = w @ t \<and> list_all (\<lambda>c. P c \<or> Q c) w \<and> length w \<le> Suc n)"
      unfolding Suc.IH
    proof
      assume "t = s \<or> (P c \<or> Q c) \<and> (\<exists>w. s' = w @ t \<and> list_all (\<lambda>c. P c \<or> Q c) w \<and> length w \<le> n)"
      then consider "t = s" | w where "P c \<or> Q c" "s' = w @ t" "list_all (\<lambda>c. P c \<or> Q c) w" "length w \<le> n" by blast
      then show "\<exists>w. s = w @ t \<and> list_all (\<lambda>c. P c \<or> Q c) w \<and> length w \<le> Suc n"
      proof cases
        case (2 w)
        then show ?thesis using Cons by (intro exI [of _ "c # w"]) simp
      qed (auto intro: exI [of _ "[]"])
    next
      assume "\<exists>w. s = w @ t \<and> list_all (\<lambda>c. P c \<or> Q c) w \<and> length w \<le> Suc n"
      then obtain w where "s = w @ t" "list_all (\<lambda>c. P c \<or> Q c) w" "length w \<le> Suc n" by blast
      then show "t = s \<or> (P c \<or> Q c) \<and> (\<exists>w. s' = w @ t \<and> list_all (\<lambda>c. P c \<or> Q c) w \<and> length w \<le> n)"
        using Cons by (cases w) auto
    qed
    finally show ?thesis .
  qed (use f in auto)
qed auto

lemma allowed_all_turns:
  "(\<exists>gs'. (gs', t) \<in> set (iterate (matches (Grp 1 (Alt (One P) (One Q)))) (length s) (gs, s))) \<longleftrightarrow>
    (\<exists>w. s = w @ t \<and> list_all (\<lambda>c. P c \<or> Q c) w)"
  unfolding allowed_turns [OF refl] by auto

lemma set_Plus: "set (matches (Plus g) st) = (\<Union>st'\<in>set (matches g st). set (iterate (matches g) (length (snd st')) st'))"
  by (simp add: Plus_def)

lemma set_class_group: "set (matches (Grp 1 (Alt (One P) (One Q))) ([], s)) = (case s of [] \<Rightarrow> {} | c # t \<Rightarrow> if P c \<or> Q c then {([(1, [c])], t)} else {})"
  by (cases s) auto

text \<open>What the check of a name accepts; the pattern lets a newline at the end pass.\<close>

lemma allowed_iff:
  "allowed s \<longleftrightarrow> (\<exists>w. w \<noteq> [] \<and> list_all (\<lambda>c. is_word c \<or> c = CHR ''-'') w \<and> (s = w \<or> s = w @ [CHR 0x0A]))"
proof -
  let ?f = "matches (Grp 1 (Alt (One is_word) (One (\<lambda>c. c = CHR ''-''))))" and ?ok = "\<lambda>c. is_word c \<or> c = CHR ''-''"
  have "allowed s \<longleftrightarrow> (\<exists>st\<in>set (matches (Plus (Grp 1 (Alt (One is_word) (One (\<lambda>c. c = CHR ''-''))))) ([], s)). snd st = [] \<or> snd st = [CHR 0x0A])"
    unfolding allowed_def allowedRE_def re_match_def matches.simps(3) by (simp add: case_prod_beta del: matches.simps(4,6)) blast
  also have "\<dots> \<longleftrightarrow> (\<exists>c s' t. s = c # s' \<and> ?ok c \<and> (t = [] \<or> t = [CHR 0x0A]) \<and> (\<exists>gs'. (gs', t) \<in> set (iterate ?f (length s') ([(1, [c])], s'))))"
    unfolding set_Plus set_class_group by (cases s) (simp_all add: Bex_def del: matches.simps, blast)
  also have "\<dots> \<longleftrightarrow> (\<exists>c s' t w. s = c # s' \<and> ?ok c \<and> (t = [] \<or> t = [CHR 0x0A]) \<and> s' = w @ t \<and> list_all ?ok w)"
    unfolding allowed_all_turns by blast
  also have "\<dots> \<longleftrightarrow> (\<exists>w. w \<noteq> [] \<and> list_all ?ok w \<and> (s = w \<or> s = w @ [CHR 0x0A]))"
  proof
    assume "\<exists>c s' t w. s = c # s' \<and> ?ok c \<and> (t = [] \<or> t = [CHR 0x0A]) \<and> s' = w @ t \<and> list_all ?ok w"
    then obtain c t w where "s = (c # w) @ t" "t = [] \<or> t = [CHR 0x0A]" "list_all ?ok (c # w)" by auto
    then show "\<exists>w. w \<noteq> [] \<and> list_all ?ok w \<and> (s = w \<or> s = w @ [CHR 0x0A])" by (intro exI [of _ "c # w"]) auto
  next
    assume "\<exists>w. w \<noteq> [] \<and> list_all ?ok w \<and> (s = w \<or> s = w @ [CHR 0x0A])"
    then obtain v where v: "v \<noteq> []" "list_all ?ok v" "s = v @ [] \<or> s = v @ [CHR 0x0A]" by auto
    then obtain c w where "v = c # w" by (cases v) simp
    with v have "s = c # w @ [] \<or> s = c # w @ [CHR 0x0A]" "?ok c" "list_all ?ok w" by auto
    then show "\<exists>c s' t w. s = c # s' \<and> ?ok c \<and> (t = [] \<or> t = [CHR 0x0A]) \<and> s' = w @ t \<and> list_all ?ok w" by blast
  qed
  finally show ?thesis .
qed

section \<open>Properties\<close>

lemma make_module_cases:
  assumes "rmtree r = (\<lambda>p fs. (remove_tree p fs, None))" "fs (modpath @ [modname]) = None" "file_tree fs"
  shows "(\<exists>fs'. make_module cwd r (modpath, modname) fs = (fs', Inr True) \<and> grows (modpath @ [modname]) fs fs' \<and> file_tree fs')
    \<or> (\<exists>fs'. make_module cwd r (modpath, modname) fs = (fs', Inr False) \<and> grows (modpath @ [modname]) fs fs' \<and> file_tree fs'
        \<and> (\<forall>q. prefix (modpath @ [modname]) q \<longrightarrow> fs' q = None))"
proof -
  let ?m = "modpath @ [modname]"
  obtain fs1 e where 1: "make_parts cwd r ?m modname fs = (fs1, e)" by fastforce
  have g: "grows ?m fs fs1" and t: "file_tree fs1"
    using make_parts_grows [of ?m fs cwd r modname] make_parts_tree [OF assms(3), of cwd r ?m modname] 1 by simp_all
  show ?thesis
  proof (cases "e = None \<or> fs1 ?m = None")
    case True
    then show ?thesis using 1 g t assms(2) file_tree_below [OF t] by (cases e) (auto simp: make_module_def Let_def)
  next
    case False
    then show ?thesis using 1 assms(1,2) remove_tree_grows [OF g] remove_tree_tree [OF t]
      by (auto simp: make_module_def Let_def remove_tree_def)
  qed
qed

text \<open>
  C11: A module is made completely or not at all.  If the removal of a directory works, then
  whatever else fails, a module that could not be made leaves nothing at its path; no file or
  directory elsewhere is changed, apart from missing directories above the module, which stay.
  An existing module is not touched.
\<close>

theorem make_module_atomic:
  assumes "rmtree r = (\<lambda>p fs. (remove_tree p fs, None))" "file_tree fs"
  shows "(case make_module cwd r (modpath, modname) fs of (fs', res) \<Rightarrow>
    if fs (modpath @ [modname]) \<noteq> None then fs' = fs \<and> res = Inr False
    else grows (modpath @ [modname]) fs fs' \<and>
      (res = Inr True \<or> (res = Inr False \<and> (\<forall>q. prefix (modpath @ [modname]) q \<longrightarrow> fs' q = None))))"
proof (cases "fs (modpath @ [modname])")
  case None
  from make_module_cases [OF assms(1) this assms(2), of cwd] None show ?thesis by auto
qed (simp add: make_module_def Let_def)

definition example_rights :: "(path \<Rightarrow> bool) \<Rightarrow> rights" where
  "example_rights ok = \<lparr>may_mkdir = ok, may_open = (\<lambda>_. True), may_write = (\<lambda>_. True), rmtree = (\<lambda>p fs. (remove_tree p fs, None))\<rparr>"

definition example_fs :: fs where
  "example_fs = [[] \<mapsto> Dir, [''src''] \<mapsto> Dir, [''contrib''] \<mapsto> Dir]"

lemma example_fs_tree: "file_tree example_fs"
  by (auto simp: file_tree_def example_fs_def Cons_eq_append_conv)

theorem make_module_atomic_witness:
  "fst (make_module [] (example_rights (\<lambda>p. p \<noteq> [''contrib'', ''m'', ''doc''])) ([''contrib''], ''m'') example_fs) [''src''] = Some Dir"
proof -
  let ?r = "example_rights (\<lambda>p. p \<noteq> [''contrib'', ''m'', ''doc''])"
  have a: "rmtree ?r = (\<lambda>p fs. (remove_tree p fs, None))" by (simp add: example_rights_def)
  have n: "example_fs ([''contrib''] @ [''m'']) = None" "example_fs [''src''] = Some Dir" by (simp_all add: example_fs_def)
  from make_module_atomic [OF a example_fs_tree, where cwd = "[]" and modpath = "[''contrib'']" and modname = "''m''"] n
  have "grows [''contrib'', ''m''] example_fs (fst (make_module [] ?r ([''contrib''], ''m'') example_fs))" by (auto split: prod.splits)
  then show ?thesis using n(2) unfolding grows_def by (elim allE [of _ "[''src'']"]) auto
qed

text \<open>
  C38: The skeleton.  When nothing is denied and no file is in the way, making a module succeeds;
  below its path there are then exactly the six directories and nine files that the help text
  lists, each file with its template filled in, and above it the directories that were missing.
\<close>

theorem module_scaffold:
  assumes "unrestricted r" "file_tree fs" "fs (modpath @ [modname]) = None"
    and "\<forall>q. strict_prefix q (modpath @ [modname]) \<longrightarrow> fs q = None \<or> fs q = Some Dir"
  shows "make_module cwd r (modpath, modname) fs =
    (place (modpath @ [modname]) (scaffold cwd (modpath @ [modname]) modname) (with_dirs (modpath @ [modname]) fs), Inr True)"
  using make_parts_scaffold [OF assms(1,3,2,4), of cwd modname] assms(3) by (simp add: make_module_def Let_def)

theorem module_scaffold_witness:
  "snd (make_module [] (example_rights (\<lambda>_. True)) ([''contrib''], ''m'') example_fs) = Inr True"
proof -
  have u: "unrestricted (example_rights (\<lambda>_. True))" by (simp add: unrestricted_def example_rights_def)
  have n: "example_fs ([''contrib''] @ [''m'']) = None" by (simp add: example_fs_def)
  have "\<forall>q. strict_prefix q ([''contrib''] @ [''m'']) \<longrightarrow> example_fs q = None \<or> example_fs q = Some Dir"
    by (simp add: example_fs_def)
  from module_scaffold [OF u example_fs_tree n this, of "[]"] show ?thesis by simp
qed

section \<open>The whole program\<close>

text \<open>What was there stays, and what is new is below one of the given directories.\<close>

definition only_adds :: "path list \<Rightarrow> fs \<Rightarrow> fs \<Rightarrow> bool" where
  "only_adds tops fs fs' \<longleftrightarrow> (\<forall>q. fs' q \<noteq> fs q \<longrightarrow> fs q = None \<and> (\<exists>t\<in>set tops. prefix t q))"

interpretation adding: change "only_adds tops" for tops
proof
  fix fs fs' fs'' assume "only_adds tops fs fs'" "only_adds tops fs' fs''"
  then show "only_adds tops fs fs''" unfolding only_adds_def by metis
qed (simp add: only_adds_def)

lemma file_tree_above:
  assumes "file_tree fs" "fs p = Some Dir" "prefix q p"
  shows "fs q = Some Dir"
proof -
  obtain xs where "p = q @ xs" using assms(3) by (auto simp: prefix_def)
  moreover have "fs (q @ xs) = Some Dir \<Longrightarrow> fs q = Some Dir" for xs
  proof (induction xs rule: rev_induct)
    case (snoc x xs)
    then show ?case using assms(1) unfolding file_tree_def by (metis append_assoc option.distinct(1))
  qed simp
  ultimately show ?thesis using assms(2) by simp
qed

lemma grows_only_adds:
  assumes "grows m fs fs'" "file_tree fs" "fs m = None" "fs t = Some Dir" "prefix t m" "t \<in> set tops"
  shows "only_adds tops fs fs'"
  unfolding only_adds_def
proof (intro allI impI)
  fix q assume "fs' q \<noteq> fs q"
  with assms(1) consider "prefix m q" | "strict_prefix q m" "fs q = None" unfolding grows_def by metis
  then show "fs q = None \<and> (\<exists>t\<in>set tops. prefix t q)"
  proof cases
    case 1
    then show ?thesis using file_tree_below [OF assms(2,3)] assms(5,6) by (meson prefix_order.trans)
  next
    case 2
    then have "prefix q t \<or> prefix t q" using assms(5) by (meson prefix_same_cases strict_prefix_def)
    with 2 file_tree_above [OF assms(2,4)] assms(6) show ?thesis by auto
  qed
qed

definition module_ok :: "path list \<Rightarrow> path \<times> string \<Rightarrow> bool" where
  "module_ok tops m \<longleftrightarrow> (\<exists>t\<in>set tops. prefix t (fst m))"

lemma make_modules_adds:
  assumes "rmtree r = (\<lambda>p fs. (remove_tree p fs, None))" "list_all (module_ok tops) ms" "file_tree fs" "\<forall>t\<in>set tops. fs t = Some Dir"
  shows "\<exists>fs' b. make_modules cwd r ms fs = (fs', Inr b) \<and> file_tree fs' \<and> only_adds tops fs fs'"
  using assms(2-)
proof (induction ms arbitrary: fs)
  case Nil
  then show ?case by (auto simp: only_adds_def)
next
  case (Cons m ms)
  obtain modpath modname where m: "m = (modpath, modname)" by (cases m)
  obtain t where t: "t \<in> set tops" "prefix t (modpath @ [modname])" using Cons.prems(1) m by (auto simp: module_ok_def)
  obtain fs' b where 1: "make_module cwd r m fs = (fs', Inr b)" "file_tree fs'" "only_adds tops fs fs'"
  proof (cases "fs (modpath @ [modname])")
    case None
    from make_module_cases [OF assms(1) None Cons.prems(2), of cwd] that m grows_only_adds [OF _ Cons.prems(2) None _ t(2,1)] Cons.prems(3) t(1)
    show thesis by blast
  qed (use that m Cons.prems(2) in \<open>auto simp: make_module_def Let_def only_adds_def\<close>)
  then have "\<forall>t\<in>set tops. fs' t = Some Dir" using Cons.prems(3) unfolding only_adds_def by (metis option.distinct(1))
  with Cons.IH [of fs'] Cons.prems(1) 1 show ?case
    by (cases b) (auto intro: adding.rel_trans)
qed

lemma select_module_ok:
  "select_module base project name = Inr (Some m) \<Longrightarrow> module_ok [base @ [''src''], base @ [''contrib'']] m"
  by (auto simp: select_module_def module_ok_def Let_def split: if_splits list.splits option.splits)

lemma select_modules_ok:
  "select_modules base project names = Inr ms \<Longrightarrow> list_all (module_ok [base @ [''src''], base @ [''contrib'']]) ms"
  by (induction names arbitrary: ms) (auto simp: res_simps dest: select_module_ok split: option.splits)

lemma create_main_cases:
  assumes "rmtree r = (\<lambda>p fs. (remove_tree p fs, None))" "file_tree fs"
  shows "\<exists>fs' status. create_main r base project modnames fs = (fs', status) \<and> file_tree fs'
    \<and> only_adds [base @ [''src''], base @ [''contrib'']] fs fs' \<and> (status \<noteq> 0 \<longrightarrow> fs' = fs)"
proof (cases "fs (base @ [''src'']) \<noteq> Some Dir \<or> fs (base @ [''contrib'']) \<noteq> Some Dir")
  case True
  then show ?thesis using assms(2) by (auto simp: create_main_def only_adds_def)
next
  case False
  show ?thesis
  proof (cases "rbind (check_project project) (\<lambda>project_path. select_modules base project_path modnames)")
    case (Inl e)
    then show ?thesis using False assms(2) by (auto simp: create_main_def only_adds_def)
  next
    case (Inr ms)
    then have "list_all (module_ok [base @ [''src''], base @ [''contrib'']]) ms" by (auto simp: res_simps dest: select_modules_ok)
    from make_modules_adds [OF assms(1) this assms(2), of base] False Inr show ?thesis by (auto simp: create_main_def)
  qed
qed

text \<open>
  C39: What a run changes.  If the removal of a directory works, a run never changes or removes
  anything that was there; what it adds is below \<^verbatim>\<open>src\<close> or \<^verbatim>\<open>contrib\<close>; and a run that ends with
  a status other than 0 has added nothing, since all names are checked before the first module is
  made.
\<close>

theorem create_main_only_adds:
  assumes "rmtree r = (\<lambda>p fs. (remove_tree p fs, None))" "file_tree fs"
  shows "(case create_main r base project modnames fs of (fs', status) \<Rightarrow>
    only_adds [base @ [''src''], base @ [''contrib'']] fs fs' \<and> (status \<noteq> 0 \<longrightarrow> fs' = fs))"
  using create_main_cases [OF assms, of base project modnames] by auto

theorem create_main_only_adds_witness:
  "fst (create_main (example_rights (\<lambda>_. True)) [] [] [''a'', ''src''] example_fs) = example_fs"
proof -
  have a: "rmtree (example_rights (\<lambda>_. True)) = (\<lambda>p fs. (remove_tree p fs, None))" by (simp add: example_rights_def)
  have "snd (create_main (example_rights (\<lambda>_. True)) [] [] [''a'', ''src''] example_fs) = 1" by code_simp
  with create_main_only_adds [OF a example_fs_tree, where base = "[]" and project = "[]" and modnames = "[''a'', ''src'']"]
  show ?thesis by (auto split: prod.splits)
qed



text \<open>
  Names with two parts.  The second part of a name such as \<^verbatim>\<open>a/b\<close> is ignored: the module
  \<^verbatim>\<open>a\<close> is made, while the help text says that a module name must not be a path.  A name
  that consists of \<^verbatim>\<open>src\<close> or \<^verbatim>\<open>contrib\<close> alone raises \<^verbatim>\<open>IndexError\<close>.
\<close>

theorem select_module_parts:
  assumes "allowed a" "CHR ''/'' \<notin> set a" "a \<notin> {''src'', ''contrib''}" "allowed b" "CHR ''/'' \<notin> set b"
  shows "select_module base None (a @ ''/'' @ b) = Inr (Some (base @ [''contrib''], a))
    \<and> select_module base None ''src'' = Inl IndexError \<and> select_module base None ''contrib'' = Inl IndexError"
proof -
  have ne: "w \<noteq> [] \<and> w \<noteq> ''.''" if "allowed w" for w
    using that by (auto simp: allowed_iff is_word_def Cons_eq_append_conv)
  have strip: "strip_sep (a @ ''/'' @ b) = a @ ''/'' @ b"
    using assms(2,5) ne [OF assms(1)] ne [OF assms(4)]
    by (cases a; cases b rule: rev_cases) (auto simp: strip_sep_def)
  have "path_parts (a @ ''/'' @ b) = [a, b]"
    using split_on_append [OF assms(2), of b] split_on_no_sep [OF assms(5)] ne [OF assms(1)] ne [OF assms(4)] by (simp add: path_parts_def)
  moreover have "path_parts ''src'' = [''src'']" "path_parts ''contrib'' = [''contrib'']" "strip_sep ''src'' = ''src''" "strip_sep ''contrib'' = ''contrib''"
    by code_simp+
  ultimately show ?thesis using assms(1,3) strip by (simp add: select_module_def)
qed

theorem select_module_parts_witness: "select_module [''ns3''] None ''lte/mac'' = Inr (Some ([''ns3'', ''contrib''], ''lte''))"
  using select_module_parts [of "''lte''" "''mac''" "[''ns3'']"] by (simp add: allowed_iff is_word_def Cons_eq_append_conv)

end
