(* ===== verification/Debug_Info.thy ===== *)
theory Debug_Info
  imports Py_Regex
begin

text \<open>
  \<^verbatim>\<open>src/source/elf-loader/extract-system-config.py\<close>: the sizes and offsets that the loader needs,
  read out of the debug information that \<^verbatim>\<open>readelf -wi\<close> prints for the dynamic linker.  The
  reader is a cursor in a list of lines.  Several of its loops need not end, so the queries are
  partial functions: \<open>None\<close> is a call that does not return, \<open>Some (Inl e)\<close> one that raises.
\<close>

section \<open>The reader\<close>

record item =
  it_type :: string
  it_ref :: string
  it_level :: string
  it_attributes :: "(string, string) dict"

text \<open>
  \<^verbatim>\<open><([^>]+)><([^>]+)>:[^A]*Abbrev Number:.*\d+.*\((\w+)\)\<close>
\<close>

definition header_rx :: rx where
  "header_rx =
     seqs [lit ''<'', Grp 1 (Plus (One (\<lambda>c. c \<noteq> CHR ''>''))), lit ''><'', Grp 2 (Plus (One (\<lambda>c. c \<noteq> CHR ''>''))), lit ''>:'',
           Star (One (\<lambda>c. c \<noteq> CHR ''A'')), lit ''Abbrev Number:'', Star Dot, Plus (One is_digit), Star Dot, lit ''('',
           Grp 3 (Plus (One is_word)), lit '')'']"

text \<open>
  \<^verbatim>\<open><[^>]+>[^D]*(DW_AT_\w+)([^:]*:)+ <?0?x?([^ \t><\)]+)[ >\t\)]*$\<close>
\<close>

definition attribute_rx :: rx where
  "attribute_rx =
     seqs [lit ''<'', Plus (One (\<lambda>c. c \<noteq> CHR ''>'')), lit ''>'', Star (One (\<lambda>c. c \<noteq> CHR ''D'')),
           Grp 1 (Seq (lit ''DW_AT_'') (Plus (One is_word))),
           Plus (Grp 2 (Seq (Star (One (\<lambda>c. c \<noteq> CHR '':''))) (lit '':''))), lit '' '',
           Opt (lit ''<''), Opt (lit ''0''), Opt (lit ''x''),
           Grp 3 (Plus (One (\<lambda>c. c \<notin> {CHR '' '', CHR 0x09, CHR ''>'', CHR ''<'', CHR '')''}))),
           Star (One (\<lambda>c. c \<in> {CHR '' '', CHR ''>'', CHR 0x09, CHR '')''})), Dollar]"

definition group_text :: "(nat \<times> string) list \<Rightarrow> nat \<Rightarrow> string" where
  "group_text gs n = (case group gs n of None \<Rightarrow> [] | Some t \<Rightarrow> t)"

definition read_header :: "string \<Rightarrow> item option" where
  "read_header line =
     map_option (\<lambda>gs. \<lparr>it_type = group_text gs 3, it_ref = group_text gs 2, it_level = group_text gs 1, it_attributes = []\<rparr>)
       (re_search header_rx line)"

definition read_attribute :: "string \<Rightarrow> (string \<times> string) option" where
  "read_attribute line = map_option (\<lambda>gs. (group_text gs 1, group_text gs 3)) (re_search attribute_rx line)"

text \<open>At the end of the lines \<^verbatim>\<open>read_line\<close> returns the empty string and the cursor stays.\<close>

definition read_line_at :: "string list \<Rightarrow> nat \<Rightarrow> string \<times> nat" where
  "read_line_at lines current = (if current < length lines then (lines ! current, current + 1) else ([], current))"

definition write_back_line :: "nat \<Rightarrow> nat" where
  "write_back_line current = current - 1"

lemma read_attribute_empty [simp]: "read_attribute [] = None"
  by code_simp

lemma read_header_empty [simp]: "read_header [] = None"
  by code_simp

text \<open>The inner loop of \<^verbatim>\<open>read_one\<close>: the attributes of an item whose header has been read.\<close>

function read_attributes :: "string list \<Rightarrow> nat \<Rightarrow> item \<Rightarrow> item \<times> nat" where
  "read_attributes lines current item =
     (let (line, current) = read_line_at lines current in
      if read_header line \<noteq> None then (item, write_back_line current)
      else case read_attribute line of
             None \<Rightarrow> (item, write_back_line current)
           | Some (key, val) \<Rightarrow> read_attributes lines current (item\<lparr>it_attributes := dict_set (it_attributes item) key val\<rparr>))"
  by pat_completeness auto

termination
  by (relation "measure (\<lambda>(lines, current, item). length lines - current)") (auto simp: read_line_at_def split: if_splits)

declare read_attributes.simps [simp del]

text \<open>The outer loop: lines are skipped until a header comes, also beyond the end.\<close>

partial_function (option) read_one :: "string list \<Rightarrow> nat \<Rightarrow> (item \<times> nat) option" where
  "read_one lines current =
     (let (line, current) = read_line_at lines current in
      if line = [] then read_one lines current
      else case read_header line of
             None \<Rightarrow> read_one lines current
           | Some item \<Rightarrow> Some (read_attributes lines current item))"

section \<open>Searches\<close>

definition has_name :: "string \<Rightarrow> string \<Rightarrow> item \<Rightarrow> bool" where
  "has_name ty name item \<longleftrightarrow> it_type item = ty \<and> dict_get (it_attributes item) ''DW_AT_name'' = Some name"

text \<open>The common loop of \<^verbatim>\<open>find_by_name\<close> and \<^verbatim>\<open>find_by_ref\<close>.\<close>

partial_function (option) find_item :: "(item \<Rightarrow> bool) \<Rightarrow> string list \<Rightarrow> nat \<Rightarrow> (item \<times> nat) option" where
  "find_item wanted lines current =
     (case read_one lines current of
        None \<Rightarrow> None
      | Some (item, current) \<Rightarrow> if wanted item then Some (item, current) else find_item wanted lines current)"

definition find_by_name :: "string \<Rightarrow> string \<Rightarrow> string list \<Rightarrow> nat \<Rightarrow> (item \<times> nat) option" where
  "find_by_name ty name = find_item (has_name ty name)"

definition find_struct :: "string \<Rightarrow> string list \<Rightarrow> nat \<Rightarrow> (item \<times> nat) option" where
  "find_struct struct_type_name = find_by_name ''DW_TAG_structure_type'' struct_type_name"

definition find_by_ref :: "string \<Rightarrow> string list \<Rightarrow> nat \<Rightarrow> (item \<times> nat) option" where
  "find_by_ref ref = find_item (\<lambda>item. it_ref item = ref)"

text \<open>
  \<^verbatim>\<open>find_member\<close> ends at the first item on the level of the parent, where it calls
  \<^verbatim>\<open>write_back_one\<close> without its argument, which raises \<^verbatim>\<open>TypeError\<close>.
\<close>

partial_function (option) find_member :: "string \<Rightarrow> item \<Rightarrow> string list \<Rightarrow> nat \<Rightarrow> string option res option" where
  "find_member member_name parent lines current =
     (case read_one lines current of
        None \<Rightarrow> None
      | Some (sub_item, current) \<Rightarrow>
          if it_level sub_item = it_level parent then Some (Inl TypeError)
          else if has_name ''DW_TAG_member'' member_name sub_item
          then Some (case dict_get (it_attributes sub_item) ''DW_AT_data_member_location'' of
                       None \<Rightarrow> Inl KeyError | Some offset \<Rightarrow> Inr (Some offset))
          else find_member member_name parent lines current)"

section \<open>Queries\<close>

text \<open>Each query rewinds the cursor.  A value that is not found would be \<open>Inr None\<close>.\<close>

definition get_struct_member_offset :: "string list \<Rightarrow> string \<Rightarrow> string \<Rightarrow> string option res option" where
  "get_struct_member_offset lines struct_type_name member_name =
     (case find_struct struct_type_name lines 0 of
        None \<Rightarrow> None
      | Some (item, current) \<Rightarrow> find_member member_name item lines current)"

definition get_struct_size :: "string list \<Rightarrow> string \<Rightarrow> string option res option" where
  "get_struct_size lines struct_type_name =
     (case find_struct struct_type_name lines 0 of
        None \<Rightarrow> None
      | Some (item, current) \<Rightarrow> Some (Inr (dict_get (it_attributes item) ''DW_AT_byte_size'')))"

definition get_typedef_member_offset :: "string list \<Rightarrow> string \<Rightarrow> string \<Rightarrow> string option res option" where
  "get_typedef_member_offset lines typename member_name =
     (case find_by_name ''DW_TAG_typedef'' typename lines 0 of
        None \<Rightarrow> None
      | Some (item, current) \<Rightarrow>
          (case dict_get (it_attributes item) ''DW_AT_type'' of
             None \<Rightarrow> Some (Inr None)
           | Some ref \<Rightarrow>
               (case find_by_ref ref lines 0 of
                  None \<Rightarrow> None
                | Some (item, current) \<Rightarrow> find_member member_name item lines current)))"

section \<open>The program\<close>

definition files_to_try :: "string list" where
  "files_to_try =
     [''/usr/lib64/debug/lib64/ld-2.11.2.so.debug'', ''/usr/lib/debug/lib64/ld-linux-x86-64.so.2.debug'',
      ''/usr/lib/debug/ld-linux-x86-64.so.2'', ''/usr/lib/debug/lib/ld-linux.so.2.debug'', ''/usr/lib/debug/ld-linux.so.2'',
      ''/usr/lib/debug/lib/i386-linux-gnu/ld-2.13.so'', ''/usr/lib/debug/lib/x86_64-linux-gnu/ld-2.13.so'',
      ''/usr/lib/debug/lib/ld-2.10.1.so'', ''/usr/lib/debug/lib/ld-2.11.1.so'', ''/usr/lib/debug/lib/ld-2.12.1.so'',
      ''/usr/lib/debug/lib/x86_64-linux-gnu/ld-2.15.so'', ''/usr/lib/debug/lib/i386-linux-gnu/ld-2.15.so'',
      ''/usr/lib/debug/lib/x86_64-linux-gnu/ld-2.17.so'', ''/usr/lib/debug/lib/i386-linux-gnu/ld-2.17.so'',
      ''/usr/lib/debug/lib/x86_64-linux-gnu/ld-2.19.so'', ''/usr/lib/debug/lib/i386-linux-gnu/ld-2.19.so'',
      ''/usr/lib/debug/lib/x86_64-linux-gnu/ld-2.23.so'']"

text \<open>The first of the files that exists; \<open>None\<close> is \<^verbatim>\<open>CouldNotFindFile\<close>.\<close>

definition search_debug_file :: "(string \<Rightarrow> bool) \<Rightarrow> string option \<Rightarrow> string option" where
  "search_debug_file isfile ld_linux_path =
     find isfile (files_to_try @ [case ld_linux_path of None \<Rightarrow> ''/fake/path'' | Some p \<Rightarrow> p])"

text \<open>
  The files of \<^verbatim>\<open>/etc/ld.so.conf.d\<close> in the order of the directory; one that cannot be read to
  the end contributes the lines read before the error.
\<close>

definition py_rstrip :: "string \<Rightarrow> string" where
  "py_rstrip s = rev (dropWhile is_space (rev s))"

definition list_lib_path :: "string list list \<Rightarrow> string" where
  "list_lib_path conf_files =
     join_with '':'' (map py_rstrip (filter (\<lambda>line. \<not> starts_with line ''#'') (concat conf_files)))"

text \<open>The values in the order of \<^verbatim>\<open>main\<close>, each with the macro that it defines.\<close>

datatype query = Struct_Size string | Struct_Member string string | Typedef_Member string string

definition config_queries :: "(string \<times> query) list" where
  "config_queries =
     [(''CONFIG_RTLD_GLOBAL_SIZE'', Struct_Size ''rtld_global''),
      (''CONFIG_RTLD_GLOBAL_RO_SIZE'', Struct_Size ''rtld_global_ro''),
      (''CONFIG_RTLD_DL_PAGESIZE_OFFSET'', Struct_Member ''rtld_global_ro'' ''_dl_pagesize''),
      (''CONFIG_DL_ERROR_CATCH_TSD_OFFSET'', Struct_Member ''rtld_global'' ''_dl_error_catch_tsd''),
      (''CONFIG_TCB_SIZE'', Struct_Size ''pthread''),
      (''CONFIG_TCB_TCB_OFFSET'', Typedef_Member ''tcbhead_t'' ''tcb''),
      (''CONFIG_TCB_DTV_OFFSET'', Typedef_Member ''tcbhead_t'' ''dtv''),
      (''CONFIG_TCB_SELF_OFFSET'', Typedef_Member ''tcbhead_t'' ''self''),
      (''CONFIG_TCB_SYSINFO_OFFSET'', Typedef_Member ''tcbhead_t'' ''sysinfo''),
      (''CONFIG_TCB_STACK_GUARD'', Typedef_Member ''tcbhead_t'' ''stack_guard'')]"

fun run_query :: "string list \<Rightarrow> query \<Rightarrow> string option res option" where
  "run_query lines (Struct_Size s) = get_struct_size lines s"
| "run_query lines (Struct_Member s m) = get_struct_member_offset lines s m"
| "run_query lines (Typedef_Member t m) = get_typedef_member_offset lines t m"

datatype ending = Exits int | Raises py_error | Hangs

definition define_line :: "string \<Rightarrow> string \<Rightarrow> string" where
  "define_line name val = ''#define '' @ name @ '' '' @ val @ [CHR 0x0A]"

text \<open>What is written to the configuration, and how the program ends.\<close>

fun write_config :: "string list \<Rightarrow> (string \<times> query) list \<Rightarrow> string list \<Rightarrow> string list list \<Rightarrow> string list \<times> ending" where
  "write_config lines [] config conf_files =
     (config @ [''#define CONFIG_SYSTEM_LDSO_LIBRARY_PATH '' @ [CHR 0x22] @ list_lib_path conf_files @ [CHR 0x22, CHR 0x0A]], Exits 0)"
| "write_config lines ((name, q) # qs) config conf_files =
     (case run_query lines q of
        None \<Rightarrow> (config, Hangs)
      | Some (Inl e) \<Rightarrow> (config, Raises e)
      | Some (Inr None) \<Rightarrow> (config, Exits 1)
      | Some (Inr (Some val)) \<Rightarrow> write_config lines qs (config @ [define_line name val]) conf_files)"

definition extract_main ::
  "(string \<Rightarrow> bool) \<Rightarrow> string option \<Rightarrow> (string \<Rightarrow> string list res) \<Rightarrow> string list list \<Rightarrow> string option \<Rightarrow> string list \<times> ending" where
  "extract_main isfile ld_linux_path readelf conf_files debug_filename =
     (case (case debug_filename of Some f \<Rightarrow> Some f | None \<Rightarrow> search_debug_file isfile ld_linux_path) of
        None \<Rightarrow> ([], Exits 1)
      | Some f \<Rightarrow>
          (case readelf f of
             Inl e \<Rightarrow> ([], Raises e)
           | Inr lines \<Rightarrow> write_config lines config_queries [] conf_files))"

end
