(* ===== verification/Debug_Info_Correct.thy ===== *)
theory Debug_Info_Correct
  imports Debug_Info
begin

text \<open>
  Correctness of the reader of debug information: which items the lines hold, when the searches
  return and what they find, and what the program writes before it ends, raises or hangs.
\<close>

section \<open>The items of a dump\<close>

definition attribute_line :: "string \<Rightarrow> bool" where
  "attribute_line line \<longleftrightarrow> read_header line = None \<and> read_attribute line \<noteq> None"

definition add_attribute :: "(string, string) dict \<Rightarrow> string \<Rightarrow> (string, string) dict" where
  "add_attribute d line = (case read_attribute line of None \<Rightarrow> d | Some (key, val) \<Rightarrow> dict_set d key val)"

lemma add_attribute_Some: "read_attribute line = Some (key, val) \<Longrightarrow> add_attribute d line = dict_set d key val"
  by (simp add: add_attribute_def)

fun items :: "string list \<Rightarrow> item list" where
  "items [] = []"
| "items (line # lines) =
     (case read_header line of
        None \<Rightarrow> items lines
      | Some item \<Rightarrow> item\<lparr>it_attributes := foldl add_attribute [] (takeWhile attribute_line lines)\<rparr> # items lines)"

text \<open>A dump does not end with the header of an item; \<^verbatim>\<open>readelf\<close> ends a tree with an empty entry.\<close>

definition complete_dump :: "string list \<Rightarrow> bool" where
  "complete_dump lines \<longleftrightarrow> lines \<noteq> [] \<longrightarrow> read_header (last lines) = None"

lemma items_skip: "\<forall>l\<in>set ls. read_header l = None \<Longrightarrow> items (ls @ rest) = items rest"
  by (induction ls) auto

lemma read_header_attributes: "read_header line = Some item \<Longrightarrow> it_attributes item = []"
  by (auto simp: read_header_def)

section \<open>Reading one item\<close>

lemma read_attributes_run:
  assumes "current \<le> length lines"
  shows "read_attributes lines current item =
    (let run = takeWhile attribute_line (drop current lines); stop = current + length run
     in (item\<lparr>it_attributes := foldl add_attribute (it_attributes item) run\<rparr>, if stop < length lines then stop else stop - 1))"
  using assms
proof (induction lines current item rule: read_attributes.induct)
  case (1 lines current item)
  show ?case
  proof (cases "current < length lines")
    case True
    then have d: "drop current lines = lines ! current # drop (Suc current) lines" by (simp add: Cons_nth_drop_Suc)
    show ?thesis
    proof (cases "attribute_line (lines ! current)")
      case attr: True
      then obtain key val where kv: "read_attribute (lines ! current) = Some (key, val)" "read_header (lines ! current) = None"
        by (auto simp: attribute_line_def)
      with 1(1) [of "(lines ! current, current + 1)" "lines ! current" "current + 1" "(key, val)" key val] True
      show ?thesis
        by (subst read_attributes.simps) (simp add: d attr read_line_at_def Let_def add_attribute_Some)
    next
      case False
      with True show ?thesis
        by (subst read_attributes.simps) (auto simp: d read_line_at_def write_back_line_def attribute_line_def split: option.splits)
    qed
  next
    case False
    with 1(2) show ?thesis
      by (subst read_attributes.simps) (auto simp: read_line_at_def write_back_line_def)
  qed
qed

lemma drop_run:
  assumes "complete_dump lines" "current \<le> length lines" "0 < current" "run = takeWhile attribute_line (drop current lines)"
    and "after = (if current + length run < length lines then current + length run else current + length run - 1)"
  shows "items (drop after lines) = items (drop current lines) \<and> after \<le> length lines"
proof -
  have run: "\<forall>l\<in>set run. read_header l = None"
    using assms(4) by (auto simp: attribute_line_def dest: set_takeWhileD)
  have split: "drop current lines = run @ drop (current + length run) lines"
    using assms(4) by (metis add.commute append_take_drop_id drop_drop takeWhile_eq_take)
  have len: "current + length run \<le> length lines"
    using assms(2,4) length_takeWhile_le [of attribute_line "drop current lines"] by simp
  have whole: "items (drop current lines) = items (drop (current + length run) lines)"
    by (subst split) (rule items_skip [OF run])
  show ?thesis
  proof (cases "current + length run < length lines")
    case False
    then have e: "current + length run = length lines" and n: "after = length lines - 1"
      using len assms(5) by auto
    then have "lines \<noteq> []" using assms(3) by auto
    then have "drop after lines = [last lines]" using n by (metis append_butlast_last_id append_eq_conv_conj length_butlast)
    then show ?thesis using whole e n assms(1) \<open>lines \<noteq> []\<close> by (simp add: complete_dump_def)
  qed (use whole assms(5) len in auto)
qed

lemma read_one_header:
  assumes "complete_dump lines" "current < length lines" "read_header (lines ! current) = Some item"
  shows "\<exists>after. read_one lines current = Some (hd (items (drop current lines)), after)
    \<and> items (drop after lines) = tl (items (drop current lines)) \<and> after \<le> length lines"
proof -
  let ?run = "takeWhile attribute_line (drop (current + 1) lines)"
  define after where "after = (if current + 1 + length ?run < length lines then current + 1 + length ?run else current + 1 + length ?run - 1)"
  have d: "drop current lines = lines ! current # drop (Suc current) lines" using assms(2) by (simp add: Cons_nth_drop_Suc)
  have ne: "lines ! current \<noteq> []" using assms(3) by auto
  have "read_one lines current = Some (item\<lparr>it_attributes := foldl add_attribute [] ?run\<rparr>, after)"
    using assms(2,3) ne read_attributes_run [of "current + 1" lines item] read_header_attributes [OF assms(3)]
    by (subst read_one.simps) (simp add: read_line_at_def Let_def after_def)
  moreover have "items (drop after lines) = items (drop (current + 1) lines) \<and> after \<le> length lines"
    by (rule drop_run [OF assms(1) _ _ refl after_def]) (use assms(2) in auto)
  ultimately show ?thesis using assms(3) d by auto
qed

lemma read_one_skip:
  "current < length lines \<Longrightarrow> read_header (lines ! current) = None \<Longrightarrow> read_one lines current = read_one lines (current + 1)"
  by (subst read_one.simps) (auto simp: read_line_at_def)

lemma read_one_returns:
  assumes "read_one lines current = Some r"
  shows "\<exists>k. current \<le> k \<and> k < length lines \<and> read_header (lines ! k) \<noteq> None"
proof (rule read_one.raw_induct [OF _ assms], goal_cases)
  case (1 rd lines current r)
  show ?case
  proof (cases "current < length lines \<and> read_header (lines ! current) \<noteq> None")
    case False
    then have "\<exists>c. rd lines c = Some r \<and> current \<le> c"
      using 1(2) by (auto simp: read_line_at_def split: if_splits option.splits)
    with 1(1) show ?thesis by (meson order_trans)
  qed auto
qed

lemma items_header: "k < length ls \<Longrightarrow> read_header (ls ! k) \<noteq> None \<Longrightarrow> items ls \<noteq> []"
  by (induction ls arbitrary: k) (auto simp: nth_Cons split: nat.splits option.splits)

text \<open>At the end of the items the reader never returns.\<close>

lemma read_one_end:
  assumes "items (drop current lines) = []"
  shows "read_one lines current = None"
proof (rule ccontr)
  assume "read_one lines current \<noteq> None"
  then obtain k where "current \<le> k" "k < length lines" "read_header (lines ! k) \<noteq> None"
    using read_one_returns by blast
  then have "items (drop current lines) \<noteq> []" by (intro items_header [of "k - current"]) auto
  with assms show False by simp
qed

lemma read_one_item:
  assumes "complete_dump lines" "current \<le> length lines" "items (drop current lines) = item # rest"
  shows "\<exists>after. read_one lines current = Some (item, after) \<and> items (drop after lines) = rest \<and> after \<le> length lines"
  using assms(2,3)
proof (induction "length lines - current" arbitrary: current)
  case (Suc n)
  then have c: "current < length lines" by simp
  then have d: "drop current lines = lines ! current # drop (Suc current) lines" by (simp add: Cons_nth_drop_Suc)
  show ?case
  proof (cases "read_header (lines ! current)")
    case None
    with Suc d c show ?thesis using read_one_skip [OF c None] by auto
  next
    case (Some i)
    with read_one_header [OF assms(1) c Some] Suc.prems show ?thesis by auto
  qed
qed auto

section \<open>Searches\<close>

text \<open>
  What the searches rely on: a source that delivers its items one after the other and, at the
  end, does not come back.
\<close>

locale item_source =
  fixes ok :: "'c \<Rightarrow> bool"
    and contents :: "'c \<Rightarrow> 'i list"
    and fetch :: "'c \<Rightarrow> ('i \<times> 'c) option"
  assumes fetch_end: "contents c = [] \<Longrightarrow> fetch c = None"
    and fetch_item: "ok c \<Longrightarrow> contents c = i # rest \<Longrightarrow> \<exists>c'. fetch c = Some (i, c') \<and> contents c' = rest \<and> ok c'"

locale item_search = item_source ok contents fetch
  for ok :: "'c \<Rightarrow> bool" and contents :: "'c \<Rightarrow> 'i list" and fetch :: "'c \<Rightarrow> ('i \<times> 'c) option" +
  fixes wanted :: "'i \<Rightarrow> bool"
    and result :: "'i \<Rightarrow> 'c \<Rightarrow> 'r"
    and search :: "'c \<Rightarrow> 'r option"
  assumes search_step: "search c = (case fetch c of None \<Rightarrow> None | Some (i, c') \<Rightarrow> if wanted i then Some (result i c') else search c')"
begin

lemma search_hangs: "ok c \<Longrightarrow> \<forall>i\<in>set (contents c). \<not> wanted i \<Longrightarrow> search c = None"
proof (induction "contents c" arbitrary: c)
  case Nil
  then show ?case by (subst search_step) (simp add: fetch_end)
next
  case (Cons i rest)
  then obtain c' where "fetch c = Some (i, c')" "contents c' = rest" "ok c'" using fetch_item [of c i rest] by auto
  moreover have "\<not> wanted i" "\<forall>k\<in>set rest. \<not> wanted k" using Cons.prems(2) by (simp_all flip: Cons.hyps(2))
  moreover have "search c' = None" by (rule Cons.hyps(1)) (use calculation in simp_all)
  ultimately show ?case by (subst search_step) simp
qed

lemma search_finds:
  "ok c \<Longrightarrow> dropWhile (\<lambda>i. \<not> wanted i) (contents c) = i # rest \<Longrightarrow>
    \<exists>c'. search c = Some (result i c') \<and> contents c' = rest \<and> ok c'"
proof (induction "contents c" arbitrary: c)
  case (Cons j js)
  then obtain c' where "fetch c = Some (j, c')" "contents c' = js" "ok c'" using fetch_item [of c j js] by metis
  note c' = this
  show ?case
  proof (cases "wanted j")
    case True
    with c' Cons.prems(2) show ?thesis by (subst search_step) (auto simp flip: Cons.hyps(2))
  next
    case False
    then have "dropWhile (\<lambda>i. \<not> wanted i) (contents c') = i # rest" using Cons.prems(2) c'(2) by (simp flip: Cons.hyps(2))
    from Cons.hyps(1) [OF c'(2) [symmetric] c'(3) this] c'(1) False show ?thesis by (subst search_step) simp
  qed
qed (metis dropWhile.simps(1) list.discI)

lemma search_cases:
  assumes "ok c"
  shows "(case dropWhile (\<lambda>i. \<not> wanted i) (contents c) of
      [] \<Rightarrow> search c = None
    | i # rest \<Rightarrow> \<exists>c'. search c = Some (result i c') \<and> contents c' = rest \<and> ok c')"
proof (cases "dropWhile (\<lambda>i. \<not> wanted i) (contents c)")
  case Nil
  then have "\<forall>i\<in>set (contents c). \<not> wanted i" by (simp add: dropWhile_eq_Nil_conv)
  from search_hangs [OF assms this] Nil show ?thesis by (simp del: dropWhile_eq_Nil_conv)
next
  case (Cons i rest)
  with search_finds [OF assms Cons] show ?thesis by simp
qed

end

definition cursor_ok :: "string list \<Rightarrow> nat \<Rightarrow> bool" where
  "cursor_ok lines n \<longleftrightarrow> complete_dump lines \<and> n \<le> length lines"

definition rest_items :: "string list \<Rightarrow> nat \<Rightarrow> item list" where
  "rest_items lines n = items (drop n lines)"

interpretation dump: item_source "cursor_ok lines" "rest_items lines" "read_one lines" for lines
proof
  fix n i rest
  show "rest_items lines n = [] \<Longrightarrow> read_one lines n = None" by (simp add: rest_items_def read_one_end)
  show "cursor_ok lines n \<Longrightarrow> rest_items lines n = i # rest \<Longrightarrow>
      \<exists>n'. read_one lines n = Some (i, n') \<and> rest_items lines n' = rest \<and> cursor_ok lines n'"
    using read_one_item [of lines n i rest] by (auto simp: cursor_ok_def rest_items_def)
qed

interpretation finding: item_search "cursor_ok lines" "rest_items lines" "read_one lines" wanted Pair "find_item wanted lines" for lines wanted
  by unfold_locales (rule find_item.simps)

definition member_result :: "string \<Rightarrow> item \<Rightarrow> item \<Rightarrow> string option res" where
  "member_result member_name parent sub_item =
     (if it_level sub_item = it_level parent then Inl TypeError
      else case dict_get (it_attributes sub_item) ''DW_AT_data_member_location'' of None \<Rightarrow> Inl KeyError | Some offset \<Rightarrow> Inr (Some offset))"

interpretation members: item_search "cursor_ok lines" "rest_items lines" "read_one lines"
    "\<lambda>i. it_level i = it_level parent \<or> has_name ''DW_TAG_member'' m i" "\<lambda>i n. member_result m parent i" "find_member m parent lines"
  for lines m parent
  by unfold_locales (subst find_member.simps, simp add: member_result_def split: option.split)

section \<open>Queries\<close>

text \<open>What a query asks of the items: the first item that is wanted, and those after it.\<close>

definition first_item :: "(item \<Rightarrow> bool) \<Rightarrow> item list \<Rightarrow> (item \<times> item list) option" where
  "first_item wanted xs = (case dropWhile (\<lambda>i. \<not> wanted i) xs of [] \<Rightarrow> None | i # rest \<Rightarrow> Some (i, rest))"

definition member_of :: "string \<Rightarrow> item \<times> item list \<Rightarrow> string option res option" where
  "member_of m p =
     map_option (\<lambda>(i, _). member_result m (fst p) i)
       (first_item (\<lambda>i. it_level i = it_level (fst p) \<or> has_name ''DW_TAG_member'' m i) (snd p))"

fun query_spec :: "item list \<Rightarrow> query \<Rightarrow> string option res option" where
  "query_spec xs (Struct_Size s) =
     map_option (\<lambda>(i, _). Inr (dict_get (it_attributes i) ''DW_AT_byte_size'')) (first_item (has_name ''DW_TAG_structure_type'' s) xs)"
| "query_spec xs (Struct_Member s m) = Option.bind (first_item (has_name ''DW_TAG_structure_type'' s) xs) (member_of m)"
| "query_spec xs (Typedef_Member t m) =
     Option.bind (first_item (has_name ''DW_TAG_typedef'' t) xs) (\<lambda>(i, _).
       case dict_get (it_attributes i) ''DW_AT_type'' of
         None \<Rightarrow> Some (Inr None)
       | Some ref \<Rightarrow> Option.bind (first_item (\<lambda>j. it_ref j = ref) xs) (member_of m))"

lemma find_item_cases:
  assumes "complete_dump lines"
  shows "(case first_item wanted (items lines) of
      None \<Rightarrow> find_item wanted lines 0 = None
    | Some (i, rest) \<Rightarrow> \<exists>n. find_item wanted lines 0 = Some (i, n) \<and> rest_items lines n = rest \<and> cursor_ok lines n)"
  using finding.search_cases [of lines 0 wanted] assms
  by (simp add: first_item_def cursor_ok_def rest_items_def split: list.splits del: dropWhile_eq_Nil_conv)

lemma find_member_spec: "cursor_ok lines n \<Longrightarrow> find_member m parent lines n = member_of m (parent, rest_items lines n)"
  using members.search_cases [where lines = lines and c = n and m = m and parent = parent]
  by (auto simp: member_of_def first_item_def split: list.splits simp del: dropWhile_eq_Nil_conv)

lemma run_query_spec:
  assumes "complete_dump lines"
  shows "run_query lines q = query_spec (items lines) q"
proof (cases q)
  case (Struct_Size s)
  then show ?thesis using find_item_cases [OF assms, of "has_name ''DW_TAG_structure_type'' s"]
    by (auto simp: get_struct_size_def find_struct_def find_by_name_def split: option.splits)
next
  case (Struct_Member s m)
  then show ?thesis using find_item_cases [OF assms, of "has_name ''DW_TAG_structure_type'' s"]
    by (auto simp: get_struct_member_offset_def find_struct_def find_by_name_def find_member_spec split: option.splits)
next
  case (Typedef_Member t m)
  show ?thesis
  proof (cases "find_item (has_name ''DW_TAG_typedef'' t) lines 0")
    case None
    with Typedef_Member find_item_cases [OF assms, of "has_name ''DW_TAG_typedef'' t"] show ?thesis
      by (auto simp: get_typedef_member_offset_def find_by_name_def split: option.splits)
  next
    case (Some p)
    with find_item_cases [OF assms, of "has_name ''DW_TAG_typedef'' t"]
    obtain rest where "first_item (has_name ''DW_TAG_typedef'' t) (items lines) = Some (fst p, rest)" by (auto split: option.splits)
    moreover have "find_by_ref ref lines 0 = Some r \<Longrightarrow> \<exists>rest. first_item (\<lambda>j. it_ref j = ref) (items lines) = Some (fst r, rest)
        \<and> find_member m (fst r) lines (snd r) = member_of m (fst r, rest)"
      "find_by_ref ref lines 0 = None \<Longrightarrow> first_item (\<lambda>j. it_ref j = ref) (items lines) = None" for ref r
      using find_item_cases [OF assms, of "\<lambda>j. it_ref j = ref"] by (auto simp: find_by_ref_def find_member_spec split: option.splits)
    ultimately show ?thesis using Some Typedef_Member
      by (cases p) (fastforce simp: get_typedef_member_offset_def find_by_name_def split: option.split)
  qed
qed

lemma first_item_None: "first_item wanted xs = None \<longleftrightarrow> (\<forall>i\<in>set xs. \<not> wanted i)"
  by (auto simp: first_item_def split: list.splits dest: dropWhile_eq_Nil_conv [THEN iffD1] simp del: dropWhile_eq_Nil_conv)
    (metis dropWhile_eq_Nil_conv list.distinct(1))

lemma member_of_found: "member_of m p \<noteq> Some (Inr None)"
  by (auto simp: member_of_def member_result_def split: option.splits if_splits)

section \<open>The configuration\<close>

definition answered :: "string list \<Rightarrow> string \<times> query \<Rightarrow> bool" where
  "answered lines nq \<longleftrightarrow> (\<exists>val. query_spec (items lines) (snd nq) = Some (Inr (Some val)))"

definition answer_line :: "string list \<Rightarrow> string \<times> query \<Rightarrow> string" where
  "answer_line lines nq = (case query_spec (items lines) (snd nq) of Some (Inr (Some val)) \<Rightarrow> define_line (fst nq) val | _ \<Rightarrow> [])"

definition without_answer :: "string option res option \<Rightarrow> ending" where
  "without_answer r = (case r of None \<Rightarrow> Hangs | Some (Inl e) \<Rightarrow> Raises e | Some (Inr _) \<Rightarrow> Exits 1)"

lemma write_config_spec:
  assumes "complete_dump lines"
  shows "write_config lines qs config conf_files =
    (let out = config @ map (answer_line lines) (takeWhile (answered lines) qs) in
     case dropWhile (answered lines) qs of
       [] \<Rightarrow> (out @ [''#define CONFIG_SYSTEM_LDSO_LIBRARY_PATH '' @ [CHR 0x22] @ list_lib_path conf_files @ [CHR 0x22, CHR 0x0A]], Exits 0)
     | nq # _ \<Rightarrow> (out, without_answer (query_spec (items lines) (snd nq))))"
proof (induction qs arbitrary: config)
  case (Cons nq qs)
  obtain name q where nq: "nq = (name, q)" by (cases nq)
  show ?case
  proof (cases "answered lines nq")
    case True
    then obtain val where "query_spec (items lines) q = Some (Inr (Some val))" by (auto simp: answered_def nq)
    with True Cons show ?thesis by (simp add: nq run_query_spec [OF assms] answer_line_def Let_def split: list.split del: dropWhile_eq_Nil_conv)
  next
    case False
    then show ?thesis
      by (auto simp: nq run_query_spec [OF assms] answered_def without_answer_def split: option.split sum.split)
  qed
qed simp

section \<open>An example\<close>

definition example_dump :: "string list" where
  "example_dump =
     ['' <1><2d>: Abbrev Number: 2 (DW_TAG_structure_type)'',
      ''  <2e> DW_AT_name : pthread'',
      ''  <32> DW_AT_byte_size : 1792'',
      '' <2><35>: Abbrev Number: 3 (DW_TAG_member)'',
      ''  <36> DW_AT_name : tid'',
      ''  <3a> DW_AT_data_member_location: 8'',
      '' <1><40>: Abbrev Number: 0'']"

lemma example_headers:
  "read_header '' <1><2d>: Abbrev Number: 2 (DW_TAG_structure_type)'' = Some \<lparr>it_type = ''DW_TAG_structure_type'', it_ref = ''2d'', it_level = ''1'', it_attributes = []\<rparr>"
  "read_header ''  <2e> DW_AT_name : pthread'' = None"
  "read_header ''  <32> DW_AT_byte_size : 1792'' = None"
  "read_header '' <2><35>: Abbrev Number: 3 (DW_TAG_member)'' = Some \<lparr>it_type = ''DW_TAG_member'', it_ref = ''35'', it_level = ''2'', it_attributes = []\<rparr>"
  "read_header ''  <36> DW_AT_name : tid'' = None"
  "read_header ''  <3a> DW_AT_data_member_location: 8'' = None"
  "read_header '' <1><40>: Abbrev Number: 0'' = None"
  by code_simp+

lemma example_attributes:
  "read_attribute ''  <2e> DW_AT_name : pthread'' = Some (''DW_AT_name'', ''pthread'')"
  "read_attribute ''  <32> DW_AT_byte_size : 1792'' = Some (''DW_AT_byte_size'', ''1792'')"
  "read_attribute ''  <36> DW_AT_name : tid'' = Some (''DW_AT_name'', ''tid'')"
  "read_attribute ''  <3a> DW_AT_data_member_location: 8'' = Some (''DW_AT_data_member_location'', ''8'')"
  "read_attribute '' <1><40>: Abbrev Number: 0'' = None"
  by code_simp+

lemma example_items:
  "items example_dump =
     [\<lparr>it_type = ''DW_TAG_structure_type'', it_ref = ''2d'', it_level = ''1'',
       it_attributes = [(''DW_AT_name'', ''pthread''), (''DW_AT_byte_size'', ''1792'')]\<rparr>,
      \<lparr>it_type = ''DW_TAG_member'', it_ref = ''35'', it_level = ''2'',
       it_attributes = [(''DW_AT_name'', ''tid''), (''DW_AT_data_member_location'', ''8'')]\<rparr>]"
  by (simp add: example_dump_def example_headers example_attributes attribute_line_def add_attribute_def)

lemma example_complete: "complete_dump example_dump"
  by (simp add: complete_dump_def example_dump_def example_headers)

section \<open>Properties\<close>



text \<open>
  The program.  It writes the values of the queries in order, up to the first query without
  a value; there it exits with status 1, raises or hangs as that query does.  When all have
  values it adds the library path and exits with status 0.
\<close>

theorem extract_outcome:
  assumes "readelf f = Inr lines" "complete_dump lines"
  shows "extract_main isfile ld_linux_path readelf conf_files (Some f) =
    (let out = map (answer_line lines) (takeWhile (answered lines) config_queries) in
     case dropWhile (answered lines) config_queries of
       [] \<Rightarrow> (out @ [''#define CONFIG_SYSTEM_LDSO_LIBRARY_PATH '' @ [CHR 0x22] @ list_lib_path conf_files @ [CHR 0x22, CHR 0x0A]], Exits 0)
     | nq # _ \<Rightarrow> (out, without_answer (query_spec (items lines) (snd nq))))"
  by (simp add: extract_main_def assms(1) write_config_spec [OF assms(2)])

theorem extract_outcome_witness:
  "extract_main (\<lambda>_. False) None (\<lambda>_. Inr example_dump) [] (Some ''ld.so'') = ([], Hangs)"
proof -
  have q: "query_spec (items example_dump) (Struct_Size ''rtld_global'') = None" unfolding example_items by code_simp
  have c: "config_queries = (''CONFIG_RTLD_GLOBAL_SIZE'', Struct_Size ''rtld_global'') # tl config_queries" by (simp add: config_queries_def)
  have a: "\<not> answered example_dump (''CONFIG_RTLD_GLOBAL_SIZE'', Struct_Size ''rtld_global'')" unfolding answered_def snd_conv q by simp
  have "dropWhile (answered example_dump) config_queries = (''CONFIG_RTLD_GLOBAL_SIZE'', Struct_Size ''rtld_global'') # tl config_queries"
    "takeWhile (answered example_dump) config_queries = []"
    by (subst c, subst dropWhile.simps, simp only: a if_False if_True simp_thms, subst c, subst takeWhile.simps, simp only: a if_False)
  then show ?thesis
    using extract_outcome [of "\<lambda>_. Inr example_dump" "''ld.so''" example_dump "\<lambda>_. False" None "[]", OF refl example_complete]
    by (simp only: Let_def list.map list.case snd_conv q without_answer_def option.case)
qed

end
