(* ===== verification/Waf_Tools.thy ===== *)
theory Waf_Tools
  imports Py_Regex
begin

text \<open>
  Two extensions of the build system: \<^verbatim>\<open>src/source/ns-3-dev/waf-tools/cflags.py\<close>, the compiler
  flags of a build profile, and \<^verbatim>\<open>src/source/ns-3-dev/waf-tools/versioning.py\<close>, the version of the
  build as \<^verbatim>\<open>git describe\<close> reports it.  A \<^verbatim>\<open>ConfigSet\<close> of waf is a dictionary, a key that is not
  set reads as the empty list.  What \<^verbatim>\<open>git\<close> prints is an argument.
\<close>

section \<open>Compiler flags\<close>

datatype traits = GccTraits | IccTraits | MsvcTraits

fun warnings_flags :: "traits \<Rightarrow> string list list" where
  "warnings_flags GccTraits = [[''-Wall''], [''-Werror''], [''-Wextra'']]"
| "warnings_flags IccTraits = [[], [], [''-Wall'']]"
| "warnings_flags MsvcTraits = [[''/W2''], [''/WX''], [''/Wall'']]"

text \<open>\<^verbatim>\<open>for l in range(level)\<close>, left when the list is exhausted.\<close>

fun warnings_loop :: "string list list \<Rightarrow> nat \<Rightarrow> nat \<Rightarrow> string list" where
  "warnings_loop flags l 0 = []"
| "warnings_loop flags l (Suc n) = (if l < length flags then flags ! l @ warnings_loop flags (l + 1) n else [])"

definition get_warnings_flags :: "traits \<Rightarrow> int \<Rightarrow> string list" where
  "get_warnings_flags t level = warnings_loop (warnings_flags t) 0 (nat level)"

text \<open>Levels without a branch give \<^verbatim>\<open>None\<close>.\<close>

fun get_optimization_flags :: "traits \<Rightarrow> int \<Rightarrow> string list option" where
  "get_optimization_flags MsvcTraits level =
     (if level = 0 then Some [''/Od''] else if level = 1 then Some [] else if level = 2 then Some [''/O2'']
      else if level = 3 then Some [''/Ox''] else None)"
| "get_optimization_flags t level =
     (if level = 0 then Some [''-O0''] else if level = 1 then Some [''-O''] else if level = 2 then Some [''-O2'']
      else if level = 3 then Some [''-O3''] else None)"

fun get_debug_flags :: "traits \<Rightarrow> int \<Rightarrow> (string list \<times> string list) option" where
  "get_debug_flags MsvcTraits level =
     (if level = 0 then Some ([], [''NDEBUG'']) else if level = 1 then Some ([''/ZI'', ''/RTC1''], [])
      else if 2 \<le> level then Some ([''/ZI'', ''/RTC1''], [''_DEBUG'']) else None)"
| "get_debug_flags t level =
     (if level = 0 then Some ([''-g0''], [''NDEBUG'']) else if level = 1 then Some ([''-g''], [])
      else if 2 \<le> level then Some ([''-ggdb'', ''-g3''], [''_DEBUG'']) else None)"

definition compiler_mapping :: "(string, traits) dict" where
  "compiler_mapping =
     [(''gcc'', GccTraits), (''g++'', GccTraits), (''msvc'', MsvcTraits), (''icc'', IccTraits), (''icpc'', IccTraits),
      (''clang'', GccTraits), (''clang++'', GccTraits)]"

definition profiles :: "(string, int \<times> int \<times> int) dict" where
  "profiles = [(''default'', (2, 1, 1)), (''debug'', (0, 2, 3)), (''release'', (3, 1, 0))]"

type_synonym flag_env = "(string, string list) dict"

definition env_get :: "flag_env \<Rightarrow> string \<Rightarrow> string list" where
  "env_get env key = (case dict_get env key of None \<Rightarrow> [] | Some v \<Rightarrow> v)"

definition append_value :: "flag_env \<Rightarrow> string \<Rightarrow> string list \<Rightarrow> flag_env" where
  "append_value env key v = dict_set env key (env_get env key @ v)"

text \<open>The flags of one of the two languages, unless they are set already.\<close>

definition add_flags :: "bool \<Rightarrow> string \<Rightarrow> string \<Rightarrow> string list \<Rightarrow> string list \<Rightarrow> string list \<Rightarrow> string list \<Rightarrow> flag_env \<Rightarrow> flag_env" where
  "add_flags enabled flags_key defines_key optimizations debug warnings debug_defs env =
     (if enabled \<and> env_get env flags_key = []
      then append_value (append_value (append_value (append_value env flags_key optimizations) flags_key debug) flags_key warnings)
             defines_key debug_defs
      else env)"

definition find_compiler :: "string option \<Rightarrow> string option \<Rightarrow> traits option" where
  "find_compiler cc cxx =
     (case Option.bind cc (dict_get compiler_mapping) of Some t \<Rightarrow> Some t | None \<Rightarrow> Option.bind cxx (dict_get compiler_mapping))"

definition configure_flags :: "string option \<Rightarrow> string option \<Rightarrow> string \<Rightarrow> bool \<Rightarrow> flag_env \<Rightarrow> flag_env res" where
  "configure_flags cc cxx build_profile disable_werror env =
     (if cc = None \<and> cxx = None then Inl (PyException ''WafError'')
      else case find_compiler cc cxx of
             None \<Rightarrow> Inr env
           | Some compiler \<Rightarrow>
               (case dict_get profiles build_profile of
                  None \<Rightarrow> Inl KeyError
                | Some (opt_level, warn_level, dbg_level) \<Rightarrow>
                    (case (get_optimization_flags compiler opt_level, get_debug_flags compiler dbg_level) of
                       (Some optimizations, Some (debug, debug_defs)) \<Rightarrow>
                         let warnings = get_warnings_flags compiler warn_level;
                             warnings = (if disable_werror then remove1 ''-Werror'' warnings else warnings)
                         in Inr (add_flags (cxx \<noteq> None) ''CXXFLAGS'' ''CXXDEFINES'' optimizations debug warnings debug_defs
                                  (add_flags (cc \<noteq> None) ''CCFLAGS'' ''CCDEFINES'' optimizations debug warnings debug_defs env))
                     | _ \<Rightarrow> Inl TypeError)))"

section \<open>Version information\<close>

type_synonym fields = "(string, string) dict"

definition quoted :: "string \<Rightarrow> string" where
  "quoted s = [CHR 0x22] @ s @ [CHR 0x22]"

text \<open>\<^verbatim>\<open>ns-(\d+)\.(\d+)(?:.(\d+))?(?:-(RC.+))?.*\<close>\<close>

definition version_rx :: rx where
  "version_rx =
     seqs [lit ''ns-'', Grp 1 (Plus (One is_digit)), lit ''.'', Grp 2 (Plus (One is_digit)),
           Opt (Seq Dot (Grp 3 (Plus (One is_digit)))),
           Opt (Seq (lit ''-'') (Grp 4 (Seq (lit ''RC'') (Plus Dot)))), Star Dot]"

definition or_else :: "string option \<Rightarrow> string \<Rightarrow> string" where
  "or_else v d = (case v of None \<Rightarrow> d | Some s \<Rightarrow> if s = [] then d else s)"

definition parse_version_tag :: "string \<Rightarrow> fields \<Rightarrow> bool \<times> fields" where
  "parse_version_tag tag fields =
     (let safe_tag = py_strip tag in
      case re_match version_rx safe_tag of
        None \<Rightarrow> (False, fields)
      | Some gs \<Rightarrow>
          let fields = dict_set fields ''VERSION_TAG'' (quoted safe_tag);
              fields = dict_set fields ''VERSION_MAJOR'' (or_else (group gs 1) []);
              fields = dict_set fields ''VERSION_MINOR'' (or_else (group gs 2) []);
              fields = dict_set fields ''VERSION_PATCH'' (or_else (group gs 3) ''0'');
              fields = dict_set fields ''VERSION_RELEASE_CANDIDATE'' (quoted (or_else (group gs 4) []))
          in (True, fields))"

text \<open>\<^verbatim>\<open>(.+)-(\d+)-(g[a-fA-F0-9]+)(?:-(dirty))?\<close>\<close>

definition is_hex_digit :: "char \<Rightarrow> bool" where
  "is_hex_digit c \<longleftrightarrow> (let k = (of_char c :: nat) in (48 \<le> k \<and> k \<le> 57) \<or> (65 \<le> k \<and> k \<le> 70) \<or> (97 \<le> k \<and> k \<le> 102))"

definition describe_rx :: rx where
  "describe_rx =
     seqs [Grp 1 (Plus Dot), lit ''-'', Grp 2 (Plus (One is_digit)), lit ''-'', Grp 3 (Seq (lit ''g'') (Plus (One is_hex_digit))),
           Opt (Seq (lit ''-'') (Grp 4 (lit ''dirty'')))]"

text \<open>The output of a command of git, or its message.\<close>

type_synonym git = "string list \<Rightarrow> string + string"

definition find_closest_tag :: "git \<Rightarrow> fields \<Rightarrow> fields res" where
  "find_closest_tag git fields =
     (case git [''git'', ''describe'', ''--tags'', ''--dirty'', ''--long''] of
        Inl err \<Rightarrow> Inl (PyException (py_strip err))
      | Inr out \<Rightarrow>
          (case re_match describe_rx out of
             None \<Rightarrow> Inl ValueError
           | Some gs \<Rightarrow>
               let tag = or_else (group gs 1) [];
                   fields = dict_set fields ''CLOSEST_TAG'' (quoted tag);
                   fields = dict_set fields ''VERSION_TAG_DISTANCE'' (or_else (group gs 2) []);
                   fields = dict_set fields ''VERSION_COMMIT_HASH'' (quoted (or_else (group gs 3) []));
                   fields = dict_set fields ''VERSION_DIRTY_FLAG'' (if group gs 4 \<noteq> None then ''1'' else ''0'')
               in Inr (snd (parse_version_tag tag fields))))"

definition find_closest_ns3_tag :: "git \<Rightarrow> fields \<Rightarrow> fields res" where
  "find_closest_ns3_tag git fields =
     (case git [''git'', ''describe'', ''--tags'', ''--abbrev=0'', ''--match'', ''ns-3*'', ''HEAD''] of
        Inl err \<Rightarrow> Inl (PyException (py_strip err))
      | Inr out \<Rightarrow>
          (let tag = py_strip out; (result, fields) = parse_version_tag tag fields
           in if result then Inr fields else Inl ValueError))"

text \<open>
  \<^verbatim>\<open>run\<close>: the exit status of the task, the environment and the cache file.  Storing the cache
  may fail; then the environment is left as it is.
\<close>

definition update_env :: "fields \<Rightarrow> fields \<Rightarrow> fields" where
  "update_env env fields = foldl (\<lambda>env (k, v). dict_set env k v) env fields"

definition version_run :: "git \<Rightarrow> (fields \<Rightarrow> py_error option) \<Rightarrow> fields \<Rightarrow> fields option \<Rightarrow> int \<times> fields \<times> fields option" where
  "version_run git store env cache =
     (case rbind (find_closest_tag git []) (\<lambda>fields.
             if dict_get fields ''VERSION_TAG'' = None then find_closest_ns3_tag git fields else Inr fields) of
        Inl e \<Rightarrow> (1, env, cache)
      | Inr fields \<Rightarrow>
          (case store fields of
             Some e \<Rightarrow> (1, env, cache)
           | None \<Rightarrow> (0, update_env env fields, Some fields)))"

text \<open>The configuration step; \<^verbatim>\<open>find_program\<close> may fail, and only the first cache file found is read.\<close>

definition check_git_repo :: "bool \<Rightarrow> git \<Rightarrow> bool" where
  "check_git_repo has_git git =
     (has_git \<and> (case git [''git'', ''rev-parse'', ''--show-toplevel''] of Inl _ \<Rightarrow> False | Inr out \<Rightarrow> py_strip out \<noteq> []))"

definition check_git_repo_has_ns3_tags :: "git \<Rightarrow> bool" where
  "check_git_repo_has_ns3_tags git =
     (case git [''git'', ''describe'', ''--tags'', ''--abbrev=0'', ''--match'', ''ns-3.[0-9]*''] of
        Inl _ \<Rightarrow> False | Inr out \<Rightarrow> py_strip out \<noteq> [])"

definition configure_version :: "bool \<Rightarrow> bool \<Rightarrow> git \<Rightarrow> fields list \<Rightarrow> (string, bool) dict \<times> fields \<Rightarrow> ((string, bool) dict \<times> fields) res" where
  "configure_version enable_build_version has_git git caches env =
     (if \<not> enable_build_version then Inr env
      else let has_git_repo = check_git_repo has_git git;
               has_ns3_tags = (has_git_repo \<and> check_git_repo_has_ns3_tags git);
               flags = dict_set (dict_set (fst env) ''HAVE_GIT_REPO'' has_git_repo) ''HAVE_NS3_REPO'' has_ns3_tags
           in if has_ns3_tags then Inr (flags, snd env)
              else case caches of
                     [] \<Rightarrow> Inl (PyException ''ConfigurationError'')
                   | version_cache # _ \<Rightarrow> Inr (flags, update_env (snd env) version_cache))"

end
