(* ===== verification/Waf_Tools_Correct.thy ===== *)
theory Waf_Tools_Correct
  imports Waf_Tools
begin

text \<open>
  Correctness of the two build tools: the flags that a profile gives a compiler, what the version
  fields say of the tag that \<^verbatim>\<open>git describe\<close> reports, and that the version task changes its
  environment only when it succeeds.
\<close>

section \<open>Compiler flags\<close>

lemma warnings_loop_take: "warnings_loop flags l n = concat (take n (drop l flags))"
  by (induction flags l n rule: warnings_loop.induct) (auto simp: Cons_nth_drop_Suc [symmetric])

lemma env_get_set [simp]: "env_get (dict_set env k v) = (env_get env)(k := v)"
  by (auto simp: env_get_def)

lemma env_get_append [simp]: "env_get (append_value env k v) = (env_get env)(k := env_get env k @ v)"
  by (simp add: append_value_def)

text \<open>What a profile means for a compiler: optimisation, debugging and warning flags, and definitions.\<close>

definition profile_flags :: "traits \<Rightarrow> int \<times> int \<times> int \<Rightarrow> bool \<Rightarrow> string list" where
  "profile_flags t levels disable_werror =
     (case levels of (opt_level, warn_level, dbg_level) \<Rightarrow>
        the (get_optimization_flags t opt_level) @ fst (the (get_debug_flags t dbg_level))
        @ (if disable_werror then remove1 ''-Werror'' else id) (concat (take (nat warn_level) (warnings_flags t))))"

definition profile_defines :: "traits \<Rightarrow> int \<times> int \<times> int \<Rightarrow> string list" where
  "profile_defines t levels = (case levels of (_, _, dbg_level) \<Rightarrow> snd (the (get_debug_flags t dbg_level)))"

lemma profile_levels:
  assumes "dict_get profiles p = Some levels"
  shows "(case levels of (opt_level, warn_level, dbg_level) \<Rightarrow>
    (\<exists>x xs. get_optimization_flags t opt_level = Some (x # xs)) \<and> (\<exists>d. get_debug_flags t dbg_level = Some d))"
  using assms by (cases t) (auto simp: profiles_def split: if_splits)

definition set_flags :: "bool \<Rightarrow> string \<Rightarrow> string \<Rightarrow> string list \<Rightarrow> string list \<Rightarrow> (string \<Rightarrow> string list) \<Rightarrow> string \<Rightarrow> string list" where
  "set_flags enabled flags_key defines_key flags defines env =
     (if enabled \<and> env flags_key = [] then env(flags_key := flags, defines_key := env defines_key @ defines) else env)"

lemma add_flags_get:
  "fk \<noteq> dk \<Longrightarrow> env_get (add_flags enabled fk dk o1 d1 w1 defs env) = set_flags enabled fk dk (o1 @ d1 @ w1) defs (env_get env)"
  by (auto simp: add_flags_def set_flags_def)

lemma configure_flags_get:
  assumes "find_compiler cc cxx = Some t" "dict_get profiles p = Some levels"
  shows "\<exists>env'. configure_flags cc cxx p dw env = Inr env' \<and>
    env_get env' = set_flags (cxx \<noteq> None) ''CXXFLAGS'' ''CXXDEFINES'' (profile_flags t levels dw) (profile_defines t levels)
      (set_flags (cc \<noteq> None) ''CCFLAGS'' ''CCDEFINES'' (profile_flags t levels dw) (profile_defines t levels) (env_get env))"
proof -
  have "\<not> (cc = None \<and> cxx = None)" using assms(1) by (cases cc; cases cxx) (auto simp: find_compiler_def)
  with assms profile_levels [OF assms(2), of t] show ?thesis
    by (auto simp: configure_flags_def Let_def add_flags_get profile_flags_def profile_defines_def get_warnings_flags_def
      warnings_loop_take split: prod.splits)
qed

section \<open>Tags\<close>

text \<open>A release tag of the project, and what \<^verbatim>\<open>git describe --long --dirty\<close> prints for a commit after it.\<close>

definition release_tag :: "nat \<Rightarrow> nat \<Rightarrow> nat option \<Rightarrow> string option \<Rightarrow> string" where
  "release_tag major minor patch rc =
     ''ns-'' @ show_nat major @ ''.'' @ show_nat minor @ (case patch of None \<Rightarrow> [] | Some p \<Rightarrow> ''.'' @ show_nat p)
     @ (case rc of None \<Rightarrow> [] | Some r \<Rightarrow> ''-RC'' @ r)"

definition describe_output :: "string \<Rightarrow> nat \<Rightarrow> string \<Rightarrow> bool \<Rightarrow> string" where
  "describe_output tag distance hash dirty =
     tag @ ''-'' @ show_nat distance @ ''-g'' @ hash @ (if dirty then ''-dirty'' else []) @ [CHR 0x0A]"

lemma takeWhile_show [simp]: "takeWhile is_digit (show_nat n @ s) = show_nat n @ takeWhile is_digit s"
  using show_nat_digits [of n] by (simp add: takeWhile_append list_all_iff)

lemma dropWhile_show [simp]: "dropWhile is_digit (show_nat n @ s) = dropWhile is_digit s"
  using show_nat_digits [of n] by (simp add: dropWhile_append list_all_iff)

lemma takeWhile_show_end [simp]: "takeWhile is_digit (show_nat n) = show_nat n" "dropWhile is_digit (show_nat n) = []"
  using takeWhile_show [of n "[]"] dropWhile_show [of n "[]"] by simp_all

lemma not_digits [simp]: "\<not> is_digit (CHR ''.'')" "\<not> is_digit (CHR ''-'')" "\<not> is_digit (CHR ''R'')" "\<not> is_digit (CHR ''g'')"
  by (simp_all add: is_digit_def)

text \<open>The optional parts after the minor number.\<close>

definition tag_end_rx :: rx where
  "tag_end_rx =
     seqs [Opt (Seq Dot (Grp 3 (Plus (One is_digit)))), Opt (Seq (lit ''-'') (Grp 4 (Seq (lit ''RC'') (Plus Dot)))), Star Dot]"

lemma tag_end_nonempty [simp]: "matches tag_end_rx st \<noteq> []"
  unfolding tag_end_rx_def seqs.simps by (intro Seq_nonempty Opt_nonempty Star_nonempty) simp

lemma version_rx_end: "version_rx = Seq (lit ''ns-'') (Seq (Grp 1 (Plus (One is_digit))) (Seq (lit ''.'') (Seq (Grp 2 (Plus (One is_digit))) tag_end_rx)))"
  by (simp add: version_rx_def tag_end_rx_def)

lemma match_version:
  assumes "takeWhile is_digit rest = []"
  shows "re_match version_rx (''ns-'' @ show_nat major @ ''.'' @ show_nat minor @ rest) =
    first_groups (matches tag_end_rx ([(2, show_nat minor), (1, show_nat major)], rest))"
proof -
  have r: "refuses (Seq (lit ''.'') b) is_digit" for b by simp
  have dw: "dropWhile is_digit rest = rest" using assms by (cases rest) (auto split: if_splits)
  obtain ms where "matches (Grp 2 (Plus (One is_digit))) ([(1, show_nat major)], show_nat minor @ rest) =
      ((2, show_nat minor) # [(1, show_nat major)], rest) # ms"
    using group_plus_Cons [of is_digit "show_nat minor @ rest" 2 "[(1, show_nat major)]"] assms dw by auto
  then have "first_groups (matches (Seq (Grp 2 (Plus (One is_digit))) tag_end_rx) ([(1, show_nat major)], show_nat minor @ rest)) =
      first_groups (matches tag_end_rx ([(2, show_nat minor), (1, show_nat major)], rest))"
    by (rule seq_first) simp
  then show ?thesis
    unfolding re_match_def version_rx_end seq_lit_append
    by (simp add: seq_group_plus [OF r] seq_lit del: matches.simps(3,6))
qed

definition rc_rx :: rx where
  "rc_rx = seqs [Opt (Seq (lit ''-'') (Grp 4 (Seq (lit ''RC'') (Plus Dot)))), Star Dot]"

definition rc_text :: "string option \<Rightarrow> string" where
  "rc_text rc = (case rc of None \<Rightarrow> [] | Some r \<Rightarrow> ''-RC'' @ r)"

definition rc_groups :: "string option \<Rightarrow> (nat \<times> string) list" where
  "rc_groups rc = (case rc of None \<Rightarrow> [] | Some r \<Rightarrow> [(4, ''RC'' @ r)])"

definition rc_ok :: "string option \<Rightarrow> bool" where
  "rc_ok rc = (case rc of None \<Rightarrow> True | Some r \<Rightarrow> r \<noteq> [] \<and> list_all (\<lambda>c. \<not> is_space c) r)"

lemma rc_nonempty [simp]: "matches rc_rx st \<noteq> []"
  unfolding rc_rx_def seqs.simps by (intro Seq_nonempty Opt_nonempty Star_nonempty) simp

lemma tag_end_rc: "tag_end_rx = Seq (Opt (Seq Dot (Grp 3 (Plus (One is_digit))))) rc_rx"
  by (simp add: tag_end_rx_def rc_rx_def)

lemma not_newline: "\<not> is_space c \<Longrightarrow> c \<noteq> CHR 0x0A"
  by (auto simp: is_space_def)

lemma match_rc: "rc_ok rc \<Longrightarrow> first_groups (matches rc_rx (gs, rc_text rc)) = Some (rc_groups rc @ gs)"
proof (cases rc)
  case None
  have "matches (Opt (Seq (lit ''-'') (Grp 4 (Seq (lit ''RC'') (Plus Dot))))) (gs, []) = [(gs, [])]"
    by (simp add: matches_Opt seq_lit starts_with_def del: matches.simps(3))
  from seq_first [OF this, of "Seq (Star Dot) Eps"] None show ?thesis
    by (simp add: rc_rx_def rc_text_def rc_groups_def Dot_def del: matches.simps(3,5))
next
  case (Some r)
  assume "rc_ok rc"
  with Some have r: "r \<noteq> []" "takeWhile (\<lambda>c. c \<noteq> CHR 0x0A) r = r" "dropWhile (\<lambda>c. c \<noteq> CHR 0x0A) r = []"
    by (auto simp: rc_ok_def list_all_iff dest: not_newline)
  obtain ms where "matches (Grp 4 (Seq (lit ''RC'') (Plus Dot))) (gs, ''RC'' @ r) = ((4, ''RC'' @ r) # gs, []) # ms"
    using group_lit_plus_Cons [of "\<lambda>c. c \<noteq> CHR 0x0A" r 4 "''RC''" gs, unfolded r(2,3), OF r(1)]
    unfolding Dot_def by blast
  then have "matches (Opt (Seq (lit ''-'') (Grp 4 (Seq (lit ''RC'') (Plus Dot))))) (gs, ''-'' @ ''RC'' @ r) =
      (((4, ''RC'' @ r) # gs, []) # ms) @ [(gs, ''-'' @ ''RC'' @ r)]"
    by (simp only: matches_Opt seq_lit_append)
  from seq_first [OF trans [OF this append_Cons], of "Seq (Star Dot) Eps"] Some show ?thesis
    by (simp add: rc_rx_def rc_text_def rc_groups_def Dot_def del: matches.simps(3,5))
qed

definition patch_text :: "nat option \<Rightarrow> string" where
  "patch_text patch = (case patch of None \<Rightarrow> [] | Some p \<Rightarrow> ''.'' @ show_nat p)"

lemma rc_no_digits: "takeWhile is_digit (rc_text rc) = []" "dropWhile is_digit (rc_text rc) = rc_text rc"
  by (simp_all add: rc_text_def split: option.split)

lemma match_tag_end:
  assumes "rc_ok rc"
  shows "first_groups (matches tag_end_rx (gs, patch_text patch @ rc_text rc)) =
    Some (rc_groups rc @ (case patch of None \<Rightarrow> [] | Some p \<Rightarrow> [(3, show_nat p)]) @ gs)"
proof (cases patch)
  case None
  have "matches (Seq Dot (Grp 3 (Plus (One is_digit)))) (gs, rc_text rc) = []"
    by (simp add: Dot_def rc_text_def matches_Plus_One split: option.split)
  then have "matches (Opt (Seq Dot (Grp 3 (Plus (One is_digit))))) (gs, rc_text rc) = [(gs, rc_text rc)]" by (simp only: matches_Opt append_Nil)
  from seq_first [OF this, of rc_rx] None match_rc [OF assms] show ?thesis
    by (simp add: tag_end_rc patch_text_def del: matches.simps(3))
next
  case (Some p)
  obtain ms where "matches (Grp 3 (Plus (One is_digit))) (gs, show_nat p @ rc_text rc) = ((3, show_nat p) # gs, rc_text rc) # ms"
    using group_plus_Cons [of is_digit "show_nat p @ rc_text rc" 3 gs] by (auto simp: rc_no_digits)
  then have "matches (Opt (Seq Dot (Grp 3 (Plus (One is_digit))))) (gs, ''.'' @ show_nat p @ rc_text rc) =
      ((3, show_nat p) # gs, rc_text rc) # ms @ [(gs, ''.'' @ show_nat p @ rc_text rc)]"
    by (simp add: matches_Opt Dot_def del: matches.simps(6))
  from seq_first [OF this, of rc_rx] Some match_rc [OF assms] show ?thesis
    by (simp add: tag_end_rc patch_text_def del: matches.simps(3))
qed

lemma match_release_tag:
  assumes "rc_ok rc"
  shows "re_match version_rx (release_tag major minor patch rc) =
    Some (rc_groups rc @ (case patch of None \<Rightarrow> [] | Some p \<Rightarrow> [(3, show_nat p)]) @ [(2, show_nat minor), (1, show_nat major)])"
proof -
  have tag: "release_tag major minor patch rc = ''ns-'' @ show_nat major @ ''.'' @ show_nat minor @ patch_text patch @ rc_text rc"
    by (simp add: release_tag_def patch_text_def rc_text_def)
  have "takeWhile is_digit (patch_text patch @ rc_text rc) = []"
    by (cases patch) (simp_all add: patch_text_def rc_no_digits)
  from match_version [OF this] match_tag_end [OF assms] show ?thesis unfolding tag by simp
qed

section \<open>The output of git describe\<close>

text \<open>No dash is followed by a digit.\<close>

fun no_dash_digit :: "string \<Rightarrow> bool" where
  "no_dash_digit (c # d # s) \<longleftrightarrow> \<not> (c = CHR ''-'' \<and> is_digit d) \<and> no_dash_digit (d # s)"
| "no_dash_digit _ \<longleftrightarrow> True"

lemma no_dash_digit_append: "CHR ''-'' \<notin> set xs \<Longrightarrow> no_dash_digit ys \<Longrightarrow> no_dash_digit (xs @ ys)"
proof (induction xs)
  case (Cons x xs)
  then show ?case by (cases "xs @ ys") auto
qed simp

lemma no_dash_digit_tail: "no_dash_digit (c # s) \<Longrightarrow> no_dash_digit s"
  by (cases s) auto

lemma no_dash_digit_drop: "no_dash_digit s \<Longrightarrow> no_dash_digit (drop k s)"
  by (induction k arbitrary: s) (auto simp: drop_Suc tl_def split: list.split dest: no_dash_digit_tail)

text \<open>What follows the tag.\<close>

definition distance_rx :: rx where
  "distance_rx =
     seqs [lit ''-'', Grp 2 (Plus (One is_digit)), lit ''-'', Grp 3 (Seq (lit ''g'') (Plus (One is_hex_digit))),
           Opt (Seq (lit ''-'') (Grp 4 (lit ''dirty'')))]"

lemma describe_rx_distance: "describe_rx = Seq (Grp 1 (Plus Dot)) distance_rx"
  by (simp add: describe_rx_def distance_rx_def)

lemma distance_needs_dash_digit:
  assumes "no_dash_digit s"
  shows "matches distance_rx (gs, s) = []"
proof (cases "\<exists>c t. s = CHR ''-'' # c # t")
  case True
  then obtain c t where "s = CHR ''-'' # c # t" "\<not> is_digit c" using assms by auto
  then show ?thesis
    by (simp add: distance_rx_def seq_lit seq_group_plus starts_with_def del: matches.simps(3,6))
next
  case False
  then have "s = [] \<or> s = [CHR ''-''] \<or> \<not> starts_with s ''-''"
    by (metis (full_types) append_Cons append_Nil neq_Nil_conv starts_with_iff)
  then show ?thesis
    by (auto simp: distance_rx_def seq_lit seq_group_plus starts_with_def simp del: matches.simps(3,6))
qed

definition dirty_text :: "bool \<Rightarrow> string" where
  "dirty_text dirty = (if dirty then ''-dirty'' else [])"

lemma match_distance:
  assumes "hash \<noteq> []" "list_all is_hex_digit hash"
  shows "first_groups (matches distance_rx (gs, ''-'' @ show_nat d @ ''-g'' @ hash @ dirty_text dirty @ [CHR 0x0A])) =
    Some ((if dirty then [(4, ''dirty'')] else []) @ (3, ''g'' @ hash) # (2, show_nat d) # gs)"
proof -
  let ?rest = "dirty_text dirty @ [CHR 0x0A]" and ?opt = "Opt (Seq (lit ''-'') (Grp 4 (lit ''dirty'')))"
  let ?gs = "(2, show_nat d) # gs"
  have nh: "\<not> is_hex_digit (CHR ''-'')" "\<not> is_hex_digit (CHR 0x0A)" by (simp_all add: is_hex_digit_def)
  have h: "takeWhile is_hex_digit (hash @ ?rest) = hash" "dropWhile is_hex_digit (hash @ ?rest) = ?rest"
    using assms(2) nh by (auto simp: takeWhile_append dropWhile_append list_all_iff dirty_text_def)
  obtain ms where "matches (Grp 3 (Seq (lit ''g'') (Plus (One is_hex_digit)))) (?gs, ''g'' @ hash @ ?rest) = ((3, ''g'' @ hash) # ?gs, ?rest) # ms"
    using group_lit_plus_Cons [of is_hex_digit "hash @ ?rest" 3 "''g''" ?gs, unfolded h, OF assms(1)] by blast
  from seq_first [OF this, of "Seq ?opt Eps"]
  have "first_groups (matches (Seq (Grp 3 (Seq (lit ''g'') (Plus (One is_hex_digit)))) (Seq ?opt Eps)) (?gs, ''g'' @ hash @ ?rest)) =
      first_groups (matches ?opt ((3, ''g'' @ hash) # ?gs, ?rest))"
    by (simp del: matches.simps(3))
  also have "\<dots> = Some ((if dirty then [(4, ''dirty'')] else []) @ (3, ''g'' @ hash) # ?gs)"
    by (simp add: matches_Opt dirty_text_def seq_lit starts_with_def first_groups_def del: matches.simps(3))
  finally have tail: "first_groups (matches (Seq (Grp 3 (Seq (lit ''g'') (Plus (One is_hex_digit)))) (Seq ?opt Eps)) (?gs, ''g'' @ hash @ ?rest)) = \<dots>" .
  have r: "refuses (Seq (lit ''-'') b) is_digit" for b by simp
  have "matches distance_rx (gs, ''-'' @ show_nat d @ ''-'' @ ''g'' @ hash @ ?rest) =
      matches (Seq (Grp 3 (Seq (lit ''g'') (Plus (One is_hex_digit)))) (Seq ?opt Eps)) (?gs, ''g'' @ hash @ ?rest)"
    unfolding distance_rx_def seqs.simps seq_lit_append
    by (simp add: seq_group_plus [OF r] seq_lit starts_with_def del: matches.simps(3,6))
  with tail show ?thesis by simp
qed

lemma match_describe:
  assumes "tag \<noteq> []" "list_all (\<lambda>c. c \<noteq> CHR 0x0A) tag" "hash \<noteq> []" "list_all is_hex_digit hash"
  shows "re_match describe_rx (describe_output tag d hash dirty) =
    Some ((if dirty then [(4, ''dirty'')] else []) @ [(3, ''g'' @ hash), (2, show_nat d), (1, tag)])"
proof -
  let ?u = "''-'' @ show_nat d @ ''-g'' @ hash @ dirty_text dirty @ [CHR 0x0A]"
  have dash: "CHR ''-'' \<notin> set (show_nat d)" "CHR ''-'' \<notin> set hash"
    using show_nat_digits [of d] assms(4) by (auto simp: list_all_iff is_hex_digit_def)
  have "no_dash_digit (dirty_text dirty @ [CHR 0x0A])" by (simp add: dirty_text_def is_digit_def)
  then have "no_dash_digit (hash @ dirty_text dirty @ [CHR 0x0A])" by (rule no_dash_digit_append [OF dash(2)])
  then have "no_dash_digit (CHR ''-'' # CHR ''g'' # hash @ dirty_text dirty @ [CHR 0x0A])"
    using assms(3) by (cases hash) auto
  then have "no_dash_digit (show_nat d @ ''-g'' @ hash @ dirty_text dirty @ [CHR 0x0A])"
    by (intro no_dash_digit_append [OF dash(1)]) simp
  then have later: "matches distance_rx (gs, drop k ?u) = []" if "0 < k" for k gs
    using that by (cases k) (auto intro!: distance_needs_dash_digit dest: no_dash_digit_drop simp del: drop_append)
  have here: "matches distance_rx ((1, tag) # [], ?u) \<noteq> []"
    using match_distance [OF assms(3,4), of "[(1, tag)]" d dirty] by (auto simp: first_groups_def)
  have "describe_output tag d hash dirty = tag @ ?u" by (simp add: describe_output_def dirty_text_def)
  then show ?thesis
    using seq_group_plus_at [OF assms(2,1) later here] match_distance [OF assms(3,4), of "[(1, tag)]" d dirty]
    by (simp add: re_match_def describe_rx_distance Dot_def del: matches.simps(3,6))
qed

lemma strip_word: "list_all (\<lambda>c. \<not> is_space c) s \<Longrightarrow> py_strip s = s"
  by (metis dropWhile_eq_self_iff hd_in_set list_all_iff py_strip_def rev_rev_ident set_rev)

lemma release_tag_word:
  assumes "rc_ok rc"
  shows "list_all (\<lambda>c. \<not> is_space c) (release_tag major minor patch rc)"
proof -
  have "\<not> is_space c" if "is_digit c" for c using that by (auto simp: is_space_def is_digit_def)
  then have "list_all (\<lambda>c. \<not> is_space c) (show_nat n)" for n using show_nat_digits [of n] by (auto simp: list_all_iff)
  with assms show ?thesis by (auto simp: release_tag_def rc_ok_def is_space_def split: option.splits)
qed

lemma parse_release_tag:
  assumes "rc_ok rc"
  shows "parse_version_tag (release_tag major minor patch rc) fields =
    (True, dict_set (dict_set (dict_set (dict_set (dict_set fields ''VERSION_TAG'' (quoted (release_tag major minor patch rc)))
      ''VERSION_MAJOR'' (show_nat major)) ''VERSION_MINOR'' (show_nat minor))
      ''VERSION_PATCH'' (show_nat (case patch of None \<Rightarrow> 0 | Some n \<Rightarrow> n)))
      ''VERSION_RELEASE_CANDIDATE'' (quoted (case rc of None \<Rightarrow> [] | Some r \<Rightarrow> ''RC'' @ r)))"
proof -
  have z: "show_nat 0 = ''0''" by code_simp
  show ?thesis
    unfolding parse_version_tag_def Let_def strip_word [OF release_tag_word [OF assms]] match_release_tag [OF assms] option.case
    by (cases patch; cases rc) (simp_all add: group_def or_else_def rc_groups_def z)
qed

section \<open>Properties\<close>

text \<open>
  C32: The compiler flags.  For a known compiler and profile the configuration step adds the flags
  of the profile to each configured language whose flags are still empty, with the definitions
  that belong to them, and changes nothing else; running it a second time changes nothing.
\<close>

theorem configure_flags_correct:
  assumes "find_compiler cc cxx = Some t" "dict_get profiles p = Some levels"
  shows "\<exists>env'. configure_flags cc cxx p dw env = Inr env'
    \<and> env_get env' ''CCFLAGS'' = (if cc \<noteq> None \<and> env_get env ''CCFLAGS'' = [] then profile_flags t levels dw else env_get env ''CCFLAGS'')
    \<and> env_get env' ''CXXFLAGS'' = (if cxx \<noteq> None \<and> env_get env ''CXXFLAGS'' = [] then profile_flags t levels dw else env_get env ''CXXFLAGS'')
    \<and> env_get env' ''CCDEFINES'' = env_get env ''CCDEFINES'' @ (if cc \<noteq> None \<and> env_get env ''CCFLAGS'' = [] then profile_defines t levels else [])
    \<and> env_get env' ''CXXDEFINES'' = env_get env ''CXXDEFINES'' @ (if cxx \<noteq> None \<and> env_get env ''CXXFLAGS'' = [] then profile_defines t levels else [])
    \<and> (\<forall>k. k \<notin> {''CCFLAGS'', ''CXXFLAGS'', ''CCDEFINES'', ''CXXDEFINES''} \<longrightarrow> env_get env' k = env_get env k)
    \<and> (\<exists>env''. configure_flags cc cxx p dw env' = Inr env'' \<and> env_get env'' = env_get env')"
proof -
  obtain env' where e: "configure_flags cc cxx p dw env = Inr env'"
    "env_get env' = set_flags (cxx \<noteq> None) ''CXXFLAGS'' ''CXXDEFINES'' (profile_flags t levels dw) (profile_defines t levels)
      (set_flags (cc \<noteq> None) ''CCFLAGS'' ''CCDEFINES'' (profile_flags t levels dw) (profile_defines t levels) (env_get env))"
    using configure_flags_get [OF assms] by blast
  obtain env'' where e2: "configure_flags cc cxx p dw env' = Inr env''"
    "env_get env'' = set_flags (cxx \<noteq> None) ''CXXFLAGS'' ''CXXDEFINES'' (profile_flags t levels dw) (profile_defines t levels)
      (set_flags (cc \<noteq> None) ''CCFLAGS'' ''CCDEFINES'' (profile_flags t levels dw) (profile_defines t levels) (env_get env'))"
    using configure_flags_get [OF assms] by blast
  have "profile_flags t levels dw \<noteq> []" using profile_levels [OF assms(2), of t] by (auto simp: profile_flags_def split: prod.splits)
  then have "env_get env'' = env_get env'" using e(2) e2(2) by (auto simp: set_flags_def)
  with e e2(1) show ?thesis by (auto simp: set_flags_def)
qed

theorem configure_flags_correct_witness:
  "\<exists>env'. configure_flags (Some ''gcc'') (Some ''g++'') ''debug'' True [] = Inr env'
     \<and> env_get env' ''CXXFLAGS'' = [''-O0'', ''-ggdb'', ''-g3'', ''-Wall'']"
proof -
  have c: "find_compiler (Some ''gcc'') (Some ''g++'') = Some GccTraits" by code_simp
  have l: "dict_get profiles ''debug'' = Some (0, 2, 3)" by code_simp
  have "env_get [] ''CXXFLAGS'' = []" by code_simp
  moreover have "profile_flags GccTraits (0, 2, 3) True = [''-O0'', ''-ggdb'', ''-g3'', ''-Wall'']" by code_simp
  ultimately show ?thesis using configure_flags_correct [OF c l, of True "[]"] by auto
qed

text \<open>
  C18: The version fields.  When git describes the commit by a release tag of the project, the
  fields give back the numbers of the tag (a missing patch number is 0), its release candidate,
  the distance, the hash and whether the tree is dirty.
\<close>

theorem describe_roundtrip:
  assumes "rc_ok rc" "hash \<noteq> []" "list_all is_hex_digit hash"
    and "git [''git'', ''describe'', ''--tags'', ''--dirty'', ''--long''] = Inr (describe_output (release_tag major minor patch rc) d hash dirty)"
  shows "\<exists>fields. find_closest_tag git [] = Inr fields
    \<and> dict_get fields ''VERSION_TAG'' = Some (quoted (release_tag major minor patch rc))
    \<and> dict_get fields ''CLOSEST_TAG'' = Some (quoted (release_tag major minor patch rc))
    \<and> dict_get fields ''VERSION_MAJOR'' = Some (show_nat major)
    \<and> dict_get fields ''VERSION_MINOR'' = Some (show_nat minor)
    \<and> dict_get fields ''VERSION_PATCH'' = Some (show_nat (case patch of None \<Rightarrow> 0 | Some n \<Rightarrow> n))
    \<and> dict_get fields ''VERSION_RELEASE_CANDIDATE'' = Some (quoted (case rc of None \<Rightarrow> [] | Some r \<Rightarrow> ''RC'' @ r))
    \<and> dict_get fields ''VERSION_TAG_DISTANCE'' = Some (show_nat d)
    \<and> dict_get fields ''VERSION_COMMIT_HASH'' = Some (quoted (''g'' @ hash))
    \<and> dict_get fields ''VERSION_DIRTY_FLAG'' = Some (if dirty then ''1'' else ''0'')"
proof -
  let ?tag = "release_tag major minor patch rc"
  have w: "list_all (\<lambda>c. \<not> is_space c) ?tag" by (rule release_tag_word [OF assms(1)])
  then have nl: "list_all (\<lambda>c. c \<noteq> CHR 0x0A) ?tag" by (auto simp: list_all_iff dest: not_newline)
  have ne: "?tag \<noteq> []" by (simp add: release_tag_def)
  have "find_closest_tag git [] = Inr (snd (parse_version_tag ?tag
      (dict_set (dict_set (dict_set (dict_set [] ''CLOSEST_TAG'' (quoted ?tag)) ''VERSION_TAG_DISTANCE'' (show_nat d))
        ''VERSION_COMMIT_HASH'' (quoted (''g'' @ hash))) ''VERSION_DIRTY_FLAG'' (if dirty then ''1'' else ''0''))))"
    unfolding find_closest_tag_def assms(4) sum.case match_describe [OF ne nl assms(2,3)] option.case Let_def
    using ne by (cases dirty) (simp_all add: group_def or_else_def)
  then show ?thesis unfolding parse_release_tag [OF assms(1)] snd_conv by (intro exI conjI, assumption) simp_all
qed

theorem describe_roundtrip_witness:
  "\<exists>fields. find_closest_tag (\<lambda>_. Inr (describe_output (release_tag 3 31 None (Some ''1'')) 7 ''1f'' True)) [] = Inr fields
     \<and> dict_get fields ''VERSION_PATCH'' = Some ''0'' \<and> dict_get fields ''VERSION_RELEASE_CANDIDATE'' = Some (quoted ''RC1'')"
proof -
  have a: "rc_ok (Some ''1'')" "''1f'' \<noteq> []" "list_all is_hex_digit ''1f''" "show_nat 0 = ''0''" by code_simp+
  from describe_roundtrip [OF a(1-3), where git = "\<lambda>_. Inr (describe_output (release_tag 3 31 None (Some ''1'')) 7 ''1f'' True)", OF refl] a(4)
  show ?thesis by auto
qed

section \<open>The version task\<close>

lemma parse_version_tag_fields:
  assumes "parse_version_tag tag fields = (b, fields')" "distinct (map fst fields)"
  shows "distinct (map fst fields') \<and> (b \<longrightarrow> dict_get fields' ''VERSION_TAG'' \<noteq> None)"
  using assms by (auto simp: parse_version_tag_def Let_def distinct_update split: option.splits)

lemma find_closest_tag_fields: "find_closest_tag git fields = Inr fields' \<Longrightarrow> distinct (map fst fields) \<Longrightarrow> distinct (map fst fields')"
  using parse_version_tag_fields [OF prod.collapse [symmetric]]
  by (auto simp: find_closest_tag_def Let_def distinct_update split: sum.splits option.splits)

lemma find_closest_ns3_tag_fields:
  "find_closest_ns3_tag git fields = Inr fields' \<Longrightarrow> distinct (map fst fields) \<Longrightarrow>
    distinct (map fst fields') \<and> dict_get fields' ''VERSION_TAG'' \<noteq> None"
  using parse_version_tag_fields
  by (fastforce simp: find_closest_ns3_tag_def Let_def split: sum.splits prod.splits if_splits)

lemma update_env_get:
  "distinct (map fst fields) \<Longrightarrow> dict_get (update_env env fields) k = (case dict_get fields k of None \<Rightarrow> dict_get env k | Some v \<Rightarrow> Some v)"
proof (induction fields arbitrary: env)
  case (Cons kv fields)
  then show ?case by (cases kv) (force simp: update_env_def split: option.splits dest: map_of_SomeD)
qed (simp add: update_env_def)

text \<open>
  The version task succeeds or changes nothing.  With status 1 the environment and the cache
  are as before.  With status 0 the cache holds the fields, among them a version tag, and the
  environment has the value of each field and keeps its other values.
\<close>

theorem version_run_atomic:
  "(case version_run git store env cache of (code, env', cache') \<Rightarrow>
     if code = 0
     then \<exists>fields. cache' = Some fields \<and> store fields = None \<and> dict_get fields ''VERSION_TAG'' \<noteq> None \<and>
       dict_get env' = (\<lambda>k. case dict_get fields k of None \<Rightarrow> dict_get env k | Some v \<Rightarrow> Some v)
     else code = 1 \<and> env' = env \<and> cache' = cache)"
proof -
  have "distinct (map fst fields) \<and> dict_get fields ''VERSION_TAG'' \<noteq> None"
    if "rbind (find_closest_tag git []) (\<lambda>fields. if dict_get fields ''VERSION_TAG'' = None then find_closest_ns3_tag git fields else Inr fields) = Inr fields"
    for fields
    using that find_closest_tag_fields [of git "[]"] find_closest_ns3_tag_fields
    by (fastforce simp: res_simps split: if_splits)
  then show ?thesis by (fastforce simp: version_run_def update_env_get split: sum.splits option.splits)
qed

end
