(* ===== verification/Flow_Monitor.thy ===== *)
theory Flow_Monitor
  imports Py_Num Py_Xml
begin

text \<open>
  \<^verbatim>\<open>src/source/ns-3-dev/src/flow-monitor/examples/flowmon-parse-results.py\<close>: reads the XML file
  that the simulator's flow monitor writes, computes bit rates, mean delay and loss ratio of every
  flow and prints them.  The last section holds how the simulator writes what the script reads
  (\<^verbatim>\<open>flow-monitor.cc\<close> and the printing of a \<^verbatim>\<open>Time\<close> in \<^verbatim>\<open>time.cc\<close>).

  A float stands for its exact value.  The XML parser is an argument of \<open>flowmon_main\<close>: it yields
  the events of a document and the exception that ended it, if one did.  Objects are shared: the
  dictionary of flows holds positions in the list of flows, so an update through it is seen by the
  printing loop.  An attribute of an object that was never assigned is \<open>None\<close> in the field
  \<open>fl_fiveTuple\<close>, and reading it raises.
\<close>

section \<open>Attributes of elements\<close>

abbreviation attribute :: "xml \<Rightarrow> string \<Rightarrow> string option" where
  "attribute el name \<equiv> dict_get (el_attrs el) name"

text \<open>
  \<^verbatim>\<open>int\<close>, \<^verbatim>\<open>long\<close>, \<^verbatim>\<open>float\<close> and a slice of an attribute: \<^verbatim>\<open>get\<close> answers \<^verbatim>\<open>None\<close> when it is
  missing, which none of them takes.
\<close>

definition int_attr :: "xml \<Rightarrow> string \<Rightarrow> int res" where
  "int_attr el name = (case attribute el name of None \<Rightarrow> Inl TypeError | Some s \<Rightarrow> int_text s)"

definition long_attr :: "xml \<Rightarrow> string \<Rightarrow> int res" where
  "long_attr el name = (case attribute el name of None \<Rightarrow> Inl TypeError | Some s \<Rightarrow> long_text s)"

definition float_attr :: "xml \<Rightarrow> string \<Rightarrow> rat res" where
  "float_attr el name = (case attribute el name of None \<Rightarrow> Inl TypeError | Some s \<Rightarrow> float_text s)"

definition cut_attr :: "xml \<Rightarrow> string \<Rightarrow> string res" where
  "cut_attr el name = (case attribute el name of None \<Rightarrow> Inl TypeError | Some s \<Rightarrow> Inr (py_slice s None (Some (- 4))))"

definition parse_time_ns :: "string option \<Rightarrow> int res" where
  "parse_time_ns tm =
     (case tm of
        None \<Rightarrow> Inl AttributeError
      | Some s \<Rightarrow> if ends_with s ''ns'' then long_text (py_slice s None (Some (- 4))) else Inl ValueError)"

section \<open>Five tuples, histograms, flows\<close>

record five_tuple =
  sourceAddress :: "string option"
  destinationAddress :: "string option"
  protocol :: int
  sourcePort :: int
  destinationPort :: int

definition FiveTuple :: "xml \<Rightarrow> five_tuple res" where
  "FiveTuple el =
     rbind (int_attr el ''sourcePort'') (\<lambda>sp.
     rbind (int_attr el ''destinationPort'') (\<lambda>dp.
     rbind (int_attr el ''protocol'') (\<lambda>p.
     Inr \<lparr>sourceAddress = attribute el ''sourceAddress'', destinationAddress = attribute el ''destinationAddress'',
          protocol = p, sourcePort = sp, destinationPort = dp\<rparr>)))"

record histogram =
  bins :: "(rat \<times> rat \<times> int) list"

definition read_bin :: "xml \<Rightarrow> (rat \<times> rat \<times> int) res" where
  "read_bin b =
     rbind (float_attr b ''start'') (\<lambda>start.
     rbind (float_attr b ''width'') (\<lambda>width.
     rbind (int_attr b ''count'') (\<lambda>count. Inr (start, width, count))))"

definition Histogram :: "xml option \<Rightarrow> histogram res" where
  "Histogram el =
     (case el of
        None \<Rightarrow> Inr \<lparr>bins = []\<rparr>
      | Some e \<Rightarrow> rbind (mapM read_bin (findall e ''bin'')) (\<lambda>bs. Inr \<lparr>bins = bs\<rparr>))"

record probe_flow_stats =
  probeId :: int
  packets :: int
  bytes :: int
  delayFromFirstProbe :: pynum

record flow =
  flowId :: int
  delayMean :: "rat option"
  packetLossRatio :: "rat option"
  rxBitrate :: "rat option"
  txBitrate :: "rat option"
  fl_fiveTuple :: "five_tuple option"
  packetSizeMean :: "rat option"
  probe_stats_unsorted :: "probe_flow_stats list"
  hopCount :: pynum
  flowInterruptionsHistogram :: "histogram option"
  rx_duration :: rat

text \<open>The difference of two times of an element, in seconds.\<close>

definition duration :: "xml \<Rightarrow> string \<Rightarrow> string \<Rightarrow> rat res" where
  "duration el later earlier =
     rbind (rbind (cut_attr el later) long_text) (\<lambda>b.
     rbind (rbind (cut_attr el earlier) long_text) (\<lambda>a. Inr (of_int (b - a) / 10 ^ 9)))"

definition hops :: "xml \<Rightarrow> int \<Rightarrow> pynum res" where
  "hops el rxPackets =
     (if rxPackets \<noteq> 0
      then rbind (float_attr el ''timesForwarded'') (\<lambda>f. Inr (PFloat (f / of_int rxPackets + 1)))
      else Inr (PInt (- 1000)))"

definition means :: "xml \<Rightarrow> int \<Rightarrow> (rat option \<times> rat option) res" where
  "means el rxPackets =
     (if rxPackets \<noteq> 0
      then rbind (rbind (cut_attr el ''delaySum'') float_text) (\<lambda>d.
           rbind (float_attr el ''rxBytes'') (\<lambda>b.
           Inr (Some (d / of_int rxPackets / 10 ^ 9), Some (b / of_int rxPackets))))
      else Inr (None, None))"

definition bitrate :: "xml \<Rightarrow> string \<Rightarrow> rat \<Rightarrow> rat option res" where
  "bitrate el name secs =
     (if 0 < secs then rbind (long_attr el name) (\<lambda>b. Inr (Some (of_int (b * 8) / secs))) else Inr None)"

definition loss_ratio :: "int \<Rightarrow> rat \<Rightarrow> rat option res" where
  "loss_ratio rxPackets lost =
     (if rxPackets = 0 then Inr None
      else if of_int rxPackets + lost = 0 then Inl ZeroDivisionError
      else Inr (Some (lost / (of_int rxPackets + lost))))"

definition Flow :: "xml \<Rightarrow> flow res" where
  "Flow flow_el =
     rbind (int_attr flow_el ''flowId'') (\<lambda>fid.
     rbind (long_attr flow_el ''rxPackets'') (\<lambda>rxPackets.
     rbind (long_attr flow_el ''txPackets'') (\<lambda>txPackets.
     rbind (duration flow_el ''timeLastTxPacket'' ''timeFirstTxPacket'') (\<lambda>tx_duration.
     rbind (duration flow_el ''timeLastRxPacket'' ''timeFirstRxPacket'') (\<lambda>rx_dur.
     rbind (hops flow_el rxPackets) (\<lambda>hop.
     rbind (means flow_el rxPackets) (\<lambda>(delay, psize).
     rbind (bitrate flow_el ''rxBytes'' rx_dur) (\<lambda>rxb.
     rbind (bitrate flow_el ''txBytes'' tx_duration) (\<lambda>txb.
     rbind (float_attr flow_el ''lostPackets'') (\<lambda>lost.
     rbind (loss_ratio rxPackets lost) (\<lambda>loss.
     rbind (case find_child flow_el ''flowInterruptionsHistogram'' of
              None \<Rightarrow> Inr None
            | Some h \<Rightarrow> rbind (Histogram (Some h)) (\<lambda>hist. Inr (Some hist))) (\<lambda>interrupts.
     Inr \<lparr>flowId = fid, delayMean = delay, packetLossRatio = loss, rxBitrate = rxb, txBitrate = txb, fl_fiveTuple = None,
          packetSizeMean = psize, probe_stats_unsorted = [], hopCount = hop, flowInterruptionsHistogram = interrupts,
          rx_duration = rx_dur\<rparr>))))))))))))"

section \<open>One simulation\<close>

type_synonym flow_store = "flow list \<times> (int, nat) dict"

definition add_flow :: "flow_store \<Rightarrow> xml \<Rightarrow> flow_store res" where
  "add_flow st flow_el =
     (let (flows, flow_map) = st in
      rbind (Flow flow_el) (\<lambda>flow. Inr (flows @ [flow], dict_set flow_map (flowId flow) (length flows))))"

definition update_flow :: "int \<Rightarrow> (flow \<Rightarrow> flow) \<Rightarrow> flow_store \<Rightarrow> flow_store res" where
  "update_flow fid upd st =
     (let (flows, flow_map) = st in
      rbind (dict_lookup flow_map fid) (\<lambda>i. Inr (flows[i := upd (flows ! i)], flow_map)))"

definition classify :: "flow_store \<Rightarrow> xml \<Rightarrow> flow_store res" where
  "classify st flow_cls =
     rbind (int_attr flow_cls ''flowId'') (\<lambda>fid.
     rbind (FiveTuple flow_cls) (\<lambda>t.
     update_flow fid (\<lambda>flow. flow\<lparr>fl_fiveTuple := Some t\<rparr>) st))"

definition probe_stats :: "int \<Rightarrow> flow_store \<Rightarrow> xml \<Rightarrow> flow_store res" where
  "probe_stats pid st stats =
     rbind (int_attr stats ''flowId'') (\<lambda>fid.
     rbind (int_attr stats ''packets'') (\<lambda>n.
     rbind (long_attr stats ''bytes'') (\<lambda>b.
     rbind (if 0 < n
            then rbind (parse_time_ns (attribute stats ''delayFromFirstProbeSum'')) (\<lambda>d. Inr (PFloat (of_int d / of_int n)))
            else Inr (PInt 0)) (\<lambda>delay.
     update_flow fid
       (\<lambda>flow. flow\<lparr>probe_stats_unsorted := probe_stats_unsorted flow @ [\<lparr>probeId = pid, packets = n, bytes = b, delayFromFirstProbe = delay\<rparr>]\<rparr>)
       st))))"

definition add_probe :: "flow_store \<Rightarrow> xml \<Rightarrow> flow_store res" where
  "add_probe st probe_elem =
     rbind (int_attr probe_elem ''index'') (\<lambda>pid. foldM (probe_stats pid) st (findall probe_elem ''FlowStats''))"

definition Simulation :: "xml \<Rightarrow> flow list res" where
  "Simulation simulation_el =
     (case findall simulation_el ''Ipv4FlowClassifier'' of
        [FlowClassifier_el] \<Rightarrow>
          rbind (foldM add_flow ([], []) (find_path simulation_el [''FlowStats'', ''Flow''])) (\<lambda>st.
          rbind (foldM classify st (findall FlowClassifier_el ''Flow'')) (\<lambda>st.
          rbind (foldM add_probe st (find_path simulation_el [''FlowProbes'', ''FlowProbe''])) (\<lambda>(flows, _).
          Inr flows)))
      | _ \<Rightarrow> Inl ValueError)"

section \<open>Reading a file and printing the report\<close>

text \<open>The reading loop: the nesting level and the simulations read so far.\<close>

definition on_event :: "int \<times> flow list list \<Rightarrow> xml_event \<Rightarrow> (int \<times> flow list list) res" where
  "on_event st event =
     (let (level, sim_list) = st in
      case event of
        StartEvent _ \<Rightarrow> Inr (level + 1, sim_list)
      | EndEvent elem \<Rightarrow>
          if level - 1 = 0 \<and> el_tag elem = ''FlowMonitor''
          then rbind (Simulation elem) (\<lambda>sim. Inr (level - 1, sim_list @ [sim]))
          else Inr (level - 1, sim_list))"

definition emit_line :: "string \<Rightarrow> string" where
  "emit_line s = s @ [CHR 0x0A]"

definition tab_line :: "string \<Rightarrow> string" where
  "tab_line s = emit_line (CHR 0x09 # s)"

definition show_opt :: "string option \<Rightarrow> string" where
  "show_opt s = (case s of None \<Rightarrow> ''None'' | Some t \<Rightarrow> t)"

definition proto_name :: "int \<Rightarrow> string res" where
  "proto_name p = dict_lookup [(6, ''TCP''), (17, ''UDP'')] p"

definition value_line :: "string \<Rightarrow> rat option \<Rightarrow> rat \<Rightarrow> string \<Rightarrow> string" where
  "value_line label v factor unit =
     tab_line (label @ '': '' @ (case v of None \<Rightarrow> ''None'' | Some r \<Rightarrow> format_fixed 2 (r * factor) @ '' '' @ unit))"

definition flow_report :: "flow \<Rightarrow> string res" where
  "flow_report flow =
     (case fl_fiveTuple flow of
        None \<Rightarrow> Inl AttributeError
      | Some t \<Rightarrow>
          rbind (proto_name (protocol t)) (\<lambda>proto.
          Inr (emit_line (''FlowID: '' @ show_int (flowId flow) @ '' ('' @ proto @ '' '' @ show_opt (sourceAddress t) @ ''/''
                         @ show_int (sourcePort t) @ '' --> '' @ show_opt (destinationAddress t) @ ''/''
                         @ show_int (destinationPort t) @ '')'')
               @ value_line ''TX bitrate'' (txBitrate flow) (1 / 1000) ''kbit/s''
               @ value_line ''RX bitrate'' (rxBitrate flow) (1 / 1000) ''kbit/s''
               @ value_line ''Mean Delay'' (delayMean flow) 1000 ''ms''
               @ value_line ''Packet Loss Ratio'' (packetLossRatio flow) 100 ''%'')))"

text \<open>What has been printed when the loop over the flows ends, and the exception that ended it.\<close>

fun print_flows :: "flow list \<Rightarrow> string \<times> py_error option" where
  "print_flows [] = ([], None)"
| "print_flows (flow # flows) =
     (case flow_report flow of
        Inl e \<Rightarrow> ([], Some e)
      | Inr s \<Rightarrow> (let (out, e) = print_flows flows in (s @ out, e)))"

text \<open>
  \<^verbatim>\<open>print "Reading XML file ",\<close> leaves a pending blank that the next \<^verbatim>\<open>print\<close> puts out, unless
  \<^verbatim>\<open>sys.stdout.write\<close> came in between.  The dot of a simulation is written once it has been read.
\<close>

definition dots :: "flow list list \<Rightarrow> string" where
  "dots sims = replicate (length sims) (CHR ''.'')"

fun read_events :: "int \<times> flow list list \<Rightarrow> xml_event list \<Rightarrow> (int \<times> flow list list) \<times> py_error option" where
  "read_events st [] = (st, None)"
| "read_events st (event # rest) =
     (case on_event st event of Inl e \<Rightarrow> (st, Some e) | Inr st' \<Rightarrow> read_events st' rest)"

definition flowmon_main ::
  "(string \<Rightarrow> string res) \<Rightarrow> (string \<Rightarrow> xml_event list \<times> py_error option) \<Rightarrow> string list \<Rightarrow> string \<times> py_error option" where
  "flowmon_main open_file iterparse argv =
     (case rbind (py_index argv 1) open_file of
        Inl e \<Rightarrow> ([], Some e)
      | Inr content \<Rightarrow>
          (let (events, parse_error) = iterparse content;
               ((level, sim_list), error) = read_events (0, []) events;
               out = ''Reading XML file '' @ dots sim_list
           in case (if error = None then parse_error else error) of
                Some e \<Rightarrow> (out, Some e)
              | None \<Rightarrow>
                  (let (rep, e) = print_flows (concat sim_list)
                   in (out @ (if sim_list = [] then '' '' else []) @ emit_line '' done.'' @ rep, e))))"

section \<open>What the simulator writes\<close>

text \<open>
  A number \<open>n\<close> of nanoseconds as \<^verbatim>\<open>operator <<\<close> prints a \<^verbatim>\<open>Time\<close>: the value goes through a
  \<^verbatim>\<open>double\<close> in the default format of a C++ stream (six significant digits, trailing zeros of the
  fraction dropped, an exponent from a million on), with \<^verbatim>\<open>showpos\<close> and the unit.  Times of the flow
  monitor are not negative.
\<close>

definition magnitude :: "nat \<Rightarrow> nat" where
  "magnitude n = length (show_nat n) - 1"

definition six_digits :: "nat \<Rightarrow> nat \<times> nat" where
  "six_digits n =
     (let x = magnitude n; m = nat (round_even (of_nat n / 10 ^ (x - 5)))
      in if m = 10 ^ 6 then (10 ^ 5, x + 1) else (m, x))"

definition drop_zeros :: "string \<Rightarrow> string" where
  "drop_zeros s = rev (dropWhile (\<lambda>c. c = CHR ''0'') (rev s))"

definition two_digits :: "nat \<Rightarrow> string" where
  "two_digits x = (if x < 10 then CHR ''0'' # show_nat x else show_nat x)"

definition general_text :: "nat \<Rightarrow> string" where
  "general_text n =
     (if n < 10 ^ 6 then show_nat n
      else let (m, x) = six_digits n; ds = show_nat m; frac = drop_zeros (tl ds)
           in [hd ds] @ (if frac = [] then [] else CHR ''.'' # frac) @ ''e+'' @ two_digits x)"

definition time_text :: "nat \<Rightarrow> string" where
  "time_text n = CHR ''+'' # general_text n @ ''ns''"

text \<open>
  The attributes of one \<^verbatim>\<open>Flow\<close> element, given how a time is printed; the script was written for
  times such as \<^verbatim>\<open>+1500.0ns\<close>.
\<close>

record flow_stats =
  timeFirstTxPacket :: nat
  timeFirstRxPacket :: nat
  timeLastTxPacket :: nat
  timeLastRxPacket :: nat
  delaySum :: nat
  jitterSum :: nat
  lastDelay :: nat
  txBytes :: nat
  rxBytes :: nat
  txPackets :: nat
  rxPackets :: nat
  lostPackets :: nat
  timesForwarded :: nat

definition flow_attributes :: "(nat \<Rightarrow> string) \<Rightarrow> nat \<Rightarrow> flow_stats \<Rightarrow> (string \<times> string) list" where
  "flow_attributes time fid st =
     [(''flowId'', show_nat fid),
      (''timeFirstTxPacket'', time (timeFirstTxPacket st)), (''timeFirstRxPacket'', time (timeFirstRxPacket st)),
      (''timeLastTxPacket'', time (timeLastTxPacket st)), (''timeLastRxPacket'', time (timeLastRxPacket st)),
      (''delaySum'', time (delaySum st)), (''jitterSum'', time (jitterSum st)), (''lastDelay'', time (lastDelay st)),
      (''txBytes'', show_nat (txBytes st)), (''rxBytes'', show_nat (rxBytes st)), (''txPackets'', show_nat (txPackets st)),
      (''rxPackets'', show_nat (rxPackets st)), (''lostPackets'', show_nat (lostPackets st)),
      (''timesForwarded'', show_nat (timesForwarded st))]"

definition decimal_time :: "nat \<Rightarrow> string" where
  "decimal_time n = CHR ''+'' # show_nat n @ ''.0ns''"

end
