(* ===== verification/Flow_Monitor_Correct.thy ===== *)
theory Flow_Monitor_Correct
  imports Flow_Monitor
begin

text \<open>
  Correctness of the flow report: the statistics the script computes from the counters of a flow,
  what it makes of the times this simulator prints, and what it prints for a whole file.
\<close>

section \<open>The statistics of a flow\<close>

named_theorems flow_defs "definitions of the readers of attributes"

lemmas [flow_defs] = int_attr_def long_attr_def float_attr_def cut_attr_def duration_def hops_def means_def bitrate_def loss_ratio_def

lemma cut_decimal_time [simp]: "py_slice (decimal_time n) None (Some (- 4)) = CHR ''+'' # show_nat n"
  by (simp add: decimal_time_def py_list_simps)

text \<open>The statistics of a flow as functions of the monitor's counters.\<close>

definition rate_of :: "nat \<Rightarrow> nat \<Rightarrow> nat \<Rightarrow> rat option" where
  "rate_of b start stop = (if start < stop then Some (of_nat b * 8 * 10 ^ 9 / of_nat (stop - start)) else None)"

definition flow_of :: "nat \<Rightarrow> flow_stats \<Rightarrow> flow" where
  "flow_of fid st =
     (let rx = rxPackets st; mean = (\<lambda>s. if rx = 0 then None else Some (of_nat s / of_nat rx)) in
      \<lparr>flowId = int fid,
       delayMean = map_option (\<lambda>d. d / 10 ^ 9) (mean (delaySum st)),
       packetLossRatio = (if rx = 0 then None else Some (of_nat (lostPackets st) / of_nat (rx + lostPackets st))),
       rxBitrate = rate_of (rxBytes st) (timeFirstRxPacket st) (timeLastRxPacket st),
       txBitrate = rate_of (txBytes st) (timeFirstTxPacket st) (timeLastTxPacket st),
       fl_fiveTuple = None, packetSizeMean = mean (rxBytes st), probe_stats_unsorted = [],
       hopCount = (if rx = 0 then PInt (- 1000) else PFloat (of_nat (timesForwarded st) / of_nat rx + 1)),
       flowInterruptionsHistogram = None,
       rx_duration = of_int (int (timeLastRxPacket st) - int (timeFirstRxPacket st)) / 10 ^ 9\<rparr>)"

lemma rate_of_bitrate:
  "(if 0 < (of_int (int b - int a) :: rat) / 10 ^ 9 then Some (of_int (int n * 8) / (of_int (int b - int a) / 10 ^ 9)) else None)
   = rate_of n a b"
  by (auto simp: rate_of_def of_nat_diff field_simps)

lemma bitrate_rate_of:
  "attribute el name = Some (show_nat n) \<Longrightarrow> bitrate el name (of_int (int b - int a) / 10 ^ 9) = Inr (rate_of n a b)"
  by (simp add: bitrate_def long_attr_def flip: rate_of_bitrate)

lemma duration_decimal:
  "attribute el x = Some (decimal_time b) \<Longrightarrow> attribute el y = Some (decimal_time a)
   \<Longrightarrow> duration el x y = Inr (of_int (int b - int a) / 10 ^ 9)"
  by (simp add: duration_def cut_attr_def)

lemma loss_ratio_nat:
  "loss_ratio (int rx) (of_nat lost) = Inr (if rx = 0 then None else Some (of_nat lost / of_nat (rx + lost)))"
proof -
  have "(of_nat rx + of_nat lost :: rat) = 0 \<longleftrightarrow> rx = 0 \<and> lost = 0"
    by (metis add_is_0 of_nat_0_eq_iff of_nat_add)
  then show ?thesis by (auto simp: loss_ratio_def)
qed

lemma Flow_flow_of:
  assumes "el_attrs el = flow_attributes decimal_time fid st" and "find_child el ''flowInterruptionsHistogram'' = None"
  shows "Flow el = Inr (flow_of fid st)"
proof -
  note attrs = assms(1) flow_attributes_def
  have "duration el ''timeLastTxPacket'' ''timeFirstTxPacket'' = Inr (of_int (int (timeLastTxPacket st) - int (timeFirstTxPacket st)) / 10 ^ 9)"
       "duration el ''timeLastRxPacket'' ''timeFirstRxPacket'' = Inr (of_int (int (timeLastRxPacket st) - int (timeFirstRxPacket st)) / 10 ^ 9)"
    by (rule duration_decimal; simp add: attrs)+
  moreover have "attribute el ''rxBytes'' = Some (show_nat (rxBytes st))" "attribute el ''txBytes'' = Some (show_nat (txBytes st))"
    by (simp_all add: attrs)
  note bitrate_rate_of [OF this(1)] bitrate_rate_of [OF this(2)]
  moreover have "hops el (int (rxPackets st)) = Inr (hopCount (flow_of fid st))"
    by (simp add: hops_def float_attr_def attrs flow_of_def Let_def)
  moreover have "means el (int (rxPackets st)) = Inr (delayMean (flow_of fid st), packetSizeMean (flow_of fid st))"
    by (simp add: means_def float_attr_def cut_attr_def attrs flow_of_def Let_def)
  moreover have "int_attr el ''flowId'' = Inr (int fid)" "long_attr el ''rxPackets'' = Inr (int (rxPackets st))"
      "long_attr el ''txPackets'' = Inr (int (txPackets st))" "float_attr el ''lostPackets'' = Inr (of_nat (lostPackets st))"
    by (simp_all add: int_attr_def long_attr_def float_attr_def attrs)
  ultimately show ?thesis
    unfolding Flow_def by (simp add: assms(2) loss_ratio_nat) (simp add: flow_of_def Let_def)
qed



definition sample_stats :: flow_stats where
  "sample_stats =
     \<lparr>timeFirstTxPacket = 10, timeFirstRxPacket = 20, timeLastTxPacket = 110, timeLastRxPacket = 220, delaySum = 30,
      jitterSum = 4, lastDelay = 10, txBytes = 300, rxBytes = 200, txPackets = 3, rxPackets = 2, lostPackets = 1,
      timesForwarded = 2\<rparr>"


section \<open>Times as this simulator prints them\<close>

lemma parse_acc_bad: "c \<in> set s \<Longrightarrow> digit_val c = Some d \<Longrightarrow> b \<le> d \<Longrightarrow> parse_acc b acc s = None"
  by (induction s arbitrary: acc) (auto split: option.splits)

lemma long_text_exponent: "long_text (CHR ''+'' # ds @ ''e+'') = Inl ValueError"
proof -
  have "parse_nat 10 (ds @ ''e+'') = None"
    using parse_acc_bad [of "CHR ''e''" "ds @ ''e+''" 14 10] by (simp add: parse_nat_def digit_val_def)
  moreover have "py_strip (CHR ''+'' # ds @ ''e+'') = CHR ''+'' # ds @ ''e+''"
    by (intro py_strip_id) (auto simp: is_space_def)
  ultimately show ?thesis by (simp add: long_text_def decimal_def sign_split_def)
qed

lemma long_text_blank [simp]: "long_text [] = Inl ValueError" "long_text ''+'' = Inl ValueError"
  by (simp_all add: long_text_def decimal_def sign_split_def parse_nat_def py_strip_def is_space_def)

lemma six_digits_exponent:
  assumes "n < 2 ^ 63" and "six_digits n = (m, x)"
  shows "x < 100"
proof -
  have "length (show_nat n) \<le> 19"
    using length_digits_of [of 10 19 n] assms(1) by (simp add: show_nat_def)
  with assms(2) show ?thesis
    by (auto simp: six_digits_def magnitude_def Let_def split: if_splits)
qed

lemma length_two_digits: "x < 100 \<Longrightarrow> length (two_digits x) = 2"
  by (auto simp: two_digits_def show_nat_single show_nat_step [of x])

lemma cut_time_text:
  assumes "n < 2 ^ 63"
  shows "long_text (py_slice (time_text n) None (Some (- 4))) = (if 100 \<le> n \<and> n < 10 ^ 6 then Inr (int (n div 100)) else Inl ValueError)"
proof (cases "n < 10 ^ 6")
  case True
  then have t: "time_text n = CHR ''+'' # show_nat n @ ''ns''" by (simp add: time_text_def general_text_def)
  consider "n < 10" | "10 \<le> n" "n < 100" | "100 \<le> n" by linarith
  then show ?thesis
  proof cases
    case 3
    have "n div 10 div 10 = n div 100" by (simp flip: div_mult2_eq)
    with 3 show ?thesis
      using True by (simp add: t py_list_simps show_nat_step [of n] show_nat_step [of "n div 10"])
  qed (simp_all add: t py_list_simps show_nat_single show_nat_step [of n])
next
  case False
  obtain m x where mx: "six_digits n = (m, x)" by (cases "six_digits n")
  obtain ds where "general_text n = ds @ ''e+'' @ two_digits x"
    using False by (simp add: general_text_def mx Let_def)
  then have "time_text n = (CHR ''+'' # ds @ ''e+'') @ (two_digits x @ ''ns'')" by (simp add: time_text_def)
  moreover have "length (two_digits x @ ''ns'') = 4"
    using length_two_digits [OF six_digits_exponent [OF assms mx]] by simp
  moreover have "py_slice (s @ u) None (Some (- 4)) = s" if "length u = 4" for s u :: string
    using that by (simp add: py_list_simps)
  ultimately have "py_slice (time_text n) None (Some (- 4)) = CHR ''+'' # ds @ ''e+''" by presburger
  with False show ?thesis by (simp add: long_text_exponent)
qed

text \<open>
  C31: On the times that this simulator prints, the script does not work: a \<^verbatim>\<open>Time\<close> is printed without a
  fraction, so the four characters that the script cuts off are \<^verbatim>\<open>ns\<close> and two digits.  Unless all four
  times of a flow are at least 100 and below a million nanoseconds, reading the flow raises
  \<open>ValueError\<close>; otherwise the duration comes out from times divided by 100.
\<close>

theorem flow_time_text:
  assumes "el_attrs el = flow_attributes time_text fid st"
    and "\<forall>t \<in> {timeFirstTxPacket st, timeLastTxPacket st, timeFirstRxPacket st, timeLastRxPacket st}. t < 2 ^ 63"
  shows "if \<forall>t \<in> {timeFirstTxPacket st, timeLastTxPacket st, timeFirstRxPacket st, timeLastRxPacket st}. 100 \<le> t \<and> t < 10 ^ 6
         then duration el ''timeLastRxPacket'' ''timeFirstRxPacket''
                = Inr (of_int (int (timeLastRxPacket st div 100) - int (timeFirstRxPacket st div 100)) / 10 ^ 9)
         else Flow el = Inl ValueError"
proof -
  have cut: "rbind (cut_attr el name) long_text = (if 100 \<le> n \<and> n < 10 ^ 6 then Inr (int (n div 100)) else Inl ValueError)"
    if "attribute el name = Some (time_text n)" "n < 2 ^ 63" for name n
    using that by (simp add: cut_attr_def cut_time_text)
  have times: "rbind (cut_attr el ''timeFirstTxPacket'') long_text
      = (if 100 \<le> timeFirstTxPacket st \<and> timeFirstTxPacket st < 10 ^ 6 then Inr (int (timeFirstTxPacket st div 100)) else Inl ValueError)"
    "rbind (cut_attr el ''timeLastTxPacket'') long_text
      = (if 100 \<le> timeLastTxPacket st \<and> timeLastTxPacket st < 10 ^ 6 then Inr (int (timeLastTxPacket st div 100)) else Inl ValueError)"
    "rbind (cut_attr el ''timeFirstRxPacket'') long_text
      = (if 100 \<le> timeFirstRxPacket st \<and> timeFirstRxPacket st < 10 ^ 6 then Inr (int (timeFirstRxPacket st div 100)) else Inl ValueError)"
    "rbind (cut_attr el ''timeLastRxPacket'') long_text
      = (if 100 \<le> timeLastRxPacket st \<and> timeLastRxPacket st < 10 ^ 6 then Inr (int (timeLastRxPacket st div 100)) else Inl ValueError)"
    using assms(2) by (intro cut; simp add: assms(1) flow_attributes_def)+
  have "int_attr el ''flowId'' = Inr (int fid)" "long_attr el ''rxPackets'' = Inr (int (rxPackets st))"
      "long_attr el ''txPackets'' = Inr (int (txPackets st))"
    by (simp_all add: int_attr_def long_attr_def assms(1) flow_attributes_def)
  then show ?thesis
    unfolding Flow_def duration_def times by simp
qed

theorem flow_time_text_witness:
  "Flow (Elem ''Flow'' (flow_attributes time_text 1 sample_stats) None []) = Inl ValueError"
  using flow_time_text [of "Elem ''Flow'' (flow_attributes time_text 1 sample_stats) None []" 1 sample_stats]
  by (simp add: sample_stats_def)

section \<open>The reading loop\<close>

lemma read_events_append:
  "read_events st (xs @ ys) = (case read_events st xs of (st', None) \<Rightarrow> read_events st' ys | (st', Some e) \<Rightarrow> (st', Some e))"
  by (induction st xs rule: read_events.induct) (auto split: sum.splits)

lemma read_events_inner: "1 \<le> level \<Longrightarrow> read_events (level, sims) (events_of el) = ((level, sims), None)"
proof (induction el arbitrary: level rule: xml.induct)
  case (Elem tag attrs body children)
  have "read_events (level + 1, sims) (concat (map events_of cs)) = ((level + 1, sims), None)" if "set cs \<subseteq> set children" for cs
  proof -
    have "read_events (level + 1, sims) (events_of c) = ((level + 1, sims), None)" if "c \<in> set children" for c
      using Elem that by simp
    with that show ?thesis by (induction cs) (auto simp: read_events_append)
  qed
  with Elem.prems show ?case
    by (simp add: on_event_def read_events_append)
qed

text \<open>Only the root element of a document is looked at.\<close>

lemma read_events_document:
  "read_events (0, []) (events_of el) =
     (if el_tag el = ''FlowMonitor''
      then (case Simulation el of Inl e \<Rightarrow> ((1, []), Some e) | Inr sim \<Rightarrow> ((0, [sim]), None))
      else ((0, []), None))"
proof (cases el)
  case (Elem tag attrs body children)
  have "read_events (1, []) (concat (map events_of cs)) = ((1, []), None)" for cs
    by (induction cs) (auto simp: read_events_append read_events_inner)
  with Elem show ?thesis
    by (auto simp: on_event_def read_events_append split: sum.splits)
qed

section \<open>Flows and what is added to them\<close>

text \<open>The dictionary of the flows of a list: a flow's number leads to its place.\<close>

definition flow_index :: "flow list \<Rightarrow> (int, nat) dict" where
  "flow_index flows = foldl (\<lambda>d (i, f). dict_set d (flowId f) i) [] (enumerate 0 flows)"

lemma flow_index_snoc [simp]: "flow_index (flows @ [f]) = dict_set (flow_index flows) (flowId f) (length flows)"
  by (simp add: flow_index_def enumerate_append_eq)

lemma flow_index_Nil [simp]: "flow_index [] = []"
  by (simp add: flow_index_def)

lemma dom_flow_index: "dict_get (flow_index flows) k \<noteq> None \<longleftrightarrow> k \<in> flowId ` set flows"
  by (induction flows rule: rev_induct) auto

lemma flow_index_get:
  "distinct (map flowId flows) \<Longrightarrow> dict_get (flow_index flows) k = Some i \<longleftrightarrow> i < length flows \<and> flowId (flows ! i) = k"
proof (induction flows arbitrary: i rule: rev_induct)
  case (snoc f flows)
  then have "flowId (flows ! j) \<noteq> flowId f" if "j < length flows" for j
  proof -
    have "flowId (flows ! j) \<in> flowId ` set flows" using that by simp
    moreover have "flowId f \<notin> flowId ` set flows" using snoc.prems by simp
    ultimately show ?thesis by metis
  qed
  with snoc show ?case
    by (auto simp: nth_append less_Suc_eq)
qed simp

lemma flow_index_cong: "map flowId flows = map flowId flows' \<Longrightarrow> flow_index flows = flow_index flows'"
proof (induction flows arbitrary: flows' rule: rev_induct)
  case (snoc f flows)
  then obtain gs g where "flows' = gs @ [g]" by (cases flows' rule: rev_cases) auto
  with snoc show ?case by (auto dest: map_eq_imp_length_eq)
qed simp

lemma add_flows:
  "mapM Flow els = Inr flows \<Longrightarrow> foldM add_flow (old, flow_index old) els = Inr (old @ flows, flow_index (old @ flows))"
proof (induction els arbitrary: old flows)
  case (Cons el els)
  from Cons.prems obtain f fs where f: "Flow el = Inr f" and fs: "mapM Flow els = Inr fs" "flows = f # fs"
    by (auto simp: res_simps)
  have "add_flow (old, flow_index old) el = Inr (old @ [f], flow_index (old @ [f]))"
    by (simp add: add_flow_def f)
  with Cons.IH [OF fs(1), of "old @ [f]"] show ?case
    by (simp only: foldM.simps rbind_simps fs(2) append_assoc append_Cons append_Nil)
qed simp

text \<open>Changing one flow through the dictionary changes exactly the flows of that number.\<close>

lemma update_flow_map:
  assumes "distinct (map flowId flows)" and "k \<in> flowId ` set flows"
    and "\<And>f. flowId (upd f) = flowId f"
  shows "update_flow k upd (flows, flow_index flows)
    = Inr (map (\<lambda>f. if flowId f = k then upd f else f) flows, flow_index (map (\<lambda>f. if flowId f = k then upd f else f) flows))"
proof -
  obtain i where i: "dict_get (flow_index flows) k = Some i" "i < length flows" "flowId (flows ! i) = k"
    using assms(2) flow_index_get [OF assms(1)] by (metis in_set_conv_nth imageE)
  have "flows[i := upd (flows ! i)] = map (\<lambda>f. if flowId f = k then upd f else f) flows"
    using i assms(1) by (auto simp: list_eq_iff_nth_eq nth_list_update distinct_conv_nth)
  moreover have "flow_index (map (\<lambda>f. if flowId f = k then upd f else f) flows) = flow_index flows"
    by (rule flow_index_cong) (simp add: assms(3))
  ultimately show ?thesis
    using i by (simp add: update_flow_def dict_lookup_Some)
qed

definition touch :: "(int \<times> (flow \<Rightarrow> flow)) list \<Rightarrow> flow \<Rightarrow> flow" where
  "touch us f = foldl (\<lambda>f (k, upd). if flowId f = k then upd f else f) f us"

lemma touch_simps [simp]: "touch [] = (\<lambda>f. f)" "touch ((k, upd) # us) f = touch us (if flowId f = k then upd f else f)"
  by (simp_all add: touch_def fun_eq_iff)

lemma touch_append: "touch (us @ vs) f = touch vs (touch us f)"
  by (simp add: touch_def)

text \<open>A loop over elements, each of which names a flow and changes it, keeping its number.\<close>

locale flow_updates =
  fixes parse :: "'x \<Rightarrow> (int \<times> (flow \<Rightarrow> flow)) res"
    and step :: "flow_store \<Rightarrow> 'x \<Rightarrow> flow_store res"
  assumes step_parse: "step st x = rbind (parse x) (\<lambda>(k, upd). update_flow k upd st)"
    and keeps_number: "parse x = Inr (k, upd) \<Longrightarrow> flowId (upd f) = flowId f"
begin

lemma touch_number: "mapM parse xs = Inr us \<Longrightarrow> flowId (touch us f) = flowId f"
  by (induction xs arbitrary: us f) (auto simp: res_simps keeps_number)

lemma updates:
  "distinct (map flowId flows) \<Longrightarrow> mapM parse xs = Inr us \<Longrightarrow> fst ` set us \<subseteq> flowId ` set flows
   \<Longrightarrow> foldM step (flows, flow_index flows) xs = Inr (map (touch us) flows, flow_index (map (touch us) flows))"
proof (induction xs arbitrary: flows us)
  case (Cons x xs)
  from Cons.prems(2) obtain k upd vs where x: "parse x = Inr (k, upd)" "mapM parse xs = Inr vs" "us = (k, upd) # vs"
    by (auto simp: res_simps)
  let ?new = "map (\<lambda>f. if flowId f = k then upd f else f) flows"
  have ids: "map flowId ?new = map flowId flows" by (simp add: keeps_number [OF x(1)])
  then have set_ids: "flowId ` set ?new = flowId ` set flows" by (metis set_map)
  have "step (flows, flow_index flows) x = Inr (?new, flow_index ?new)"
    using update_flow_map [of flows k upd] Cons.prems keeps_number [OF x(1)] by (simp add: step_parse x)
  moreover have "foldM step (?new, flow_index ?new) xs = Inr (map (touch vs) ?new, flow_index (map (touch vs) ?new))"
    using Cons.prems by (intro Cons.IH [OF _ x(2)]) (simp_all only: ids set_ids x(3), auto)
  moreover have "map (touch us) flows = map (touch vs) ?new" by (simp add: x(3))
  ultimately show ?case by (simp only: foldM.simps rbind_simps)
qed simp

end

text \<open>An entry of the classifier and a record of a probe.\<close>

definition class_entry :: "xml \<Rightarrow> (int \<times> five_tuple) res" where
  "class_entry c = rbind (int_attr c ''flowId'') (\<lambda>fid. rbind (FiveTuple c) (\<lambda>t. Inr (fid, t)))"

definition set_tuple :: "int \<times> five_tuple \<Rightarrow> int \<times> (flow \<Rightarrow> flow)" where
  "set_tuple = (\<lambda>(k, t). (k, \<lambda>f. f\<lparr>fl_fiveTuple := Some t\<rparr>))"

definition probe_entry :: "int \<Rightarrow> xml \<Rightarrow> (int \<times> probe_flow_stats) res" where
  "probe_entry pid stats =
     rbind (int_attr stats ''flowId'') (\<lambda>fid.
     rbind (int_attr stats ''packets'') (\<lambda>n.
     rbind (long_attr stats ''bytes'') (\<lambda>b.
     rbind (if 0 < n
            then rbind (parse_time_ns (attribute stats ''delayFromFirstProbeSum'')) (\<lambda>d. Inr (PFloat (of_int d / of_int n)))
            else Inr (PInt 0)) (\<lambda>delay.
     Inr (fid, \<lparr>probeId = pid, packets = n, bytes = b, delayFromFirstProbe = delay\<rparr>)))))"

definition add_stats :: "int \<times> probe_flow_stats \<Rightarrow> int \<times> (flow \<Rightarrow> flow)" where
  "add_stats = (\<lambda>(k, s). (k, \<lambda>f. f\<lparr>probe_stats_unsorted := probe_stats_unsorted f @ [s]\<rparr>))"

interpretation classification: flow_updates "\<lambda>c. rbind (class_entry c) (\<lambda>e. Inr (set_tuple e))" classify
  by unfold_locales (auto simp: classify_def class_entry_def set_tuple_def rbind_assoc res_simps)

interpretation probing: flow_updates "\<lambda>s. rbind (probe_entry pid s) (\<lambda>e. Inr (add_stats e))" "probe_stats pid" for pid
  by unfold_locales (auto simp: probe_stats_def probe_entry_def add_stats_def rbind_assoc res_simps)

lemma mapM_then: "mapM f xs = Inr ys \<Longrightarrow> mapM (\<lambda>x. rbind (f x) (\<lambda>y. Inr (g y))) xs = Inr (map g ys)"
  by (induction xs arbitrary: ys) (auto simp: res_simps)

lemma touch_tuples:
  "touch (map set_tuple entries) f
   = (case map_of (rev entries) (flowId f) of None \<Rightarrow> f | Some t \<Rightarrow> f\<lparr>fl_fiveTuple := Some t\<rparr>)"
  by (induction entries rule: rev_induct)
    (auto simp: touch_append set_tuple_def split: option.splits)

lemma touch_stats:
  "touch (map add_stats entries) f
   = f\<lparr>probe_stats_unsorted := probe_stats_unsorted f @ map snd (filter (\<lambda>(k, _). k = flowId f) entries)\<rparr>"
  by (induction entries arbitrary: f) (auto simp: add_stats_def)

definition probe_entries :: "xml \<Rightarrow> (int \<times> probe_flow_stats) list res" where
  "probe_entries p = rbind (int_attr p ''index'') (\<lambda>pid. mapM (probe_entry pid) (findall p ''FlowStats''))"

lemma add_probes:
  "distinct (map flowId flows) \<Longrightarrow> mapM probe_entries ps = Inr ess \<Longrightarrow> fst ` set (concat ess) \<subseteq> flowId ` set flows
   \<Longrightarrow> foldM add_probe (flows, flow_index flows) ps
       = Inr (map (touch (map add_stats (concat ess))) flows, flow_index (map (touch (map add_stats (concat ess))) flows))"
proof (induction ps arbitrary: flows ess)
  case (Cons p ps)
  from Cons.prems(2) obtain es rest pid where p: "int_attr p ''index'' = Inr pid" "mapM (probe_entry pid) (findall p ''FlowStats'') = Inr es"
      and rest: "mapM probe_entries ps = Inr rest" "ess = es # rest"
    by (cases "probe_entries p"; cases "mapM probe_entries ps") (auto simp: res_simps probe_entries_def [of p])
  let ?new = "map (touch (map add_stats es)) flows"
  have ids: "map flowId ?new = map flowId flows" by (simp add: touch_stats)
  then have set_ids: "flowId ` set ?new = flowId ` set flows" by (metis set_map)
  have "fst ` set (map add_stats es) = fst ` set es" by (force simp: add_stats_def)
  then have "fst ` set (map add_stats es) \<subseteq> flowId ` set flows" using Cons.prems(3) by (auto simp: rest(2))
  with Cons.prems(1) have "add_probe (flows, flow_index flows) p = Inr (?new, flow_index ?new)"
    unfolding add_probe_def by (simp add: p(1) probing.updates [OF _ mapM_then [OF p(2)]])
  moreover have "foldM add_probe (?new, flow_index ?new) ps
      = Inr (map (touch (map add_stats (concat rest))) ?new, flow_index (map (touch (map add_stats (concat rest))) ?new))"
    using Cons.prems by (intro Cons.IH [OF _ rest(1)]) (simp_all only: ids set_ids rest(2), auto)
  ultimately show ?case by (simp add: rest(2) touch_append comp_def)
qed simp

text \<open>The flows of a file with everything that is added to them.\<close>

definition complete_flow :: "(int \<times> five_tuple) list \<Rightarrow> (int \<times> probe_flow_stats) list \<Rightarrow> flow \<Rightarrow> flow" where
  "complete_flow entries stats f =
     f\<lparr>fl_fiveTuple := map_of (rev entries) (flowId f),
       probe_stats_unsorted := map snd (filter (\<lambda>(k, _). k = flowId f) stats)\<rparr>"

lemma Flow_fresh: "Flow el = Inr f \<Longrightarrow> fl_fiveTuple f = None \<and> probe_stats_unsorted f = []"
  unfolding Flow_def by (auto simp: res_simps)

lemma mapM_Inr_set: "mapM f xs = Inr ys \<Longrightarrow> y \<in> set ys \<Longrightarrow> \<exists>x \<in> set xs. f x = Inr y"
  by (induction xs arbitrary: ys) (auto simp: res_simps)

text \<open>
  C19: The flows of one simulation: with one IPv4 classifier, readable elements, different flow numbers
  and no entry for an unknown flow, the script builds exactly the flows of the file in their order, each
  with the five tuple of the last classifier entry of its number and with the statistics of all probes
  for its number in file order.
\<close>

theorem simulation_flows:
  assumes "findall el ''Ipv4FlowClassifier'' = [c]"
    and flows: "mapM Flow (find_path el [''FlowStats'', ''Flow'']) = Inr flows" "distinct (map flowId flows)"
    and entries: "mapM class_entry (findall c ''Flow'') = Inr entries" "fst ` set entries \<subseteq> flowId ` set flows"
    and stats: "mapM probe_entries (find_path el [''FlowProbes'', ''FlowProbe'']) = Inr stats"
      "fst ` set (concat stats) \<subseteq> flowId ` set flows"
  shows "Simulation el = Inr (map (complete_flow entries (concat stats)) flows)"
proof -
  let ?classified = "map (touch (map set_tuple entries)) flows"
  have ids: "map flowId ?classified = map flowId flows"
    by (simp add: touch_tuples split: option.splits)
  then have set_ids: "flowId ` set ?classified = flowId ` set flows" by (metis set_map)
  have "fst ` set (map set_tuple entries) = fst ` set entries" by (force simp: set_tuple_def)
  then have "foldM classify (flows, flow_index flows) (findall c ''Flow'') = Inr (?classified, flow_index ?classified)"
    using classification.updates [OF flows(2) mapM_then [OF entries(1)]] entries(2) by simp
  moreover have "foldM add_probe (?classified, flow_index ?classified) (find_path el [''FlowProbes'', ''FlowProbe''])
      = Inr (map (touch (map add_stats (concat stats))) ?classified, flow_index (map (touch (map add_stats (concat stats))) ?classified))"
    using flows(2) stats(2) by (intro add_probes [OF _ stats(1)]) (simp_all only: ids set_ids)
  moreover have "map (touch (map add_stats (concat stats))) ?classified = map (complete_flow entries (concat stats)) flows"
    using mapM_Inr_set [OF flows(1)] Flow_fresh
    by (fastforce simp: touch_tuples touch_stats complete_flow_def split: option.splits)
  ultimately show ?thesis
    unfolding Simulation_def assms(1)
    using add_flows [OF flows(1), of "[]"] by simp
qed

section \<open>The report\<close>

lemma print_flows_append:
  "print_flows (xs @ ys) = (case print_flows xs of (s, None) \<Rightarrow> (let (t, e) = print_flows ys in (s @ t, e)) | (s, Some e) \<Rightarrow> (s, Some e))"
  by (induction xs) (auto split: sum.splits option.splits prod.splits)

text \<open>The block that is printed for a flow, empty if it raises.\<close>

definition block :: "flow \<Rightarrow> string" where
  "block f = (case flow_report f of Inl _ \<Rightarrow> [] | Inr s \<Rightarrow> s)"

definition printable :: "flow \<Rightarrow> bool" where
  "printable f \<longleftrightarrow> (case fl_fiveTuple f of None \<Rightarrow> False | Some t \<Rightarrow> protocol t \<in> {6, 17})"

definition print_error :: "flow \<Rightarrow> py_error" where
  "print_error f = (if fl_fiveTuple f = None then AttributeError else KeyError)"

lemma flow_report_cases: "flow_report f = (if printable f then Inr (block f) else Inl (print_error f))"
  by (auto simp: block_def flow_report_def printable_def print_error_def proto_name_def dict_lookup_def split: option.splits)

lemma print_flows_cases:
  "print_flows flows = (concat (map block (takeWhile printable flows)), map_option print_error (find (\<lambda>f. \<not> printable f) flows))"
  by (induction flows) (auto simp: flow_report_cases)

text \<open>
  On a well-formed file whose root is one simulation, the program prints the header line and then, in
  file order, one block for each flow up to the first flow that has no IPv4 five tuple or a protocol other
  than TCP and UDP; there the program ends with \<open>AttributeError\<close> or \<open>KeyError\<close>.  When every flow is
  classified as TCP or UDP, all flows are reported and nothing is raised.
\<close>

theorem flowmon_report:
  assumes "open_file name = Inr content" and "iterparse content = (events_of el, None)"
    and "el_tag el = ''FlowMonitor''" and "Simulation el = Inr flows"
  shows "flowmon_main open_file iterparse [prog, name]
    = (''Reading XML file . done.'' @ [CHR 0x0A] @ concat (map block (takeWhile printable flows)),
       map_option print_error (find (\<lambda>f. \<not> printable f) flows))
    \<and> (list_all printable flows \<longrightarrow>
         flowmon_main open_file iterparse [prog, name]
         = (''Reading XML file . done.'' @ [CHR 0x0A] @ concat (map block flows), None))"
proof -
  have all: "takeWhile printable flows = flows" "find (\<lambda>f. \<not> printable f) flows = None" if "list_all printable flows"
    using that by (auto simp: takeWhile_eq_all_conv list_all_iff find_None_iff)
  have "py_index [prog, name] 1 = Inr name" by (simp add: py_index_def)
  then have *: "flowmon_main open_file iterparse [prog, name]
    = (''Reading XML file . done.'' @ [CHR 0x0A] @ concat (map block (takeWhile printable flows)),
       map_option print_error (find (\<lambda>f. \<not> printable f) flows))"
    using assms by (simp add: flowmon_main_def read_events_document dots_def emit_line_def print_flows_cases)
  show ?thesis
    using * by (cases "list_all printable flows") (auto simp only: all append_assoc simp_thms option.map)
qed

section \<open>A file with two flows\<close>

definition sample_flow :: "nat \<Rightarrow> xml" where
  "sample_flow fid = Elem ''Flow'' (flow_attributes decimal_time fid sample_stats) None []"

definition sample_class :: "nat \<Rightarrow> nat \<Rightarrow> xml" where
  "sample_class fid proto =
     Elem ''Flow'' [(''flowId'', show_nat fid), (''sourceAddress'', ''10.0.0.1''), (''destinationAddress'', ''10.0.0.2''),
                    (''protocol'', show_nat proto), (''sourcePort'', ''9''), (''destinationPort'', ''80'')] None []"

definition sample_document :: xml where
  "sample_document =
     Elem ''FlowMonitor'' [] None
       [Elem ''FlowStats'' [] None [sample_flow 1, sample_flow 2],
        Elem ''Ipv4FlowClassifier'' [] None [sample_class 2 1, sample_class 1 17],
        Elem ''FlowProbes'' [] None
          [Elem ''FlowProbe'' [(''index'', ''0'')] None
             [Elem ''FlowStats'' [(''flowId'', ''1''), (''packets'', ''2''), (''bytes'', ''100''),
                                  (''delayFromFirstProbeSum'', ''+30.0ns'')] None []]]]"

lemma sample_flows: "mapM Flow [sample_flow 1, sample_flow 2] = Inr [flow_of 1 sample_stats, flow_of 2 sample_stats]"
  by (simp add: sample_flow_def Flow_flow_of find_child_def findall_def)

lemma int_text_values:
  "int_text ''9'' = Inr 9" "int_text ''80'' = Inr 80" "int_text ''0'' = Inr 0" "int_text ''1'' = Inr 1" "int_text ''2'' = Inr 2"
  "long_text ''100'' = Inr 100" "long_text ''+30'' = Inr 30"
  by (simp_all add: int_text_def long_text_def decimal_def sign_split_def parse_nat_def digit_val_def py_strip_def is_space_def)

definition sample_tuple :: "int \<Rightarrow> five_tuple" where
  "sample_tuple p =
     \<lparr>sourceAddress = Some ''10.0.0.1'', destinationAddress = Some ''10.0.0.2'', protocol = p, sourcePort = 9, destinationPort = 80\<rparr>"

definition sample_probe :: probe_flow_stats where
  "sample_probe = \<lparr>probeId = 0, packets = 2, bytes = 100, delayFromFirstProbe = PFloat 15\<rparr>"

lemma sample_entries: "mapM class_entry [sample_class 2 1, sample_class 1 17] = Inr [(2, sample_tuple 1), (1, sample_tuple 17)]"
  by (simp add: class_entry_def FiveTuple_def int_attr_def sample_class_def int_text_values sample_tuple_def)

lemmas document_defs = findall_def sample_document_def sample_flow_def sample_class_def

theorem simulation_flows_witness:
  "Simulation sample_document
   = Inr (map (complete_flow [(2, sample_tuple 1), (1, sample_tuple 17)] [(1, sample_probe)])
            [flow_of 1 sample_stats, flow_of 2 sample_stats])"
proof -
  have "findall sample_document ''Ipv4FlowClassifier'' = [Elem ''Ipv4FlowClassifier'' [] None [sample_class 2 1, sample_class 1 17]]"
       "find_path sample_document [''FlowStats'', ''Flow''] = [sample_flow 1, sample_flow 2]"
    by (simp_all add: document_defs)
  moreover have "mapM probe_entries (find_path sample_document [''FlowProbes'', ''FlowProbe'']) = Inr [[(1, sample_probe)]]"
    by (simp add: document_defs probe_entries_def probe_entry_def int_attr_def long_attr_def int_text_values parse_time_ns_def
        py_list_simps ends_with_def sample_probe_def)
  moreover have "findall (Elem ''Ipv4FlowClassifier'' [] None [sample_class 2 1, sample_class 1 17]) ''Flow'' = [sample_class 2 1, sample_class 1 17]"
    by (simp add: document_defs)
  ultimately show ?thesis
    using sample_flows sample_entries
      simulation_flows [of sample_document "Elem ''Ipv4FlowClassifier'' [] None [sample_class 2 1, sample_class 1 17]"
        "[flow_of 1 sample_stats, flow_of 2 sample_stats]" "[(2, sample_tuple 1), (1, sample_tuple 17)]" "[[(1, sample_probe)]]"]
    by (simp add: flow_of_def Let_def)
qed

definition unclassified_document :: xml where
  "unclassified_document =
     Elem ''FlowMonitor'' [] None
       [Elem ''FlowStats'' [] None [sample_flow 1], Elem ''Ipv4FlowClassifier'' [] None []]"

lemma unclassified: "Simulation unclassified_document = Inr [flow_of 1 sample_stats]"
proof -
  have "Flow (sample_flow 1) = Inr (flow_of 1 sample_stats)" by (simp add: sample_flow_def Flow_flow_of find_child_def findall_def)
  then show ?thesis
    by (simp add: Simulation_def unclassified_document_def findall_def sample_flow_def add_flow_def)
qed

theorem flowmon_report_witness:
  "flowmon_main (\<lambda>_. Inr ''text'') (\<lambda>_. (events_of unclassified_document, None)) [''parse'', ''flows.xml'']
   = (''Reading XML file . done.'' @ [CHR 0x0A], Some AttributeError)"
  using flowmon_report [of "\<lambda>_. Inr ''text''" "''flows.xml''" "''text''" "\<lambda>_. (events_of unclassified_document, None)"
      unclassified_document "[flow_of 1 sample_stats]" "''parse''"] unclassified
  by (simp add: unclassified_document_def printable_def print_error_def flow_of_def Let_def)

end
