(* ===== verification/Wutils.thy ===== *)
theory Wutils
  imports Py_Strings
begin

text \<open>
  \<^verbatim>\<open>src/source/ns-3-dev/wutils.py\<close>: how \<^verbatim>\<open>waf --run\<close> finds a program, builds its command line and
  environment, and runs it.  The task generators of the build are a list of records with the paths
  that waf knows; \<^verbatim>\<open>shlex.split\<close>, the creation of a process and the table of signals are arguments.
\<close>

section \<open>Formatting with one string\<close>

text \<open>
  \<^verbatim>\<open>template % (s,)\<close>.  After a percent sign come flags, a width, a precision, a length modifier and
  the conversion; a conversion to a number raises on a string.
\<close>

definition number_of :: "string \<Rightarrow> nat" where
  "number_of ds = (case parse_nat 10 ds of None \<Rightarrow> 0 | Some n \<Rightarrow> n)"

record conversion =
  cv_left :: bool
  cv_width :: nat
  cv_precision :: "nat option"
  cv_type :: char

definition is_flag :: "char \<Rightarrow> bool" where
  "is_flag c \<longleftrightarrow> c \<in> set ''-+ #0''"

text \<open>What follows the width, and what follows precision and length modifier.\<close>

definition after_width :: "string \<Rightarrow> string" where
  "after_width s = dropWhile is_digit (dropWhile is_flag s)"

definition after_precision :: "string \<Rightarrow> string" where
  "after_precision s = (if take 1 s = ''.'' then dropWhile is_digit (drop 1 s) else s)"

definition after_modifier :: "string \<Rightarrow> string" where
  "after_modifier s = (if take 1 s = ''h'' \<or> take 1 s = ''l'' \<or> take 1 s = ''L'' then drop 1 s else s)"

definition read_conversion :: "string \<Rightarrow> (conversion \<times> string) res" where
  "read_conversion s =
     (let s1 = dropWhile is_flag s; s2 = after_width s; dotted = (take 1 s2 = ''.'')
      in if take 1 s = ''('' \<or> take 1 s1 = ''*'' \<or> (dotted \<and> take 1 (drop 1 s2) = ''*'') then Inl TypeError
         else case after_modifier (after_precision s2) of
                [] \<Rightarrow> Inl ValueError
              | c # rest \<Rightarrow>
                  Inr (\<lparr>cv_left = CHR ''-'' \<in> set (takeWhile is_flag s), cv_width = number_of (takeWhile is_digit s1),
                        cv_precision = (if dotted then Some (number_of (takeWhile is_digit (drop 1 s2))) else None), cv_type = c\<rparr>, rest))"

definition pad :: "conversion \<Rightarrow> string \<Rightarrow> string" where
  "pad cv s =
     (let t = (case cv_precision cv of None \<Rightarrow> s | Some n \<Rightarrow> take n s); fill = replicate (cv_width cv - length t) (CHR '' '')
      in if cv_left cv then t @ fill else fill @ t)"

definition convert :: "conversion \<Rightarrow> string \<Rightarrow> string res" where
  "convert cv s =
     (if cv_type cv = CHR ''s'' then Inr (pad cv s)
      else if cv_type cv = CHR ''r'' \<or> cv_type cv = CHR ''a'' then Inr (pad cv (py_repr s))
      else if cv_type cv = CHR ''c'' \<and> length s = 1 then Inr (pad (cv\<lparr>cv_precision := None\<rparr>) s)
      else if cv_type cv \<in> set ''cdiuoxXeEfFgG'' then Inl TypeError
      else Inl ValueError)"

lemma length_after: "length (after_width s) \<le> length s" "length (after_precision s) \<le> length s" "length (after_modifier s) \<le> length s"
  by (auto simp: after_width_def after_precision_def after_modifier_def intro: le_trans [OF length_dropWhile_le])

lemma read_conversion_shorter:
  assumes "read_conversion s = Inr (cv, rest)"
  shows "length rest < length s"
proof -
  from assms have "after_modifier (after_precision (after_width s)) = cv_type cv # rest"
    by (auto simp: read_conversion_def Let_def split: if_splits list.splits)
  moreover have "length (after_modifier (after_precision (after_width s))) \<le> length s"
    by (meson le_trans length_after)
  ultimately show ?thesis by simp
qed

function percent :: "string \<Rightarrow> string option \<Rightarrow> string res" where
  "percent [] arg = (if arg = None then Inr [] else Inl TypeError)"
| "percent (c # s) arg =
     (if c \<noteq> CHR ''%'' then rbind (percent s arg) (\<lambda>t. Inr (c # t))
      else case read_conversion s of
             Inl e \<Rightarrow> Inl e
           | Inr (cv, rest) \<Rightarrow>
               if cv_type cv = CHR ''%'' then rbind (percent rest arg) (\<lambda>t. Inr (CHR ''%'' # t))
               else (case arg of
                       None \<Rightarrow> Inl TypeError
                     | Some s' \<Rightarrow> rbind (convert cv s') (\<lambda>u. rbind (percent rest None) (\<lambda>t. Inr (u @ t)))))"
  by pat_completeness auto

termination
  by (relation "measure (\<lambda>(s, arg). length s)") (auto dest: read_conversion_shorter)

section \<open>The build\<close>

record task_gen =
  tg_name :: string
  tg_path :: string
  tg_bld :: string
  tg_target :: string
  tg_is_ns3_program :: bool

record run_options =
  op_command_template :: string
  op_valgrind :: bool
  op_gdb :: bool
  op_cwd_launch :: string

type_synonym proc_env = "(string, string) dict"

text \<open>
  What the functions read from waf and the interpreter: the task generators, the values of the
  configuration, the directories of the bindings and of the visualizer (\<^verbatim>\<open>None\<close> when missing),
  \<^verbatim>\<open>sys.platform\<close>, \<^verbatim>\<open>os.environ\<close>, the directories of the process and of the launch.
\<close>

record build =
  all_task_gen :: "task_gen list"
  NS3_MODULE_PATH :: "string list"
  NS3_EXECUTABLE_PATH :: "string list"
  VALGRIND :: "string list"
  PYTHON :: "string list"
  bindings_dir :: "string option"
  visualizer_dir :: "string option"
  b_platform :: string
  os_environ :: proc_env
  b_cwd :: string
  b_launch_dir :: string

definition get_command_template :: "run_options \<Rightarrow> string list \<Rightarrow> string" where
  "get_command_template opts arguments =
     foldl (\<lambda>cmd arg. cmd @ '' '' @ arg) (if op_command_template opts = [] then ''%s'' else op_command_template opts) arguments"

text \<open>The version of \<^verbatim>\<open>relpath\<close> for interpreters without \<^verbatim>\<open>os.path.relpath\<close>.\<close>

fun commonprefix :: "'a list \<Rightarrow> 'a list \<Rightarrow> 'a list" where
  "commonprefix (x # xs) (y # ys) = (if x = y then x # commonprefix xs ys else [])"
| "commonprefix xs ys = []"

definition relpath_fallback :: "string \<Rightarrow> string \<Rightarrow> string \<Rightarrow> string res" where
  "relpath_fallback cwd p start =
     (if p = [] then Inl ValueError
      else
        (let start_list = split_on (CHR ''/'') (abspath cwd start);
             path_list = split_on (CHR ''/'') (abspath cwd p);
             i = length (commonprefix start_list path_list);
             rel_list = replicate (length start_list - i) ''..'' @ drop i path_list
         in Inr (case rel_list of [] \<Rightarrow> ''.'' | r # rs \<Rightarrow> foldl path_join r rs)))"

section \<open>Programs\<close>

definition in_launch_tree :: "build \<Rightarrow> task_gen \<Rightarrow> bool" where
  "in_launch_tree b obj =
     (let dir = abspath (b_cwd b) (b_launch_dir b) in starts_with (tg_path obj) dir \<or> starts_with (tg_bld obj) dir)"

definition program_names :: "build \<Rightarrow> task_gen \<Rightarrow> string list" where
  "program_names b obj =
     [tg_name obj, path_join (relpath (b_cwd b) (tg_path obj) (abspath (b_cwd b) (b_launch_dir b))) (tg_name obj)]"

fun find_program_loop :: "build \<Rightarrow> string \<Rightarrow> task_gen list \<Rightarrow> task_gen res" where
  "find_program_loop b program_name [] = Inl ValueError"
| "find_program_loop b program_name (obj # objs) =
     (if \<not> tg_is_ns3_program obj then find_program_loop b program_name objs
      else if \<not> in_launch_tree b obj then find_program_loop b program_name objs
      else if program_name \<in> set (program_names b obj) then Inr obj
      else find_program_loop b program_name objs)"

definition find_program :: "build \<Rightarrow> string \<Rightarrow> task_gen res" where
  "find_program b program_name = find_program_loop b program_name (all_task_gen b)"

section \<open>The environment of a process\<close>

definition pathvar :: "string \<Rightarrow> string" where
  "pathvar plat =
     (if plat = ''linux2'' \<or> plat = ''linux'' then ''LD_LIBRARY_PATH''
      else if plat = ''darwin'' then ''DYLD_LIBRARY_PATH''
      else if plat = ''win32'' then ''PATH''
      else if plat = ''cygwin'' then ''PATH''
      else ''LD_LIBRARY_PATH'')"

definition pathsep :: "string \<Rightarrow> string" where
  "pathsep plat = (if plat = ''win32'' then '';'' else '':'')"

definition put_before :: "string \<Rightarrow> string \<Rightarrow> string list \<Rightarrow> proc_env \<Rightarrow> proc_env" where
  "put_before sep var paths env =
     dict_set env var (join_with sep (case dict_get env var of None \<Rightarrow> paths | Some v \<Rightarrow> paths @ [v]))"

definition get_proc_env :: "build \<Rightarrow> proc_env option \<Rightarrow> proc_env res" where
  "get_proc_env b os_env =
     (let sep = pathsep (b_platform b);
          env0 = (case os_env of None \<Rightarrow> os_environ b | Some upd \<Rightarrow> foldl (\<lambda>e (k, v). dict_set e k v) (os_environ b) upd);
          env1 = put_before sep (pathvar (b_platform b)) (NS3_MODULE_PATH b) env0
      in case bindings_dir b of
           None \<Rightarrow> Inl AttributeError
         | Some pymoddir \<Rightarrow>
             (case visualizer_dir b of
                None \<Rightarrow> Inl AttributeError
              | Some pyvizdir \<Rightarrow>
                  Inr (put_before sep ''PATH'' (NS3_EXECUTABLE_PATH b) (put_before sep ''PYTHONPATH'' [pymoddir, pyvizdir] env1))))"

section \<open>Running a process\<close>

text \<open>
  A process ends with a return code and the text on its error stream, whose decoding may raise;
  creating it may raise.
\<close>

type_synonym popen = "string list \<Rightarrow> proc_env \<Rightarrow> string option \<Rightarrow> (int \<times> string res) res"

definition WafError :: "string \<Rightarrow> py_error" where
  "WafError message = PyException (''WafError: '' @ message)"

text \<open>\<^verbatim>\<open>for line in stderrdata\<close> runs over the characters of the text.\<close>

definition leak_found :: "string \<Rightarrow> bool" where
  "leak_found stderrdata = foldl (\<lambda>error line. if has_text [line] ''== LEAK SUMMARY'' then True else error) False stderrdata"

definition signal_name :: "(string \<times> int) list \<Rightarrow> int \<Rightarrow> string option" where
  "signal_name signals retval =
     (if retval < 0
      then map_option fst (find (\<lambda>(name, val). 3 < length name \<and> take 3 name = ''SIG'' \<and> name ! 3 \<noteq> CHR ''_'' \<and> val = - retval) signals)
      else None)"

definition check_retval :: "(string \<times> int) list \<Rightarrow> int \<Rightarrow> int res" where
  "check_retval signals retval =
     (if retval \<noteq> 0
      then (case signal_name signals retval of
              Some name \<Rightarrow> if name = [] then Inl (WafError (''exited with code '' @ show_int retval))
                           else Inl (WafError (''terminated with signal '' @ name))
            | None \<Rightarrow> Inl (WafError (''exited with code '' @ show_int retval)))
      else Inr retval)"

definition run_argv ::
  "popen \<Rightarrow> (string \<times> int) list \<Rightarrow> run_options \<Rightarrow> build \<Rightarrow> string list \<Rightarrow> proc_env option \<Rightarrow> string option \<Rightarrow> bool \<Rightarrow> int res" where
  "run_argv popen signals opts b argv os_env dir force_no_valgrind =
     rbind (get_proc_env b os_env) (\<lambda>proc_env.
     if op_valgrind opts \<and> op_command_template opts \<noteq> [] then Inl (WafError ''--command-template and --valgrind are conflicting'')
     else if op_gdb opts \<and> op_command_template opts \<noteq> [] then Inl (WafError ''--command-template and --gdb are conflicting'')
     else if op_gdb opts \<and> op_valgrind opts then Inl (WafError ''--valgrind and --gdb are conflicting'')
     else if op_gdb opts then rbind (popen ([''gdb'', ''--args''] @ argv) proc_env dir) (\<lambda>(retval, _). Inr retval)
     else if op_valgrind opts \<and> \<not> force_no_valgrind then
       (case VALGRIND b of
          [] \<Rightarrow> Inl (WafError ''valgrind is not installed'')
        | valgrind # _ \<Rightarrow>
            rbind (popen ([valgrind, ''--leak-check=full'', ''--show-reachable=yes'', ''--error-exitcode=1''] @ argv) proc_env dir) (\<lambda>(retval, err).
            rbind err (\<lambda>stderrdata.
            check_retval signals (if retval = 0 \<and> leak_found stderrdata then 1 else retval))))
     else
       (case popen argv proc_env dir of
          Inl e \<Rightarrow> if b_platform b = ''win32'' \<and> e = PyException ''WindowsError'' then Inl (WafError ''raised exception'') else Inl e
        | Inr (retval, _) \<Rightarrow> check_retval signals retval))"

section \<open>Command lines\<close>

definition strip_cc :: "string \<Rightarrow> string" where
  "strip_cc name = (if ends_with name ''.cc'' then take (length name - 3) name else name)"

definition escape_backslashes :: "string \<Rightarrow> string" where
  "escape_backslashes s = concat (map (\<lambda>c. if c = CHR 0x5C then [CHR 0x5C, CHR 0x5C] else [c]) s)"

definition find_or_waf_error :: "build \<Rightarrow> string \<Rightarrow> task_gen res" where
  "find_or_waf_error b name =
     (case find_program b name of
        Inl e \<Rightarrow> Inl (if e = ValueError then WafError (''program not found: '' @ name) else e)
      | Inr obj \<Rightarrow> Inr obj)"

definition get_run_program ::
  "(string \<Rightarrow> string list res) \<Rightarrow> build \<Rightarrow> string \<Rightarrow> string option \<Rightarrow> (string \<times> string list) res" where
  "get_run_program shlex_split b program_string command_template =
     (if command_template = None \<or> command_template = Some ''%s''
      then rbind (shlex_split program_string) (\<lambda>argv.
           rbind (py_index argv 0) (\<lambda>name.
           rbind (find_or_waf_error b (strip_cc name)) (\<lambda>obj.
           Inr (strip_cc name, tg_target obj # drop 1 argv))))
      else rbind (find_or_waf_error b (strip_cc program_string)) (\<lambda>obj.
           rbind (percent (the command_template) (Some (tg_target obj))) (\<lambda>tmpl.
           rbind (shlex_split (escape_backslashes tmpl)) (\<lambda>execvec.
           Inr (strip_cc program_string, execvec)))))"

definition visual_arg :: "bool \<Rightarrow> string list" where
  "visual_arg visualize = (if visualize then [''--SimulatorImplementationType=ns3::VisualSimulatorImpl''] else [])"

definition launch_cwd :: "run_options \<Rightarrow> string \<Rightarrow> string" where
  "launch_cwd opts cwd_launch = (if op_cwd_launch opts \<noteq> [] then op_cwd_launch opts else cwd_launch)"

definition run_program ::
  "popen \<Rightarrow> (string \<times> int) list \<Rightarrow> (string \<Rightarrow> string list res) \<Rightarrow> run_options \<Rightarrow> string \<Rightarrow> build \<Rightarrow> string \<Rightarrow> string option \<Rightarrow> string option \<Rightarrow> bool \<Rightarrow> int res" where
  "run_program popen signals shlex_split opts cwd_launch b program_string command_template dir visualize =
     rbind (get_run_program shlex_split b program_string command_template) (\<lambda>(_, execvec).
     run_argv popen signals opts b (execvec @ visual_arg visualize) None
       (Some (case dir of None \<Rightarrow> launch_cwd opts cwd_launch | Some d \<Rightarrow> d)) False)"

definition run_python_program ::
  "popen \<Rightarrow> (string \<times> int) list \<Rightarrow> (string \<Rightarrow> string list res) \<Rightarrow> run_options \<Rightarrow> string \<Rightarrow> build \<Rightarrow> string \<Rightarrow> bool \<Rightarrow> int res" where
  "run_python_program popen signals shlex_split opts cwd_launch b program_string visualize =
     rbind (shlex_split program_string) (\<lambda>execvec.
     rbind (py_index (PYTHON b) 0) (\<lambda>python.
     run_argv popen signals opts b ([python] @ execvec @ visual_arg visualize) None (Some (launch_cwd opts cwd_launch)) False))"

text \<open>\<^verbatim>\<open>uniquify_list\<close>: the comprehension adds each element that it keeps to \<^verbatim>\<open>seen\<close>.\<close>

fun uniquify_loop :: "'a set \<Rightarrow> 'a list \<Rightarrow> 'a list" where
  "uniquify_loop seen [] = []"
| "uniquify_loop seen (x # xs) = (if x \<notin> seen then x # uniquify_loop (insert x seen) xs else uniquify_loop seen xs)"

definition uniquify_list :: "'a list \<Rightarrow> 'a list" where
  "uniquify_list seq = uniquify_loop {} seq"

end
