(* ===== verification/Wutils_Correct.thy ===== *)
theory Wutils_Correct
  imports Wutils
begin

text \<open>
  Correctness of the runner of programs: the environment it builds, the outcome it reports, the
  arguments a template gives, and the fallback version of \<^verbatim>\<open>relpath\<close>.
\<close>

section \<open>Relative paths\<close>

text \<open>A component of a normalised absolute path.\<close>

definition plain :: "string \<Rightarrow> bool" where
  "plain c \<longleftrightarrow> c \<notin> {[], ''.'', ''..''} \<and> CHR ''/'' \<notin> set c"

lemma norm_comp_plain: "list_all plain comps \<Longrightarrow> CHR ''/'' \<notin> set c \<Longrightarrow> list_all plain (norm_comp True comps c)"
  by (cases comps rule: rev_cases) (auto simp: norm_comp_def plain_def)

lemma foldl_norm_plain:
  "list_all plain comps \<Longrightarrow> \<forall>c \<in> set cs. CHR ''/'' \<notin> set c \<Longrightarrow> list_all plain (foldl (norm_comp True) comps cs)"
  by (induction cs arbitrary: comps) (auto simp: norm_comp_plain)

lemma split_on_pieces: "w \<in> set (split_on c s) \<Longrightarrow> c \<notin> set w"
  by (induction c s arbitrary: w rule: split_on.induct) (auto split: list.splits if_splits)

lemma norm_comps_plain: "starts_with p ''/'' \<Longrightarrow> list_all plain (norm_comps p)"
  by (simp add: norm_comps_def foldl_norm_plain split_on_pieces)

lemma foldl_norm_id: "list_all plain comps \<Longrightarrow> list_all plain cs \<Longrightarrow> foldl (norm_comp True) comps cs = comps @ cs"
  by (induction cs arbitrary: comps) (auto simp: norm_comp_def plain_def)

lemma split_rooted:
  "list_all plain comps \<Longrightarrow> split_on (CHR ''/'') (CHR ''/'' # join_with ''/'' comps) = [] # (if comps = [] then [[]] else comps)"
  using split_on_append [of "CHR ''/''" "[]"] by (auto simp: split_join plain_def list_all_iff)

lemma norm_comps_rooted: "list_all plain comps \<Longrightarrow> norm_comps (CHR ''/'' # join_with ''/'' comps) = comps"
  unfolding norm_comps_def by (simp only: split_rooted) (auto simp: norm_comp_def foldl_norm_id)

text \<open>An absolute path that does not start with two slashes.\<close>

lemma abspath_cases:
  assumes "starts_with cwd ''/''" and "\<not> starts_with (abspath cwd p) ''//''"
  obtains comps where "list_all plain comps" "abspath cwd p = CHR ''/'' # join_with ''/'' comps"
proof -
  define q where "q = (if starts_with p ''/'' then p else path_join cwd p)"
  from assms(1) have q: "starts_with q ''/''" by (auto simp: q_def path_join_def starts_with_iff)
  have "abspath cwd p = normpath q" by (simp add: abspath_def q_def)
  with assms(2) q have "abspath cwd p = CHR ''/'' # join_with ''/'' (norm_comps q)"
    by (auto simp: normpath_def Let_def split: if_splits)
  with norm_comps_plain [OF q] that show thesis by blast
qed

lemma drop_common_prefix: "drop_common xs ys = (drop (length (commonprefix xs ys)) xs, drop (length (commonprefix xs ys)) ys)"
  by (induction xs ys rule: commonprefix.induct) auto

definition joinable :: "string \<Rightarrow> bool" where
  "joinable c \<longleftrightarrow> c \<noteq> [] \<and> CHR ''/'' \<notin> set c"

lemma path_join_joinable: "a \<noteq> [] \<Longrightarrow> last a \<noteq> CHR ''/'' \<Longrightarrow> joinable b \<Longrightarrow> path_join a b = a @ ''/'' @ b"
  by (cases a rule: rev_cases; cases b) (auto simp: path_join_def joinable_def ends_with_def)

lemma foldl_path_join:
  "a \<noteq> [] \<Longrightarrow> last a \<noteq> CHR ''/'' \<Longrightarrow> list_all joinable cs \<Longrightarrow> foldl path_join a cs = join_with ''/'' (a # cs)"
proof (induction cs arbitrary: a)
  case (Cons c cs)
  then have "last (a @ ''/'' @ c) \<noteq> CHR ''/''" by (auto simp: joinable_def dest: last_in_set)
  moreover have "foldl path_join a (c # cs) = foldl path_join (a @ ''/'' @ c) cs"
    using Cons.prems by (simp add: path_join_joinable)
  ultimately show ?case
    using Cons.IH [of "a @ ''/'' @ c"] Cons.prems by (cases cs) auto
qed simp

lemma joinable_rel:
  assumes "list_all plain ps"
  shows "list_all joinable (replicate k ''..'' @ drop n ps)"
proof -
  have "joinable c" if "plain c" for c using that by (simp add: joinable_def plain_def)
  with assms have "\<forall>c \<in> set ps. joinable c" by (simp add: list_all_iff)
  moreover have "joinable ''..''" by (simp add: joinable_def)
  ultimately show ?thesis
    using set_drop_subset [of n ps] unfolding list_all_iff set_append ball_Un set_replicate_conv_if
    by (cases "k = 0") auto
qed

lemma join_all:
  "list_all joinable cs \<Longrightarrow>
   (case cs of [] \<Rightarrow> ''.'' | r # rs \<Rightarrow> foldl path_join r rs) = (if cs = [] then ''.'' else join_with ''/'' cs)"
proof (cases cs)
  case (Cons r rs)
  moreover assume "list_all joinable cs"
  ultimately have "r \<noteq> []" "last r \<noteq> CHR ''/''" "list_all joinable rs" by (auto simp: joinable_def dest: last_in_set)
  with Cons show ?thesis by (simp add: foldl_path_join)
qed simp

text \<open>
  The version of \<^verbatim>\<open>relpath\<close> for old interpreters computes the same path as \<^verbatim>\<open>os.path.relpath\<close>
  whenever both or none of the two absolute paths are the root; for the root itself it does not.
\<close>

theorem relpath_fallback_equiv:
  assumes "starts_with cwd ''/''" and "p \<noteq> []"
    and "\<not> starts_with (abspath cwd p) ''//''" and "\<not> starts_with (abspath cwd start) ''//''"
    and "abspath cwd p = ''/'' \<longleftrightarrow> abspath cwd start = ''/''"
  shows "relpath_fallback cwd p start = Inr (relpath cwd p start)"
proof -
  obtain ps where ps: "list_all plain ps" "abspath cwd p = CHR ''/'' # join_with ''/'' ps"
    using abspath_cases assms by metis
  obtain ss where ss: "list_all plain ss" "abspath cwd start = CHR ''/'' # join_with ''/'' ss"
    using abspath_cases assms by metis
  have join_Nil: "join_with ''/'' cs = [] \<longleftrightarrow> cs = []" if "list_all plain cs" for cs
    using that by (cases cs; cases "tl cs") (auto simp: plain_def)
  let ?n = "length (commonprefix ss ps)"
  let ?r = "replicate (length ss - ?n) ''..'' @ drop ?n ps"
  have rel: "relpath cwd p start = (if ?r = [] then ''.'' else join_with ''/'' ?r)"
    by (simp add: relpath_def ps ss norm_comps_rooted drop_common_prefix)
  have "list_all joinable ?r"
    by (rule joinable_rel [OF ps(1)])
  note joined = join_all [OF this]
  show ?thesis
  proof (cases "ps = []")
    case True
    then have "ss = []" using assms(5) ps ss join_Nil by simp
    with True assms(2) show ?thesis by (simp add: relpath_fallback_def rel ps ss)
  next
    case False
    then have "ss \<noteq> []" using assms(5) ps ss join_Nil by simp
    with False assms(2) joined show ?thesis
      by (simp only: relpath_fallback_def Let_def ps(2) ss(2) split_rooted [OF ps(1)] split_rooted [OF ss(1)])
        (simp add: rel)
  qed
qed

lemma sample_paths: "abspath ''/ns3'' ''src'' = ''/ns3/src''" "abspath ''/ns3'' ''build'' = ''/ns3/build''"
proof -
  have "path_join ''/ns3'' ''src'' = ''/ns3/src''" "path_join ''/ns3'' ''build'' = ''/ns3/build''"
    by (simp_all add: path_join_def ends_with_def)
  moreover have "norm_comps ''/ns3/src'' = [''ns3'', ''src'']" "norm_comps ''/ns3/build'' = [''ns3'', ''build'']"
    by (simp_all add: norm_comps_def norm_comp_def)
  ultimately show "abspath ''/ns3'' ''src'' = ''/ns3/src''" "abspath ''/ns3'' ''build'' = ''/ns3/build''"
    by (simp_all add: abspath_def normpath_def Let_def)
qed

theorem relpath_fallback_equiv_witness:
  "relpath_fallback ''/ns3'' ''src'' ''build'' = Inr (relpath ''/ns3'' ''src'' ''build'')"
  using relpath_fallback_equiv [of "''/ns3''" "''src''" "''build''"] by (simp add: sample_paths)

section \<open>The environment of a process\<close>

text \<open>The environment that the user gives: the variables of the process, overridden by those given.\<close>

definition user_env :: "build \<Rightarrow> proc_env \<Rightarrow> string \<Rightarrow> string option" where
  "user_env b os_env = dict_get (os_environ b) ++ dict_get os_env"

definition before :: "build \<Rightarrow> string list \<Rightarrow> string option \<Rightarrow> string option" where
  "before b paths old = Some (join_with (pathsep (b_platform b)) (paths @ (case old of None \<Rightarrow> [] | Some v \<Rightarrow> [v])))"

lemma get_put_before:
  "dict_get (put_before (pathsep (b_platform b)) var paths env) = (dict_get env)(var := before b paths (dict_get env var))"
  by (simp add: put_before_def before_def fun_eq_iff split: option.splits)

lemma update_all: "is_dict upd \<Longrightarrow> dict_get (foldl (\<lambda>e (k, v). dict_set e k v) env upd) = dict_get env ++ dict_get upd"
  by (induction upd arbitrary: env) (auto simp: map_add_upd_left dom_map_of_conv_image_fst)

lemma pathvar_range: "pathvar plat \<in> {''LD_LIBRARY_PATH'', ''DYLD_LIBRARY_PATH'', ''PATH''}"
  by (simp add: pathvar_def)

text \<open>
  The environment of a program.  The module directories come before the user's value of the
  variable with which the platform finds libraries, the directories of the bindings and of the
  visualizer before the user's \<^verbatim>\<open>PYTHONPATH\<close>, the directories of executables before the user's
  \<^verbatim>\<open>PATH\<close> (and before the modules, where \<^verbatim>\<open>PATH\<close> is also the variable for libraries); every
  other variable has the user's value.
\<close>

theorem proc_env_correct:
  assumes "bindings_dir b = Some py" and "visualizer_dir b = Some viz" and "is_dict os_env"
  shows "\<exists>env. get_proc_env b (Some os_env) = Inr env
    \<and> dict_get env ''PYTHONPATH'' = before b [py, viz] (user_env b os_env ''PYTHONPATH'')
    \<and> (\<forall>v. v \<notin> {pathvar (b_platform b), ''PATH'', ''PYTHONPATH''} \<longrightarrow> dict_get env v = user_env b os_env v)
    \<and> (if pathvar (b_platform b) = ''PATH''
       then dict_get env ''PATH'' = before b (NS3_EXECUTABLE_PATH b) (before b (NS3_MODULE_PATH b) (user_env b os_env ''PATH''))
       else dict_get env (pathvar (b_platform b)) = before b (NS3_MODULE_PATH b) (user_env b os_env (pathvar (b_platform b)))
         \<and> dict_get env ''PATH'' = before b (NS3_EXECUTABLE_PATH b) (user_env b os_env ''PATH''))"
  using pathvar_range [of "b_platform b"]
  by (auto simp: get_proc_env_def Let_def assms get_put_before update_all user_env_def)

definition sample_build :: build where
  "sample_build =
     \<lparr>all_task_gen =
        [\<lparr>tg_name = ''hello'', tg_path = ''/ns3/scratch'', tg_bld = ''/ns3/build/scratch'', tg_target = ''/ns3/build/scratch/hello'',
          tg_is_ns3_program = True\<rparr>],
      NS3_MODULE_PATH = [''/ns3/build''], NS3_EXECUTABLE_PATH = [''/ns3/build/scratch''], VALGRIND = [''/usr/bin/valgrind''],
      PYTHON = [''/usr/bin/python''], bindings_dir = Some ''/ns3/build/bindings/python'',
      visualizer_dir = Some ''/ns3/src/visualizer'', b_platform = ''linux'', os_environ = [(''PATH'', ''/bin'')],
      b_cwd = ''/ns3'', b_launch_dir = ''/ns3''\<rparr>"

theorem proc_env_correct_witness:
  "\<exists>env. get_proc_env sample_build (Some []) = Inr env \<and> dict_get env ''PATH'' = Some ''/ns3/build/scratch:/bin''"
  using proc_env_correct [of sample_build "''/ns3/build/bindings/python''" "''/ns3/src/visualizer''" "[]"]
  by (auto simp: sample_build_def before_def pathvar_def pathsep_def user_env_def)

section \<open>The outcome of a run\<close>

lemma has_text_length: "has_text s needle \<Longrightarrow> length needle \<le> length s"
  by (auto simp: has_text_def list_ex_iff starts_with_iff dest: arg_cong [of _ _ length])

lemma no_leak_found [simp]: "leak_found s = False"
proof -
  have "\<not> has_text [c] ''== LEAK SUMMARY''" for c
    using has_text_length [of "[c]" "''== LEAK SUMMARY''"] by auto
  then show ?thesis unfolding leak_found_def by (induction s) auto
qed

lemma check_retval_cases: "check_retval signals code = (if code = 0 then Inr 0 else Inl (projl (check_retval signals code)))"
  by (auto simp: check_retval_def split: option.splits)

definition waf_errors :: "py_error set" where
  "waf_errors = range WafError"

lemma check_retval_error: "code \<noteq> 0 \<Longrightarrow> \<exists>e \<in> waf_errors. check_retval signals code = Inl e"
  by (auto simp: check_retval_def waf_errors_def split: option.splits)

text \<open>The command that is run for a command line.\<close>

definition full_command :: "run_options \<Rightarrow> build \<Rightarrow> bool \<Rightarrow> string list \<Rightarrow> string list" where
  "full_command opts b force_no_valgrind argv =
     (if op_gdb opts then [''gdb'', ''--args''] @ argv
      else if op_valgrind opts \<and> \<not> force_no_valgrind
      then [hd (VALGRIND b), ''--leak-check=full'', ''--show-reachable=yes'', ''--error-exitcode=1''] @ argv
      else argv)"

definition conflicting :: "run_options \<Rightarrow> bool" where
  "conflicting opts \<longleftrightarrow>
     (op_valgrind opts \<and> op_command_template opts \<noteq> []) \<or> (op_gdb opts \<and> op_command_template opts \<noteq> []) \<or> (op_gdb opts \<and> op_valgrind opts)"

text \<open>
  C27: The outcome of a run is decided by the return code alone: without conflicting options, a run
  that starts succeeds if the code is 0 and raises \<^verbatim>\<open>WafError\<close> otherwise, except that under gdb it
  returns the code.  Under valgrind the search for a leak summary never finds one, whatever valgrind
  prints, since it looks at single characters.
\<close>

theorem run_argv_outcome:
  assumes "get_proc_env b os_env = Inr env" and "\<not> conflicting opts" and "VALGRIND b \<noteq> []"
    and "popen (full_command opts b force_no_valgrind argv) env dir = Inr (code, Inr stderrdata)"
  shows "if op_gdb opts \<or> code = 0
         then run_argv popen signals opts b argv os_env dir force_no_valgrind = Inr code
         else \<exists>e \<in> waf_errors. run_argv popen signals opts b argv os_env dir force_no_valgrind = Inl e"
proof -
  obtain v vs where v: "VALGRIND b = v # vs" using assms(3) by (cases "VALGRIND b") auto
  show ?thesis
  proof (cases "op_gdb opts")
    case True
    with assms show ?thesis by (auto simp: run_argv_def conflicting_def full_command_def)
  next
    case False
    then have "run_argv popen signals opts b argv os_env dir force_no_valgrind = check_retval signals code"
      using assms by (auto simp: run_argv_def conflicting_def full_command_def v)
    with False check_retval_error [of code signals] show ?thesis
      by (auto simp: check_retval_def)
  qed
qed

theorem run_argv_outcome_witness:
  "run_argv (\<lambda>_ _ _. Inr (0, Inr ''== LEAK SUMMARY'')) [] \<lparr>op_command_template = [], op_valgrind = True, op_gdb = False, op_cwd_launch = []\<rparr>
     sample_build [''prog''] None None False = Inr 0"
proof -
  let ?opts = "\<lparr>op_command_template = [], op_valgrind = True, op_gdb = False, op_cwd_launch = []\<rparr>"
  obtain env where "get_proc_env sample_build None = Inr env" by (simp add: get_proc_env_def Let_def sample_build_def)
  moreover have "VALGRIND sample_build \<noteq> []" by (simp add: sample_build_def)
  ultimately show ?thesis
    using run_argv_outcome [of sample_build None env ?opts "\<lambda>_ _ _. Inr (0, Inr ''== LEAK SUMMARY'')" False "[''prog'']" None 0 "''== LEAK SUMMARY''" "[]"]
    by (simp add: conflicting_def)
qed

end
