(* ===== verification/Nice_Units.thy ===== *)
theory Nice_Units
  imports Py_Num
begin

text \<open>
  \<^verbatim>\<open>nice_units\<close> of \<^verbatim>\<open>src/source/ns-3-dev/bindings/python/rad_util.py\<close>: a number with the prefix
  that suits its magnitude.  As the file is a Python 2 program, dividing two integers rounds down.
\<close>

section \<open>Rounding and formatting\<close>

text \<open>\<^verbatim>\<open>round(r, dp)\<close> of Python 2: halves away from zero.\<close>

definition round_away :: "rat \<Rightarrow> nat \<Rightarrow> rat" where
  "round_away r dp = (if r < 0 then - 1 else 1) * of_int \<lfloor>\<bar>r\<bar> * 10 ^ dp + 1 / 2\<rfloor> / 10 ^ dp"

text \<open>
  \<^verbatim>\<open>"%.ng" % r\<close>: the decimal exponent of \<open>r\<close>, its significant digits, and fixed or exponential
  notation without trailing zeros.
\<close>

definition decimal_exponent :: "rat \<Rightarrow> int" where
  "decimal_exponent r =
     (let (n, d) = quotient_of \<bar>r\<bar>; k = int (length (show_int n)) - int (length (show_int d))
      in if scale10 k 1 \<le> \<bar>r\<bar> then k else k - 1)"

definition significant :: "nat \<Rightarrow> rat \<Rightarrow> nat \<times> int" where
  "significant p r =
     (let x = decimal_exponent r; m = nat (round_even (scale10 (int p - 1 - x) \<bar>r\<bar>))
      in if m = 10 ^ p then (10 ^ (p - 1), x + 1) else (m, x))"

definition strip_zeros :: "string \<Rightarrow> string" where
  "strip_zeros s =
     (if CHR ''.'' \<in> set s
      then (let t = rev (dropWhile (\<lambda>c. c = CHR ''0'') (rev s)) in if last t = CHR ''.'' then butlast t else t)
      else s)"

definition exponent_text :: "int \<Rightarrow> string" where
  "exponent_text x =
     (let ds = show_int \<bar>x\<bar> in (if x < 0 then ''e-'' else ''e+'') @ (if length ds < 2 then CHR ''0'' # ds else ds))"

definition format_general :: "nat \<Rightarrow> rat \<Rightarrow> string" where
  "format_general n r =
     (let p = max 1 n in
      if r = 0 then ''0''
      else
        (let (m, x) = significant p r; sgn = (if r < 0 then ''-'' else []) in
         if - 4 \<le> x \<and> x < int p
         then sgn @ strip_zeros (format_fixed (nat (int p - 1 - x)) (scale10 (x - (int p - 1)) (of_nat m)))
         else sgn @ strip_zeros (format_fixed (p - 1) (of_nat m / 10 ^ (p - 1))) @ exponent_text x))"

section \<open>Prefixes\<close>

type_synonym prefix_table = "(pynum, string \<times> string) dict"

definition si_prefixes :: prefix_table where
  "si_prefixes =
     [(PFloat (10 ^ 24), ''Y'', ''yotta''), (PFloat (10 ^ 21), ''Z'', ''zetta''), (PFloat (10 ^ 18), ''E'', ''exa''),
      (PFloat (10 ^ 15), ''P'', ''peta''), (PFloat (10 ^ 12), ''T'', ''tera''), (PFloat (10 ^ 9), ''G'', ''giga''),
      (PFloat (10 ^ 6), ''M'', ''mega''), (PFloat (10 ^ 3), ''k'', ''kilo''), (PFloat (1 / 10 ^ 3), ''m'', ''milli''),
      (PFloat (1 / 10 ^ 6), ''u'', ''micro''), (PFloat (1 / 10 ^ 9), ''n'', ''nano''), (PFloat (1 / 10 ^ 12), ''p'', ''pico''),
      (PFloat (1 / 10 ^ 15), ''f'', ''femto''), (PFloat (1 / 10 ^ 18), ''a'', ''atto''), (PFloat (1 / 10 ^ 21), ''z'', ''zepto''),
      (PFloat (1 / 10 ^ 24), ''y'', ''yocto'')]"

definition extra_prefixes :: prefix_table where
  "extra_prefixes =
     [(PFloat (10 ^ 2), ''h'', ''hecto''), (PFloat 10, ''da'', ''deka''), (PFloat (1 / 10), ''d'', ''deci''),
      (PFloat (1 / 10 ^ 2), ''c'', ''centi'')]"

definition bin_prefixes :: prefix_table where
  "bin_prefixes =
     [(PInt (2 ^ 10), ''K'', ''kilo''), (PInt (2 ^ 20), ''M'', ''mega''), (PInt (2 ^ 30), ''G'', ''mega''),
      (PInt (2 ^ 40), ''T'', ''tera''), (PInt (2 ^ 50), ''P'', ''peta''), (PInt (2 ^ 60), ''E'', ''exa'')]"

definition prefixes_of :: "string \<Rightarrow> bool \<Rightarrow> prefix_table" where
  "prefixes_of mode use_extra_prefixes =
     (if mode = ''bin'' then bin_prefixes else if use_extra_prefixes then si_prefixes @ extra_prefixes else si_prefixes)
     @ [(PInt 1, [], [])]"

definition multipliers_of :: "prefix_table \<Rightarrow> pynum list" where
  "multipliers_of table = sort_key pval (dict_keys table)"

section \<open>The function\<close>

text \<open>The loop over neighbouring multipliers.\<close>

fun find_mult :: "pynum \<Rightarrow> pynum list \<Rightarrow> nat \<Rightarrow> nat option" where
  "find_mult value (lower_mult # upper_mult # rest) i =
     (if lower_mult \<le> value \<and> value < upper_mult then Some i else find_mult value (upper_mult # rest) (i + 1))"
| "find_mult value ms i = None"

definition mult_index :: "pynum \<Rightarrow> pynum list \<Rightarrow> nat res" where
  "mult_index value multipliers =
     (if value < hd multipliers then Inr 0
      else if last multipliers \<le> value then Inr (length multipliers - 1)
      else case find_mult value multipliers 0 of None \<Rightarrow> Inl UnboundLocalError | Some i \<Rightarrow> Inr i)"

text \<open>The multiplier that is used in the end, and the value in its unit.\<close>

definition choose_mult :: "pynum \<Rightarrow> pynum list \<Rightarrow> nat \<Rightarrow> nat option \<Rightarrow> pynum \<times> pynum" where
  "choose_mult value multipliers i dp =
     (let mult = multipliers ! i; new_value = num_quot value mult in
      case dp of
        Some d \<Rightarrow>
          if i < length multipliers - 1
             \<and> round_away (pval new_value) d = round_away (pval (num_quot (multipliers ! (i + 1)) mult)) d
          then (multipliers ! (i + 1), num_quot value (multipliers ! (i + 1)))
          else (mult, new_value)
      | None \<Rightarrow> (mult, new_value))"

definition nice_units :: "pynum \<Rightarrow> int \<Rightarrow> int option \<Rightarrow> string \<Rightarrow> string \<Rightarrow> bool \<Rightarrow> bool \<Rightarrow> string \<Rightarrow> string res" where
  "nice_units value dp sigfigs suffix space use_extra_prefixes use_full_name mode =
     (let table = prefixes_of mode use_extra_prefixes; multipliers = multipliers_of table in
      rbind (mult_index value multipliers) (\<lambda>i.
      case sigfigs of
        None \<Rightarrow>
          if dp < 0 then Inl ValueError
          else
            (let (mult, new_value) = choose_mult value multipliers i (Some (nat dp)) in
             rbind (dict_lookup table mult) (\<lambda>label.
             Inr (format_fixed (nat dp) (pval new_value) @ space @ (if use_full_name then snd label else fst label) @ suffix)))
      | Some n \<Rightarrow>
          if n < 0 then Inl ValueError
          else
            (let (mult, new_value) = choose_mult value multipliers i None in
             rbind (dict_lookup table mult) (\<lambda>label.
             Inr (format_general (nat n) (pval new_value) @ space @ (if use_full_name then snd label else fst label) @ suffix)))))"

end
