(* ===== verification/Nice_Units_Correct.thy ===== *)
theory Nice_Units_Correct
  imports Nice_Units
begin

text \<open>Correctness of \<^verbatim>\<open>nice_units\<close>: the prefix fits the number that is printed.\<close>

section \<open>Rounding\<close>

lemma round_even_le: "round_even x \<le> \<lfloor>x + 1 / 2\<rfloor>"
  by (auto simp: round_even_def Let_def le_floor_iff) linarith+

lemma round_even_ge: "of_int n \<le> x \<Longrightarrow> n \<le> round_even x"
proof -
  assume "of_int n \<le> x"
  then have "n \<le> \<lfloor>x\<rfloor>" by (simp add: le_floor_iff)
  then show ?thesis by (auto simp: round_even_def Let_def)
qed

lemma round_even_near: "of_int n - 1 / 2 < x \<Longrightarrow> x \<le> of_int n \<Longrightarrow> round_even x = n"
proof (cases "x = of_int n")
  case False
  assume "of_int n - 1 / 2 < x" "x \<le> of_int n"
  with False have "\<lfloor>x\<rfloor> = n - 1" by (simp add: floor_eq_iff)
  with \<open>of_int n - 1 / 2 < x\<close> show ?thesis by (simp add: round_even_def Let_def)
qed (simp add: round_even_def)

section \<open>The multipliers\<close>

lemma find_mult_Some:
  assumes "ms \<noteq> []" "hd ms \<le> v" "v < last ms"
  shows "\<exists>i. find_mult v ms k = Some (k + i) \<and> i + 1 < length ms \<and> ms ! i \<le> v \<and> v < ms ! (i + 1)"
  using assms
proof (induction v ms k rule: find_mult.induct)
  case (1 v lower upper rest i)
  show ?case
  proof (cases "v < upper")
    case True
    with 1 show ?thesis by (intro exI [of _ 0]) auto
  next
    case False
    then have "upper \<le> v" by (simp add: num_order)
    with 1 False obtain j where "find_mult v (upper # rest) (i + 1) = Some (i + 1 + j)" "j + 1 < length (upper # rest)"
        "(upper # rest) ! j \<le> v" "v < (upper # rest) ! (j + 1)"
      by auto
    with False show ?thesis by (intro exI [of _ "j + 1"]) auto
  qed
qed (auto simp: num_order)

definition si_multipliers :: "pynum list" where
  "si_multipliers =
     map (\<lambda>k. PFloat (1 / 10 ^ (3 * k))) (rev [1..<9]) @ [PInt 1] @ map (\<lambda>k. PFloat (10 ^ (3 * k))) [1..<9]"

lemma multipliers_si: "mode \<noteq> ''bin'' \<Longrightarrow> multipliers_of (prefixes_of mode False) = si_multipliers"
proof -
  have "multipliers_of (prefixes_of ''si'' False) = si_multipliers" by code_simp
  then show "mode \<noteq> ''bin'' \<Longrightarrow> ?thesis" by (simp add: prefixes_of_def)
qed

lemma si_multipliers_length: "length si_multipliers = 17"
  by (simp add: si_multipliers_def)

lemma si_positive: "m \<in> set si_multipliers \<Longrightarrow> 0 < pval m"
  by (auto simp: si_multipliers_def)

lemma si_quot: "m \<in> set si_multipliers \<Longrightarrow> pval (num_quot v m) = pval v / pval m"
  by (cases v) (auto simp: si_multipliers_def)

lemma si_step: "i + 1 < length si_multipliers \<Longrightarrow> pval (si_multipliers ! (i + 1)) = 1000 * pval (si_multipliers ! i)"
proof -
  have "list_all (\<lambda>i. pval (si_multipliers ! (i + 1)) = 1000 * pval (si_multipliers ! i)) [0..<16]" by code_simp
  then show "i + 1 < length si_multipliers \<Longrightarrow> ?thesis" by (simp add: list_all_iff si_multipliers_length)
qed

lemma si_labels: "mode \<noteq> ''bin'' \<Longrightarrow> m \<in> set si_multipliers \<Longrightarrow> \<exists>label. dict_get (prefixes_of mode False) m = Some label"
proof -
  have "set si_multipliers = set (dict_keys (prefixes_of ''si'' False))" by code_simp
  then have "m \<in> set si_multipliers \<Longrightarrow> m \<in> dom (dict_get (prefixes_of ''si'' False))" by (simp only: dom_dict_get)
  moreover have "mode \<noteq> ''bin'' \<Longrightarrow> prefixes_of mode False = prefixes_of ''si'' False" by (simp add: prefixes_of_def)
  ultimately show "mode \<noteq> ''bin'' \<Longrightarrow> m \<in> set si_multipliers \<Longrightarrow> ?thesis" by (auto simp: dom_def)
qed

section \<open>The printed number\<close>

lemma round_away_nonneg: "0 \<le> r \<Longrightarrow> round_away r d = of_int \<lfloor>r * 10 ^ d + 1 / 2\<rfloor> / 10 ^ d"
  by (simp add: round_away_def)

lemma round_away_1000: "round_away 1000 d = 1000"
proof -
  have "\<lfloor>(1000 * 10 ^ d :: rat) + 1 / 2\<rfloor> = 1000 * 10 ^ d"
    by (rule floor_unique) simp_all
  then show ?thesis by (simp add: round_away_def)
qed

text \<open>A number in its unit, from 1 up to 1000, either rounds below 1000 or fills the next unit.\<close>

lemma rounds_below:
  assumes "1 \<le> r" "r < 1000" "round_away r d \<noteq> 1000"
  shows "10 ^ d \<le> round_even (r * 10 ^ d) \<and> round_even (r * 10 ^ d) < 1000 * 10 ^ d"
proof -
  have "r * 10 ^ d + 1 / 2 < 1000 * 10 ^ d + 1" using assms(2) by (intro add_strict_mono mult_strict_right_mono) auto
  then have "\<lfloor>r * 10 ^ d + 1 / 2\<rfloor> \<le> 1000 * 10 ^ d" by (simp add: floor_le_iff)
  moreover have "\<lfloor>r * 10 ^ d + 1 / 2\<rfloor> \<noteq> 1000 * 10 ^ d"
  proof
    assume "\<lfloor>r * 10 ^ d + 1 / 2\<rfloor> = 1000 * 10 ^ d"
    with assms(1,3) show False by (simp add: round_away_nonneg)
  qed
  moreover have "of_int (10 ^ d) \<le> r * 10 ^ d" using assms(1) by (simp add: mult_le_cancel_right1)
  ultimately show ?thesis using round_even_le [of "r * 10 ^ d"] round_even_ge [of "10 ^ d" "r * 10 ^ d"] by linarith
qed

lemma rounds_to_next:
  assumes "1 \<le> r" "r < 1000" "round_away r d = 1000"
  shows "round_even (r / 1000 * 10 ^ d) = 10 ^ d"
proof -
  have "\<lfloor>r * 10 ^ d + 1 / 2\<rfloor> = 1000 * 10 ^ d"
  proof -
    have "of_int \<lfloor>r * 10 ^ d + 1 / 2\<rfloor> = (1000 * 10 ^ d :: rat)"
      using assms(1,3) by (simp add: round_away_nonneg field_simps)
    then have "of_int \<lfloor>r * 10 ^ d + 1 / 2\<rfloor> = (of_int (1000 * 10 ^ d) :: rat)" by simp
    then show ?thesis by (simp only: of_int_eq_iff)
  qed
  then have "1000 * 10 ^ d \<le> r * 10 ^ d + 1 / 2" by (simp add: floor_eq_iff)
  moreover have "r * 10 ^ d \<le> 1000 * 10 ^ d" using assms(2) by simp
  ultimately show ?thesis by (intro round_even_near) (auto simp: field_simps)
qed

lemma choose_si:
  assumes "i + 1 < length si_multipliers" "si_multipliers ! i \<le> v" "v < si_multipliers ! (i + 1)"
    and "choose_mult v si_multipliers i (Some d) = (mu, m)"
  shows "mu \<in> set si_multipliers \<and> pval m * pval mu = pval v
    \<and> 10 ^ d \<le> round_even (pval m * 10 ^ d) \<and> round_even (pval m * 10 ^ d) < 1000 * 10 ^ d"
proof -
  let ?lower = "si_multipliers ! i" and ?upper = "si_multipliers ! (i + 1)"
  have mem: "?lower \<in> set si_multipliers" "?upper \<in> set si_multipliers" using assms(1) by simp_all
  have pos: "0 < pval ?lower" "0 < pval ?upper" using mem si_positive by auto
  have up: "pval ?upper = 1000 * pval ?lower" by (rule si_step [OF assms(1)])
  let ?r = "pval v / pval ?lower"
  have r: "1 \<le> ?r" "?r < 1000" using assms(2,3) pos(1) up by (simp_all add: num_order field_simps)
  have next_unit: "pval (num_quot ?upper ?lower) = 1000" using si_quot [OF mem(1), of ?upper] up pos(1) by simp
  have quot: "pval (num_quot v ?lower) = ?r" "pval (num_quot v ?upper) = ?r / 1000"
    using si_quot [OF mem(1)] si_quot [OF mem(2)] up by (simp_all add: field_simps)
  show ?thesis
  proof (cases "round_away ?r d = 1000")
    case True
    then have "mu = ?upper" "m = num_quot v ?upper"
      using assms(1,4) quot next_unit by (auto simp: choose_mult_def Let_def round_away_1000 split: if_splits)
    moreover from this have "pval m = ?r / 1000" "pval m * pval mu = pval v" using quot(2) pos up by simp_all
    ultimately show ?thesis using mem(2) rounds_to_next [OF r True] by simp
  next
    case False
    then have "mu = ?lower" "m = num_quot v ?lower"
      using assms(1,4) quot next_unit by (auto simp: choose_mult_def Let_def round_away_1000 split: if_splits)
    with mem(1) pos quot(1) rounds_below [OF r False] show ?thesis by auto
  qed
qed

text \<open>
  C29: A number from a septillionth up to a septillion gets the SI prefix for which the printed number is
  right: value and unit multiply to the number that was given, and the number that is printed, after
  rounding to the wanted decimal places, is at least 1 and less than 1000.
\<close>

theorem nice_units_mantissa:
  assumes "mode \<noteq> ''bin''" and "1 / 10 ^ 24 \<le> pval v" and "pval v < 10 ^ 24" and "0 \<le> dp"
  shows "\<exists>mu label m. dict_get (prefixes_of mode False) mu = Some label \<and> pval m * pval mu = pval v
    \<and> nice_units v dp None suff space False full mode
       = Inr (format_fixed (nat dp) (pval m) @ space @ (if full then snd label else fst label) @ suff)
    \<and> 10 ^ nat dp \<le> round_even (pval m * 10 ^ nat dp) \<and> round_even (pval m * 10 ^ nat dp) < 1000 * 10 ^ nat dp"
proof -
  have ends: "pval (hd si_multipliers) = 1 / 10 ^ 24" "pval (last si_multipliers) = 10 ^ 24"
    by code_simp+
  then have range: "hd si_multipliers \<le> v" "v < last si_multipliers" "si_multipliers \<noteq> []"
    using assms(2,3) by (auto simp: num_order si_multipliers_def)
  then have outer: "\<not> v < hd si_multipliers" "\<not> last si_multipliers \<le> v" by (simp_all add: num_order)
  obtain i where i: "find_mult v si_multipliers 0 = Some i" "i + 1 < length si_multipliers"
      "si_multipliers ! i \<le> v" "v < si_multipliers ! (i + 1)"
    using find_mult_Some [OF range(3,1,2), of 0] by auto
  obtain mu m where chosen: "choose_mult v si_multipliers i (Some (nat dp)) = (mu, m)" by fastforce
  note fits = choose_si [OF i(2-4) chosen]
  obtain label where label: "dict_get (prefixes_of mode False) mu = Some label"
    using si_labels [OF assms(1)] fits by blast
  have "mult_index v si_multipliers = Inr i" using i(1) outer by (simp add: mult_index_def)
  then have "nice_units v dp None suff space False full mode
       = Inr (format_fixed (nat dp) (pval m) @ space @ (if full then snd label else fst label) @ suff)"
    using assms(1,4) label by (simp add: nice_units_def multipliers_si chosen dict_lookup_Some)
  with fits label show ?thesis by blast
qed

theorem nice_units_mantissa_witness:
  "\<exists>label m. nice_units (PFloat 25000) 1 None [] '' '' False False ''si'' = Inr (format_fixed 1 m @ '' '' @ label)
     \<and> 10 \<le> round_even (m * 10) \<and> round_even (m * 10) < 10000"
proof -
  have "1 / 10 ^ 24 \<le> pval (PFloat 25000)" "pval (PFloat 25000) < 10 ^ 24" by simp_all
  from nice_units_mantissa [of "''si''", OF _ this, of 1 "[]" "'' ''" False] show ?thesis by auto
qed

text \<open>
  Zero and every negative number get the smallest prefix: they are printed in the unit yocto, so
  that \<^verbatim>\<open>-5\<close> becomes a number of 25 digits.
\<close>

theorem nice_units_small:
  assumes "mode \<noteq> ''bin''" and "pval v \<le> 0" and "0 \<le> dp"
  shows "nice_units v dp None suff space False False mode
    = Inr (format_fixed (nat dp) (pval v * 10 ^ 24) @ space @ ''y'' @ suff)"
proof -
  have first: "hd si_multipliers = PFloat (1 / 10 ^ 24)" "si_multipliers ! 0 = PFloat (1 / 10 ^ 24)"
    by code_simp+
  have "mult_index v si_multipliers = Inr 0"
    using assms(2) by (simp add: mult_index_def num_order first)
  moreover have away: "round_away (pval v * 10 ^ 24) (nat dp) \<noteq> 1000"
  proof -
    have half: "\<lfloor>1 / 2 :: rat\<rfloor> = 0" by (rule floor_unique) simp_all
    have "0 \<le> \<lfloor>\<bar>pval v * 10 ^ 24\<bar> * 10 ^ nat dp + 1 / 2\<rfloor>" by simp
    then have "round_away (pval v * 10 ^ 24) (nat dp) \<le> 0"
      using assms(2) half by (cases "pval v = 0") (auto simp: round_away_def mult_less_0_iff)
    then show ?thesis by linarith
  qed
  have quot: "pval (num_quot v (PFloat (1 / 10 ^ 24))) = pval v * 10 ^ 24" by (simp add: num_quot_float)
  have "pval (num_quot (si_multipliers ! (0 + 1)) (PFloat (1 / 10 ^ 24))) = 1000" by code_simp
  then have "choose_mult v si_multipliers 0 (Some (nat dp)) = (PFloat (1 / 10 ^ 24), num_quot v (PFloat (1 / 10 ^ 24)))"
    unfolding choose_mult_def Let_def first option.case quot by (simp only: round_away_1000 away simp_thms if_False)
  moreover have "dict_get (prefixes_of ''si'' False) (PFloat (1 / 10 ^ 24)) = Some (''y'', ''yocto'')" by code_simp
  moreover have "prefixes_of mode False = prefixes_of ''si'' False" using assms(1) by (simp add: prefixes_of_def)
  moreover have "\<not> dp < 0" using assms(3) by simp
  ultimately show ?thesis
    unfolding nice_units_def multipliers_si [OF assms(1)] Let_def
    by (simp only: rbind_simps option.case split_conv dict_lookup_Some quot if_False fst_conv append.assoc simp_thms)
qed

theorem nice_units_small_witness:
  "nice_units (PInt 0) 0 None [] '' '' False False ''si'' = Inr (format_fixed 0 0 @ '' y'')"
  using nice_units_small [of "''si''" "PInt 0" 0 "[]" "'' ''"] by simp

end
