(* ===== verification/Patterns_Correct.thy ===== *)
theory Patterns_Correct
  imports Grid_Data Check_Style Shellcmd Py_Regex
begin

text \<open>
  The line readers of \<open>Grid_Data\<close>, \<open>Check_Style\<close> and \<open>Shellcmd\<close> match their patterns with
  functions written for the purpose.  Here these are compared with the backtracking matcher of
  \<open>Py_Regex\<close> on the patterns as the sources have them.
\<close>

section \<open>The patterns\<close>

definition word :: "nat \<Rightarrow> rx" where
  "word n = Grp n (Plus (One (\<lambda>c. c \<noteq> CHR '' '')))"

definition number :: "nat \<Rightarrow> rx" where
  "number n = Grp n (Plus (One is_digit))"

definition hex2 :: "nat \<Rightarrow> rx" where
  "hex2 n = Grp n (Seq (One is_hex) (One is_hex))"

definition m1_rx :: rx where
  "m1_rx = seqs [lit ''range '', word 1, lit '' '', word 2, lit '' '', word 3, lit '' '', number 4, lit '' '', number 5]"

definition m2_rx :: rx where
  "m2_rx = seqs [lit ''event-str '', word 1, lit '' '', word 2, lit '' '', word 3, lit '' '', number 4]"

definition m3_rx :: rx where
  "m3_rx = seqs [lit ''event-int '', word 1, lit '' '', word 2, lit '' '', number 3, lit '' '', number 4]"

definition m4_rx :: rx where
  "m4_rx = seqs [lit ''color '', word 1, lit '' '', lit ''#'', hex2 2, hex2 3, hex2 4]"

text \<open>\<^verbatim>\<open>^--- (.*)$\<close> and its five likes.\<close>

definition rest_rx :: "string \<Rightarrow> rx" where
  "rest_rx start = seqs [lit start, Grp 1 (Star Dot), Dollar]"

definition chunk_rx :: rx where
  "chunk_rx =
     seqs [lit ''@@ -'', number 1, lit '','', number 2, lit '' +'', number 3, lit '','', number 4, lit '' @@'']"

definition env_var_rx :: rx where
  "env_var_rx = seqs [Grp 1 (Plus (One is_word)), lit ''='', Grp 2 (Plus (One (\<lambda>c. \<not> is_space c))), Dollar]"

definition grp :: "(nat \<times> string) list \<Rightarrow> nat \<Rightarrow> string" where
  "grp gs n = the (group gs n)"

section \<open>One step of a pattern\<close>

lemma first_groups_simps [simp]: "first_groups [] = None" "first_groups (m # ms) = Some (fst m)"
  by (simp_all add: first_groups_def)

lemma literal_step:
  "matches (Seq (lit w) b) (gs, s) = (case match_literal w s of None \<Rightarrow> [] | Some t \<Rightarrow> matches b (gs, t))"
  by (simp add: match_literal_def)

lemma word_step:
  "matches (Seq (word n) (Seq (lit '' '') b)) (gs, s) = (case match_word s of None \<Rightarrow> [] | Some (w, t) \<Rightarrow> matches b ((n, w) # gs, t))"
proof -
  have "starts_with (dropWhile (\<lambda>c. c \<noteq> CHR '' '') s) '' '' \<longleftrightarrow> dropWhile (\<lambda>c. c \<noteq> CHR '' '') s \<noteq> []"
    by (induction s) (auto simp: starts_with_def)
  then show ?thesis
    unfolding word_def by (subst seq_group_plus) (auto simp: match_word_def Let_def seq_lit drop_Suc)
qed

lemma number_step:
  assumes "refuses b is_digit"
  shows "matches (Seq (number n) b) (gs, s) = (case match_number s of None \<Rightarrow> [] | Some (d, t) \<Rightarrow> matches b ((n, d) # gs, t))"
  unfolding number_def by (subst seq_group_plus [OF assms]) (auto simp: match_number_def Let_def)

lemma number_end:
  "first_groups (matches (number n) (gs, s)) = (case match_number s of None \<Rightarrow> None | Some (d, t) \<Rightarrow> Some ((n, d) # gs))"
  unfolding number_def hd_group_plus by (simp add: match_number_def Let_def)

lemma hex_step:
  "matches (Seq (hex2 n) b) (gs, s) = (case match_hex2 s of None \<Rightarrow> [] | Some (h, t) \<Rightarrow> matches b ((n, h) # gs, t))"
  by (cases s; cases "tl s") (auto simp: hex2_def match_hex2_def)

lemma hex_end: "matches (hex2 n) (gs, s) = (case match_hex2 s of None \<Rightarrow> [] | Some (h, t) \<Rightarrow> [((n, h) # gs, t)])"
  by (cases s; cases "tl s") (auto simp: hex2_def match_hex2_def)

lemma refuses_digit: "refuses (Seq (lit '' '') b) is_digit" "refuses (Seq (lit '','') b) is_digit" "refuses (Seq (lit '' +'') b) is_digit"
    "refuses (lit '' @@'') is_digit"
  by (auto intro!: refuses_Seq simp: is_digit_def)

lemmas steps = literal_step word_step number_step [OF refuses_digit(1)] number_end hex_step hex_end

lemma grid_patterns:
  "map_option (\<lambda>gs. (grp gs 1, grp gs 2, grp gs 3, grp gs 4, grp gs 5)) (re_match m1_rx line) = match_m1 line"
  "map_option (\<lambda>gs. (grp gs 1, grp gs 2, grp gs 3, grp gs 4)) (re_match m2_rx line) = match_m2 line"
  "map_option (\<lambda>gs. (grp gs 1, grp gs 2, grp gs 3, grp gs 4)) (re_match m3_rx line) = match_m3 line"
  "map_option (\<lambda>gs. (grp gs 1, grp gs 2, grp gs 3, grp gs 4)) (re_match m4_rx line) = match_m4 line"
proof -
  note unfolds = re_match_def seqs.simps seq_Eps
  show "map_option (\<lambda>gs. (grp gs 1, grp gs 2, grp gs 3, grp gs 4, grp gs 5)) (re_match m1_rx line) = match_m1 line"
    unfolding m1_rx_def match_m1_def unfolds steps
    by (auto simp: steps grp_def group_def split: option.split)
  show "map_option (\<lambda>gs. (grp gs 1, grp gs 2, grp gs 3, grp gs 4)) (re_match m2_rx line) = match_m2 line"
    unfolding m2_rx_def match_m2_def unfolds steps
    by (auto simp: steps grp_def group_def split: option.split)
  show "map_option (\<lambda>gs. (grp gs 1, grp gs 2, grp gs 3, grp gs 4)) (re_match m3_rx line) = match_m3 line"
    unfolding m3_rx_def match_m3_def unfolds steps
    by (auto simp: steps grp_def group_def split: option.split)
  show "map_option (\<lambda>gs. (grp gs 1, grp gs 2, grp gs 3, grp gs 4)) (re_match m4_rx line) = match_m4 line"
    unfolding m4_rx_def match_m4_def unfolds steps
    by (auto simp: steps grp_def group_def split: option.split)
qed

section \<open>The end of a line\<close>

lemma refuses_Dollar: "(\<And>c. P c \<Longrightarrow> c \<noteq> CHR 0x0A) \<Longrightarrow> refuses Dollar P"
  by (auto simp: refuses_def)

lemma seq_group_star:
  assumes "refuses b P"
  shows "matches (Seq (Grp n (Star (One P))) b) (gs, s) = matches b ((n, takeWhile P s) # gs, dropWhile P s)"
proof -
  let ?f = "\<lambda>k. ((n, take (length s - length (drop k s)) s) # gs, drop k s)"
  have "matches (Grp n (Star (One P))) (gs, s) = map ?f (rev [0..<Suc (length (takeWhile P s))])"
    by (simp add: matches_Star_One comp_def del: matches.simps(5))
  then have "matches (Seq (Grp n (Star (One P))) b) (gs, s) = concat (map (matches b) (map ?f (rev [0..<Suc (length (takeWhile P s))])))"
    by (simp only: matches.simps(3))
  also have "\<dots> = matches b (?f (length (takeWhile P s)))"
    by (subst concat_longest [OF assms]) simp_all
  finally show ?thesis by (simp only: dropWhile_eq_drop take_run)
qed

lemma rest_pattern: "map_option (\<lambda>gs. grp gs 1) (re_match (rest_rx start) line) = match_rest start line"
proof -
  have dollar: "refuses Dollar (\<lambda>c. c \<noteq> CHR 0x0A)" by (rule refuses_Dollar)
  show ?thesis
    unfolding re_match_def rest_rx_def seqs.simps Dot_def seq_lit seq_group_star [OF refuses_Seq [OF dollar]]
    by (auto simp: match_rest_def Let_def grp_def group_def)
qed

lemma env_var_pattern: "map_option (\<lambda>gs. (grp gs 1, grp gs 2)) (re_match env_var_rx token) = env_var_match token"
proof -
  have dollar: "refuses Dollar (\<lambda>c. \<not> is_space c)"
    by (intro refuses_Dollar) (auto simp: is_space_def)
  have eq: "refuses (Seq (lit ''='') b) is_word" for b by (intro refuses_Seq) (simp add: is_word_def)
  have "starts_with s ''='' \<longleftrightarrow> take 1 s = ''=''" for s by (cases s) (auto simp: starts_with_def)
  then show ?thesis
    unfolding re_match_def env_var_rx_def seqs.simps seq_group_plus [OF eq] seq_lit seq_group_plus [OF refuses_Seq [OF dollar]]
    by (simp add: env_var_match_def Let_def grp_def group_def)
qed

lemma chunk_step:
  assumes "refuses (lit w) is_digit"
  shows "matches (Seq (number n) (Seq (lit w) b)) (gs, s)
    = (case match_digits w s of None \<Rightarrow> [] | Some (d, t) \<Rightarrow> matches b ((n, d) # gs, t))"
  unfolding number_def by (subst seq_group_plus) (auto simp: assms match_digits_def Let_def seq_lit)

lemma chunk_pattern: "map_option (\<lambda>gs. (grp gs 1, grp gs 3)) (re_match chunk_rx line) = match_chunk_start line"
proof -
  have "refuses (lit '','') is_digit" "refuses (lit '' +'') is_digit" "refuses (lit '' @@'') is_digit"
    by (simp_all add: is_digit_def)
  note chunk_steps = this [THEN chunk_step]
  show ?thesis
    unfolding re_match_def chunk_rx_def seqs.simps seq_lit chunk_steps match_chunk_start_def
    by (auto simp: grp_def group_def eval_nat_numeral split: option.split)
qed

text \<open>
  C16: The hand-written matchers of the log reader, of the patch parser and of the command-line parser
  agree with the regular expressions of the sources: on every line, matching the pattern with the
  backtracking matcher succeeds if and only if the hand-written function does, with the same groups.
\<close>

theorem hand_matchers_equiv:
  "map_option (\<lambda>gs. (grp gs 1, grp gs 2, grp gs 3, grp gs 4, grp gs 5)) (re_match m1_rx line) = match_m1 line
   \<and> map_option (\<lambda>gs. (grp gs 1, grp gs 2, grp gs 3, grp gs 4)) (re_match m2_rx line) = match_m2 line
   \<and> map_option (\<lambda>gs. (grp gs 1, grp gs 2, grp gs 3, grp gs 4)) (re_match m3_rx line) = match_m3 line
   \<and> map_option (\<lambda>gs. (grp gs 1, grp gs 2, grp gs 3, grp gs 4)) (re_match m4_rx line) = match_m4 line
   \<and> map_option (\<lambda>gs. grp gs 1) (re_match (rest_rx start) line) = match_rest start line
   \<and> map_option (\<lambda>gs. (grp gs 1, grp gs 3)) (re_match chunk_rx line) = match_chunk_start line
   \<and> map_option (\<lambda>gs. (grp gs 1, grp gs 2)) (re_match env_var_rx line) = env_var_match line"
  by (intro conjI grid_patterns rest_pattern chunk_pattern env_var_pattern)

end
