(* ===== verification/Module_Scan.thy ===== *)
theory Module_Scan
  imports Topsort Py_Strings "HOL-Library.List_Lexorder"
begin

text \<open>
  \<^verbatim>\<open>src/source/ns-3-dev/bindings/python/ns3modulescan.py\<close> and its variant
  \<^verbatim>\<open>ns3modulescan-modular.py\<close>: the hooks that decide, for every C++ definition the scanner finds,
  how its Python binding is annotated, and the sections into which the older scanner sorts the
  modules, by \<^verbatim>\<open>topsort\<close>.  A definition is a record of what the hooks read of a \<^verbatim>\<open>pygccxml\<close>
  object; the functions of \<^verbatim>\<open>pygccxml\<close> and \<^verbatim>\<open>pybindgen\<close> are arguments.
\<close>

section \<open>Paths\<close>

text \<open>\<^verbatim>\<open>os.path.join(*l)\<close>.\<close>

definition join_parts :: "string list \<Rightarrow> string res" where
  "join_parts l = (case l of [] \<Rightarrow> Inl TypeError | c # cs \<Rightarrow> Inr (foldl path_join c cs))"

text \<open>
  \<^verbatim>\<open>get_ns3_relative_path\<close>.  The older version does not notice that the head of an absolute path
  no longer changes: without a component \<^verbatim>\<open>ns3\<close> its loop does not end, which is \<open>None\<close>.
\<close>

partial_function (option) relative_loop_old :: "string \<Rightarrow> string list \<Rightarrow> string res option" where
  "relative_loop_old head l =
     (if head = [] then Some (Inl AssertionError)
      else
        (let (head, tail) = path_split head in
         if tail = ''ns3'' then Some (join_parts l) else relative_loop_old head (tail # l)))"

definition get_ns3_relative_path_old :: "string \<Rightarrow> string res option" where
  "get_ns3_relative_path_old path = relative_loop_old path []"

function relative_loop :: "string \<Rightarrow> string list \<Rightarrow> string res" where
  "relative_loop head l =
     (if head = [] then Inl AssertionError
      else
        (let (new_head, tail) = path_split head in
         if new_head = head then Inl ValueError
         else if tail = ''ns3'' then join_parts l
         else relative_loop new_head (tail # l)))"
  by pat_completeness auto

termination
  by (relation "measure (\<lambda>(head, l). length head)") (auto dest: path_split_shorter simp: prod_eq_iff)

declare relative_loop.simps [simp del]

text \<open>An empty path gives \<^verbatim>\<open>None\<close>.\<close>

definition get_ns3_relative_path :: "string \<Rightarrow> string option res" where
  "get_ns3_relative_path path =
     (if path = [] then Inr None else rbind (relative_loop path []) (\<lambda>r. Inr (Some r)))"

section \<open>Definitions and annotations\<close>

datatype decl_kind =
    Class | Enumeration | Free_Function | Member_Function | Constructor | Other_Calldef | Other_Decl

text \<open>\<open>d_str\<close> is \<^verbatim>\<open>str(definition)\<close>, \<open>d_defaults\<close> the default values of the arguments.\<close>

record decl =
  d_kind :: decl_kind
  d_file :: string
  d_parent :: string
  d_name :: string
  d_decl_string :: string
  d_demangled :: string
  d_str :: string
  d_defaults :: "string option list"

type_synonym param_annotations = "(string, (string, string) dict) dict"

datatype annotation = Str string | PyNone | PyTrue | Params param_annotations

type_synonym annotations = "(string, annotation) dict"
type_synonym annotation_table = "(string, annotations) dict"

definition dict_update :: "('k, 'v) dict \<Rightarrow> ('k, 'v) dict \<Rightarrow> ('k, 'v) dict" where
  "dict_update d upd = foldl (\<lambda>d (k, v). dict_set d k v) d upd"

definition out_param :: "string \<Rightarrow> annotations" where
  "out_param name = [(''params'', Params [(name, [(''direction'', ''out'')])])]"

definition kept_param :: "string \<Rightarrow> annotations" where
  "kept_param name = [(''params'', Params [(name, [(''transfer_ownership'', ''false'')])])]"

definition type_annotations :: annotation_table where
  "type_annotations =
     [(''::ns3::AttributeChecker'', [(''automatic_type_narrowing'', Str ''true''), (''allow_subclassing'', Str ''false'')]),
      (''::ns3::AttributeValue'', [(''automatic_type_narrowing'', Str ''true''), (''allow_subclassing'', Str ''false'')]),
      (''::ns3::CommandLine'', [(''allow_subclassing'', Str ''true'')]),
      (''::ns3::NscTcpL4Protocol'', [(''ignore'', Str ''true'')]),
      (''ns3::RandomVariable::RandomVariable(ns3::RandomVariableBase const & variable) [constructor]'', [(''ignore'', PyNone)]),
      (''ns3::RandomVariableBase * ns3::RandomVariable::Peek() const [member function]'', [(''ignore'', PyNone)]),
      (''void ns3::RandomVariable::GetSeed(uint32_t * seed) const [member function]'',
       [(''params'', Params [(''seed'', [(''direction'', ''out''), (''array_length'', ''6'')])])]),
      (''bool ns3::TypeId::LookupAttributeByName(std::string name, ns3::TypeId::AttributeInformation * info) const [member function]'',
       kept_param ''info''),
      (''static bool ns3::TypeId::LookupByNameFailSafe(std::string name, ns3::TypeId * tid) [member function]'', [(''ignore'', PyNone)]),
      (''bool ns3::TraceSourceAccessor::ConnectWithoutContext(ns3::ObjectBase * obj, ns3::CallbackBase const & cb) const [member function]'',
       kept_param ''obj''),
      (''bool ns3::TraceSourceAccessor::Connect(ns3::ObjectBase * obj, std::string context, ns3::CallbackBase const & cb) const [member function]'',
       kept_param ''obj''),
      (''bool ns3::TraceSourceAccessor::DisconnectWithoutContext(ns3::ObjectBase * obj, ns3::CallbackBase const & cb) const [member function]'',
       kept_param ''obj''),
      (''bool ns3::TraceSourceAccessor::Disconnect(ns3::ObjectBase * obj, std::string context, ns3::CallbackBase const & cb) const [member function]'',
       kept_param ''obj''),
      (''bool ns3::AttributeAccessor::Set(ns3::ObjectBase * object, ns3::AttributeValue const & value) const [member function]'',
       kept_param ''object''),
      (''ns3::EmpiricalVariable::EmpiricalVariable(ns3::RandomVariableBase const & variable) [constructor]'', [(''ignore'', PyNone)]),
      (''static ns3::AttributeList * ns3::AttributeList::GetGlobal() [member function]'', [(''caller_owns_return'', Str ''false'')]),
      (''void ns3::CommandLine::Parse(int argc, char * * argv) const [member function]'', [(''ignore'', PyNone)]),
      (''extern void ns3::PythonCompleteConstruct(ns3::Ptr<ns3::Object> object, ns3::TypeId typeId, ns3::AttributeList const & attributes) [free function]'',
       [(''ignore'', PyNone)]),
      (''ns3::Ptr<ns3::Ipv4RoutingProtocol> ns3::Ipv4ListRouting::GetRoutingProtocol(uint32_t index, int16_t & priority) const [member function]'',
       out_param ''priority''),
      (''ns3::Ipv4RoutingTableEntry * ns3::GlobalRouter::GetInjectedRoute(uint32_t i) [member function]'',
       [(''params'', Params [(''return'', [(''caller_owns_return'', ''false'')])])]),
      (''ns3::Ipv4RoutingTableEntry * ns3::Ipv4GlobalRouting::GetRoute(uint32_t i) const [member function]'',
       [(''params'', Params [(''return'', [(''caller_owns_return'', ''false'')])])]),
      (''::ns3::TestCase'', [(''ignore'', Str ''true'')]),
      (''::ns3::TestRunner'', [(''ignore'', Str ''true'')]),
      (''::ns3::TestSuite'', [(''ignore'', Str ''true'')])]"

section \<open>Parts of the hooks\<close>

text \<open>
  A hook changes the definition (default values), the two dictionaries it is given and, through the
  dictionaries stored in it, the table.
\<close>

record scan =
  s_decl :: decl
  s_global :: annotations
  s_params :: param_annotations
  s_table :: annotation_table

definition annotate :: "string \<Rightarrow> annotation \<Rightarrow> scan \<Rightarrow> scan" where
  "annotate key val s = s\<lparr>s_global := dict_set (s_global s) key val\<rparr>"

definition is_method_of :: "decl \<Rightarrow> string \<Rightarrow> bool" where
  "is_method_of d parent \<longleftrightarrow> d_kind d = Member_Function \<and> d_parent d = parent"

definition annotate_members :: "string list \<Rightarrow> scan \<Rightarrow> scan" where
  "annotate_members template_args s =
     (let d = s_decl s;
          s = (if is_method_of d ''Object'' \<and> d_name d = ''GetObject'' \<and> template_args = [''ns3::Object'']
               then annotate ''template_instance_names'' (Str ''ns3::Object=>GetObject'') s else s);
          s = (if is_method_of d ''Simulator'' \<and> starts_with (d_name d) ''Schedule'' then annotate ''ignore'' PyNone s else s)
      in if is_method_of d ''Simulator'' \<and> d_name d = ''Run'' then annotate ''ignore'' PyTrue s else s)"

definition fix_default :: "string option \<Rightarrow> string option" where
  "fix_default v =
     (if v = Some ''ns3::MilliSeconds( )'' then Some ''ns3::MilliSeconds(0)''
      else if v = Some ''ns3::Seconds( )'' then Some ''ns3::Seconds(0)'' else v)"

definition is_calldef :: "decl \<Rightarrow> bool" where
  "is_calldef d \<longleftrightarrow> d_kind d \<in> {Free_Function, Member_Function, Constructor, Other_Calldef}"

definition fix_defaults :: "scan \<Rightarrow> scan" where
  "fix_defaults s =
     (if is_calldef (s_decl s) then s\<lparr>s_decl := s_decl s\<lparr>d_defaults := map fix_default (d_defaults (s_decl s))\<rparr>\<rparr> else s)"

text \<open>
  The class templates that are treated alike; \<open>None\<close> when none applies.  The hook returns after them.
\<close>

definition special_class :: "scan \<Rightarrow> scan option" where
  "special_class s =
     (let name = d_decl_string (s_decl s) in
      if starts_with name ''::ns3::SimpleRefCount<''
      then Some (annotate ''automatic_type_narrowing'' (Str ''true'') (annotate ''peekref_method'' (Str ''GetReferenceCount'')
             (annotate ''decref_method'' (Str ''Unref'') (annotate ''incref_method'' (Str ''Ref'') s))))
      else if starts_with name ''::ns3::Callback<'' \<or> starts_with name ''::ns3::TracedCallback<'' \<or> starts_with name ''::ns3::Ptr<''
      then Some (annotate ''ignore'' PyNone s)
      else None)"

definition annotate_class :: "scan \<Rightarrow> scan" where
  "annotate_class s =
     (case dict_get (s_table s) (d_decl_string (s_decl s)) of
        None \<Rightarrow> s
      | Some annotations \<Rightarrow> s\<lparr>s_global := dict_update (s_global s) annotations\<rparr>)"

text \<open>The loop over the items takes \<^verbatim>\<open>params\<close> out of the dictionary that the table holds.\<close>

definition annotate_function :: "scan \<Rightarrow> scan res" where
  "annotate_function s =
     (let d = s_decl s in
      if d_kind d \<notin> {Free_Function, Member_Function, Constructor} then Inr s
      else case dict_get (s_table s) (d_str d) of
             None \<Rightarrow> Inr s
           | Some annotations \<Rightarrow>
               (case dict_get annotations ''params'' of
                  None \<Rightarrow> Inr (s\<lparr>s_global := dict_update (s_global s) annotations\<rparr>)
                | Some (Params ps) \<Rightarrow>
                    (let rest = dict_remove annotations ''params'' in
                     Inr (s\<lparr>s_params := dict_update (s_params s) ps, s_table := dict_set (s_table s) (d_str d) rest,
                            s_global := dict_update (s_global s) rest\<rparr>))
                | Some (Str t) \<Rightarrow> if t = [] then Inr (s\<lparr>s_table := dict_set (s_table s) (d_str d) (dict_remove annotations ''params''),
                                      s_global := dict_update (s_global s) (dict_remove annotations ''params'')\<rparr>) else Inl ValueError
                | Some _ \<Rightarrow> Inl TypeError))"

section \<open>The hook of the older scanner\<close>

text \<open>\<^verbatim>\<open>templates.args\<close> of \<^verbatim>\<open>pygccxml\<close> is an argument.  \<open>None\<close> is a hook that does not return.\<close>

definition pre_scan_hook :: "(string \<Rightarrow> string list) \<Rightarrow> scan \<Rightarrow> scan res option" where
  "pre_scan_hook template_args s =
     (let d = s_decl s in
      map_option (\<lambda>path. rbind path (\<lambda>ns3_header.
        let s = annotate ''pygen_comment'' (Str (ns3_header @ '': '' @ d_str d)) s;
            s = fix_defaults (annotate_members (template_args (d_demangled d)) s)
        in case (if d_kind d = Class then special_class s else None) of
             Some s' \<Rightarrow> Inr s'
           | None \<Rightarrow>
               if d_kind d = Free_Function \<and> d_name d = ''PeekPointer'' then Inr (annotate ''ignore'' PyNone s)
               else annotate_function (if d_kind d = Class then annotate_class s else s)))
       (get_ns3_relative_path_old (d_file d)))"

section \<open>The hook of the modular scanner\<close>

text \<open>
  What it needs of \<^verbatim>\<open>pygccxml\<close>: the arguments of a template, whether a name is an instantiation,
  the parameters of one, and the file of the declaration with a name, if it has one.
\<close>

record templates =
  t_args :: "string \<Rightarrow> string list"
  t_is_instantiation :: "string \<Rightarrow> bool"
  t_split :: "string \<Rightarrow> string list"
  t_location :: "string \<Rightarrow> string option"

type_synonym headers_map = "(string, string) dict"

text \<open>The modules of the template parameters; headers outside ns-3 are skipped.\<close>

fun parameter_modules :: "templates \<Rightarrow> headers_map \<Rightarrow> string list \<Rightarrow> string list res" where
  "parameter_modules tm headers [] = Inr []"
| "parameter_modules tm headers (p # ps) =
     (case t_location tm p of
        None \<Rightarrow> parameter_modules tm headers ps
      | Some file \<Rightarrow>
          (case get_ns3_relative_path file of
             Inl e \<Rightarrow> if e = ValueError then parameter_modules tm headers ps else Inl e
           | Inr None \<Rightarrow> Inl KeyError
           | Inr (Some h) \<Rightarrow>
               rbind (dict_lookup headers h) (\<lambda>m. rbind (parameter_modules tm headers ps) (\<lambda>ms. Inr (m # ms)))))"

definition definition_module :: "templates \<Rightarrow> headers_map \<Rightarrow> string \<Rightarrow> decl \<Rightarrow> string \<Rightarrow> string res" where
  "definition_module tm headers self_module d header_module =
     (if d_kind d = Class \<and> t_is_instantiation tm (d_decl_string d)
      then rbind (parameter_modules tm headers (t_split tm (d_name d))) (\<lambda>ms.
           Inr (if self_module \<in> set ms then self_module else header_module))
      else Inr header_module)"

definition replace_char :: "char \<Rightarrow> char \<Rightarrow> string \<Rightarrow> string" where
  "replace_char a b s = map (\<lambda>c. if c = a then b else c) s"

definition PreScanHook :: "templates \<Rightarrow> headers_map \<Rightarrow> string \<Rightarrow> scan \<Rightarrow> scan res" where
  "PreScanHook tm headers self_module s =
     (let d = s_decl s in
      case get_ns3_relative_path (d_file d) of
        Inl e \<Rightarrow> if e = ValueError then Inr s else Inl e
      | Inr None \<Rightarrow> Inr s
      | Inr (Some ns3_header) \<Rightarrow>
          if ns3_header = [] then Inr s
          else
            rbind (dict_lookup headers ns3_header) (\<lambda>header_module.
            let s = annotate ''pygen_comment''
                      (Str (ns3_header @ '' (module '' @ py_repr header_module @ ''): '' @ d_str d)) s;
                s = fix_defaults (annotate_members (t_args tm (d_str d)) s)
            in rbind (definition_module tm headers self_module d header_module) (\<lambda>def_module.
               if d_kind d = Class
               then
                 (let s = (if def_module \<noteq> self_module
                           then annotate ''import_from_module'' (Str (''ns.'' @ replace_char (CHR ''-'') (CHR ''_'') def_module)) s else s)
                  in Inr (case special_class s of Some s' \<Rightarrow> s' | None \<Rightarrow> annotate_class s))
               else if d_kind d = Enumeration
               then Inr (if def_module \<noteq> self_module then annotate ''import_from_module'' (Str (''ns.'' @ def_module)) s else s)
               else if d_kind d = Free_Function \<and> (def_module \<noteq> self_module \<or> d_name d = ''PeekPointer'')
               then Inr (annotate ''ignore'' PyNone s)
               else annotate_function s)))"

section \<open>Sections of the older scanner\<close>

text \<open>Modules with the modules they depend on and their headers.\<close>

type_synonym modules = "(string, string list \<times> string list) dict"

definition module_graph :: "modules \<Rightarrow> (string \<times> string) list" where
  "module_graph ns3_modules =
     concat (map (\<lambda>name. map (\<lambda>dep. (dep, name)) (sort (fst (the (dict_get ns3_modules name))))) (sort (dict_keys ns3_modules)))"

definition section_name :: "string \<Rightarrow> string" where
  "section_name m = ''ns3_module_'' @ replace_char (CHR ''-'') (CHR ''_'') m"

record sections =
  se_names :: "string list"
  se_headers :: "(string, string) dict"
  se_precedences :: "(string, int) dict"

definition add_section :: "modules \<Rightarrow> sections \<Rightarrow> nat \<times> string \<Rightarrow> sections res" where
  "add_section ns3_modules se m =
     (let (prec, name) = m; sec = section_name name in
      rbind (dict_lookup ns3_modules name) (\<lambda>(_, headers).
      Inr (se\<lparr>se_names := se_names se @ [sec],
             se_headers := foldl (\<lambda>d h. dict_set d h sec) (se_headers se) headers,
             se_precedences := dict_set (se_precedences se) sec (int prec)\<rparr>)))"

definition make_sections :: "(string list \<Rightarrow> string list) \<Rightarrow> modules \<Rightarrow> string ts_error + sections" where
  "make_sections ko ns3_modules =
     rbind (topsort ko (module_graph ns3_modules)) (\<lambda>sorted_ns3_modules.
     case foldM (add_section ns3_modules) \<lparr>se_names = [''__main__''], se_headers = [], se_precedences = []\<rparr>
            (enumerate 0 sorted_ns3_modules) of
       Inl e \<Rightarrow> Inl (Raised e)
     | Inr se \<Rightarrow> Inr se)"

definition classify_header :: "sections \<Rightarrow> string \<Rightarrow> string" where
  "classify_header se file_name = (case dict_get (se_headers se) (basename file_name) of None \<Rightarrow> ''__main__'' | Some sec \<Rightarrow> sec)"

definition get_section_precedence :: "sections \<Rightarrow> string \<Rightarrow> int res" where
  "get_section_precedence se name = (if name = ''__main__'' then Inr (- 1) else dict_lookup (se_precedences se) name)"

text \<open>\<^verbatim>\<open>scan_callback_classes\<close>: the lines that are written for the classes of the namespace.\<close>

fun callback_lines :: "templates \<Rightarrow> (string \<times> string) list \<Rightarrow> string list list res" where
  "callback_lines tm [] = Inr []"
| "callback_lines tm ((name, decl_string) # classes) =
     (if \<not> starts_with name ''Callback<'' then callback_lines tm classes
      else if \<not> t_is_instantiation tm decl_string then Inl AssertionError
      else rbind (callback_lines tm classes) (\<lambda>rest. Inr (t_split tm decl_string # rest)))"

end
