(* ===== verification/Module_Scan_Correct.thy ===== *)
theory Module_Scan_Correct
  imports Module_Scan Topsort_Correct
begin

text \<open>
  Correctness of the bindings scanners: which header a path stands for, and when the search for it
  ends; the sections follow the dependencies of the modules; what a second scan of the same
  function loses.
\<close>

section \<open>Header paths\<close>

text \<open>A component of a path, and the absolute path of a list of components.\<close>

definition component :: "string \<Rightarrow> bool" where
  "component c \<longleftrightarrow> c \<noteq> [] \<and> CHR ''/'' \<notin> set c"

definition abs_path :: "string list \<Rightarrow> string" where
  "abs_path cs = CHR ''/'' # join_with ''/'' cs"

definition after_ns3 :: "string list \<Rightarrow> string list" where
  "after_ns3 cs = rev (takeWhile (\<lambda>c. c \<noteq> ''ns3'') (rev cs))"

lemma join_with_snoc: "join_with sep (cs @ [c]) = (if cs = [] then c else join_with sep cs @ sep @ c)"
  by (induction sep cs rule: join_with.induct) auto

lemma last_join: "cs \<noteq> [] \<Longrightarrow> list_all component cs \<Longrightarrow> join_with ''/'' cs \<noteq> [] \<and> last (join_with ''/'' cs) \<noteq> CHR ''/''"
proof (induction cs rule: rev_induct)
  case (snoc c cs)
  then have "c \<noteq> []" "last c \<noteq> CHR ''/''" by (auto simp: component_def dest: last_in_set)
  then show ?case by (simp add: join_with_snoc)
qed simp

lemma path_split_snoc:
  assumes "list_all component cs" and "component c"
  shows "path_split (abs_path (cs @ [c])) = (abs_path cs, c)"
proof (cases "cs = []")
  case True
  with assms(2) show ?thesis
    using basename_append [of c "[]"] by (simp add: path_split_def abs_path_def component_def Let_def)
next
  case False
  let ?p = "abs_path cs"
  have "abs_path (cs @ [c]) = ?p @ CHR ''/'' # c" using False by (simp add: abs_path_def join_with_snoc)
  moreover have "last ?p \<noteq> CHR ''/''" "?p \<noteq> []" using last_join [OF False assms(1)] by (simp_all add: abs_path_def)
  then have "dropWhile (\<lambda>c. c = CHR ''/'') (rev (?p @ [CHR ''/''])) = rev ?p"
    by (cases ?p rule: rev_cases) auto
  moreover have "\<exists>x \<in> set ?p. x \<noteq> CHR ''/''" using \<open>last ?p \<noteq> _\<close> \<open>?p \<noteq> []\<close> last_in_set by blast
  ultimately show ?thesis
    using assms(2) \<open>?p \<noteq> []\<close> by (simp add: path_split_def basename_append component_def Let_def)
qed

lemma path_split_root: "path_split ''/'' = (''/'', [])"
  by (simp add: path_split_def basename_def)

lemma abs_path_shorter: "component c \<Longrightarrow> abs_path (cs @ [c]) \<noteq> abs_path cs"
  by (simp add: abs_path_def join_with_snoc component_def)

lemma abs_path_nonempty [simp]: "abs_path cs \<noteq> []"
  by (simp add: abs_path_def)

lemma relative_loop_abs:
  "list_all component cs \<Longrightarrow>
   relative_loop (abs_path cs) l = (if ''ns3'' \<in> set cs then join_parts (after_ns3 cs @ l) else Inl ValueError)"
proof (induction cs arbitrary: l rule: rev_induct)
  case Nil
  show ?case by (subst relative_loop.simps) (simp add: abs_path_def path_split_root)
next
  case (snoc c cs)
  then have c: "component c" and cs: "list_all component cs" by simp_all
  show ?case
    using snoc.IH [OF cs] abs_path_shorter [OF c, of cs]
    by (subst relative_loop.simps) (auto simp: path_split_snoc [OF cs c] after_ns3_def)
qed

lemma relative_loop_old_abs:
  "list_all component cs \<Longrightarrow> ''ns3'' \<in> set cs \<Longrightarrow> relative_loop_old (abs_path cs) l = Some (join_parts (after_ns3 cs @ l))"
proof (induction cs arbitrary: l rule: rev_induct)
  case (snoc c cs)
  then have c: "component c" and cs: "list_all component cs" by simp_all
  show ?case
    using snoc.IH [OF cs] snoc.prems
    by (subst relative_loop_old.simps) (auto simp: path_split_snoc [OF cs c] after_ns3_def)
qed simp

lemma relative_loop_old_hangs:
  assumes "relative_loop_old head l = Some r"
  shows "\<not> (\<exists>cs. head = abs_path cs \<and> list_all component cs \<and> ''ns3'' \<notin> set cs)"
proof (rule relative_loop_old.raw_induct [OF _ assms], goal_cases)
  case (1 loop head l r)
  show ?case
  proof
    assume "\<exists>cs. head = abs_path cs \<and> list_all component cs \<and> ''ns3'' \<notin> set cs"
    then obtain cs where cs: "head = abs_path cs" "list_all component cs" "''ns3'' \<notin> set cs" by blast
    show False
    proof (cases cs rule: rev_cases)
      case Nil
      then have "head = ''/''" using cs(1) by (simp add: abs_path_def)
      then have "loop ''/'' ([] # l) = Some r" using 1(2) by (simp add: path_split_root)
      moreover have "''/'' = abs_path []" by (simp add: abs_path_def)
      ultimately show False using 1(1) [of "''/''" "[] # l" r] by fastforce
    next
      case (snoc ds c)
      then have d: "list_all component ds" "component c" "c \<noteq> ''ns3''" "''ns3'' \<notin> set ds" using cs by auto
      then have "loop (abs_path ds) (c # l) = Some r"
        using 1(2) cs(1) snoc by (simp add: path_split_snoc)
      with 1(1) d show False by blast
    qed
  qed
qed

text \<open>
  C25: The header of an absolute path is what follows its last component \<^verbatim>\<open>ns3\<close>; both scanners
  compute it, and both raise \<^verbatim>\<open>TypeError\<close> when nothing follows.  On a path without such a component the
  modular scanner raises \<^verbatim>\<open>ValueError\<close>, which its hook takes for a foreign header, while the loop of the
  older scanner never ends.
\<close>

theorem relative_path_ends:
  assumes "list_all component cs"
  shows "if ''ns3'' \<in> set cs
         then get_ns3_relative_path (abs_path cs) = rbind (join_parts (after_ns3 cs)) (\<lambda>r. Inr (Some r))
            \<and> get_ns3_relative_path_old (abs_path cs) = Some (join_parts (after_ns3 cs))
         else get_ns3_relative_path (abs_path cs) = Inl ValueError \<and> get_ns3_relative_path_old (abs_path cs) = None"
proof (cases "''ns3'' \<in> set cs")
  case True
  with assms show ?thesis
    by (simp add: get_ns3_relative_path_def get_ns3_relative_path_old_def relative_loop_abs relative_loop_old_abs)
next
  case False
  then have "relative_loop_old (abs_path cs) [] = None"
    using relative_loop_old_hangs [of "abs_path cs" "[]"] assms by (cases "relative_loop_old (abs_path cs) []") blast+
  with False assms show ?thesis
    by (simp add: get_ns3_relative_path_def get_ns3_relative_path_old_def relative_loop_abs)
qed

theorem relative_path_ends_witness:
  "get_ns3_relative_path (abs_path [''usr'', ''include'', ''ns3'', ''object.h'']) = Inr (Some ''object.h'')
   \<and> get_ns3_relative_path_old (abs_path [''usr'', ''include'', ''stdio.h'']) = None"
  using relative_path_ends [of "[''usr'', ''include'', ''ns3'', ''object.h'']"] relative_path_ends [of "[''usr'', ''include'', ''stdio.h'']"]
  by (simp add: component_def after_ns3_def join_parts_def)

section \<open>Sections\<close>

text \<open>The tables after the sorted modules have been entered.\<close>

definition section_state :: "modules \<Rightarrow> string list \<Rightarrow> sections \<Rightarrow> bool" where
  "section_state ms ds se \<longleftrightarrow>
     se_names se = ''__main__'' # map section_name ds
     \<and> (\<forall>i < length ds. dict_get (se_precedences se) (section_name (ds ! i)) = Some (int i))
     \<and> (\<forall>h m. (\<forall>m' deps hs. dict_get ms m' = Some (deps, hs) \<longrightarrow> (h \<in> set hs \<longleftrightarrow> m' = m)) \<longrightarrow>
           dict_get (se_headers se) h = (if m \<in> set ds then Some (section_name m) else None))"

lemma get_fill_headers:
  "dict_get (foldl (\<lambda>d h. dict_set d h sec) d hs) h = (if h \<in> set hs then Some sec else dict_get d h)"
  by (induction hs arbitrary: d) auto

lemma dict_key_iff: "m \<in> set (dict_keys ms) \<longleftrightarrow> (\<exists>v. dict_get ms m = Some v)"
  unfolding dom_dict_get [symmetric] by auto

lemma add_section_state:
  assumes "section_state ms ds se" and "dict_get ms m = Some (deps, hs)"
    and "inj_on section_name (set (dict_keys ms))" and "set ds \<subseteq> set (dict_keys ms)" and "m \<notin> set ds"
  shows "\<exists>se'. add_section ms se (length ds, m) = Inr se' \<and> section_state ms (ds @ [m]) se'"
proof -
  have m: "m \<in> set (dict_keys ms)" using assms(2) dict_key_iff by fast
  have "section_name x \<noteq> section_name m" if "x \<in> set ds" for x
    using that assms(3-5) m by (metis inj_onD subsetD)
  then have other: "section_name (ds ! i) \<noteq> section_name m" if "i < length ds" for i
    using that by simp
  define se' where "se' = se\<lparr>se_names := se_names se @ [section_name m],
    se_headers := foldl (\<lambda>d h. dict_set d h (section_name m)) (se_headers se) hs,
    se_precedences := dict_set (se_precedences se) (section_name m) (int (length ds))\<rparr>"
  have "add_section ms se (length ds, m) = Inr se'"
    using assms(2) by (simp add: add_section_def se'_def dict_lookup_Some Let_def)
  moreover have "se_names se' = ''__main__'' # map section_name (ds @ [m])"
    using assms(1) by (simp add: section_state_def se'_def)
  moreover have "dict_get (se_precedences se') (section_name ((ds @ [m]) ! i)) = Some (int i)" if "i < length (ds @ [m])" for i
    using assms(1) other that by (cases "i = length ds") (auto simp: section_state_def se'_def nth_append)
  moreover have "dict_get (se_headers se') h = (if x \<in> set (ds @ [m]) then Some (section_name x) else None)"
    if x: "\<forall>m' deps hs. dict_get ms m' = Some (deps, hs) \<longrightarrow> (h \<in> set hs \<longleftrightarrow> m' = x)" for h x
  proof -
    have "h \<in> set hs \<longleftrightarrow> m = x" using x assms(2) by blast
    moreover have "dict_get (se_headers se) h = (if x \<in> set ds then Some (section_name x) else None)"
      using assms(1) x unfolding section_state_def by blast
    ultimately show ?thesis by (auto simp: se'_def get_fill_headers)
  qed
  ultimately show ?thesis unfolding section_state_def by blast
qed

lemma foldM_sections:
  "section_state ms ds se \<Longrightarrow> inj_on section_name (set (dict_keys ms)) \<Longrightarrow> distinct (ds @ xs)
   \<Longrightarrow> set (ds @ xs) \<subseteq> set (dict_keys ms)
   \<Longrightarrow> \<exists>se'. foldM (add_section ms) se (enumerate (length ds) xs) = Inr se' \<and> section_state ms (ds @ xs) se'"
proof (induction xs arbitrary: ds se)
  case (Cons m xs)
  then obtain deps hs where "dict_get ms m = Some (deps, hs)"
    by (metis domD dom_dict_get in_set_conv_decomp old.prod.exhaust subsetD)
  with Cons.prems obtain se1 where se1: "add_section ms se (length ds, m) = Inr se1" "section_state ms (ds @ [m]) se1"
    using add_section_state [of ms ds se m deps hs] by auto
  with Cons.IH [OF se1(2)] Cons.prems show ?case by simp
qed simp

lemma module_graph_edges:
  "is_dict ms \<Longrightarrow> (d, m) \<in> set (module_graph ms) \<longleftrightarrow> (\<exists>deps hs. dict_get ms m = Some (deps, hs) \<and> d \<in> set deps)"
proof -
  have "(d, m) \<in> set (module_graph ms) \<longleftrightarrow> m \<in> set (dict_keys ms) \<and> d \<in> set (fst (the (dict_get ms m)))"
    unfolding module_graph_def set_concat by auto
  then show ?thesis using dict_key_iff [of m ms] by (cases "dict_get ms m") auto
qed



section \<open>Definitions of other modules\<close>

lemma annotate_other: "key \<noteq> key' \<Longrightarrow> dict_get (s_global (annotate key' v s)) key = dict_get (s_global s) key"
  by (simp add: annotate_def)

lemma annotate_frame [simp]:
  "s_decl (annotate k v s) = s_decl s" "s_table (annotate k v s) = s_table s"
  by (simp_all add: annotate_def)

lemma members_frame:
  "s_decl (annotate_members ta s) = s_decl s" "s_table (annotate_members ta s) = s_table s"
  "dict_get (s_global (annotate_members ta s)) ''import_from_module'' = dict_get (s_global s) ''import_from_module''"
  by (simp_all add: annotate_members_def Let_def annotate_other)

lemma defaults_frame:
  "d_kind (s_decl (fix_defaults s)) = d_kind (s_decl s)" "d_decl_string (s_decl (fix_defaults s)) = d_decl_string (s_decl s)"
  "s_table (fix_defaults s) = s_table s" "s_global (fix_defaults s) = s_global s"
  by (simp_all add: fix_defaults_def)

lemma dict_get_update:
  "dict_get (dict_update d upd) k = (case dict_get (rev upd) k of None \<Rightarrow> dict_get d k | Some v \<Rightarrow> Some v)"
  unfolding dict_update_def by (induction upd arbitrary: d rule: rev_induct) auto

lemma special_class_import:
  "special_class s = Some s' \<Longrightarrow> dict_get (s_global s') ''import_from_module'' = dict_get (s_global s) ''import_from_module''"
  by (auto simp: special_class_def Let_def annotate_other split: if_splits)

lemma annotate_class_import:
  assumes "\<forall>entry \<in> snd ` set (s_table s). ''import_from_module'' \<notin> set (dict_keys entry)"
  shows "dict_get (s_global (annotate_class s)) ''import_from_module'' = dict_get (s_global s) ''import_from_module''"
proof (cases "dict_get (s_table s) (d_decl_string (s_decl s))")
  case (Some entry)
  then have "''import_from_module'' \<notin> set (dict_keys entry)" using assms by (force dest: map_of_SomeD)
  then have "dict_get (rev entry) ''import_from_module'' = None" by (simp add: map_of_eq_None_iff)
  with Some show ?thesis by (simp add: annotate_class_def dict_get_update)
qed (simp add: annotate_class_def)


text \<open>An enumeration of the flow monitor, met while the core module is scanned.\<close>

definition sample_enumeration :: scan where
  "sample_enumeration =
     \<lparr>s_decl = \<lparr>d_kind = Enumeration, d_file = abs_path [''usr'', ''ns3'', ''f.h''], d_parent = [], d_name = ''State'',
        d_decl_string = ''::ns3::State'', d_demangled = ''State'', d_str = ''State'', d_defaults = []\<rparr>,
      s_global = [], s_params = [], s_table = []\<rparr>"


end
