(* ===== verification/Ns3_Waf.thy ===== *)
theory Ns3_Waf
  imports Wutils Waf_Tools
begin

text \<open>
  \<^verbatim>\<open>src/source/ns-3-dce/ns3waf/__init__.py\<close>: how a program built on ns-3 finds the modules of an
  installed ns-3 and builds its own.  The environment of waf is a record of the variables the file
  uses; its flags and the variables that \<^verbatim>\<open>pkg-config\<close> sets stay in a dictionary of lists.  waf, the
  compiler and \<^verbatim>\<open>pkg-config\<close> are arguments.
\<close>

section \<open>The environment\<close>

record feature =
  f_name :: string
  f_caption :: string
  f_enabled :: bool
  f_reason :: string

text \<open>A variable that is assigned a string and becomes a list when a value is appended.\<close>

datatype stlib_value = Text_Value string | List_Value "string list"

record waf_env =
  e_lists :: flag_env
  e_stlib :: "(string, stlib_value) dict"
  e_features :: "feature list option"
  e_found :: "string list option"
  e_version :: "string option"
  e_once :: bool
  e_static :: bool
  e_suffix :: string
  e_soname :: bool
  e_examples :: bool
  e_tests :: bool
  e_stlib_marker :: string
  e_shlib_marker :: string
  e_python_bindings :: bool
  e_cxx_name :: string
  e_ns3_dir :: string
  e_prefix :: string
  e_cshlib_pattern :: string
  e_cstlib_pattern :: string
  e_templates :: "(string, string) dict"

text \<open>The options, \<open>o_opt\<close> being one of the program that uses the package.\<close>

record waf_options =
  o_static :: bool
  o_log :: bool
  o_assert :: bool
  o_gcov :: bool
  o_examples :: bool
  o_tests :: bool
  o_debug :: bool
  o_opt :: bool

definition waf_defaults :: "bool \<Rightarrow> waf_options" where
  "waf_defaults enable_opt =
     \<lparr>o_static = False, o_log = True, o_assert = True, o_gcov = False, o_examples = True, o_tests = True, o_debug = True,
      o_opt = enable_opt\<rparr>"

record cfg_request =
  c_package :: string
  c_args :: string
  c_mandatory :: bool
  c_store :: string
  c_path :: string

text \<open>
  What the file asks of the system: whether the C and the C++ compiler accept a flag, the files of a
  pattern, \<^verbatim>\<open>pkg-config\<close> with the variables it sets, the output of the compiler for
  \<^verbatim>\<open>-print-file-name\<close>.
\<close>

record waf_system =
  y_platform :: string
  y_machine :: string
  y_pkg_config_path :: "string option"
  y_check_cc :: "string \<Rightarrow> bool"
  y_check_cxx :: "string \<Rightarrow> bool"
  y_glob :: "string \<Rightarrow> string list"
  y_check_cfg :: "cfg_request \<Rightarrow> flag_env \<Rightarrow> (string option \<times> flag_env) res"
  y_print_file_name :: "string \<Rightarrow> string"

definition lower :: "string \<Rightarrow> string" where
  "lower s = map lower_char s"

definition upper :: "string \<Rightarrow> string" where
  "upper s = map upper_char s"

text \<open>\<^verbatim>\<open>s.replace(old, new)\<close> for a text \<open>old\<close> that is not empty.\<close>

function replace_text :: "string \<Rightarrow> string \<Rightarrow> string \<Rightarrow> string" where
  "replace_text old new s =
     (case s of [] \<Rightarrow> []
      | c # t \<Rightarrow> if old \<noteq> [] \<and> starts_with s old then new @ replace_text old new (drop (length old) s)
               else c # replace_text old new t)"
  by pat_completeness auto

termination
  by (relation "measure (\<lambda>(old, new, s). length s)") auto

declare replace_text.simps [simp del]

section \<open>Configuration\<close>

definition report_optional_feature :: "string \<Rightarrow> string \<Rightarrow> bool \<Rightarrow> string \<Rightarrow> waf_env \<Rightarrow> waf_env" where
  "report_optional_feature name caption was_enabled reason_not_enabled env =
     (let f = \<lparr>f_name = name, f_caption = caption, f_enabled = was_enabled, f_reason = reason_not_enabled\<rparr>
      in env\<lparr>e_features := Some ((case e_features env of None \<Rightarrow> [] | Some fs \<Rightarrow> fs) @ [f])\<rparr>)"

text \<open>In the mode \<^verbatim>\<open>cxx\<close> it is the C compiler that is asked.\<close>

definition check_compilation_flag :: "waf_system \<Rightarrow> string \<Rightarrow> string \<Rightarrow> bool" where
  "check_compilation_flag sys flag mode = (if mode = ''cxx'' then y_check_cc sys flag else y_check_cxx sys flag)"

definition pad_right :: "nat \<Rightarrow> string \<Rightarrow> string" where
  "pad_right n s = s @ replicate (n - length s) (CHR '' '')"

definition print_optional_features :: "waf_env \<Rightarrow> string list" where
  "print_optional_features env =
     ''---- Summary of optional NS-3 features:''
     # map (\<lambda>f. pad_right 30 (f_caption f) @ '': '' @
              (if f_enabled f then ''enabled'' else ''not enabled ('' @ f_reason f @ '')''))
         (case e_features env of None \<Rightarrow> [] | Some fs \<Rightarrow> fs)"

definition is_i386 :: "string \<Rightarrow> bool" where
  "is_i386 machine \<longleftrightarrow> re_match (seqs [lit ''i'', One (\<lambda>c. c \<in> set ''3456''), lit ''86'']) machine \<noteq> None"

definition static_build :: "bool \<Rightarrow> string \<Rightarrow> waf_env \<Rightarrow> waf_env" where
  "static_build on reason env =
     (let env = report_optional_feature ''static'' ''Static build'' on reason env in if on then env\<lparr>e_static := True\<rparr> else env)"

definition check_static :: "waf_system \<Rightarrow> waf_options \<Rightarrow> waf_env \<Rightarrow> waf_env" where
  "check_static sys opts env =
     (let env = env\<lparr>e_static := False, e_suffix := (if o_opt opts then ''optimized'' else ''debug'')\<rparr>;
          env =
            (if o_static opts then
               (if starts_with (y_platform sys) ''linux'' \<and> e_cxx_name env \<in> {''gcc'', ''icc''} then
                  (if is_i386 (y_machine sys) then static_build True [] env
                   else if y_machine sys = ''x86_64'' then
                     (if e_python_bindings env \<and> \<not> check_compilation_flag sys ''-mcmodel=large'' ''cxx''
                      then static_build False
                        (''Can'' @ [CHR 0x27] @ ''t enable static builds because no -mcmodel=large compiler option. Try --disable-python or upgrade your compiler to at least gcc 4.3.x.'') env
                      else static_build True [] env)
                   else env)
                else if e_cxx_name env = ''gcc'' \<and> (starts_with (y_platform sys) ''darwin'' \<or> starts_with (y_platform sys) ''cygwin'')
                then static_build True [] env
                else static_build False ''Unsupported platform'' env)
             else static_build False ''option --enable-static not selected'' env)
      in if e_static env
         then (if y_platform sys = ''darwin'' then env\<lparr>e_stlib_marker := ''-Wl,-all_load''\<rparr>
               else env\<lparr>e_stlib_marker := ''-Wl,--whole-archive,-Bstatic'', e_shlib_marker := ''-Wl,-Bdynamic,--no-whole-archive''\<rparr>)
         else env)"

definition add_list :: "string \<Rightarrow> string list \<Rightarrow> waf_env \<Rightarrow> waf_env" where
  "add_list key vals env = env\<lparr>e_lists := append_value (e_lists env) key vals\<rparr>"

definition get_list :: "waf_env \<Rightarrow> string \<Rightarrow> string list" where
  "get_list env key = env_get (e_lists env) key"

definition check_win32 :: "waf_system \<Rightarrow> waf_env \<Rightarrow> waf_env res" where
  "check_win32 sys env =
     (if e_cxx_name env \<notin> {''gcc'', ''icc''} then Inr env
      else
        (let env = (if y_platform sys = ''win32'' then add_list ''LINKFLAGS'' [''-Wl,--enable-runtime-pseudo-reloc''] env
                    else if y_platform sys = ''cygwin'' then add_list ''LINKFLAGS'' [''-Wl,--enable-auto-import''] env else env)
         in case get_list env ''CXX'' of
              [cxx] \<Rightarrow>
                (let libstdcxx_location = fst (path_split (py_strip (y_print_file_name sys cxx)));
                     env = (if libstdcxx_location \<noteq> [] then add_list ''NS3_MODULE_PATH'' [libstdcxx_location] env else env)
                 in Inr (if starts_with (y_platform sys) ''linux'' \<and> check_compilation_flag sys ''-Wl,--soname=foo'' ''cxx''
                         then env\<lparr>e_soname := True\<rparr> else env))
            | _ \<Rightarrow> Inl ValueError))"

definition build_ns3_libname :: "string \<Rightarrow> string \<Rightarrow> string \<Rightarrow> string" where
  "build_ns3_libname version module_name profile = ''lib'' @ version @ ''-'' @ module_name @ ''-'' @ profile"

text \<open>\<^verbatim>\<open>(ns[0-9][\.\-][dev0-9\.]+)\<close>\<close>

definition is_version_char :: "char \<Rightarrow> bool" where
  "is_version_char c \<longleftrightarrow> c \<in> set ''dev.'' \<or> is_digit c"

definition ns3_version_rx :: rx where
  "ns3_version_rx = Grp 1 (seqs [lit ''ns'', One is_digit, One (\<lambda>c. c = CHR ''.'' \<or> c = CHR ''-''), Plus (One is_version_char)])"

text \<open>
  The version of the installed ns-3, unless it is known: \<open>None\<close> when the function returns early.
  \<^verbatim>\<open>Logs\<close> has no function \<^verbatim>\<open>errors\<close>.  The second part is the variable \<^verbatim>\<open>match_pkg\<close>.
\<close>

definition find_version :: "waf_system \<Rightarrow> waf_env \<Rightarrow> (waf_env \<times> string option) option res" where
  "find_version sys env =
     (if e_version env \<noteq> None then Inr (Some (env, None))
      else case y_glob sys (e_ns3_dir env @ ''/lib/pkgconfig/'' @ build_ns3_libname ''*'' ''core'' (e_suffix env) @ ''.pc'') of
             [] \<Rightarrow> Inr None
           | [pcfile] \<Rightarrow>
               (let match_pkg = basename pcfile in
                case re_search ns3_version_rx match_pkg of
                  None \<Rightarrow> Inl AttributeError
                | Some gs \<Rightarrow> Inr (Some (env\<lparr>e_version := group gs 1\<rparr>, Some match_pkg)))
           | _ \<Rightarrow> Inl AttributeError)"

definition append_stlib :: "(string, stlib_value) dict \<Rightarrow> string \<Rightarrow> string \<Rightarrow> (string, stlib_value) dict" where
  "append_stlib d key v =
     dict_set d key (List_Value ((case dict_get d key of None \<Rightarrow> [] | Some (Text_Value t) \<Rightarrow> [t] | Some (List_Value l) \<Rightarrow> l) @ [v]))"

definition static_libs :: "string \<Rightarrow> string \<Rightarrow> waf_env \<Rightarrow> waf_env" where
  "static_libs match_pkg module_name env =
     (let libname = ''STLIB_ST_NS3_'' @ upper module_name;
          stlib = dict_set (e_stlib env) libname (Text_Value (''-l'' @ replace_text ''libns3'' ''ns3'' match_pkg));
          libs = filter (\<lambda>lib. has_text lib ''ns3'') (get_list env (''LIB_NS3_'' @ upper module_name))
      in env\<lparr>e_stlib := foldl (\<lambda>d lib. append_stlib d libname (''-l'' @ lib)) stlib libs\<rparr>)"

definition found_list :: "waf_env \<Rightarrow> string list" where
  "found_list env = (case e_found env of None \<Rightarrow> [] | Some ms \<Rightarrow> ms)"

definition check_dependency :: "waf_system \<Rightarrow> bool \<Rightarrow> string option \<Rightarrow> waf_env \<times> string list \<Rightarrow> string \<Rightarrow> (waf_env \<times> string list) res" where
  "check_dependency sys mandatory match_pkg st module_name =
     (let (env, found) = st in
      if module_name \<in> set (found_list env) then Inr (env, found)
      else case y_pkg_config_path sys of
             None \<Rightarrow> Inl TypeError
           | Some path \<Rightarrow>
               rbind (y_check_cfg sys
                  \<lparr>c_package = build_ns3_libname (the (e_version env)) (lower module_name) (e_suffix env),
                   c_args = ''--cflags --libs'' @ (if e_static env then '' --static'' else []),
                   c_mandatory = mandatory,
                   c_store = ''NS3_'' @ upper module_name,
                   c_path = path @ '':'' @ e_ns3_dir env @ ''/lib/pkgconfig''\<rparr> (e_lists env)) (\<lambda>(retval, lists).
               let env = env\<lparr>e_lists := lists\<rparr> in
               if retval = None then Inr (env, found)
               else if e_static env
               then (case match_pkg of
                       None \<Rightarrow> Inl UnboundLocalError
                     | Some pkg \<Rightarrow> Inr (static_libs pkg module_name env, found @ [module_name]))
               else Inr (env, found @ [module_name])))"

definition check_dependencies :: "waf_system \<Rightarrow> string list \<Rightarrow> bool \<Rightarrow> waf_env \<Rightarrow> waf_env res" where
  "check_dependencies sys required mandatory env =
     rbind (find_version sys env) (\<lambda>r. case r of
       None \<Rightarrow> Inr env
     | Some (env, match_pkg) \<Rightarrow>
         rbind (foldM (check_dependency sys mandatory match_pkg) (env, []) required) (\<lambda>(env, found).
         Inr (env\<lparr>e_found := Some (found_list env @ found)\<rparr>)))"

definition feature_option :: "bool \<Rightarrow> string \<Rightarrow> string \<Rightarrow> string \<Rightarrow> waf_env \<Rightarrow> waf_env" where
  "feature_option on name caption option_name env =
     report_optional_feature name caption on (if on then [] else ''option '' @ option_name @ '' not selected'') env"

definition configure_options :: "waf_options \<Rightarrow> waf_env \<Rightarrow> waf_env" where
  "configure_options opts env =
     (let env = feature_option (o_log opts) ''log'' ''Logging'' ''--disable-log'' env;
          env = (if o_log opts then add_list ''DEFINES'' [''NS3_LOG_ENABLE''] env else env);
          env = feature_option (o_assert opts) ''assert'' ''Assert checks'' ''--disable-assert'' env;
          env = (if o_assert opts then add_list ''DEFINES'' [''NS3_ASSERT_ENABLE''] env else env);
          env = feature_option (o_gcov opts) ''coverage'' ''Code coverage'' ''--enable-gcov'' env;
          env = (if o_gcov opts
                 then add_list ''LINKFLAGS'' [''-fprofile-arcs'']
                        (add_list ''CXXFLAGS'' [''-ftest-coverage''] (add_list ''CXXFLAGS'' [''-fprofile-arcs'']
                          (add_list ''CFLAGS'' [''-ftest-coverage''] (add_list ''CFLAGS'' [''-fprofile-arcs''] env))))
                 else env);
          env = (feature_option (o_examples opts) ''examples'' ''Example programs'' ''--disable-examples'' env)\<lparr>e_examples := o_examples opts\<rparr>;
          env = (feature_option (o_tests opts) ''tests'' ''Test programs'' ''--disable-tests'' env)\<lparr>e_tests := o_tests opts\<rparr>;
          env = (if o_debug opts then add_list ''CFLAGS'' [''-g''] (add_list ''CXXFLAGS'' [''-g''] env) else env)
      in feature_option (o_debug opts) ''debug'' ''Debug Symbols'' ''--disable-debug'' env)"

text \<open>\<^verbatim>\<open>check_cfg(atleast_pkgconfig_version)\<close> only asks for the program.\<close>

definition check_modules :: "waf_system \<Rightarrow> waf_options \<Rightarrow> string list \<Rightarrow> bool \<Rightarrow> waf_env \<Rightarrow> waf_env res" where
  "check_modules sys opts modules mandatory env =
     rbind (if e_once env then Inr env
            else rbind (check_win32 sys (env\<lparr>e_once := True\<rparr>)) (\<lambda>env.
                 Inr (configure_options opts (check_static sys opts env)))) (\<lambda>env.
     check_dependencies sys modules mandatory env)"

section \<open>Keyword arguments\<close>

text \<open>The keyword arguments of a task generator; adding a list to a string or to \<^verbatim>\<open>None\<close> raises.\<close>

datatype kw_value = Str_Arg string | List_Arg "string list" | None_Arg

type_synonym kwargs = "(string, kw_value) dict"

definition kw_list :: "kwargs \<Rightarrow> string \<Rightarrow> string list res" where
  "kw_list kw key =
     (case dict_get kw key of None \<Rightarrow> Inr [] | Some (List_Arg l) \<Rightarrow> Inr l | Some _ \<Rightarrow> Inl TypeError)"

text \<open>\<^verbatim>\<open>kw[key] = kw.get(key, []) + l\<close>\<close>

definition kw_add :: "string \<Rightarrow> string list \<Rightarrow> kwargs \<Rightarrow> kwargs res" where
  "kw_add key l kw = rbind (kw_list kw key) (\<lambda>old. Inr (dict_set kw key (List_Arg (old @ l))))"

text \<open>The items of an argument in a \<^verbatim>\<open>for\<close> loop: those of a string are its characters.\<close>

definition kw_items :: "kw_value option \<Rightarrow> string list res" where
  "kw_items v =
     (case v of Some (List_Arg l) \<Rightarrow> Inr l | Some (Str_Arg t) \<Rightarrow> Inr (map (\<lambda>c. [c]) t) | _ \<Rightarrow> Inl TypeError)"

definition dirs :: "kw_value option \<Rightarrow> string list res" where
  "dirs source =
     rbind (kw_items source) (\<lambda>l.
     Inr (dict_keys (foldl (\<lambda>d i. dict_set d i True) [] (map (\<lambda>s. fst (path_split s)) l))))"

section \<open>Modules\<close>

text \<open>
  The calls on the build: the group, task generators made from arguments or with a rule, and the files to
  install.  \<open>Is_Program\<close> marks the generator made last.
\<close>

datatype rule = Headers_Rule string | Pc_Rule string "string list"

datatype bld_call =
    Set_Group string
  | Generator kwargs
  | Objects kwargs
  | Rule rule "string list" string bool
  | Install_Files string "string list"
  | Is_Program
  | Log_Error string

record build_ctx =
  b_env :: waf_env
  b_calls :: "bld_call list"

text \<open>
  What is fixed for a build: the output directory, the path of the script below the top, the working
  directory, the machine, and \<^verbatim>\<open>sniff_features\<close> of waf.
\<close>

record build_params =
  bp_out_dir :: string
  bp_path :: string
  bp_cwd :: string
  bp_machine :: string
  bp_sniff :: "kw_value \<Rightarrow> string \<Rightarrow> kw_value"

definition emit_calls :: "bld_call list \<Rightarrow> build_ctx \<Rightarrow> build_ctx" where
  "emit_calls cs b = b\<lparr>b_calls := b_calls b @ cs\<rparr>"

definition modules_uselib :: "string list \<Rightarrow> string list" where
  "modules_uselib names =
     map (\<lambda>name. ''NS3_'' @ upper name) names @ map (\<lambda>name. ''NS3_LIBRARY_'' @ upper name) names
     @ map (\<lambda>name. ''NS3_HEADERS_'' @ upper name) names"

definition modules_found :: "waf_env \<Rightarrow> string list \<Rightarrow> bool" where
  "modules_found env needed \<longleftrightarrow> list_all (\<lambda>m. m \<in> set (found_list env)) needed"

definition c_libname :: "waf_env \<Rightarrow> string \<Rightarrow> string res" where
  "c_libname env name = percent (if e_static env then e_cstlib_pattern env else e_cshlib_pattern env) (Some (''ns3-'' @ name))"

definition out_relpath :: "build_params \<Rightarrow> string" where
  "out_relpath bp = relpath (bp_cwd bp) (bp_out_dir bp) (bp_out_dir bp @ ''/'' @ bp_path bp)"

text \<open>Adding \<open>l\<close> to the value of each key of \<open>kls\<close> in turn.\<close>

definition kw_add_all :: "(string \<times> string list) list \<Rightarrow> kwargs \<Rightarrow> kwargs res" where
  "kw_add_all kls kw = foldM (\<lambda>kw (key, l). kw_add key l kw) kw kls"

text \<open>Flags that depend on the kind of library: C++, C and linker flags.\<close>

definition library_flags :: "build_params \<Rightarrow> waf_env \<Rightarrow> string \<Rightarrow> (string list \<times> string list \<times> string list) res" where
  "library_flags bp env name =
     (if e_static env then Inr ([], [], [])
      else if e_cxx_name env \<in> {''gcc'', ''icc''} \<and> e_soname env
      then rbind (c_libname env name) (\<lambda>libname. Inr ([], [], [''-Wl,--soname='' @ libname]))
      else if e_cxx_name env \<in> {''gcc'', ''icc''} \<and> bp_machine bp = ''x86_64'' \<and> e_python_bindings env
      then Inr ([''-mcmodel=large''], [''-mcmodel=large''], [])
      else Inr ([], [], []))"

definition build_library :: "build_params \<Rightarrow> string \<Rightarrow> kwargs \<Rightarrow> build_ctx \<Rightarrow> build_ctx res" where
  "build_library bp name kw b =
     (let b = emit_calls [Set_Group ''ns3modulebuild''] b; env = b_env b in
      case dict_get kw ''source'' of
        None \<Rightarrow> Inr (emit_calls [Log_Error ''no source !''] b)
      | Some None_Arg \<Rightarrow> Inr (emit_calls [Log_Error ''no source !''] b)
      | Some source \<Rightarrow>
        rbind (dirs (Some source)) (\<lambda>includes.
        rbind (library_flags bp env name) (\<lambda>(cxxflags, cflags, linkflags).
        (let target = path_join (path_join (out_relpath bp) ''lib'') (''ns3-'' @ name);
             kw = dict_set kw ''features'' (bp_sniff bp source (if e_static env then ''stlib'' else ''shlib''));
             kw = dict_set kw ''target'' (Str_Arg target)
         in rbind (kw_add_all [(''cxxflags'', cxxflags), (''cflags'', cflags), (''linkflags'', linkflags),
                     (''ccdefines'', [''NS3_MODULE_COMPILATION'']), (''cxxdefines'', [''NS3_MODULE_COMPILATION'']),
                     (''includes'', includes)] kw) (\<lambda>kw.
            Inr (emit_calls [Generator kw,
                       Generator [(''name'', Str_Arg (''NS3_LIBRARY_'' @ upper name)), (''use'', List_Arg [target])]] b))))))"

definition build_headers :: "build_params \<Rightarrow> string \<Rightarrow> kw_value option \<Rightarrow> build_ctx \<Rightarrow> build_ctx res" where
  "build_headers bp name headers b =
     (let b = emit_calls [Set_Group ''ns3moduleheader''] b in
      case headers of
        None \<Rightarrow> Inr b
      | Some None_Arg \<Rightarrow> Inr b
      | Some (Str_Arg _) \<Rightarrow> Inl TypeError
      | Some (List_Arg hs) \<Rightarrow>
          (let target = path_join (path_join (path_join (out_relpath bp) ''include'') ''ns3'') (name @ ''-module.h'')
           in Inr (emit_calls [Rule (Headers_Rule name) hs target False,
                         Generator [(''use'', List_Arg [target]), (''target'', Str_Arg (''NS3_HEADERS_'' @ upper name)),
                                    (''export_includes'', List_Arg [''include''])],
                         Install_Files ''${PREFIX}/include/ns3'' (hs @ [target])] b)))"

definition build_pkgconfig :: "string \<Rightarrow> string list \<Rightarrow> build_ctx \<Rightarrow> build_ctx" where
  "build_pkgconfig name uses b =
     (let target = ''lib/pkgconfig/libns3-dev-'' @ name @ ''-'' @ e_suffix (b_env b) @ ''.pc''
      in emit_calls [Set_Group ''ns3modulebuild'', Rule (Pc_Rule name uses) [] target True,
               Install_Files ''${PREFIX}/lib/pkgconfig'' [target]] b)"

record ns3_module =
  mod_source_dirs :: "string list"
  mod_name :: string
  mod_needed_ok :: bool

text \<open>The constructor of \<^verbatim>\<open>Module\<close>.\<close>

definition create_module :: "build_params \<Rightarrow> string \<Rightarrow> kwargs \<Rightarrow> build_ctx \<Rightarrow> (ns3_module \<times> build_ctx) res" where
  "create_module bp name kw b =
     rbind (dirs (dict_get kw ''source'')) (\<lambda>source_dirs.
     rbind (case dict_get kw ''needed'' of None \<Rightarrow> Inr [] | v \<Rightarrow> kw_items v) (\<lambda>needed.
     if \<not> modules_found (b_env b) needed
     then Inr (\<lparr>mod_source_dirs = source_dirs, mod_name = name, mod_needed_ok = False\<rparr>, b)
     else
       rbind (kw_add ''use'' (modules_uselib needed) kw) (\<lambda>kw.
       rbind (build_library bp name kw b) (\<lambda>b.
       rbind (build_headers bp name (dict_get kw ''headers'') b) (\<lambda>b.
       rbind (kw_list kw ''use'') (\<lambda>uses.
       let b = build_pkgconfig name uses b;
           env = b_env b
       in Inr (\<lparr>mod_source_dirs = source_dirs, mod_name = name, mod_needed_ok = True\<rparr>,
               b\<lparr>b_env := env\<lparr>e_found := Some (found_list env @ [name])\<rparr>\<rparr>)))))))"

section \<open>Programs of a module\<close>

text \<open>
  The linker flags of one used library in a static build.  A variable that is still a string is added
  character by character.
\<close>

definition static_link :: "waf_env \<Rightarrow> kwargs \<Rightarrow> string \<Rightarrow> kwargs res" where
  "static_link env kw module_name =
     (let kw = (if dict_get kw ''linkflags'' = None then dict_set kw ''linkflags'' (List_Arg []) else kw) in
      if list_ex (has_text (lower module_name)) [''dce'', ''netlink'', ''header'', ''library''] then Inr kw
     else kw_add ''linkflags''
            ([''-ldl''] @ [''-Wl,--whole-archive,-Bstatic''] @
             (case dict_get (e_stlib env) (''STLIB_ST_'' @ upper module_name) of
                None \<Rightarrow> [] | Some (Text_Value t) \<Rightarrow> map (\<lambda>c. [c]) t | Some (List_Value l) \<Rightarrow> l)) kw)"

definition default_features :: "kwargs \<Rightarrow> kwargs" where
  "default_features kw = (if dict_get kw ''features'' = None then dict_set kw ''features'' (Str_Arg ''cxx cxxprogram'') else kw)"

text \<open>A target outside \<^verbatim>\<open>bin_dce\<close> is a program that can be run.\<close>

definition register_program :: "bool \<Rightarrow> kwargs \<Rightarrow> build_ctx \<Rightarrow> build_ctx res" where
  "register_program mark kw b =
     (case dict_get kw ''target'' of
        None \<Rightarrow> Inl KeyError
      | Some (Str_Arg target) \<Rightarrow>
          Inr (if has_text target ''bin_dce'' then b
               else (if mark then emit_calls [Is_Program] b else b)\<lparr>b_env := add_list ''NS3_RUNNABLE_PROGRAMS'' [basename target] (b_env b)\<rparr>)
      | Some _ \<Rightarrow> Inl AttributeError)"

definition externals :: "ns3_module \<Rightarrow> string list \<Rightarrow> string list" where
  "externals m needed = filter (\<lambda>i. i \<noteq> mod_name m) needed"

definition add_example :: "ns3_module \<Rightarrow> string list \<Rightarrow> kwargs \<Rightarrow> build_ctx \<Rightarrow> build_ctx res" where
  "add_example m needed kw b =
     (if \<not> mod_needed_ok m \<or> \<not> e_examples (b_env b) \<or> \<not> modules_found (b_env b) (externals m needed) then Inr b
      else
        rbind (kw_add ''use'' (modules_uselib needed) kw) (\<lambda>kw.
        rbind (kw_list kw ''use'') (\<lambda>uses.
        rbind (if e_static (b_env b) then foldM (static_link (b_env b)) kw uses else Inr kw) (\<lambda>kw.
        let kw = default_features kw in register_program True kw (emit_calls [Generator kw] b)))))"

definition add_runner_test ::
  "build_params \<Rightarrow> ns3_module \<Rightarrow> string list \<Rightarrow> string option \<Rightarrow> kwargs \<Rightarrow> build_ctx \<Rightarrow> build_ctx res" where
  "add_runner_test bp m needed name kw b =
     (let target = mod_name m @ ''-test'' @ (case name of None \<Rightarrow> [] | Some n \<Rightarrow> ''-'' @ n);
          kw = dict_set kw ''target'' (Str_Arg target)
      in rbind (kw_add ''use'' (modules_uselib needed) kw) (\<lambda>kw.
         rbind (build_library bp target kw b) (\<lambda>b.
         let b = b\<lparr>b_env := add_list ''NS3_ENABLED_MODULE_TEST_LIBRARIES'' [out_relpath bp @ ''/lib/ns3-'' @ target] (b_env b)\<rparr>
         in register_program False kw b)))"

definition last_source :: "kw_value \<Rightarrow> kw_value" where
  "last_source v =
     (case v of List_Arg l \<Rightarrow> List_Arg (py_slice l (Some (- 1)) None) | Str_Arg t \<Rightarrow> Str_Arg (py_slice t (Some (- 1)) None) | None_Arg \<Rightarrow> None_Arg)"

text \<open>Every source of a test but the last becomes an object of its own.\<close>

definition test_sourcedir :: "build_params \<Rightarrow> string \<Rightarrow> string" where
  "test_sourcedir bp src = ''NS_TEST_SOURCEDIR='' @ fst (path_split (path_join (bp_path bp) src))"

definition test_object :: "build_params \<Rightarrow> kwargs \<Rightarrow> string \<Rightarrow> kwargs res" where
  "test_object bp kw src =
     kw_add ''defines'' [test_sourcedir bp src]
       (dict_set (dict_set kw ''source'' (List_Arg [src])) ''target'' (Str_Arg (src @ ''_object'')))"

definition add_test :: "build_params \<Rightarrow> ns3_module \<Rightarrow> string list \<Rightarrow> kwargs \<Rightarrow> build_ctx \<Rightarrow> build_ctx res" where
  "add_test bp m needed kw b =
     (if \<not> mod_needed_ok m \<or> \<not> e_tests (b_env b) \<or> \<not> modules_found (b_env b) (externals m needed) then Inr b
      else
        rbind (kw_add ''use'' (modules_uselib needed) kw) (\<lambda>kw.
        rbind (kw_add ''includes'' (mod_source_dirs m) kw) (\<lambda>kw.
        rbind (case dict_get kw ''source'' of None \<Rightarrow> Inl KeyError | v \<Rightarrow> kw_items v) (\<lambda>source.
        let singles = py_slice source (Some 0) (Some (- 1)) in
        rbind (mapM (test_object bp kw) singles) (\<lambda>objs.
        rbind (kw_add ''use'' (map (\<lambda>src. src @ ''_object'') singles) kw) (\<lambda>kw.
        let kw = dict_set kw ''source'' (last_source (the (dict_get kw ''source''))) in
        rbind (py_index (py_slice source (Some (- 1)) None) 0) (\<lambda>src.
        rbind (kw_add ''defines'' [test_sourcedir bp src] kw) (\<lambda>kw.
        let kw = default_features (dict_set kw ''install_path'' None_Arg)
        in register_program True kw (emit_calls (map Objects objs @ [Generator kw]) b)))))))))"

section \<open>Files that are generated\<close>

text \<open>The flags of one dependency; a template of waf that is not set is a list, on which \<^verbatim>\<open>%\<close> raises.\<close>

definition apply_template :: "waf_env \<Rightarrow> string \<Rightarrow> string \<Rightarrow> string res" where
  "apply_template env key arg =
     (case dict_get (e_templates env) key of None \<Rightarrow> Inl TypeError | Some t \<Rightarrow> percent t (Some arg))"

definition lib_of :: "waf_env \<Rightarrow> string \<Rightarrow> string list res" where
  "lib_of env dep =
     rbind (mapM (apply_template env ''LIBPATH_ST'') (get_list env (''LIBPATH_'' @ upper dep))) (\<lambda>paths.
     rbind (mapM (apply_template env ''LIB_ST'') (get_list env (''LIB_'' @ upper dep))) (\<lambda>libs.
     Inr (paths @ get_list env (''LINKFLAGS_'' @ upper dep) @ libs)))"

definition compile_flags_of :: "waf_env \<Rightarrow> string \<Rightarrow> string list res" where
  "compile_flags_of env dep =
     rbind (mapM (apply_template env ''DEFINES_ST'') (get_list env (''DEFINES_'' @ dep))) (\<lambda>defines.
     rbind (mapM (apply_template env ''CPPPATH_ST'') (get_list env (''INCLUDES_'' @ dep))) (\<lambda>includes.
     Inr (get_list env (''CFLAGS_'' @ dep) @ get_list env (''CXXFLAGS_'' @ dep) @ defines @ includes)))"

definition self_lib :: "waf_env \<Rightarrow> string \<Rightarrow> string \<Rightarrow> string list res" where
  "self_lib env name libdir =
     (let (path_st, lib_st, lib_marker) =
            (if e_static env then (''STLIBPATH_ST'', ''STLIB_ST'', e_stlib_marker env)
             else (''LIBPATH_ST'', ''LIB_ST'', e_shlib_marker env))
      in rbind (apply_template env path_st libdir) (\<lambda>path.
         rbind (apply_template env lib_st (''ns3-'' @ name)) (\<lambda>lib. Inr [path, lib_marker, lib])))"

definition generate_pcfile :: "waf_env \<Rightarrow> string \<Rightarrow> string list \<Rightarrow> string \<Rightarrow> string list res" where
  "generate_pcfile env name uses prefix_dir =
     (let includedir = path_join prefix_dir ''include''; libdir = path_join prefix_dir ''lib'' in
      rbind (self_lib env name ''${libdir}'') (\<lambda>libs.
      rbind (mapM (lib_of env) uses) (\<lambda>dep_libs.
      rbind (apply_template env ''CPPPATH_ST'' ''${includedir}'') (\<lambda>cflags.
      rbind (mapM (compile_flags_of env) uses) (\<lambda>dep_flags.
      Inr [[], ''prefix='' @ prefix_dir, ''libdir='' @ libdir, ''includedir='' @ includedir, [],
           ''Name: libns3-'' @ name, ''Description: ns-3 module '' @ name, ''Version: devel'',
           ''Libs: '' @ join_with '' '' (libs @ concat dep_libs),
           ''Cflags: '' @ join_with '' '' (cflags # concat dep_flags), []])))))"

text \<open>The rule that copies the headers of a module and writes the header that includes them all.\<close>

type_synonym header_files = "(string, string list) dict"

definition copy_header :: "string \<Rightarrow> header_files \<Rightarrow> string \<Rightarrow> header_files res" where
  "copy_header out_dir fs src =
     (let dst = path_join out_dir (basename src) in
      if src = dst then Inl (PyException ''SameFileError'')
      else case dict_get fs src of
             None \<Rightarrow> Inl (PyException ''FileNotFoundError'')
           | Some content \<Rightarrow> Inr (dict_set fs dst content))"

definition module_header :: "string \<Rightarrow> string list \<Rightarrow> string list" where
  "module_header name headers =
     [[],
      ''            #ifdef NS3_MODULE_COMPILATION'',
      ''            # error '' @ quoted ''Do not include ns3 module aggregator headers from other modules; these are meant only for end user scripts.'',
      ''            #endif'',
      ''            #ifndef NS3_MODULE_'' @ map (\<lambda>c. if c = CHR ''-'' then CHR ''_'' else c) (upper name),
      ''            '',
      [],
      ''// Module headers:'']
     @ map (\<lambda>h. ''#include '' @ quoted (basename h)) headers @ [''#endif'']"

definition headers_run :: "string \<Rightarrow> string list \<Rightarrow> string \<Rightarrow> header_files \<Rightarrow> header_files res" where
  "headers_run name inputs out_file fs =
     rbind (foldM (copy_header (fst (path_split out_file))) fs inputs) (\<lambda>fs.
     Inr (dict_set fs out_file (module_header name inputs)))"

end
