(* ===== verification/Ns3_Waf_Correct.thy ===== *)
theory Ns3_Waf_Correct
  imports Ns3_Waf
begin

text \<open>
  Correctness of the package support for programs on ns-3: the version read off the installed
  package, the modules that count as found, the modules, examples and tests that are built.
\<close>

section \<open>The installed version\<close>

lemma version_match:
  assumes "is_digit d" and "sep = CHR ''.'' \<or> sep = CHR ''-''" and "w \<noteq> []" and "\<forall>c \<in> set w. is_version_char c"
    and "rest = [] \<or> \<not> is_version_char (hd rest)"
  shows "re_match ns3_version_rx (''ns'' @ d # sep # w @ rest) = Some [(1, ''ns'' @ d # sep # w)]"
proof -
  let ?s = "''ns'' @ d # sep # w @ rest"
  have run: "takeWhile is_version_char (w @ rest) = w"
    using assms(4,5) by (cases rest) (auto simp: takeWhile_append)
  have "matches ns3_version_rx ([], ?s) =
    map (\<lambda>k. ([(1, take (length ?s - length (drop k (w @ rest))) ?s)], drop k (w @ rest))) (rev [1..<Suc (length w)])"
    using assms(1,2) unfolding ns3_version_rx_def
    by (simp add: matches_Plus_One run comp_def starts_with_def del: upt_Suc matches.simps(5))
  moreover have "rev [1..<Suc (length w)] = length w # rev [1..<length w]" using assms(3) by (cases w) auto
  ultimately show ?thesis by (simp add: re_match_def first_groups_def numeral_eq_Suc)
qed

lemma version_search:
  assumes "is_digit d" and "sep = CHR ''.'' \<or> sep = CHR ''-''" and "w \<noteq> []" and "\<forall>c \<in> set w. is_version_char c"
  shows "re_search ns3_version_rx (build_ns3_libname (''ns'' @ d # sep # w) ''core'' suffix_text @ ''.pc'')
    = Some [(1, ''ns'' @ d # sep # w)]"
proof -
  have skip: "re_match ns3_version_rx (c # s) = None" if "c \<noteq> CHR ''n''" for c s
    using that by (simp add: re_match_def ns3_version_rx_def starts_with_def)
  have "is_version_char (CHR ''-'') = False" by (simp add: is_version_char_def is_digit_def)
  then have "re_match ns3_version_rx (''ns'' @ d # sep # w @ (''-core-'' @ suffix_text @ ''.pc'')) = Some [(1, ''ns'' @ d # sep # w)]"
    by (intro version_match assms) simp
  then show ?thesis by (simp add: build_ns3_libname_def skip)
qed

text \<open>
  The version of ns-3 is recovered from the name of the package of its core module, whatever the
  directory it lies in, for every version that consists of a digit, a dot or dash, and letters of \<^verbatim>\<open>dev\<close>,
  digits and dots.
\<close>

theorem installed_version:
  assumes "is_digit d" and "sep = CHR ''.'' \<or> sep = CHR ''-''" and "w \<noteq> []" and "\<forall>c \<in> set w. is_version_char c"
    and "CHR ''/'' \<notin> set (e_suffix env)" and "e_version env = None"
    and "y_glob sys (e_ns3_dir env @ ''/lib/pkgconfig/lib*-core-'' @ e_suffix env @ ''.pc'') =
      [dir @ ''/'' @ build_ns3_libname (''ns'' @ d # sep # w) ''core'' (e_suffix env) @ ''.pc'']"
  shows "\<exists>match_pkg. find_version sys env = Inr (Some (env\<lparr>e_version := Some (''ns'' @ d # sep # w)\<rparr>, Some match_pkg))"
proof -
  let ?f = "build_ns3_libname (''ns'' @ d # sep # w) ''core'' (e_suffix env) @ ''.pc''"
  have "\<not> is_version_char (CHR ''/'')" by (simp add: is_version_char_def is_digit_def)
  then have "CHR ''/'' \<notin> set w" using assms(4) by blast
  moreover have "d \<noteq> CHR ''/''" "sep \<noteq> CHR ''/''" using assms(1,2) by (auto simp: is_digit_def)
  ultimately have "CHR ''/'' \<notin> set ?f" using assms(5) by (simp add: build_ns3_libname_def)
  then have base: "basename (dir @ ''/'' @ ?f) = ?f"
    using basename_append [of ?f dir] by simp
  have glob: "y_glob sys (e_ns3_dir env @ ''/lib/pkgconfig/'' @ build_ns3_libname ''*'' ''core'' (e_suffix env) @ ''.pc'') =
      [dir @ ''/'' @ ?f]"
    using assms(7) by (simp add: build_ns3_libname_def)
  have "group [(1, ''ns'' @ d # sep # w)] 1 = Some (''ns'' @ d # sep # w)" by (simp add: group_def)
  with assms(6) show ?thesis
    unfolding find_version_def glob base Let_def version_search [OF assms(1-4)] list.case option.case by simp
qed

theorem installed_version_witness:
  "\<exists>match_pkg env. find_version
      \<lparr>y_platform = ''linux'', y_machine = ''x86_64'', y_pkg_config_path = None, y_check_cc = \<lambda>f. True, y_check_cxx = \<lambda>f. True,
       y_glob = \<lambda>p. [''/opt/lib/pkgconfig/libns3-dev-core-debug.pc''], y_check_cfg = \<lambda>r l. Inr (None, l), y_print_file_name = \<lambda>c. []\<rparr>
      (undefined\<lparr>e_version := None, e_suffix := ''debug''\<rparr>) = Inr (Some (env\<lparr>e_version := Some ''ns3-dev''\<rparr>, Some match_pkg))"
proof -
  let ?sys = "\<lparr>y_platform = ''linux'', y_machine = ''x86_64'', y_pkg_config_path = None, y_check_cc = \<lambda>f. True, y_check_cxx = \<lambda>f. True,
       y_glob = \<lambda>p. [''/opt/lib/pkgconfig/libns3-dev-core-debug.pc''], y_check_cfg = \<lambda>r l. Inr (None, l), y_print_file_name = \<lambda>c. []\<rparr>"
  have "\<exists>match_pkg. find_version ?sys (undefined\<lparr>e_version := None, e_suffix := ''debug''\<rparr>) =
      Inr (Some ((undefined\<lparr>e_version := None, e_suffix := ''debug''\<rparr>)\<lparr>e_version := Some (''ns'' @ CHR ''3'' # CHR ''-'' # ''dev'')\<rparr>, Some match_pkg))"
    by (rule installed_version [of _ _ _ _ _ "''/opt/lib/pkgconfig''"])
      (simp_all add: is_digit_def is_version_char_def build_ns3_libname_def)
  then show ?thesis by auto
qed

section \<open>Modules that count as found\<close>

text \<open>What is documented of \<^verbatim>\<open>check_cfg\<close>: it gives a value for a package that is installed, and \<^verbatim>\<open>None\<close> for another.\<close>

definition finds_packages :: "waf_system \<Rightarrow> (string \<Rightarrow> bool) \<Rightarrow> bool" where
  "finds_packages sys installed \<longleftrightarrow>
     (\<forall>req lists. \<exists>r lists'. y_check_cfg sys req lists = Inr (r, lists') \<and> (r \<noteq> None \<longleftrightarrow> installed (c_package req)))"

definition same_config :: "waf_env \<Rightarrow> waf_env \<Rightarrow> bool" where
  "same_config env env' \<longleftrightarrow>
     e_found env' = e_found env \<and> e_version env' = e_version env \<and> e_static env' = e_static env \<and> e_suffix env' = e_suffix env"

definition newly_found :: "(string \<Rightarrow> bool) \<Rightarrow> waf_env \<Rightarrow> string list \<Rightarrow> string list" where
  "newly_found installed env required =
     filter (\<lambda>m. m \<notin> set (found_list env) \<and> installed (build_ns3_libname (the (e_version env)) (lower m) (e_suffix env))) required"

lemma newly_found_same: "same_config env env' \<Longrightarrow> newly_found installed env' = newly_found installed env"
  by (simp add: same_config_def newly_found_def found_list_def fun_eq_iff)

lemma check_dependency_one:
  assumes "finds_packages sys installed" and "y_pkg_config_path sys = Some path"
  shows "if e_static env \<and> newly_found installed env [m] \<noteq> [] \<and> match_pkg = None
         then check_dependency sys mandatory match_pkg (env, found) m = Inl UnboundLocalError
         else \<exists>env'. check_dependency sys mandatory match_pkg (env, found) m = Inr (env', found @ newly_found installed env [m])
                 \<and> same_config env env'"
proof (cases "m \<in> set (found_list env)")
  case True
  then show ?thesis by (simp add: newly_found_def check_dependency_def same_config_def)
next
  case False
  define req where "req = \<lparr>c_package = build_ns3_libname (the (e_version env)) (lower m) (e_suffix env),
                   c_args = ''--cflags --libs'' @ (if e_static env then '' --static'' else []),
                   c_mandatory = mandatory, c_store = ''NS3_'' @ upper m,
                   c_path = path @ '':'' @ e_ns3_dir env @ ''/lib/pkgconfig''\<rparr>"
  from assms(1) obtain r lists where r: "y_check_cfg sys req (e_lists env) = Inr (r, lists)" "r \<noteq> None \<longleftrightarrow> installed (c_package req)"
    unfolding finds_packages_def by blast
  have "check_dependency sys mandatory match_pkg (env, found) m =
     (let env = env\<lparr>e_lists := lists\<rparr> in
               if r = None then Inr (env, found)
               else if e_static env
               then (case match_pkg of
                       None \<Rightarrow> Inl UnboundLocalError
                     | Some pkg \<Rightarrow> Inr (static_libs pkg m env, found @ [m]))
               else Inr (env, found @ [m]))"
    using False assms(2) r(1) by (simp add: check_dependency_def req_def)
  then show ?thesis
    using False r(2) by (auto simp: newly_found_def req_def same_config_def static_libs_def Let_def split: option.splits)
qed

lemma check_dependency_loop:
  assumes "finds_packages sys installed" and "y_pkg_config_path sys = Some path"
  shows "if e_static env \<and> newly_found installed env required \<noteq> [] \<and> match_pkg = None
         then foldM (check_dependency sys mandatory match_pkg) (env, found) required = Inl UnboundLocalError
         else \<exists>env'. foldM (check_dependency sys mandatory match_pkg) (env, found) required = Inr (env', found @ newly_found installed env required)
                 \<and> same_config env env'"
proof (induction required arbitrary: env found)
  case Nil
  show ?case by (simp add: newly_found_def same_config_def)
next
  case (Cons m ms)
  have split: "newly_found installed env (m # ms) = newly_found installed env [m] @ newly_found installed env ms"
    by (simp add: newly_found_def)
  show ?case
  proof (cases "e_static env \<and> newly_found installed env [m] \<noteq> [] \<and> match_pkg = None")
    case True
    with check_dependency_one [OF assms, of env m match_pkg mandatory found] show ?thesis by (simp add: split)
  next
    case False
    with check_dependency_one [OF assms, of env m match_pkg mandatory found] obtain env1 where
      env1: "check_dependency sys mandatory match_pkg (env, found) m = Inr (env1, found @ newly_found installed env [m])"
        "same_config env env1" by auto
    have onward: "same_config env env2" if "same_config env1 env2" for env2
      using env1(2) that by (simp add: same_config_def)
    have "e_static env1 = e_static env" using env1(2) by (simp add: same_config_def)
    with Cons.IH [of env1 "found @ newly_found installed env [m]"] False env1 show ?thesis
      by (auto simp: split newly_found_same [OF env1(2)] intro!: onward)
  qed
qed


definition desk_system :: waf_system where
  "desk_system =
     \<lparr>y_platform = ''linux'', y_machine = ''x86_64'', y_pkg_config_path = Some ''/usr/lib/pkgconfig'', y_check_cc = \<lambda>f. True,
      y_check_cxx = \<lambda>f. True, y_glob = \<lambda>p. [''/opt/lib/pkgconfig/libns3-dev-core-debug.pc''],
      y_check_cfg = \<lambda>r l. Inr (if c_package r = ''libns3-dev-wifi-debug'' then Some [] else None, l), y_print_file_name = \<lambda>c. []\<rparr>"

definition plain_env :: "bool \<Rightarrow> waf_env" where
  "plain_env static =
     \<lparr>e_lists = [], e_stlib = [], e_features = None, e_found = Some [''core''], e_version = Some ''ns3-dev'', e_once = True,
      e_static = static, e_suffix = ''debug'', e_soname = True, e_examples = True, e_tests = True, e_stlib_marker = [],
      e_shlib_marker = [], e_python_bindings = False, e_cxx_name = ''gcc'', e_ns3_dir = ''/opt'', e_prefix = ''/opt'',
      e_cshlib_pattern = ''lib%s.so'', e_cstlib_pattern = ''lib%s.a'', e_templates = []\<rparr>"


section \<open>Modules that are built\<close>

text \<open>
  Modules with the modules they need, and what can be had of them: what is found, and what needs
  only what can be had.
\<close>

inductive available :: "string set \<Rightarrow> (string \<times> string list) list \<Rightarrow> string \<Rightarrow> bool" for found decls where
  found: "m \<in> found \<Longrightarrow> available found decls m"
| built: "(m, needs) \<in> set decls \<Longrightarrow> (\<And>n. n \<in> set needs \<Longrightarrow> available found decls n) \<Longrightarrow> available found decls m"

text \<open>The script of a program creates its modules in turn.\<close>

definition create_next :: "build_params \<Rightarrow> ns3_module list \<times> build_ctx \<Rightarrow> string \<times> kwargs \<Rightarrow> (ns3_module list \<times> build_ctx) res" where
  "create_next bp st d =
     (let (ms, b) = st; (name, kw) = d in rbind (create_module bp name kw b) (\<lambda>(m, b). Inr (ms @ [m], b)))"

definition list_arg :: "kwargs \<Rightarrow> string \<Rightarrow> bool" where
  "list_arg kw key \<longleftrightarrow> (case dict_get kw key of None \<Rightarrow> True | Some (List_Arg _) \<Rightarrow> True | Some _ \<Rightarrow> False)"

definition list_keys :: "string list" where
  "list_keys = [''needed'', ''use'', ''cxxflags'', ''cflags'', ''linkflags'', ''ccdefines'', ''cxxdefines'', ''includes'', ''headers'']"

definition module_args :: "kwargs \<Rightarrow> bool" where
  "module_args kw \<longleftrightarrow> (\<exists>l. dict_get kw ''source'' = Some (List_Arg l)) \<and> list_all (list_arg kw) list_keys"

definition needs_of :: "kwargs \<Rightarrow> string list" where
  "needs_of kw = (case dict_get kw ''needed'' of Some (List_Arg l) \<Rightarrow> l | _ \<Rightarrow> [])"

definition shlib_names :: "waf_env \<Rightarrow> bool" where
  "shlib_names env \<longleftrightarrow> (\<forall>name. \<exists>s. c_libname env name = Inr s)"

lemma kw_add_list: "list_arg kw key \<Longrightarrow> \<exists>old. kw_add key l kw = Inr (dict_set kw key (List_Arg old))"
  by (auto simp: list_arg_def kw_add_def kw_list_def split: option.splits kw_value.splits)

lemma list_arg_set [simp]: "list_arg (dict_set kw k (List_Arg l)) key \<longleftrightarrow> key = k \<or> list_arg kw key"
  by (simp add: list_arg_def)

lemma list_arg_set_other: "key \<noteq> k \<Longrightarrow> list_arg (dict_set kw k v) key = list_arg kw key"
  by (simp add: list_arg_def)

lemma kw_add_all_lists:
  "list_all (\<lambda>(key, l). list_arg kw key) kls \<Longrightarrow> \<exists>kw'. kw_add_all kls kw = Inr kw'"
proof (induction kls arbitrary: kw)
  case (Cons kl kls)
  obtain key l where kl: "kl = (key, l)" by (cases kl)
  with Cons.prems obtain old where "kw_add key l kw = Inr (dict_set kw key (List_Arg old))"
    using kw_add_list [of kw key l] by auto
  moreover have "list_all (\<lambda>(key, l). list_arg (dict_set kw key' (List_Arg old)) key) kls" for key'
    using Cons.prems by (auto simp: list_all_iff)
  then obtain kw' where "kw_add_all kls (dict_set kw key (List_Arg old)) = Inr kw'" using Cons.IH by blast
  ultimately show ?case by (simp add: kw_add_all_def kl)
qed (simp add: kw_add_all_def)

lemma emit_env [simp]: "b_env (emit_calls cs b) = b_env b"
  by (simp add: emit_calls_def)

lemma build_library_env:
  assumes "build_library bp name kw b = Inr b'"
  shows "b_env b' = b_env b"
  using assms by (auto simp: build_library_def Let_def res_simps split: option.splits kw_value.splits if_splits)

lemma build_library_works:
  assumes "module_args kw" and "shlib_names (b_env b)"
  shows "\<exists>b'. build_library bp name kw b = Inr b'"
proof -
  obtain l where source: "dict_get kw ''source'' = Some (List_Arg l)" using assms(1) by (auto simp: module_args_def)
  obtain incs where inc: "dirs (Some (List_Arg l)) = Inr incs" by (simp add: dirs_def kw_items_def)
  obtain a c d where flags: "library_flags bp (b_env b) name = Inr (a, c, d)"
    using assms(2) by (auto simp: library_flags_def shlib_names_def) (metis rbind_simps(2))+
  let ?kw = "dict_set (dict_set kw ''features'' (bp_sniff bp (List_Arg l) (if e_static (b_env b) then ''stlib'' else ''shlib'')))
      ''target'' (Str_Arg (path_join (path_join (out_relpath bp) ''lib'') (''ns3-'' @ name)))"
  have "list_all (\<lambda>(key, l). list_arg ?kw key)
     [(''cxxflags'', a), (''cflags'', c), (''linkflags'', d), (''ccdefines'', [''NS3_MODULE_COMPILATION'']),
      (''cxxdefines'', [''NS3_MODULE_COMPILATION'']), (''includes'', incs)]"
    using assms(1) by (simp add: module_args_def list_keys_def list_arg_set_other)
  from kw_add_all_lists [OF this] show ?thesis
    using source inc flags by (auto simp: build_library_def Let_def)
qed

lemma create_module_outcome:
  assumes "module_args kw" and "shlib_names (b_env b)"
  shows "\<exists>m b'. create_module bp name kw b = Inr (m, b') \<and> mod_name m = name
    \<and> mod_needed_ok m = (set (needs_of kw) \<subseteq> set (found_list (b_env b)))
    \<and> (if mod_needed_ok m then b_env b' = (b_env b)\<lparr>e_found := Some (found_list (b_env b) @ [name])\<rparr> else b' = b)"
proof -
  obtain l where source: "dict_get kw ''source'' = Some (List_Arg l)" using assms(1) by (auto simp: module_args_def)
  obtain sd where sd: "dirs (Some (List_Arg l)) = Inr sd" by (simp add: dirs_def kw_items_def)
  have needed: "(case dict_get kw ''needed'' of None \<Rightarrow> Inr [] | v \<Rightarrow> kw_items v) = Inr (needs_of kw)"
  proof -
    have "list_arg kw ''needed''" using assms(1) by (simp add: module_args_def list_keys_def)
    then show ?thesis
      unfolding list_arg_def needs_of_def kw_items_def by (cases "dict_get kw ''needed''") (simp_all split: kw_value.splits)
  qed
  have found: "modules_found (b_env b) (needs_of kw) \<longleftrightarrow> set (needs_of kw) \<subseteq> set (found_list (b_env b))"
    by (auto simp: modules_found_def list_all_iff)
  show ?thesis
  proof (cases "modules_found (b_env b) (needs_of kw)")
    case False
    then show ?thesis using source sd needed found by (simp add: create_module_def)
  next
    case True
    obtain old where kw: "kw_add ''use'' (modules_uselib (needs_of kw)) kw = Inr (dict_set kw ''use'' (List_Arg old))"
      using kw_add_list [of kw "''use''"] assms(1) by (auto simp: module_args_def list_keys_def)
    let ?kw = "dict_set kw ''use'' (List_Arg old)"
    have args: "module_args ?kw" using assms(1) by (simp add: module_args_def list_keys_def)
    obtain b1 where b1: "build_library bp name ?kw b = Inr b1" "b_env b1 = b_env b"
      using build_library_works [OF args assms(2)] build_library_env by blast
    have "list_arg kw ''headers''" using assms(1) by (simp add: module_args_def list_keys_def)
    then obtain b2 where b2: "build_headers bp name (dict_get ?kw ''headers'') b1 = Inr b2" "b_env b2 = b_env b1"
      by (auto simp: list_arg_def build_headers_def Let_def split: option.splits kw_value.splits)
    have "kw_list ?kw ''use'' = Inr old" by (simp add: kw_list_def)
    then show ?thesis
      using source sd needed found True kw b1 b2 by (simp add: create_module_def build_pkgconfig_def Let_def)
  qed
qed

lemma Collect_less_Suc: "{g i |i. i < Suc n \<and> Q i} = {g i |i. i < n \<and> Q i} \<union> (if Q n then {g n} else {})"
  by (auto simp: less_Suc_eq)

lemma create_modules_run:
  assumes "list_all (\<lambda>(name, kw). module_args kw) ds" and "shlib_names (b_env b)"
  shows "\<exists>ms b'. foldM (create_next bp) ([], b) ds = Inr (ms, b') \<and> map mod_name ms = map fst ds
    \<and> set (found_list (b_env b')) = set (found_list (b_env b)) \<union> {fst (ds ! i) |i. i < length ds \<and> mod_needed_ok (ms ! i)}
    \<and> (\<forall>i < length ds. mod_needed_ok (ms ! i) \<longleftrightarrow>
          set (needs_of (snd (ds ! i))) \<subseteq> set (found_list (b_env b)) \<union> {fst (ds ! j) |j. j < i \<and> mod_needed_ok (ms ! j)})
    \<and> shlib_names (b_env b')"
  using assms(1)
proof (induction ds rule: rev_induct)
  case Nil
  with assms(2) show ?case by simp
next
  case (snoc d ds)
  obtain name kw where d: "d = (name, kw)" by (cases d)
  from snoc obtain ms b1 where IH: "foldM (create_next bp) ([], b) ds = Inr (ms, b1)" "map mod_name ms = map fst ds"
      "set (found_list (b_env b1)) = set (found_list (b_env b)) \<union> {fst (ds ! i) |i. i < length ds \<and> mod_needed_ok (ms ! i)}"
      "\<And>i. i < length ds \<Longrightarrow> mod_needed_ok (ms ! i) \<longleftrightarrow>
          set (needs_of (snd (ds ! i))) \<subseteq> set (found_list (b_env b)) \<union> {fst (ds ! j) |j. j < i \<and> mod_needed_ok (ms ! j)}"
      "shlib_names (b_env b1)" by auto
  have len: "length ms = length ds" using IH(2) by (metis length_map)
  have "module_args kw" using snoc.prems d by simp
  from create_module_outcome [OF this IH(5), of bp name] obtain m b2 where
    m: "create_module bp name kw b1 = Inr (m, b2)" "mod_name m = name"
      "mod_needed_ok m = (set (needs_of kw) \<subseteq> set (found_list (b_env b1)))"
      "if mod_needed_ok m then b_env b2 = (b_env b1)\<lparr>e_found := Some (found_list (b_env b1) @ [name])\<rparr> else b2 = b1" by blast
  have run: "foldM (create_next bp) ([], b) (ds @ [d]) = Inr (ms @ [m], b2)"
    using IH(1) m(1) d by (simp add: foldM_append create_next_def)
  have old: "{fst ((ds @ [d]) ! j) |j. j < i \<and> mod_needed_ok ((ms @ [m]) ! j)} = {fst (ds ! j) |j. j < i \<and> mod_needed_ok (ms ! j)}"
    if "i \<le> length ds" for i
    using that len by (force simp: nth_append)
  have step: "{fst ((ds @ [d]) ! i) |i. i < length (ds @ [d]) \<and> mod_needed_ok ((ms @ [m]) ! i)} =
      {fst (ds ! i) |i. i < length ds \<and> mod_needed_ok (ms ! i)} \<union> (if mod_needed_ok m then {name} else {})"
    using Collect_less_Suc [of "\<lambda>i. fst ((ds @ [d]) ! i)" "length ds" "\<lambda>i. mod_needed_ok ((ms @ [m]) ! i)"] old [OF order_refl] len d
    by (simp add: nth_append)
  have "shlib_names (b_env b2)" using m(4) IH(5) by (auto simp: shlib_names_def c_libname_def split: if_splits)
  moreover have "set (found_list (b_env b2)) = set (found_list (b_env b1)) \<union> (if mod_needed_ok m then {name} else {})"
    using m(4) by (auto simp: found_list_def split: if_splits)
  moreover have "mod_needed_ok ((ms @ [m]) ! i) \<longleftrightarrow>
          set (needs_of (snd ((ds @ [d]) ! i))) \<subseteq> set (found_list (b_env b)) \<union> {fst ((ds @ [d]) ! j) |j. j < i \<and> mod_needed_ok ((ms @ [m]) ! j)}"
    if "i < length (ds @ [d])" for i
  proof (cases "i = length ds")
    case True
    then show ?thesis using m(3) IH(3) d len old [of i] by (simp add: nth_append)
  next
    case False
    then have i: "i < length ds" using that by simp
    then show ?thesis using IH(4) [OF i] len old [of i] by (simp add: nth_append)
  qed
  ultimately show ?case
    using run IH(2,3) m(2) d step by (intro exI [of _ "ms @ [m]"] exI [of _ b2]) auto
qed

text \<open>A module that another one needs is created before it.\<close>

definition needs_first :: "(string \<times> string list) list \<Rightarrow> bool" where
  "needs_first decls \<longleftrightarrow>
     (\<forall>i < length decls. \<forall>n \<in> set (snd (decls ! i)). n \<in> fst ` set decls \<longrightarrow> n \<in> fst ` set (take i decls))"

lemma built_available:
  assumes "distinct (map fst decls)" and "needs_first decls" and "fst ` set decls \<inter> found = {}"
    and "\<And>i. i < length decls \<Longrightarrow> ok i \<longleftrightarrow> set (snd (decls ! i)) \<subseteq> found \<union> {fst (decls ! j) |j. j < i \<and> ok j}"
    and "i < length decls"
  shows "ok i \<longleftrightarrow> available found decls (fst (decls ! i))"
  using assms(5)
proof (induction i rule: less_induct)
  case (less i)
  let ?d = "decls ! i"
  have unique: "(fst ?d, needs) \<in> set decls \<longleftrightarrow> needs = snd ?d" for needs
    using assms(1) less.prems eq_key_imp_eq_value [of decls "fst ?d" needs "snd ?d"] nth_mem [OF less.prems] by auto
  have here: "available found decls (fst ?d) \<longleftrightarrow> (\<forall>n \<in> set (snd ?d). available found decls n)"
  proof -
    have "fst ?d \<notin> found" using assms(3) nth_mem [OF less.prems] by blast
    then show ?thesis unfolding available.simps [of found decls "fst ?d"] by (auto simp: unique)
  qed
  have need: "available found decls n \<longleftrightarrow> n \<in> found \<union> {fst (decls ! j) |j. j < i \<and> ok j}" if n: "n \<in> set (snd ?d)" for n
  proof (cases "n \<in> fst ` set decls")
    case True
    then have "n \<in> fst ` set (take i decls)" using assms(2) less.prems n by (auto simp: needs_first_def)
    then obtain j where j: "j < i" "fst (decls ! j) = n" using less.prems by (auto simp: in_set_conv_nth)
    have "j = k" if "k < i" "fst (decls ! k) = n" for k
      using that j less.prems assms(1) by (metis (no_types) length_map less_trans nth_eq_iff_index_eq nth_map)
    moreover have "n \<notin> found" using True assms(3) by blast
    moreover have "ok j \<longleftrightarrow> available found decls n" using less.IH [OF j(1)] j less.prems by simp
    ultimately show ?thesis using j by blast
  next
    case False
    then have "(n, needs) \<notin> set decls" for needs by (metis fst_conv image_eqI)
    then have "available found decls n \<longleftrightarrow> n \<in> found" unfolding available.simps [of found decls n] by simp
    moreover have "n \<noteq> fst (decls ! j)" if "j < i" for j
      using False that less.prems by (metis image_eqI less_trans nth_mem)
    ultimately show ?thesis by auto
  qed
  show ?case unfolding assms(4) [OF less.prems] here using need by blast
qed


lemma plain_shlib_names: "shlib_names (plain_env False)"
proof -
  have "percent (''lib%s.so'') (Some s) = Inr (''lib'' @ s @ ''.so'')" for s
    by (simp add: percent.simps read_conversion_def after_width_def after_precision_def after_modifier_def is_flag_def
        convert_def pad_def Let_def is_digit_def starts_with_def number_of_def parse_nat_def)
  then show ?thesis by (simp add: shlib_names_def c_libname_def plain_env_def)
qed

definition desk_build :: build_params where
  "desk_build = \<lparr>bp_out_dir = ''/w/build'', bp_path = ''.'', bp_cwd = ''/w'', bp_machine = ''x86_64'', bp_sniff = \<lambda>s t. Str_Arg ''cxx''\<rparr>"


section \<open>Programs of a module that is not built\<close>

text \<open>
  A module that is not built gets no examples and no tests.  Its runner test is built all the same,
  as a library that uses the modules it needs, and entered among the test libraries.
\<close>

theorem runner_test_unguarded:
  assumes "\<not> mod_needed_ok m" and "module_args kw" and "shlib_names (b_env b)"
  shows "add_example m needed kw b = Inr b \<and> add_test bp m needed kw b = Inr b
    \<and> (\<exists>b'. add_runner_test bp m needed None kw b = Inr b'
        \<and> Generator [(''name'', Str_Arg (''NS3_LIBRARY_'' @ upper (mod_name m @ ''-test''))),
              (''use'', List_Arg [path_join (path_join (out_relpath bp) ''lib'') (''ns3-'' @ mod_name m @ ''-test'')])] \<in> set (b_calls b')
        \<and> out_relpath bp @ ''/lib/ns3-'' @ mod_name m @ ''-test'' \<in> set (get_list (b_env b') ''NS3_ENABLED_MODULE_TEST_LIBRARIES''))"
proof -
  let ?t = "mod_name m @ ''-test''"
  let ?kw = "dict_set kw ''target'' (Str_Arg ?t)"
  have "list_arg ?kw ''use''" using assms(2) by (simp add: module_args_def list_keys_def list_arg_set_other)
  then obtain old where uses: "kw_add ''use'' (modules_uselib needed) ?kw = Inr (dict_set ?kw ''use'' (List_Arg old))"
    using kw_add_list by blast
  let ?kw2 = "dict_set ?kw ''use'' (List_Arg old)"
  have "module_args ?kw2" using assms(2) by (simp add: module_args_def list_keys_def list_arg_set_other)
  then obtain b1 where b1: "build_library bp ?t ?kw2 b = Inr b1" "b_env b1 = b_env b"
    using build_library_works [OF _ assms(3)] build_library_env by blast
  have "dict_get ?kw2 ''source'' = dict_get kw ''source''" by simp
  then obtain l where "dict_get ?kw2 ''source'' = Some (List_Arg l)" using assms(2) by (auto simp: module_args_def)
  then have lib: "Generator [(''name'', Str_Arg (''NS3_LIBRARY_'' @ upper ?t)),
              (''use'', List_Arg [path_join (path_join (out_relpath bp) ''lib'') (''ns3-'' @ ?t)])] \<in> set (b_calls b1)"
    using b1(1) by (auto simp: build_library_def Let_def res_simps emit_calls_def)
  have "dict_get ?kw2 ''target'' = Some (Str_Arg ?t)" by simp
  then obtain b2 where b2: "register_program False ?kw2
      (b1\<lparr>b_env := add_list ''NS3_ENABLED_MODULE_TEST_LIBRARIES'' [out_relpath bp @ ''/lib/ns3-'' @ ?t] (b_env b1)\<rparr>) = Inr b2"
      "b_calls b2 = b_calls b1"
      "out_relpath bp @ ''/lib/ns3-'' @ ?t \<in> set (get_list (b_env b2) ''NS3_ENABLED_MODULE_TEST_LIBRARIES'')"
    by (auto simp: register_program_def add_list_def get_list_def append_value_def env_get_def)
  have "add_runner_test bp m needed None kw b = Inr b2"
    using uses b1(1) b2(1) by (simp add: add_runner_test_def Let_def)
  then show ?thesis using assms(1) lib b2(2,3) by (simp add: add_example_def add_test_def)
qed

theorem runner_test_unguarded_witness:
  "\<exists>b'. add_runner_test desk_build \<lparr>mod_source_dirs = [], mod_name = ''dce'', mod_needed_ok = False\<rparr> [''core''] None
      [(''source'', List_Arg [''t.cc''])] \<lparr>b_env = plain_env False, b_calls = []\<rparr> = Inr b'"
  using runner_test_unguarded [of "\<lparr>mod_source_dirs = [], mod_name = ''dce'', mod_needed_ok = False\<rparr>" "[(''source'', List_Arg [''t.cc''])]"
      "\<lparr>b_env = plain_env False, b_calls = []\<rparr>" "[''core'']" desk_build] plain_shlib_names
  by (auto simp: module_args_def list_keys_def list_arg_def)

end
