(* ===== verification/Viz_Run.thy ===== *)
theory Viz_Run
  imports Complex_Main Py_Prelude
begin

text \<open>
  \<^verbatim>\<open>src/source/ns-3-dev/src/visualizer/visualizer/core.py\<close>: the thread that runs the simulator and
  the thread of the window, which share a lock, an event and the target time.  Each statement that touches
  what they share is a step.  While the simulator is busy the callback of the timer serves other events,
  so the callbacks of the window form a stack.  The simulator is an argument: for the number of the
  run, the time and the target it gives the time reached and the pause messages.
\<close>

section \<open>The state\<close>

datatype owner = Sim | View

text \<open>The statements of \<^verbatim>\<open>SimulationThread.run\<close>.\<close>

datatype sim_pc =
    At_Check | At_Wait | At_Clear | At_Quit_Check | At_Acquire | At_Run | At_Report | At_Release | Ended

text \<open>Callbacks that take the lock, do their work and release it.\<close>

datatype locked_call = Update_Model | Nodes_Of_Interest | Tooltip | Node_Drag | Information_Window

text \<open>
  The callbacks in progress: the timer callback, with the number of its source and the pause messages it
  took; a callback of the kind above; and \<^verbatim>\<open>_quit\<close>.
\<close>

datatype frame =
    Tick_Try nat | Tick_Pump nat
  | Tick_View nat "string list" | Tick_Target nat "string list" | Tick_Release nat "string list" | Tick_Pause nat "string list" | Tick_Go nat
  | Locked_Acquire locked_call | Locked_Body locked_call | Locked_Release locked_call
  | Quit_Timer | Quit_Flag | Quit_Go | Quit_Join | Quit_Main

record viz =
  v_lock :: "owner option"
  v_go :: bool
  v_quit :: bool
  v_target :: rat
  v_now :: rat
  v_runs :: nat
  v_messages :: "string list"
  v_idles :: nat
  v_pc :: sim_pc
  v_frames :: "frame list"
  v_shown :: rat
  v_speed :: rat
  v_period :: rat
  v_playing :: bool
  v_timers :: "nat list"
  v_timer_id :: "nat option"
  v_next_id :: nat
  v_main_quit :: bool

definition SAMPLE_PERIOD :: rat where
  "SAMPLE_PERIOD = 1 / 10"

section \<open>The simulation thread\<close>

type_synonym simulator = "nat \<Rightarrow> rat \<Rightarrow> rat \<Rightarrow> rat \<times> string list"

text \<open>One statement; \<open>None\<close> when the thread has to wait or has ended.\<close>

definition sim_step :: "simulator \<Rightarrow> viz \<Rightarrow> viz option" where
  "sim_step run_until s =
     (case v_pc s of
        At_Check \<Rightarrow> Some (s\<lparr>v_pc := if v_quit s then Ended else At_Wait\<rparr>)
      | At_Wait \<Rightarrow> if v_go s then Some (s\<lparr>v_pc := At_Clear\<rparr>) else None
      | At_Clear \<Rightarrow> Some (s\<lparr>v_go := False, v_pc := At_Quit_Check\<rparr>)
      | At_Quit_Check \<Rightarrow> Some (s\<lparr>v_pc := if v_quit s then Ended else At_Acquire\<rparr>)
      | At_Acquire \<Rightarrow> if v_lock s = None then Some (s\<lparr>v_lock := Some Sim, v_pc := At_Run\<rparr>) else None
      | At_Run \<Rightarrow>
          (let (now, msgs) = run_until (v_runs s) (v_now s) (v_target s)
           in Some (s\<lparr>v_now := now, v_runs := v_runs s + 1, v_messages := v_messages s @ msgs, v_pc := At_Report\<rparr>))
      | At_Report \<Rightarrow> Some (s\<lparr>v_idles := v_idles s + 1, v_pc := At_Release\<rparr>)
      | At_Release \<Rightarrow> Some (s\<lparr>v_lock := None, v_pc := At_Check\<rparr>)
      | Ended \<Rightarrow> None)"

section \<open>The thread of the window\<close>

text \<open>\<^verbatim>\<open>GLib.source_remove\<close> and \<^verbatim>\<open>_start_update_timer\<close>; removing a source that is gone changes nothing.\<close>

definition source_remove :: "nat \<Rightarrow> viz \<Rightarrow> viz" where
  "source_remove i s = s\<lparr>v_timers := filter (\<lambda>j. j \<noteq> i) (v_timers s)\<rparr>"

definition remove_timer :: "viz \<Rightarrow> viz" where
  "remove_timer s = (case v_timer_id s of None \<Rightarrow> s | Some i \<Rightarrow> source_remove i s)"

definition start_update_timer :: "viz \<Rightarrow> viz" where
  "start_update_timer s =
     (let s = remove_timer s
      in s\<lparr>v_timers := v_timers s @ [v_next_id s], v_timer_id := Some (v_next_id s), v_next_id := v_next_id s + 1\<rparr>)"

text \<open>The interval of the timer in milliseconds.\<close>

definition timer_interval :: "rat \<Rightarrow> int" where
  "timer_interval speed = \<lfloor>SAMPLE_PERIOD / min speed 1 * 1000\<rfloor>"

text \<open>\<^verbatim>\<open>set_active\<close> on the play button, with its handler, which is called when the state changes.\<close>

definition on_play_button_toggled :: "viz \<Rightarrow> viz" where
  "on_play_button_toggled s = (if v_playing s then start_update_timer s else remove_timer s)"

definition set_playing :: "bool \<Rightarrow> viz \<Rightarrow> viz" where
  "set_playing b s = (if v_playing s = b then s else on_play_button_toggled (s\<lparr>v_playing := b\<rparr>))"

definition speed_changed :: "rat \<Rightarrow> viz \<Rightarrow> viz" where
  "speed_changed v s = start_update_timer (s\<lparr>v_speed := v, v_period := SAMPLE_PERIOD * v\<rparr>)"

text \<open>
  One statement of the callback on top of the stack; \<open>None\<close> when it has to wait or there is none.  A
  timer callback that returns \<^verbatim>\<open>False\<close> removes its source.
\<close>

fun view_step_top :: "frame \<Rightarrow> viz \<Rightarrow> (frame list \<times> viz) option" where
  "view_step_top (Tick_Try i) s =
     (if v_lock s = None then Some ([Tick_View i (v_messages s)], s\<lparr>v_lock := Some View, v_messages := []\<rparr>)
      else Some ([Tick_Pump i], s))"
| "view_step_top (Tick_Pump i) s = Some ([Tick_Try i], s)"
| "view_step_top (Tick_View i msgs) s = Some ([Tick_Target i msgs], s\<lparr>v_shown := v_now s\<rparr>)"
| "view_step_top (Tick_Target i msgs) s = Some ([Tick_Release i msgs], s\<lparr>v_target := v_now s + v_period s\<rparr>)"
| "view_step_top (Tick_Release i msgs) s = Some ([Tick_Pause i msgs], s\<lparr>v_lock := None\<rparr>)"
| "view_step_top (Tick_Pause i msgs) s = Some ([Tick_Go i], if msgs \<noteq> [] then set_playing False s else s)"
| "view_step_top (Tick_Go i) s =
     (if \<not> v_playing s then Some ([], source_remove i (s\<lparr>v_timer_id := None\<rparr>)) else Some ([], s\<lparr>v_go := True\<rparr>))"
| "view_step_top (Locked_Acquire k) s =
     (if v_lock s = None then Some ([Locked_Body k], s\<lparr>v_lock := Some View\<rparr>) else None)"
| "view_step_top (Locked_Body k) s = Some ([Locked_Release k], s)"
| "view_step_top (Locked_Release k) s = Some ([], s\<lparr>v_lock := None\<rparr>)"
| "view_step_top Quit_Timer s = Some ([Quit_Flag], if v_timer_id s = None then s else (remove_timer s)\<lparr>v_timer_id := None\<rparr>)"
| "view_step_top Quit_Flag s = Some ([Quit_Go], s\<lparr>v_quit := True\<rparr>)"
| "view_step_top Quit_Go s = Some ([Quit_Join], s\<lparr>v_go := True\<rparr>)"
| "view_step_top Quit_Join s = (if v_pc s = Ended then Some ([Quit_Main], s) else None)"
| "view_step_top Quit_Main s = Some ([], s\<lparr>v_main_quit := True\<rparr>)"

definition view_step :: "viz \<Rightarrow> viz option" where
  "view_step s =
     (case v_frames s of [] \<Rightarrow> None
      | f # fs \<Rightarrow> map_option (\<lambda>(gs, s'). s'\<lparr>v_frames := gs @ fs\<rparr>) (view_step_top f s))"

section \<open>Events\<close>

datatype ui_event = Timer_Event nat | Idle_Event | Toggle_Event | Speed_Event rat | Locked_Event locked_call | Quit_Event

text \<open>
  Events are served in the main loop and while the timer callback waits for the simulator.  A source whose
  callback is in progress is not served again.
\<close>

definition serving :: "viz \<Rightarrow> bool" where
  "serving s \<longleftrightarrow> (case v_frames s of [] \<Rightarrow> \<not> v_main_quit s | Tick_Pump _ # _ \<Rightarrow> True | _ \<Rightarrow> False)"

definition push :: "frame \<Rightarrow> viz \<Rightarrow> viz" where
  "push f s = s\<lparr>v_frames := f # v_frames s\<rparr>"

definition in_progress :: "nat \<Rightarrow> frame \<Rightarrow> bool" where
  "in_progress i f \<longleftrightarrow>
     (case f of Tick_Try j \<Rightarrow> j = i | Tick_Pump j \<Rightarrow> j = i | Tick_View j _ \<Rightarrow> j = i | Tick_Target j _ \<Rightarrow> j = i
      | Tick_Release j _ \<Rightarrow> j = i | Tick_Pause j _ \<Rightarrow> j = i | Tick_Go j \<Rightarrow> j = i | _ \<Rightarrow> False)"

fun dispatch :: "ui_event \<Rightarrow> viz \<Rightarrow> viz option" where
  "dispatch (Timer_Event i) s =
     (if i \<in> set (v_timers s) \<and> \<not> list_ex (in_progress i) (v_frames s) then Some (push (Tick_Try i) s) else None)"
| "dispatch Idle_Event s =
     (if 0 < v_idles s then Some (push (Locked_Acquire Update_Model) (s\<lparr>v_idles := v_idles s - 1\<rparr>)) else None)"
| "dispatch Toggle_Event s = Some (set_playing (\<not> v_playing s) s)"
| "dispatch (Speed_Event v) s = (if 1 / 100 \<le> v \<and> v \<le> 10 then Some (speed_changed v s) else None)"
| "dispatch (Locked_Event k) s = (if k \<noteq> Update_Model then Some (push (Locked_Acquire k) s) else None)"
| "dispatch Quit_Event s = Some (push Quit_Timer s)"

definition serve :: "ui_event \<Rightarrow> viz \<Rightarrow> viz option" where
  "serve e s = (if serving s then dispatch e s else None)"

text \<open>The state in which \<^verbatim>\<open>start\<close> enters the main loop: setting up the speed started a timer.\<close>

definition start_state :: viz where
  "start_state =
     speed_changed 1
       \<lparr>v_lock = None, v_go = False, v_quit = False, v_target = 0, v_now = 0, v_runs = 0, v_messages = [], v_idles = 0,
        v_pc = At_Check, v_frames = [], v_shown = 0, v_speed = 1, v_period = SAMPLE_PERIOD, v_playing = False, v_timers = [],
        v_timer_id = None, v_next_id = 1, v_main_quit = False\<rparr>"

inductive viz_step :: "simulator \<Rightarrow> viz \<Rightarrow> viz \<Rightarrow> bool" for run_until where
  sim: "sim_step run_until s = Some s' \<Longrightarrow> viz_step run_until s s'"
| view: "view_step s = Some s' \<Longrightarrow> viz_step run_until s s'"
| event: "serve e s = Some s' \<Longrightarrow> viz_step run_until s s'"

inductive reachable :: "simulator \<Rightarrow> viz \<Rightarrow> bool" for run_until where
  start: "reachable run_until start_state"
| step: "reachable run_until s \<Longrightarrow> viz_step run_until s s' \<Longrightarrow> reachable run_until s'"

inductive_cases viz_stepE: "viz_step run_until s s'"

end
