(* ===== verification/Viz_View.thy ===== *)
theory Viz_View
  imports Py_Num
begin

unbundle bit_operations_syntax

text \<open>
  \<^verbatim>\<open>src/source/ns-3-dev/src/visualizer/visualizer/core.py\<close> and \<^verbatim>\<open>base.py\<close>: what the visualizer shows of
  a network, its nodes, channels and links, and what the user does with them: selecting, dragging,
  choosing the transmissions shown.  Coordinates are exact numbers.  The drawing of the items is left
  out, their properties are kept.  The network, the layout program and the conversion of pixels
  are arguments.
\<close>

section \<open>Device types and coordinates\<close>

record device_traits =
  tr_wireless :: "bool option"
  tr_virtual :: bool

definition netdevice_traits :: "(string, device_traits) dict" where
  "netdevice_traits =
     [(''PointToPointNetDevice'', \<lparr>tr_wireless = Some False, tr_virtual = False\<rparr>),
      (''CsmaNetDevice'', \<lparr>tr_wireless = Some False, tr_virtual = False\<rparr>),
      (''WifiNetDevice'', \<lparr>tr_wireless = Some True, tr_virtual = False\<rparr>),
      (''BridgeNetDevice'', \<lparr>tr_wireless = None, tr_virtual = True\<rparr>),
      (''LoopbackNetDevice'', \<lparr>tr_wireless = Some False, tr_virtual = True\<rparr>),
      (''MeshPointDevice'', \<lparr>tr_wireless = None, tr_virtual = True\<rparr>),
      (''SubscriberStationNetDevice'', \<lparr>tr_wireless = Some True, tr_virtual = False\<rparr>),
      (''BaseStationNetDevice'', \<lparr>tr_wireless = Some True, tr_virtual = False\<rparr>),
      (''LteUeNetDevice'', \<lparr>tr_wireless = Some True, tr_virtual = False\<rparr>),
      (''LteEnbNetDevice'', \<lparr>tr_wireless = Some True, tr_virtual = False\<rparr>)]"

text \<open>An unknown type is taken for a wireless device and entered in the table.\<close>

definition lookup_netdevice_traits :: "string \<Rightarrow> (string, device_traits) dict \<Rightarrow> device_traits \<times> (string, device_traits) dict" where
  "lookup_netdevice_traits class_type table =
     (case dict_get table class_type of
        Some t \<Rightarrow> (t, table)
      | None \<Rightarrow> (let t = \<lparr>tr_wireless = Some True, tr_virtual = False\<rparr> in (t, dict_set table class_type t)))"

definition PIXELS_PER_METER :: rat where
  "PIXELS_PER_METER = 3"

definition distance_to_canvas :: "rat \<Rightarrow> rat" where
  "distance_to_canvas d = d * PIXELS_PER_METER"

definition distance_to_simulation :: "rat \<Rightarrow> rat" where
  "distance_to_simulation d = d / PIXELS_PER_METER"

type_synonym point = "rat \<times> rat"

definition point_to_canvas :: "point \<Rightarrow> point" where
  "point_to_canvas p = (distance_to_canvas (fst p), distance_to_canvas (snd p))"

definition point_to_simulation :: "point \<Rightarrow> point" where
  "point_to_simulation p = (distance_to_simulation (fst p), distance_to_simulation (snd p))"

section \<open>The state\<close>

text \<open>The properties of the item of a node, and a node; \<open>nv_label_at\<close> is the place of the label item.\<close>

record item_view =
  it_radius :: rat
  it_fill :: int
  it_line_width :: rat
  it_stroke :: string

record node_view =
  nv_pos :: point
  nv_links :: "nat list"
  nv_selected :: bool
  nv_highlighted :: bool
  nv_color :: int
  nv_size :: rat
  nv_label :: "string option"
  nv_label_at :: "point option"
  nv_mobility :: "bool option"
  nv_item :: item_view

datatype endpoint = To_Node nat | To_Channel nat

text \<open>A link with the two points its path joins, once the path is set.\<close>

record link =
  ln_node :: nat
  ln_end :: endpoint
  ln_path :: "(point \<times> point) option"

datatype show_mode = Show_All | Show_None | Show_Selected

record drag =
  dg_canvas :: point
  dg_sim :: point

record window =
  w_nodes :: "(nat, node_view) dict"
  w_channels :: "(nat, point \<times> nat list) dict"
  w_links :: "link list"
  w_bounds :: "point \<times> point"
  w_traits :: "(string, device_traits) dict"
  w_selected :: "nat option"
  w_mode :: show_mode
  w_interest :: "nat list"
  w_drag :: "drag option"
  w_mobility :: "(nat, point) dict"
  w_count :: nat

section \<open>Nodes, channels and links\<close>

definition appearance :: "node_view \<Rightarrow> item_view" where
  "appearance n =
     (let size = distance_to_canvas (nv_size n)
      in \<lparr>it_radius = size, it_fill = (nv_color n AND 0xffffff00) OR 0xff,
          it_line_width = size * (if nv_selected n then 3 / 10 else 15 / 100),
          it_stroke = (if nv_highlighted n then ''yellow'' else ''black'')\<rparr>)"

definition DEFAULT_NODE_SIZE :: rat where
  "DEFAULT_NODE_SIZE = 1"

definition new_node :: node_view where
  "new_node =
     (let n = \<lparr>nv_pos = (0, 0), nv_links = [], nv_selected = False, nv_highlighted = False, nv_color = 0x808080ff,
               nv_size = DEFAULT_NODE_SIZE, nv_label = None, nv_label_at = None, nv_mobility = None,
               nv_item = \<lparr>it_radius = 0, it_fill = 0, it_line_width = 0, it_stroke = []\<rparr>\<rparr>
      in n\<lparr>nv_item := appearance n\<rparr>)"

definition the_node :: "window \<Rightarrow> nat \<Rightarrow> node_view" where
  "the_node w i = the (dict_get (w_nodes w) i)"

definition put_node :: "nat \<Rightarrow> node_view \<Rightarrow> window \<Rightarrow> window" where
  "put_node i n w = w\<lparr>w_nodes := dict_set (w_nodes w) i n\<rparr>"

definition get_node :: "nat \<Rightarrow> window \<Rightarrow> window" where
  "get_node i w = (if dict_get (w_nodes w) i = None then put_node i new_node w else w)"

definition get_channel :: "nat \<Rightarrow> window \<Rightarrow> window" where
  "get_channel c w = (if dict_get (w_channels w) c = None then w\<lparr>w_channels := dict_set (w_channels w) c ((0, 0), [])\<rparr> else w)"

definition end_pos :: "window \<Rightarrow> endpoint \<Rightarrow> point" where
  "end_pos w e = (case e of To_Node i \<Rightarrow> nv_pos (the_node w i) | To_Channel c \<Rightarrow> fst (the (dict_get (w_channels w) c)))"

text \<open>\<^verbatim>\<open>WiredLink.update_points\<close>\<close>

definition update_points :: "window \<Rightarrow> nat \<Rightarrow> window" where
  "update_points w l =
     (let k = w_links w ! l
      in w\<lparr>w_links := (w_links w)[l := k\<lparr>ln_path := Some (nv_pos (the_node w (ln_node k)), end_pos w (ln_end k))\<rparr>]\<rparr>)"

text \<open>\<^verbatim>\<open>create_link\<close>; both ends exist.\<close>

definition add_end :: "nat \<Rightarrow> endpoint \<Rightarrow> window \<Rightarrow> window" where
  "add_end l e w =
     (case e of
        To_Node i \<Rightarrow> put_node i ((the_node w i)\<lparr>nv_links := nv_links (the_node w i) @ [l]\<rparr>) w
      | To_Channel c \<Rightarrow>
          (let (p, ls) = the (dict_get (w_channels w) c) in w\<lparr>w_channels := dict_set (w_channels w) c (p, ls @ [l])\<rparr>))"

definition create_link :: "nat \<Rightarrow> endpoint \<Rightarrow> window \<Rightarrow> window" where
  "create_link i e w =
     (let l = length (w_links w)
      in add_end l e (add_end l (To_Node i) (w\<lparr>w_links := w_links w @ [\<lparr>ln_node = i, ln_end = e, ln_path = None\<rparr>]\<rparr>)))"

definition grow_bounds :: "point \<Rightarrow> point \<times> point \<Rightarrow> point \<times> point" where
  "grow_bounds p b =
     (let ((min_x, min_y), (max_x, max_y)) = b; (x, y) = p
      in ((min x min_x, min y min_y), (max x max_x, max y max_y)))"

text \<open>\<^verbatim>\<open>Node.set_position\<close> and \<^verbatim>\<open>Channel.set_position\<close>\<close>

definition place_label :: "point \<Rightarrow> node_view \<Rightarrow> node_view" where
  "place_label p n = (if nv_label_at n = None then n else n\<lparr>nv_label_at := Some (fst p, snd p + nv_size n * 3)\<rparr>)"

definition set_position :: "nat \<Rightarrow> point \<Rightarrow> window \<Rightarrow> window" where
  "set_position i p w =
     (let w = put_node i ((the_node w i)\<lparr>nv_pos := p\<rparr>) w;
          w = foldl update_points w (nv_links (the_node w i));
          w = put_node i (place_label p (the_node w i)) w
      in w\<lparr>w_bounds := grow_bounds p (w_bounds w)\<rparr>)"

definition set_channel_position :: "nat \<Rightarrow> point \<Rightarrow> window \<Rightarrow> window" where
  "set_channel_position c p w =
     (let ls = snd (the (dict_get (w_channels w) c))
      in foldl update_points (w\<lparr>w_channels := dict_set (w_channels w) c (p, ls)\<rparr>) ls)"

text \<open>\<^verbatim>\<open>_update_appearance\<close>; a label is put in place by setting the position again.\<close>

definition update_appearance :: "nat \<Rightarrow> window \<Rightarrow> window" where
  "update_appearance i w =
     (let n = the_node w i;
          w = put_node i (n\<lparr>nv_item := appearance n\<rparr>) w
      in if nv_label n = None then w
         else
           (let n = the_node w i;
                w = (if nv_label_at n = None then put_node i (n\<lparr>nv_label_at := Some (0, 0)\<rparr>) w else w)
            in set_position i (nv_pos n) w))"

definition set_selected :: "nat \<Rightarrow> bool \<Rightarrow> window \<Rightarrow> window" where
  "set_selected i b w = update_appearance i (put_node i ((the_node w i)\<lparr>nv_selected := b\<rparr>) w)"

definition set_highlighted :: "nat \<Rightarrow> bool \<Rightarrow> window \<Rightarrow> window" where
  "set_highlighted i b w = update_appearance i (put_node i ((the_node w i)\<lparr>nv_highlighted := b\<rparr>) w)"

definition set_size :: "nat \<Rightarrow> rat \<Rightarrow> window \<Rightarrow> window" where
  "set_size i meters w = update_appearance i (put_node i ((the_node w i)\<lparr>nv_size := meters\<rparr>) w)"

definition set_label :: "nat \<Rightarrow> string \<Rightarrow> window \<Rightarrow> window" where
  "set_label i label w = update_appearance i (put_node i ((the_node w i)\<lparr>nv_label := Some label\<rparr>) w)"

text \<open>A colour is given by its number, or by the three 16-bit parts to which GDK resolves its name.\<close>

definition rgba :: "int \<times> int \<times> int \<Rightarrow> int" where
  "rgba color =
     (let (red, green, blue) = color
      in (((push_bit 24 (drop_bit 8 red) OR push_bit 16 (drop_bit 8 green)) OR push_bit 8 (drop_bit 8 blue)) OR 0xff))"

definition set_color :: "nat \<Rightarrow> int + int \<times> int \<times> int \<Rightarrow> window \<Rightarrow> window" where
  "set_color i color w =
     update_appearance i
       (put_node i ((the_node w i)\<lparr>nv_color := (case color of Inl c \<Rightarrow> c | Inr parts \<Rightarrow> rgba parts)\<rparr>) w)"

definition has_mobility :: "nat \<Rightarrow> window \<Rightarrow> bool \<times> window" where
  "has_mobility i w =
     (case nv_mobility (the_node w i) of
        Some b \<Rightarrow> (b, w)
      | None \<Rightarrow> (let b = dict_get (w_mobility w) i \<noteq> None in (b, put_node i ((the_node w i)\<lparr>nv_mobility := Some b\<rparr>) w)))"

section \<open>Scanning the topology\<close>

text \<open>Devices with their types and channels, and the nodes of the devices on a channel.\<close>

record device =
  dv_type :: string
  dv_channel :: "nat option"

record network =
  nw_devices :: "nat \<Rightarrow> device list"
  nw_channel :: "nat \<Rightarrow> nat list"

text \<open>The graph that is laid out: names of nodes and edges.\<close>

type_synonym graph = "string list \<times> (string \<times> string) list"

definition add_graph_node :: "string \<Rightarrow> graph \<Rightarrow> graph" where
  "add_graph_node n g = (if n \<in> set (fst g) then g else (fst g @ [n], snd g))"

definition add_graph_edge :: "string \<Rightarrow> string \<Rightarrow> graph \<Rightarrow> graph" where
  "add_graph_edge a b g =
     (let g = add_graph_node b (add_graph_node a g)
      in if (a, b) \<in> set (snd g) \<or> (b, a) \<in> set (snd g) then g else (fst g, snd g @ [(a, b)]))"

definition node_name :: "nat \<Rightarrow> string" where
  "node_name i = ''Node '' @ show_nat i"

definition channel_name :: "nat \<Rightarrow> string" where
  "channel_name c = ''Channel '' @ show_nat c"

text \<open>One device at the other end of a channel with at most two devices.\<close>

definition scan_other :: "nat \<Rightarrow> window \<times> graph \<Rightarrow> nat \<Rightarrow> window \<times> graph" where
  "scan_other i st other =
     (let (w, g) = st;
          w = get_node other w
      in if other = i then (w, g)
         else
           (let (mobile, w) = (if dict_get (w_mobility w) i = None then has_mobility other w else (True, w));
                g = (if mobile then g else add_graph_edge (node_name i) (node_name other) g)
            in (create_link i (To_Node other) (get_node i w), g)))"

definition scan_device :: "network \<Rightarrow> nat \<Rightarrow> window \<times> graph \<Rightarrow> device \<Rightarrow> (window \<times> graph) res" where
  "scan_device nw i st d =
     (let (w, g) = st;
          (t, table) = lookup_netdevice_traits (dv_type d) (w_traits w);
          w = w\<lparr>w_traits := table\<rparr>
      in if tr_wireless t = Some True \<or> tr_virtual t then Inr (w, g)
         else case dv_channel d of
                None \<Rightarrow> Inl AttributeError
              | Some c \<Rightarrow>
                  if 2 < length (nw_channel nw c)
                  then (let g = (if dict_get (w_mobility w) i = None then add_graph_edge (node_name i) (channel_name c) g else g)
                        in Inr (create_link i (To_Channel c) (get_channel c (get_node i w)), g))
                  else Inr (foldl (scan_other i) (w, g) (nw_channel nw c)))"

definition scan_node :: "network \<Rightarrow> (string \<Rightarrow> int \<times> int \<times> int) \<Rightarrow> window \<times> graph \<Rightarrow> nat \<Rightarrow> (window \<times> graph) res" where
  "scan_node nw color_parse st i =
     (let (w, g) = st;
          w = get_node i w;
          (w, g) = (case dict_get (w_mobility w) i of
                      Some pos \<Rightarrow> (set_position i (point_to_canvas pos) (set_color i (Inr (color_parse ''red'')) w), g)
                    | None \<Rightarrow> (w, add_graph_node (node_name i) g))
      in foldM (scan_device nw i) (w, g) (nw_devices nw i))"

text \<open>Placing the nodes and channels of the graph where the layout program puts them.\<close>

definition parse_pos :: "string \<Rightarrow> point res" where
  "parse_pos pos =
     rbind (mapM float_text (split_on (CHR '','') pos)) (\<lambda>xs. case xs of [x, y] \<Rightarrow> Inr (x, y) | _ \<Rightarrow> Inl ValueError)"

definition set_end_position :: "endpoint \<Rightarrow> point \<Rightarrow> window \<Rightarrow> window" where
  "set_end_position e p w = (case e of To_Node i \<Rightarrow> set_position i p w | To_Channel c \<Rightarrow> set_channel_position c p w)"

text \<open>The variable \<^verbatim>\<open>obj\<close> keeps its value from one turn of the loop to the next.\<close>

definition place_named :: "window \<times> endpoint option \<Rightarrow> string \<times> string \<Rightarrow> (window \<times> endpoint option) res" where
  "place_named st np =
     (let (w, obj) = st in
      case split_on (CHR '' '') (fst np) of
        [node_type, node_id] \<Rightarrow>
          rbind (parse_pos (snd np)) (\<lambda>p.
          rbind
            (if node_type = ''Node'' then
               rbind (int_text node_id) (\<lambda>i.
                 if 0 \<le> i \<and> dict_get (w_nodes w) (nat i) \<noteq> None then Inr (To_Node (nat i)) else Inl KeyError)
             else if node_type = ''Channel'' then
               rbind (int_text node_id) (\<lambda>c.
                 if 0 \<le> c \<and> dict_get (w_channels w) (nat c) \<noteq> None then Inr (To_Channel (nat c)) else Inl KeyError)
             else case obj of None \<Rightarrow> Inl UnboundLocalError | Some e \<Rightarrow> Inr e) (\<lambda>e.
          Inr (set_end_position e p w, Some e)))
      | _ \<Rightarrow> Inl ValueError)"

definition scan_topology ::
  "network \<Rightarrow> (string \<Rightarrow> int \<times> int \<times> int) \<Rightarrow> (graph \<Rightarrow> string \<Rightarrow> string) \<Rightarrow> window \<Rightarrow> window res" where
  "scan_topology nw color_parse layout w =
     rbind (foldM (scan_node nw color_parse) (w, ([], [])) [0..<w_count w]) (\<lambda>(w, g).
     rbind (foldM place_named (w, None) (map (\<lambda>n. (n, layout g n)) (fst g))) (\<lambda>(w, _). Inr w))"

section \<open>Selection, transmissions and dragging\<close>

definition set_show_transmissions_mode :: "show_mode \<Rightarrow> window \<Rightarrow> window" where
  "set_show_transmissions_mode mode w =
     w\<lparr>w_mode := mode,
       w_interest := (case mode of Show_All \<Rightarrow> [0..<w_count w] | Show_None \<Rightarrow> []
                      | Show_Selected \<Rightarrow> (case w_selected w of None \<Rightarrow> [] | Some i \<Rightarrow> [i]))\<rparr>"

text \<open>\<^verbatim>\<open>select_node\<close> with a number or \<^verbatim>\<open>None\<close>; a node object stands for its number.\<close>

definition select_node :: "nat option \<Rightarrow> window \<Rightarrow> window res" where
  "select_node node w =
     (if (case node of None \<Rightarrow> False | Some i \<Rightarrow> dict_get (w_nodes w) i = None) then Inl KeyError
      else if node = w_selected w then Inr w
      else
        (let w = (case w_selected w of None \<Rightarrow> w | Some i \<Rightarrow> set_selected i False w);
             w = w\<lparr>w_selected := node\<rparr>;
             w = (case node of None \<Rightarrow> w | Some i \<Rightarrow> set_selected i True w)
         in Inr (if w_mode w = Show_Selected then w\<lparr>w_interest := (case node of None \<Rightarrow> [] | Some i \<Rightarrow> [i])\<rparr> else w)))"

text \<open>Dragging, with the pointer already converted to canvas coordinates.\<close>

definition begin_node_drag :: "nat \<Rightarrow> point \<Rightarrow> window \<Rightarrow> window" where
  "begin_node_drag i pointer w =
     (case dict_get (w_mobility w) i of
        None \<Rightarrow> w
      | Some pos \<Rightarrow> if w_drag w \<noteq> None then w else w\<lparr>w_drag := Some \<lparr>dg_canvas = pointer, dg_sim = pos\<rparr>\<rparr>)"

definition node_drag_motion :: "nat \<Rightarrow> point \<Rightarrow> window \<Rightarrow> window" where
  "node_drag_motion i pointer w =
     (case (dict_get (w_mobility w) i, w_drag w) of
        (Some _, Some d) \<Rightarrow>
          (let dx = fst pointer - fst (dg_canvas d);
               dy = snd pointer - snd (dg_canvas d);
               pos = (fst (dg_sim d) + distance_to_simulation dx, snd (dg_sim d) + distance_to_simulation dy)
           in set_position i (point_to_canvas pos) (w\<lparr>w_mobility := dict_set (w_mobility w) i pos\<rparr>))
      | _ \<Rightarrow> w)"

definition end_node_drag :: "window \<Rightarrow> window" where
  "end_node_drag w = w\<lparr>w_drag := None\<rparr>"

text \<open>The positions of the nodes that move, read from the simulator.\<close>

definition follow_mobility :: "window \<Rightarrow> nat \<Rightarrow> window" where
  "follow_mobility w i =
     (let (mobile, w) = has_mobility i w
      in case dict_get (w_mobility w) i of
           Some pos \<Rightarrow> if mobile then set_position i (point_to_canvas pos) w else w
         | None \<Rightarrow> w)"

definition update_node_positions :: "window \<Rightarrow> window" where
  "update_node_positions w = foldl follow_mobility w (dict_keys (w_nodes w))"

text \<open>The mouse buttons on a node, and on the background.\<close>

definition node_button_press :: "nat \<Rightarrow> nat \<Rightarrow> point \<Rightarrow> window \<Rightarrow> window res" where
  "node_button_press button i pointer w =
     (if button = 1 then select_node (Some i) w
      else if button = 2 then Inr (begin_node_drag i pointer w)
      else Inr w)"

definition node_button_release :: "nat \<Rightarrow> window \<Rightarrow> window" where
  "node_button_release button w = (if button = 2 then end_node_drag w else w)"

definition root_button_press :: "nat \<Rightarrow> window \<Rightarrow> window res" where
  "root_button_press button w = (if button = 1 then select_node None w else Inr w)"

text \<open>The window as it is made, for \<open>n\<close> nodes, some with a mobility model.\<close>

definition start_window :: "(nat, point) dict \<Rightarrow> nat \<Rightarrow> window" where
  "start_window mobility n =
     set_show_transmissions_mode Show_All
       \<lparr>w_nodes = [], w_channels = [], w_links = [], w_bounds = ((- 10000, - 10000), (10000, 10000)), w_traits = netdevice_traits,
        w_selected = None, w_mode = Show_None, w_interest = [], w_drag = None, w_mobility = mobility, w_count = n\<rparr>"

end
