(* ===== verification/Viz_Traffic.thy ===== *)
theory Viz_Traffic
  imports Viz_View
begin

text \<open>
  \<^verbatim>\<open>src/source/ns-3-dev/src/visualizer/visualizer/core.py\<close>: the samples of transmitted and dropped
  packets that are kept, and the arrows that show them.  Arrows with their labels are kept in a pool and used
  again.  The logarithm on positive numbers, the part of a line that is visible and the lower edge of the
  visible part are arguments.
\<close>

section \<open>Samples\<close>

record transmission =
  tx_from :: nat
  tx_to :: nat
  tx_bytes :: nat

record packet_drop =
  dr_from :: nat
  dr_bytes :: nat

text \<open>
  The properties of an arrow and of its label.  The label of a transmission is moved to \<open>ar_origin\<close> and
  turned like the arrow; its text points along the arrow if \<open>ar_forward\<close>, otherwise against it.
\<close>

record arrow =
  ar_visible :: bool
  ar_width :: rat
  ar_points :: "(point \<times> point) option"
  ar_label_visible :: bool
  ar_font :: int
  ar_text :: string
  ar_forward :: bool
  ar_label_at :: point
  ar_origin :: point

text \<open>\<open>tf_lost\<close> holds the arrows that are on the canvas and in no pool.\<close>

record traffic =
  tf_transmissions :: "transmission list list"
  tf_drops :: "packet_drop list list"
  tf_arrows :: "arrow list"
  tf_drop_arrows :: "arrow list"
  tf_lost :: "arrow list"

text \<open>\<^verbatim>\<open>do_simulation_periodic_update\<close>; the smoothing is at least a tenth of a second.\<close>

fun keep_last :: "nat \<Rightarrow> 'a list \<Rightarrow> 'a list" where
  "keep_last n [] = []"
| "keep_last n (x # xs) = (if n < length (x # xs) then keep_last n xs else x # xs)"

definition smooth_factor :: "rat \<Rightarrow> nat" where
  "smooth_factor smoothing = nat \<lfloor>smoothing * 10\<rfloor>"

definition periodic_update :: "rat \<Rightarrow> transmission list \<Rightarrow> packet_drop list \<Rightarrow> traffic \<Rightarrow> traffic" where
  "periodic_update smoothing transmissions drops tf =
     tf\<lparr>tf_transmissions := keep_last (smooth_factor smoothing) (tf_transmissions tf @ [transmissions]),
        tf_drops := keep_last (smooth_factor smoothing) (tf_drops tf @ [drops])\<rparr>"

text \<open>Bytes and number of the samples of each key.\<close>

definition add_sample :: "('k, nat \<times> nat) dict \<Rightarrow> 'k \<times> nat \<Rightarrow> ('k, nat \<times> nat) dict" where
  "add_sample average sample =
     (let (key, sample_bytes) = sample;
          (sum_bytes, count) = (case dict_get average key of None \<Rightarrow> (0, 0) | Some v \<Rightarrow> v)
      in dict_set average key (sum_bytes + sample_bytes, count + 1))"

definition transmissions_average :: "transmission list list \<Rightarrow> (nat \<times> nat, nat \<times> nat) dict" where
  "transmissions_average sets = foldl add_sample [] (map (\<lambda>t. ((tx_from t, tx_to t), tx_bytes t)) (concat sets))"

definition drops_average :: "packet_drop list list \<Rightarrow> (nat, nat \<times> nat) dict" where
  "drops_average sets = foldl add_sample [] (map (\<lambda>d. (dr_from d, dr_bytes d)) (concat sets))"

section \<open>Arrows\<close>

record display =
  di_log :: "rat \<Rightarrow> rat"
  di_clip :: "point \<Rightarrow> point \<Rightarrow> point \<times> point"
  di_edge_y :: rat
  di_node_size :: rat
  di_sample_period :: rat

definition math_log :: "display \<Rightarrow> rat \<Rightarrow> rat res" where
  "math_log di x = (if x \<le> 0 then Inl ValueError else Inr (di_log di x))"

definition new_arrow :: arrow where
  "new_arrow =
     \<lparr>ar_visible = True, ar_width = 2, ar_points = None, ar_label_visible = True, ar_font = 0, ar_text = [],
      ar_forward = True, ar_label_at = (0, 0), ar_origin = (0, 0)\<rparr>"

definition hide :: "arrow \<Rightarrow> arrow" where
  "hide a = a\<lparr>ar_visible := False, ar_label_visible := False\<rparr>"

definition arrow_scale :: "display \<Rightarrow> rat" where
  "arrow_scale di = di_node_size di / 5"

definition BITRATE_FONT_SIZE :: rat where
  "BITRATE_FONT_SIZE = 10"

definition line_width :: "display \<Rightarrow> nat \<times> nat \<Rightarrow> rat res" where
  "line_width di v =
     rbind (math_log di (of_nat (fst v) / of_nat (snd v) / di_sample_period di)) (\<lambda>l. Inr (max (1 / 10) (l * arrow_scale di)))"

definition kbps :: "display \<Rightarrow> nat \<times> nat \<Rightarrow> rat" where
  "kbps di v = of_nat (fst v * 8) / 1000 / of_nat (snd v) / di_sample_period di"

definition label_over_line :: "display \<Rightarrow> point \<Rightarrow> point \<Rightarrow> point" where
  "label_over_line di p q =
     (let ((x1, y1), (x2, y2)) = di_clip di p q in ((x1 + x2) / 2, (y1 + y2) / 2))"

text \<open>
  One turn of the loops: the nodes that are looked up, and the arrow.  Where the logarithm raises, the arrow has been
  made visible and nothing else.
\<close>

definition draw_transmission :: "display \<Rightarrow> (nat \<times> nat) \<times> nat \<times> nat \<Rightarrow> window \<Rightarrow> arrow \<Rightarrow> arrow + arrow" where
  "draw_transmission di entry w a =
     (let ((transmitter, receiver), v) = entry; a = a\<lparr>ar_visible := True\<rparr> in
      case line_width di v of
        Inl _ \<Rightarrow> Inl a
      | Inr width \<Rightarrow>
          (let p = end_pos w (To_Node transmitter);
               q = end_pos w (To_Node receiver);
               forward = (0 \<le> fst q - fst p)
           in Inr (a\<lparr>ar_width := width, ar_points := Some (p, q), ar_label_visible := True,
                     ar_font := \<lfloor>1 + BITRATE_FONT_SIZE * arrow_scale di\<rfloor>, ar_text := format_fixed 2 (kbps di v) @ '' kbit/s'',
                     ar_forward := forward, ar_label_at := (0, if forward then - width / 2 else width / 2),
                     ar_origin := label_over_line di p q\<rparr>)))"

definition draw_drop :: "display \<Rightarrow> nat \<times> nat \<times> nat \<Rightarrow> window \<Rightarrow> arrow \<Rightarrow> arrow + arrow" where
  "draw_drop di entry w a =
     (let (transmitter, v) = entry; a = a\<lparr>ar_visible := True\<rparr> in
      case line_width di v of
        Inl _ \<Rightarrow> Inl a
      | Inr width \<Rightarrow>
          (let p = end_pos w (To_Node transmitter);
               q = (fst p, di_edge_y di)
           in Inr (a\<lparr>ar_width := width, ar_points := Some (p, q), ar_label_visible := True,
                     ar_font := \<lfloor>1 + BITRATE_FONT_SIZE * arrow_scale di\<rfloor>, ar_text := format_fixed 2 (kbps di v) @ '' kbit/s'',
                     ar_label_at := ((fst p + fst q) / 2, (snd p + snd q) / 2)\<rparr>)))"

text \<open>
  The loop takes arrows from the end of the old ones, or makes new ones.  The result are the window, the
  arrows left, the arrows used, and whether a turn raised \<^verbatim>\<open>ValueError\<close>.
\<close>

fun arrow_loop ::
  "('e \<Rightarrow> nat list) \<Rightarrow> ('e \<Rightarrow> window \<Rightarrow> arrow \<Rightarrow> arrow + arrow) \<Rightarrow> 'e list \<Rightarrow> window \<Rightarrow> arrow list \<Rightarrow> arrow list
   \<Rightarrow> window \<times> arrow list \<times> arrow list \<times> bool" where
  "arrow_loop nodes_of draw_one [] w old new = (w, old, new, False)"
| "arrow_loop nodes_of draw_one (e # es) w old new =
     (let w = foldl (\<lambda>w i. get_node i w) w (nodes_of e);
          (a, old) = (if old = [] then (new_arrow, []) else (last old, butlast old))
      in case draw_one e w a of
           Inl a \<Rightarrow> (w, old, new @ [a], True)
         | Inr a \<Rightarrow> arrow_loop nodes_of draw_one es w old (new @ [a]))"

text \<open>When the loop raises, the arrows used are not put back.\<close>

definition update_transmissions_view :: "display \<Rightarrow> window \<times> traffic \<Rightarrow> (window \<times> traffic) \<times> bool" where
  "update_transmissions_view di st =
     (let (w, tf) = st;
          (w, old, new, raised) =
            arrow_loop (\<lambda>((i, j), v). [i, j]) (draw_transmission di) (transmissions_average (tf_transmissions tf)) w
              (map hide (tf_arrows tf)) []
      in ((w, if raised then tf\<lparr>tf_arrows := old, tf_lost := tf_lost tf @ new\<rparr> else tf\<lparr>tf_arrows := new @ old\<rparr>), raised))"

definition update_drops_view :: "display \<Rightarrow> window \<times> traffic \<Rightarrow> (window \<times> traffic) \<times> bool" where
  "update_drops_view di st =
     (let (w, tf) = st;
          (w, old, new, raised) =
            arrow_loop (\<lambda>(i, v). [i]) (draw_drop di) (drops_average (tf_drops tf)) w (map hide (tf_drop_arrows tf)) []
      in ((w, if raised then tf\<lparr>tf_drop_arrows := old, tf_lost := tf_lost tf @ new\<rparr> else tf\<lparr>tf_drop_arrows := new @ old\<rparr>), raised))"

text \<open>\<^verbatim>\<open>update_view\<close>, without the clock and the information windows.\<close>

definition update_view :: "display \<Rightarrow> window \<times> traffic \<Rightarrow> (window \<times> traffic) \<times> bool" where
  "update_view di st =
     (let (st, raised) = update_transmissions_view di (update_node_positions (fst st), snd st)
      in if raised then (st, True) else update_drops_view di st)"

end
