(* ===== verification/Viz_View_Correct.thy ===== *)
theory Viz_View_Correct
  imports Viz_View
begin

text \<open>
  Correctness of the view of the network: an invariant of everything the user can do, the links a
  scan of the topology makes, and dragging.
\<close>

named_theorems view_simps "fields of the window after an operation"

section \<open>The invariant\<close>

text \<open>A node is drawn as its state says, its label below it.\<close>

definition label_spot :: "node_view \<Rightarrow> point" where
  "label_spot n = (fst (nv_pos n), snd (nv_pos n) + nv_size n * 3)"

definition view_ok :: "node_view \<Rightarrow> bool" where
  "view_ok n \<longleftrightarrow> nv_item n = appearance n \<and> nv_label_at n = (if nv_label n = None then None else Some (label_spot n))"

definition in_bounds :: "point \<times> point \<Rightarrow> point \<Rightarrow> bool" where
  "in_bounds b p \<longleftrightarrow> fst (fst b) \<le> fst p \<and> fst p \<le> fst (snd b) \<and> snd (fst b) \<le> snd p \<and> snd p \<le> snd (snd b)"

definition nodes_inv :: "window \<Rightarrow> bool" where
  "nodes_inv w \<longleftrightarrow> (\<forall>i n. dict_get (w_nodes w) i = Some n \<longrightarrow> view_ok n \<and> in_bounds (w_bounds w) (nv_pos n))"

text \<open>Both ends of a link exist and know it.\<close>

definition end_links :: "window \<Rightarrow> endpoint \<Rightarrow> nat list option" where
  "end_links w e =
     (case e of To_Node i \<Rightarrow> map_option nv_links (dict_get (w_nodes w) i) | To_Channel c \<Rightarrow> map_option snd (dict_get (w_channels w) c))"

definition refs_inv :: "window \<Rightarrow> bool" where
  "refs_inv w \<longleftrightarrow>
     (\<forall>l < length (w_links w). \<forall>e \<in> {To_Node (ln_node (w_links w ! l)), ln_end (w_links w ! l)}.
        \<exists>ls. end_links w e = Some ls \<and> l \<in> set ls)
     \<and> (\<forall>e ls. end_links w e = Some ls \<longrightarrow> set ls \<subseteq> {..<length (w_links w)})"

text \<open>A link that is drawn joins the places of its ends.\<close>

definition path_ok :: "window \<Rightarrow> link \<Rightarrow> bool" where
  "path_ok w k \<longleftrightarrow> ln_path k \<noteq> None \<longrightarrow> ln_path k = Some (end_pos w (To_Node (ln_node k)), end_pos w (ln_end k))"

definition paths_but :: "nat set \<Rightarrow> window \<Rightarrow> bool" where
  "paths_but S w \<longleftrightarrow> (\<forall>l < length (w_links w). l \<notin> S \<longrightarrow> path_ok w (w_links w ! l))"

definition selection_inv :: "window \<Rightarrow> bool" where
  "selection_inv w \<longleftrightarrow>
     (\<forall>i n. dict_get (w_nodes w) i = Some n \<longrightarrow> (nv_selected n \<longleftrightarrow> w_selected w = Some i))
     \<and> (\<forall>i. w_selected w = Some i \<longrightarrow> dict_get (w_nodes w) i \<noteq> None)"

definition interest_inv :: "window \<Rightarrow> bool" where
  "interest_inv w \<longleftrightarrow>
     w_interest w = (case w_mode w of Show_All \<Rightarrow> [0..<w_count w] | Show_None \<Rightarrow> []
                     | Show_Selected \<Rightarrow> (case w_selected w of None \<Rightarrow> [] | Some i \<Rightarrow> [i]))"

definition window_inv :: "window \<Rightarrow> bool" where
  "window_inv w \<longleftrightarrow>
     nodes_inv w \<and> refs_inv w \<and> paths_but {} w \<and> selection_inv w \<and> interest_inv w \<and> in_bounds (w_bounds w) (0, 0)"

section \<open>Drawing links\<close>

lemma update_points_frame [view_simps]:
  "w_nodes (update_points w l) = w_nodes w" "w_channels (update_points w l) = w_channels w"
  "w_bounds (update_points w l) = w_bounds w" "w_traits (update_points w l) = w_traits w" "w_selected (update_points w l) = w_selected w"
  "w_mode (update_points w l) = w_mode w" "w_interest (update_points w l) = w_interest w" "w_drag (update_points w l) = w_drag w"
  "w_mobility (update_points w l) = w_mobility w" "w_count (update_points w l) = w_count w"
  "length (w_links (update_points w l)) = length (w_links w)"
  by (simp_all add: update_points_def Let_def)

lemma redraw_frame [view_simps]:
  "w_nodes (foldl update_points w ls) = w_nodes w" "w_channels (foldl update_points w ls) = w_channels w"
  "w_bounds (foldl update_points w ls) = w_bounds w" "w_traits (foldl update_points w ls) = w_traits w"
  "w_selected (foldl update_points w ls) = w_selected w" "w_mode (foldl update_points w ls) = w_mode w"
  "w_interest (foldl update_points w ls) = w_interest w" "w_drag (foldl update_points w ls) = w_drag w"
  "w_mobility (foldl update_points w ls) = w_mobility w" "w_count (foldl update_points w ls) = w_count w"
  "length (w_links (foldl update_points w ls)) = length (w_links w)"
  by (induction ls arbitrary: w) (simp_all add: view_simps)

lemma end_pos_cong: "w_nodes w' = w_nodes w \<Longrightarrow> w_channels w' = w_channels w \<Longrightarrow> end_pos w' = end_pos w"
  by (simp add: end_pos_def the_node_def fun_eq_iff split: endpoint.split)

lemma end_links_cong: "w_nodes w' = w_nodes w \<Longrightarrow> w_channels w' = w_channels w \<Longrightarrow> end_links w' = end_links w"
  by (simp add: end_links_def fun_eq_iff split: endpoint.split)

lemma update_points_link:
  "ln_node (w_links (update_points w l) ! k) = ln_node (w_links w ! k)" "ln_end (w_links (update_points w l) ! k) = ln_end (w_links w ! k)"
proof -
  let ?k = "(w_links w ! l)\<lparr>ln_path := Some (nv_pos (the_node w (ln_node (w_links w ! l))), end_pos w (ln_end (w_links w ! l)))\<rparr>"
  have links: "w_links (update_points w l) = (w_links w)[l := ?k]" by (simp add: update_points_def Let_def)
  have "(w_links w)[l := ?k] ! k = (if l = k \<and> l < length (w_links w) then ?k else w_links w ! k)"
  proof (cases "l < length (w_links w)")
    case True
    then show ?thesis by (simp only: nth_list_update simp_thms)
  qed (simp add: list_update_beyond)
  then show "ln_node (w_links (update_points w l) ! k) = ln_node (w_links w ! k)" "ln_end (w_links (update_points w l) ! k) = ln_end (w_links w ! k)"
    unfolding links by simp_all
qed

lemma redraw_link:
  "ln_node (w_links (foldl update_points w ls) ! k) = ln_node (w_links w ! k)"
  "ln_end (w_links (foldl update_points w ls) ! k) = ln_end (w_links w ! k)"
  by (induction ls arbitrary: w) (simp_all add: update_points_link)

lemma update_points_paths: "paths_but S w \<Longrightarrow> paths_but (S - {l}) (update_points w l)"
proof -
  assume S: "paths_but S w"
  have pos: "end_pos (update_points w l) = end_pos w" by (rule end_pos_cong) (simp_all add: view_simps)
  have "path_ok (update_points w l) (w_links (update_points w l) ! k)" if k: "k < length (w_links w)" "k \<notin> S - {l}" for k
  proof (cases "k = l")
    case True
    then have "w_links (update_points w l) ! k = (w_links w ! l)\<lparr>ln_path := Some (nv_pos (the_node w (ln_node (w_links w ! l))), end_pos w (ln_end (w_links w ! l)))\<rparr>"
      using k(1) by (simp add: update_points_def Let_def)
    then show ?thesis unfolding path_ok_def pos by (simp add: end_pos_def)
  next
    case False
    then have "w_links (update_points w l) ! k = w_links w ! k" by (simp add: update_points_def Let_def)
    then show ?thesis using S k False unfolding paths_but_def path_ok_def pos by simp
  qed
  then show ?thesis by (simp add: paths_but_def view_simps)
qed

lemma redraw_paths: "paths_but S w \<Longrightarrow> paths_but (S - set ls) (foldl update_points w ls)"
proof (induction ls arbitrary: S w)
  case (Cons l ls)
  have "S - {l} - set ls = S - set (l # ls)" by auto
  with Cons.IH [OF update_points_paths [OF Cons.prems, of l]] show ?case by (simp only: foldl.simps)
qed simp

text \<open>Giving a node a new place spoils the paths of its links only.\<close>

lemma put_node_get [view_simps]:
  "dict_get (w_nodes (put_node i n w)) j = (if j = i then Some n else dict_get (w_nodes w) j)" "the_node (put_node i n w) i = n"
  by (simp_all add: put_node_def the_node_def)

definition sets_node :: "window \<Rightarrow> nat \<Rightarrow> node_view \<Rightarrow> window \<Rightarrow> bool" where
  "sets_node w i n w' \<longleftrightarrow> (\<forall>j. dict_get (w_nodes w') j = (if j = i then Some n else dict_get (w_nodes w) j))"

lemma sets_nodeD: "sets_node w i n w' \<Longrightarrow> dict_get (w_nodes w') j = (if j = i then Some n else dict_get (w_nodes w) j)"
  by (simp add: sets_node_def)

lemma put_node_frame [view_simps]:
  "w_channels (put_node i n w) = w_channels w" "w_links (put_node i n w) = w_links w" "w_bounds (put_node i n w) = w_bounds w"
  "w_traits (put_node i n w) = w_traits w" "w_selected (put_node i n w) = w_selected w" "w_mode (put_node i n w) = w_mode w"
  "w_interest (put_node i n w) = w_interest w" "w_drag (put_node i n w) = w_drag w" "w_mobility (put_node i n w) = w_mobility w"
  "w_count (put_node i n w) = w_count w"
  by (simp_all add: put_node_def)

lemma the_node_get: "dict_get (w_nodes w) i = Some n \<Longrightarrow> the_node w i = n"
  by (simp add: the_node_def)

lemma end_links_put:
  assumes "dict_get (w_nodes w) i = Some n" and "nv_links n' = nv_links n"
  shows "end_links (put_node i n' w) = end_links w"
  using assms by (auto simp: end_links_def fun_eq_iff view_simps split: endpoint.split)

lemma refs_put:
  assumes "refs_inv w" and "dict_get (w_nodes w) i = Some n" and "nv_links n' = nv_links n"
  shows "refs_inv (put_node i n' w)"
  using assms(1) unfolding refs_inv_def end_links_put [OF assms(2,3)] put_node_frame(2) .

lemma end_pos_put: "e \<noteq> To_Node i \<Longrightarrow> end_pos (put_node i n w) e = end_pos w e"
  by (cases e) (simp_all add: end_pos_def put_node_def the_node_def)

lemma end_pos_put_same:
  assumes "dict_get (w_nodes w) i = Some n" and "nv_pos n' = nv_pos n"
  shows "end_pos (put_node i n' w) = end_pos w"
  using assms by (auto simp: end_pos_def put_node_def the_node_def fun_eq_iff split: endpoint.split)

lemma put_node_paths_same:
  assumes "paths_but S w" and "dict_get (w_nodes w) i = Some n" and "nv_pos n' = nv_pos n"
  shows "paths_but S (put_node i n' w)"
  using assms(1) unfolding paths_but_def path_ok_def end_pos_put_same [OF assms(2,3)] put_node_frame(2) .

lemma put_node_paths:
  assumes "paths_but {} w" and "refs_inv w" and "dict_get (w_nodes w) i = Some n"
  shows "paths_but (set (nv_links n)) (put_node i n' w)"
proof -
  have "path_ok (put_node i n' w) (w_links w ! l)" if l: "l < length (w_links w)" "l \<notin> set (nv_links n)" for l
  proof -
    have "end_links w (To_Node i) = Some (nv_links n)" using assms(3) by (simp add: end_links_def)
    then have "To_Node i \<notin> {To_Node (ln_node (w_links w ! l)), ln_end (w_links w ! l)}"
      using assms(2) l unfolding refs_inv_def by (metis option.inject)
    then have "To_Node (ln_node (w_links w ! l)) \<noteq> To_Node i" "ln_end (w_links w ! l) \<noteq> To_Node i" by auto
    note other = this [THEN end_pos_put, of n' w]
    show ?thesis
      using assms(1) l(1) unfolding paths_but_def path_ok_def other by simp
  qed
  then show ?thesis by (simp add: paths_but_def view_simps)
qed

section \<open>Setting the place and the properties of a node\<close>

lemma nodes_put:
  assumes "nodes_inv w" and "view_ok n'" and "in_bounds (w_bounds w) (nv_pos n')"
  shows "nodes_inv (put_node i n' w)"
  using assms by (auto simp: nodes_inv_def view_simps split: if_splits)

lemma in_bounds_grow: "in_bounds (grow_bounds p b) p" "in_bounds b q \<Longrightarrow> in_bounds (grow_bounds p b) q"
  by (auto simp: in_bounds_def grow_bounds_def Let_def split: prod.splits)

lemma redraw_refs: "refs_inv w \<Longrightarrow> refs_inv (foldl update_points w ls)"
  unfolding refs_inv_def redraw_link
  by (simp add: view_simps end_links_cong [of "foldl update_points w ls" w])

text \<open>
  The fields that setting the place of a node, or its properties, does not touch, and the node that it
  leaves.
\<close>

definition same_rest :: "window \<Rightarrow> window \<Rightarrow> bool" where
  "same_rest w w' \<longleftrightarrow>
     w_channels w' = w_channels w \<and> w_traits w' = w_traits w \<and> w_selected w' = w_selected w \<and> w_mode w' = w_mode w
     \<and> w_interest w' = w_interest w \<and> w_drag w' = w_drag w \<and> w_mobility w' = w_mobility w \<and> w_count w' = w_count w
     \<and> length (w_links w') = length (w_links w)"

lemma same_rest_refl [simp]: "same_rest w w"
  by (simp add: same_rest_def)

lemma same_rest_trans: "same_rest u v \<Longrightarrow> same_rest v w \<Longrightarrow> same_rest u w"
  by (simp add: same_rest_def)

lemma same_rest_put [simp]: "same_rest w (put_node i n w)"
  by (simp add: same_rest_def view_simps)

definition geometry_inv :: "window \<Rightarrow> bool" where
  "geometry_inv w \<longleftrightarrow> refs_inv w \<and> paths_but {} w \<and> in_bounds (w_bounds w) (0, 0)"

text \<open>
  Setting the place of a node whose label item, if there is one, still stands where it was: \<open>n\<close> needs not be
  \<open>view_ok\<close>, the others are.
\<close>

definition others_ok :: "nat \<Rightarrow> window \<Rightarrow> bool" where
  "others_ok i w \<longleftrightarrow> (\<forall>j n. dict_get (w_nodes w) j = Some n \<longrightarrow> j \<noteq> i \<longrightarrow> view_ok n \<and> in_bounds (w_bounds w) (nv_pos n))"

lemma set_position_result:
  fixes p :: point
  assumes "geometry_inv w" and "others_ok i w" and "dict_get (w_nodes w) i = Some n"
  defines "n' \<equiv> place_label p (n\<lparr>nv_pos := p\<rparr>)"
  shows "geometry_inv (set_position i p w)" and "others_ok i (set_position i p w)"
    and "sets_node w i n' (set_position i p w)"
    and "same_rest w (set_position i p w)" and "in_bounds (w_bounds (set_position i p w)) p"
proof -
  define w1 where "w1 = put_node i (n\<lparr>nv_pos := p\<rparr>) w"
  define w2 where "w2 = foldl update_points w1 (nv_links n)"
  define w3 where "w3 = put_node i n' w2"
  have w: "set_position i p w = w3\<lparr>w_bounds := grow_bounds p (w_bounds w3)\<rparr>"
    unfolding set_position_def Let_def the_node_get [OF assms(3)] w1_def [symmetric]
    by (simp add: w3_def w2_def w1_def n'_def the_node_def view_simps put_node_def)
  have geo: "refs_inv w" "paths_but {} w" "in_bounds (w_bounds w) (0, 0)" using assms(1) by (simp_all add: geometry_inv_def)
  have g1: "dict_get (w_nodes w1) i = Some (n\<lparr>nv_pos := p\<rparr>)" by (simp add: w1_def view_simps)
  have "refs_inv w1" unfolding w1_def by (rule refs_put [OF geo(1) assms(3)]) simp
  then have r2: "refs_inv w2" unfolding w2_def by (rule redraw_refs)
  have "paths_but (set (nv_links n)) w1" unfolding w1_def by (rule put_node_paths [OF geo(2,1) assms(3)])
  then have p2: "paths_but {} w2" using redraw_paths [of "set (nv_links n)" w1 "nv_links n"] by (simp add: w2_def)
  have g2: "dict_get (w_nodes w2) i = Some (n\<lparr>nv_pos := p\<rparr>)" using g1 by (simp add: w2_def view_simps)
  have n': "nv_links n' = nv_links (n\<lparr>nv_pos := p\<rparr>)" "nv_pos n' = nv_pos (n\<lparr>nv_pos := p\<rparr>)"
    by (simp_all add: n'_def place_label_def)
  have r3: "refs_inv w3" "paths_but {} w3" unfolding w3_def
    using refs_put [OF r2 g2 n'(1)] put_node_paths_same [OF p2 g2 n'(2)] by simp_all
  have fields: "sets_node w i n' w3" "w_bounds w3 = w_bounds w" "same_rest w w3"
    by (simp_all add: w3_def w2_def w1_def view_simps same_rest_def sets_node_def)
  show "sets_node w i n' (set_position i p w)" using fields(1) by (simp add: w sets_node_def)
  show "same_rest w (set_position i p w)" using fields(3) by (simp add: w same_rest_def)
  show "in_bounds (w_bounds (set_position i p w)) p" by (simp add: w in_bounds_grow)
  have "end_pos (set_position i p w) = end_pos w3" "end_links (set_position i p w) = end_links w3"
    by (intro end_pos_cong end_links_cong; simp add: w)+
  then show "geometry_inv (set_position i p w)"
    using r3 geo(3) in_bounds_grow(2) fields(2)
    by (simp add: geometry_inv_def refs_inv_def paths_but_def path_ok_def w)
  show "others_ok i (set_position i p w)"
    using assms(2) in_bounds_grow(2) sets_nodeD [OF fields(1)] by (auto simp: others_ok_def w fields(2) split: if_splits)
qed

lemma nodes_others: "nodes_inv w \<Longrightarrow> others_ok i w"
  by (simp add: nodes_inv_def others_ok_def)

lemma others_nodes:
  assumes "others_ok i w" and "dict_get (w_nodes w) i = Some n" and "view_ok n" and "in_bounds (w_bounds w) (nv_pos n)"
  shows "nodes_inv w"
  unfolding nodes_inv_def using assms by (metis option.inject others_ok_def)

lemma set_position_ok:
  assumes "geometry_inv w" and "nodes_inv w" and "dict_get (w_nodes w) i = Some n"
  shows "geometry_inv (set_position i p w)" and "nodes_inv (set_position i p w)" and "same_rest w (set_position i p w)"
    and "\<exists>n'. sets_node w i n' (set_position i p w) \<and> nv_selected n' = nv_selected n \<and> nv_pos n' = p
           \<and> nv_mobility n' = nv_mobility n \<and> nv_links n' = nv_links n"
proof -
  note result = set_position_result [OF assms(1) nodes_others [OF assms(2)] assms(3), of p]
  let ?n = "place_label p (n\<lparr>nv_pos := p\<rparr>)"
  have get: "dict_get (w_nodes (set_position i p w)) i = Some ?n" using sets_nodeD [OF result(3)] by simp
  have "view_ok n" using assms(2,3) by (simp add: nodes_inv_def)
  then have "view_ok ?n"
    by (simp add: view_ok_def place_label_def appearance_def label_spot_def Let_def split: if_splits)
  moreover have "nv_pos ?n = p" by (simp add: place_label_def)
  ultimately show "nodes_inv (set_position i p w)" using others_nodes [OF result(2) get] result(5) by simp
  show "geometry_inv (set_position i p w)" "same_rest w (set_position i p w)" using result by simp_all
  show "\<exists>n'. sets_node w i n' (set_position i p w) \<and> nv_selected n' = nv_selected n \<and> nv_pos n' = p
     \<and> nv_mobility n' = nv_mobility n \<and> nv_links n' = nv_links n"
    using result(3) by (intro exI [of _ ?n]) (simp add: place_label_def)
qed

text \<open>A property of node \<open>i\<close> is changed to \<open>n\<close>, which keeps place, links and label item.\<close>

lemma update_appearance_ok:
  assumes "geometry_inv w" and "nodes_inv w" and "dict_get (w_nodes w) i = Some n0"
    and "nv_pos n = nv_pos n0" and "nv_links n = nv_links n0" and "nv_label_at n = nv_label_at n0"
    and "nv_label n = None \<Longrightarrow> nv_label n0 = None"
  defines "w' \<equiv> update_appearance i (put_node i n w)"
  shows "geometry_inv w'" and "nodes_inv w'" and "same_rest w w'"
    and "\<exists>n'. sets_node w i n' w' \<and> nv_selected n' = nv_selected n
           \<and> nv_mobility n' = nv_mobility n \<and> nv_links n' = nv_links n \<and> nv_pos n' = nv_pos n"
proof -
  define m where "m = n\<lparr>nv_item := appearance n\<rparr>"
  define w1 where "w1 = put_node i m w"
  have n0: "view_ok n0" "in_bounds (w_bounds w) (nv_pos n0)" using assms(2,3) by (simp_all add: nodes_inv_def)
  have geo: "geometry_inv w1" if "nv_links x = nv_links n0" "nv_pos x = nv_pos n0" "w1 = put_node i x w" for x w1
    using assms(1) refs_put [OF _ assms(3) that(1)] put_node_paths_same [OF _ assms(3) that(2)]
    by (simp add: geometry_inv_def that(3) view_simps)
  have put2: "put_node i x (put_node i y w) = put_node i x w" for x y
    by (simp add: put_node_def)
  have others: "others_ok i (put_node i x w)" for x
    using nodes_others [OF assms(2)] by (auto simp: others_ok_def view_simps split: if_splits)
  have "\<exists>n'. geometry_inv w' \<and> nodes_inv w' \<and> same_rest w w' \<and> sets_node w i n' w'
    \<and> nv_selected n' = nv_selected n \<and> nv_mobility n' = nv_mobility n \<and> nv_links n' = nv_links n \<and> nv_pos n' = nv_pos n"
  proof (cases "nv_label n")
    case None
    have "nv_label n0 = None" using assms(7) None by simp
    then have "view_ok m" using n0(1) None assms(6) by (simp add: view_ok_def m_def appearance_def Let_def)
    moreover have "w' = put_node i m w" using None by (simp add: w'_def update_appearance_def m_def view_simps put2 Let_def)
    ultimately show ?thesis
      using geo [of m w'] nodes_put [OF assms(2), of m i] n0(2) assms(4,5)
      by (intro exI [of _ m]) (simp add: m_def view_simps sets_node_def)
  next
    case (Some t)
    define k where "k = (if nv_label_at m = None then m\<lparr>nv_label_at := Some (0, 0)\<rparr> else m)"
    have w': "w' = set_position i (nv_pos n) (put_node i k w)"
      using Some by (simp add: w'_def update_appearance_def m_def k_def view_simps put2 Let_def)
    have k: "nv_links k = nv_links n0" "nv_pos k = nv_pos n0" "nv_item k = appearance k" "nv_label_at k \<noteq> None" "nv_label k = Some t"
        "nv_selected k = nv_selected n" "nv_mobility k = nv_mobility n"
      using assms(4,5) Some by (auto simp: k_def m_def appearance_def Let_def)
    have get: "dict_get (w_nodes (put_node i k w)) i = Some k" by (simp add: view_simps)
    note result = set_position_result [OF geo [OF k(1,2) refl] others get, of "nv_pos n"]
    let ?k = "place_label (nv_pos n) (k\<lparr>nv_pos := nv_pos n\<rparr>)"
    have ok: "view_ok ?k"
      using k by (auto simp: view_ok_def place_label_def appearance_def label_spot_def Let_def)
    have get': "dict_get (w_nodes w') i = Some ?k" using sets_nodeD [OF result(3)] by (simp add: w')
    have "nodes_inv w'"
      using others_nodes [OF result(2) get' [unfolded w'] ok] result(5) by (simp add: w' place_label_def)
    moreover have "same_rest w w'" using result(4) same_rest_trans [OF same_rest_put] by (auto simp: w')
    moreover have "sets_node w i ?k w'" using sets_nodeD [OF result(3)] by (simp add: w' sets_node_def view_simps)
    moreover have "nv_selected ?k = nv_selected n" "nv_mobility ?k = nv_mobility n" "nv_links ?k = nv_links n" "nv_pos ?k = nv_pos n"
      using k assms(4,5) by (simp_all add: place_label_def)
    moreover have "geometry_inv w'" using result(1) by (simp add: w')
    ultimately show ?thesis by blast
  qed
  then show "geometry_inv w'" "nodes_inv w'" "same_rest w w'"
    "\<exists>n'. sets_node w i n' w' \<and> nv_selected n' = nv_selected n
           \<and> nv_mobility n' = nv_mobility n \<and> nv_links n' = nv_links n \<and> nv_pos n' = nv_pos n"
    by blast+
qed

section \<open>What the user does\<close>

text \<open>
  The operations of a session once the topology has been scanned: the mouse, the controls, the colour and the label a
  script gives a node, and the simulator that moves a node between two updates.
\<close>

datatype view_op =
    Node_Press nat nat point | Node_Release nat | Root_Press nat | Drag_Motion nat point | Enter nat | Leave nat
  | Mode show_mode | Node_Size nat rat | Node_Label nat string | Node_Color nat "int + int \<times> int \<times> int"
  | Moved nat point | Update_Positions

fun view_perform :: "view_op \<Rightarrow> window \<Rightarrow> window res" where
  "view_perform (Node_Press button i pointer) w = node_button_press button i pointer w"
| "view_perform (Node_Release button) w = Inr (node_button_release button w)"
| "view_perform (Root_Press button) w = root_button_press button w"
| "view_perform (Drag_Motion i pointer) w = Inr (node_drag_motion i pointer w)"
| "view_perform (Enter i) w = Inr (set_highlighted i True w)"
| "view_perform (Leave i) w = Inr (set_highlighted i False w)"
| "view_perform (Mode mode) w = Inr (set_show_transmissions_mode mode w)"
| "view_perform (Node_Size i meters) w = Inr (set_size i meters w)"
| "view_perform (Node_Label i label) w = Inr (set_label i label w)"
| "view_perform (Node_Color i color) w = Inr (set_color i color w)"
| "view_perform (Moved i pos) w = Inr (w\<lparr>w_mobility := dict_set (w_mobility w) i pos\<rparr>)"
| "view_perform Update_Positions w = Inr (update_node_positions w)"

text \<open>The events of a node come from its item, so the node exists.\<close>

fun op_node :: "view_op \<Rightarrow> nat option" where
  "op_node (Node_Press _ i _) = Some i"
| "op_node (Drag_Motion i _) = Some i"
| "op_node (Enter i) = Some i"
| "op_node (Leave i) = Some i"
| "op_node (Node_Size i _) = Some i"
| "op_node (Node_Label i _) = Some i"
| "op_node (Node_Color i _) = Some i"
| "op_node _ = None"

definition op_ok :: "window \<Rightarrow> view_op \<Rightarrow> bool" where
  "op_ok w op \<longleftrightarrow> (\<forall>i. op_node op = Some i \<longrightarrow> dict_get (w_nodes w) i \<noteq> None)"

lemma window_inv_parts: "window_inv w \<longleftrightarrow> geometry_inv w \<and> nodes_inv w \<and> selection_inv w \<and> interest_inv w"
  by (auto simp: window_inv_def geometry_inv_def)

lemma interest_same: "same_rest w w' \<Longrightarrow> interest_inv w \<Longrightarrow> interest_inv w'"
  by (simp add: same_rest_def interest_inv_def split: show_mode.splits option.splits)

lemma selection_same:
  assumes "selection_inv w" and "same_rest w w'" and "sets_node w i n' w'" and "dict_get (w_nodes w) i = Some n"
    and "nv_selected n' = nv_selected n"
  shows "selection_inv w'"
  using assms by (auto simp: selection_inv_def same_rest_def sets_nodeD split: if_splits)

lemma set_position_window:
  assumes "window_inv w" and "dict_get (w_nodes w) i = Some n"
  shows "window_inv (set_position i p w)"
proof -
  have parts: "geometry_inv w" "nodes_inv w" "selection_inv w" "interest_inv w" using assms(1) by (simp_all add: window_inv_parts)
  note ok = set_position_ok [OF parts(1,2) assms(2), of p]
  from ok(4) obtain n' where "sets_node w i n' (set_position i p w)" "nv_selected n' = nv_selected n" by blast
  then show ?thesis
    using ok(1-3) selection_same [OF parts(3) ok(3) _ assms(2)] interest_same [OF ok(3) parts(4)] by (simp add: window_inv_parts)
qed

lemma setter_window:
  assumes "window_inv w" and "dict_get (w_nodes w) i = Some n0"
    and "nv_pos n = nv_pos n0" and "nv_links n = nv_links n0" and "nv_label_at n = nv_label_at n0"
    and "nv_label n = None \<Longrightarrow> nv_label n0 = None" and "nv_selected n = nv_selected n0"
  shows "window_inv (update_appearance i (put_node i n w))"
proof -
  have parts: "geometry_inv w" "nodes_inv w" "selection_inv w" "interest_inv w" using assms(1) by (simp_all add: window_inv_parts)
  note ok = update_appearance_ok [OF parts(1,2) assms(2-6)]
  from ok(4) obtain n' where "sets_node w i n' (update_appearance i (put_node i n w))" "nv_selected n' = nv_selected n" by blast
  then show ?thesis
    using ok(1-3) selection_same [OF parts(3) ok(3) _ assms(2)] interest_same [OF ok(3) parts(4)] assms(7) by (simp add: window_inv_parts)
qed

lemma set_selected_window:
  assumes "geometry_inv w" and "nodes_inv w" and "dict_get (w_nodes w) i = Some n"
  shows "geometry_inv (set_selected i b w)" and "nodes_inv (set_selected i b w)" and "same_rest w (set_selected i b w)"
    and "\<exists>n'. sets_node w i n' (set_selected i b w) \<and> nv_selected n' = b"
  using update_appearance_ok [OF assms, of "n\<lparr>nv_selected := b\<rparr>"] by (auto simp: set_selected_def the_node_get [OF assms(3)])

lemma select_node_window:
  assumes "window_inv w" and "select_node node w = Inr w'"
  shows "window_inv w'"
proof (cases "node = w_selected w")
  case True
  with assms show ?thesis by (auto simp: select_node_def split: if_splits)
next
  case False
  have parts: "geometry_inv w" "nodes_inv w" "selection_inv w" "interest_inv w" using assms(1) by (simp_all add: window_inv_parts)
  define w1 where "w1 = (case w_selected w of None \<Rightarrow> w | Some i \<Rightarrow> set_selected i False w)"
  define w2 where "w2 = (case node of None \<Rightarrow> w1\<lparr>w_selected := node\<rparr> | Some i \<Rightarrow> set_selected i True (w1\<lparr>w_selected := node\<rparr>))"
  have exists: "dict_get (w_nodes w) i \<noteq> None" if "node = Some i" for i using assms(2) that by (auto simp: select_node_def split: if_splits)
  have w': "w' = (if w_mode w2 = Show_Selected then w2\<lparr>w_interest := (case node of None \<Rightarrow> [] | Some i \<Rightarrow> [i])\<rparr> else w2)"
    using assms(2) False by (auto simp: select_node_def w2_def w1_def Let_def split: if_splits option.splits)
  have one: "geometry_inv w1 \<and> nodes_inv w1 \<and> same_rest w w1 \<and> (\<forall>j n. dict_get (w_nodes w1) j = Some n \<longrightarrow> \<not> nv_selected n)
     \<and> (\<forall>j. (dict_get (w_nodes w1) j = None) = (dict_get (w_nodes w) j = None))"
  proof (cases "w_selected w")
    case None
    then show ?thesis using parts by (auto simp: w1_def selection_inv_def)
  next
    case (Some i)
    then obtain n where n: "dict_get (w_nodes w) i = Some n" using parts(3) by (auto simp: selection_inv_def)
    note ok = set_selected_window [OF parts(1,2) n, of False]
    from ok(4) obtain n' where n': "sets_node w i n' (set_selected i False w)" "\<not> nv_selected n'" by blast
    show ?thesis
      using ok(1-3) n n'(2) Some parts(3) sets_nodeD [OF n'(1)] by (auto simp: w1_def selection_inv_def split: if_splits)
  qed
  let ?w = "w1\<lparr>w_selected := node\<rparr>"
  have cong: "end_pos ?w = end_pos w1" "end_links ?w = end_links w1" by (intro end_pos_cong end_links_cong; simp)+
  have geo: "geometry_inv ?w" "nodes_inv ?w"
    using one by (simp_all add: geometry_inv_def refs_inv_def paths_but_def path_ok_def nodes_inv_def cong)
  have two: "geometry_inv w2 \<and> nodes_inv w2 \<and> selection_inv w2 \<and> w_selected w2 = node \<and> w_mode w2 = w_mode w
     \<and> w_interest w2 = w_interest w \<and> w_count w2 = w_count w"
  proof (cases node)
    case None
    then show ?thesis using one geo by (auto simp: w2_def selection_inv_def same_rest_def)
  next
    case (Some i)
    then have "dict_get (w_nodes w1) i \<noteq> None" using exists [OF Some] one by simp
    then obtain n where n: "dict_get (w_nodes ?w) i = Some n" by auto
    note ok = set_selected_window [OF geo n, of True]
    from ok(4) obtain n' where n': "sets_node ?w i n' (set_selected i True ?w)" "nv_selected n'" by blast
    have "selection_inv (set_selected i True ?w)"
      using ok(3) one n'(2) Some sets_nodeD [OF n'(1)] by (auto simp: selection_inv_def same_rest_def split: if_splits)
    then show ?thesis using ok one Some by (simp add: w2_def same_rest_def)
  qed
  have "geometry_inv (w2\<lparr>w_interest := x\<rparr>) \<and> nodes_inv (w2\<lparr>w_interest := x\<rparr>) \<and> selection_inv (w2\<lparr>w_interest := x\<rparr>)" for x
  proof -
    have "end_pos (w2\<lparr>w_interest := x\<rparr>) = end_pos w2" "end_links (w2\<lparr>w_interest := x\<rparr>) = end_links w2"
      by (intro end_pos_cong end_links_cong; simp)+
    with two show ?thesis by (simp add: geometry_inv_def refs_inv_def paths_but_def path_ok_def nodes_inv_def selection_inv_def)
  qed
  then show ?thesis
    using two parts(4) by (auto simp: w' window_inv_parts interest_inv_def split: show_mode.splits)
qed

lemma window_inv_cong:
  assumes "window_inv w" and "w_nodes w' = w_nodes w" and "w_channels w' = w_channels w" and "w_links w' = w_links w"
    and "w_bounds w' = w_bounds w" and "w_selected w' = w_selected w" and "w_mode w' = w_mode w" and "w_interest w' = w_interest w"
    and "w_count w' = w_count w"
  shows "window_inv w'"
  using assms(1)
  unfolding window_inv_def nodes_inv_def refs_inv_def paths_but_def path_ok_def selection_inv_def interest_inv_def
    end_pos_cong [OF assms(2,3)] end_links_cong [OF assms(2,3)] assms(2-) .

lemma has_mobility_window:
  assumes "window_inv w" and "dict_get (w_nodes w) i = Some n" and "has_mobility i w = (b, w')"
  shows "window_inv w'" and "w_mobility w' = w_mobility w" and "\<exists>n'. dict_get (w_nodes w') i = Some n'"
    and "dom (dict_get (w_nodes w')) = dom (dict_get (w_nodes w))"
proof -
  have n: "view_ok n" "in_bounds (w_bounds w) (nv_pos n)" using assms(1,2) by (auto simp: window_inv_def nodes_inv_def)
  have parts: "geometry_inv w" "nodes_inv w" "selection_inv w" "interest_inv w" using assms(1) by (simp_all add: window_inv_parts)
  let ?n = "n\<lparr>nv_mobility := Some b\<rparr>"
  have "view_ok ?n" using n(1) by (simp add: view_ok_def appearance_def label_spot_def Let_def)
  then have "window_inv (put_node i ?n w)"
    using nodes_put [OF parts(2), of ?n i] n(2) refs_put [OF _ assms(2), of ?n] put_node_paths_same [OF _ assms(2), of _ ?n]
      selection_same [OF parts(3) same_rest_put _ assms(2)] interest_same [OF same_rest_put parts(4)] parts(1)
    by (simp add: window_inv_parts geometry_inv_def view_simps sets_node_def)
  moreover have "w' = w \<or> w' = put_node i ?n w"
    using assms(3) by (auto simp: has_mobility_def the_node_get [OF assms(2)] Let_def split: option.splits)
  ultimately show "window_inv w'" "w_mobility w' = w_mobility w" "\<exists>n'. dict_get (w_nodes w') i = Some n'"
      "dom (dict_get (w_nodes w')) = dom (dict_get (w_nodes w))"
    using assms(1,2) by (auto simp: view_simps split: if_splits)
qed

lemma set_position_dom:
  assumes "window_inv w" and "dict_get (w_nodes w) i = Some n"
  shows "dom (dict_get (w_nodes (set_position i p w))) = dom (dict_get (w_nodes w))" and "w_mobility (set_position i p w) = w_mobility w"
proof -
  have parts: "geometry_inv w" "nodes_inv w" using assms(1) by (simp_all add: window_inv_parts)
  note ok = set_position_ok [OF parts assms(2), of p]
  from ok(4) obtain n' where n': "sets_node w i n' (set_position i p w)" by blast
  show "dom (dict_get (w_nodes (set_position i p w))) = dom (dict_get (w_nodes w))"
    using sets_nodeD [OF n'] assms(2) by (auto simp: dom_def)
  show "w_mobility (set_position i p w) = w_mobility w" using ok(3) by (simp add: same_rest_def)
qed

lemma follow_window:
  assumes "window_inv w" and "i \<in> dom (dict_get (w_nodes w))"
  shows "window_inv (follow_mobility w i) \<and> dom (dict_get (w_nodes (follow_mobility w i))) = dom (dict_get (w_nodes w))"
proof -
  obtain n where n: "dict_get (w_nodes w) i = Some n" using assms(2) by blast
  obtain b w1 where w1: "has_mobility i w = (b, w1)" by fastforce
  note ok = has_mobility_window [OF assms(1) n w1]
  from ok(3) obtain n' where n': "dict_get (w_nodes w1) i = Some n'" by blast
  show ?thesis
    using ok(1,4) set_position_window [OF ok(1) n'] set_position_dom [OF ok(1) n']
    by (simp add: follow_mobility_def w1 split: option.split)
qed

lemma update_positions_window: "window_inv w \<Longrightarrow> window_inv (update_node_positions w)"
proof -
  have "window_inv u \<Longrightarrow> set is \<subseteq> dom (dict_get (w_nodes u)) \<Longrightarrow> window_inv (foldl follow_mobility u is)" for u "is"
    by (induction "is" arbitrary: u) (auto simp: follow_window)
  moreover have "set (dict_keys (w_nodes w)) = dom (dict_get (w_nodes w))" by (rule dom_dict_get [symmetric])
  ultimately show "window_inv w \<Longrightarrow> window_inv (update_node_positions w)" by (simp only: update_node_positions_def order_refl)
qed

lemma perform_window:
  assumes "window_inv w" and "op_ok w op" and "view_perform op w = Inr w'"
  shows "window_inv w'"
proof -
  have node: "\<exists>n. dict_get (w_nodes w) i = Some n" if "op_node op = Some i" for i using assms(2) that by (simp add: op_ok_def)
  show ?thesis
  proof (cases op)
    case (Node_Press button i pointer)
    then show ?thesis
      using assms(1,3) select_node_window [OF assms(1)] window_inv_cong [OF assms(1), of w']
      by (auto simp: node_button_press_def begin_node_drag_def split: if_splits option.splits)
  next
    case (Node_Release button)
    then show ?thesis using assms window_inv_cong [OF assms(1), of w'] by (auto simp: node_button_release_def end_node_drag_def split: if_splits)
  next
    case (Root_Press button)
    then show ?thesis using assms(1,3) select_node_window [OF assms(1)] by (auto simp: root_button_press_def split: if_splits)
  next
    case (Drag_Motion i pointer)
    then obtain n where n: "dict_get (w_nodes w) i = Some n" using node by auto
    have moving: "window_inv (set_position i p (w\<lparr>w_mobility := m\<rparr>))" for p m
      by (rule set_position_window [OF window_inv_cong [OF assms(1)]]) (simp_all add: n)
    then show ?thesis
      using assms(1,3) Drag_Motion by (auto simp: node_drag_motion_def Let_def intro!: moving split: option.splits)
  next
    case (Enter i)
    then obtain n where n: "dict_get (w_nodes w) i = Some n" using node by auto
    show ?thesis using assms(3) Enter by (auto simp: set_highlighted_def the_node_get [OF n] intro!: setter_window [OF assms(1) n])
  next
    case (Leave i)
    then obtain n where n: "dict_get (w_nodes w) i = Some n" using node by auto
    show ?thesis using assms(3) Leave by (auto simp: set_highlighted_def the_node_get [OF n] intro!: setter_window [OF assms(1) n])
  next
    case (Mode mode)
    have parts: "geometry_inv w" "nodes_inv w" "selection_inv w" using assms(1) by (simp_all add: window_inv_parts)
    define v where "v = set_show_transmissions_mode mode w"
    have "end_pos v = end_pos w" "end_links v = end_links w"
      by (intro end_pos_cong end_links_cong; simp add: v_def set_show_transmissions_mode_def)+
    then have "geometry_inv v \<and> nodes_inv v \<and> selection_inv v"
      using parts by (simp add: v_def set_show_transmissions_mode_def geometry_inv_def refs_inv_def paths_but_def path_ok_def
          nodes_inv_def selection_inv_def)
    moreover have "interest_inv v" by (simp add: v_def set_show_transmissions_mode_def interest_inv_def split: show_mode.split)
    ultimately show ?thesis using assms(3) Mode by (simp add: window_inv_parts v_def)
  next
    case (Node_Size i meters)
    then obtain n where n: "dict_get (w_nodes w) i = Some n" using node by auto
    show ?thesis using assms(3) Node_Size by (auto simp: set_size_def the_node_get [OF n] intro!: setter_window [OF assms(1) n])
  next
    case (Node_Label i label)
    then obtain n where n: "dict_get (w_nodes w) i = Some n" using node by auto
    show ?thesis using assms(3) Node_Label by (auto simp: set_label_def the_node_get [OF n] intro!: setter_window [OF assms(1) n])
  next
    case (Node_Color i color)
    then obtain n where n: "dict_get (w_nodes w) i = Some n" using node by auto
    show ?thesis using assms(3) Node_Color by (auto simp: set_color_def the_node_get [OF n] intro!: setter_window [OF assms(1) n])
  next
    case (Moved i pos)
    then show ?thesis using assms window_inv_cong [OF assms(1), of w'] by auto
  next
    case Update_Positions
    then show ?thesis using assms update_positions_window by auto
  qed
qed

end
