(* ===== verification/Viz_Scan_Correct.thy ===== *)
theory Viz_Scan_Correct
  imports Viz_View_Correct
begin

text \<open>
  Correctness of the scan of the topology, and of dragging: the links made are those of the wired
  devices, every node is put where its mobility model or the layout says, and the invariant of the
  window holds afterwards and from then on.
\<close>

section \<open>Steps of the scan\<close>

definition link_ends :: "window \<Rightarrow> (nat \<times> endpoint) list" where
  "link_ends w = map (\<lambda>k. (ln_node k, ln_end k)) (w_links w)"

text \<open>What every step keeps: nodes and channels, the places of the nodes, the mobility models.\<close>

definition ext :: "window \<Rightarrow> window \<Rightarrow> bool" where
  "ext w w' \<longleftrightarrow>
     (\<forall>i n. dict_get (w_nodes w) i = Some n \<longrightarrow> (\<exists>n'. dict_get (w_nodes w') i = Some n' \<and> nv_pos n' = nv_pos n))
     \<and> dom (dict_get (w_channels w)) \<subseteq> dom (dict_get (w_channels w')) \<and> w_mobility w' = w_mobility w \<and> w_count w' = w_count w"

lemma ext_refl [simp]: "ext w w"
  by (simp add: ext_def)

lemma ext_trans: "ext u v \<Longrightarrow> ext v w \<Longrightarrow> ext u w"
  unfolding ext_def by (metis (no_types, lifting) order_trans)

lemma ext_dom: "ext w w' \<Longrightarrow> dom (dict_get (w_nodes w)) \<subseteq> dom (dict_get (w_nodes w'))"
  unfolding ext_def by blast

lemma interest_cong:
  "w_mode w' = w_mode w \<Longrightarrow> w_interest w' = w_interest w \<Longrightarrow> w_selected w' = w_selected w \<Longrightarrow> w_count w' = w_count w
   \<Longrightarrow> interest_inv w' = interest_inv w"
  by (simp only: interest_inv_def)

lemma get_node_scan:
  assumes "window_inv w"
  shows "window_inv (get_node i w)" and "ext w (get_node i w)" and "i \<in> dom (dict_get (w_nodes (get_node i w)))"
    and "w_links (get_node i w) = w_links w" and "w_traits (get_node i w) = w_traits w" and "w_channels (get_node i w) = w_channels w"
    and "dom (dict_get (w_nodes (get_node i w))) = insert i (dom (dict_get (w_nodes w)))"
proof -
  have parts: "nodes_inv w" "refs_inv w" "paths_but {} w" "selection_inv w" "interest_inv w" "in_bounds (w_bounds w) (0, 0)"
    using assms by (simp_all add: window_inv_def)
  have "window_inv (put_node i new_node w)" if none: "dict_get (w_nodes w) i = None"
  proof -
    have node: "view_ok new_node" "nv_pos new_node = (0, 0)" "nv_links new_node = []" "\<not> nv_selected new_node"
      by (simp_all add: new_node_def view_ok_def appearance_def Let_def)
    have links: "end_links (put_node i new_node w) e = (if e = To_Node i then Some [] else end_links w e)" for e
      using node(3) by (cases e) (simp_all add: end_links_def view_simps)
    have ends: "To_Node i \<notin> {To_Node (ln_node (w_links w ! l)), ln_end (w_links w ! l)}" if "l < length (w_links w)" for l
      using parts(2) that none unfolding refs_inv_def by (metis end_links_def endpoint.simps(5) option.simps(3,8))
    have refs: "refs_inv (put_node i new_node w)"
      unfolding refs_inv_def links put_node_frame(2)
      using parts(2) ends unfolding refs_inv_def by (auto split: if_splits) (metis ends insert_iff)+
    have "paths_but {} (put_node i new_node w)"
      using parts(3) ends unfolding paths_but_def path_ok_def put_node_frame(2)
      by (metis (no_types, lifting) end_pos_put insert_iff)
    moreover have "selection_inv (put_node i new_node w)"
      using parts(4) none node(4) by (auto simp: selection_inv_def view_simps split: if_splits)
    ultimately show ?thesis
      using nodes_put [OF parts(1) node(1), of i] refs parts(5,6) node(2)
      by (simp add: window_inv_def view_simps interest_same [OF same_rest_put])
  qed
  then show "window_inv (get_node i w)" using assms by (simp add: get_node_def)
  show "ext w (get_node i w)" "w_links (get_node i w) = w_links w" "w_traits (get_node i w) = w_traits w"
      "w_channels (get_node i w) = w_channels w" "i \<in> dom (dict_get (w_nodes (get_node i w)))"
      "dom (dict_get (w_nodes (get_node i w))) = insert i (dom (dict_get (w_nodes w)))"
    by (auto simp: get_node_def ext_def view_simps dom_def)
qed

lemma get_channel_scan:
  assumes "window_inv w"
  shows "window_inv (get_channel c w)" and "ext w (get_channel c w)" and "c \<in> dom (dict_get (w_channels (get_channel c w)))"
    and "w_links (get_channel c w) = w_links w" and "w_traits (get_channel c w) = w_traits w" and "w_nodes (get_channel c w) = w_nodes w"
proof -
  have parts: "nodes_inv w" "refs_inv w" "paths_but {} w" "selection_inv w" "interest_inv w" "in_bounds (w_bounds w) (0, 0)"
    using assms by (simp_all add: window_inv_def)
  let ?w = "w\<lparr>w_channels := dict_set (w_channels w) c ((0, 0), [])\<rparr>"
  have "window_inv ?w" if none: "dict_get (w_channels w) c = None"
  proof -
    have links: "end_links ?w e = (if e = To_Channel c then Some [] else end_links w e)" for e
      by (cases e) (simp_all add: end_links_def)
    have ends: "To_Channel c \<notin> {To_Node (ln_node (w_links w ! l)), ln_end (w_links w ! l)}" if "l < length (w_links w)" for l
      using parts(2) that none unfolding refs_inv_def by (metis end_links_def endpoint.simps(6) option.simps(3,8))
    have pos: "end_pos ?w e = end_pos w e" if "e \<noteq> To_Channel c" for e
      using that by (cases e) (simp_all add: end_pos_def the_node_def)
    have "refs_inv ?w"
      unfolding refs_inv_def links
      using parts(2) ends unfolding refs_inv_def by (auto split: if_splits) (metis ends insert_iff)+
    moreover have "paths_but {} ?w"
    proof -
      have "path_ok ?w (w_links w ! l)" if l: "l < length (w_links w)" for l
      proof -
        have "To_Node (ln_node (w_links w ! l)) \<noteq> To_Channel c" "ln_end (w_links w ! l) \<noteq> To_Channel c" using ends [OF l] by auto
        note same = this [THEN pos]
        show ?thesis using parts(3) l unfolding paths_but_def path_ok_def same by simp
      qed
      then show ?thesis by (simp add: paths_but_def)
    qed
    ultimately show ?thesis
      using parts interest_cong [of ?w w] by (simp add: window_inv_def nodes_inv_def selection_inv_def)
  qed
  then show "window_inv (get_channel c w)" using assms by (simp add: get_channel_def)
  show "ext w (get_channel c w)" "w_links (get_channel c w) = w_links w" "w_traits (get_channel c w) = w_traits w"
      "w_nodes (get_channel c w) = w_nodes w" "c \<in> dom (dict_get (w_channels (get_channel c w)))"
    by (auto simp: get_channel_def ext_def dom_def)
qed

text \<open>A link between a node and another node or a channel.\<close>

definition has_end :: "window \<Rightarrow> endpoint \<Rightarrow> bool" where
  "has_end w e \<longleftrightarrow> end_links w e \<noteq> None"

lemma has_end_simps [simp]:
  "has_end w (To_Node i) \<longleftrightarrow> i \<in> dom (dict_get (w_nodes w))" "has_end w (To_Channel c) \<longleftrightarrow> c \<in> dom (dict_get (w_channels w))"
  by (auto simp: has_end_def end_links_def)

lemma add_end_result:
  assumes "end_links w e = Some ls"
  shows "end_links (add_end l e w) e' = (if e' = e then Some (ls @ [l]) else end_links w e')"
    and "end_pos (add_end l e w) = end_pos w" and "ext w (add_end l e w)"
    and "w_links (add_end l e w) = w_links w" and "w_traits (add_end l e w) = w_traits w" and "w_bounds (add_end l e w) = w_bounds w"
    and "nodes_inv w \<Longrightarrow> nodes_inv (add_end l e w)" and "selection_inv w \<Longrightarrow> selection_inv (add_end l e w)"
    and "interest_inv w \<Longrightarrow> interest_inv (add_end l e w)"
    and "dom (dict_get (w_nodes (add_end l e w))) = dom (dict_get (w_nodes w))"
proof -
  have "end_links (add_end l e w) e' = (if e' = e then Some (ls @ [l]) else end_links w e') \<and> end_pos (add_end l e w) = end_pos w
    \<and> ext w (add_end l e w) \<and> w_links (add_end l e w) = w_links w \<and> w_traits (add_end l e w) = w_traits w
    \<and> w_bounds (add_end l e w) = w_bounds w \<and> (nodes_inv w \<longrightarrow> nodes_inv (add_end l e w))
    \<and> (selection_inv w \<longrightarrow> selection_inv (add_end l e w)) \<and> (interest_inv w \<longrightarrow> interest_inv (add_end l e w))
    \<and> dom (dict_get (w_nodes (add_end l e w))) = dom (dict_get (w_nodes w))"
  proof (cases e)
    case (To_Node i)
    then obtain n where n: "dict_get (w_nodes w) i = Some n" "nv_links n = ls" using assms by (auto simp: end_links_def)
    let ?n = "n\<lparr>nv_links := ls @ [l]\<rparr>"
    have w': "add_end l e w = put_node i ?n w" using To_Node n by (simp add: add_end_def the_node_get)
    have "end_links (put_node i ?n w) e' = (if e' = e then Some (ls @ [l]) else end_links w e')"
      using To_Node by (cases e') (simp_all add: end_links_def view_simps)
    moreover have "end_pos (put_node i ?n w) = end_pos w" by (rule end_pos_put_same [OF n(1)]) simp
    moreover have "ext w (put_node i ?n w)" using n(1) by (auto simp: ext_def view_simps)
    moreover have "nodes_inv (put_node i ?n w)" if "nodes_inv w"
      using that n(1) nodes_put [OF that, of ?n i] by (auto simp: nodes_inv_def view_ok_def appearance_def label_spot_def Let_def)
    moreover have "selection_inv (put_node i ?n w)" if "selection_inv w"
      by (rule selection_same [OF that same_rest_put _ n(1), where n' = "?n"]) (simp_all add: sets_node_def view_simps)
    ultimately show ?thesis
      using n(1) interest_same [OF same_rest_put] by (auto simp: w' view_simps split: if_splits)
  next
    case (To_Channel c)
    then obtain p where c: "dict_get (w_channels w) c = Some (p, ls)" using assms by (auto simp: end_links_def)
    have w': "add_end l e w = w\<lparr>w_channels := dict_set (w_channels w) c (p, ls @ [l])\<rparr>" using To_Channel c by (simp add: add_end_def)
    have "interest_inv (add_end l e w) = interest_inv w" by (rule interest_cong) (simp_all add: w')
    then show ?thesis
      using c To_Channel unfolding w'
      by (auto simp: end_links_def end_pos_def the_node_def fun_eq_iff ext_def nodes_inv_def selection_inv_def split: endpoint.split)
  qed
  then show "end_links (add_end l e w) e' = (if e' = e then Some (ls @ [l]) else end_links w e')"
    "end_pos (add_end l e w) = end_pos w" "ext w (add_end l e w)"
    "w_links (add_end l e w) = w_links w" "w_traits (add_end l e w) = w_traits w" "w_bounds (add_end l e w) = w_bounds w"
    "nodes_inv w \<Longrightarrow> nodes_inv (add_end l e w)" "selection_inv w \<Longrightarrow> selection_inv (add_end l e w)"
    "interest_inv w \<Longrightarrow> interest_inv (add_end l e w)" "dom (dict_get (w_nodes (add_end l e w))) = dom (dict_get (w_nodes w))"
    by blast+
qed

lemma create_link_scan:
  assumes "window_inv w" and "i \<in> dom (dict_get (w_nodes w))" and "has_end w e"
  shows "window_inv (create_link i e w)" and "ext w (create_link i e w)" and "link_ends (create_link i e w) = link_ends w @ [(i, e)]"
    and "w_traits (create_link i e w) = w_traits w" and "dom (dict_get (w_nodes (create_link i e w))) = dom (dict_get (w_nodes w))"
proof -
  have parts: "nodes_inv w" "refs_inv w" "paths_but {} w" "selection_inv w" "interest_inv w" "in_bounds (w_bounds w) (0, 0)"
    using assms(1) by (simp_all add: window_inv_def)
  define l where "l = length (w_links w)"
  define k where "k = \<lparr>ln_node = i, ln_end = e, ln_path = None\<rparr>"
  define w0 where "w0 = w\<lparr>w_links := w_links w @ [k]\<rparr>"
  define w1 where "w1 = add_end l (To_Node i) w0"
  define w2 where "w2 = add_end l e w1"
  have w: "create_link i e w = w2" by (simp add: create_link_def w2_def w1_def w0_def l_def k_def Let_def)
  have cong: "end_links w0 = end_links w" "end_pos w0 = end_pos w" by (intro end_links_cong end_pos_cong; simp add: w0_def)+
  have inv0: "nodes_inv w0" "selection_inv w0" "interest_inv w0"
    using parts interest_cong [of w0 w] by (simp_all add: w0_def nodes_inv_def selection_inv_def)
  obtain l1 where l1: "end_links w0 (To_Node i) = Some l1" using assms(2) by (auto simp: cong end_links_def)
  note one = add_end_result [OF l1, of l, folded w1_def]
  obtain l2 where l2: "end_links w1 e = Some l2"
    using assms(3) one(1) [of e] by (cases "e = To_Node i") (auto simp: cong has_end_def)
  note two = add_end_result [OF l2, of l, folded w2_def]
  have links: "w_links w2 = w_links w @ [k]" using one(4) two(4) by (simp add: w0_def)
  have ends: "\<exists>ls'. end_links w2 e' = Some ls' \<and> set ls' = insert l (set ls)" if "end_links w e' = Some ls" "e' \<in> {To_Node i, e}" for e' ls
    using that one(1) two(1) l1 l2 by (auto simp: cong split: if_splits)
  have others: "end_links w2 e' = end_links w e'" if "e' \<notin> {To_Node i, e}" for e'
    using that one(1) two(1) by (simp add: cong)
  have old: "\<exists>ls'. end_links w2 e' = Some ls' \<and> set ls \<subseteq> set ls' \<and> set ls' \<subseteq> insert l (set ls)" if "end_links w e' = Some ls" for e' ls
    using ends [OF that] others [of e'] that by (cases "e' \<in> {To_Node i, e}") auto
  have exists: "end_links w e' \<noteq> None" if "e' \<in> {To_Node i, e}" for e'
    using that assms(2,3) by (auto simp: has_end_def end_links_def)
  have refs: "refs_inv w2"
    unfolding refs_inv_def
  proof (intro conjI allI impI ballI)
    fix m e' assume m: "m < length (w_links w2)" "e' \<in> {To_Node (ln_node (w_links w2 ! m)), ln_end (w_links w2 ! m)}"
    show "\<exists>ls. end_links w2 e' = Some ls \<and> m \<in> set ls"
    proof (cases "m < l")
      case True
      then have "w_links w2 ! m = w_links w ! m" by (simp add: links l_def nth_append)
      then obtain ls where "end_links w e' = Some ls" "m \<in> set ls"
        using parts(2) True m(2) unfolding refs_inv_def l_def by metis
      then show ?thesis using old by blast
    next
      case False
      then have "m = l" using m(1) by (simp add: links l_def)
      then have "w_links w2 ! m = k" by (simp add: links l_def)
      then have e': "e' \<in> {To_Node i, e}" using m(2) by (auto simp: k_def)
      then show ?thesis using exists ends e' \<open>m = l\<close> by fastforce
    qed
  next
    fix e' ls assume ls: "end_links w2 e' = Some ls"
    have "end_links w e' \<noteq> None"
      using ls others [of e'] exists [of e'] by (metis option.discI)
    then obtain ls0 where ls0: "end_links w e' = Some ls0" by blast
    then have "set ls0 \<subseteq> {..<l}" using parts(2) unfolding refs_inv_def l_def by blast
    then show "set ls \<subseteq> {..<length (w_links w2)}" using old [OF ls0] ls by (auto simp: links l_def)
  qed
  have pos: "end_pos w2 = end_pos w" using one(2) two(2) cong(2) by simp
  have "path_ok w2 (w_links w2 ! m)" if "m < length (w_links w2)" for m
  proof (cases "m < l")
    case True
    then show ?thesis using parts(3) by (simp add: paths_but_def path_ok_def pos links l_def nth_append)
  next
    case False
    then have "m = l" using that by (simp add: links l_def)
    then have "w_links w2 ! m = k" by (simp add: links l_def)
    then show ?thesis by (simp add: path_ok_def k_def)
  qed
  then have paths: "paths_but {} w2" by (simp add: paths_but_def)
  show "window_inv (create_link i e w)"
    using one two inv0 refs paths parts(6) by (simp add: w window_inv_def w0_def)
  have "ext w w0" by (simp add: w0_def ext_def)
  then show "ext w (create_link i e w)" unfolding w using one(3) two(3) ext_trans by blast
  show "link_ends (create_link i e w) = link_ends w @ [(i, e)]" by (simp add: w link_ends_def links k_def)
  show "w_traits (create_link i e w) = w_traits w" "dom (dict_get (w_nodes (create_link i e w))) = dom (dict_get (w_nodes w))"
    using one two by (simp_all add: w w0_def)
qed

section \<open>The scan\<close>

text \<open>A device with a cable: its type is known, and neither wireless nor virtual.\<close>

definition wired :: "device \<Rightarrow> bool" where
  "wired d \<longleftrightarrow>
     (case dict_get netdevice_traits (dv_type d) of None \<Rightarrow> False | Some t \<Rightarrow> tr_wireless t \<noteq> Some True \<and> \<not> tr_virtual t)"

definition device_links :: "network \<Rightarrow> nat \<Rightarrow> device \<Rightarrow> (nat \<times> endpoint) list" where
  "device_links nw i d =
     (case dv_channel d of
        Some c \<Rightarrow>
          if \<not> wired d then []
          else if 2 < length (nw_channel nw c) then [(i, To_Channel c)]
          else map (\<lambda>j. (i, To_Node j)) (filter (\<lambda>j. j \<noteq> i) (nw_channel nw c))
      | None \<Rightarrow> [])"

definition network_ok :: "network \<Rightarrow> nat \<Rightarrow> bool" where
  "network_ok nw n \<longleftrightarrow>
     (\<forall>i < n. \<forall>d \<in> set (nw_devices nw i). wired d \<longrightarrow> (\<exists>c. dv_channel d = Some c \<and> set (nw_channel nw c) \<subseteq> {..<n}))"

definition table_ok :: "(string, device_traits) dict \<Rightarrow> bool" where
  "table_ok table \<longleftrightarrow>
     (\<forall>ty. case dict_get netdevice_traits ty of
             Some t \<Rightarrow> dict_get table ty = Some t
           | None \<Rightarrow> dict_get table ty \<in> {None, Some \<lparr>tr_wireless = Some True, tr_virtual = False\<rparr>})"

lemma lookup_table:
  assumes "table_ok table" and "lookup_netdevice_traits (dv_type d) table = (t, table')"
  shows "table_ok table'" and "(tr_wireless t = Some True \<or> tr_virtual t) \<longleftrightarrow> \<not> wired d"
proof -
  have here: "case dict_get netdevice_traits (dv_type d) of
             Some t \<Rightarrow> dict_get table (dv_type d) = Some t
           | None \<Rightarrow> dict_get table (dv_type d) \<in> {None, Some \<lparr>tr_wireless = Some True, tr_virtual = False\<rparr>}"
    using assms(1) unfolding table_ok_def by blast
  show "(tr_wireless t = Some True \<or> tr_virtual t) \<longleftrightarrow> \<not> wired d"
    using here assms(2) by (auto simp: lookup_netdevice_traits_def wired_def Let_def split: option.splits)
  show "table_ok table'"
  proof (cases "dict_get table (dv_type d)")
    case None
    then have "table' = dict_set table (dv_type d) \<lparr>tr_wireless = Some True, tr_virtual = False\<rparr>" "dict_get netdevice_traits (dv_type d) = None"
      using here assms(2) by (auto simp: lookup_netdevice_traits_def Let_def split: option.splits)
    show ?thesis
      unfolding table_ok_def
    proof
      fix ty
      show "case dict_get netdevice_traits ty of
             Some t \<Rightarrow> dict_get table' ty = Some t
           | None \<Rightarrow> dict_get table' ty \<in> {None, Some \<lparr>tr_wireless = Some True, tr_virtual = False\<rparr>}"
        using spec [OF assms(1) [unfolded table_ok_def], of ty] \<open>table' = _\<close> \<open>dict_get netdevice_traits _ = None\<close>
        by (cases "ty = dv_type d") (simp_all split: option.splits)
    qed
  qed (use assms in \<open>simp add: lookup_netdevice_traits_def\<close>)
qed

text \<open>The graph names nodes without a mobility model, and channels, that exist.\<close>

definition graph_ok :: "window \<Rightarrow> graph \<Rightarrow> bool" where
  "graph_ok w g \<longleftrightarrow>
     distinct (fst g)
     \<and> (\<forall>n \<in> set (fst g).
          (\<exists>i \<in> dom (dict_get (w_nodes w)). n = node_name i \<and> dict_get (w_mobility w) i = None)
          \<or> (\<exists>c \<in> dom (dict_get (w_channels w)). n = channel_name c))"

lemma graph_ok_ext: "graph_ok w g \<Longrightarrow> ext w w' \<Longrightarrow> graph_ok w' g"
proof -
  assume g: "graph_ok w g" and e: "ext w w'"
  have "dom (dict_get (w_channels w)) \<subseteq> dom (dict_get (w_channels w'))" "w_mobility w' = w_mobility w" using e by (simp_all add: ext_def)
  with g ext_dom [OF e] show "graph_ok w' g" unfolding graph_ok_def by (simp only: subset_eq) blast
qed

lemma add_graph_nodes: "fst (add_graph_node n g) = (if n \<in> set (fst g) then fst g else fst g @ [n])"
  by (simp add: add_graph_node_def)

lemma graph_ok_node:
  assumes "graph_ok w g" and "i \<in> dom (dict_get (w_nodes w))" and "dict_get (w_mobility w) i = None"
  shows "graph_ok w (add_graph_node (node_name i) g)"
  using assms by (auto simp: graph_ok_def add_graph_nodes)

lemma graph_ok_edge:
  assumes "graph_ok w (add_graph_node b (add_graph_node a g))"
  shows "graph_ok w (add_graph_edge a b g)"
  using assms by (simp add: graph_ok_def add_graph_edge_def Let_def)

lemma graph_grows: "set (fst g) \<subseteq> set (fst (add_graph_node n g))" "set (fst g) \<subseteq> set (fst (add_graph_edge a b g))"
  by (auto simp: add_graph_node_def add_graph_edge_def Let_def)

text \<open>The answers of \<open>has_mobility\<close> that are remembered are right.\<close>

definition mobility_known :: "window \<Rightarrow> bool" where
  "mobility_known w \<longleftrightarrow>
     (\<forall>i n. dict_get (w_nodes w) i = Some n \<longrightarrow> nv_mobility n \<in> {None, Some (dict_get (w_mobility w) i \<noteq> None)})"

definition scan_inv :: "window \<Rightarrow> graph \<Rightarrow> bool" where
  "scan_inv w g \<longleftrightarrow>
     window_inv w \<and> table_ok (w_traits w) \<and> graph_ok w g \<and> mobility_known w \<and> dom (dict_get (w_nodes w)) \<subseteq> {..<w_count w}"

text \<open>One step: the invariant, what is kept, and the links that are added.\<close>

definition scanned :: "window \<times> graph \<Rightarrow> (nat \<times> endpoint) list \<Rightarrow> window \<times> graph \<Rightarrow> bool" where
  "scanned st ls st' \<longleftrightarrow>
     scan_inv (fst st') (snd st') \<and> ext (fst st) (fst st') \<and> set (fst (snd st)) \<subseteq> set (fst (snd st'))
     \<and> link_ends (fst st') = link_ends (fst st) @ ls"

lemma scanned_trans: "scanned a ls b \<Longrightarrow> scanned b ms c \<Longrightarrow> scanned a (ls @ ms) c"
  unfolding scanned_def using ext_trans by auto

lemma scanned_refl: "scan_inv w g \<Longrightarrow> scanned (w, g) [] (w, g)"
  by (simp add: scanned_def)

lemma known_get_node: "mobility_known w \<Longrightarrow> mobility_known (get_node i w)"
  by (auto simp: mobility_known_def get_node_def view_simps put_node_frame new_node_def Let_def split: if_splits)

lemma known_links:
  assumes "mobility_known w" and "w_mobility w' = w_mobility w"
    and "\<And>i n'. dict_get (w_nodes w') i = Some n' \<Longrightarrow> \<exists>n. dict_get (w_nodes w) i = Some n \<and> nv_mobility n' = nv_mobility n"
  shows "mobility_known w'"
  using assms unfolding mobility_known_def by metis

lemma create_link_known:
  assumes "mobility_known w" and "i \<in> dom (dict_get (w_nodes w))" and "has_end w e" and "ext w (create_link i e w)"
  shows "mobility_known (create_link i e w)"
proof (rule known_links [OF assms(1)])
  show "w_mobility (create_link i e w) = w_mobility w" using assms(4) by (simp add: ext_def)
  fix j n' assume j: "dict_get (w_nodes (create_link i e w)) j = Some n'"
  have step: "\<exists>n. dict_get (w_nodes v) j = Some n \<and> nv_mobility m = nv_mobility n"
    if "dict_get (w_nodes (add_end l e' v)) j = Some m" "has_end v e'" for l e' v m
    using that by (auto simp: add_end_def view_simps the_node_def Let_def split: endpoint.splits if_splits prod.splits)
  let ?l = "length (w_links w)"
  let ?v = "w\<lparr>w_links := w_links w @ [\<lparr>ln_node = i, ln_end = e, ln_path = None\<rparr>]\<rparr>"
  have ends: "end_links ?v = end_links w" by (rule end_links_cong) simp_all
  obtain ls where ls: "end_links ?v (To_Node i) = Some ls" using assms(2) by (auto simp: end_links_def)
  have "has_end (add_end ?l (To_Node i) ?v) e"
    using assms(3) add_end_result(1) [OF ls, of ?l e] by (simp add: has_end_def ends)
  from step [OF _ this, of ?l n'] j obtain m where
    m: "dict_get (w_nodes (add_end ?l (To_Node i) ?v)) j = Some m" "nv_mobility n' = nv_mobility m"
    by (auto simp: create_link_def Let_def)
  from step [OF m(1)] assms(2) m(2) show "\<exists>n. dict_get (w_nodes w) j = Some n \<and> nv_mobility n' = nv_mobility n"
    by auto
qed

lemma has_mobility_scan:
  assumes "scan_inv w g" and "i \<in> dom (dict_get (w_nodes w))" and "has_mobility i w = (b, w')"
  shows "scanned (w, g) [] (w', g)" and "b \<longleftrightarrow> dict_get (w_mobility w) i \<noteq> None"
    and "dom (dict_get (w_nodes w')) = dom (dict_get (w_nodes w))"
proof -
  obtain n where n: "dict_get (w_nodes w) i = Some n" using assms(2) by blast
  have inv: "window_inv w" "table_ok (w_traits w)" "graph_ok w g" "mobility_known w" "dom (dict_get (w_nodes w)) \<subseteq> {..<w_count w}"
    using assms(1) by (simp_all add: scan_inv_def)
  note window = has_mobility_window [OF inv(1) n assms(3)]
  show "dom (dict_get (w_nodes w')) = dom (dict_get (w_nodes w))" by (rule window(4))
  show b: "b \<longleftrightarrow> dict_get (w_mobility w) i \<noteq> None"
  proof (cases "nv_mobility n")
    case (Some c)
    then have "c = b" using assms(3) by (simp add: has_mobility_def the_node_get [OF n])
    moreover have "nv_mobility n \<in> {None, Some (dict_get (w_mobility w) i \<noteq> None)}" using inv(4) n unfolding mobility_known_def by blast
    ultimately show ?thesis using Some by simp
  qed (use assms(3) in \<open>auto simp: has_mobility_def the_node_get [OF n] Let_def\<close>)
  have w': "w' = w \<or> w' = put_node i (n\<lparr>nv_mobility := Some b\<rparr>) w"
    using assms(3) by (auto simp: has_mobility_def the_node_get [OF n] Let_def split: option.splits)
  then have ext: "ext w w'" "link_ends w' = link_ends w" "w_traits w' = w_traits w"
    using n by (auto simp: ext_def view_simps link_ends_def)
  moreover have "mobility_known w'"
  proof -
    have "mobility_known (put_node i (n\<lparr>nv_mobility := Some b\<rparr>) w)"
      unfolding mobility_known_def
    proof (intro allI impI)
      fix j m assume j: "dict_get (w_nodes (put_node i (n\<lparr>nv_mobility := Some b\<rparr>) w)) j = Some m"
      show "nv_mobility m \<in> {None, Some (dict_get (w_mobility (put_node i (n\<lparr>nv_mobility := Some b\<rparr>) w)) j \<noteq> None)}"
      proof (cases "j = i")
        case True
        then show ?thesis using j b by (simp add: view_simps) (metis (no_types, lifting) node_view.select_convs(9) node_view.surjective node_view.update_convs(9))
      next
        case False
        then have "dict_get (w_nodes w) j = Some m" using j by (simp add: view_simps)
        then show ?thesis using inv(4) unfolding mobility_known_def put_node_frame by blast
      qed
    qed
    then show ?thesis using w' inv(4) by auto
  qed
  moreover have "w_count w' = w_count w" using ext(1) by (simp add: ext_def)
  ultimately show "scanned (w, g) [] (w', g)"
    using window(1,4) inv graph_ok_ext [OF inv(3) ext(1)] by (simp add: scanned_def scan_inv_def)
qed

lemma get_node_scanned:
  assumes "scan_inv w g" and "i < w_count w"
  shows "scanned (w, g) [] (get_node i w, g)" and "i \<in> dom (dict_get (w_nodes (get_node i w)))"
proof -
  have inv: "window_inv w" "table_ok (w_traits w)" "graph_ok w g" "mobility_known w" "dom (dict_get (w_nodes w)) \<subseteq> {..<w_count w}"
    using assms(1) by (simp_all add: scan_inv_def)
  note scan = get_node_scan [OF inv(1), of i]
  show "i \<in> dom (dict_get (w_nodes (get_node i w)))" by (rule scan(3))
  have "w_count (get_node i w) = w_count w" using scan(2) by (simp add: ext_def)
  then show "scanned (w, g) [] (get_node i w, g)"
    using scan inv known_get_node graph_ok_ext [OF inv(3) scan(2)] assms(2) by (simp add: scanned_def scan_inv_def link_ends_def)
qed

lemma get_channel_scanned:
  assumes "scan_inv w g"
  shows "scanned (w, g) [] (get_channel c w, g)" and "c \<in> dom (dict_get (w_channels (get_channel c w)))"
    and "w_nodes (get_channel c w) = w_nodes w"
proof -
  have inv: "window_inv w" "table_ok (w_traits w)" "graph_ok w g" "mobility_known w" "dom (dict_get (w_nodes w)) \<subseteq> {..<w_count w}"
    using assms by (simp_all add: scan_inv_def)
  note scan = get_channel_scan [OF inv(1), of c]
  show "c \<in> dom (dict_get (w_channels (get_channel c w)))" "w_nodes (get_channel c w) = w_nodes w" by (rule scan)+
  have "w_count (get_channel c w) = w_count w" "w_mobility (get_channel c w) = w_mobility w" using scan(2) by (simp_all add: ext_def)
  then show "scanned (w, g) [] (get_channel c w, g)"
    using scan inv graph_ok_ext [OF inv(3) scan(2)] by (simp add: scanned_def scan_inv_def link_ends_def mobility_known_def)
qed

lemma create_link_scanned:
  assumes "scan_inv w g" and "i \<in> dom (dict_get (w_nodes w))" and "has_end w e"
  shows "scanned (w, g) [(i, e)] (create_link i e w, g)"
proof -
  have inv: "window_inv w" "table_ok (w_traits w)" "graph_ok w g" "mobility_known w" "dom (dict_get (w_nodes w)) \<subseteq> {..<w_count w}"
    using assms(1) by (simp_all add: scan_inv_def)
  note scan = create_link_scan [OF inv(1) assms(2,3)]
  have "w_count (create_link i e w) = w_count w" using scan(2) by (simp add: ext_def)
  then show ?thesis
    using scan inv graph_ok_ext [OF inv(3) scan(2)] create_link_known [OF inv(4) assms(2,3) scan(2)]
    by (simp add: scanned_def scan_inv_def)
qed

lemma graph_scanned:
  assumes "scan_inv w g" and "graph_ok w g'" and "set (fst g) \<subseteq> set (fst g')"
  shows "scanned (w, g) [] (w, g')"
  using assms by (simp add: scanned_def scan_inv_def)

lemma scan_other_scanned:
  assumes "scan_inv w g" and "i \<in> dom (dict_get (w_nodes w))" and "j < w_count w"
  shows "scanned (w, g) (if j = i then [] else [(i, To_Node j)]) (scan_other i (w, g) j)"
proof -
  note one = get_node_scanned [OF assms(1,3)]
  let ?w1 = "get_node j w"
  have inv1: "scan_inv ?w1 g" using one(1) by (simp add: scanned_def)
  have i1: "i \<in> dom (dict_get (w_nodes ?w1))" "i < w_count w"
    using one(1) assms(1,2) subsetD [OF ext_dom [of w ?w1]] by (auto simp: scanned_def scan_inv_def)
  show ?thesis
  proof (cases "j = i")
    case True
    then show ?thesis using one(1) by (simp add: scan_other_def)
  next
    case False
    obtain b w2 where w2: "(if dict_get (w_mobility ?w1) i = None then has_mobility j ?w1 else (True, ?w1)) = (b, w2)" by fastforce
    have two: "scanned (?w1, g) [] (w2, g) \<and> (b \<longleftrightarrow> dict_get (w_mobility ?w1) i \<noteq> None \<or> dict_get (w_mobility ?w1) j \<noteq> None)
        \<and> dom (dict_get (w_nodes w2)) = dom (dict_get (w_nodes ?w1))"
      using has_mobility_scan [OF inv1 one(2)] scanned_refl [OF inv1] w2 by (auto split: if_splits)
    then have inv2: "scan_inv w2 g" "w_mobility w2 = w_mobility ?w1" "w_count w2 = w_count w"
        "dom (dict_get (w_nodes w2)) = dom (dict_get (w_nodes ?w1))"
      using one(1) by (simp_all add: scanned_def ext_def)
    define g2 where "g2 = (if b then g else add_graph_edge (node_name i) (node_name j) g)"
    have "graph_ok w2 g2"
    proof (cases b)
      case True
      then show ?thesis using inv2(1) by (simp add: g2_def scan_inv_def)
    next
      case False
      then have "dict_get (w_mobility w2) i = None" "dict_get (w_mobility w2) j = None" using two inv2(2) by metis+
      then show ?thesis
        using inv2(1,4) i1(1) one(2) False graph_ok_node by (simp add: g2_def scan_inv_def graph_ok_edge)
    qed
    then have three: "scanned (w2, g) [] (w2, g2)" using graph_scanned [OF inv2(1)] graph_grows by (simp add: g2_def)
    have inv3: "scan_inv w2 g2" using three by (simp add: scanned_def)
    note four = get_node_scanned [OF inv3, of i]
    have four': "scanned (w2, g2) [] (get_node i w2, g2)" "i \<in> dom (dict_get (w_nodes (get_node i w2)))"
      using four i1(2) inv2(3) by simp_all
    have "j \<in> dom (dict_get (w_nodes (get_node i w2)))"
      using subsetD [OF ext_dom [of w2 "get_node i w2"]] four'(1) one(2) inv2(4) by (simp add: scanned_def)
    then have five: "scanned (get_node i w2, g2) [(i, To_Node j)] (create_link i (To_Node j) (get_node i w2), g2)"
      by (intro create_link_scanned) (use four' in \<open>simp_all add: scanned_def\<close>)
    have "scan_other i (w, g) j = (create_link i (To_Node j) (get_node i w2), g2)"
      using False w2 by (simp add: scan_other_def Let_def g2_def)
    then show ?thesis
      using scanned_trans [OF one(1) scanned_trans [OF conjunct1 [OF two] scanned_trans [OF three scanned_trans [OF four'(1) five]]]] False
      by simp
  qed
qed

lemma scan_others:
  assumes "scan_inv w g" and "i \<in> dom (dict_get (w_nodes w))" and "set js \<subseteq> {..<w_count w}"
  shows "scanned (w, g) (map (\<lambda>j. (i, To_Node j)) (filter (\<lambda>j. j \<noteq> i) js)) (foldl (scan_other i) (w, g) js)"
  using assms
proof (induction js arbitrary: w g)
  case Nil
  then show ?case by (simp add: scanned_refl)
next
  case (Cons j js)
  obtain w1 g1 where st: "scan_other i (w, g) j = (w1, g1)" by (cases "scan_other i (w, g) j") auto
  have one: "scanned (w, g) (if j = i then [] else [(i, To_Node j)]) (w1, g1)"
    using scan_other_scanned [OF Cons.prems(1,2), of j] Cons.prems(3) by (simp add: st)
  then have "scan_inv w1 g1" "i \<in> dom (dict_get (w_nodes w1))" "w_count w1 = w_count w"
    using Cons.prems(2) subsetD [OF ext_dom [of w w1]] by (simp_all add: scanned_def ext_def)
  with Cons.IH [of w1 g1] Cons.prems(3)
  have "scanned (w1, g1) (map (\<lambda>j. (i, To_Node j)) (filter (\<lambda>j. j \<noteq> i) js)) (foldl (scan_other i) (w1, g1) js)" by simp
  from scanned_trans [OF one this] show ?case by (simp add: st split: if_splits)
qed

lemma scan_device_scanned:
  assumes "scan_inv w g" and "i \<in> dom (dict_get (w_nodes w))" and "network_ok nw (w_count w)" and "d \<in> set (nw_devices nw i)"
  shows "\<exists>st. scan_device nw i (w, g) d = Inr st \<and> scanned (w, g) (device_links nw i d) st"
proof -
  have inv: "window_inv w" "table_ok (w_traits w)" "graph_ok w g" "mobility_known w" "dom (dict_get (w_nodes w)) \<subseteq> {..<w_count w}"
    using assms(1) by (simp_all add: scan_inv_def)
  obtain t table where look: "lookup_netdevice_traits (dv_type d) (w_traits w) = (t, table)" by (cases "lookup_netdevice_traits (dv_type d) (w_traits w)")
  note table = lookup_table [OF inv(2) look]
  let ?w = "w\<lparr>w_traits := table\<rparr>"
  have "window_inv ?w" by (rule window_inv_cong [OF inv(1)]) simp_all
  then have inv0: "scan_inv ?w g" using inv table(1) by (simp add: scan_inv_def graph_ok_def mobility_known_def)
  then have zero: "scanned (w, g) [] (?w, g)" by (simp add: scanned_def ext_def link_ends_def)
  have i: "i < w_count w" "i \<in> dom (dict_get (w_nodes ?w))" using inv(5) assms(2) by auto
  show ?thesis
  proof (cases "wired d")
    case False
    then show ?thesis
      using zero table(2) look by (simp add: scan_device_def device_links_def split: option.split)
  next
    case True
    then obtain c where c: "dv_channel d = Some c" "set (nw_channel nw c) \<subseteq> {..<w_count w}"
      using assms(3,4) i(1) unfolding network_ok_def by blast
    show ?thesis
    proof (cases "2 < length (nw_channel nw c)")
      case False
      then have "scan_device nw i (w, g) d = Inr (foldl (scan_other i) (?w, g) (nw_channel nw c))"
        using True table(2) look c by (simp add: scan_device_def)
      moreover have "scanned (?w, g) (device_links nw i d) (foldl (scan_other i) (?w, g) (nw_channel nw c))"
        using scan_others [OF inv0 i(2), of "nw_channel nw c"] c False True by (simp add: device_links_def)
      ultimately show ?thesis using scanned_trans [OF zero] by fastforce
    next
      case big: True
      define g1 where "g1 = (if dict_get (w_mobility w) i = None then add_graph_edge (node_name i) (channel_name c) g else g)"
      have i': "i < w_count ?w" using i(1) by simp
      note one = get_node_scanned [OF inv0 i']
      have inv1: "scan_inv (get_node i ?w) g" using one(1) by (simp add: scanned_def)
      note two = get_channel_scanned [OF inv1, of c]
      let ?w2 = "get_channel c (get_node i ?w)"
      have inv2: "scan_inv ?w2 g" using two(1) by (simp add: scanned_def)
      have mob: "w_mobility ?w2 = w_mobility w" using one(1) two(1) by (simp add: scanned_def ext_def)
      have i2: "i \<in> dom (dict_get (w_nodes ?w2))" using one(2) two(3) by simp
      have "graph_ok ?w2 g1"
      proof (cases "dict_get (w_mobility w) i = None")
        case True
        have "graph_ok ?w2 (add_graph_node (node_name i) g)" using inv2 i2 mob True graph_ok_node by (simp add: scan_inv_def)
        then have "graph_ok ?w2 (add_graph_node (channel_name c) (add_graph_node (node_name i) g))"
          using two(2) by (auto simp: graph_ok_def add_graph_nodes)
        then show ?thesis using True by (simp add: g1_def graph_ok_edge)
      next
        case False
        then have "g1 = g" by (simp only: g1_def if_False)
        then show ?thesis using inv2 by (simp add: scan_inv_def)
      qed
      then have three: "scanned (?w2, g) [] (?w2, g1)" using graph_scanned [OF inv2] graph_grows by (simp add: g1_def)
      then have inv3: "scan_inv ?w2 g1" by (simp add: scanned_def)
      have "has_end ?w2 (To_Channel c)" using two(2) by simp
      note four = create_link_scanned [OF inv3 i2 this]
      have "scan_device nw i (w, g) d = Inr (create_link i (To_Channel c) ?w2, g1)"
        using True table(2) look c big by (simp add: scan_device_def g1_def Let_def)
      moreover have "device_links nw i d = [(i, To_Channel c)]" using True c(1) big by (simp add: device_links_def)
      ultimately show ?thesis
        using scanned_trans [OF zero scanned_trans [OF one(1) scanned_trans [OF two(1) scanned_trans [OF three four]]]] by simp
    qed
  qed
qed

lemma scan_devices:
  assumes "scan_inv w g" and "i \<in> dom (dict_get (w_nodes w))" and "network_ok nw (w_count w)" and "set ds \<subseteq> set (nw_devices nw i)"
  shows "\<exists>st. foldM (scan_device nw i) (w, g) ds = Inr st \<and> scanned (w, g) (concat (map (device_links nw i) ds)) st"
  using assms
proof (induction ds arbitrary: w g)
  case Nil
  then show ?case by (simp add: scanned_refl)
next
  case (Cons d ds)
  from scan_device_scanned [OF Cons.prems(1-3), of d] Cons.prems(4) obtain w1 g1 where
    one: "scan_device nw i (w, g) d = Inr (w1, g1)" "scanned (w, g) (device_links nw i d) (w1, g1)" by auto
  have w1: "scan_inv w1 g1" "i \<in> dom (dict_get (w_nodes w1))" "w_count w1 = w_count w"
    using one(2) Cons.prems(2) subsetD [OF ext_dom [of w w1]] by (simp_all add: scanned_def ext_def)
  from Cons.IH [OF w1(1,2)] Cons.prems(3,4) w1(3) obtain st where
    "foldM (scan_device nw i) (w1, g1) ds = Inr st" "scanned (w1, g1) (concat (map (device_links nw i) ds)) st" by auto
  then show ?case using one(1) scanned_trans [OF one(2)] by auto
qed

text \<open>The nodes below \<open>k\<close> with a mobility model are where it says.\<close>

definition placed :: "window \<Rightarrow> nat \<Rightarrow> bool" where
  "placed w k \<longleftrightarrow>
     (\<forall>i < k. \<forall>p. dict_get (w_mobility w) i = Some p \<longrightarrow> (\<exists>n. dict_get (w_nodes w) i = Some n \<and> nv_pos n = point_to_canvas p))"

lemma placed_ext: "placed w k \<Longrightarrow> ext w w' \<Longrightarrow> placed w' k"
  unfolding placed_def ext_def by metis

text \<open>Moving and redrawing keep the ends of the links.\<close>

lemma ends_redraw: "link_ends (foldl update_points w ls) = link_ends w"
proof (induction ls arbitrary: w)
  case (Cons l ls)
  have "map (\<lambda>k. (ln_node k, ln_end k)) (w_links (update_points w l)) = map (\<lambda>k. (ln_node k, ln_end k)) (w_links w)"
    by (rule nth_equalityI) (simp_all add: view_simps update_points_link)
  with Cons show ?case by (simp add: link_ends_def)
qed simp

lemma ends_same: "w_links w' = w_links w \<Longrightarrow> link_ends w' = link_ends w"
  by (simp add: link_ends_def)

lemma ends_kept:
  "link_ends (put_node i n w) = link_ends w" "link_ends (set_position i p w) = link_ends w"
  "link_ends (set_channel_position c p w) = link_ends w" "link_ends (update_appearance i w) = link_ends w"
proof -
  show put: "link_ends (put_node i n w) = link_ends w" for i n w by (simp add: link_ends_def view_simps)
  show pos: "link_ends (set_position i p w) = link_ends w" for i p w
    unfolding set_position_def Let_def by (subst ends_same, simp, simp only: put ends_redraw)
  show "link_ends (set_channel_position c p w) = link_ends w"
    unfolding set_channel_position_def Let_def ends_redraw by (simp add: link_ends_def)
  show "link_ends (update_appearance i w) = link_ends w"
    by (simp add: update_appearance_def Let_def put pos)
qed

text \<open>The colour and the place of a node with a mobility model.\<close>

lemma place_mobile:
  fixes c :: "int + int \<times> int \<times> int" and p :: point
  assumes "scan_inv w g" and "dict_get (w_nodes w) i = Some n" and "placed w i" and "dict_get (w_mobility w) i = Some p"
  defines "w' \<equiv> set_position i (point_to_canvas p) (set_color i c w)"
  shows "scan_inv w' g" and "placed w' (Suc i)" and "link_ends w' = link_ends w" and "dom (dict_get (w_nodes w')) = dom (dict_get (w_nodes w))"
    and "w_count w' = w_count w" and "w_mobility w' = w_mobility w"
proof -
  have inv: "window_inv w" "table_ok (w_traits w)" "graph_ok w g" "mobility_known w" "dom (dict_get (w_nodes w)) \<subseteq> {..<w_count w}"
    using assms(1) by (simp_all add: scan_inv_def)
  let ?n = "n\<lparr>nv_color := (case c of Inl k \<Rightarrow> k | Inr parts \<Rightarrow> rgba parts)\<rparr>"
  define w1 where "w1 = update_appearance i (put_node i ?n w)"
  have w1: "w1 = set_color i c w" by (simp add: w1_def set_color_def the_node_get [OF assms(2)])
  have parts: "geometry_inv w" "nodes_inv w" using inv(1) by (simp_all add: window_inv_parts)
  note one = update_appearance_ok [OF parts assms(2), of ?n, folded w1_def]
  from one(4) obtain n1 where n1: "sets_node w i n1 w1" "nv_mobility n1 = nv_mobility n" by auto
  have win1: "window_inv w1" unfolding w1_def by (rule setter_window [OF inv(1) assms(2)]) simp_all
  have get1: "dict_get (w_nodes w1) i = Some n1" using sets_nodeD [OF n1(1)] by simp
  have parts1: "geometry_inv w1" "nodes_inv w1" using win1 by (simp_all add: window_inv_parts)
  note two = set_position_ok [OF parts1 get1, of "point_to_canvas p"]
  from two(4) obtain n2 where n2: "sets_node w1 i n2 (set_position i (point_to_canvas p) w1)" "nv_mobility n2 = nv_mobility n1"
      "nv_pos n2 = point_to_canvas p" by blast
  have w': "w' = set_position i (point_to_canvas p) w1" by (simp add: w'_def w1)
  have nodes: "dict_get (w_nodes w') j = (if j = i then Some n2 else dict_get (w_nodes w) j)" for j
    using sets_nodeD [OF n2(1)] sets_nodeD [OF n1(1)] by (simp add: w')
  have rest: "same_rest w w'" unfolding w' using one(3) two(3) by (simp add: same_rest_def)
  show dom: "dom (dict_get (w_nodes w')) = dom (dict_get (w_nodes w))" using nodes assms(2) by (auto simp: dom_def split: if_splits)
  show count: "w_count w' = w_count w" and mob: "w_mobility w' = w_mobility w" using rest by (simp_all add: same_rest_def)
  have "window_inv w'" unfolding w' by (rule set_position_window [OF win1 get1])
  moreover have "graph_ok w' g" using inv(3) rest by (simp add: graph_ok_def dom same_rest_def)
  moreover have "mobility_known w'"
    unfolding mobility_known_def
  proof (intro allI impI)
    fix j m assume j: "dict_get (w_nodes w') j = Some m"
    then obtain m0 where "dict_get (w_nodes w) j = Some m0" "nv_mobility m0 = nv_mobility m"
      using nodes [of j] assms(2) n1(2) n2(2) by (cases "j = i") auto
    then show "nv_mobility m \<in> {None, Some (dict_get (w_mobility w') j \<noteq> None)}"
      using inv(4) unfolding mobility_known_def mob by metis
  qed
  ultimately show "scan_inv w' g" using inv rest by (simp add: scan_inv_def dom count same_rest_def)
  show "placed w' (Suc i)"
    using assms(3,4) n2(3) nodes by (auto simp: placed_def mob less_Suc_eq)
  show "link_ends w' = link_ends w" by (simp add: w'_def set_color_def ends_kept)
qed

end
