(* ===== verification/Viz_Topology_Correct.thy ===== *)
theory Viz_Topology_Correct
  imports Viz_Scan_Correct
begin

text \<open>
  The scan of the whole topology, the placing of what was laid out, and the session that follows: the claims about the
  view of the visualizer.
\<close>

section \<open>The loop over the nodes\<close>

definition node_links :: "network \<Rightarrow> nat \<Rightarrow> (nat \<times> endpoint) list" where
  "node_links nw i = concat (map (device_links nw i) (nw_devices nw i))"

definition scan_progress :: "network \<Rightarrow> window \<Rightarrow> nat \<Rightarrow> window \<Rightarrow> graph \<Rightarrow> bool" where
  "scan_progress nw w k w' g \<longleftrightarrow>
     scan_inv w' g \<and> placed w' k \<and> link_ends w' = link_ends w @ concat (map (node_links nw) [0..<k])
     \<and> w_count w' = w_count w \<and> w_mobility w' = w_mobility w
     \<and> (\<forall>i < k. i \<in> dom (dict_get (w_nodes w')) \<and> (dict_get (w_mobility w) i = None \<longrightarrow> node_name i \<in> set (fst g)))"

lemma scan_node_progress:
  assumes "scan_progress nw w i w1 g1" and "i < w_count w" and "network_ok nw (w_count w)"
  shows "\<exists>w2 g2. scan_node nw color_parse (w1, g1) i = Inr (w2, g2) \<and> scan_progress nw w (Suc i) w2 g2"
proof -
  have pr: "scan_inv w1 g1" "placed w1 i" "link_ends w1 = link_ends w @ concat (map (node_links nw) [0..<i])"
      "w_count w1 = w_count w" "w_mobility w1 = w_mobility w"
      "\<And>j. j < i \<Longrightarrow> j \<in> dom (dict_get (w_nodes w1)) \<and> (dict_get (w_mobility w) j = None \<longrightarrow> node_name j \<in> set (fst g1))"
    using assms(1) by (simp_all add: scan_progress_def)
  define wg where "wg = get_node i w1"
  have "i < w_count w1" using assms(2) pr(4) by simp
  note one = get_node_scanned [OF pr(1) this, folded wg_def]
  have ext1: "ext w1 wg" and inv1: "scan_inv wg g1" and ends1: "link_ends wg = link_ends w1" using one(1) by (simp_all add: scanned_def)
  have kept: "w_count wg = w_count w" "w_mobility wg = w_mobility w" using ext1 pr(4,5) by (simp_all add: ext_def)
  obtain n where n: "dict_get (w_nodes wg) i = Some n" using one(2) by blast
  note placed1 = placed_ext [OF pr(2) ext1]
  obtain w3 g3 where st: "(case dict_get (w_mobility wg) i of
      Some pos \<Rightarrow> (set_position i (point_to_canvas pos) (set_color i (Inr (color_parse ''red'')) wg), g1)
    | None \<Rightarrow> (wg, add_graph_node (node_name i) g1)) = (w3, g3)"
    by (rule that) (rule prod.collapse [symmetric])
  have three: "scan_inv w3 g3 \<and> placed w3 (Suc i) \<and> link_ends w3 = link_ends wg \<and> w_count w3 = w_count w \<and> w_mobility w3 = w_mobility w
     \<and> dom (dict_get (w_nodes w3)) = dom (dict_get (w_nodes wg)) \<and> set (fst g1) \<subseteq> set (fst g3)
     \<and> (dict_get (w_mobility w) i = None \<longrightarrow> node_name i \<in> set (fst g3))"
  proof (cases "dict_get (w_mobility wg) i")
    case None
    then have w3: "w3 = wg" "g3 = add_graph_node (node_name i) g1" using st by simp_all
    have "graph_ok wg g3" using graph_ok_node [OF _ one(2) None] inv1 by (simp add: w3 scan_inv_def)
    then have "scan_inv wg g3" using inv1 by (simp add: scan_inv_def)
    moreover have "placed wg (Suc i)" using placed1 None by (auto simp: placed_def less_Suc_eq)
    ultimately show ?thesis using kept graph_grows(1) by (auto simp: w3 add_graph_nodes)
  next
    case (Some p)
    then have w3: "w3 = set_position i (point_to_canvas p) (set_color i (Inr (color_parse ''red'')) wg)" "g3 = g1" using st by simp_all
    note mobile = place_mobile [OF inv1 n placed1 Some, of "Inr (color_parse ''red'')", folded w3(1)]
    show ?thesis using mobile kept Some by (simp add: w3(2))
  qed
  have i3: "i \<in> dom (dict_get (w_nodes w3))" using three one(2) by simp
  have net: "network_ok nw (w_count w3)" using assms(3) three by simp
  from scan_devices [OF conjunct1 [OF three] i3 net order_refl] obtain w2 g2 where
    four: "foldM (scan_device nw i) (w3, g3) (nw_devices nw i) = Inr (w2, g2)" "scanned (w3, g3) (node_links nw i) (w2, g2)"
    by (auto simp: node_links_def)
  have scan: "scan_node nw color_parse (w1, g1) i = Inr (w2, g2)"
    unfolding scan_node_def prod.case Let_def wg_def [symmetric] st by (simp add: four(1))
  have ext3: "ext w3 w2" and inv2: "scan_inv w2 g2" and grow: "set (fst g3) \<subseteq> set (fst g2)"
    and ends2: "link_ends w2 = link_ends w3 @ node_links nw i"
    using four(2) by (simp_all add: scanned_def)
  have mob2: "w_count w2 = w_count w" "w_mobility w2 = w_mobility w" using ext3 three by (simp_all add: ext_def)
  have known: "j \<in> dom (dict_get (w_nodes w2)) \<and> (dict_get (w_mobility w) j = None \<longrightarrow> node_name j \<in> set (fst g2))" if j: "j < Suc i" for j
  proof (cases "j = i")
    case True
    then show ?thesis using three i3 grow subsetD [OF ext_dom [OF ext3]] by auto
  next
    case False
    then have "j < i" using j by simp
    from pr(6) [OF this] show ?thesis
      using three grow subsetD [OF ext_dom [OF ext1], of j] subsetD [OF ext_dom [OF ext3], of j] by blast
  qed
  have "placed w2 (Suc i)" using three placed_ext [OF _ ext3] by blast
  then have "scan_progress nw w (Suc i) w2 g2"
    using inv2 mob2 known ends2 three ends1 pr(3) by (simp add: scan_progress_def)
  with scan show ?thesis by blast
qed

lemma scan_nodes_progress:
  assumes "scan_inv w g" and "network_ok nw (w_count w)" and "k \<le> w_count w"
  shows "\<exists>w' g'. foldM (scan_node nw color_parse) (w, g) [0..<k] = Inr (w', g') \<and> scan_progress nw w k w' g'"
  using assms(3)
proof (induction k)
  case 0
  then show ?case using assms(1) by (simp add: scan_progress_def placed_def)
next
  case (Suc k)
  then obtain w1 g1 where one: "foldM (scan_node nw color_parse) (w, g) [0..<k] = Inr (w1, g1)" "scan_progress nw w k w1 g1" by auto
  from scan_node_progress [OF one(2) _ assms(2), of color_parse] Suc.prems obtain w2 g2 where
    "scan_node nw color_parse (w1, g1) k = Inr (w2, g2)" "scan_progress nw w (Suc k) w2 g2" by auto
  then show ?case using one(1) by (simp add: foldM_append)
qed

section \<open>Placing what was laid out\<close>

lemma channel_position:
  fixes p :: point
  assumes "window_inv w" and "c \<in> dom (dict_get (w_channels w))"
  defines "w' \<equiv> set_channel_position c p w"
  shows "window_inv w'" and "end_pos w' e = (if e = To_Channel c then p else end_pos w e)"
    and "w_nodes w' = w_nodes w" and "dom (dict_get (w_channels w')) = dom (dict_get (w_channels w))"
    and "w_mobility w' = w_mobility w" and "w_count w' = w_count w"
proof -
  have parts: "nodes_inv w" "refs_inv w" "paths_but {} w" "selection_inv w" "interest_inv w" "in_bounds (w_bounds w) (0, 0)"
    using assms(1) by (simp_all add: window_inv_def)
  obtain q ls where c: "dict_get (w_channels w) c = Some (q, ls)" using assms(2) by auto
  define w1 where "w1 = w\<lparr>w_channels := dict_set (w_channels w) c (p, ls)\<rparr>"
  have w': "w' = foldl update_points w1 ls" using c by (simp add: w'_def set_channel_position_def w1_def)
  have links: "end_links w1 = end_links w"
    using c by (auto simp: w1_def end_links_def fun_eq_iff split: endpoint.split)
  have pos: "end_pos w1 e = (if e = To_Channel c then p else end_pos w e)" for e
    by (cases e) (simp_all add: w1_def end_pos_def the_node_def)
  have fields: "w_links w1 = w_links w" "w_nodes w1 = w_nodes w" "w_bounds w1 = w_bounds w" by (simp_all add: w1_def)
  have refs: "refs_inv w1" using parts(2) unfolding refs_inv_def links fields .
  have "path_ok w1 (w_links w ! l)" if l: "l < length (w_links w)" "l \<notin> set ls" for l
  proof -
    have "end_links w (To_Channel c) = Some ls" using c by (simp add: end_links_def)
    then have "To_Channel c \<notin> {To_Node (ln_node (w_links w ! l)), ln_end (w_links w ! l)}"
      using parts(2) l unfolding refs_inv_def by (metis option.inject)
    then have "ln_end (w_links w ! l) \<noteq> To_Channel c" by auto
    then show ?thesis using parts(3) l(1) by (simp add: paths_but_def path_ok_def pos)
  qed
  then have "paths_but (set ls) w1" by (simp add: paths_but_def fields)
  then have paths: "paths_but {} w'" using redraw_paths [of "set ls" w1 ls] by (simp add: w')
  have rest: "w_nodes w' = w_nodes w" "w_channels w' = w_channels w1" "w_bounds w' = w_bounds w" "w_selected w' = w_selected w"
      "w_mode w' = w_mode w" "w_interest w' = w_interest w" "w_count w' = w_count w" "w_mobility w' = w_mobility w"
    by (simp_all add: w' view_simps) (simp_all add: w1_def)
  have "interest_inv w'" using parts(5) interest_cong rest by blast
  then show "window_inv w'"
    using parts paths redraw_refs [OF refs, of ls] rest by (simp add: window_inv_def nodes_inv_def selection_inv_def w' [symmetric])
  show "end_pos w' e = (if e = To_Channel c then p else end_pos w e)"
    using pos [of e] end_pos_cong [of w' w1] rest fields by simp
  show "w_nodes w' = w_nodes w" "w_mobility w' = w_mobility w" "w_count w' = w_count w" by (rule rest)+
  show "dom (dict_get (w_channels w')) = dom (dict_get (w_channels w))" using c rest by (auto simp: w1_def split: if_splits)
qed

lemma node_position:
  fixes p :: point
  assumes "window_inv w" and "i \<in> dom (dict_get (w_nodes w))"
  defines "w' \<equiv> set_position i p w"
  shows "window_inv w'" and "end_pos w' e = (if e = To_Node i then p else end_pos w e)"
    and "dom (dict_get (w_nodes w')) = dom (dict_get (w_nodes w))" and "w_channels w' = w_channels w"
    and "w_mobility w' = w_mobility w" and "w_count w' = w_count w"
proof -
  obtain n where n: "dict_get (w_nodes w) i = Some n" using assms(2) by blast
  have parts: "geometry_inv w" "nodes_inv w" using assms(1) by (simp_all add: window_inv_parts)
  note ok = set_position_ok [OF parts n, of p, folded w'_def]
  from ok(4) obtain n' where n': "sets_node w i n' w'" "nv_pos n' = p" by blast
  show "window_inv w'" unfolding w'_def by (rule set_position_window [OF assms(1) n])
  show "end_pos w' e = (if e = To_Node i then p else end_pos w e)"
    using sets_nodeD [OF n'(1)] n'(2) ok(3) by (cases e) (simp_all add: end_pos_def the_node_def same_rest_def)
  show "dom (dict_get (w_nodes w')) = dom (dict_get (w_nodes w))" "w_mobility w' = w_mobility w"
    unfolding w'_def by (rule set_position_dom [OF assms(1) n])+
  show "w_channels w' = w_channels w" "w_count w' = w_count w" using ok(3) by (simp_all add: same_rest_def)
qed

definition end_name :: "endpoint \<Rightarrow> string" where
  "end_name e = (case e of To_Node i \<Rightarrow> node_name i | To_Channel c \<Rightarrow> channel_name c)"

definition same_things :: "window \<Rightarrow> window \<Rightarrow> bool" where
  "same_things w w' \<longleftrightarrow>
     (\<forall>e. has_end w' e \<longleftrightarrow> has_end w e) \<and> w_mobility w' = w_mobility w \<and> w_count w' = w_count w \<and> link_ends w' = link_ends w"

lemma end_position:
  assumes "window_inv w" and "has_end w e"
  shows "window_inv (set_end_position e p w)" and "end_pos (set_end_position e p w) e' = (if e' = e then p else end_pos w e')"
    and "same_things w (set_end_position e p w)"
proof -
  have "window_inv (set_end_position e p w) \<and> end_pos (set_end_position e p w) e' = (if e' = e then p else end_pos w e')
      \<and> same_things w (set_end_position e p w)"
  proof (cases e)
    case (To_Node i)
    then have "i \<in> dom (dict_get (w_nodes w))" using assms(2) by simp
    note pos = node_position [OF assms(1) this, of p]
    have "has_end (set_position i p w) x \<longleftrightarrow> has_end w x" for x using pos(3,4) by (cases x) simp_all
    then show ?thesis using pos To_Node by (simp add: set_end_position_def same_things_def ends_kept)
  next
    case (To_Channel c)
    then have "c \<in> dom (dict_get (w_channels w))" using assms(2) by simp
    note pos = channel_position [OF assms(1) this, of p]
    have "has_end (set_channel_position c p w) x \<longleftrightarrow> has_end w x" for x using pos(3,4) by (cases x) simp_all
    then show ?thesis using pos To_Channel by (simp add: set_end_position_def same_things_def ends_kept)
  qed
  then show "window_inv (set_end_position e p w)" "end_pos (set_end_position e p w) e' = (if e' = e then p else end_pos w e')"
      "same_things w (set_end_position e p w)"
    by blast+
qed

lemma split_end_name:
  "split_on (CHR '' '') (end_name e) =
     (case e of To_Node i \<Rightarrow> [''Node'', show_nat i] | To_Channel c \<Rightarrow> [''Channel'', show_nat c])"
proof -
  have "CHR '' '' \<notin> set (show_nat n)" for n using show_nat_is_digit [of "CHR '' ''" n] by (auto simp: is_digit_def)
  then show ?thesis by (simp add: end_name_def node_name_def channel_name_def split_on_no_sep split: endpoint.split)
qed

lemma end_name_inj: "end_name e = end_name e' \<longleftrightarrow> e = e'"
proof
  assume "end_name e = end_name e'"
  then have "split_on (CHR '' '') (end_name e) = split_on (CHR '' '') (end_name e')" by simp
  moreover have "show_nat i = show_nat j \<Longrightarrow> i = j" for i j by (metis parse_show_nat option.inject)
  ultimately show "e = e'" unfolding split_end_name by (auto split: endpoint.splits)
qed simp

lemma place_end:
  assumes "has_end w e" and "parse_pos pos = Inr p"
  shows "place_named (w, obj) (end_name e, pos) = Inr (set_end_position e p w, Some e)"
  using assms by (cases e) (auto simp: place_named_def split_end_name res_simps)

lemma place_loop:
  assumes "window_inv w" and "distinct es" and "\<forall>e \<in> set es. has_end w e \<and> parse_pos (pos (end_name e)) = Inr (spot e)"
  shows "\<exists>w' obj. foldM place_named (w, obj0) (map (\<lambda>n. (n, pos n)) (map end_name es)) = Inr (w', obj)
    \<and> window_inv w' \<and> same_things w w' \<and> (\<forall>e. end_pos w' e = (if e \<in> set es then spot e else end_pos w e))"
  using assms
proof (induction es arbitrary: w obj0)
  case Nil
  then show ?case by (simp add: same_things_def)
next
  case (Cons e es)
  let ?w = "set_end_position e (spot e) w"
  have e: "has_end w e" "parse_pos (pos (end_name e)) = Inr (spot e)" using Cons.prems(3) by simp_all
  note one = end_position [OF Cons.prems(1) e(1)]
  have "\<forall>e \<in> set es. has_end ?w e \<and> parse_pos (pos (end_name e)) = Inr (spot e)"
    using Cons.prems(3) one(3) [of "spot e"] by (simp add: same_things_def)
  with Cons.IH [OF one(1), of "spot e" "Some e"] Cons.prems(2) obtain w' obj where
    w': "foldM place_named (?w, Some e) (map (\<lambda>n. (n, pos n)) (map end_name es)) = Inr (w', obj)" "window_inv w'" "same_things ?w w'"
      "\<forall>e'. end_pos w' e' = (if e' \<in> set es then spot e' else end_pos ?w e')" by auto
  have "same_things w w'" using w'(3) one(3) [of "spot e"] by (simp add: same_things_def)
  moreover have "end_pos w' e' = (if e' \<in> set (e # es) then spot e' else end_pos w e')" for e'
    using w'(4) one(2) [of "spot e" e'] by auto
  ultimately show ?case using w'(1,2) place_end [OF e] by auto
qed

section \<open>The topology that is shown\<close>

lemma start_inv: "window_inv (start_window mobility n)"
  by (simp add: start_window_def set_show_transmissions_mode_def window_inv_def nodes_inv_def refs_inv_def end_links_def
      paths_but_def selection_inv_def interest_inv_def in_bounds_def split: endpoint.split)

lemma start_scan: "scan_inv (start_window mobility n) ([], [])"
proof -
  have "table_ok netdevice_traits" by (simp add: table_ok_def split: option.split)
  then show ?thesis
    using start_inv [of mobility n]
    by (simp add: scan_inv_def graph_ok_def mobility_known_def start_window_def set_show_transmissions_mode_def)
qed

lemma graph_ends:
  assumes "graph_ok w g"
  obtains es where "fst g = map end_name es" and "distinct es" and "\<forall>e \<in> set es. has_end w e"
    and "\<forall>i. To_Node i \<in> set es \<longrightarrow> dict_get (w_mobility w) i = None"
proof -
  have "\<exists>e. n = end_name e \<and> has_end w e \<and> (\<forall>i. e = To_Node i \<longrightarrow> dict_get (w_mobility w) i = None)" if "n \<in> set (fst g)" for n
    using assms that unfolding graph_ok_def
    by (metis end_name_def endpoint.distinct(1) endpoint.inject(1) endpoint.simps(5,6) has_end_simps)
  then obtain f where f: "\<And>n. n \<in> set (fst g) \<Longrightarrow>
      n = end_name (f n) \<and> has_end w (f n) \<and> (\<forall>i. f n = To_Node i \<longrightarrow> dict_get (w_mobility w) i = None)" by metis
  have "map end_name (map f (fst g)) = fst g" using f by (induction "fst g") (auto intro!: map_idI simp: comp_def)
  moreover from this have "distinct (map f (fst g))"
    using assms unfolding graph_ok_def by (metis distinct_map)
  ultimately show ?thesis using f that [of "map f (fst g)"] by fastforce
qed

text \<open>The positions the layout program gives are read as two numbers.\<close>

definition layout_ok :: "(graph \<Rightarrow> string \<Rightarrow> string) \<Rightarrow> bool" where
  "layout_ok layout \<longleftrightarrow> (\<forall>g. \<forall>n \<in> set (fst g). \<exists>p. parse_pos (layout g n) = Inr p)"

lemma scan_topology_result:
  assumes "network_ok nw n" and "layout_ok layout"
  shows "\<exists>w g. scan_topology nw color_parse layout (start_window mobility n) = Inr w \<and> window_inv w
    \<and> link_ends w = concat (map (node_links nw) [0..<n]) \<and> w_mobility w = mobility
    \<and> (\<forall>i < n. \<exists>v. dict_get (w_nodes w) i = Some v
         \<and> (case dict_get mobility i of Some p \<Rightarrow> nv_pos v = point_to_canvas p
            | None \<Rightarrow> parse_pos (layout g (node_name i)) = Inr (nv_pos v)))"
proof -
  let ?w = "start_window mobility n"
  have start: "w_count ?w = n" "w_mobility ?w = mobility" "link_ends ?w = []"
    by (simp_all add: start_window_def set_show_transmissions_mode_def link_ends_def)
  from scan_nodes_progress [OF start_scan [of mobility n], of nw n color_parse] assms(1) start(1) obtain w1 g where
    scan: "foldM (scan_node nw color_parse) (?w, ([], [])) [0..<n] = Inr (w1, g)" and pr: "scan_progress nw ?w n w1 g" by auto
  have inv: "window_inv w1" "graph_ok w1 g" using pr by (simp_all add: scan_progress_def scan_inv_def)
  have mob: "w_mobility w1 = mobility" using pr start(2) by (simp add: scan_progress_def)
  obtain es where es: "fst g = map end_name es" "distinct es" "\<forall>e \<in> set es. has_end w1 e"
      "\<forall>i. To_Node i \<in> set es \<longrightarrow> dict_get mobility i = None"
    using graph_ends [OF inv(2)] mob by metis
  have "\<exists>spot. \<forall>e \<in> set es. parse_pos (layout g (end_name e)) = Inr (spot e)"
  proof (intro bchoice ballI)
    fix e assume "e \<in> set es"
    then have "end_name e \<in> set (fst g)" by (simp add: es(1))
    then show "\<exists>p. parse_pos (layout g (end_name e)) = Inr p" using assms(2) unfolding layout_ok_def by blast
  qed
  then obtain spot where spot: "\<forall>e \<in> set es. parse_pos (layout g (end_name e)) = Inr (spot e)" by blast
  from place_loop [OF inv(1) es(2), of "layout g" spot None] es(3) spot obtain w obj where
    w: "foldM place_named (w1, None) (map (\<lambda>n. (n, layout g n)) (fst g)) = Inr (w, obj)" "window_inv w" "same_things w1 w"
      "\<forall>e. end_pos w e = (if e \<in> set es then spot e else end_pos w1 e)" by (auto simp: es(1))
  have nodes: "\<exists>v. dict_get (w_nodes w) i = Some v
      \<and> (case dict_get mobility i of Some p \<Rightarrow> nv_pos v = point_to_canvas p
         | None \<Rightarrow> parse_pos (layout g (node_name i)) = Inr (nv_pos v))" if i: "i < n" for i
  proof -
    have here: "has_end w1 (To_Node i)" "dict_get mobility i = None \<Longrightarrow> node_name i \<in> set (fst g)"
      using pr i start by (auto simp: scan_progress_def)
    have "has_end w (To_Node i)" using here(1) w(3) by (simp only: same_things_def)
    then obtain v where v: "dict_get (w_nodes w) i = Some v" by auto
    have pos: "nv_pos v = end_pos w (To_Node i)" by (simp add: end_pos_def the_node_get [OF v])
    show ?thesis
    proof (cases "dict_get mobility i")
      case None
      then have "end_name (To_Node i) \<in> set (fst g)" using here(2) by (simp add: end_name_def)
      then have "To_Node i \<in> set es" using end_name_inj by (auto simp: es(1))
      then show ?thesis using w(4) spot pos v None by (auto simp: end_name_def)
    next
      case (Some p)
      then have "To_Node i \<notin> set es" using es(4) by auto
      moreover from Some obtain v1 where "dict_get (w_nodes w1) i = Some v1" "nv_pos v1 = point_to_canvas p"
        using pr i mob unfolding scan_progress_def placed_def by blast
      ultimately show ?thesis using w(4) pos v Some by (simp add: end_pos_def the_node_get)
    qed
  qed
  have "scan_topology nw color_parse layout ?w = Inr w" using scan w(1) start(1) by (simp add: scan_topology_def)
  moreover have "link_ends w = concat (map (node_links nw) [0..<n])" "w_mobility w = mobility"
    using w(3) pr start mob by (simp_all add: same_things_def scan_progress_def)
  ultimately show ?thesis using w(2) nodes by blast
qed

end
