(* ===== verification/Viz_Session_Correct.thy ===== *)
theory Viz_Session_Correct
  imports Viz_Topology_Correct
begin

text \<open>
  The session that follows the scan of the topology: its states, what holds in all of them, and dragging a node.
\<close>

section \<open>The nodes stay\<close>

lemma sets_node_dom: "sets_node w i n w' \<Longrightarrow> dict_get (w_nodes w) i = Some m \<Longrightarrow> dom (dict_get (w_nodes w')) = dom (dict_get (w_nodes w))"
  by (auto simp: sets_node_def dom_def split: if_splits)

lemma setter_dom:
  assumes "window_inv w" and "dict_get (w_nodes w) i = Some n0"
    and "nv_pos n = nv_pos n0" and "nv_links n = nv_links n0" and "nv_label_at n = nv_label_at n0"
    and "nv_label n = None \<Longrightarrow> nv_label n0 = None"
  shows "dom (dict_get (w_nodes (update_appearance i (put_node i n w)))) = dom (dict_get (w_nodes w))"
proof -
  have parts: "geometry_inv w" "nodes_inv w" using assms(1) by (simp_all add: window_inv_parts)
  from update_appearance_ok(4) [OF parts assms(2-6)] show ?thesis using sets_node_dom [OF _ assms(2)] by blast
qed

lemma set_selected_dom:
  assumes "geometry_inv w" and "nodes_inv w" and "i \<in> dom (dict_get (w_nodes w))"
  shows "dom (dict_get (w_nodes (set_selected i b w))) = dom (dict_get (w_nodes w))"
proof -
  obtain n where n: "dict_get (w_nodes w) i = Some n" using assms(3) by blast
  from set_selected_window(4) [OF assms(1,2) n, of b] show ?thesis using sets_node_dom [OF _ n] by blast
qed

lemma select_node_succeeds:
  assumes "window_inv w" and "\<And>i. node = Some i \<Longrightarrow> i \<in> dom (dict_get (w_nodes w))"
  shows "\<exists>w'. select_node node w = Inr w' \<and> dom (dict_get (w_nodes w')) = dom (dict_get (w_nodes w))"
proof (cases "node = w_selected w")
  case True
  with assms(2) show ?thesis by (force simp: select_node_def split: option.split)
next
  case False
  have parts: "geometry_inv w" "nodes_inv w" "selection_inv w" using assms(1) by (simp_all add: window_inv_parts)
  define w1 where "w1 = (case w_selected w of None \<Rightarrow> w | Some i \<Rightarrow> set_selected i False w)"
  have one: "geometry_inv w1 \<and> nodes_inv w1 \<and> dom (dict_get (w_nodes w1)) = dom (dict_get (w_nodes w))"
  proof (cases "w_selected w")
    case (Some i)
    then obtain n where n: "dict_get (w_nodes w) i = Some n" using parts(3) by (auto simp: selection_inv_def)
    then have "i \<in> dom (dict_get (w_nodes w))" by blast
    from set_selected_dom [OF parts(1,2) this, of False] set_selected_window(1,2) [OF parts(1,2) n, of False]
    show ?thesis by (simp only: w1_def Some option.case simp_thms)
  qed (use parts in \<open>simp add: w1_def\<close>)
  let ?w = "w1\<lparr>w_selected := node\<rparr>"
  have cong: "end_pos ?w = end_pos w1" "end_links ?w = end_links w1" by (intro end_pos_cong end_links_cong; simp)+
  have geo: "geometry_inv ?w" "nodes_inv ?w"
    using one by (simp_all add: geometry_inv_def refs_inv_def paths_but_def path_ok_def nodes_inv_def cong)
  define w2 where "w2 = (case node of None \<Rightarrow> ?w | Some i \<Rightarrow> set_selected i True ?w)"
  have two: "dom (dict_get (w_nodes w2)) = dom (dict_get (w_nodes w))"
  proof (cases node)
    case (Some i)
    then have "i \<in> dom (dict_get (w_nodes ?w))" using one assms(2) by simp
    from set_selected_dom [OF geo this, of True] show ?thesis using one by (simp add: w2_def Some)
  qed (use one in \<open>simp add: w2_def\<close>)
  have "\<not> (case node of None \<Rightarrow> False | Some i \<Rightarrow> dict_get (w_nodes w) i = None)" using assms(2) by (cases node) force+
  then have "select_node node w =
      Inr (if w_mode w2 = Show_Selected then w2\<lparr>w_interest := (case node of None \<Rightarrow> [] | Some i \<Rightarrow> [i])\<rparr> else w2)"
    using False unfolding select_node_def Let_def w2_def w1_def by (simp only: if_False)
  then show ?thesis using two by simp
qed

text \<open>Every operation on nodes that exist returns, and keeps the nodes.\<close>

lemma perform_succeeds:
  assumes "window_inv w" and "op_ok w op"
  shows "\<exists>w'. view_perform op w = Inr w' \<and> dom (dict_get (w_nodes w')) = dom (dict_get (w_nodes w))"
proof -
  have node: "\<exists>n. dict_get (w_nodes w) i = Some n" if "op_node op = Some i" for i using assms(2) that by (simp add: op_ok_def)
  show ?thesis
  proof (cases op)
    case (Node_Press button i pointer)
    then have "i \<in> dom (dict_get (w_nodes w))" using node by auto
    then show ?thesis
      using Node_Press select_node_succeeds [OF assms(1), of "Some i"]
      by (auto simp: node_button_press_def begin_node_drag_def split: option.splits)
  next
    case (Node_Release button)
    then show ?thesis by (simp add: node_button_release_def end_node_drag_def)
  next
    case (Root_Press button)
    then show ?thesis using select_node_succeeds [OF assms(1), of None] by (auto simp: root_button_press_def)
  next
    case (Drag_Motion i pointer)
    then obtain n where n: "dict_get (w_nodes w) i = Some n" using node by auto
    have "dom (dict_get (w_nodes (set_position i p (w\<lparr>w_mobility := m\<rparr>)))) = dom (dict_get (w_nodes w))" for p m
    proof -
      have "window_inv (w\<lparr>w_mobility := m\<rparr>)" by (rule window_inv_cong [OF assms(1)]) simp_all
      from set_position_dom(1) [OF this, of i n p] n show ?thesis by simp
    qed
    then show ?thesis using Drag_Motion by (auto simp: node_drag_motion_def Let_def split: option.split)
  next
    case (Enter i)
    then obtain n where n: "dict_get (w_nodes w) i = Some n" using node by auto
    show ?thesis using Enter by (simp add: set_highlighted_def the_node_get [OF n]) (rule setter_dom [OF assms(1) n]; simp)
  next
    case (Leave i)
    then obtain n where n: "dict_get (w_nodes w) i = Some n" using node by auto
    show ?thesis using Leave by (simp add: set_highlighted_def the_node_get [OF n]) (rule setter_dom [OF assms(1) n]; simp)
  next
    case (Mode mode)
    then show ?thesis by (simp add: set_show_transmissions_mode_def)
  next
    case (Node_Size i meters)
    then obtain n where n: "dict_get (w_nodes w) i = Some n" using node by auto
    show ?thesis using Node_Size by (simp add: set_size_def the_node_get [OF n]) (rule setter_dom [OF assms(1) n]; simp)
  next
    case (Node_Label i label)
    then obtain n where n: "dict_get (w_nodes w) i = Some n" using node by auto
    show ?thesis using Node_Label by (simp add: set_label_def the_node_get [OF n]) (rule setter_dom [OF assms(1) n]; simp)
  next
    case (Node_Color i color)
    then obtain n where n: "dict_get (w_nodes w) i = Some n" using node by auto
    show ?thesis using Node_Color by (simp add: set_color_def the_node_get [OF n]) (rule setter_dom [OF assms(1) n]; simp)
  next
    case (Moved i pos)
    then show ?thesis by simp
  next
    case Update_Positions
    have "window_inv u \<Longrightarrow> set is \<subseteq> dom (dict_get (w_nodes u))
        \<Longrightarrow> dom (dict_get (w_nodes (foldl follow_mobility u is))) = dom (dict_get (w_nodes u))" for u "is"
      by (induction "is" arbitrary: u) (auto simp: follow_window)
    then show ?thesis using Update_Positions assms(1) by (simp add: update_node_positions_def dom_dict_get)
  qed
qed

text \<open>The states of a session: the topology is scanned, then events arrive.\<close>

inductive view_session ::
  "network \<Rightarrow> (string \<Rightarrow> int \<times> int \<times> int) \<Rightarrow> (graph \<Rightarrow> string \<Rightarrow> string) \<Rightarrow> (nat, point) dict \<Rightarrow> nat \<Rightarrow> window \<Rightarrow> bool"
  for nw color_parse layout mobility n where
  view_start: "scan_topology nw color_parse layout (start_window mobility n) = Inr w \<Longrightarrow> view_session nw color_parse layout mobility n w"
| view_event: "view_session nw color_parse layout mobility n w \<Longrightarrow> op_ok w op \<Longrightarrow> view_perform op w = Inr w'
    \<Longrightarrow> view_session nw color_parse layout mobility n w'"

section \<open>Dragging\<close>

lemma motion_result:
  assumes "window_inv w" and "dict_get (w_nodes w) i = Some v" and "dict_get (w_mobility w) i \<noteq> None"
    and "w_drag w = Some \<lparr>dg_canvas = start, dg_sim = pos\<rparr>"
  shows "window_inv (node_drag_motion i pointer w)" and "\<exists>v'. dict_get (w_nodes (node_drag_motion i pointer w)) i = Some v'"
    and "w_drag (node_drag_motion i pointer w) = w_drag w"
    and "dict_get (w_mobility (node_drag_motion i pointer w)) i =
           Some (fst pos + (fst pointer - fst start) / 3, snd pos + (snd pointer - snd start) / 3)"
    and "end_pos (node_drag_motion i pointer w) e =
           (if e = To_Node i then (fst (point_to_canvas pos) + fst pointer - fst start, snd (point_to_canvas pos) + snd pointer - snd start)
            else end_pos w e)"
proof -
  let ?q = "(fst pos + (fst pointer - fst start) / 3, snd pos + (snd pointer - snd start) / 3)"
  let ?w = "w\<lparr>w_mobility := dict_set (w_mobility w) i ?q\<rparr>"
  have w': "node_drag_motion i pointer w = set_position i (point_to_canvas ?q) ?w"
  proof -
    obtain m where "dict_get (w_mobility w) i = Some m" using assms(3) by blast
    then show ?thesis
      unfolding node_drag_motion_def assms(4) by (simp only: Let_def prod.case option.case drag.select_convs distance_to_simulation_def PIXELS_PER_METER_def)
  qed
  have inv: "window_inv ?w" by (rule window_inv_cong [OF assms(1)]) simp_all
  have n: "dict_get (w_nodes ?w) i = Some v" using assms(2) by simp
  then have dom: "i \<in> dom (dict_get (w_nodes ?w))" by blast
  note pos = node_position [OF inv dom, of "point_to_canvas ?q"]
  have parts: "geometry_inv ?w" "nodes_inv ?w" using inv by (simp_all add: window_inv_parts)
  have point: "point_to_canvas ?q = (fst (point_to_canvas pos) + fst pointer - fst start, snd (point_to_canvas pos) + snd pointer - snd start)"
    by (simp add: point_to_canvas_def distance_to_canvas_def PIXELS_PER_METER_def)
  have same: "end_pos ?w = end_pos w" by (rule end_pos_cong) simp_all
  show "window_inv (node_drag_motion i pointer w)" unfolding w' by (rule pos(1))
  show "\<exists>v'. dict_get (w_nodes (node_drag_motion i pointer w)) i = Some v'" unfolding w' using pos(3) dom by blast
  show "w_drag (node_drag_motion i pointer w) = w_drag w"
    unfolding w' using set_position_ok(3) [OF parts n, of "point_to_canvas ?q"] by (simp add: same_rest_def)
  show "dict_get (w_mobility (node_drag_motion i pointer w)) i = Some ?q" unfolding w' pos(5) by simp
  show "end_pos (node_drag_motion i pointer w) e =
      (if e = To_Node i then (fst (point_to_canvas pos) + fst pointer - fst start, snd (point_to_canvas pos) + snd pointer - snd start)
       else end_pos w e)"
    using pos(2) [of e] unfolding w' point same .
qed

lemma motions_result:
  assumes "window_inv w" and "dict_get (w_nodes w) i = Some v" and "dict_get (w_mobility w) i \<noteq> None"
    and "w_drag w = Some \<lparr>dg_canvas = start, dg_sim = pos\<rparr>"
  shows "\<exists>w'. foldM (\<lambda>w op. view_perform op w) w (map (Drag_Motion i) (ps @ [pointer])) = Inr w' \<and> w_drag w' = w_drag w
    \<and> dict_get (w_mobility w') i = Some (fst pos + (fst pointer - fst start) / 3, snd pos + (snd pointer - snd start) / 3)
    \<and> (\<forall>e. end_pos w' e =
         (if e = To_Node i then (fst (point_to_canvas pos) + fst pointer - fst start, snd (point_to_canvas pos) + snd pointer - snd start)
          else end_pos w e))"
  using assms
proof (induction ps arbitrary: w v)
  case Nil
  show ?case using motion_result(3-5) [OF Nil.prems, of pointer] by simp
next
  case (Cons p ps)
  let ?w = "node_drag_motion i p w"
  note one = motion_result [OF Cons.prems, of p]
  from one(2) obtain v' where v': "dict_get (w_nodes ?w) i = Some v'" by blast
  from Cons.IH [OF one(1) v'] one(3-5) Cons.prems(4) show ?case by auto
qed

section \<open>Claims\<close>

text \<open>C14: Scanning a network whose wired devices have channels among its nodes raises nothing, and leaves a window
  in which the invariant holds, the links are those of the wired devices of the nodes in order, each node with a mobility model stands
  where the model says, and every other node stands where the layout program put it.\<close>

theorem topology_shown:
  assumes "network_ok nw n" and "layout_ok layout"
  shows "\<exists>w g. scan_topology nw color_parse layout (start_window mobility n) = Inr w \<and> window_inv w
    \<and> link_ends w = concat (map (node_links nw) [0..<n])
    \<and> (\<forall>i < n. \<exists>v. dict_get (w_nodes w) i = Some v
         \<and> (case dict_get mobility i of Some p \<Rightarrow> nv_pos v = point_to_canvas p
            | None \<Rightarrow> parse_pos (layout g (node_name i)) = Inr (nv_pos v)))"
  using scan_topology_result [OF assms, of color_parse mobility] by blast

text \<open>A network of two nodes with a cable between them, and one node that moves.\<close>

definition sample_network :: network where
  "sample_network =
     \<lparr>nw_devices = (\<lambda>i. if i < 2 then [\<lparr>dv_type = ''PointToPointNetDevice'', dv_channel = Some 0\<rparr>, \<lparr>dv_type = ''LoopbackNetDevice'', dv_channel = None\<rparr>] else []),
      nw_channel = (\<lambda>_. [0, 1])\<rparr>"

definition sample_layout :: "graph \<Rightarrow> string \<Rightarrow> string" where
  "sample_layout g name = ''7,9''"

lemma sample_ok: "network_ok sample_network 2" "layout_ok sample_layout"
proof -
  show "network_ok sample_network 2"
    by (auto simp: network_ok_def sample_network_def wired_def netdevice_traits_def)
  have char_of_values: "char_of (55 :: nat) = CHR ''7''" "char_of (57 :: nat) = CHR ''9''" by code_simp+
  have "float_text ''7'' = Inr 7" "float_text ''9'' = Inr 9"
    using float_text_show_nat [of 7] float_text_show_nat [of 9] by (simp_all add: show_nat_single digit_char_def char_of_values)
  then show "layout_ok sample_layout"
    by (simp add: layout_ok_def sample_layout_def parse_pos_def)
qed

lemma sample_links: "concat (map (node_links sample_network) [0..<2]) = [(0, To_Node 1), (1, To_Node 0)]"
  by (simp add: node_links_def device_links_def sample_network_def wired_def netdevice_traits_def upt_rec numeral_2_eq_2)

theorem topology_shown_witness:
  "\<exists>w. scan_topology sample_network (\<lambda>_. (65535, 0, 0)) sample_layout (start_window [(1, (10, 20))] 2) = Inr w
     \<and> link_ends w = [(0, To_Node 1), (1, To_Node 0)] \<and> (\<exists>v. dict_get (w_nodes w) 1 = Some v \<and> nv_pos v = (30, 60))"
proof -
  have "point_to_canvas (10, 20) = (30, 60)" by (simp add: point_to_canvas_def distance_to_canvas_def PIXELS_PER_METER_def)
  moreover obtain w v where "scan_topology sample_network (\<lambda>_. (65535, 0, 0)) sample_layout (start_window [(1, (10, 20))] 2) = Inr w"
      "link_ends w = [(0, To_Node 1), (1, To_Node 0)]" "dict_get (w_nodes w) 1 = Some v" "nv_pos v = point_to_canvas (10, 20)"
    using topology_shown [OF sample_ok, of "\<lambda>_. (65535, 0, 0)" "[(1, (10, 20))]"] unfolding sample_links
    by (auto dest!: spec [of _ 1])
  ultimately show ?thesis by auto
qed



text \<open>C35: A node with a mobility model that is dragged follows the pointer: after any number of motions, the model's position has
  changed by the way of the pointer in metres and the node stands where it stood, moved by the way of the pointer on
  the canvas; no other node or channel moves, and the drag is over when the button is released.\<close>

theorem drag_follows_pointer:
  assumes "window_inv w" and "dict_get (w_nodes w) i = Some v" and "dict_get (w_mobility w) i = Some pos"
    and "nv_pos v = point_to_canvas pos" and "w_drag w = None"
  shows "\<exists>w'. foldM (\<lambda>w op. view_perform op w) w (Node_Press 2 i start # map (Drag_Motion i) (ps @ [pointer]) @ [Node_Release 2]) = Inr w'
    \<and> dict_get (w_mobility w') i = Some (fst pos + (fst pointer - fst start) / 3, snd pos + (snd pointer - snd start) / 3)
    \<and> (\<forall>e. end_pos w' e =
         (if e = To_Node i then (fst (nv_pos v) + fst pointer - fst start, snd (nv_pos v) + snd pointer - snd start) else end_pos w e))
    \<and> w_drag w' = None"
proof -
  let ?w = "w\<lparr>w_drag := Some \<lparr>dg_canvas = start, dg_sim = pos\<rparr>\<rparr>"
  have press: "view_perform (Node_Press 2 i start) w = Inr ?w"
    using assms(3,5) by (simp add: node_button_press_def begin_node_drag_def)
  have inv: "window_inv ?w" by (rule window_inv_cong [OF assms(1)]) simp_all
  have same: "end_pos ?w = end_pos w" by (rule end_pos_cong) simp_all
  from motions_result [OF inv, of i v start pos ps pointer] assms(2,3) obtain w1 where
    w1: "foldM (\<lambda>w op. view_perform op w) ?w (map (Drag_Motion i) (ps @ [pointer])) = Inr w1"
      "dict_get (w_mobility w1) i = Some (fst pos + (fst pointer - fst start) / 3, snd pos + (snd pointer - snd start) / 3)"
      "\<forall>e. end_pos w1 e =
         (if e = To_Node i then (fst (nv_pos v) + fst pointer - fst start, snd (nv_pos v) + snd pointer - snd start) else end_pos w e)"
    unfolding same assms(4) by auto
  have pos: "end_pos (end_node_drag w1) = end_pos w1" by (rule end_pos_cong) (simp_all add: end_node_drag_def)
  have release: "view_perform (Node_Release 2) w1 = Inr (end_node_drag w1)" by (simp add: node_button_release_def)
  have run: "foldM (\<lambda>w op. view_perform op w) w (Node_Press 2 i start # map (Drag_Motion i) (ps @ [pointer]) @ [Node_Release 2]) = Inr (end_node_drag w1)"
    unfolding foldM.simps press rbind_simps foldM_append w1(1) release by simp
  have rest: "w_drag (end_node_drag w1) = None" "w_mobility (end_node_drag w1) = w_mobility w1" by (simp_all add: end_node_drag_def)
  show ?thesis
    by (rule exI [of _ "end_node_drag w1"]) (intro conjI run rest(1) w1(2) [folded rest(2)] w1(3) [folded pos])
qed

theorem drag_follows_pointer_witness:
  "\<exists>w'. foldM (\<lambda>w op. view_perform op w) (get_node 0 (start_window [(0, (0, 0))] 1))
      [Node_Press 2 0 (1, 1), Drag_Motion 0 (5, 6), Drag_Motion 0 (7, 4), Node_Release 2] = Inr w'
    \<and> dict_get (w_mobility w') 0 = Some (2, 1) \<and> end_pos w' (To_Node 0) = (6, 3)"
proof -
  let ?w = "get_node 0 (start_window [(0, (0, 0))] 1)"
  have inv: "window_inv ?w" by (rule get_node_scan [OF start_inv])
  have w: "dict_get (w_nodes ?w) 0 = Some new_node" "dict_get (w_mobility ?w) 0 = Some (0, 0)" "w_drag ?w = None"
    by (simp_all add: get_node_def start_window_def set_show_transmissions_mode_def view_simps)
  have "nv_pos new_node = point_to_canvas (0, 0)" by (simp add: new_node_def point_to_canvas_def distance_to_canvas_def Let_def)
  from drag_follows_pointer [OF inv w(1,2) this w(3), of "(1, 1)" "[(5, 6)]" "(7, 4)"]
  show ?thesis by (auto simp: new_node_def Let_def simp del: view_perform.simps)
qed

end
