(* ===== verification/Viz_Traffic_Correct.thy ===== *)
theory Viz_Traffic_Correct
  imports Viz_Traffic Viz_Session_Correct
begin

text \<open>
  Correctness of the arrows that show the traffic: which samples are kept, their averages, and what is
  visible after the view has been updated.
\<close>

section \<open>Samples\<close>

lemma keep_last_drop: "keep_last n xs = drop (length xs - n) xs"
  by (induction n xs rule: keep_last.induct) (simp_all add: Suc_diff_le less_Suc_eq_le not_less)

lemma keep_last_snoc:
  "length ys = m \<Longrightarrow> keep_last n (drop (m - n) ys @ [y]) = drop (Suc m - n) (ys @ [y])"
  by (cases "n = 0"; cases "n \<le> m") (auto simp: keep_last_drop not_less_eq_eq Suc_diff_le)

lemma keep_updates:
  fixes xs :: "(transmission list \<times> packet_drop list) list"
  assumes "tf_transmissions tf = []" and "tf_drops tf = []"
  shows "foldl (\<lambda>tf (ts, ds). periodic_update smoothing ts ds tf) tf xs =
    tf\<lparr>tf_transmissions := drop (length xs - smooth_factor smoothing) (map fst xs),
       tf_drops := drop (length xs - smooth_factor smoothing) (map snd xs)\<rparr>"
proof (induction xs rule: rev_induct)
  case Nil
  then show ?case using assms by simp
next
  case (snoc x xs)
  then show ?case
    by (cases x) (simp add: periodic_update_def keep_last_snoc)
qed

text \<open>The bytes and the number of the samples of each key, in the order in which the keys first occur.\<close>

definition keys_in_order :: "('k \<times> 'a) list \<Rightarrow> 'k list" where
  "keys_in_order xs = rev (remdups (rev (map fst xs)))"

definition samples_of :: "'k \<Rightarrow> ('k \<times> nat) list \<Rightarrow> nat list" where
  "samples_of k xs = map snd (filter (\<lambda>x. fst x = k) xs)"

definition rates :: "('k \<times> nat) list \<Rightarrow> ('k \<times> nat \<times> nat) list" where
  "rates xs = map (\<lambda>k. (k, sum_list (samples_of k xs), length (samples_of k xs))) (keys_in_order xs)"

lemma keys_in_order_snoc:
  "keys_in_order (xs @ [(k, b)]) = (if k \<in> set (map fst xs) then keys_in_order xs else keys_in_order xs @ [k])"
  by (auto simp: keys_in_order_def image_iff)

lemma keys_in_order_set: "set (keys_in_order xs) = set (map fst xs)" "distinct (keys_in_order xs)"
  by (simp_all add: keys_in_order_def)

lemma update_map:
  "distinct ks \<Longrightarrow> AList.update k v (map (\<lambda>k. (k, f k)) ks) =
     (if k \<in> set ks then map (\<lambda>k'. (k', if k' = k then v else f k')) ks else map (\<lambda>k. (k, f k)) ks @ [(k, v)])"
  by (induction ks) auto

lemma average_rates: "foldl add_sample [] xs = rates xs"
proof (induction xs rule: rev_induct)
  case Nil
  then show ?case by (simp add: rates_def keys_in_order_def)
next
  case (snoc x xs)
  obtain k b where x: "x = (k, b)" by fastforce
  let ?f = "\<lambda>k. (sum_list (samples_of k xs), length (samples_of k xs))"
  have get: "dict_get (rates xs) k = (if k \<in> set (map fst xs) then Some (?f k) else None)"
    by (auto simp: rates_def map_of_map_keys [unfolded comp_def] map_of_map_restrict keys_in_order_set restrict_map_def)
  have samples: "samples_of k' (xs @ [(k, b)]) = samples_of k' xs @ (if k' = k then [b] else [])" for k'
    by (simp add: samples_of_def)
  have new: "samples_of k xs = []" if "k \<notin> set (map fst xs)"
    using that by (auto simp: samples_of_def filter_empty_conv image_iff)
  have "add_sample (rates xs) (k, b) = AList.update k (sum_list (samples_of k xs) + b, length (samples_of k xs) + 1) (rates xs)"
    using get new by (auto simp: add_sample_def)
  also have "\<dots> = rates (xs @ [(k, b)])"
    unfolding rates_def update_map [OF keys_in_order_set(2)] keys_in_order_snoc samples
    by (auto simp: keys_in_order_set new image_iff)
  finally show ?case using snoc x by simp
qed

section \<open>The pool of arrows\<close>

definition nodes_present :: "window \<Rightarrow> nat list \<Rightarrow> bool" where
  "nodes_present w is \<longleftrightarrow> list_all (\<lambda>i. dict_get (w_nodes w) i \<noteq> None) is"

lemma get_nodes_present: "nodes_present w is \<Longrightarrow> foldl (\<lambda>w i. get_node i w) w is = w"
  by (induction "is") (auto simp: nodes_present_def get_node_def)

text \<open>A pool that shows entries has an arrow for each, in order, and hidden ones.\<close>

definition pool_shows :: "('e \<Rightarrow> arrow \<Rightarrow> bool) \<Rightarrow> 'e list \<Rightarrow> nat \<Rightarrow> arrow list \<Rightarrow> bool" where
  "pool_shows shown es n pool \<longleftrightarrow>
     (\<exists>as rest. pool = as @ rest \<and> list_all2 shown es as \<and> (\<forall>a \<in> set rest. \<not> ar_visible a \<and> \<not> ar_label_visible a)
        \<and> length pool = max n (length es))"

text \<open>
  The contract of drawing an arrow: for an accepted entry it succeeds, whatever arrow is used, otherwise it
  raises and the arrow has only been made visible.
\<close>

locale arrow_drawing =
  fixes draw_one :: "'e \<Rightarrow> window \<Rightarrow> arrow \<Rightarrow> arrow + arrow"
    and ok :: "'e \<Rightarrow> bool"
    and shown :: "window \<Rightarrow> 'e \<Rightarrow> arrow \<Rightarrow> bool"
  assumes drawn: "ok e \<Longrightarrow> \<exists>a'. draw_one e w a = Inr a' \<and> shown w e a'"
    and refused: "\<not> ok e \<Longrightarrow> \<exists>a'. draw_one e w a = Inl a' \<and> ar_visible a'"
    and visible: "shown w e a \<Longrightarrow> ar_visible a"
begin

lemma loop_result:
  assumes "\<forall>e \<in> set es. nodes_present w (nodes_of e)"
  shows "\<exists>old' as. arrow_loop nodes_of draw_one es w old new = (w, old', new @ as, \<not> list_all ok es) \<and> set old' \<subseteq> set old
    \<and> (if list_all ok es then list_all2 (shown w) es as \<and> length old' = length old - length es
       else as \<noteq> [] \<and> (\<forall>a \<in> set as. ar_visible a))"
  using assms
proof (induction es arbitrary: old new)
  case Nil
  show ?case by (intro exI [of _ old] exI [of _ "[]"]) simp
next
  case (Cons e es)
  have w: "foldl (\<lambda>w i. get_node i w) w (nodes_of e) = w" using Cons.prems by (simp add: get_nodes_present)
  define a where "a = (if old = [] then new_arrow else last old)"
  have step: "arrow_loop nodes_of draw_one (e # es) w old new =
      (case draw_one e w a of
         Inl a \<Rightarrow> (w, butlast old, new @ [a], True)
       | Inr a \<Rightarrow> arrow_loop nodes_of draw_one es w (butlast old) (new @ [a]))"
    by (cases "old = []") (simp_all add: w a_def split: sum.split)
  show ?case
  proof (cases "ok e")
    case False
    from refused [OF this, of w a] obtain a' where "draw_one e w a = Inl a'" "ar_visible a'" by blast
    then show ?thesis using False step by (auto dest: in_set_butlastD)
  next
    case True
    from drawn [OF this, of w a] obtain a' where a': "draw_one e w a = Inr a'" "shown w e a'" by blast
    have prems: "\<forall>e \<in> set es. nodes_present w (nodes_of e)" using Cons.prems by simp
    from Cons.IH [OF prems, of "butlast old" "new @ [a']"] obtain old' "as" where
      rest: "arrow_loop nodes_of draw_one es w (butlast old) (new @ [a']) = (w, old', new @ a' # as, \<not> list_all ok es)"
        "set old' \<subseteq> set (butlast old)"
        "if list_all ok es then list_all2 (shown w) es as \<and> length old' = length (butlast old) - length es
         else as \<noteq> [] \<and> (\<forall>a \<in> set as. ar_visible a)"
      by auto
    have "set old' \<subseteq> set old" using rest(2) by (auto dest: in_set_butlastD)
    then show ?thesis
      using step a' rest True visible [OF a'(2)] by (intro exI [of _ old'] exI [of _ "a' # as"]) auto
  qed
qed

text \<open>A refreshed pool.\<close>

lemma refresh_result:
  assumes "\<forall>e \<in> set es. nodes_present w (nodes_of e)"
  shows "\<exists>old' as. arrow_loop nodes_of draw_one es w (map hide pool) [] = (w, old', as, \<not> list_all ok es)
    \<and> (if list_all ok es then pool_shows (shown w) es (length pool) (as @ old') else as \<noteq> [] \<and> (\<forall>a \<in> set as. ar_visible a))"
proof -
  from loop_result [OF assms, where old = "map hide pool" and new = "[]"] obtain old' "as" where
    result: "arrow_loop nodes_of draw_one es w (map hide pool) [] = (w, old', as, \<not> list_all ok es)" "set old' \<subseteq> set (map hide pool)"
      "if list_all ok es then list_all2 (shown w) es as \<and> length old' = length pool - length es
       else as \<noteq> [] \<and> (\<forall>a \<in> set as. ar_visible a)" by auto
  have "\<forall>a \<in> set old'. \<not> ar_visible a \<and> \<not> ar_label_visible a" using result(2) by (auto simp: hide_def)
  moreover have "length (as @ old') = max (length pool) (length es)" if "list_all ok es"
    using result(3) that by (auto dest: list_all2_lengthD)
  ultimately have "pool_shows (shown w) es (length pool) (as @ old')" if "list_all ok es"
    using result(3) that unfolding pool_shows_def by fastforce
  then show ?thesis using result(1,3) by auto
qed

end

text \<open>What an arrow shows.\<close>

definition rate_text :: "display \<Rightarrow> nat \<times> nat \<Rightarrow> string" where
  "rate_text di v = format_fixed 2 (of_nat (fst v) * 8 / (1000 * of_nat (snd v) * di_sample_period di)) @ '' kbit/s''"

definition rate_width :: "display \<Rightarrow> nat \<times> nat \<Rightarrow> rat" where
  "rate_width di v = max (1 / 10) (di_log di (of_nat (fst v) / of_nat (snd v) / di_sample_period di) * (di_node_size di / 5))"

definition transmission_shown :: "display \<Rightarrow> window \<Rightarrow> (nat \<times> nat) \<times> nat \<times> nat \<Rightarrow> arrow \<Rightarrow> bool" where
  "transmission_shown di w entry a \<longleftrightarrow>
     (let ((i, j), v) = entry; p = end_pos w (To_Node i); q = end_pos w (To_Node j) in
      ar_visible a \<and> ar_label_visible a \<and> ar_points a = Some (p, q) \<and> ar_text a = rate_text di v \<and> ar_width a = rate_width di v
      \<and> (ar_forward a \<longleftrightarrow> fst p \<le> fst q))"

definition drop_shown :: "display \<Rightarrow> window \<Rightarrow> nat \<times> nat \<times> nat \<Rightarrow> arrow \<Rightarrow> bool" where
  "drop_shown di w entry a \<longleftrightarrow>
     (let (i, v) = entry; p = end_pos w (To_Node i) in
      ar_visible a \<and> ar_label_visible a \<and> ar_points a = Some (p, (fst p, di_edge_y di)) \<and> ar_text a = rate_text di v
      \<and> ar_width a = rate_width di v)"

definition has_rate :: "display \<Rightarrow> 'k \<times> nat \<times> nat \<Rightarrow> bool" where
  "has_rate di entry \<longleftrightarrow> 0 < (of_nat (fst (snd entry)) / of_nat (snd (snd entry)) / di_sample_period di :: rat)"

lemma line_width_result:
  "line_width di v = (if has_rate di (k, v) then Inr (rate_width di v) else Inl ValueError)"
  by (simp add: line_width_def math_log_def has_rate_def rate_width_def arrow_scale_def not_less)

lemma kbps_text: "format_fixed 2 (kbps di v) @ '' kbit/s'' = rate_text di v"
  by (simp add: kbps_def rate_text_def field_simps)

interpretation transmission_arrows: arrow_drawing "draw_transmission di" "has_rate di" "transmission_shown di" for di
proof
  fix e :: "(nat \<times> nat) \<times> nat \<times> nat" and w a
  obtain i j v where e: "e = ((i, j), v)" by (metis surj_pair)
  note width = line_width_result [of di v "(i, j)"]
  show "has_rate di e \<Longrightarrow> \<exists>a'. draw_transmission di e w a = Inr a' \<and> transmission_shown di w e a'"
    by (simp add: e width draw_transmission_def transmission_shown_def kbps_text Let_def)
  show "\<not> has_rate di e \<Longrightarrow> \<exists>a'. draw_transmission di e w a = Inl a' \<and> ar_visible a'"
    by (simp add: e width draw_transmission_def)
  show "transmission_shown di w e a \<Longrightarrow> ar_visible a"
    by (simp add: e transmission_shown_def Let_def)
qed

interpretation drop_arrows: arrow_drawing "draw_drop di" "has_rate di" "drop_shown di" for di
proof
  fix e :: "nat \<times> nat \<times> nat" and w a
  obtain i v where e: "e = (i, v)" by (metis surj_pair)
  note width = line_width_result [of di v i]
  show "has_rate di e \<Longrightarrow> \<exists>a'. draw_drop di e w a = Inr a' \<and> drop_shown di w e a'"
    by (simp add: e width draw_drop_def drop_shown_def kbps_text Let_def)
  show "\<not> has_rate di e \<Longrightarrow> \<exists>a'. draw_drop di e w a = Inl a' \<and> ar_visible a'"
    by (simp add: e width draw_drop_def)
  show "drop_shown di w e a \<Longrightarrow> ar_visible a"
    by (simp add: e drop_shown_def Let_def)
qed

section \<open>The traffic that is shown\<close>

definition sent :: "(transmission list \<times> packet_drop list) list \<Rightarrow> ((nat \<times> nat) \<times> nat) list" where
  "sent xs = map (\<lambda>t. ((tx_from t, tx_to t), tx_bytes t)) (concat (map fst xs))"

definition dropped :: "(transmission list \<times> packet_drop list) list \<Rightarrow> (nat \<times> nat) list" where
  "dropped xs = map (\<lambda>d. (dr_from d, dr_bytes d)) (concat (map snd xs))"

definition moving :: "'k \<times> nat \<times> nat \<Rightarrow> bool" where
  "moving entry \<longleftrightarrow> 0 < fst (snd entry)"

lemma rate_moving:
  assumes "0 < di_sample_period di"
  shows "list_all (has_rate di) (rates xs) = list_all moving (rates xs)"
proof (rule list.pred_cong [OF refl])
  fix e assume "e \<in> set (rates xs)"
  then have "0 < snd (snd e)"
    by (force simp: rates_def keys_in_order_set samples_of_def filter_empty_conv)
  then show "has_rate di e = moving e"
    using assms by (simp add: has_rate_def moving_def zero_less_divide_iff)
qed

lemma rates_keys: "e \<in> set (rates xs) \<Longrightarrow> fst e \<in> set (map fst xs)"
  by (force simp: rates_def keys_in_order_set)

lemma transmissions_view:
  assumes "0 < di_sample_period di" and "\<forall>t \<in> set (concat (tf_transmissions tf)). nodes_present w [tx_from t, tx_to t]"
  defines "entries \<equiv> rates (map (\<lambda>t. ((tx_from t, tx_to t), tx_bytes t)) (concat (tf_transmissions tf)))"
  shows "\<exists>tf'. update_transmissions_view di (w, tf) = ((w, tf'), \<not> list_all moving entries)
    \<and> (if list_all moving entries
       then pool_shows (transmission_shown di w) entries (length (tf_arrows tf)) (tf_arrows tf') \<and> tf_lost tf' = tf_lost tf
       else \<exists>new. new \<noteq> [] \<and> (\<forall>a \<in> set new. ar_visible a) \<and> tf_lost tf' = tf_lost tf @ new)
    \<and> tf_drops tf' = tf_drops tf \<and> tf_drop_arrows tf' = tf_drop_arrows tf"
proof -
  have average: "transmissions_average (tf_transmissions tf) = entries"
    by (simp add: transmissions_average_def average_rates entries_def)
  have "\<forall>e \<in> set entries. nodes_present w ((\<lambda>((i, j), v). [i, j]) e)"
  proof
    fix e assume "e \<in> set entries"
    then have "fst e \<in> set (map fst (map (\<lambda>t. ((tx_from t, tx_to t), tx_bytes t)) (concat (tf_transmissions tf))))"
      unfolding entries_def by (rule rates_keys)
    then obtain t where "t \<in> set (concat (tf_transmissions tf))" "fst e = (tx_from t, tx_to t)" by auto
    then show "nodes_present w ((\<lambda>((i, j), v). [i, j]) e)" using assms(2) by (cases e) auto
  qed
  note present = this
  have ok: "list_all (has_rate di) entries = list_all moving entries" by (simp add: entries_def rate_moving [OF assms(1)])
  from transmission_arrows.refresh_result [OF present, of di "tf_arrows tf"] obtain old "as" where
    loop: "arrow_loop (\<lambda>((i, j), v). [i, j]) (draw_transmission di) entries w (map hide (tf_arrows tf)) [] = (w, old, as, \<not> list_all moving entries)"
      "if list_all moving entries then pool_shows (transmission_shown di w) entries (length (tf_arrows tf)) (as @ old)
       else as \<noteq> [] \<and> (\<forall>a \<in> set as. ar_visible a)"
    unfolding ok by blast
  show ?thesis
    using loop by (auto simp: update_transmissions_view_def average)
qed

lemma drops_view:
  assumes "0 < di_sample_period di" and "\<forall>d \<in> set (concat (tf_drops tf)). nodes_present w [dr_from d]"
  defines "entries \<equiv> rates (map (\<lambda>d. (dr_from d, dr_bytes d)) (concat (tf_drops tf)))"
  shows "\<exists>tf'. update_drops_view di (w, tf) = ((w, tf'), \<not> list_all moving entries)
    \<and> (if list_all moving entries
       then pool_shows (drop_shown di w) entries (length (tf_drop_arrows tf)) (tf_drop_arrows tf') \<and> tf_lost tf' = tf_lost tf
       else \<exists>new. new \<noteq> [] \<and> (\<forall>a \<in> set new. ar_visible a) \<and> tf_lost tf' = tf_lost tf @ new)
    \<and> tf_arrows tf' = tf_arrows tf"
proof -
  have average: "drops_average (tf_drops tf) = entries"
    by (simp add: drops_average_def average_rates entries_def)
  have "\<forall>e \<in> set entries. nodes_present w ((\<lambda>(i, v). [i]) e)"
  proof
    fix e assume "e \<in> set entries"
    then have "fst e \<in> set (map fst (map (\<lambda>d. (dr_from d, dr_bytes d)) (concat (tf_drops tf))))"
      unfolding entries_def by (rule rates_keys)
    then obtain d where "d \<in> set (concat (tf_drops tf))" "fst e = dr_from d" by auto
    then show "nodes_present w ((\<lambda>(i, v). [i]) e)" using assms(2) by (cases e) auto
  qed
  note present = this
  have ok: "list_all (has_rate di) entries = list_all moving entries" by (simp add: entries_def rate_moving [OF assms(1)])
  from drop_arrows.refresh_result [OF present, of di "tf_drop_arrows tf"] obtain old "as" where
    loop: "arrow_loop (\<lambda>(i, v). [i]) (draw_drop di) entries w (map hide (tf_drop_arrows tf)) [] = (w, old, as, \<not> list_all moving entries)"
      "if list_all moving entries then pool_shows (drop_shown di w) entries (length (tf_drop_arrows tf)) (as @ old)
       else as \<noteq> [] \<and> (\<forall>a \<in> set as. ar_visible a)"
    unfolding ok by blast
  show ?thesis
    using loop by (auto simp: update_drops_view_def average)
qed

lemma positions_nodes: "window_inv w \<Longrightarrow> nodes_present (update_node_positions w) is = nodes_present w is"
proof -
  assume "window_inv w"
  from perform_succeeds [OF this, of Update_Positions] have "dom (dict_get (w_nodes (update_node_positions w))) = dom (dict_get (w_nodes w))"
    by (simp add: op_ok_def)
  then have "(dict_get (w_nodes (update_node_positions w)) i \<noteq> None) = (dict_get (w_nodes w) i \<noteq> None)" for i by blast
  then show ?thesis by (simp only: nodes_present_def)
qed

text \<open>
  C22: After any sequence of samples the view shows the traffic of the last of them, as many as the
  smoothing asks for: one arrow for each pair of nodes and for each node that drops, in the order in which they first occur,
  drawn between the places of the nodes, with the average rate as its label; the arrows left over are
  hidden, and the pools hold no more than were ever needed.  If some average is of zero bytes, the logarithm
  raises: the update ends, and the arrows drawn so far stay visible for ever, as no pool holds them any more.
\<close>

theorem traffic_shown:
  fixes xs :: "(transmission list \<times> packet_drop list) list"
  assumes "window_inv w" and "0 < di_sample_period di" and "tf_transmissions tf = []" and "tf_drops tf = []"
    and "\<forall>(ts, ds) \<in> set xs. (\<forall>t \<in> set ts. nodes_present w [tx_from t, tx_to t]) \<and> (\<forall>d \<in> set ds. nodes_present w [dr_from d])"
    and "kept = drop (length xs - smooth_factor smoothing) xs"
  shows "\<exists>tf' raised. update_view di (w, foldl (\<lambda>tf (ts, ds). periodic_update smoothing ts ds tf) tf xs) = ((update_node_positions w, tf'), raised)
    \<and> (raised \<longleftrightarrow> \<not> (list_all moving (rates (sent kept)) \<and> list_all moving (rates (dropped kept))))
    \<and> (if raised then \<exists>new. new \<noteq> [] \<and> (\<forall>a \<in> set new. ar_visible a) \<and> tf_lost tf' = tf_lost tf @ new
       else pool_shows (transmission_shown di (update_node_positions w)) (rates (sent kept)) (length (tf_arrows tf)) (tf_arrows tf')
         \<and> pool_shows (drop_shown di (update_node_positions w)) (rates (dropped kept)) (length (tf_drop_arrows tf)) (tf_drop_arrows tf')
         \<and> tf_lost tf' = tf_lost tf)"
proof -
  let ?w = "update_node_positions w"
  let ?tf = "tf\<lparr>tf_transmissions := map fst kept, tf_drops := map snd kept\<rparr>"
  have tf: "foldl (\<lambda>tf (ts, ds). periodic_update smoothing ts ds tf) tf xs = ?tf"
    using keep_updates [OF assms(3,4)] by (simp add: assms(6) drop_map)
  have present: "\<forall>t \<in> set (concat (tf_transmissions ?tf)). nodes_present ?w [tx_from t, tx_to t]"
      "\<forall>d \<in> set (concat (tf_drops ?tf)). nodes_present ?w [dr_from d]"
    using assms(5) unfolding positions_nodes [OF assms(1)] assms(6) by (fastforce dest: in_set_dropD)+
  have entries: "map (\<lambda>t. ((tx_from t, tx_to t), tx_bytes t)) (concat (tf_transmissions ?tf)) = sent kept" by (simp add: sent_def)
  have fields: "tf_drops ?tf = map snd kept" "tf_arrows ?tf = tf_arrows tf" "tf_drop_arrows ?tf = tf_drop_arrows tf" "tf_lost ?tf = tf_lost tf"
    by simp_all
  from transmissions_view [OF assms(2) present(1), unfolded entries fields] obtain tf1 where
    one: "update_transmissions_view di (?w, ?tf) = ((?w, tf1), \<not> list_all moving (rates (sent kept)))"
      "if list_all moving (rates (sent kept))
       then pool_shows (transmission_shown di ?w) (rates (sent kept)) (length (tf_arrows tf)) (tf_arrows tf1) \<and> tf_lost tf1 = tf_lost tf
       else \<exists>new. new \<noteq> [] \<and> (\<forall>a \<in> set new. ar_visible a) \<and> tf_lost tf1 = tf_lost tf @ new"
      "tf_drops tf1 = map snd kept" "tf_drop_arrows tf1 = tf_drop_arrows tf"
    by blast
  show ?thesis
  proof (cases "list_all moving (rates (sent kept))")
    case False
    then show ?thesis using one unfolding tf by (auto simp: update_view_def)
  next
    case True
    have entries: "map (\<lambda>d. (dr_from d, dr_bytes d)) (concat (tf_drops tf1)) = dropped kept" by (simp add: dropped_def one(3))
    have "\<forall>d \<in> set (concat (tf_drops tf1)). nodes_present ?w [dr_from d]" using present(2) by (simp add: one(3))
    from drops_view [OF assms(2) this, unfolded entries one(4)] obtain tf2 where
      "update_drops_view di (?w, tf1) = ((?w, tf2), \<not> list_all moving (rates (dropped kept)))"
      "if list_all moving (rates (dropped kept))
       then pool_shows (drop_shown di ?w) (rates (dropped kept)) (length (tf_drop_arrows tf)) (tf_drop_arrows tf2) \<and> tf_lost tf2 = tf_lost tf1
       else \<exists>new. new \<noteq> [] \<and> (\<forall>a \<in> set new. ar_visible a) \<and> tf_lost tf2 = tf_lost tf1 @ new"
      "tf_arrows tf2 = tf_arrows tf1"
      by blast
    then show ?thesis using one True unfolding tf by (auto simp: update_view_def)
  qed
qed

text \<open>Three samples of which the smoothing keeps two.\<close>

definition sample_display :: display where
  "sample_display =
     \<lparr>di_log = (\<lambda>x. x / 100), di_clip = (\<lambda>p q. (p, q)), di_edge_y = 100, di_node_size = 1, di_sample_period = 1 / 10\<rparr>"

definition sample_traffic :: "(transmission list \<times> packet_drop list) list" where
  "sample_traffic =
     [([\<lparr>tx_from = 1, tx_to = 0, tx_bytes = 9\<rparr>], []), ([\<lparr>tx_from = 0, tx_to = 1, tx_bytes = 500\<rparr>], [\<lparr>dr_from = 1, dr_bytes = 40\<rparr>]),
      ([\<lparr>tx_from = 0, tx_to = 1, tx_bytes = 700\<rparr>], [])]"

definition no_traffic :: traffic where
  "no_traffic = \<lparr>tf_transmissions = [], tf_drops = [], tf_arrows = [], tf_drop_arrows = [], tf_lost = []\<rparr>"

theorem traffic_shown_witness:
  "\<exists>w' tf'. update_view sample_display (get_node 1 (get_node 0 (start_window [] 2)),
       foldl (\<lambda>tf (ts, ds). periodic_update (1 / 5) ts ds tf) no_traffic sample_traffic) = ((w', tf'), False)
     \<and> length (tf_arrows tf') = 1 \<and> length (tf_drop_arrows tf') = 1"
proof -
  let ?w = "get_node 1 (get_node 0 (start_window [] 2))"
  have inv: "window_inv ?w" using get_node_scan(1) start_inv by blast
  have nodes: "dict_get (w_nodes ?w) 0 \<noteq> None" "dict_get (w_nodes ?w) 1 \<noteq> None"
    by (simp_all add: get_node_def view_simps start_window_def set_show_transmissions_mode_def)
  then have present: "\<forall>(ts, ds) \<in> set sample_traffic.
      (\<forall>t \<in> set ts. nodes_present ?w [tx_from t, tx_to t]) \<and> (\<forall>d \<in> set ds. nodes_present ?w [dr_from d])"
    by (simp add: sample_traffic_def nodes_present_def)
  have kept: "tl sample_traffic = drop (length sample_traffic - smooth_factor (1 / 5)) sample_traffic"
    by (simp add: sample_traffic_def smooth_factor_def)
  have rates: "rates (sent (tl sample_traffic)) = [((0, 1), 1200, 2)]" "rates (dropped (tl sample_traffic)) = [(1, 40, 1)]"
    by (simp_all add: rates_def keys_in_order_def samples_of_def sent_def dropped_def sample_traffic_def)
  have "0 < di_sample_period sample_display" "tf_transmissions no_traffic = []" "tf_drops no_traffic = []"
    by (simp_all add: sample_display_def no_traffic_def)
  from traffic_shown [OF inv this present kept] obtain tf' raised where
    "update_view sample_display (?w, foldl (\<lambda>tf (ts, ds). periodic_update (1 / 5) ts ds tf) no_traffic sample_traffic)
       = ((update_node_positions ?w, tf'), raised)" "\<not> raised"
      "length (tf_arrows tf') = 1" "length (tf_drop_arrows tf') = 1"
    unfolding rates by (auto simp: moving_def pool_shows_def no_traffic_def)
  then show ?thesis by auto
qed

end
