(* ===== verification/Junit_Report.thy ===== *)
theory Junit_Report
  imports Py_Xml
begin

text \<open>
  \<^verbatim>\<open>src/source/elf-loader/test/testjunit.py\<close> and \<^verbatim>\<open>junit_xml_output/__init__.py\<close>: the tests of the loader are
  run one after the other, and their results become a report for JUnit.  The programs, \<^verbatim>\<open>diff\<close> and
  the permission to write are arguments; the report is the tree of elements that is printed.
\<close>

section \<open>The report\<close>

record test_case =
  tc_name :: string
  tc_contents :: string
  tc_type :: string

definition is_failure :: "test_case \<Rightarrow> bool" where
  "is_failure tc \<longleftrightarrow> tc_type tc = ''failure''"

definition case_element :: "test_case \<Rightarrow> xml" where
  "case_element tc =
     Elem ''testcase'' [(''name'', tc_name tc)] None (if is_failure tc then [Elem ''failure'' [] (Some (tc_contents tc)) []] else [])"

definition JunitXml :: "string \<Rightarrow> test_case list \<Rightarrow> nat option \<Rightarrow> nat option \<Rightarrow> xml" where
  "JunitXml testsuit_name test_cases total_tests total_failures =
     (let failing_test_cases = filter is_failure test_cases;
          total_tests = (case total_tests of None \<Rightarrow> length test_cases | Some n \<Rightarrow> n);
          total_failures = (case total_failures of None \<Rightarrow> length failing_test_cases | Some n \<Rightarrow> n)
      in Elem ''testsuite''
           [(''name'', testsuit_name), (''failures'', show_nat total_failures), (''tests'', show_nat total_tests)] None
           (map case_element test_cases))"

section \<open>The tests\<close>

text \<open>A process ends with its return code and what it wrote on its two outputs; \<open>None\<close> when it cannot be started.\<close>

type_synonym proc_outcome = "int \<times> string \<times> string"
type_synonym file_texts = "(string, string) dict"

record host =
  ho_run :: "file_texts \<Rightarrow> string \<Rightarrow> proc_outcome option"
  ho_diff :: "file_texts \<Rightarrow> string \<Rightarrow> string \<Rightarrow> proc_outcome option"
  ho_writable :: "string \<Rightarrow> bool"

definition command_line :: "string \<Rightarrow> string" where
  "command_line arg = arg @ ''  -- LD_LIBRARY_PATH=.:../ ./'' @ arg @ ''-ldso''"

text \<open>The result of one test: its case and the line that is printed.\<close>

definition judge :: "host \<Rightarrow> file_texts \<Rightarrow> string \<Rightarrow> proc_outcome \<Rightarrow> (test_case \<times> string) res" where
  "judge h fs arg result =
     (let (returncode, stdout, stderr) = result in
      if returncode \<noteq> 0
      then Inr (\<lparr>tc_name = arg, tc_contents = ''(crash)'' @ [CHR 10] @ '' '' @ stderr, tc_type = ''failure''\<rparr>, ''CRASH '' @ command_line arg)
      else case ho_diff h fs (''output/'' @ arg) (''output/'' @ arg @ ''.ref'') of
             None \<Rightarrow> Inl (PyException ''OSError'')
           | Some (returncode, stdout, stderr) \<Rightarrow>
               Inr (if returncode \<noteq> 0 then (\<lparr>tc_name = arg, tc_contents = stderr, tc_type = ''failure''\<rparr>, ''FAIL '' @ command_line arg)
                    else (\<lparr>tc_name = arg, tc_contents = stdout, tc_type = ''success''\<rparr>, ''PASS '' @ arg)))"

definition run_test :: "host \<Rightarrow> file_texts \<times> test_case list \<times> string list \<Rightarrow> string \<Rightarrow> (file_texts \<times> test_case list \<times> string list) res" where
  "run_test h st arg =
     (let (fs, test_cases, printed) = st;
          fs = (if has_text arg ''12'' then dict_remove fs ''libl.so'' else fs)
      in case ho_run h fs arg of
           None \<Rightarrow> Inl (PyException ''OSError'')
         | Some result \<Rightarrow>
             if \<not> ho_writable h (''output/'' @ arg) then Inl (PyException ''IOError'')
             else
               (let fs = dict_set fs (''output/'' @ arg) (fst (snd result)) in
                rbind (judge h fs arg result) (\<lambda>(tc, line). Inr (fs, test_cases @ [tc], printed @ [line]))))"

definition testjunit :: "host \<Rightarrow> string list \<Rightarrow> file_texts \<Rightarrow> (file_texts \<times> string list \<times> xml) res" where
  "testjunit h args fs =
     rbind (foldM (run_test h) (fs, [], []) args) (\<lambda>(fs, test_cases, printed).
     if ho_writable h ''elf-loader-tests.xml'' then Inr (fs, printed, JunitXml ''elf-loader-tests'' test_cases None None)
     else Inl (PyException ''IOError''))"

end
