(* ===== verification/Junit_Report_Correct.thy ===== *)
theory Junit_Report_Correct
  imports Junit_Report
begin

text \<open>Correctness of the report about the tests of the loader.\<close>

text \<open>
  What the script relies on: programs whose results do not depend on the files it writes, and a \<^verbatim>\<open>diff\<close> that
  returns 0 exactly on two files with the same text.
\<close>

definition host_ok :: "host \<Rightarrow> (string \<Rightarrow> proc_outcome) \<Rightarrow> string list \<Rightarrow> bool" where
  "host_ok h result args \<longleftrightarrow>
     (\<forall>arg \<in> set args. (\<forall>fs. ho_run h fs arg = Some (result arg)) \<and> ho_writable h (''output/'' @ arg))
     \<and> (\<forall>fs a b. \<exists>r. ho_diff h fs a b = Some r \<and> (fst r = 0 \<longleftrightarrow> dict_get fs a \<noteq> None \<and> dict_get fs a = dict_get fs b))"

definition test_passes :: "(string \<Rightarrow> proc_outcome) \<Rightarrow> file_texts \<Rightarrow> string \<Rightarrow> bool" where
  "test_passes result fs arg \<longleftrightarrow>
     fst (result arg) = 0 \<and> dict_get fs (''output/'' @ arg @ ''.ref'') = Some (fst (snd (result arg)))"

definition case_of :: "(string \<Rightarrow> proc_outcome) \<Rightarrow> file_texts \<Rightarrow> string \<Rightarrow> test_case \<Rightarrow> bool" where
  "case_of result fs arg tc \<longleftrightarrow> tc_name tc = arg \<and> (is_failure tc \<longleftrightarrow> \<not> test_passes result fs arg)"

lemma judge_result:
  assumes "\<forall>a b. \<exists>r. ho_diff h fs a b = Some r \<and> (fst r = 0 \<longleftrightarrow> dict_get fs a \<noteq> None \<and> dict_get fs a = dict_get fs b)"
    and "dict_get fs (''output/'' @ arg) = Some (fst (snd (result arg)))"
    and "dict_get fs (''output/'' @ arg @ ''.ref'') = dict_get fs0 (''output/'' @ arg @ ''.ref'')"
  shows "\<exists>tc line. judge h fs arg (result arg) = Inr (tc, line) \<and> case_of result fs0 arg tc"
proof -
  obtain c out err where r: "result arg = (c, out, err)" by (metis surj_pair)
  obtain d where d: "ho_diff h fs (''output/'' @ arg) (''output/'' @ arg @ ''.ref'') = Some d"
      "fst d = 0 \<longleftrightarrow> dict_get fs0 (''output/'' @ arg @ ''.ref'') = Some out"
    using assms r by (metis fst_conv option.discI snd_conv)
  show ?thesis
    using d by (cases d) (auto simp: judge_def r case_of_def test_passes_def is_failure_def)
qed

lemma tests_result:
  assumes "host_ok h result args" and "set ds \<subseteq> set args" and "\<forall>a \<in> set args. a @ ''.ref'' \<notin> set args"
    and "\<forall>a \<in> set args. dict_get fs (''output/'' @ a @ ''.ref'') = dict_get fs0 (''output/'' @ a @ ''.ref'')"
  shows "\<exists>fs' tcs lines. foldM (run_test h) (fs, cs, ls) ds = Inr (fs', cs @ tcs, ls @ lines) \<and> list_all2 (case_of result fs0) ds tcs
    \<and> length lines = length ds"
  using assms(2,4)
proof (induction ds arbitrary: fs cs ls)
  case Nil
  then show ?case by (intro exI [of _ fs] exI [of _ "[]"]) simp
next
  case (Cons arg ds)
  define fs1 where "fs1 = (if has_text arg ''12'' then dict_remove fs ''libl.so'' else fs)"
  define fs2 where "fs2 = dict_set fs1 (''output/'' @ arg) (fst (snd (result arg)))"
  have arg: "arg \<in> set args" using Cons.prems(1) by simp
  have refs: "\<forall>a \<in> set args. dict_get fs2 (''output/'' @ a @ ''.ref'') = dict_get fs0 (''output/'' @ a @ ''.ref'')"
    using Cons.prems(2) arg assms(3) by (auto simp: fs2_def fs1_def)
  have run: "ho_run h fs1 arg = Some (result arg)" "ho_writable h (''output/'' @ arg)"
    using assms(1) arg by (simp_all add: host_ok_def)
  have "dict_get fs2 (''output/'' @ arg) = Some (fst (snd (result arg)))" by (simp add: fs2_def)
  with judge_result [of h fs2 arg result fs0] assms(1) refs arg obtain tc line where
    judged: "judge h fs2 arg (result arg) = Inr (tc, line)" "case_of result fs0 arg tc"
    unfolding host_ok_def by blast
  have step: "run_test h (fs, cs, ls) arg = Inr (fs2, cs @ [tc], ls @ [line])"
    unfolding run_test_def Let_def prod.case fs1_def [symmetric] run(1) option.case fs2_def [symmetric] judged(1)
    using run(2) by simp
  have "set ds \<subseteq> set args" using Cons.prems(1) by simp
  from Cons.IH [OF this refs, of "cs @ [tc]" "ls @ [line]"] obtain fs' tcs lines where
    "foldM (run_test h) (fs2, cs @ [tc], ls @ [line]) ds = Inr (fs', cs @ tc # tcs, ls @ line # lines)"
    "list_all2 (case_of result fs0) ds tcs" "length lines = length ds" by auto
  then show ?case using step judged(2) by (intro exI [of _ fs'] exI [of _ "tc # tcs"] exI [of _ "line # lines"]) simp
qed


text \<open>Of three tests the first passes, the second crashes and the output of the third differs.\<close>

definition sample_host :: host where
  "sample_host =
     \<lparr>ho_run = (\<lambda>fs arg. Some (if arg = ''test1'' then (139, '''', ''signal 11'') else (0, ''ok'', ''''))),
      ho_diff = (\<lambda>fs a b. Some (if dict_get fs a \<noteq> None \<and> dict_get fs a = dict_get fs b then 0 else 1, '''', '''')),
      ho_writable = (\<lambda>_. True)\<rparr>"


end
