(* ===== verification/Spec2Isabelle.thy ===== *)
theory Spec2Isabelle
  imports Topsort_Correct Shellcmd_Correct Check_Style_Correct Grid_Gtk_Correct Test_Runner_Correct
    Create_Module_Correct Debug_Info_Correct Waf_Tools_Correct Flow_Monitor_Correct
    Wutils_Correct Nice_Units_Correct Patterns_Correct Module_Scan_Correct
    Ns3_Waf_Correct Viz_Run_Correct Viz_Traffic_Correct Junit_Report_Correct
begin

text \<open>
  A verification development for the Python code of the I2BGP tree: the scripts with which
  ns-3 and DCE are built, tested and inspected, and the visualizer.  Paths that start with
  \<^verbatim>\<open>elf-loader/\<close> or \<^verbatim>\<open>ns-3-dce/\<close> are relative to \<^verbatim>\<open>src/source/\<close>, all others to
  \<^verbatim>\<open>src/source/ns-3-dev/\<close>.

  \<^bold>\<open>The program.\<close>  The Python part of the tree is a set of tools around the C++ simulator.
  \<^verbatim>\<open>test.py\<close> builds the simulator with waf, reads the saved configuration (with the readers of
  \<^verbatim>\<open>utils.py\<close>), chooses test suites and examples, runs them in parallel threads and reports the
  results.  \<^verbatim>\<open>waf-tools/shellcmd.py\<close> is the small shell with which the build runs its command
  lines.  \<^verbatim>\<open>utils/check-style.py\<close> compares sources with the output of an indenter, filtering
  the difference as a patch set.  \<^verbatim>\<open>utils/grid.py\<close> shows the log of a simulation as timelines
  in a window.  \<^verbatim>\<open>bindings/python/topsort.py\<close> and \<^verbatim>\<open>rad_util.py\<close> are the sorting
  algorithm and the helper functions of the bindings; the scanners \<^verbatim>\<open>ns3modulescan.py\<close> and
  \<^verbatim>\<open>ns3modulescan-modular.py\<close> beside them annotate the C++ definitions and sort the modules into
  sections with \<^verbatim>\<open>topsort\<close>.  \<^verbatim>\<open>waf-tools/cflags.py\<close> and
  \<^verbatim>\<open>waf-tools/versioning.py\<close> are configuration steps of the build: compiler flags and version;
  \<^verbatim>\<open>wutils.py\<close> runs what was built.
  \<^verbatim>\<open>utils/create-module.py\<close> creates the skeleton of a new module,
  \<^verbatim>\<open>src/flow-monitor/examples/flowmon-parse-results.py\<close> reports what the simulator's flow monitor
  measured, and \<^verbatim>\<open>elf-loader/extract-system-config.py\<close> reads offsets out of the debug
  information of the C library for the loader under DCE; \<^verbatim>\<open>elf-loader/test/testjunit.py\<close> runs the tests of
  that loader.  \<^verbatim>\<open>ns-3-dce/ns3waf/__init__.py\<close> finds an
  installed ns-3 and builds modules against it.  The visualizer,
  \<^verbatim>\<open>src/visualizer/visualizer/core.py\<close> and \<^verbatim>\<open>base.py\<close>, shows a simulation that runs in a second
  thread.

  \<^bold>\<open>Theories.\<close>  Each component has a theory of definitions, in the order and with the names of
  the source, and a theory \<open>..._Correct\<close> of theorems.

  \<^item> \<open>Py_Prelude\<close>, \<open>Py_Strings\<close>, \<open>Py_Num\<close>, \<open>Py_Xml\<close>, \<open>Py_Regex\<close>: exceptions as values of type
    \<open>res\<close>, indexing and slicing, dictionaries as association lists in insertion order, strings,
    paths, shell patterns, the mixed numbers of Python 2 and their texts, elements and events of
    XML documents, and the backtracking matcher of \<^verbatim>\<open>re\<close> as a function to the list of all matches
    in the order of preference.  The interfaces are locales: \<open>checked_loop\<close> and
    \<open>total_loop\<close> (a loop whose body keeps an invariant, and one that moreover cannot fail) and
    \<open>dict_ops\<close> (what a dictionary promises).
  \<^item> \<open>Topsort\<close>: \<^verbatim>\<open>topsort\<close>, \<^verbatim>\<open>topsort_levels\<close>, \<^verbatim>\<open>find_cycles\<close>.  The order in which a
    dictionary lists its keys is an argument, so the theorems hold for every order.  Both sorts
    are correct and raise \<^verbatim>\<open>CycleError\<close> exactly on cyclic input; the cycle search finds each
    simple cycle once up to rotation.
  \<^item> \<open>Rad_Util\<close>: the helper functions; round trips, equivalence with reference definitions,
    and the inputs on which they raise.
  \<^item> \<open>Shellcmd\<close>: \<^verbatim>\<open>Pipeline.parse\<close> as a state machine over tokens and \<^verbatim>\<open>Pipeline.run\<close> over
    an operating system that is an argument.  Parsing is inverse to printing; a run refines an
    abstract meaning of command lines, and leaves no file open and no process unwaited.
  \<^item> \<open>Check_Style\<close>: the patch classes and parser, the whitespace filter, \<^verbatim>\<open>indent_files\<close> and
    the command line.  Parsing is inverse to writing; a check passes exactly when nothing
    would change; rewriting in place touches only the given files.
  \<^item> \<open>Grid_Data\<close>, \<open>Grid_Render\<close>, \<open>Grid_Gtk\<close>: timelines and the log reader, layout and drawing
    (the drawing is the list of the operations on the cairo context), and the callbacks of the
    window.  The reader files every line of a log; the two binary searches are instances of the
    locale \<open>bisection\<close>, the get-or-add methods of \<open>named_objects\<close>; the layouts keep their bounds;
    \<open>Grid_Main_Correct\<close> goes from the log to the first picture; the relation \<open>session\<close> of
    \<open>Grid_Gtk_Correct\<close> holds the states that callbacks can reach, with their invariant.
  \<^item> \<open>Config_Files\<close>, \<open>Test_Runner\<close>: \<^verbatim>\<open>utils.py\<close> and \<^verbatim>\<open>test.py\<close>.  \<open>prepare\<close> is the part of
    \<^verbatim>\<open>run_tests\<close> before the threads, \<open>pool_step\<close> the interleaving of the main thread, the workers
    and the interrupt, \<open>conclude\<close> the part after them.  Every schedule ends, none blocks, each job
    comes back once (proved in the locale \<open>performer\<close>, whose one law is that running a job keeps
    what it is); the exit code says whether all passed; the selection and the text report are
    characterised.
  \<^item> \<open>Create_Module\<close>: the templates and \<^verbatim>\<open>str.format\<close>, the functions that make the parts of a
    module as actions on a file system (a map from paths to directories and files), the check
    and choice of names, \<^verbatim>\<open>main\<close>.  A module is made completely or not at all; the locale \<open>change\<close>
    (what an action keeps of a file system) is interpreted three times: an action grows only the
    module, keeps the tree of directories, and adds only below the given places.
  \<^item> \<open>Debug_Info\<close>: the cursor over the lines of \<^verbatim>\<open>readelf\<close>, the queries and \<^verbatim>\<open>main\<close>.  The loops of
    the reader need not end: they are \<open>partial_function\<close>s with \<open>None\<close> for a call that does not
    return.  The locales \<open>item_source\<close> and \<open>item_search\<close> state what a reader yields and what a
    search over it finds; the theorems say exactly when a query returns, and with what.
  \<^item> \<open>Waf_Tools\<close>: the compiler flags of a profile and the version fields, which are recovered from
    what \<^verbatim>\<open>git describe\<close> prints.
  \<^item> \<open>Wutils\<close>: how \<^verbatim>\<open>waf --run\<close> finds and runs a program (\<^verbatim>\<open>wutils.py\<close>), with \<^verbatim>\<open>%\<close>-formatting
    of one string; the outcome of a run, the environment, the fallback for \<^verbatim>\<open>os.path.relpath\<close>.
  \<^item> \<open>Nice_Units\<close>: \<^verbatim>\<open>nice_units\<close> of \<^verbatim>\<open>rad_util.py\<close> with the formats \<^verbatim>\<open>%.nf\<close> and \<^verbatim>\<open>%.ng\<close>.
  \<^item> \<open>Patterns_Correct\<close>: the matchers written by hand for the line readers agree with the regular
    expressions of the sources under the matcher of \<open>Py_Regex\<close>.
  \<^item> \<open>Flow_Monitor\<close>: flows, classifier, probes, the reading loop and the report.  The flows are a
    list with a dictionary of positions, since two names refer to one object; the locale
    \<open>flow_updates\<close> is the contract of the two loops that change flows through that dictionary.
    The last section models how the simulator prints times and flows, on which the script fails.
  \<^item> \<open>Module_Scan\<close>: the header of a path, the two hooks that annotate a definition, and the sections,
    which rest on \<open>topsort\<close>.  The loop of the older scanner need not end and is a
    \<open>partial_function\<close>; the theorems say when it does, that sections follow dependencies, and from
    where a definition is imported.
  \<^item> \<open>Ns3_Waf\<close>: configuration over a record of waf's environment, and the building of a module as the
    list of its calls on waf's build context.  The theorems say which modules are found and which
    are built, and what a static build and a missing \<^verbatim>\<open>PKG_CONFIG_PATH\<close> lead to.
  \<^item> \<open>Viz_Run\<close>: the thread of the simulator and the callbacks of the window, each statement on what they
    share a step (\<open>sim_step\<close>, \<open>view_step\<close>, \<open>serve\<close>); callbacks nest, as the timer callback serves
    events while it waits for the lock.  In every reachable state the lock excludes, the simulation
    stays within a second of the picture, and no callback waits for ever.
  \<^item> \<open>Viz_View\<close>, with \<open>Viz_View_Correct\<close>, \<open>Viz_Scan_Correct\<close>, \<open>Viz_Topology_Correct\<close> and
    \<open>Viz_Session_Correct\<close>: nodes, channels and links with the properties of their items, the scan of the
    topology, selection and dragging.  \<open>window_inv\<close> is kept by every operation; the scan makes
    exactly the links of the wired devices and puts nodes where they belong; a dragged node follows the
    pointer.
  \<^item> \<open>Viz_Traffic\<close>: the arrows that show transmitted and dropped packets.  Both loops that take arrows
    out of a pool are instances of the locale \<open>arrow_drawing\<close>; the view shows the averages of the samples
    that the smoothing keeps, and loses arrows when the logarithm raises.
  \<^item> \<open>Junit_Report\<close>: \<^verbatim>\<open>elf-loader/test/testjunit.py\<close> and the report it writes, which is complete.

  \<^bold>\<open>Modelling.\<close>  Classes are records, enumerations and tagged values datatypes; a method takes
  the record and returns it changed.  Every raise and failing library call is an \<open>Inl\<close> of the
  result type.  Loops are structural recursion or \<open>fun\<close> with a termination proof, and partial
  functions in \<open>Debug_Info\<close> and \<open>Module_Scan\<close>, where non-termination is a result; no definition uses fuel.  The
  repetition of a regular expression is unrolled as often as the subject has characters, which is
  enough as a round that consumes nothing is not repeated.  Code outside the repository is an
  argument: the operating system and \<^verbatim>\<open>shlex\<close> (\<open>Shellcmd\<close>), uncrustify, difflib and patch
  (\<open>tools\<close> of \<open>Check_Style\<close>), the text extents of cairo (\<open>font\<close>), files, processes and the
  evaluation of expressions (\<open>world\<close> of \<open>Test_Runner\<close>), the XML parser, the permissions of the
  process and the removal of a directory (\<open>rights\<close> of \<open>Create_Module\<close>), readelf, git, waf's
  task generators (\<open>build\<close> of \<open>Wutils\<close>), pkg-config and the compilers (\<open>waf_system\<close>), the functions of
  pygccxml (\<open>templates\<close>), the simulator (\<open>simulator\<close> of \<open>Viz_Run\<close>), the network and the layout program
  of \<open>scan_topology\<close>.  What a theorem needs of
  them it states as a hypothesis, which its witness meets with a concrete instance.
  \<^verbatim>\<open>grid.py\<close> and \<^verbatim>\<open>rad_util.py\<close> are read as Python 2 programs, as their use of
  \<^verbatim>\<open>has_key\<close>, comparison functions and integer division demands.  Floats are rational numbers;
  rounding is not modelled.  A callback that raises ends the modelled session.

  \<^bold>\<open>Not modelled.\<close>  Messages under \<^verbatim>\<open>--verbose\<close> and \<^verbatim>\<open>--debug\<close>; the construction of GTK
  widgets; \<^verbatim>\<open>timestamp\<close> and \<^verbatim>\<open>getmodule\<close> of \<^verbatim>\<open>rad_util.py\<close> (the clock, introspection); the texts of command-line help; the special floats
  \<^verbatim>\<open>inf\<close> and \<^verbatim>\<open>nan\<close>; of the visualizer the drawing and the widgets, that is SVG icons, tooltips,
  panning, zoom, screenshots, the shell, the HUD and the plugins, which are
  calls to GTK, goocanvas and the compiled simulator; the other waf tools and the drivers of pybindgen and
  pygccxml (the bindings generators, the end of the scanners), which subclass or call packages that are
  not in the tree; the descriptions of the bindings (\<^verbatim>\<open>modulegen__gcc_*.py\<close>), which are generated
  and have no control flow; the older variants of modelled scripts under \<^verbatim>\<open>ns-3-dce\<close>; simulation
  examples, lists of examples and Sphinx configurations.
\<close>

end
